(* ===== verification/Prelude.thy ===== *)
theory Prelude
  imports Complex_Main "HOL-Library.AList"
begin

text \<open>
  Shared vocabulary of the development: the exceptions the Python code raises, the effect
  type of its methods (state passing with an exception or a value as the result, the state
  being kept on both), the control structures of the source as combinators on that type,
  Python's insertion-ordered dictionaries as association lists, and the reasoning principles
  the component theories use on all of them: evaluation rules, Hoare triples with an
  exceptional postcondition, and \<open>steps R m\<close>, which says that a method relates every
  start state to its end state by \<open>R\<close>, whether it returns or raises.
\<close>

section \<open>Names, times and exceptions\<close>

type_synonym uri = string

text \<open>Clock readings and periods (Python floats, in seconds) are rationals.\<close>

type_synonym time = rat

text \<open>
  One constructor per kind of failure. The first group is raised by Python itself
  (an attribute of \<open>None\<close>, a missing key, a bad argument) or by the database driver; the second by the explicit
  \<open>raise Exception(...)\<close> statements of the logs, of \<open>ClusterOps\<close>, the roles and the
  deck; \<open>ConnectionError\<close> carries its reason; \<open>AppError\<close> stands for whatever the user-supplied pilot raises, and for a bare
  \<open>Exception(...)\<close> of the library around the engine.
\<close>

datatype exn =
    AttributeError | KeyError | TypeError | ValueError | IndexError | TimeoutError | RuntimeError | AssertionError | ConnectionError string
  | OverflowError | IntegrityError | InsertPastLast | InsertBelowOne | ReadBelowOne int
  | DeleteInSnapshot int | DeletePastMax int int | SnapshotAtZero
  | LogBroken | LogNotRunning | UnknownWriterCode
  | LeaderUnknown uri | ChangeInProgress uri | AlreadyActiveNode uri
  | NotPendingAddition uri | RemoveWhilePending uri uri | NotActiveNode uri
  | NotPendingRemoval uri | NotClusterNode uri
  | MustBeLeader | TransferNotLeader | SnapshotTransferFailed | MessageWaitTimeout
  | AppError string

section \<open>Effects\<close>

text \<open>
  A method of an object with state \<open>'s\<close> that returns a \<open>'b\<close>. A raised exception keeps the
  assignments made before it, as in Python.
\<close>

type_synonym ('s, 'b) eff = "'s \<Rightarrow> (exn + 'b) \<times> 's"

definition ret :: "'b \<Rightarrow> ('s, 'b) eff" where
  "ret x = (\<lambda>s. (Inr x, s))"

definition throw :: "exn \<Rightarrow> ('s, 'b) eff" where
  "throw e = (\<lambda>s. (Inl e, s))"

definition bindE :: "('s, 'a) eff \<Rightarrow> ('a \<Rightarrow> ('s, 'b) eff) \<Rightarrow> ('s, 'b) eff" where
  "bindE m f = (\<lambda>s. case m s of (Inl e, t) \<Rightarrow> (Inl e, t) | (Inr x, t) \<Rightarrow> f x t)"

definition seqE :: "('s, 'a) eff \<Rightarrow> ('s, 'b) eff \<Rightarrow> ('s, 'b) eff" where
  "seqE m n = bindE m (\<lambda>_. n)"

definition getsE :: "('s \<Rightarrow> 'b) \<Rightarrow> ('s, 'b) eff" where
  "getsE f = (\<lambda>s. (Inr (f s), s))"

definition modE :: "('s \<Rightarrow> 's) \<Rightarrow> ('s, unit) eff" where
  "modE f = (\<lambda>s. (Inr (), f s))"

text \<open>\<open>if b: m\<close> without an else branch.\<close>

definition whenE :: "bool \<Rightarrow> ('s, unit) eff \<Rightarrow> ('s, unit) eff" where
  "whenE b m = (if b then m else ret ())"

text \<open>\<open>try: m except Exception as e: h(e)\<close>.\<close>

definition tryE :: "('s, 'b) eff \<Rightarrow> (exn \<Rightarrow> ('s, 'b) eff) \<Rightarrow> ('s, 'b) eff" where
  "tryE m h = (\<lambda>s. case m s of (Inl e, t) \<Rightarrow> h e t | (Inr x, t) \<Rightarrow> (Inr x, t))"

text \<open>Reading an attribute of a value that may be \<open>None\<close>.\<close>

definition some_or :: "exn \<Rightarrow> 'b option \<Rightarrow> ('s, 'b) eff" where
  "some_or e v = (case v of None \<Rightarrow> throw e | Some x \<Rightarrow> ret x)"

text \<open>\<open>for x in xs: f(x)\<close>, and the same loop with a local accumulator.\<close>

fun forE :: "'x list \<Rightarrow> ('x \<Rightarrow> ('s, unit) eff) \<Rightarrow> ('s, unit) eff" where
  "forE [] f = ret ()"
| "forE (x # xs) f = seqE (f x) (forE xs f)"

fun foldE :: "'x list \<Rightarrow> ('x \<Rightarrow> 'c \<Rightarrow> ('s, 'c) eff) \<Rightarrow> 'c \<Rightarrow> ('s, 'c) eff" where
  "foldE [] f acc = ret acc"
| "foldE (x # xs) f acc = bindE (f x acc) (\<lambda>acc'. foldE xs f acc')"

text \<open>A result computed outside the state, and a method of a sub-object.\<close>

definition liftE :: "exn + 'b \<Rightarrow> ('s, 'b) eff" where
  "liftE r = (\<lambda>s. (r, s))"

definition zoomE :: "('s \<Rightarrow> 't) \<Rightarrow> ('t \<Rightarrow> 's \<Rightarrow> 's) \<Rightarrow> ('t, 'b) eff \<Rightarrow> ('s, 'b) eff" where
  "zoomE sel upd m = (\<lambda>s. case m (sel s) of (r, t) \<Rightarrow> (r, upd t s))"

text \<open>\<open>range(a, b)\<close> on Python's integers.\<close>

definition py_range :: "int \<Rightarrow> int \<Rightarrow> int list" where
  "py_range a b = [a..b - 1]"

subsection \<open>Evaluation rules\<close>

text \<open>
  The collection \<open>run\<close> evaluates a method at a state. It is not part of the default simpset, where
  it would unfold methods that are only passed around.
\<close>

named_theorems run

lemma run_ret [run]: "ret x s = (Inr x, s)"
  by (simp add: ret_def)

lemma run_throw [run]: "throw e s = (Inl e, s)"
  by (simp add: throw_def)

lemma run_bindE [run]:
  "bindE m f s = (case m s of (Inl e, t) \<Rightarrow> (Inl e, t) | (Inr x, t) \<Rightarrow> f x t)"
  by (simp add: bindE_def)

lemma run_seqE [run]:
  "seqE m n s = (case m s of (Inl e, t) \<Rightarrow> (Inl e, t) | (Inr x, t) \<Rightarrow> n t)"
  by (simp add: seqE_def bindE_def)

lemma run_getsE [run]: "getsE f s = (Inr (f s), s)"
  by (simp add: getsE_def)

lemma run_modE [run]: "modE f s = (Inr (), f s)"
  by (simp add: modE_def)

lemma run_liftE [run]: "liftE r s = (r, s)"
  by (simp add: liftE_def)

lemma run_zoomE [run]: "zoomE sel upd m s = (case m (sel s) of (r, t) \<Rightarrow> (r, upd t s))"
  by (simp add: zoomE_def)

lemma run_tryE [run]:
  "tryE m h s = (case m s of (Inl e, t) \<Rightarrow> h e t | (Inr x, t) \<Rightarrow> (Inr x, t))"
  by (simp add: tryE_def)

lemma whenE_simps [simp, run]: "whenE True m = m" "whenE False m = ret ()"
  by (simp_all add: whenE_def)

lemma some_or_simps [simp, run]: "some_or e None = throw e" "some_or e (Some x) = ret x"
  by (simp_all add: some_or_def)

lemma run_whenE [run]: "whenE b m s = (if b then m s else (Inr (), s))"
  by (simp add: run)

lemma bindE_assoc: "bindE (bindE m f) g = bindE m (\<lambda>x. bindE (f x) g)"
  by (rule ext) (auto simp: bindE_def split: prod.splits sum.splits)

lemma bindE_ret_left [simp]: "bindE (ret x) f = f x"
  by (rule ext) (simp add: run)

lemma seqE_assoc: "seqE (seqE m n) k = seqE m (seqE n k)"
  by (simp add: seqE_def bindE_assoc)

lemma seqE_ret_left [simp]: "seqE (ret x) m = m"
  by (simp add: seqE_def)

lemma forE_append: "forE (xs @ ys) f = seqE (forE xs f) (forE ys f)"
  by (induction xs) (simp_all add: seqE_def bindE_assoc)

section \<open>Hoare triples\<close>

text \<open>
  \<open>triple P m Q X\<close>: from a state satisfying \<open>P\<close>, a returned value and end state satisfy \<open>Q\<close>
  and a raised exception and end state satisfy \<open>X\<close>. Every method of the model terminates, so
  this is total correctness.
\<close>

definition triple ::
  "('s \<Rightarrow> bool) \<Rightarrow> ('s, 'b) eff \<Rightarrow> ('b \<Rightarrow> 's \<Rightarrow> bool) \<Rightarrow> (exn \<Rightarrow> 's \<Rightarrow> bool) \<Rightarrow> bool" where
  "triple P m Q X \<longleftrightarrow>
     (\<forall>s. P s \<longrightarrow> (case m s of (Inl e, t) \<Rightarrow> X e t | (Inr x, t) \<Rightarrow> Q x t))"

lemma tripleI:
  "(\<And>s. P s \<Longrightarrow> case m s of (Inl e, t) \<Rightarrow> X e t | (Inr x, t) \<Rightarrow> Q x t) \<Longrightarrow> triple P m Q X"
  by (simp add: triple_def)

lemma triple_weaken:
  "triple P' m Q' X' \<Longrightarrow> (\<And>s. P s \<Longrightarrow> P' s) \<Longrightarrow> (\<And>x t. Q' x t \<Longrightarrow> Q x t) \<Longrightarrow>
   (\<And>e t. X' e t \<Longrightarrow> X e t) \<Longrightarrow> triple P m Q X"
  unfolding triple_def by (fastforce split: prod.splits sum.splits)

lemma triple_bindE:
  assumes "triple P m R X" and "\<And>x. triple (R x) (f x) Q X"
  shows "triple P (bindE m f) Q X"
  using assms unfolding triple_def by (fastforce simp: run split: prod.splits sum.splits)

lemma triple_seqE:
  assumes "triple P m (\<lambda>_. R) X" and "triple R n Q X"
  shows "triple P (seqE m n) Q X"
  using assms unfolding seqE_def by (auto intro: triple_bindE)

lemma triple_ret: "(\<And>s. P s \<Longrightarrow> Q x s) \<Longrightarrow> triple P (ret x) Q X"
  by (simp add: triple_def run)

lemma triple_forE:
  assumes "\<And>x. x \<in> set xs \<Longrightarrow> triple I (f x) (\<lambda>_. I) X"
  shows "triple I (forE xs f) (\<lambda>_. I) X"
  using assms
proof (induction xs)
  case Nil
  show ?case by (simp add: triple_ret)
next
  case (Cons x xs)
  then show ?case by (auto intro: triple_seqE)
qed

section \<open>Transition relations of methods\<close>

definition steps :: "('s \<Rightarrow> 's \<Rightarrow> bool) \<Rightarrow> ('s, 'b) eff \<Rightarrow> bool" where
  "steps R m \<longleftrightarrow> (\<forall>s. R s (snd (m s)))"

lemma stepsI: "(\<And>s. R s (snd (m s))) \<Longrightarrow> steps R m"
  by (simp add: steps_def)

lemma stepsD: "steps R m \<Longrightarrow> R s (snd (m s))"
  by (simp add: steps_def)

lemma stepsE: "steps R m \<Longrightarrow> m s = (r, t) \<Longrightarrow> R s t"
  by (metis snd_conv steps_def)

text \<open>
  A reflexive and transitive relation is kept by every control structure of the source as soon
  as its parts keep it. An invariant \<open>I\<close> is the case \<open>R s t = (I s \<longrightarrow> I t)\<close>, a monotone quantity
  the case \<open>R s t = (f s \<le> f t)\<close>, a frame property the case \<open>R s t = (f t = f s)\<close>.
\<close>

locale method_rel =
  fixes R :: "'s \<Rightarrow> 's \<Rightarrow> bool"
  assumes rel_refl: "R s s"
    and rel_trans: "R s t \<Longrightarrow> R t u \<Longrightarrow> R s u"
begin

lemma steps_ret: "steps R (ret x)"
  by (simp add: steps_def rel_refl run)

lemma steps_throw: "steps R (throw e)"
  by (simp add: steps_def rel_refl run)

lemma steps_getsE: "steps R (getsE f)"
  by (simp add: steps_def rel_refl run)

lemma steps_liftE: "steps R (liftE r)"
  by (simp add: steps_def rel_refl run)

lemma steps_some_or: "steps R (some_or e v)"
  by (cases v) (simp_all add: steps_ret steps_throw)

lemma steps_bindE: "steps R m \<Longrightarrow> (\<And>x. steps R (f x)) \<Longrightarrow> steps R (bindE m f)"
  unfolding steps_def by (auto simp: run split: prod.splits sum.splits) (metis rel_trans snd_conv)+

lemma steps_seqE: "steps R m \<Longrightarrow> steps R n \<Longrightarrow> steps R (seqE m n)"
  unfolding seqE_def by (rule steps_bindE)

lemma steps_whenE: "(b \<Longrightarrow> steps R m) \<Longrightarrow> steps R (whenE b m)"
  by (cases b) (simp_all add: steps_ret)

lemma steps_tryE: "steps R m \<Longrightarrow> (\<And>e. steps R (h e)) \<Longrightarrow> steps R (tryE m h)"
  unfolding steps_def by (auto simp: run split: prod.splits sum.splits) (metis rel_trans snd_conv)+

lemma steps_if: "(b \<Longrightarrow> steps R m) \<Longrightarrow> (\<not> b \<Longrightarrow> steps R n) \<Longrightarrow> steps R (if b then m else n)"
  by simp

lemma steps_option:
  "(v = None \<Longrightarrow> steps R m) \<Longrightarrow> (\<And>x. v = Some x \<Longrightarrow> steps R (f x)) \<Longrightarrow>
   steps R (case v of None \<Rightarrow> m | Some x \<Rightarrow> f x)"
  by (cases v) simp_all

lemma steps_prod: "(\<And>x y. v = (x, y) \<Longrightarrow> steps R (f x y)) \<Longrightarrow> steps R (case v of (x, y) \<Rightarrow> f x y)"
  by (cases v) simp

lemma steps_sum:
  "(\<And>e. v = Inl e \<Longrightarrow> steps R (f e)) \<Longrightarrow> (\<And>x. v = Inr x \<Longrightarrow> steps R (g x)) \<Longrightarrow>
   steps R (case v of Inl e \<Rightarrow> f e | Inr x \<Rightarrow> g x)"
  by (cases v) simp_all

lemma steps_Let: "(\<And>x. x = v \<Longrightarrow> steps R (f x)) \<Longrightarrow> steps R (let x = v in f x)"
  by simp

lemma steps_forE: "(\<And>x. steps R (f x)) \<Longrightarrow> steps R (forE xs f)"
  by (induction xs) (simp_all add: steps_ret steps_seqE)

lemma steps_foldE: "(\<And>x acc. steps R (f x acc)) \<Longrightarrow> steps R (foldE xs f acc)"
  by (induction xs arbitrary: acc) (simp_all add: steps_ret steps_bindE)

text \<open>From one state: what follows a part is only asked of the states the part leads to.\<close>

lemma bindE_rel:
  assumes "R s (snd (m s))" and "\<And>x t. m s = (Inr x, t) \<Longrightarrow> R t (snd (f x t))"
  shows "R s (snd (bindE m f s))"
  using assms by (cases "m s"; cases "fst (m s)") (auto simp: run intro: rel_trans)

lemma seqE_rel:
  "R s (snd (m s)) \<Longrightarrow> (\<And>x t. m s = (Inr x, t) \<Longrightarrow> R t (snd (n t))) \<Longrightarrow> R s (snd (seqE m n s))"
  unfolding seqE_def by (rule bindE_rel)

lemmas steps_rules =
  steps_ret steps_throw steps_getsE steps_liftE steps_some_or steps_bindE steps_seqE
  steps_whenE steps_tryE steps_if steps_option steps_prod steps_sum steps_Let steps_forE steps_foldE

end

section \<open>Dictionaries\<close>

text \<open>
  A Python dict keeps insertion order, assigning an existing key keeps its place: an
  association list with distinct keys, \<open>AList.update\<close> for assignment, \<open>AList.delete\<close> for
  \<open>del\<close>, \<open>map_of\<close> for \<open>get\<close>.
\<close>

abbreviation dict_set :: "'k \<Rightarrow> 'v \<Rightarrow> ('k \<times> 'v) list \<Rightarrow> ('k \<times> 'v) list" where
  "dict_set \<equiv> AList.update"

abbreviation dict_del :: "'k \<Rightarrow> ('k \<times> 'v) list \<Rightarrow> ('k \<times> 'v) list" where
  "dict_del \<equiv> AList.delete"

abbreviation dict_get :: "('k \<times> 'v) list \<Rightarrow> 'k \<Rightarrow> 'v option" where
  "dict_get \<equiv> map_of"

abbreviation dict_keys :: "('k \<times> 'v) list \<Rightarrow> 'k list" where
  "dict_keys d \<equiv> map fst d"

abbreviation dict_ok :: "('k \<times> 'v) list \<Rightarrow> bool" where
  "dict_ok d \<equiv> distinct (dict_keys d)"

lemma dict_get_set [simp]: "dict_get (dict_set k v d) k' = (if k' = k then Some v else dict_get d k')"
  by (simp add: AList.update_conv)

lemma dict_get_del [simp]: "dict_get (dict_del k d) k' = (if k' = k then None else dict_get d k')"
  by (simp add: AList.delete_conv')

lemma dict_ok_set [simp]: "dict_ok d \<Longrightarrow> dict_ok (dict_set k v d)"
  by (rule AList.distinct_update)

lemma dict_ok_del [simp]: "dict_ok d \<Longrightarrow> dict_ok (dict_del k d)"
  by (rule AList.distinct_delete)

lemma dict_keys_set:
  "dict_keys (dict_set k v d) = (if k \<in> set (dict_keys d) then dict_keys d else dict_keys d @ [k])"
  by (rule AList.update_keys)

lemma dict_keys_del: "dict_keys (dict_del k d) = filter (\<lambda>x. x \<noteq> k) (dict_keys d)"
  by (induction d) auto

lemma update_append_new: "k \<notin> set (dict_keys d) \<Longrightarrow> dict_set k v d = d @ [(k, v)]"
  by (induction d) auto

text \<open>\<open>for k in keys: if not P(k): del d[k]\<close>, and the values of the sorted keys.\<close>

definition dict_filter :: "('k \<Rightarrow> bool) \<Rightarrow> ('k \<times> 'v) list \<Rightarrow> ('k \<times> 'v) list" where
  "dict_filter P d = filter (\<lambda>p. P (fst p)) d"

lemma dict_get_filter [simp]: "dict_get (dict_filter P d) k = (if P k then dict_get d k else None)"
  by (induction d) (auto simp: dict_filter_def)

lemma dict_keys_filter: "dict_keys (dict_filter P d) = filter P (dict_keys d)"
  by (induction d) (auto simp: dict_filter_def)

lemma dict_ok_filter [simp]: "dict_ok d \<Longrightarrow> dict_ok (dict_filter P d)"
  by (simp add: dict_keys_filter)

lemma dict_filter_cong: "(\<And>k. k \<in> set (dict_keys d) \<Longrightarrow> P k = Q k) \<Longrightarrow> dict_filter P d = dict_filter Q d"
  unfolding dict_filter_def by (rule filter_cong) auto

lemma dict_filter_filter: "dict_filter P (dict_filter Q d) = dict_filter (\<lambda>k. Q k \<and> P k) d"
  by (simp add: dict_filter_def)

lemma dict_filter_True: "(\<And>k. k \<in> set (dict_keys d) \<Longrightarrow> P k) \<Longrightarrow> dict_filter P d = d"
  by (simp add: dict_filter_def)

lemma dict_keys_dom: "set (dict_keys d) = dom (dict_get d)"
  by (simp add: dom_map_of_conv_image_fst)

lemma sort_interval:
  fixes ks :: "int list"
  assumes "distinct ks" and "set ks = {a..b}"
  shows "sort ks = [a..b]"
  using assms by (intro sorted_distinct_set_unique) simp_all

lemma hd_upto [simp]: "a \<le> b \<Longrightarrow> hd [a..b] = a"
  by (simp add: upto_rec1)

lemma takeWhile_upto: "takeWhile (\<lambda>k. \<not> k > i) [a..m] = [a..min i m]"
proof (induction a m rule: upto.induct)
  case (1 a m)
  then show ?case by (cases "a \<le> m"; cases "a \<le> i") (simp_all add: upto_rec1)
qed

lemma filter_upto: "filter (\<lambda>k. \<not> k \<le> i) [a..m] = [max a (i + 1)..m]"
  by (rule sorted_distinct_set_unique) (auto intro: sorted_wrt_filter)

lemma take_upto: "take n [a..m] = [a..min (a + int n - 1) m]"
proof (induction n arbitrary: a)
  case (Suc n)
  then show ?case by (cases "a \<le> m") (simp_all add: upto_rec1 algebra_simps)
qed simp

lemma last_upto [simp]: "a \<le> b \<Longrightarrow> last [a..b] = b"
  by (simp add: upto_rec2)

text \<open>\<open>x if x is not None else d\<close>.\<close>

definition or_else :: "'a \<Rightarrow> 'a option \<Rightarrow> 'a" where
  "or_else d v = (case v of None \<Rightarrow> d | Some x \<Rightarrow> x)"

lemma or_else_simps [simp]: "or_else d None = d" "or_else d (Some x) = x"
  by (simp_all add: or_else_def)

text \<open>A table of records under the consecutive indexes after \<open>b\<close> up to \<open>m\<close>.\<close>

definition contiguous :: "(int \<times> 'v) list \<Rightarrow> int \<Rightarrow> int \<Rightarrow> bool" where
  "contiguous d b m \<longleftrightarrow> dict_ok d \<and> set (dict_keys d) = {b<..m}"

lemma contiguous_None: "contiguous d b m \<Longrightarrow> dict_get d i = None \<longleftrightarrow> \<not> (b < i \<and> i \<le> m)"
  by (metis contiguous_def dict_keys_dom domIff greaterThanAtMost_iff)

lemma contiguous_keys: "contiguous d b m \<Longrightarrow> sort (dict_keys d) = [b + 1..m]"
  unfolding contiguous_def by (rule sort_interval) (blast, metis atLeastPlusOneAtMost_greaterThanAtMost_int)

lemma contiguous_Nil [simp]: "contiguous [] b m \<longleftrightarrow> m \<le> b"
  by (auto simp: contiguous_def)

lemma contiguous_length:
  assumes "contiguous d b m" and "b \<le> m"
  shows "int (length d) = m - b"
proof -
  have "int (length (sort (dict_keys d))) = m - b"
    unfolding contiguous_keys [OF assms(1)] using assms(2) by simp
  then show ?thesis by simp
qed

lemma contiguous_set:
  assumes "contiguous d b m" and "b < i" and "m \<le> i" and "i \<le> m + 1"
  shows "contiguous (dict_set i v d) b i"
proof -
  have "set (dict_keys (dict_set i v d)) = insert i (set (dict_keys d))"
    by (auto simp: dict_keys_set simp del: set_map)
  also have "\<dots> = {b<..i}"
    using assms by (auto simp: contiguous_def simp del: set_map)
  finally show ?thesis
    using assms(1) by (simp add: contiguous_def)
qed

lemma contiguous_filter:
  assumes "contiguous d b m" and "{i. b < i \<and> i \<le> m \<and> P i} = {b'<..m'}"
  shows "contiguous (dict_filter P d) b' m'"
proof -
  have "set (dict_keys (dict_filter P d)) = {i. b < i \<and> i \<le> m \<and> P i}"
    using assms(1) by (auto simp: contiguous_def dict_keys_filter simp del: set_map)
  with assms show ?thesis by (simp add: contiguous_def)
qed

lemma contiguous_below:
  "contiguous d b m \<Longrightarrow> i \<le> m + 1 \<Longrightarrow> contiguous (dict_filter (\<lambda>k. \<not> k \<ge> i) d) b (i - 1)"
  by (rule contiguous_filter) auto

lemma contiguous_above:
  "contiguous d b m \<Longrightarrow> b \<le> i \<Longrightarrow> contiguous (dict_filter (\<lambda>k. \<not> k \<le> i) d) i (max i m)"
  by (rule contiguous_filter) auto

end
