(* ===== verification/Api_Types.thy ===== *)
theory Api_Types
  imports Prelude
begin

text \<open>
  The data of \<open>src/raftengine/api\<close>: role names, operation details, node records, cluster
  settings and configuration (\<open>types.py\<close>, \<open>deck_config.py\<close>), log records (\<open>log_api.py\<close>),
  snapshots (\<open>snapshot_api.py\<close>), command results, and their JSON form. A string that
  \<open>json.dumps\<close> made is represented by the value it encodes (\<open>Dumps\<close>), so \<open>json.loads\<close> is
  exact on it; every other string is \<open>Str\<close>. The lemmas show that each \<open>from_dict\<close> style
  constructor inverts the \<open>__dict__\<close> encoding of its class.
\<close>

section \<open>Enumerations\<close>

datatype RoleName = RoleFollower | RoleCandidate | RoleLeader

datatype OpDetail =
    newer_term | older_term | leader_lost_op | joined_leader | start_election | won | lost
  | election_timeout_op | start_new_election | start_pre_election | pre_won | pre_lost
  | broadcasting_term_start | sending_catchup | sending_backdown

datatype RecordCode = term_start | client_command | cluster_config

fun record_code_value :: "RecordCode \<Rightarrow> string" where
  "record_code_value term_start = ''TERM_START''"
| "record_code_value client_command = ''CLIENT_COMMAND''"
| "record_code_value cluster_config = ''CLUSTER_CONFIG''"

datatype ChangeOp = op_add | op_remove | op_assume_control

fun change_op_value :: "ChangeOp \<Rightarrow> string" where
  "change_op_value op_add = ''ADD''"
| "change_op_value op_remove = ''REMOVE''"
| "change_op_value op_assume_control = ''ASSUME_CONTROL''"

section \<open>JSON values and strings\<close>

datatype json =
    JNull | JBool bool | JInt int | JFloat rat | JStr pystr | JList "json list"
  | JObj "(string \<times> json) list"
and pystr = Str string | Dumps json

text \<open>
  \<open>json.loads\<close>. No path of the sources calls it on a string that \<open>json.dumps\<close> did not make,
  except on input from outside, where the decoding error is what the callers expect.
\<close>

fun json_loads :: "pystr \<Rightarrow> exn + json" where
  "json_loads (Dumps j) = Inr j"
| "json_loads (Str s) = Inl ValueError"

section \<open>Cluster configuration\<close>

record NodeRec =
  node_uri :: uri
  is_adding :: bool
  is_removing :: bool

definition new_NodeRec :: "uri \<Rightarrow> NodeRec" where
  "new_NodeRec u = \<lparr>node_uri = u, is_adding = False, is_removing = False\<rparr>"

record ClusterSettings =
  heartbeat_period :: time
  election_timeout_min :: time
  election_timeout_max :: time
  max_entries_per_message :: int
  use_pre_vote :: bool
  use_check_quorum :: bool
  use_dynamic_config :: bool
  commands_idempotent :: bool

definition default_ClusterSettings :: ClusterSettings where
  "default_ClusterSettings =
     \<lparr>heartbeat_period = 1/100, election_timeout_min = 150/1000, election_timeout_max = 300/1000,
      max_entries_per_message = 20, use_pre_vote = True, use_check_quorum = True,
      use_dynamic_config = True, commands_idempotent = False\<rparr>"

record ClusterConfig =
  nodes :: "(uri \<times> NodeRec) list"
  pending_node :: "NodeRec option"
  settings :: ClusterSettings

record ClusterInitConfig =
  node_uris :: "uri list"
  init_heartbeat_period :: time
  init_election_timeout_min :: time
  init_election_timeout_max :: time
  init_max_entries_per_message :: int
  init_use_pre_vote :: bool
  init_use_check_quorum :: bool
  init_use_dynamic_config :: bool
  init_commands_idempotent :: bool

record LocalConfig =
  local_uri :: uri
  record_message_problems :: bool

section \<open>Log records, snapshots, command results\<close>

record LogRec =
  rec_index :: int
  rec_term :: int
  command :: "pystr option"
  code :: RecordCode
  serial :: "int option"
  leader_id :: "uri option"
  committed :: bool
  applied :: bool

definition new_LogRec :: "RecordCode \<Rightarrow> int \<Rightarrow> pystr option \<Rightarrow> LogRec" where
  "new_LogRec c t cmd =
     \<lparr>rec_index = 0, rec_term = t, command = cmd, code = c, serial = None, leader_id = None,
      committed = False, applied = False\<rparr>"

record SnapShot =
  snap_index :: int
  snap_term :: int

text \<open>
  The flags of a command result. On the timeout path the leader stores one-element lists, which
  are true whatever they hold; \<open>flag_true\<close> is Python's truth value.
\<close>

datatype flag = Flag bool | Boxed bool

fun flag_true :: "flag \<Rightarrow> bool" where
  "flag_true (Flag b) = b"
| "flag_true (Boxed b) = True"

record CommandResult =
  cr_command :: "pystr option"
  cr_result :: "pystr option"
  cr_retry :: flag
  cr_redirect :: "uri option"
  cr_error :: "pystr option"
  cr_timeout_expired :: flag

definition new_CommandResult :: "pystr option \<Rightarrow> CommandResult" where
  "new_CommandResult cmd =
     \<lparr>cr_command = cmd, cr_result = None, cr_retry = Flag False, cr_redirect = None,
      cr_error = None, cr_timeout_expired = Flag False\<rparr>"

section \<open>Keyword construction from decoded objects\<close>

definition sbind :: "'e + 'a \<Rightarrow> ('a \<Rightarrow> 'e + 'b) \<Rightarrow> 'e + 'b" where
  "sbind r f = (case r of Inl e \<Rightarrow> Inl e | Inr x \<Rightarrow> f x)"

lemma sbind_simps [simp]: "sbind (Inl e) f = Inl e" "sbind (Inr x) f = f x"
  by (simp_all add: sbind_def)

fun smap :: "('a \<Rightarrow> 'e + 'b) \<Rightarrow> 'a list \<Rightarrow> 'e + 'b list" where
  "smap f [] = Inr []"
| "smap f (x # xs) = sbind (f x) (\<lambda>y. sbind (smap f xs) (\<lambda>ys. Inr (y # ys)))"

lemma smap_inverse [simp]: "(\<And>x. x \<in> set xs \<Longrightarrow> f (g x) = Inr x) \<Longrightarrow> smap f (map g xs) = Inr xs"
  by (induction xs) auto

fun j_int :: "json \<Rightarrow> exn + int" where
  "j_int (JInt i) = Inr i"
| "j_int _ = Inl TypeError"

fun j_bool :: "json \<Rightarrow> exn + bool" where
  "j_bool (JBool b) = Inr b"
| "j_bool _ = Inl TypeError"

fun j_float :: "json \<Rightarrow> exn + rat" where
  "j_float (JFloat r) = Inr r"
| "j_float (JInt i) = Inr (of_int i)"
| "j_float _ = Inl TypeError"

fun j_str :: "json \<Rightarrow> exn + string" where
  "j_str (JStr (Str s)) = Inr s"
| "j_str _ = Inl TypeError"

fun j_text :: "json \<Rightarrow> exn + pystr" where
  "j_text (JStr t) = Inr t"
| "j_text _ = Inl TypeError"

fun j_list :: "(json \<Rightarrow> exn + 'a) \<Rightarrow> json \<Rightarrow> exn + 'a list" where
  "j_list f (JList xs) = smap f xs"
| "j_list f _ = Inl TypeError"

fun j_obj :: "json \<Rightarrow> exn + (string \<times> json) list" where
  "j_obj (JObj d) = Inr d"
| "j_obj _ = Inl TypeError"

fun j_opt :: "(json \<Rightarrow> exn + 'a) \<Rightarrow> json \<Rightarrow> exn + 'a option" where
  "j_opt f JNull = Inr None"
| "j_opt f j = sbind (f j) (\<lambda>x. Inr (Some x))"

fun opt_json :: "('a \<Rightarrow> json) \<Rightarrow> 'a option \<Rightarrow> json" where
  "opt_json f None = JNull"
| "opt_json f (Some x) = f x"

definition str_json :: "string \<Rightarrow> json" where
  "str_json s = JStr (Str s)"

lemma j_str_str_json [simp]: "j_str (str_json s) = Inr s"
  by (simp add: str_json_def)

lemma j_opt_opt_json [simp]:
  "(\<And>x. v = Some x \<Longrightarrow> f (g x) = Inr x \<and> g x \<noteq> JNull) \<Longrightarrow> j_opt f (opt_json g v) = Inr v"
proof (cases v)
  case (Some x)
  assume "\<And>x. v = Some x \<Longrightarrow> f (g x) = Inr x \<and> g x \<noteq> JNull"
  with Some have "f (g x) = Inr x" "g x \<noteq> JNull" by auto
  with Some show ?thesis by (cases "g x") auto
qed simp

lemma str_json_not_null [simp]: "str_json s \<noteq> JNull"
  by (simp add: str_json_def)

text \<open>\<open>cls(**d)\<close>: a keyword that is no parameter, or a missing required one, is a \<open>TypeError\<close>.\<close>

definition only_keys :: "string list \<Rightarrow> (string \<times> json) list \<Rightarrow> exn + unit" where
  "only_keys ks d = (if list_all (\<lambda>p. List.member ks (fst p)) d then Inr () else Inl TypeError)"

definition arg :: "string \<Rightarrow> (json \<Rightarrow> exn + 'a) \<Rightarrow> (string \<times> json) list \<Rightarrow> exn + 'a" where
  "arg k f d = (case map_of d k of None \<Rightarrow> Inl TypeError | Some j \<Rightarrow> f j)"

definition arg_dflt :: "string \<Rightarrow> 'a \<Rightarrow> (json \<Rightarrow> exn + 'a) \<Rightarrow> (string \<times> json) list \<Rightarrow> exn + 'a" where
  "arg_dflt k v f d = (case map_of d k of None \<Rightarrow> Inr v | Some j \<Rightarrow> f j)"

text \<open>\<open>d[k]\<close>.\<close>

definition item :: "string \<Rightarrow> (string \<times> json) list \<Rightarrow> exn + json" where
  "item k d = (case map_of d k of None \<Rightarrow> Inl KeyError | Some j \<Rightarrow> Inr j)"

lemmas kwargs_simps = only_keys_def arg_def arg_dflt_def item_def

section \<open>JSON form of the data classes\<close>

fun RecordCode_of :: "string \<Rightarrow> exn + RecordCode" where
  "RecordCode_of s =
     (if s = ''TERM_START'' then Inr term_start
      else if s = ''CLIENT_COMMAND'' then Inr client_command
      else if s = ''CLUSTER_CONFIG'' then Inr cluster_config
      else Inl ValueError)"

declare RecordCode_of.simps [simp del]

lemma RecordCode_of_value [simp]: "RecordCode_of (record_code_value c) = Inr c"
  by (cases c) (simp_all add: RecordCode_of.simps)

definition LogRec_json :: "LogRec \<Rightarrow> json" where
  "LogRec_json r = JObj
     [(''index'', JInt (rec_index r)), (''term'', JInt (rec_term r)),
      (''command'', opt_json JStr (command r)), (''code'', str_json (record_code_value (code r))),
      (''serial'', opt_json JInt (serial r)), (''leader_id'', opt_json str_json (leader_id r)),
      (''committed'', JBool (committed r)), (''applied'', JBool (applied r))]"

definition LogRec_from_dict :: "json \<Rightarrow> exn + LogRec" where
  "LogRec_from_dict j =
     sbind (j_obj j) (\<lambda>d.
     sbind (item ''code'' d) (\<lambda>cj.
     sbind (j_str cj) (\<lambda>cs.
     sbind (RecordCode_of cs) (\<lambda>c.
     sbind (only_keys [''index'', ''term'', ''command'', ''code'', ''serial'', ''leader_id'',
                       ''committed'', ''applied''] d) (\<lambda>_.
     sbind (arg_dflt ''index'' 0 j_int d) (\<lambda>i.
     sbind (arg_dflt ''term'' 0 j_int d) (\<lambda>t.
     sbind (arg_dflt ''command'' None (j_opt j_text) d) (\<lambda>cmd.
     sbind (arg_dflt ''serial'' None (j_opt j_int) d) (\<lambda>sn.
     sbind (arg_dflt ''leader_id'' None (j_opt j_str) d) (\<lambda>lid.
     sbind (arg_dflt ''committed'' False j_bool d) (\<lambda>cm.
     sbind (arg_dflt ''applied'' False j_bool d) (\<lambda>ap.
       Inr \<lparr>rec_index = i, rec_term = t, command = cmd, code = c, serial = sn, leader_id = lid,
            committed = cm, applied = ap\<rparr>))))))))))))"

lemma LogRec_roundtrip [simp]: "LogRec_from_dict (LogRec_json r) = Inr r"
  by (simp add: LogRec_from_dict_def LogRec_json_def kwargs_simps)

definition NodeRec_json :: "NodeRec \<Rightarrow> json" where
  "NodeRec_json n = JObj
     [(''uri'', str_json (node_uri n)), (''is_adding'', JBool (is_adding n)),
      (''is_removing'', JBool (is_removing n))]"

definition NodeRec_kwargs :: "json \<Rightarrow> exn + NodeRec" where
  "NodeRec_kwargs j =
     sbind (j_obj j) (\<lambda>d.
     sbind (only_keys [''uri'', ''is_adding'', ''is_removing''] d) (\<lambda>_.
     sbind (arg ''uri'' j_str d) (\<lambda>u.
     sbind (arg_dflt ''is_adding'' False j_bool d) (\<lambda>a.
     sbind (arg_dflt ''is_removing'' False j_bool d) (\<lambda>r.
       Inr \<lparr>node_uri = u, is_adding = a, is_removing = r\<rparr>)))))"

lemma NodeRec_roundtrip [simp]: "NodeRec_kwargs (NodeRec_json n) = Inr n"
  by (simp add: NodeRec_kwargs_def NodeRec_json_def kwargs_simps)

definition ClusterSettings_json :: "ClusterSettings \<Rightarrow> json" where
  "ClusterSettings_json s = JObj
     [(''heartbeat_period'', JFloat (heartbeat_period s)),
      (''election_timeout_min'', JFloat (election_timeout_min s)),
      (''election_timeout_max'', JFloat (election_timeout_max s)),
      (''max_entries_per_message'', JInt (max_entries_per_message s)),
      (''use_pre_vote'', JBool (use_pre_vote s)), (''use_check_quorum'', JBool (use_check_quorum s)),
      (''use_dynamic_config'', JBool (use_dynamic_config s)),
      (''commands_idempotent'', JBool (commands_idempotent s))]"

definition ClusterSettings_kwargs :: "json \<Rightarrow> exn + ClusterSettings" where
  "ClusterSettings_kwargs j =
     sbind (j_obj j) (\<lambda>d.
     sbind (only_keys [''heartbeat_period'', ''election_timeout_min'', ''election_timeout_max'',
                       ''max_entries_per_message'', ''use_pre_vote'', ''use_check_quorum'',
                       ''use_dynamic_config'', ''commands_idempotent''] d) (\<lambda>_.
     sbind (arg_dflt ''heartbeat_period'' (1/100) j_float d) (\<lambda>hp.
     sbind (arg_dflt ''election_timeout_min'' (150/1000) j_float d) (\<lambda>emin.
     sbind (arg_dflt ''election_timeout_max'' (300/1000) j_float d) (\<lambda>emax.
     sbind (arg_dflt ''max_entries_per_message'' 20 j_int d) (\<lambda>me.
     sbind (arg_dflt ''use_pre_vote'' True j_bool d) (\<lambda>pv.
     sbind (arg_dflt ''use_check_quorum'' True j_bool d) (\<lambda>cq.
     sbind (arg_dflt ''use_dynamic_config'' True j_bool d) (\<lambda>dc.
     sbind (arg_dflt ''commands_idempotent'' False j_bool d) (\<lambda>ci.
       Inr \<lparr>heartbeat_period = hp, election_timeout_min = emin, election_timeout_max = emax,
            max_entries_per_message = me, use_pre_vote = pv, use_check_quorum = cq,
            use_dynamic_config = dc, commands_idempotent = ci\<rparr>))))))))))"

lemma ClusterSettings_roundtrip [simp]: "ClusterSettings_kwargs (ClusterSettings_json s) = Inr s"
  by (simp add: ClusterSettings_kwargs_def ClusterSettings_json_def kwargs_simps)

definition ClusterConfig_json :: "ClusterConfig \<Rightarrow> json" where
  "ClusterConfig_json c = JObj
     [(''nodes'', JObj (map (\<lambda>(u, n). (u, NodeRec_json n)) (nodes c))),
      (''pending_node'', opt_json NodeRec_json (pending_node c)),
      (''settings'', ClusterSettings_json (settings c))]"

text \<open>
  \<open>ClusterConfig(**d)\<close> with the decoded members left as they are; the callers only use the keys
  of \<open>nodes\<close>.
\<close>

definition ClusterConfig_kwargs :: "json \<Rightarrow> exn + uri list" where
  "ClusterConfig_kwargs j =
     sbind (j_obj j) (\<lambda>d.
     sbind (only_keys [''nodes'', ''pending_node'', ''settings''] d) (\<lambda>_.
     arg_dflt ''nodes'' [] (\<lambda>nj. sbind (j_obj nj) (\<lambda>ns. Inr (map fst ns))) d))"

lemma ClusterConfig_kwargs_json [simp]:
  "ClusterConfig_kwargs (ClusterConfig_json c) = Inr (dict_keys (nodes c))"
  by (auto simp: ClusterConfig_kwargs_def ClusterConfig_json_def kwargs_simps comp_def case_prod_beta)

end
