(* ===== verification/Messages.thy ===== *)
theory Messages
  imports Api_Types
begin

text \<open>
  The twelve message classes of \<open>src/raftengine/messages\<close>, the serial number generator and the
  codec (\<open>message_codec.py\<close>). The lemmas show that decoding an encoded message gives the
  message back, that serial numbers increase strictly while no second issues more than a
  million of them, and which messages count as replies to which.
\<close>

section \<open>Message classes\<close>

record msg_hdr =
  sender :: uri
  receiver :: "uri option"
  serial_number :: int

record log_hdr = msg_hdr +
  msg_term :: int
  prevLogIndex :: int
  prevLogTerm :: int

text \<open>
  A transfer-of-power message carries the answer of \<open>Leader.get_prev_record_id\<close>, which is
  \<open>None, None\<close> below a snapshot; its two log fields are options.
\<close>

datatype message =
    AppendEntriesMessage log_hdr (entries: "LogRec list") (commitIndex: int)
  | AppendResponseMessage log_hdr (maxIndex: int) (resp_success: bool) (resp_leaderId: "uri option")
      (original_serial: int)
  | RequestVoteMessage log_hdr
  | RequestVoteResponseMessage log_hdr (rv_vote: bool)
  | PreVoteMessage log_hdr (authorized: bool)
  | PreVoteResponseMessage log_hdr (pv_vote: bool)
  | TransferPowerMessage msg_hdr (tp_term: int) (tp_prevLogIndex: "int option")
      (tp_prevLogTerm: "int option")
  | TransferPowerResponseMessage log_hdr (tp_success: bool)
  | MembershipChangeMessage msg_hdr (mc_op: ChangeOp) (mc_target_uri: uri)
  | MembershipChangeResponseMessage msg_hdr (mcr_op: ChangeOp) (mcr_target_uri: uri) (mcr_ok: bool)
  | SnapShotMessage log_hdr (ss_leaderId: uri) (ss_offset: int) (ss_done: bool) (ss_data: pystr)
      (ss_clusterConfig: "pystr option")
  | SnapShotResponseMessage log_hdr (ssr_offset: int) (ssr_success: bool)

definition base_hdr :: "'a msg_hdr_scheme \<Rightarrow> msg_hdr" where
  "base_hdr h = \<lparr>sender = sender h, receiver = receiver h, serial_number = serial_number h\<rparr>"

lemma base_hdr_simps [simp]:
  "sender (base_hdr h) = sender h" "receiver (base_hdr h) = receiver h" "serial_number (base_hdr h) = serial_number h"
  by (simp_all add: base_hdr_def)

fun msg_hdr_of :: "message \<Rightarrow> msg_hdr" where
  "msg_hdr_of (AppendEntriesMessage h _ _) = base_hdr h"
| "msg_hdr_of (AppendResponseMessage h _ _ _ _) = base_hdr h"
| "msg_hdr_of (RequestVoteMessage h) = base_hdr h"
| "msg_hdr_of (RequestVoteResponseMessage h _) = base_hdr h"
| "msg_hdr_of (PreVoteMessage h _) = base_hdr h"
| "msg_hdr_of (PreVoteResponseMessage h _) = base_hdr h"
| "msg_hdr_of (TransferPowerMessage h _ _ _) = h"
| "msg_hdr_of (TransferPowerResponseMessage h _) = base_hdr h"
| "msg_hdr_of (MembershipChangeMessage h _ _) = h"
| "msg_hdr_of (MembershipChangeResponseMessage h _ _ _) = h"
| "msg_hdr_of (SnapShotMessage h _ _ _ _ _) = base_hdr h"
| "msg_hdr_of (SnapShotResponseMessage h _ _) = base_hdr h"

text \<open>\<open>message.term\<close>: every class but the two membership ones has it.\<close>

fun term_of_msg :: "message \<Rightarrow> int option" where
  "term_of_msg (AppendEntriesMessage h _ _) = Some (msg_term h)"
| "term_of_msg (AppendResponseMessage h _ _ _ _) = Some (msg_term h)"
| "term_of_msg (RequestVoteMessage h) = Some (msg_term h)"
| "term_of_msg (RequestVoteResponseMessage h _) = Some (msg_term h)"
| "term_of_msg (PreVoteMessage h _) = Some (msg_term h)"
| "term_of_msg (PreVoteResponseMessage h _) = Some (msg_term h)"
| "term_of_msg (TransferPowerMessage _ t _ _) = Some t"
| "term_of_msg (TransferPowerResponseMessage h _) = Some (msg_term h)"
| "term_of_msg (MembershipChangeMessage _ _ _) = None"
| "term_of_msg (MembershipChangeResponseMessage _ _ _ _) = None"
| "term_of_msg (SnapShotMessage h _ _ _ _ _) = Some (msg_term h)"
| "term_of_msg (SnapShotResponseMessage h _ _) = Some (msg_term h)"

text \<open>\<open>hasattr(message, 'leaderId')\<close>, with the value.\<close>

fun leaderId_of_msg :: "message \<Rightarrow> uri option option" where
  "leaderId_of_msg (AppendResponseMessage _ _ _ l _) = Some l"
| "leaderId_of_msg (SnapShotMessage _ l _ _ _ _) = Some (Some l)"
| "leaderId_of_msg _ = None"

fun msg_code :: "message \<Rightarrow> string" where
  "msg_code (AppendEntriesMessage _ _ _) = ''append_entries''"
| "msg_code (AppendResponseMessage _ _ _ _ _) = ''append_response''"
| "msg_code (RequestVoteMessage _) = ''request_vote''"
| "msg_code (RequestVoteResponseMessage _ _) = ''request_vote_response''"
| "msg_code (PreVoteMessage _ _) = ''pre_vote''"
| "msg_code (PreVoteResponseMessage _ _) = ''pre_vote_response''"
| "msg_code (TransferPowerMessage _ _ _ _) = ''transfer_power''"
| "msg_code (TransferPowerResponseMessage _ _) = ''transfer_power_response''"
| "msg_code (MembershipChangeMessage _ _ _) = ''membership_change''"
| "msg_code (MembershipChangeResponseMessage _ _ _ _) = ''membership_change_response''"
| "msg_code (SnapShotMessage _ _ _ _ _ _) = ''snapshot''"
| "msg_code (SnapShotResponseMessage _ _ _) = ''snapshot_response''"

section \<open>Replies\<close>

definition log_reply :: "log_hdr \<Rightarrow> log_hdr \<Rightarrow> bool" where
  "log_reply r h \<longleftrightarrow>
     Some (sender h) = receiver r \<and> receiver h = Some (sender r) \<and>
     msg_term h = msg_term r \<and> prevLogTerm h = prevLogTerm r \<and> prevLogIndex h = prevLogIndex r"

text \<open>The overrides of the append and membership responses.\<close>

definition AppendResponse_is_reply_to :: "int \<Rightarrow> message \<Rightarrow> bool" where
  "AppendResponse_is_reply_to orig other =
     (case other of AppendEntriesMessage h es ci \<Rightarrow> serial_number h = orig | _ \<Rightarrow> False)"

definition MembershipChangeResponse_is_reply_to :: "msg_hdr \<Rightarrow> ChangeOp \<Rightarrow> uri \<Rightarrow> message \<Rightarrow> bool" where
  "MembershipChangeResponse_is_reply_to r op tgt other =
     (case other of MembershipChangeMessage h op' tgt' \<Rightarrow>
        Some (sender h) = receiver r \<and> receiver h = Some (sender r) \<and> op' = op \<and> tgt' = tgt
      | _ \<Rightarrow> False)"

text \<open>\<open>reply.is_reply_to(other)\<close>: the generic rule of \<open>BaseMessage\<close> for the paired log messages.\<close>

definition is_reply_to :: "message \<Rightarrow> message \<Rightarrow> bool" where
  "is_reply_to reply other =
     (case reply of
        AppendResponseMessage r mi ok l orig \<Rightarrow> AppendResponse_is_reply_to orig other
      | RequestVoteResponseMessage r v \<Rightarrow>
          (case other of RequestVoteMessage h \<Rightarrow> log_reply r h | _ \<Rightarrow> False)
      | PreVoteResponseMessage r v \<Rightarrow>
          (case other of PreVoteMessage h a \<Rightarrow> log_reply r h | _ \<Rightarrow> False)
      | TransferPowerResponseMessage r ok \<Rightarrow>
          (case other of TransferPowerMessage h t pix ptm \<Rightarrow>
             Some (sender h) = receiver r \<and> receiver h = Some (sender r) \<and> t = msg_term r \<and>
             ptm = Some (prevLogTerm r) \<and> pix = Some (prevLogIndex r)
           | _ \<Rightarrow> False)
      | MembershipChangeResponseMessage r op tgt ok \<Rightarrow> MembershipChangeResponse_is_reply_to r op tgt other
      | SnapShotResponseMessage r off ok \<Rightarrow>
          (case other of SnapShotMessage h l off' dn dat cc \<Rightarrow> log_reply r h | _ \<Rightarrow> False)
      | _ \<Rightarrow> False)"

section \<open>Serial numbers\<close>

record SerialNumberGenerator =
  last_timebase :: "int option"
  counter :: int

definition new_SerialNumberGenerator :: SerialNumberGenerator where
  "new_SerialNumberGenerator = \<lparr>last_timebase = None, counter = 0\<rparr>"

text \<open>January 1, 2025, 00:00:00 UTC as a POSIX timestamp.\<close>

definition EPOCH :: time where
  "EPOCH = 1735689600"

text \<open>\<open>int(x)\<close> truncates towards zero.\<close>

definition py_int :: "rat \<Rightarrow> int" where
  "py_int x = (if x \<ge> 0 then \<lfloor>x\<rfloor> else - \<lfloor>- x\<rfloor>)"

definition generate :: "time \<Rightarrow> (SerialNumberGenerator, int) eff" where
  "generate now = (\<lambda>g.
     let seconds_since_epoch = py_int (now - EPOCH);
         days_since_epoch = seconds_since_epoch div 86400;
         seconds_since_midnight = seconds_since_epoch mod 86400;
         timebase = days_since_epoch * 86400 + seconds_since_midnight;
         g' = (if Some timebase \<noteq> last_timebase g
               then g\<lparr>counter := 0, last_timebase := Some timebase\<rparr> else g);
         sn = timebase * 1000000 + counter g'
     in (Inr sn, g'\<lparr>counter := (counter g' + 1) mod 1000000\<rparr>))"

section \<open>Encoding\<close>

definition hdr_json :: "'a msg_hdr_scheme \<Rightarrow> string \<Rightarrow> (string \<times> json) list" where
  "hdr_json h c =
     [(''sender'', str_json (sender h)), (''receiver'', opt_json str_json (receiver h)),
      (''code'', str_json c), (''serial_number'', JInt (serial_number h))]"

definition log_hdr_json :: "log_hdr \<Rightarrow> string \<Rightarrow> (string \<times> json) list" where
  "log_hdr_json h c = hdr_json h c @
     [(''term'', JInt (msg_term h)), (''prevLogIndex'', JInt (prevLogIndex h)),
      (''prevLogTerm'', JInt (prevLogTerm h))]"

fun message_json :: "message \<Rightarrow> json" where
  "message_json (AppendEntriesMessage h es ci) = JObj (log_hdr_json h ''append_entries'' @
     [(''entries'', JList (map LogRec_json es)), (''commitIndex'', JInt ci)])"
| "message_json (AppendResponseMessage h mi ok l orig) = JObj (log_hdr_json h ''append_response'' @
     [(''leaderId'', opt_json str_json l), (''success'', JBool ok), (''maxIndex'', JInt mi),
      (''original_serial'', JInt orig)])"
| "message_json (RequestVoteMessage h) = JObj (log_hdr_json h ''request_vote'')"
| "message_json (RequestVoteResponseMessage h v) =
     JObj (log_hdr_json h ''request_vote_response'' @ [(''vote'', JBool v)])"
| "message_json (PreVoteMessage h a) = JObj (log_hdr_json h ''pre_vote'' @ [(''authorized'', JBool a)])"
| "message_json (PreVoteResponseMessage h v) =
     JObj (log_hdr_json h ''pre_vote_response'' @ [(''vote'', JBool v)])"
| "message_json (TransferPowerMessage h t pix ptm) = JObj (hdr_json h ''transfer_power'' @
     [(''term'', JInt t), (''prevLogIndex'', opt_json JInt pix), (''prevLogTerm'', opt_json JInt ptm)])"
| "message_json (TransferPowerResponseMessage h ok) =
     JObj (log_hdr_json h ''transfer_power_response'' @ [(''success'', JBool ok)])"
| "message_json (MembershipChangeMessage h op tgt) = JObj (hdr_json h ''membership_change'' @
     [(''op'', str_json (change_op_value op)), (''target_uri'', str_json tgt)])"
| "message_json (MembershipChangeResponseMessage h op tgt ok) =
     JObj (hdr_json h ''membership_change_response'' @
       [(''op'', str_json (change_op_value op)), (''target_uri'', str_json tgt), (''ok'', JBool ok)])"
| "message_json (SnapShotMessage h l off dn dat cc) = JObj (log_hdr_json h ''snapshot'' @
     [(''leaderId'', str_json l), (''offset'', JInt off), (''done'', JBool dn), (''data'', JStr dat),
      (''clusterConfig'', opt_json JStr cc)])"
| "message_json (SnapShotResponseMessage h off ok) = JObj (log_hdr_json h ''snapshot_response'' @
     [(''offset'', JInt off), (''success'', JBool ok)])"

definition encode_message :: "message \<Rightarrow> pystr \<times> int" where
  "encode_message m = (Dumps (message_json m), serial_number (msg_hdr_of m))"

section \<open>Decoding\<close>

text \<open>
  \<open>ChangeOp\<close> is a string enumeration and the decoded operation stays a string, which compares
  equal to the enumeration member; a string that is no member compares equal to none of them and
  is refused here.
\<close>

fun ChangeOp_of :: "string \<Rightarrow> exn + ChangeOp" where
  "ChangeOp_of s = (if s = ''ADD'' then Inr op_add else if s = ''REMOVE'' then Inr op_remove
     else if s = ''ASSUME_CONTROL'' then Inr op_assume_control else Inl ValueError)"

declare ChangeOp_of.simps [simp del]

lemma ChangeOp_of_value [simp]: "ChangeOp_of (change_op_value op) = Inr op"
  by (cases op) (simp_all add: ChangeOp_of.simps)

text \<open>
  The keyword arguments shared by all classes. The serial number stays an option: a message
  without one gets a fresh one when it is built.
\<close>

definition hdr_args :: "(string \<times> json) list \<Rightarrow> exn + (int \<Rightarrow> msg_hdr) \<times> int option" where
  "hdr_args d =
     sbind (arg ''sender'' j_str d) (\<lambda>s.
     sbind (arg ''receiver'' (j_opt j_str) d) (\<lambda>r.
     sbind (arg_dflt ''serial_number'' None (j_opt j_int) d) (\<lambda>n.
       Inr (\<lambda>sn. \<lparr>sender = s, receiver = r, serial_number = sn\<rparr>, n))))"

definition log_hdr_args :: "(string \<times> json) list \<Rightarrow> exn + (int \<Rightarrow> log_hdr) \<times> int option" where
  "log_hdr_args d =
     sbind (hdr_args d) (\<lambda>(mk, n).
     sbind (arg ''term'' j_int d) (\<lambda>t.
     sbind (arg ''prevLogIndex'' j_int d) (\<lambda>pix.
     sbind (arg ''prevLogTerm'' j_int d) (\<lambda>ptm.
       Inr (\<lambda>sn. \<lparr>sender = sender (mk sn), receiver = receiver (mk sn), serial_number = sn,
                 msg_term = t, prevLogIndex = pix, prevLogTerm = ptm\<rparr>, n)))))"

abbreviation base_keys :: "string list" where
  "base_keys \<equiv> [''sender'', ''receiver'', ''serial_number'']"

abbreviation log_keys :: "string list" where
  "log_keys \<equiv> base_keys @ [''term'', ''prevLogIndex'', ''prevLogTerm'']"

definition with_log_hdr ::
  "string list \<Rightarrow> (string \<times> json) list \<Rightarrow> (((string \<times> json) list) \<Rightarrow> exn + (log_hdr \<Rightarrow> message)) \<Rightarrow>
   exn + (int \<Rightarrow> message) \<times> int option" where
  "with_log_hdr ks d f =
     sbind (only_keys (log_keys @ ks) d) (\<lambda>_.
     sbind (log_hdr_args d) (\<lambda>(mk, n).
     sbind (f d) (\<lambda>g. Inr (\<lambda>sn. g (mk sn), n))))"

definition with_hdr ::
  "string list \<Rightarrow> (string \<times> json) list \<Rightarrow> (((string \<times> json) list) \<Rightarrow> exn + (msg_hdr \<Rightarrow> message)) \<Rightarrow>
   exn + (int \<Rightarrow> message) \<times> int option" where
  "with_hdr ks d f =
     sbind (only_keys (base_keys @ ks) d) (\<lambda>_.
     sbind (hdr_args d) (\<lambda>(mk, n).
     sbind (f d) (\<lambda>g. Inr (\<lambda>sn. g (mk sn), n))))"

text \<open>\<open>cls.from_dict(message_dict)\<close> for each class: its constructor applied to the decoded keywords.\<close>

type_synonym msg_args = "exn + (int \<Rightarrow> message) \<times> int option"

definition AppendEntries_args :: "(string \<times> json) list \<Rightarrow> msg_args" where
  "AppendEntries_args d = with_log_hdr [''entries'', ''commitIndex''] d (\<lambda>d.
     sbind (item ''entries'' d) (\<lambda>ej.
     sbind (j_list LogRec_from_dict ej) (\<lambda>es.
     sbind (arg_dflt ''commitIndex'' 0 j_int d) (\<lambda>ci.
       Inr (\<lambda>h. AppendEntriesMessage h es ci)))))"

definition AppendResponse_args :: "(string \<times> json) list \<Rightarrow> msg_args" where
  "AppendResponse_args d = with_log_hdr [''maxIndex'', ''success'', ''leaderId'', ''original_serial''] d (\<lambda>d.
     sbind (arg ''maxIndex'' j_int d) (\<lambda>mi.
     sbind (arg ''success'' j_bool d) (\<lambda>ok.
     sbind (arg ''leaderId'' (j_opt j_str) d) (\<lambda>l.
     sbind (arg ''original_serial'' j_int d) (\<lambda>orig.
       Inr (\<lambda>h. AppendResponseMessage h mi ok l orig))))))"

definition RequestVote_args :: "(string \<times> json) list \<Rightarrow> msg_args" where
  "RequestVote_args d = with_log_hdr [''reply_to_type''] d (\<lambda>d. Inr RequestVoteMessage)"

definition RequestVoteResponse_args :: "(string \<times> json) list \<Rightarrow> msg_args" where
  "RequestVoteResponse_args d = with_log_hdr [''vote''] d (\<lambda>d.
     sbind (arg ''vote'' j_bool d) (\<lambda>v. Inr (\<lambda>h. RequestVoteResponseMessage h v)))"

definition PreVote_args :: "(string \<times> json) list \<Rightarrow> msg_args" where
  "PreVote_args d = with_log_hdr [''authorized''] d (\<lambda>d.
     sbind (arg_dflt ''authorized'' False j_bool d) (\<lambda>a. Inr (\<lambda>h. PreVoteMessage h a)))"

definition PreVoteResponse_args :: "(string \<times> json) list \<Rightarrow> msg_args" where
  "PreVoteResponse_args d = with_log_hdr [''vote''] d (\<lambda>d.
     sbind (arg ''vote'' j_bool d) (\<lambda>v. Inr (\<lambda>h. PreVoteResponseMessage h v)))"

definition TransferPower_args :: "(string \<times> json) list \<Rightarrow> msg_args" where
  "TransferPower_args d = with_hdr [''term'', ''prevLogIndex'', ''prevLogTerm'', ''reply_to_type''] d (\<lambda>d.
     sbind (arg ''term'' j_int d) (\<lambda>t.
     sbind (arg ''prevLogIndex'' (j_opt j_int) d) (\<lambda>pix.
     sbind (arg ''prevLogTerm'' (j_opt j_int) d) (\<lambda>ptm.
       Inr (\<lambda>h. TransferPowerMessage h t pix ptm)))))"

definition TransferPowerResponse_args :: "(string \<times> json) list \<Rightarrow> msg_args" where
  "TransferPowerResponse_args d = with_log_hdr [''success''] d (\<lambda>d.
     sbind (arg ''success'' j_bool d) (\<lambda>ok. Inr (\<lambda>h. TransferPowerResponseMessage h ok)))"

definition MembershipChange_args :: "(string \<times> json) list \<Rightarrow> msg_args" where
  "MembershipChange_args d = with_hdr [''op'', ''target_uri''] d (\<lambda>d.
     sbind (arg ''op'' j_str d) (\<lambda>os. sbind (ChangeOp_of os) (\<lambda>op.
     sbind (arg ''target_uri'' j_str d) (\<lambda>tgt. Inr (\<lambda>h. MembershipChangeMessage h op tgt)))))"

definition MembershipChangeResponse_args :: "(string \<times> json) list \<Rightarrow> msg_args" where
  "MembershipChangeResponse_args d = with_hdr [''op'', ''target_uri'', ''ok''] d (\<lambda>d.
     sbind (arg ''op'' j_str d) (\<lambda>os. sbind (ChangeOp_of os) (\<lambda>op.
     sbind (arg ''target_uri'' j_str d) (\<lambda>tgt.
     sbind (arg ''ok'' j_bool d) (\<lambda>ok. Inr (\<lambda>h. MembershipChangeResponseMessage h op tgt ok))))))"

definition SnapShot_args :: "(string \<times> json) list \<Rightarrow> msg_args" where
  "SnapShot_args d = with_log_hdr [''leaderId'', ''offset'', ''done'', ''data'', ''clusterConfig''] d (\<lambda>d.
     sbind (arg ''leaderId'' j_str d) (\<lambda>l.
     sbind (arg ''offset'' j_int d) (\<lambda>off.
     sbind (arg ''done'' j_bool d) (\<lambda>dn.
     sbind (arg ''data'' j_text d) (\<lambda>dat.
     sbind (arg_dflt ''clusterConfig'' None (j_opt j_text) d) (\<lambda>cc.
       Inr (\<lambda>h. SnapShotMessage h l off dn dat cc)))))))"

definition SnapShotResponse_args :: "(string \<times> json) list \<Rightarrow> msg_args" where
  "SnapShotResponse_args d = with_log_hdr [''offset'', ''success''] d (\<lambda>d.
     sbind (arg_dflt ''offset'' 0 j_int d) (\<lambda>off.
     sbind (arg_dflt ''success'' True j_bool d) (\<lambda>ok.
       Inr (\<lambda>h. SnapShotResponseMessage h off ok))))"

lemmas class_args_defs =
  AppendEntries_args_def AppendResponse_args_def RequestVote_args_def
  RequestVoteResponse_args_def PreVote_args_def PreVoteResponse_args_def
  TransferPower_args_def TransferPowerResponse_args_def MembershipChange_args_def
  MembershipChangeResponse_args_def SnapShot_args_def SnapShotResponse_args_def

text \<open>The dispatch table; an unknown code is a \<open>KeyError\<close>.\<close>

definition message_args :: "string \<Rightarrow> (string \<times> json) list \<Rightarrow> msg_args" where
  "message_args c d =
     (if c = ''append_entries'' then AppendEntries_args d
      else if c = ''append_response'' then AppendResponse_args d
      else if c = ''request_vote'' then RequestVote_args d
      else if c = ''request_vote_response'' then RequestVoteResponse_args d
      else if c = ''pre_vote'' then PreVote_args d
      else if c = ''pre_vote_response'' then PreVoteResponse_args d
      else if c = ''transfer_power'' then TransferPower_args d
      else if c = ''transfer_power_response'' then TransferPowerResponse_args d
      else if c = ''membership_change'' then MembershipChange_args d
      else if c = ''membership_change_response'' then MembershipChangeResponse_args d
      else if c = ''snapshot'' then SnapShot_args d
      else if c = ''snapshot_response'' then SnapShotResponse_args d
      else Inl KeyError)"

definition decode_message :: "time \<Rightarrow> pystr \<Rightarrow> (SerialNumberGenerator, message) eff" where
  "decode_message now data =
     bindE (liftE (sbind (json_loads data) j_obj)) (\<lambda>d.
     bindE (liftE (sbind (item ''code'' d) j_str)) (\<lambda>c.
     bindE (liftE (message_args c (dict_del ''code'' d))) (\<lambda>(mk, n).
       case n of Some sn \<Rightarrow> ret (mk sn)
       | None \<Rightarrow> bindE (generate now) (\<lambda>sn. ret (mk sn)))))"

section \<open>The codec inverts the encoding\<close>

lemma hdr_args_json [simp]:
  "hdr_args (hdr_json h c @ xs) = Inr (\<lambda>sn. (base_hdr h)\<lparr>serial_number := sn\<rparr>, Some (serial_number h))"
  by (simp add: hdr_args_def hdr_json_def kwargs_simps base_hdr_def)

lemma hdr_args_json_nocode [simp]:
  "hdr_args (dict_del ''code'' (hdr_json h c @ xs)) =
   Inr (\<lambda>sn. (base_hdr h)\<lparr>serial_number := sn\<rparr>, Some (serial_number h))"
  by (simp add: hdr_args_def hdr_json_def kwargs_simps base_hdr_def)

lemmas codec_simps =
  hdr_args_def log_hdr_args_def log_hdr_json_def hdr_json_def with_log_hdr_def with_hdr_def
  kwargs_simps base_hdr_def

lemma message_args_json:
  "message_args (msg_code m) (dict_del ''code'' (case message_json m of JObj d \<Rightarrow> d | _ \<Rightarrow> [])) =
   Inr (mk, n) \<Longrightarrow> mk (serial_number (msg_hdr_of m)) = m \<and> n = Some (serial_number (msg_hdr_of m))"
  by (cases m) (auto simp: message_args_def class_args_defs codec_simps)

lemma message_json_code: "\<exists>d. message_json m = JObj d \<and> map_of d ''code'' = Some (str_json (msg_code m))"
  by (cases m) (simp_all add: codec_simps)

lemma message_args_defined:
  "message_json m = JObj d \<Longrightarrow> \<exists>mk n. message_args (msg_code m) (dict_del ''code'' d) = Inr (mk, n)"
  by (cases m) (auto simp: message_args_def class_args_defs codec_simps)

lemma decode_message_json: "decode_message now (Dumps (message_json m)) g = (Inr m, g)"
proof -
  obtain d where d: "message_json m = JObj d" "map_of d ''code'' = Some (str_json (msg_code m))"
    using message_json_code by blast
  moreover obtain mk n where a: "message_args (msg_code m) (dict_del ''code'' d) = Inr (mk, n)"
    using message_args_defined d by blast
  ultimately have "mk (serial_number (msg_hdr_of m)) = m" "n = Some (serial_number (msg_hdr_of m))"
    using message_args_json [of m mk n] by auto
  with d a show ?thesis by (simp add: decode_message_def run kwargs_simps)
qed

text \<open>C13. Decoding the bytes \<open>MessageCodec.encode_message\<close> made gives back the very message, of
  every class and with every field, and leaves the serial number generator alone.\<close>

theorem decode_encode:
  "decode_message now (fst (encode_message m)) g = (Inr m, g)"
  by (simp add: encode_message_def decode_message_json)

section \<open>Serial numbers increase\<close>

definition timebase :: "time \<Rightarrow> int" where
  "timebase now = py_int (now - EPOCH)"

fun generate_all :: "time list \<Rightarrow> (SerialNumberGenerator, int list) eff" where
  "generate_all [] = ret []"
| "generate_all (t # ts) =
     bindE (generate t) (\<lambda>n. bindE (generate_all ts) (\<lambda>ns. ret (n # ns)))"

lemma generate_eq:
  "generate now g =
     (if last_timebase g = Some (timebase now)
      then (Inr (timebase now * 1000000 + counter g), g\<lparr>counter := (counter g + 1) mod 1000000\<rparr>)
      else (Inr (timebase now * 1000000), \<lparr>last_timebase = Some (timebase now), counter = 1\<rparr>))"
proof -
  have tb: "x div 86400 * 86400 + x mod 86400 = x" for x :: int
    by (rule div_mult_mod_eq)
  show ?thesis
    by (cases g) (simp only: generate_def timebase_def Let_def tb, auto)
qed

text \<open>From a generator that issued \<open>n\<close> numbers in second \<open>b\<close>.\<close>

lemma generate_all_from:
  assumes "sorted (b # map timebase ts)" and "0 \<le> n"
    and "\<And>k. n * of_bool (k = b) + int (count_list (map timebase ts) k) \<le> 1000000"
    and "g = \<lparr>last_timebase = Some b, counter = n mod 1000000\<rparr>"
  shows "\<exists>ns g'. generate_all ts g = (Inr ns, g') \<and> sorted_wrt (<) ns \<and>
           list_all (\<lambda>x. b * 1000000 + n \<le> x) ns"
  using assms
proof (induction ts arbitrary: b n g)
  case Nil
  then show ?case by (simp add: run)
next
  case (Cons t ts)
  let ?t = "timebase t"
  define n' where "n' = (if ?t = b then n + 1 else 1)"
  define g' where "g' = \<lparr>last_timebase = Some ?t, counter = n' mod 1000000\<rparr>"
  have nb: "n \<le> 1000000" using Cons.prems(3) [of b] by simp
  have lt: "n < 1000000" if "?t = b"
    using Cons.prems(3) [of b] that by simp
  have b_le: "b \<le> ?t" using Cons.prems(1) by simp
  define sn where "sn = (if ?t = b then b * 1000000 + n else ?t * 1000000)"
  have gen: "generate t g = (Inr sn, g')"
    using Cons.prems(2,4) lt by (auto simp: generate_eq sn_def g'_def n'_def mod_add_left_eq)
  have cnt: "n' * of_bool (k = ?t) + int (count_list (map timebase ts) k) \<le> 1000000" for k
    using Cons.prems(3) [of k] Cons.prems(2)
    by (cases "k = b") (auto simp: n'_def split: if_splits)
  have n'_ge: "0 \<le> n'" using Cons.prems(2) by (simp add: n'_def)
  obtain ns g'' where ns: "generate_all ts g' = (Inr ns, g'')" "sorted_wrt (<) ns"
      "list_all (\<lambda>x. ?t * 1000000 + n' \<le> x) ns"
    using Cons.IH [OF _ n'_ge cnt g'_def] Cons.prems(1) by auto
  have "sn < ?t * 1000000 + n'" using Cons.prems(2) by (auto simp: sn_def n'_def)
  moreover have "b * 1000000 + n \<le> sn" using b_le nb by (auto simp: sn_def)
  ultimately show ?case
    using ns by (auto simp: run gen list_all_iff)
qed

lemma generate_all_length: "generate_all ts g = (Inr ns, g') \<Longrightarrow> length ns = length ts"
  by (induction ts arbitrary: g ns g') (auto simp: run split: prod.splits sum.splits)

text \<open>As long as the clock does not go back and no second issues more than a million
  serial numbers, a fresh generator issues strictly increasing, hence distinct, numbers.\<close>

theorem serial_numbers_increase:
  assumes "sorted (map timebase ts)"
    and "\<And>k. count_list (map timebase ts) k \<le> 1000000"
  shows "\<exists>ns g. generate_all ts new_SerialNumberGenerator = (Inr ns, g) \<and> sorted_wrt (<) ns \<and>
           length ns = length ts"
proof (cases ts)
  case Nil
  then show ?thesis by (simp add: run)
next
  case (Cons t us)
  let ?g = "\<lparr>last_timebase = Some (timebase t), counter = 1 mod 1000000\<rparr>"
  have "1 * of_bool (k = timebase t) + int (count_list (map timebase us) k) \<le> 1000000" for k
    using assms(2) [of k] Cons by (auto split: if_splits)
  then obtain ns g where ns: "generate_all us ?g = (Inr ns, g)" "sorted_wrt (<) ns"
      "list_all (\<lambda>x. timebase t * 1000000 + 1 \<le> x) ns"
    using generate_all_from [of "timebase t" us 1 ?g] assms(1) Cons by auto
  have "generate t new_SerialNumberGenerator = (Inr (timebase t * 1000000), ?g)"
    by (simp add: generate_eq new_SerialNumberGenerator_def)
  then have "generate_all ts new_SerialNumberGenerator = (Inr (timebase t * 1000000 # ns), g)"
    using ns Cons by (simp add: run)
  moreover have "sorted_wrt (<) (timebase t * 1000000 # ns)"
    using ns by (auto simp: list_all_iff)
  ultimately show ?thesis using generate_all_length by fastforce
qed

theorem serial_numbers_increase_witness:
  "\<exists>ns g. generate_all [EPOCH, EPOCH, EPOCH + 5/2] new_SerialNumberGenerator = (Inr ns, g) \<and>
     sorted_wrt (<) ns \<and> length ns = length [EPOCH, EPOCH, EPOCH + 5/2]"
proof (rule serial_numbers_increase)
  show "sorted (map timebase [EPOCH, EPOCH, EPOCH + 5/2])"
    by (simp add: timebase_def py_int_def)
  show "count_list (map timebase [EPOCH, EPOCH, EPOCH + 5/2]) k \<le> 1000000" for k
    by simp
qed

end
