(* ===== verification/Log_Api.thy ===== *)
theory Log_Api
  imports Api_Types "HOL-Library.Multiset"
begin

text \<open>
  The storage interface \<open>LogAPI\<close> of \<open>src/raftengine/api/log_api.py\<close>: the record of methods a log
  object offers, what a client can observe of a log (\<open>log_view\<close>), the abstract effect of every
  operation on that view, and a contract as locales. The contract is the behaviour the engine gets from
  its logs, not the text of \<open>log_api.py\<close>: \<open>raft_log\<close> is what all the logs of \<open>src/raftengine/extras\<close> do,
  and \<open>stable_log\<close> adds that a deletion keeps the current term and leaves no stale last term. Two
  sentences of that text, that a change of the term clears the vote and that an installed snapshot is
  the baseline of the two progress indexes, are stated as \<open>clears_vote\<close> and \<open>snapshot_baseline\<close>, and no
  log with the contract keeps them. The query methods are functions of the log's state: in every implementation
  they read fields and change none.
\<close>

section \<open>The interface\<close>

record 'l LogAPI =
  get_broken :: "'l \<Rightarrow> bool"
  set_broken :: "('l, unit) eff"
  set_fixed :: "('l, unit) eff"
  get_uri :: "'l \<Rightarrow> uri option"
  set_uri :: "uri \<Rightarrow> ('l, unit) eff"
  get_term :: "'l \<Rightarrow> int"
  set_term :: "int \<Rightarrow> ('l, unit) eff"
  incr_term :: "('l, int) eff"
  get_voted_for :: "'l \<Rightarrow> uri option"
  set_voted_for :: "uri option \<Rightarrow> ('l, unit) eff"
  get_last_index :: "'l \<Rightarrow> int"
  get_first_index :: "'l \<Rightarrow> int option"
  get_last_term :: "'l \<Rightarrow> int"
  get_commit_index :: "'l \<Rightarrow> int"
  get_applied_index :: "'l \<Rightarrow> int"
  log_append :: "LogRec \<Rightarrow> ('l, LogRec) eff"
  log_insert :: "LogRec \<Rightarrow> ('l, LogRec) eff"
  mark_committed :: "int \<Rightarrow> ('l, unit) eff"
  mark_applied :: "int \<Rightarrow> ('l, unit) eff"
  log_read :: "int option \<Rightarrow> ('l, LogRec option) eff"
  delete_all_from :: "int \<Rightarrow> ('l, unit) eff"
  save_cluster_config :: "ClusterConfig \<Rightarrow> ('l, ClusterConfig) eff"
  get_cluster_config :: "'l \<Rightarrow> ClusterConfig option"
  install_snapshot :: "SnapShot \<Rightarrow> ('l, unit) eff"
  get_snapshot :: "'l \<Rightarrow> SnapShot option"

text \<open>\<open>LogStats\<close>, and the record rate every implementation computes from the write times it has kept.\<close>

record LogStats =
  st_first_index :: "int option"
  st_last_index :: int
  st_last_term :: int
  st_commit_index :: int
  st_applied_index :: int
  st_record_count :: int
  st_records_since_snapshot :: int
  st_records_per_minute :: rat
  st_percent_remaining :: "rat option"
  st_total_size_bytes :: int
  st_snapshot_index :: "int option"
  st_last_record_timestamp :: "time option"

definition recent_rate :: "time \<Rightarrow> time list \<Rightarrow> rat" where
  "recent_rate clock ts =
     (let recent = filter (\<lambda>t. t \<ge> clock - 300) ts in
      if length recent \<ge> 2
      then (let time_span = last recent - hd recent in
            if time_span > 0 then rat_of_nat (length recent - 1) * 60 / time_span else 0)
      else 0)"

lemma recent_rate_nonneg: "0 \<le> recent_rate clock ts"
  by (simp add: recent_rate_def Let_def)

section \<open>What a client observes\<close>

text \<open>The \<open>committed\<close> and \<open>applied\<close> marks of a record follow the two indexes; \<open>content\<close> is the rest.\<close>

definition content :: "LogRec \<Rightarrow> LogRec" where
  "content r = r\<lparr>committed := False, applied := False\<rparr>"

lemma content_simps [simp]:
  "rec_index (content r) = rec_index r" "rec_term (content r) = rec_term r"
  "command (content r) = command r" "code (content r) = code r"
  "serial (content r) = serial r" "leader_id (content r) = leader_id r"
  "content (content r) = content r"
  "content (r\<lparr>committed := b\<rparr>) = content r" "content (r\<lparr>applied := b\<rparr>) = content r"
  by (simp_all add: content_def)

record log_view =
  v_broken :: bool
  v_uri :: "uri option"
  v_term :: int
  v_voted :: "uri option"
  v_last :: int
  v_first :: "int option"
  v_last_term :: int
  v_commit :: int
  v_applied :: int
  v_config :: "ClusterConfig option"
  v_snap :: "SnapShot option"
  v_ents :: "int \<Rightarrow> LogRec option"

definition view :: "'l LogAPI \<Rightarrow> ('l \<Rightarrow> int \<Rightarrow> LogRec option) \<Rightarrow> 'l \<Rightarrow> log_view" where
  "view api ents s =
     \<lparr>v_broken = get_broken api s, v_uri = get_uri api s, v_term = get_term api s,
      v_voted = get_voted_for api s, v_last = get_last_index api s, v_first = get_first_index api s,
      v_last_term = get_last_term api s, v_commit = get_commit_index api s,
      v_applied = get_applied_index api s, v_config = get_cluster_config api s,
      v_snap = get_snapshot api s, v_ents = ents s\<rparr>"

lemma view_simps [simp]:
  "v_broken (view api ents s) = get_broken api s" "v_uri (view api ents s) = get_uri api s"
  "v_term (view api ents s) = get_term api s" "v_voted (view api ents s) = get_voted_for api s"
  "v_last (view api ents s) = get_last_index api s" "v_first (view api ents s) = get_first_index api s"
  "v_last_term (view api ents s) = get_last_term api s"
  "v_commit (view api ents s) = get_commit_index api s"
  "v_applied (view api ents s) = get_applied_index api s"
  "v_config (view api ents s) = get_cluster_config api s"
  "v_snap (view api ents s) = get_snapshot api s" "v_ents (view api ents s) = ents s"
  by (simp_all add: view_def)

text \<open>The last index the snapshot covers, 0 without one.\<close>

definition snap_base :: "SnapShot option \<Rightarrow> int" where
  "snap_base sn = (case sn of None \<Rightarrow> 0 | Some x \<Rightarrow> snap_index x)"

lemma snap_base_simps [simp]: "snap_base None = 0" "snap_base (Some x) = snap_index x"
  by (simp_all add: snap_base_def)

definition snap_last_term :: "SnapShot option \<Rightarrow> int" where
  "snap_last_term sn = (case sn of None \<Rightarrow> 0 | Some x \<Rightarrow> snap_term x)"

lemma snap_last_term_simps [simp]: "snap_last_term None = 0" "snap_last_term (Some x) = snap_term x"
  by (simp_all add: snap_last_term_def)

text \<open>
  A well-formed view: the records fill the indexes after the snapshot up to the last one without
  a gap, each under its own index, and the first and last index and the last term describe them.
\<close>

definition view_ok :: "log_view \<Rightarrow> bool" where
  "view_ok v \<longleftrightarrow>
     0 \<le> snap_base (v_snap v) \<and> snap_base (v_snap v) \<le> v_last v \<and>
     (\<forall>i. (v_ents v i \<noteq> None) = (snap_base (v_snap v) < i \<and> i \<le> v_last v)) \<and>
     (\<forall>i r. v_ents v i = Some r \<longrightarrow> rec_index r = i) \<and>
     v_first v = (if snap_base (v_snap v) < v_last v then Some (snap_base (v_snap v) + 1) else None) \<and>
     (\<forall>r. v_ents v (v_last v) = Some r \<longrightarrow> v_last_term v = rec_term r)"

section \<open>Abstract effect of the operations\<close>

text \<open>Where an inserted record goes: index 0 asks for the next free place.\<close>

definition place :: "log_view \<Rightarrow> LogRec \<Rightarrow> LogRec" where
  "place v r = (if rec_index r = 0 then r\<lparr>rec_index := v_last v + 1\<rparr> else r)"

text \<open>Appending after the last record, or writing over the last record.\<close>

definition insert_view :: "LogRec \<Rightarrow> log_view \<Rightarrow> log_view" where
  "insert_view r v = v\<lparr>v_last := rec_index r, v_last_term := rec_term r,
     v_first := (case v_first v of None \<Rightarrow> Some (rec_index r) | Some f \<Rightarrow> Some f),
     v_ents := (v_ents v)(rec_index r \<mapsto> content r)\<rparr>"

definition can_insert :: "log_view \<Rightarrow> LogRec \<Rightarrow> bool" where
  "can_insert v r \<longleftrightarrow> rec_index r = 0 \<or> rec_index r = v_last v + 1 \<or>
     (rec_index r = v_last v \<and> snap_base (v_snap v) < v_last v)"

text \<open>
  What every log promises of \<open>delete_all_from(i)\<close>: the records from \<open>i\<close> on are gone, the others and
  everything that is not about the end of the log stay, and the two indexes do not grow.
\<close>

definition deleted_from :: "int \<Rightarrow> log_view \<Rightarrow> log_view \<Rightarrow> bool" where
  "deleted_from i v v' \<longleftrightarrow>
     v_ents v' = (\<lambda>j. if j < i then v_ents v j else None) \<and> v_last v' = i - 1 \<and>
     v_broken v' = v_broken v \<and> v_uri v' = v_uri v \<and> v_voted v' = v_voted v \<and>
     v_config v' = v_config v \<and> v_snap v' = v_snap v \<and>
     v_commit v' \<le> v_commit v \<and> v_applied v' \<le> v_applied v"

definition can_delete :: "int \<Rightarrow> log_view \<Rightarrow> bool" where
  "can_delete i v \<longleftrightarrow> snap_base (v_snap v) < i \<and> i \<le> v_last v"

definition snapshot_view :: "SnapShot \<Rightarrow> log_view \<Rightarrow> log_view" where
  "snapshot_view sn v = v\<lparr>v_snap := Some sn, v_last := max (snap_index sn) (v_last v),
     v_first := (if snap_index sn < v_last v then Some (snap_index sn + 1) else None),
     v_last_term := (if snap_index sn < v_last v then v_last_term v else snap_term sn),
     v_ents := (\<lambda>j. if snap_index sn < j then v_ents v j else None)\<rparr>"

definition can_install :: "SnapShot \<Rightarrow> log_view \<Rightarrow> bool" where
  "can_install sn v \<longleftrightarrow> 0 < snap_index sn \<and> snap_base (v_snap v) \<le> snap_index sn \<and>
     (snap_index sn < v_last v \<longrightarrow> snap_term sn \<le> v_last_term v)"

text \<open>
  Configurations a log can store and give back: the active nodes are unmarked and under their own
  uri, and a pending node is marked as being added or removed and is not active. The SQLite and
  LMDB logs keep active and pending nodes in one table and tell them apart by the marks.
\<close>

definition config_ok :: "ClusterConfig \<Rightarrow> bool" where
  "config_ok c \<longleftrightarrow> dict_ok (nodes c) \<and>
     list_all (\<lambda>(u, n). node_uri n = u \<and> \<not> is_adding n \<and> \<not> is_removing n) (nodes c) \<and>
     (case pending_node c of None \<Rightarrow> True
      | Some n \<Rightarrow> (is_adding n \<or> is_removing n) \<and> node_uri n \<notin> set (dict_keys (nodes c)))"

subsection \<open>The operations keep a view well formed\<close>

lemma insert_view_ok:
  assumes ok: "view_ok v" and can: "can_insert v r" and nz: "rec_index r \<noteq> 0"
  shows "view_ok (insert_view r v)"
proof -
  from can nz have i: "rec_index r = v_last v + 1 \<or> rec_index r = v_last v \<and> snap_base (v_snap v) < v_last v"
    by (simp add: can_insert_def)
  have dom: "(v_ents v j \<noteq> None) = (snap_base (v_snap v) < j \<and> j \<le> v_last v)" for j
    using ok by (simp add: view_ok_def)
  show ?thesis unfolding view_ok_def
  proof (intro conjI allI)
    fix j
    show "(v_ents (insert_view r v) j \<noteq> None) =
      (snap_base (v_snap (insert_view r v)) < j \<and> j \<le> v_last (insert_view r v))"
      using i dom [of j] ok by (auto simp: insert_view_def view_ok_def)
  qed (use i ok in \<open>auto simp: insert_view_def view_ok_def split: if_splits\<close>)
qed

text \<open>Well-formedness is about the records, their bounds and the snapshot only.\<close>

lemma view_ok_frame [simp]:
  "view_ok (v\<lparr>v_broken := a\<rparr>) = view_ok v" "view_ok (v\<lparr>v_uri := b\<rparr>) = view_ok v"
  "view_ok (v\<lparr>v_term := c\<rparr>) = view_ok v" "view_ok (v\<lparr>v_voted := b\<rparr>) = view_ok v"
  "view_ok (v\<lparr>v_commit := c\<rparr>) = view_ok v" "view_ok (v\<lparr>v_applied := c\<rparr>) = view_ok v"
  "view_ok (v\<lparr>v_config := d\<rparr>) = view_ok v"
  by (simp_all add: view_ok_def)

lemma deleted_from_ok:
  assumes "view_ok v" and "can_delete i v" and "deleted_from i v v'"
    and "v_first v' = (if snap_base (v_snap v) < i - 1 then Some (snap_base (v_snap v) + 1) else None)"
    and "\<And>r. v_ents v (i - 1) = Some r \<Longrightarrow> v_last_term v' = rec_term r"
  shows "view_ok v'"
  using assms unfolding view_ok_def deleted_from_def can_delete_def by (auto split: if_splits)

lemma snapshot_view_ok:
  assumes "view_ok v" and "can_install sn v"
  shows "view_ok (snapshot_view sn v)"
  using assms unfolding view_ok_def snapshot_view_def can_install_def by (auto split: if_splits)

lemma place_can_insert:
  "view_ok v \<Longrightarrow> can_insert v r \<Longrightarrow> can_insert v (place v r) \<and> rec_index (place v r) \<noteq> 0 \<and>
    v_last v \<le> rec_index (place v r)"
  by (auto simp: can_insert_def place_def view_ok_def)

text \<open>The same configuration: equal as Python values, where the order of a dict does not count.\<close>

definition config_same :: "ClusterConfig \<Rightarrow> ClusterConfig \<Rightarrow> bool" where
  "config_same c c' \<longleftrightarrow> dict_ok (nodes c') \<and> dict_get (nodes c') = dict_get (nodes c) \<and>
     pending_node c' = pending_node c \<and> settings c' = settings c"

lemma config_same_refl: "config_ok c \<Longrightarrow> config_same c c"
  by (simp add: config_same_def config_ok_def)

section \<open>What the persistent logs share\<close>

text \<open>
  The attributes that the SQLite and the LMDB log keep in memory and in one stored row, and their
  way of telling the pending node from the active ones in the stored node rows.
\<close>

record stats_row =
  max_index :: int
  cur_term :: int
  voted_for :: "uri option"
  broken :: bool
  max_commit :: int
  max_apply :: int
  own_uri :: "uri option"

definition open_stats :: stats_row where
  "open_stats = \<lparr>max_index = 0, cur_term = 0, voted_for = None, broken = False, max_commit = 0,
     max_apply = 0, own_uri = None\<rparr>"

fun split_nodes :: "NodeRec list \<Rightarrow> (uri \<times> NodeRec) list \<Rightarrow> NodeRec option \<Rightarrow>
    (uri \<times> NodeRec) list \<times> NodeRec option" where
  "split_nodes [] ns p = (ns, p)"
| "split_nodes (n # rows) ns p =
     (if is_removing n \<or> is_adding n then split_nodes rows ns (Some n)
      else split_nodes rows (dict_set (node_uri n) n ns) p)"

definition db_config :: "NodeRec list \<Rightarrow> ClusterSettings option \<Rightarrow> ClusterConfig option" where
  "db_config rows cs = (case cs of None \<Rightarrow> None
     | Some st \<Rightarrow> (case split_nodes rows [] None of
         (ns, p) \<Rightarrow> Some \<lparr>nodes = ns, pending_node = p, settings = st\<rparr>))"

definition node_rows :: "ClusterConfig \<Rightarrow> NodeRec list" where
  "node_rows c = map snd (nodes c) @ (case pending_node c of None \<Rightarrow> [] | Some n \<Rightarrow> [n])"

lemma node_rows_distinct:
  assumes "config_ok c"
  shows "distinct (map node_uri (node_rows c))"
proof -
  have uris: "map (node_uri \<circ> snd) (nodes c) = dict_keys (nodes c)"
    using assms by (auto simp: config_ok_def list_all_iff)
  have "distinct (map (node_uri \<circ> snd) (nodes c))"
    unfolding uris using assms by (simp add: config_ok_def)
  moreover have "(node_uri \<circ> snd) ` set (nodes c) = set (dict_keys (nodes c))"
    by (simp flip: uris)
  ultimately show ?thesis
    using assms by (cases "pending_node c") (auto simp: config_ok_def image_comp node_rows_def)
qed

lemma split_nodes_unmarked:
  "list_all (\<lambda>(u, n). node_uri n = u \<and> \<not> is_adding n \<and> \<not> is_removing n) ns \<Longrightarrow>
   dict_ok (ps @ ns) \<Longrightarrow> split_nodes (map snd ns @ rest) ps p = split_nodes rest (ps @ ns) p"
proof (induction ns arbitrary: ps)
  case (Cons x ns)
  obtain u n where x: "x = (u, n)" by fastforce
  have "dict_set u n ps = ps @ [(u, n)]"
    using Cons.prems x by (intro update_append_new) auto
  with Cons x show ?case by simp
qed simp

lemma db_config_rows:
  assumes "config_ok c"
  shows "db_config (node_rows c) (Some (settings c)) = Some c"
  using assms split_nodes_unmarked [of "nodes c" "[]"]
  by (auto simp: db_config_def config_ok_def node_rows_def split: option.splits)

text \<open>The rows may come back in any order.\<close>

lemma split_nodes_eq:
  "split_nodes rows ns p =
     (fold (\<lambda>n. dict_set (node_uri n) n) (filter (\<lambda>n. \<not> (is_removing n \<or> is_adding n)) rows) ns,
      last (p # map Some (filter (\<lambda>n. is_removing n \<or> is_adding n) rows)))"
  by (induction rows ns p rule: split_nodes.induct) auto

lemma fold_dict_set_distinct:
  "distinct (dict_keys ns @ map node_uri rows) \<Longrightarrow>
   fold (\<lambda>n. dict_set (node_uri n) n) rows ns = ns @ map (\<lambda>n. (node_uri n, n)) rows"
proof (induction rows arbitrary: ns)
  case (Cons n rows)
  have "dict_set (node_uri n) n ns = ns @ [(node_uri n, n)]"
    using Cons.prems by (intro update_append_new) auto
  with Cons show ?case by simp
qed simp

lemma config_ok_rows:
  assumes "config_ok c"
  shows "map (\<lambda>n. (node_uri n, n)) (filter (\<lambda>n. \<not> (is_removing n \<or> is_adding n)) (node_rows c)) = nodes c"
    "filter (\<lambda>n. is_removing n \<or> is_adding n) (node_rows c) = (case pending_node c of None \<Rightarrow> [] | Some n \<Rightarrow> [n])"
proof -
  have u: "\<forall>x \<in> set (nodes c). node_uri (snd x) = fst x \<and> \<not> is_adding (snd x) \<and> \<not> is_removing (snd x)"
    using assms by (auto simp: config_ok_def list_all_iff)
  then have f: "filter (\<lambda>n. \<not> (is_removing n \<or> is_adding n)) (map snd (nodes c)) = map snd (nodes c)"
    "filter (\<lambda>n. is_removing n \<or> is_adding n) (map snd (nodes c)) = []"
    by (auto simp: filter_id_conv filter_empty_conv)
  have "map (\<lambda>n. (node_uri n, n)) (map snd (nodes c)) = nodes c"
    using u by (simp add: map_idI)
  with f assms show
    "map (\<lambda>n. (node_uri n, n)) (filter (\<lambda>n. \<not> (is_removing n \<or> is_adding n)) (node_rows c)) = nodes c"
    "filter (\<lambda>n. is_removing n \<or> is_adding n) (node_rows c) = (case pending_node c of None \<Rightarrow> [] | Some n \<Rightarrow> [n])"
    by (auto simp: node_rows_def config_ok_def split: option.splits)
qed

lemma db_config_perm:
  assumes ok: "config_ok c" and perm: "mset rows = mset (node_rows c)"
  shows "\<exists>c'. db_config rows (Some (settings c)) = Some c' \<and> config_same c c'"
proof -
  let ?u = "filter (\<lambda>n. \<not> (is_removing n \<or> is_adding n))" and ?m = "filter (\<lambda>n. is_removing n \<or> is_adding n)"
  let ?pair = "map (\<lambda>n. (node_uri n, n))"
  have "mset (map node_uri rows) = mset (map node_uri (node_rows c))"
    using perm by simp
  then have "distinct (map node_uri rows)"
    using node_rows_distinct [OF ok] by (metis mset_eq_imp_distinct_iff)
  then have d: "distinct (map node_uri (?u rows))"
    by (simp add: distinct_map_filter)
  have set_eq: "set (?pair (?u rows)) = set (?pair (?u (node_rows c)))"
    using perm by (metis (no_types) mset_eq_setD mset_filter set_map)
  have "dict_get (?pair (?u rows)) = dict_get (nodes c)"
    using d set_eq ok unfolding config_ok_rows(1) [OF ok]
    by (intro map_of_inject_set [THEN iffD2]) (simp_all add: config_ok_def comp_def)
  moreover have "?m rows = ?m (node_rows c)"
    unfolding config_ok_rows(2) [OF ok] using config_ok_rows(2) [OF ok] perm
    by (auto split: option.splits) (metis mset_filter mset_single_iff mset_zero_iff mset.simps)+
  ultimately show ?thesis
    using d by (auto simp: db_config_def split_nodes_eq fold_dict_set_distinct config_same_def comp_def
        config_ok_rows(2) [OF ok] split: option.splits)
qed

section \<open>The contract\<close>

locale raft_log =
  fixes api :: "'l LogAPI" and inv :: "'l \<Rightarrow> bool" and ents :: "'l \<Rightarrow> int \<Rightarrow> LogRec option"
  assumes inv_view: "inv s \<Longrightarrow> view_ok (view api ents s)"
    and set_broken_law: "inv s \<Longrightarrow> \<exists>t. set_broken api s = (Inr (), t) \<and> inv t \<and>
          view api ents t = (view api ents s)\<lparr>v_broken := True\<rparr>"
    and set_fixed_law: "inv s \<Longrightarrow> \<exists>t. set_fixed api s = (Inr (), t) \<and> inv t \<and>
          view api ents t = (view api ents s)\<lparr>v_broken := False\<rparr>"
    and set_uri_law: "inv s \<Longrightarrow> \<exists>t. set_uri api u s = (Inr (), t) \<and> inv t \<and>
          view api ents t = (view api ents s)\<lparr>v_uri := Some u\<rparr>"
    and set_term_law: "inv s \<Longrightarrow> \<exists>t. set_term api n s = (Inr (), t) \<and> inv t \<and>
          view api ents t = (view api ents s)\<lparr>v_term := n\<rparr>"
    and incr_term_law: "inv s \<Longrightarrow> \<exists>t. incr_term api s = (Inr (get_term api s + 1), t) \<and> inv t \<and>
          view api ents t = (view api ents s)\<lparr>v_term := get_term api s + 1\<rparr>"
    and set_voted_for_law: "inv s \<Longrightarrow> \<exists>t. set_voted_for api w s = (Inr (), t) \<and> inv t \<and>
          view api ents t = (view api ents s)\<lparr>v_voted := w\<rparr>"
    and insert_law: "inv s \<Longrightarrow> can_insert (view api ents s) r \<Longrightarrow>
          \<exists>t. log_insert api r s = (Inr (place (view api ents s) r), t) \<and> inv t \<and>
              view api ents t = insert_view (place (view api ents s) r) (view api ents s)"
    and insert_gap: "inv s \<Longrightarrow> get_last_index api s + 1 < rec_index r \<Longrightarrow>
          log_insert api r s = (Inl InsertPastLast, s)"
    and append_insert: "log_append api = log_insert api"
    and mark_committed_law: "inv s \<Longrightarrow> \<exists>t. mark_committed api i s = (Inr (), t) \<and> inv t \<and>
          view api ents t = (view api ents s)\<lparr>v_commit := max i (get_commit_index api s)\<rparr>"
    and mark_applied_law: "inv s \<Longrightarrow> \<exists>t. mark_applied api i s = (Inr (), t) \<and> inv t \<and>
          view api ents t = (view api ents s)\<lparr>v_applied := max i (get_applied_index api s)\<rparr>"
    and read_law: "inv s \<Longrightarrow> 1 \<le> i \<Longrightarrow> \<exists>r t. log_read api (Some i) s = (Inr r, t) \<and> inv t \<and>
          view api ents t = view api ents s \<and> map_option content r = ents s i"
    and read_low: "inv s \<Longrightarrow> i < 1 \<Longrightarrow> log_read api (Some i) s = (Inl (ReadBelowOne i), s)"
    and delete_law: "inv s \<Longrightarrow> can_delete i (view api ents s) \<Longrightarrow>
          \<exists>t. delete_all_from api i s = (Inr (), t) \<and> inv t \<and>
              deleted_from i (view api ents s) (view api ents t)"
    and delete_snap: "inv s \<Longrightarrow> get_snapshot api s = Some sn \<Longrightarrow> i \<le> snap_index sn \<Longrightarrow>
          delete_all_from api i s = (Inl (DeleteInSnapshot i), s)"
    and save_config_law: "inv s \<Longrightarrow> config_ok c \<Longrightarrow>
          \<exists>t c'. save_cluster_config api c s = (Inr c, t) \<and> inv t \<and> config_same c c' \<and>
              view api ents t = (view api ents s)\<lparr>v_config := Some c'\<rparr>"
    and install_law: "inv s \<Longrightarrow> can_install sn (view api ents s) \<Longrightarrow>
          \<exists>t. install_snapshot api sn s = (Inr (), t) \<and> inv t \<and>
              view api ents t = snapshot_view sn (view api ents s)"
    and install_zero: "inv s \<Longrightarrow> snap_index sn = 0 \<Longrightarrow>
          install_snapshot api sn s = (Inl SnapshotAtZero, s)"

text \<open>A log whose deletions keep the current term and leave no stale last term behind.\<close>

locale stable_log = raft_log +
  assumes delete_term: "inv s \<Longrightarrow> can_delete i (view api ents s) \<Longrightarrow>
            delete_all_from api i s = (r, t) \<Longrightarrow> get_term api t = get_term api s"
    and empty_last_term: "inv s \<Longrightarrow> ents s (get_last_index api s) = None \<Longrightarrow>
            get_last_term api s = snap_last_term (get_snapshot api s)"

section \<open>What the documentation asks for beyond the contract\<close>

text \<open>\<open>set_term(term)\<close>: "Sets current term, clears voted_for"; \<open>incr_term()\<close>: "Increments and returns new term, clears
  voted_for". The logs leave that to their callers.\<close>

definition clears_vote :: "'l LogAPI \<Rightarrow> ('l \<Rightarrow> bool) \<Rightarrow> bool" where
  "clears_vote api good \<longleftrightarrow> (\<forall>s n. good s \<longrightarrow> get_voted_for api (snd (set_term api n s)) = None \<and>
     get_voted_for api (snd (incr_term api s)) = None)"

text \<open>\<open>install_snapshot\<close>: "\<open>get_commit_index()\<close> considers snapshot.index as baseline for committed state", and
  \<open>get_applied_index()\<close> likewise.\<close>

definition snapshot_baseline :: "'l LogAPI \<Rightarrow> ('l \<Rightarrow> bool) \<Rightarrow> ('l \<Rightarrow> int \<Rightarrow> LogRec option) \<Rightarrow> bool" where
  "snapshot_baseline api good ents \<longleftrightarrow> (\<forall>s sn. good s \<longrightarrow> can_install sn (view api ents s) \<longrightarrow>
     snap_index sn \<le> get_commit_index api (snd (install_snapshot api sn s)) \<and>
     snap_index sn \<le> get_applied_index api (snd (install_snapshot api sn s)))"

context raft_log
begin

lemma keeps_vote:
  assumes "inv s"
  shows "\<not> clears_vote api inv"
proof -
  obtain t where t: "inv t" "view api ents t = (view api ents s)\<lparr>v_voted := Some []\<rparr>"
    using set_voted_for_law [OF assms] by blast
  obtain t' where t': "set_term api 0 t = (Inr (), t')" "view api ents t' = (view api ents t)\<lparr>v_term := 0\<rparr>"
    using set_term_law [OF t(1)] by blast
  have "get_voted_for api t' = Some []"
    using arg_cong [OF t'(2), of v_voted] arg_cong [OF t(2), of v_voted] by simp
  moreover have "get_voted_for api (snd (set_term api 0 t)) = None" if "clears_vote api inv"
    using that t(1) by (simp add: clears_vote_def)
  ultimately show ?thesis using t'(1) by auto
qed

lemma keeps_progress:
  assumes "inv s"
  shows "\<not> snapshot_baseline api inv ents"
proof -
  let ?v = "view api ents s"
  let ?sn = "\<lparr>snap_index = 1 + max (v_last ?v) (max (v_commit ?v) (v_applied ?v)), snap_term = 0\<rparr>"
  have can: "can_install ?sn ?v" using inv_view [OF assms] by (auto simp: can_install_def view_ok_def)
  then obtain t where t: "install_snapshot api ?sn s = (Inr (), t)" "view api ents t = snapshot_view ?sn ?v"
    using install_law [OF assms] by blast
  have "get_commit_index api t = v_commit ?v" "get_applied_index api t = v_applied ?v"
    using arg_cong [OF t(2), of v_commit] arg_cong [OF t(2), of v_applied] by (simp_all add: snapshot_view_def)
  moreover have "snap_index ?sn \<le> get_commit_index api (snd (install_snapshot api ?sn s))" if "snapshot_baseline api inv ents"
    using that assms can by (simp only: snapshot_baseline_def)
  ultimately show ?thesis using t(1) by auto
qed

end

end
