(* ===== verification/Event_Control.thy ===== *)
theory Event_Control
  imports Api_Types
begin

text \<open>
  Event types and events (\<open>src/raftengine/api/events.py\<close>) and the handler registry \<open>EventControl\<close>
  (\<open>src/raftengine/deck/event_control.py\<close>). A handler is an object identity with the event types it
  handles. The registry invariant says that \<open>active_events\<close>, \<open>handler_map\<close> and \<open>handlers\<close> agree, so the
  guards \<open>EventType.x in active_events\<close> around the engine's emissions skip an emission exactly when no
  handler would get it.
\<close>

datatype EventType =
    ev_error | ev_role_change | ev_term_change | ev_leader_change
  | ev_membership_change_complete | ev_membership_change_aborted | ev_election_op | ev_resync_op

datatype event =
    ErrorEvent pystr
  | RoleChangeEvent RoleName
  | TermChangeEvent int
  | LeaderChangeEvent "uri option"
  | MembershipChangeDoneEvent ChangeOp uri
  | MembershipChangeAbortedEvent ChangeOp uri
  | ElectionEvent OpDetail
  | ResyncEvent OpDetail

fun event_type :: "event \<Rightarrow> EventType" where
  "event_type (ErrorEvent _) = ev_error"
| "event_type (RoleChangeEvent _) = ev_role_change"
| "event_type (TermChangeEvent _) = ev_term_change"
| "event_type (LeaderChangeEvent _) = ev_leader_change"
| "event_type (MembershipChangeDoneEvent _ _) = ev_membership_change_complete"
| "event_type (MembershipChangeAbortedEvent _ _) = ev_membership_change_aborted"
| "event_type (ElectionEvent _) = ev_election_op"
| "event_type (ResyncEvent _) = ev_resync_op"

record EventHandler =
  h_id :: nat
  event_types :: "EventType list"

record EventControl =
  active_events :: "EventType list"
  handlers :: "EventHandler list"
  handler_map :: "(EventType \<times> EventHandler list) list"

definition new_EventControl :: EventControl where
  "new_EventControl = \<lparr>active_events = [], handlers = [], handler_map = []\<rparr>"

text \<open>\<open>handler_map[event_type]\<close>, a \<open>defaultdict(list)\<close>.\<close>

definition handlers_for :: "EventControl \<Rightarrow> EventType \<Rightarrow> EventHandler list" where
  "handlers_for c t = or_else [] (dict_get (handler_map c) t)"

definition set_handlers :: "EventType \<Rightarrow> EventHandler list \<Rightarrow> EventControl \<Rightarrow> EventControl" where
  "set_handlers t hs c = c\<lparr>handler_map := dict_set t hs (handler_map c)\<rparr>"

definition subscribe :: "EventHandler \<Rightarrow> EventType \<Rightarrow> (EventControl, unit) eff" where
  "subscribe h t =
     seqE (modE (\<lambda>c. if t \<in> set (active_events c) then c else c\<lparr>active_events := active_events c @ [t]\<rparr>))
     (modE (\<lambda>c. if h \<in> set (handlers_for c t) then c else set_handlers t (handlers_for c t @ [h]) c))"

definition add_handler :: "EventHandler \<Rightarrow> (EventControl, unit) eff" where
  "add_handler h = bindE (getsE handlers) (\<lambda>hs.
     whenE (h \<notin> set hs)
       (seqE (modE (\<lambda>c. c\<lparr>handlers := handlers c @ [h]\<rparr>))
       (forE (event_types h) (subscribe h))))"

text \<open>\<open>list.remove(x)\<close> deletes the first occurrence and raises \<open>ValueError\<close> when there is none.\<close>

definition unsubscribe :: "EventHandler \<Rightarrow> EventType \<Rightarrow> (EventControl, unit) eff" where
  "unsubscribe h t = bindE (getsE (\<lambda>c. handlers_for c t)) (\<lambda>hs.
     if h \<notin> set hs then throw ValueError
     else seqE (modE (set_handlers t (remove1 h hs)))
       (whenE (length (remove1 h hs) = 0)
         (bindE (getsE active_events) (\<lambda>act.
            if t \<notin> set act then throw ValueError
            else modE (\<lambda>c. c\<lparr>active_events := remove1 t (active_events c)\<rparr>)))))"

definition remove_handler :: "EventHandler \<Rightarrow> (EventControl, unit) eff" where
  "remove_handler h = bindE (getsE handlers) (\<lambda>hs.
     whenE (h \<in> set hs)
       (seqE (modE (\<lambda>c. c\<lparr>handlers := remove1 h (handlers c)\<rparr>))
       (forE (event_types h) (unsubscribe h))))"

section \<open>The registry invariant\<close>

definition ec_inv :: "EventControl \<Rightarrow> bool" where
  "ec_inv c \<longleftrightarrow> distinct (active_events c) \<and> distinct (handlers c) \<and>
     (\<forall>t. (t \<in> set (active_events c)) = (handlers_for c t \<noteq> [])) \<and>
     (\<forall>t. distinct (handlers_for c t))"

text \<open>Handlers registered for a type are the registered handlers that name it.\<close>

definition ec_exact :: "EventControl \<Rightarrow> bool" where
  "ec_exact c \<longleftrightarrow> (\<forall>t h. h \<in> set (handlers_for c t) \<longleftrightarrow> h \<in> set (handlers c) \<and> t \<in> set (event_types h))"

lemma handlers_for_set [simp]:
  "handlers_for (set_handlers t hs c) u = (if u = t then hs else handlers_for c u)"
  by (simp add: handlers_for_def set_handlers_def)

lemma set_handlers_frame [simp]:
  "active_events (set_handlers t hs c) = active_events c" "handlers (set_handlers t hs c) = handlers c"
  by (simp_all add: set_handlers_def)

lemma handlers_for_frame [simp]:
  "handlers_for (c\<lparr>active_events := a\<rparr>) = handlers_for c" "handlers_for (c\<lparr>handlers := b\<rparr>) = handlers_for c"
  by (simp_all add: handlers_for_def fun_eq_iff)

text \<open>What a run of \<open>subscribe\<close> and of \<open>unsubscribe\<close> over a list of types does to the registry.\<close>

lemma subscribe_all:
  assumes "ec_inv c"
  shows "\<exists>c'. forE ts (subscribe h) c = (Inr (), c') \<and> ec_inv c' \<and> handlers c' = handlers c \<and>
     (\<forall>t h'. h' \<in> set (handlers_for c' t) \<longleftrightarrow> h' \<in> set (handlers_for c t) \<or> h' = h \<and> t \<in> set ts)"
  using assms
proof (induction ts arbitrary: c)
  case Nil
  then show ?case by (simp add: run)
next
  case (Cons t ts)
  define c1 where "c1 = snd (subscribe h t c)"
  have c1: "subscribe h t c = (Inr (), c1)" "handlers c1 = handlers c"
    "\<And>u. handlers_for c1 u = (if u = t \<and> h \<notin> set (handlers_for c t) then handlers_for c t @ [h] else handlers_for c u)"
    "active_events c1 = (if t \<in> set (active_events c) then active_events c else active_events c @ [t])"
    by (simp_all add: c1_def subscribe_def run)
  have "ec_inv c1"
    using Cons.prems by (auto simp: ec_inv_def c1(2,3,4))
  from Cons.IH [OF this] obtain c2 where "forE ts (subscribe h) c1 = (Inr (), c2)" "ec_inv c2"
    "handlers c2 = handlers c1"
    "\<forall>u h'. h' \<in> set (handlers_for c2 u) \<longleftrightarrow> h' \<in> set (handlers_for c1 u) \<or> h' = h \<and> u \<in> set ts"
    by blast
  then show ?case
    using c1 by (auto simp: run)
qed

lemma unsubscribe_all:
  assumes "ec_inv c" and "distinct ts" and "\<forall>t \<in> set ts. h \<in> set (handlers_for c t)"
  shows "\<exists>c'. forE ts (unsubscribe h) c = (Inr (), c') \<and> ec_inv c' \<and> handlers c' = handlers c \<and>
     (\<forall>t h'. h' \<in> set (handlers_for c' t) \<longleftrightarrow> h' \<in> set (handlers_for c t) \<and> \<not> (h' = h \<and> t \<in> set ts))"
  using assms
proof (induction ts arbitrary: c)
  case Nil
  then show ?case by (simp add: run)
next
  case (Cons t ts)
  define c1 where "c1 = snd (unsubscribe h t c)"
  have d: "distinct (handlers_for c t)" "distinct (active_events c)"
    and a: "\<And>u. (u \<in> set (active_events c)) = (handlers_for c u \<noteq> [])" "\<And>u. distinct (handlers_for c u)"
    and h: "h \<in> set (handlers_for c t)"
    using Cons.prems by (simp_all add: ec_inv_def)
  have c1: "unsubscribe h t c = (Inr (), c1)" "handlers c1 = handlers c"
    "\<And>u. handlers_for c1 u = (if u = t then remove1 h (handlers_for c t) else handlers_for c u)"
    "active_events c1 = (if remove1 h (handlers_for c t) = [] then remove1 t (active_events c) else active_events c)"
    using h a(1) [of t] by (auto simp: c1_def unsubscribe_def run)
  have "ec_inv c1"
    using d a Cons.prems(1) by (auto simp: ec_inv_def c1(2,3,4) distinct_remove1)
  moreover have "\<forall>u \<in> set ts. h \<in> set (handlers_for c1 u)"
    using Cons.prems(2,3) by (auto simp: c1(3))
  ultimately obtain c2 where "forE ts (unsubscribe h) c1 = (Inr (), c2)" "ec_inv c2" "handlers c2 = handlers c1"
    "\<forall>u h'. h' \<in> set (handlers_for c2 u) \<longleftrightarrow> h' \<in> set (handlers_for c1 u) \<and> \<not> (h' = h \<and> u \<in> set ts)"
    using Cons.IH [of c1] Cons.prems(2) by auto
  then show ?case
    using c1 d by (auto simp: run)
qed

lemma add_handler_exact:
  assumes "ec_inv c" and "ec_exact c"
  shows "\<exists>c'. add_handler h c = (Inr (), c') \<and> ec_inv c' \<and> ec_exact c' \<and>
              set (handlers c') = insert h (set (handlers c))"
proof (cases "h \<in> set (handlers c)")
  case True
  with assms show ?thesis by (simp add: add_handler_def run insert_absorb)
next
  case False
  have "ec_inv (c\<lparr>handlers := handlers c @ [h]\<rparr>)"
    using assms(1) False by (simp add: ec_inv_def)
  from subscribe_all [OF this, of "event_types h" h] False assms(2) show ?thesis
    by (auto simp: add_handler_def run ec_exact_def split: if_splits)
qed

lemma remove_handler_exact:
  assumes "ec_inv c" and "ec_exact c" and "h \<in> set (handlers c)" and "distinct (event_types h)"
  shows "\<exists>c'. remove_handler h c = (Inr (), c') \<and> ec_inv c' \<and> ec_exact c' \<and>
              set (handlers c') = set (handlers c) - {h}"
proof -
  have "ec_inv (c\<lparr>handlers := remove1 h (handlers c)\<rparr>)"
    using assms(1) by (simp add: ec_inv_def distinct_remove1)
  moreover have "\<forall>t \<in> set (event_types h). h \<in> set (handlers_for (c\<lparr>handlers := remove1 h (handlers c)\<rparr>) t)"
    using assms(2,3) by (simp add: ec_exact_def)
  ultimately obtain c' where c': "forE (event_types h) (unsubscribe h) (c\<lparr>handlers := remove1 h (handlers c)\<rparr>) = (Inr (), c')"
    "ec_inv c'" "handlers c' = remove1 h (handlers c)"
    "\<forall>t h'. h' \<in> set (handlers_for c' t) \<longleftrightarrow> h' \<in> set (handlers_for c t) \<and> \<not> (h' = h \<and> t \<in> set (event_types h))"
    using unsubscribe_all [OF _ assms(4)] by fastforce
  moreover have "distinct (handlers c)" using assms(1) by (simp add: ec_inv_def)
  ultimately show ?thesis
    using assms(2,3) by (auto simp: remove_handler_def run ec_exact_def split: if_splits)
qed

end
