(* ===== verification/Node.thy ===== *)
theory Node
  imports Messages Log_Api Event_Control
begin

text \<open>
  The state of one engine: the objects of \<open>Deck\<close>, \<open>ClusterOps\<close> and the three role classes as records,
  inside the node together with its log, the application behind the pilot, the clock, the timers
  and tasks of the event loop, and the messages handed to the pilot for sending. The log, the
  random numbers, the configuration given at construction and the pilot's methods are the
  environment \<open>E\<close>. One handler runs to its end as one step and the clock stands still in it; what
  the code leaves to the event loop (timers, created tasks, polling loops) is queued and run by later
  steps. The pilot's two sending methods are taken not to raise.
\<close>

section \<open>Trackers\<close>

record SnapShotCursor =
  cursor_snapshot :: SnapShot
  cursor_offset :: int
  cursor_done :: bool

record FollowerTracker =
  nextIndex :: int
  matchIndex :: int
  msg_count :: int
  last_msg_time :: time
  add_loading :: bool
  sending_snapshot :: "SnapShotCursor option"
  has_snapshot_tool :: bool

record NewNodeLoad =
  load_uri :: uri
  start_time :: time
  first_round_max_index :: int
  prev_round_max_index :: int
  round_count :: int
  change_message :: "message option"

record MessageTracker =
  mt_uri :: uri
  mt_message :: message
  mt_broadcast_id :: "int option"
  log_rec_ids :: "int list"
  mt_reply :: "message option"

text \<open>The trackers of a broadcast are the message trackers themselves; only their number is read.\<close>

record BroadcastTracker =
  bt_followers :: "(uri \<times> MessageTracker) list"
  sent_time :: time
  bt_reply_count :: int

record LogVoteTracker =
  lvt_log_rec :: LogRec
  voters :: "uri list"
  lvt_votes :: "(uri \<times> bool) list"

text \<open>
  A client command: the result fields and whether its future is done. The caller that waits for it
  keeps the record after it has left \<open>active_commands\<close>, so \<open>active_commands\<close> holds the indexes and
  \<open>command_recs\<close> the records.
\<close>

record command_rec =
  cmd_serial :: int
  cmd_log_rec :: LogRec
  cmd_result :: "pystr option"
  cmd_error :: "pystr option"
  cmd_done :: bool

section \<open>Timers and tasks of the event loop\<close>

datatype role_target = ContactChecker | ElectionTimedOut | StartCampaign | ScheduledSendHeartbeats

datatype callback =
    RoleAfterRunner role_target
  | LoadingRoundTimeout uri
  | DelayedExit LogRec

text \<open>The two waiters carry the time their loop began, \<open>None\<close> before their first turn.\<close>

datatype task =
    InnerOnMessage message
  | RecordSentMessage message
  | TransferRunner uri "LogRec option"
  | TransferWait uri "LogRec option" time time
  | JoinWaiter "time option" time
  | ExitWaiter "time option" time
  | OnEvent EventHandler event

datatype sending =
    SendMessage "uri option" pystr int
  | SendResponse "uri option" pystr pystr int

section \<open>Objects\<close>

record ClusterOps =
  follower_trackers :: "(uri \<times> FollowerTracker) list"
  current_config :: "ClusterConfig option"
  leader_uri :: "uri option"
  loading_data :: "NewNodeLoad option"
  loading_round_timer_handle :: "nat option"
  remove_message :: "message option"

record Follower =
  f_stopped :: bool
  last_leader_contact :: time
  f_snapshot :: "SnapShot option"
  f_commands_idempotent :: bool

record Candidate =
  c_stopped :: bool
  c_term :: int
  votes :: "(uri \<times> bool option) list"
  pre_votes :: "(uri \<times> bool option) list"
  c_reply_count :: int
  c_use_pre_vote :: bool
  c_authorized :: bool

record Leader =
  l_stopped :: bool
  last_broadcast_time :: time
  active_commands :: "int list"
  command_recs :: "(int \<times> command_rec) list"
  l_use_check_quorum :: bool
  accepting_commands :: bool
  exit_in_progress :: bool
  transfer_in_progress :: bool
  active_messages :: "(uri \<times> (int \<times> MessageTracker) list) list"
  broadcast_id :: int
  broadcast_trackers :: "(int \<times> BroadcastTracker) list"
  log_vote_trackers :: "(int \<times> LogVoteTracker) list"
  l_commands_idempotent :: bool
  command_counter :: int

text \<open>
  \<open>joining_cluster\<close> is \<open>None\<close> after a stop while joining, which is false like \<open>False\<close>. The problem
  history keeps what was passed for the message: the object, or the bytes it could not decode.
\<close>

datatype problem = ProblemMessage message exn | ProblemBytes pystr exn

record Deck =
  started :: bool
  role_async_handle :: "nat option"
  message_problem_history :: "problem list"
  joining_cluster :: bool
  join_result :: "bool option"
  join_waiter_handle :: bool
  exiting_cluster :: bool
  exit_result :: "bool option"
  exit_waiter_handle :: bool
  await_message :: bool
  deck_active_messages :: "((uri \<times> int) \<times> message) list"

text \<open>
  \<open>deck.role\<close> is the name of the current role and, for each class, its latest instance: a handler of a
  demoted leader still works on its own leader object.
\<close>

record ('l, 'a) node =
  n_log :: 'l
  n_app :: 'a
  now :: time
  draws :: nat
  serials :: SerialNumberGenerator
  outbox :: "sending list"
  timers :: "(nat \<times> time \<times> callback) list"
  next_timer :: nat
  tasks :: "task list"
  event_control :: EventControl
  ops :: ClusterOps
  deck :: Deck
  role :: RoleName
  follower :: Follower
  candidate :: Candidate
  leader :: Leader

type_synonym ('l, 'a, 'b) act = "(('l, 'a) node, 'b) eff"

text \<open>
  What the engine is given: its log, \<open>random.uniform\<close> (the n-th draw), the two configurations of the
  constructor, the pilot and snapshot tool methods the engine awaits, \<open>on_event\<close> of the event handlers and
  the callbacks of \<open>start_and_join\<close> and \<open>exit_cluster\<close>.
\<close>

record ('l, 'a) env =
  log :: "'l LogAPI"
  uniform :: "nat \<Rightarrow> time \<Rightarrow> time \<Rightarrow> time"
  local_config :: LocalConfig
  initial_config :: "ClusterInitConfig option"
  process_command :: "pystr option \<Rightarrow> int option \<Rightarrow> ('a, pystr option \<times> pystr option) eff"
  create_snapshot :: "int \<Rightarrow> int \<Rightarrow> ('a, SnapShot) eff"
  begin_snapshot_import :: "SnapShot \<Rightarrow> ('a, unit) eff"
  load_snapshot_chunk :: "pystr \<Rightarrow> ('a, unit) eff"
  apply_snapshot :: "('a, SnapShot) eff"
  begin_snapshot_export :: "SnapShot \<Rightarrow> ('a, unit) eff"
  get_snapshot_chunk :: "SnapShot \<Rightarrow> int \<Rightarrow> ('a, pystr \<times> int \<times> bool) eff"
  stop_commanded :: "('a, unit) eff"
  on_event :: "EventHandler \<Rightarrow> event \<Rightarrow> ('a, unit) eff"
  join_callback :: "bool \<Rightarrow> uri \<Rightarrow> ('a, unit) eff"
  exit_callback :: "bool \<Rightarrow> uri \<Rightarrow> ('a, unit) eff"

section \<open>Access to the parts\<close>

definition log_get :: "('l LogAPI \<Rightarrow> 'l \<Rightarrow> 'b) \<Rightarrow> ('l, 'a) env \<Rightarrow> ('l, 'a, 'b) act" where
  "log_get q E = getsE (\<lambda>s. q (log E) (n_log s))"

definition log_do :: "('l, 'b) eff \<Rightarrow> ('l, 'a, 'b) act" where
  "log_do = zoomE n_log (\<lambda>l s. s\<lparr>n_log := l\<rparr>)"

definition app_do :: "('a, 'b) eff \<Rightarrow> ('l, 'a, 'b) act" where
  "app_do = zoomE n_app (\<lambda>a s. s\<lparr>n_app := a\<rparr>)"

definition ops_mod :: "(ClusterOps \<Rightarrow> ClusterOps) \<Rightarrow> ('l, 'a, unit) act" where
  "ops_mod f = modE (\<lambda>s. s\<lparr>ops := f (ops s)\<rparr>)"

definition deck_mod :: "(Deck \<Rightarrow> Deck) \<Rightarrow> ('l, 'a, unit) act" where
  "deck_mod f = modE (\<lambda>s. s\<lparr>deck := f (deck s)\<rparr>)"

definition follower_mod :: "(Follower \<Rightarrow> Follower) \<Rightarrow> ('l, 'a, unit) act" where
  "follower_mod f = modE (\<lambda>s. s\<lparr>follower := f (follower s)\<rparr>)"

definition candidate_mod :: "(Candidate \<Rightarrow> Candidate) \<Rightarrow> ('l, 'a, unit) act" where
  "candidate_mod f = modE (\<lambda>s. s\<lparr>candidate := f (candidate s)\<rparr>)"

definition leader_mod :: "(Leader \<Rightarrow> Leader) \<Rightarrow> ('l, 'a, unit) act" where
  "leader_mod f = modE (\<lambda>s. s\<lparr>leader := f (leader s)\<rparr>)"

abbreviation my_uri :: "('l, 'a) env \<Rightarrow> uri" where
  "my_uri E \<equiv> local_uri (local_config E)"

text \<open>\<open>if s\<close> for a string or \<open>None\<close>.\<close>

fun text_true :: "pystr option \<Rightarrow> bool" where
  "text_true (Some (Str [])) = False"
| "text_true (Some _) = True"
| "text_true None = False"

section \<open>Sending\<close>

definition new_serial :: "('l, 'a, int) act" where
  "new_serial = (\<lambda>s. zoomE serials (\<lambda>g s. s\<lparr>serials := g\<rparr>) (generate (now s)) s)"

definition send_message :: "message \<Rightarrow> ('l, 'a, unit) act" where
  "send_message m = modE (\<lambda>s. s\<lparr>outbox := outbox s @
     [SendMessage (receiver (msg_hdr_of m)) (fst (encode_message m)) (snd (encode_message m))]\<rparr>)"

definition response :: "message \<Rightarrow> message \<Rightarrow> sending" where
  "response m r = SendResponse (receiver (msg_hdr_of r)) (fst (encode_message m)) (fst (encode_message r))
     (snd (encode_message m))"

definition send_response :: "message \<Rightarrow> message \<Rightarrow> ('l, 'a, unit) act" where
  "send_response m r = modE (\<lambda>s. s\<lparr>outbox := outbox s @ [response m r]\<rparr>)"

text \<open>A message built without a serial number takes the next one.\<close>

definition mk_log_hdr :: "uri \<Rightarrow> uri option \<Rightarrow> int \<Rightarrow> int \<Rightarrow> int \<Rightarrow> ('l, 'a, log_hdr) act" where
  "mk_log_hdr snd_uri rcv t pix ptm = bindE new_serial (\<lambda>sn.
     ret \<lparr>sender = snd_uri, receiver = rcv, serial_number = sn, msg_term = t, prevLogIndex = pix,
          prevLogTerm = ptm\<rparr>)"

definition mk_hdr :: "uri \<Rightarrow> uri option \<Rightarrow> ('l, 'a, msg_hdr) act" where
  "mk_hdr snd_uri rcv = bindE new_serial (\<lambda>sn.
     ret \<lparr>sender = snd_uri, receiver = rcv, serial_number = sn\<rparr>)"

text \<open>Generating a serial number never fails; sending only extends the outbox.\<close>

definition next_serial :: "('l, 'a) node \<Rightarrow> int" where
  "next_serial s = (case fst (generate (now s) (serials s)) of Inr n \<Rightarrow> n | Inl _ \<Rightarrow> 0)"

definition use_serial :: "('l, 'a) node \<Rightarrow> ('l, 'a) node" where
  "use_serial s = s\<lparr>serials := snd (generate (now s) (serials s))\<rparr>"

lemma new_serial_run [run]: "new_serial s = (Inr (next_serial s), use_serial s)"
  by (simp add: new_serial_def next_serial_def use_serial_def run generate_eq)

lemma use_serial_frame [simp]:
  "n_log (use_serial s) = n_log s" "n_app (use_serial s) = n_app s" "now (use_serial s) = now s"
  "outbox (use_serial s) = outbox s" "timers (use_serial s) = timers s" "next_timer (use_serial s) = next_timer s"
  "tasks (use_serial s) = tasks s" "event_control (use_serial s) = event_control s" "ops (use_serial s) = ops s"
  "deck (use_serial s) = deck s" "role (use_serial s) = role s" "follower (use_serial s) = follower s"
  "candidate (use_serial s) = candidate s" "leader (use_serial s) = leader s" "draws (use_serial s) = draws s"
  by (simp_all add: use_serial_def)

lemma next_serial_frame [simp]:
  "next_serial (s\<lparr>n_log := l\<rparr>) = next_serial s" "next_serial (s\<lparr>follower := f\<rparr>) = next_serial s"
  "next_serial (s\<lparr>ops := p\<rparr>) = next_serial s" "next_serial (s\<lparr>tasks := ts\<rparr>) = next_serial s"
  by (simp_all add: next_serial_def)

lemma log_get_run [run]: "log_get q E s = (Inr (q (log E) (n_log s)), s)"
  by (simp add: log_get_def run)

section \<open>Events\<close>

definition create_task :: "task \<Rightarrow> ('l, 'a, unit) act" where
  "create_task t = modE (\<lambda>s. s\<lparr>tasks := tasks s @ [t]\<rparr>)"

text \<open>The \<open>emit_*\<close> methods: one task per handler of the event's type.\<close>

definition emit :: "event \<Rightarrow> ('l, 'a, unit) act" where
  "emit e = bindE (getsE event_control) (\<lambda>c.
     forE (handlers_for c (event_type e)) (\<lambda>h. create_task (OnEvent h e)))"

text \<open>\<open>if EventType.x in self.event_control.active_events: emit\<close>.\<close>

definition emit_if_active :: "event \<Rightarrow> ('l, 'a, unit) act" where
  "emit_if_active e = bindE (getsE (\<lambda>s. active_events (event_control s))) (\<lambda>act.
     whenE (event_type e \<in> set act) (emit e))"

definition record_op_detail :: "OpDetail \<Rightarrow> ('l, 'a, unit) act" where
  "record_op_detail d =
     (if d \<in> {sending_catchup, sending_backdown} then emit_if_active (ResyncEvent d)
      else emit_if_active (ElectionEvent d))"

text \<open>Emitting only adds tasks.\<close>

definition event_tasks :: "('l, 'a) node \<Rightarrow> event \<Rightarrow> task list" where
  "event_tasks s e = map (\<lambda>h. OnEvent h e) (handlers_for (event_control s) (event_type e))"

lemma create_tasks_run:
  "forE hs (\<lambda>h. create_task (f h)) s = (Inr (), s\<lparr>tasks := tasks s @ map f hs\<rparr>)"
  by (induction hs arbitrary: s) (simp_all add: create_task_def run)

lemma emit_run [run]: "emit e s = (Inr (), s\<lparr>tasks := tasks s @ event_tasks s e\<rparr>)"
  by (simp add: emit_def run create_tasks_run event_tasks_def)

lemma emit_if_active_run [run]:
  "emit_if_active e s = (Inr (), s\<lparr>tasks := tasks s @
     (if event_type e \<in> set (active_events (event_control s)) then event_tasks s e else [])\<rparr>)"
  by (simp add: emit_if_active_def run)

definition op_event :: "OpDetail \<Rightarrow> event" where
  "op_event d = (if d \<in> {sending_catchup, sending_backdown} then ResyncEvent d else ElectionEvent d)"

lemma record_op_detail_run [run]: "record_op_detail d s = emit_if_active (op_event d) s"
  by (simp add: record_op_detail_def op_event_def)

section \<open>Timers\<close>

definition call_later :: "time \<Rightarrow> callback \<Rightarrow> ('l, 'a, nat) act" where
  "call_later delay cb = bindE (getsE next_timer) (\<lambda>i.
     seqE (modE (\<lambda>s. s\<lparr>timers := timers s @ [(i, now s + delay, cb)], next_timer := Suc i\<rparr>)) (ret i))"

definition cancel_timer :: "nat \<Rightarrow> ('l, 'a, unit) act" where
  "cancel_timer i = modE (\<lambda>s. s\<lparr>timers := filter (\<lambda>p. fst p \<noteq> i) (timers s)\<rparr>)"

definition role_run_after :: "time \<Rightarrow> role_target \<Rightarrow> ('l, 'a, unit) act" where
  "role_run_after delay target = bindE (getsE (\<lambda>s. role_async_handle (deck s))) (\<lambda>h.
     seqE (case h of None \<Rightarrow> ret () | Some i \<Rightarrow> cancel_timer i)
     (bindE (call_later delay (RoleAfterRunner target)) (\<lambda>i.
        deck_mod (\<lambda>d. d\<lparr>role_async_handle := Some i\<rparr>))))"

definition cancel_role_run_after :: "('l, 'a, unit) act" where
  "cancel_role_run_after = bindE (getsE (\<lambda>s. role_async_handle (deck s))) (\<lambda>h.
     case h of None \<Rightarrow> ret ()
     | Some i \<Rightarrow> seqE (cancel_timer i) (deck_mod (\<lambda>d. d\<lparr>role_async_handle := None\<rparr>)))"

text \<open>Setting and cancelling a role timer never fails and touches the timers and the handle only.\<close>

definition timer_frame :: "('l, 'a) node \<Rightarrow> ('l, 'a) node \<Rightarrow> bool" where
  "timer_frame s t \<longleftrightarrow>
     (\<exists>ts n h. t = s\<lparr>timers := ts, next_timer := n, deck := (deck s)\<lparr>role_async_handle := h\<rparr>\<rparr>)"

lemma timer_frameD:
  assumes "timer_frame s t"
  shows "n_log t = n_log s" "n_app t = n_app s" "now t = now s" "draws t = draws s" "serials t = serials s"
    "outbox t = outbox s" "tasks t = tasks s" "event_control t = event_control s" "ops t = ops s" "role t = role s"
    "follower t = follower s" "candidate t = candidate s" "leader t = leader s"
    "exiting_cluster (deck t) = exiting_cluster (deck s)" "deck_active_messages (deck t) = deck_active_messages (deck s)"
    "next_serial t = next_serial s" "joining_cluster (deck t) = joining_cluster (deck s)"
  using assms by (auto simp: timer_frame_def next_serial_def)

lemma timer_frame_refl: "timer_frame s s"
  unfolding timer_frame_def
  by (rule exI [of _ "timers s"], rule exI [of _ "next_timer s"], rule exI [of _ "role_async_handle (deck s)"]) simp

lemma timer_frameI: "timer_frame s (s\<lparr>timers := ts, next_timer := n, deck := (deck s)\<lparr>role_async_handle := h\<rparr>\<rparr>)"
  unfolding timer_frame_def by blast

lemma role_run_after_frame: "\<exists>t. role_run_after d x s = (Inr (), t) \<and> timer_frame s t"
proof (cases "role_async_handle (deck s)")
  case None
  then show ?thesis by (simp add: role_run_after_def call_later_def deck_mod_def run timer_frameI)
next
  case (Some i)
  then show ?thesis
    by (simp add: role_run_after_def call_later_def cancel_timer_def deck_mod_def run timer_frameI)
qed

lemma cancel_after_frame: "\<exists>t. cancel_role_run_after s = (Inr (), t) \<and> timer_frame s t"
proof (cases "role_async_handle (deck s)")
  case None
  then show ?thesis by (simp add: cancel_role_run_after_def run timer_frame_refl)
next
  case (Some i)
  have "timer_frame s (s\<lparr>timers := ts, deck := (deck s)\<lparr>role_async_handle := h\<rparr>\<rparr>)" for ts h
    using timer_frameI [where s = s and ts = ts and n = "next_timer s" and h = h] by simp
  with Some show ?thesis
    by (simp add: cancel_role_run_after_def cancel_timer_def deck_mod_def run)
qed

section \<open>Services of the deck\<close>

definition set_leader_uri :: "uri option \<Rightarrow> ('l, 'a, unit) act" where
  "set_leader_uri u = seqE (ops_mod (\<lambda>c. c\<lparr>leader_uri := u\<rparr>)) (emit_if_active (LeaderChangeEvent u))"

definition deck_set_term :: "('l, 'a) env \<Rightarrow> int \<Rightarrow> ('l, 'a, unit) act" where
  "deck_set_term E t = seqE (emit_if_active (TermChangeEvent t)) (log_do (set_term (log E) t))"

definition note_join_done :: "bool \<Rightarrow> ('l, 'a, unit) act" where
  "note_join_done ok = deck_mod (\<lambda>d. d\<lparr>join_result := Some ok\<rparr>)"

definition note_exit_done :: "bool \<Rightarrow> ('l, 'a, unit) act" where
  "note_exit_done ok = deck_mod (\<lambda>d. d\<lparr>exit_result := Some ok\<rparr>)"

definition record_message_problem :: "('l, 'a) env \<Rightarrow> problem \<Rightarrow> ('l, 'a, unit) act" where
  "record_message_problem E p = whenE (record_message_problems (local_config E))
     (deck_mod (\<lambda>d. d\<lparr>message_problem_history := message_problem_history d @ [p]\<rparr>))"

section \<open>Starting and stopping a role\<close>

definition role_stopped :: "('l, 'a) node \<Rightarrow> bool" where
  "role_stopped s = (case role s of RoleFollower \<Rightarrow> f_stopped (follower s)
     | RoleCandidate \<Rightarrow> c_stopped (candidate s) | RoleLeader \<Rightarrow> l_stopped (leader s))"

definition set_role_stopped :: "bool \<Rightarrow> ('l, 'a, unit) act" where
  "set_role_stopped b = modE (\<lambda>s. case role s of
       RoleFollower \<Rightarrow> s\<lparr>follower := (follower s)\<lparr>f_stopped := b\<rparr>\<rparr>
     | RoleCandidate \<Rightarrow> s\<lparr>candidate := (candidate s)\<lparr>c_stopped := b\<rparr>\<rparr>
     | RoleLeader \<Rightarrow> s\<lparr>leader := (leader s)\<lparr>l_stopped := b\<rparr>\<rparr>)"

text \<open>\<open>BaseRole.start\<close> and \<open>BaseRole.stop\<close>, whose bare \<open>except\<close> covers a stopped log.\<close>

definition base_start :: "('l, 'a, unit) act" where
  "base_start = set_role_stopped False"

definition role_stop :: "('l, 'a) env \<Rightarrow> ('l, 'a, unit) act" where
  "role_stop E = seqE (tryE (log_do (set_voted_for (log E) None)) (\<lambda>_. ret ())) (set_role_stopped True)"

definition stop_role :: "('l, 'a) env \<Rightarrow> ('l, 'a, unit) act" where
  "stop_role E = seqE (role_stop E)
     (seqE (log_do (set_voted_for (log E) None)) cancel_role_run_after)"

end
