(* ===== verification/Campaign.thy ===== *)
theory Campaign
  imports Cluster_Ops
begin

text \<open>
  What the roles share (\<open>src/raftengine/roles/base_role.py\<close>): the responses every role can send, the
  pre-vote decision, transfer of power and membership responses, and the start of a campaign
  (\<open>Candidate.start\<close> and the two campaign kinds of \<open>candidate.py\<close>, \<open>Deck.start_campaign\<close>), which followers
  and candidates both trigger.
\<close>

section \<open>Responses\<close>

definition send_reject_append_response :: "('l, 'a) env \<Rightarrow> message \<Rightarrow> log_hdr \<Rightarrow> ('l, 'a, unit) act" where
  "send_reject_append_response E m h =
     bindE (getsE (\<lambda>s. leader_uri (ops s))) (\<lambda>ldr.
     bindE (log_get get_term E) (\<lambda>t. bindE (log_get get_last_index E) (\<lambda>li.
     bindE (mk_log_hdr (or_else [] (receiver h)) (Some (sender h)) t (prevLogIndex h) (prevLogTerm h)) (\<lambda>rh.
       send_response m (AppendResponseMessage rh li False ldr (serial_number h))))))"

definition send_vote_reply :: "('l, 'a) env \<Rightarrow> message \<Rightarrow> log_hdr \<Rightarrow> uri \<Rightarrow> (log_hdr \<Rightarrow> message) \<Rightarrow> ('l, 'a, unit) act" where
  "send_vote_reply E m h me mk =
     bindE (log_get get_last_index E) (\<lambda>li. bindE (log_get get_last_term E) (\<lambda>lt.
     bindE (mk_log_hdr me (Some (sender h)) (msg_term h) li lt) (\<lambda>rh. send_response m (mk rh))))"

definition send_reject_vote_response :: "('l, 'a) env \<Rightarrow> message \<Rightarrow> log_hdr \<Rightarrow> ('l, 'a, unit) act" where
  "send_reject_vote_response E m h =
     send_vote_reply E m h (or_else [] (receiver h)) (\<lambda>rh. RequestVoteResponseMessage rh False)"

definition send_pre_vote_response_message :: "('l, 'a) env \<Rightarrow> message \<Rightarrow> log_hdr \<Rightarrow> bool \<Rightarrow> ('l, 'a, unit) act" where
  "send_pre_vote_response_message E m h vote_yes =
     send_vote_reply E m h (my_uri E) (\<lambda>rh. PreVoteResponseMessage rh vote_yes)"

definition send_transfer_power_response_message ::
  "('l, 'a) env \<Rightarrow> message \<Rightarrow> msg_hdr \<Rightarrow> int \<Rightarrow> bool \<Rightarrow> ('l, 'a, unit) act" where
  "send_transfer_power_response_message E m h t ok =
     bindE (log_get get_last_index E) (\<lambda>li. bindE (log_get get_last_term E) (\<lambda>lt.
     bindE (mk_log_hdr (my_uri E) (Some (sender h)) t li lt) (\<lambda>rh.
       send_response m (TransferPowerResponseMessage rh ok))))"

definition send_self_exit :: "('l, 'a) env \<Rightarrow> ('l, 'a, unit) act" where
  "send_self_exit E = bindE (getsE (\<lambda>s. leader_uri (ops s))) (\<lambda>ldr.
     bindE (mk_hdr (my_uri E) ldr) (\<lambda>h. send_message (MembershipChangeMessage h op_remove (my_uri E))))"

definition send_membership_change_response_message ::
  "('l, 'a) env \<Rightarrow> message \<Rightarrow> msg_hdr \<Rightarrow> ChangeOp \<Rightarrow> uri \<Rightarrow> bool \<Rightarrow> ('l, 'a, unit) act" where
  "send_membership_change_response_message E m h op tgt ok =
     bindE (mk_hdr (my_uri E) (Some (sender h))) (\<lambda>rh.
       send_response m (MembershipChangeResponseMessage rh op tgt ok))"

definition send_snapshot_response_message ::
  "('l, 'a) env \<Rightarrow> message \<Rightarrow> log_hdr \<Rightarrow> int \<Rightarrow> bool \<Rightarrow> ('l, 'a, unit) act" where
  "send_snapshot_response_message E m h off ok =
     bindE (log_get get_term E) (\<lambda>t.
     bindE (mk_log_hdr (my_uri E) (Some (sender h)) t (prevLogIndex h) (prevLogTerm h)) (\<lambda>rh.
       send_response m (SnapShotResponseMessage rh off ok)))"

section \<open>Starting a campaign\<close>

definition request_votes :: "('l, 'a) env \<Rightarrow> uri list \<Rightarrow> ('l, 'a, unit) act" where
  "request_votes E us = forE us (\<lambda>u.
     if u = my_uri E then candidate_mod (\<lambda>c. c\<lparr>votes := dict_set u (Some True) (votes c)\<rparr>)
     else seqE (candidate_mod (\<lambda>c. c\<lparr>votes := dict_set u None (votes c)\<rparr>))
       (bindE (getsE (\<lambda>s. c_term (candidate s))) (\<lambda>t.
        bindE (log_get get_last_term E) (\<lambda>lt. bindE (log_get get_last_index E) (\<lambda>li.
        bindE (mk_log_hdr (my_uri E) (Some u) t li lt) (\<lambda>h. send_message (RequestVoteMessage h)))))))"

definition start_campaign_base :: "('l, 'a) env \<Rightarrow> ('l, 'a, unit) act" where
  "start_campaign_base E =
     seqE (record_op_detail start_election)
     (seqE (candidate_mod (\<lambda>c. c\<lparr>c_term := c_term c + 1\<rparr>))
     (bindE (getsE (\<lambda>s. c_term (candidate s))) (\<lambda>t.
     seqE (deck_set_term E t)
     (seqE (candidate_mod (\<lambda>c. c\<lparr>c_reply_count := 0\<rparr>))
     (bindE get_cluster_node_ids (\<lambda>us.
     seqE (request_votes E us)
     (bindE (get_election_timeout E) (\<lambda>d. role_run_after d ElectionTimedOut))))))))"

definition request_pre_votes :: "('l, 'a) env \<Rightarrow> uri list \<Rightarrow> ('l, 'a, unit) act" where
  "request_pre_votes E us = forE us (\<lambda>u.
     if u = my_uri E then candidate_mod (\<lambda>c. c\<lparr>pre_votes := dict_set u (Some True) (pre_votes c)\<rparr>)
     else seqE (candidate_mod (\<lambda>c. c\<lparr>pre_votes := dict_set u None (pre_votes c)\<rparr>))
       (bindE (getsE candidate) (\<lambda>c.
        bindE (log_get get_term E) (\<lambda>lt. bindE (log_get get_last_index E) (\<lambda>li.
        bindE (mk_log_hdr (my_uri E) (Some u) (c_term c + 1) li lt) (\<lambda>h.
          send_message (PreVoteMessage h (c_authorized c))))))))"

definition start_campaign_pre :: "('l, 'a) env \<Rightarrow> ('l, 'a, unit) act" where
  "start_campaign_pre E =
     seqE (record_op_detail start_pre_election)
     (seqE (candidate_mod (\<lambda>c. c\<lparr>c_reply_count := 0\<rparr>))
     (bindE get_cluster_node_ids (\<lambda>us.
     seqE (request_pre_votes E us)
     (bindE (get_election_timeout E) (\<lambda>d. role_run_after d ElectionTimedOut)))))"

definition start_campaign :: "('l, 'a) env \<Rightarrow> ('l, 'a, unit) act" where
  "start_campaign E = bindE (getsE (\<lambda>s. c_use_pre_vote (candidate s))) (\<lambda>pre.
     if pre then start_campaign_pre E else start_campaign_base E)"

definition candidate_start :: "('l, 'a) env \<Rightarrow> ('l, 'a, unit) act" where
  "candidate_start E = bindE (log_get get_term E) (\<lambda>t.
     seqE (candidate_mod (\<lambda>c. c\<lparr>c_term := t\<rparr>)) (seqE base_start (start_campaign E)))"

definition new_Candidate :: "bool \<Rightarrow> bool \<Rightarrow> Candidate" where
  "new_Candidate pre auth = \<lparr>c_stopped = False, c_term = 0, votes = [], pre_votes = [], c_reply_count = 0,
     c_use_pre_vote = pre, c_authorized = auth\<rparr>"

definition deck_start_campaign :: "('l, 'a) env \<Rightarrow> bool \<Rightarrow> ('l, 'a, unit) act" where
  "deck_start_campaign E auth =
     seqE (stop_role E)
     (bindE (get_cluster_config E) (\<lambda>c.
     seqE (modE (\<lambda>s. s\<lparr>role := RoleCandidate, candidate := new_Candidate (use_pre_vote (settings c)) auth\<rparr>))
     (seqE (candidate_start E)
     (emit_if_active (RoleChangeEvent RoleCandidate)))))"

definition election_timed_out :: "('l, 'a) env \<Rightarrow> ('l, 'a, unit) act" where
  "election_timed_out E = seqE (record_op_detail election_timeout_op) (start_campaign E)"

section \<open>Handlers of the base role\<close>

definition on_pre_vote_request :: "('l, 'a) env \<Rightarrow> message \<Rightarrow> log_hdr \<Rightarrow> bool \<Rightarrow> ('l, 'a, unit) act" where
  "on_pre_vote_request E m h auth = bindE (getsE role) (\<lambda>r.
     if r = RoleLeader \<and> \<not> auth then send_pre_vote_response_message E m h False
     else bindE (get_election_timeout_range E) (\<lambda>(e_min, e_max).
       bindE (getsE (\<lambda>s. r = RoleFollower \<and> leader_uri (ops s) \<noteq> None \<and>
                now s - last_leader_contact (follower s) < e_max \<and> \<not> auth)) (\<lambda>in_contact.
       if in_contact then send_pre_vote_response_message E m h False
       else bindE (log_get get_commit_index E) (\<lambda>ci.
         bindE (log_get get_term E) (\<lambda>t.
         bindE (if msg_term h \<le> t then ret False
                else if ci = 0 then ret True
                else bindE (log_do (log_read (log E) (Some ci))) (\<lambda>rec.
                  if prevLogIndex h < ci then ret False
                  else bindE (some_or AttributeError rec) (\<lambda>rc. ret (\<not> prevLogTerm h < rec_term rc))))
           (send_pre_vote_response_message E m h))))))"

definition on_transfer_power_message ::
  "('l, 'a) env \<Rightarrow> message \<Rightarrow> msg_hdr \<Rightarrow> int \<Rightarrow> int option \<Rightarrow> int option \<Rightarrow> ('l, 'a, unit) act" where
  "on_transfer_power_message E m h t pix ptm = bindE (getsE role) (\<lambda>r.
     whenE (r \<noteq> RoleLeader)
       (bindE (log_get get_term E) (\<lambda>my_t. bindE (log_get get_last_index E) (\<lambda>li.
        bindE (log_get get_last_term E) (\<lambda>lt.
        whenE (t = my_t \<and> pix = Some li \<and> ptm = Some lt)
          (seqE (send_transfer_power_response_message E m h t True) (deck_start_campaign E True)))))))"

definition on_membership_change_response ::
  "('l, 'a) env \<Rightarrow> ChangeOp \<Rightarrow> uri \<Rightarrow> bool \<Rightarrow> ('l, 'a, unit) act" where
  "on_membership_change_response E op tgt ok =
     (if op = op_add \<and> tgt = my_uri E then note_join_done ok
      else bindE (getsE (\<lambda>s. exiting_cluster (deck s))) (\<lambda>b. whenE b (note_exit_done ok)))"

definition base_on_vote_request :: "('l, 'a) env \<Rightarrow> message \<Rightarrow> log_hdr \<Rightarrow> ('l, 'a, unit) act" where
  "base_on_vote_request E m h = send_reject_vote_response E m h"

definition base_on_membership_change_message ::
  "('l, 'a) env \<Rightarrow> message \<Rightarrow> msg_hdr \<Rightarrow> ChangeOp \<Rightarrow> uri \<Rightarrow> ('l, 'a, unit) act" where
  "base_on_membership_change_message E m h op tgt = send_membership_change_response_message E m h op tgt False"

definition base_on_snapshot_message :: "('l, 'a) env \<Rightarrow> message \<Rightarrow> log_hdr \<Rightarrow> int \<Rightarrow> ('l, 'a, unit) act" where
  "base_on_snapshot_message E m h off = send_snapshot_response_message E m h off False"

section \<open>Routing\<close>

text \<open>The handlers a role class has for the twelve message classes.\<close>

record ('l, 'a) routes =
  r_append_entries :: "message \<Rightarrow> log_hdr \<Rightarrow> LogRec list \<Rightarrow> int \<Rightarrow> ('l, 'a, unit) act"
  r_append_response :: "message \<Rightarrow> log_hdr \<Rightarrow> int \<Rightarrow> bool \<Rightarrow> uri option \<Rightarrow> int \<Rightarrow> ('l, 'a, unit) act"
  r_vote_request :: "message \<Rightarrow> log_hdr \<Rightarrow> ('l, 'a, unit) act"
  r_vote_response :: "message \<Rightarrow> log_hdr \<Rightarrow> bool \<Rightarrow> ('l, 'a, unit) act"
  r_pre_vote_response :: "message \<Rightarrow> log_hdr \<Rightarrow> bool \<Rightarrow> ('l, 'a, unit) act"
  r_membership_change :: "message \<Rightarrow> msg_hdr \<Rightarrow> ChangeOp \<Rightarrow> uri \<Rightarrow> ('l, 'a, unit) act"
  r_snapshot :: "message \<Rightarrow> log_hdr \<Rightarrow> int \<Rightarrow> bool \<Rightarrow> pystr \<Rightarrow> pystr option \<Rightarrow> ('l, 'a, unit) act"
  r_snapshot_response :: "message \<Rightarrow> log_hdr \<Rightarrow> int \<Rightarrow> bool \<Rightarrow> ('l, 'a, unit) act"

definition route :: "('l, 'a) env \<Rightarrow> ('l, 'a) routes \<Rightarrow> message \<Rightarrow> ('l, 'a, unit) act" where
  "route E R m =
     (case m of
        AppendEntriesMessage h es ci \<Rightarrow> r_append_entries R m h es ci
      | AppendResponseMessage h mi ok l orig \<Rightarrow> r_append_response R m h mi ok l orig
      | RequestVoteMessage h \<Rightarrow> r_vote_request R m h
      | RequestVoteResponseMessage h v \<Rightarrow> r_vote_response R m h v
      | PreVoteMessage h a \<Rightarrow> on_pre_vote_request E m h a
      | PreVoteResponseMessage h v \<Rightarrow> r_pre_vote_response R m h v
      | TransferPowerMessage h t pix ptm \<Rightarrow> on_transfer_power_message E m h t pix ptm
      | TransferPowerResponseMessage h ok \<Rightarrow> ret ()
      | MembershipChangeMessage h op tgt \<Rightarrow> r_membership_change R m h op tgt
      | MembershipChangeResponseMessage h op tgt ok \<Rightarrow> on_membership_change_response E op tgt ok
      | SnapShotMessage h l off dn dat cc \<Rightarrow> r_snapshot R m h off dn dat cc
      | SnapShotResponseMessage h off ok \<Rightarrow> r_snapshot_response R m h off ok)"

text \<open>Messages whose higher term makes a role give way.\<close>

fun term_counts :: "message \<Rightarrow> bool" where
  "term_counts (PreVoteMessage _ _) = False"
| "term_counts (PreVoteResponseMessage _ _) = False"
| "term_counts (MembershipChangeMessage _ _ _) = False"
| "term_counts (MembershipChangeResponseMessage _ _ _ _) = False"
| "term_counts _ = True"

text \<open>
  \<open>BaseRole.on_message\<close>: \<open>stopped\<close> is the role object's own flag, and \<open>term_expired\<close> says whether the
  message still has to be routed.
\<close>

definition base_on_message ::
  "('l, 'a) env \<Rightarrow> (('l, 'a) node \<Rightarrow> bool) \<Rightarrow> (message \<Rightarrow> int \<Rightarrow> ('l, 'a, bool) act) \<Rightarrow> ('l, 'a) routes \<Rightarrow>
   message \<Rightarrow> ('l, 'a, unit) act" where
  "base_on_message E stopped term_expired R m = bindE (getsE stopped) (\<lambda>st.
     whenE (\<not> st) (bindE (log_get get_term E) (\<lambda>my_t.
       bindE (case term_of_msg m of
                Some t \<Rightarrow> if term_counts m \<and> t > my_t then term_expired m t else ret True
              | None \<Rightarrow> ret True) (\<lambda>go.
       whenE go (route E R m)))))"

end
