(* ===== verification/Follower_Role.thy ===== *)
theory Follower_Role
  imports Campaign
begin

text \<open>
  \<open>Follower\<close> of \<open>src/raftengine/roles/follower.py\<close>, with the parts of \<open>Deck\<close> it needs: \<open>stop\<close>,
  \<open>inner_on_message\<close> and \<open>demote_and_handle\<close>, which turns any role into a follower and hands it the
  message.
\<close>

section \<open>Stopping the deck\<close>

text \<open>The text of a traceback is only known not to be empty.\<close>

definition format_exc :: "exn \<Rightarrow> pystr" where
  "format_exc e = Str ''Traceback''"

definition deck_stop :: "('l, 'a) env \<Rightarrow> bool \<Rightarrow> ('l, 'a, unit) act" where
  "deck_stop E internal =
     seqE (stop_role E)
     (seqE (deck_mod (\<lambda>d. if join_waiter_handle d
              then d\<lparr>joining_cluster := False, join_waiter_handle := False\<rparr> else d))
     (seqE (deck_mod (\<lambda>d. if exit_waiter_handle d
              then d\<lparr>exiting_cluster := False, exit_waiter_handle := False\<rparr> else d))
     (whenE internal (app_do (stop_commanded E)))))"

section \<open>Append entries\<close>

definition send_no_sync_append_response :: "('l, 'a) env \<Rightarrow> message \<Rightarrow> log_hdr \<Rightarrow> ('l, 'a, unit) act" where
  "send_no_sync_append_response E m h =
     bindE (log_get get_term E) (\<lambda>t. bindE (log_get get_last_index E) (\<lambda>li.
     bindE (getsE (\<lambda>s. leader_uri (ops s))) (\<lambda>ldr.
     bindE (mk_log_hdr (or_else [] (receiver h)) (Some (sender h)) t (prevLogIndex h) (prevLogTerm h)) (\<lambda>rh.
       send_response m (AppendResponseMessage rh li False ldr (serial_number h))))))"

definition send_append_entries_response :: "('l, 'a) env \<Rightarrow> message \<Rightarrow> log_hdr \<Rightarrow> ('l, 'a, unit) act" where
  "send_append_entries_response E m h =
     bindE (log_get get_term E) (\<lambda>t. bindE (log_get get_last_index E) (\<lambda>li.
     bindE (getsE (\<lambda>s. leader_uri (ops s))) (\<lambda>ldr.
     bindE (mk_log_hdr (my_uri E) (Some (sender h)) t (prevLogIndex h) (prevLogTerm h)) (\<lambda>rh.
       send_response m (AppendResponseMessage rh li True ldr (serial_number h))))))"

definition read_rec :: "('l, 'a) env \<Rightarrow> int \<Rightarrow> ('l, 'a, LogRec) act" where
  "read_rec E i = bindE (log_do (log_read (log E) (Some i))) (some_or AttributeError)"

text \<open>\<open>while cur_index >= index\<close>, counting down from the last index.\<close>

definition delete_record :: "('l, 'a) env \<Rightarrow> int \<Rightarrow> ('l, 'a, unit) act" where
  "delete_record E cur = bindE (read_rec E cur) (\<lambda>r.
     seqE (whenE (code r = cluster_config) (bindE (reverse_config_change E r) (\<lambda>_. ret ())))
     (log_do (delete_all_from (log E) cur)))"

definition delete_log_from :: "('l, 'a) env \<Rightarrow> int \<Rightarrow> ('l, 'a, unit) act" where
  "delete_log_from E i = bindE (log_get get_last_index E) (\<lambda>l.
     forE (rev (py_range i (l + 1))) (delete_record E))"

definition process_command_record :: "('l, 'a) env \<Rightarrow> LogRec \<Rightarrow> ('l, 'a, unit) act" where
  "process_command_record E r =
     bindE (tryE (bindE (app_do (process_command E (command r) (serial r))) (\<lambda>(result, err). ret err))
                 (\<lambda>e. seqE (emit (ErrorEvent (format_exc e))) (ret (Some (format_exc e))))) (\<lambda>err.
     if \<not> text_true err then log_do (mark_applied (log E) (rec_index r))
     else bindE (getsE (\<lambda>s. f_commands_idempotent (follower s))) (\<lambda>idem.
       if \<not> idem then seqE (log_do (set_broken (log E))) (deck_stop E False)
       else bindE (some_or AttributeError err) (\<lambda>t. emit (ErrorEvent t))))"

definition apply_record :: "('l, 'a) env \<Rightarrow> int \<Rightarrow> ('l, 'a, unit) act" where
  "apply_record E i = bindE (read_rec E i) (\<lambda>r.
     case code r of
       client_command \<Rightarrow> process_command_record E r
     | cluster_config \<Rightarrow> seqE (handle_membership_change_log_commit E r) (log_do (mark_applied (log E) (rec_index r)))
     | term_start \<Rightarrow> log_do (mark_applied (log E) (rec_index r)))"

definition new_leader_commit_index :: "('l, 'a) env \<Rightarrow> int \<Rightarrow> ('l, 'a, unit) act" where
  "new_leader_commit_index E leader_commit =
     bindE (log_get get_commit_index E) (\<lambda>our_commit.
     bindE (log_get get_applied_index E) (\<lambda>our_apply.
     bindE (log_get get_last_index E) (\<lambda>our_last.
     bindE (log_get get_first_index E) (\<lambda>our_first.
     let first_record = (case our_first of Some f \<Rightarrow> f | None \<Rightarrow> our_last);
         need_commits = our_commit < leader_commit;
         min1 = (if need_commits then our_commit + 1 else first_record);
         min2 = (if our_apply < leader_commit then min min1 (our_apply + 1) else min1);
         max_i = min leader_commit our_last
     in seqE (whenE need_commits (forE (py_range min2 (max_i + 1)) (\<lambda>i. log_do (mark_committed (log E) i))))
        (forE (py_range (max (our_apply + 1) first_record) (max_i + 1)) (apply_record E))))))"

definition maybe_commit :: "('l, 'a) env \<Rightarrow> int \<Rightarrow> ('l, 'a, unit) act" where
  "maybe_commit E ci = bindE (log_get get_commit_index E) (\<lambda>c. bindE (log_get get_applied_index E) (\<lambda>a.
     whenE (ci > c \<or> ci > a) (new_leader_commit_index E ci)))"

definition append_record :: "('l, 'a) env \<Rightarrow> LogRec \<Rightarrow> ('l, 'a, unit) act" where
  "append_record E r = bindE (log_do (log_append (log E) r)) (\<lambda>_.
     if code r = cluster_config then handle_membership_change_log_update E r
     else whenE (code r = term_start \<and> rec_index r = 1)
       (update_cluster_config_from_json_string E (command r)))"

text \<open>The consistency check: whether the message's entries are to be taken.\<close>

definition rewrite_conflicts :: "('l, 'a) env \<Rightarrow> LogRec list \<Rightarrow> ('l, 'a, unit) act" where
  "rewrite_conflicts E es = forE es (\<lambda>lr.
     bindE (read_rec E (rec_index lr)) (\<lambda>r.
     whenE (rec_term r \<noteq> rec_term lr) (delete_log_from E (rec_index lr))))"

definition sync_log :: "('l, 'a) env \<Rightarrow> message \<Rightarrow> log_hdr \<Rightarrow> LogRec list \<Rightarrow> ('l, 'a, bool) act" where
  "sync_log E m h es =
     bindE (log_get get_last_index E) (\<lambda>last.
     bindE (log_get get_term E) (\<lambda>t.
     if prevLogIndex h = 0 \<and> last > 0 then seqE (delete_log_from E 1) (ret True)
     else if msg_term h \<noteq> t then seqE (send_no_sync_append_response E m h) (ret False)
     else if last > prevLogIndex h then
       bindE (read_rec E (prevLogIndex h)) (\<lambda>r.
       if rec_term r \<noteq> prevLogTerm h
       then seqE (log_do (delete_all_from (log E) (prevLogIndex h)))
              (seqE (send_no_sync_append_response E m h) (ret False))
       else seqE (rewrite_conflicts E es) (ret True))
     else bindE (log_get get_last_term E) (\<lambda>lt.
       if last \<noteq> prevLogIndex h \<or> lt \<noteq> prevLogTerm h
       then seqE (send_no_sync_append_response E m h) (ret False)
       else ret True)))"

text \<open>Every append message counts as contact; its sender is the leader when the terms agree.\<close>

definition note_leader :: "('l, 'a) env \<Rightarrow> log_hdr \<Rightarrow> ('l, 'a, unit) act" where
  "note_leader E h =
     bindE (getsE now) (\<lambda>clock.
     seqE (follower_mod (\<lambda>f. f\<lparr>last_leader_contact := clock\<rparr>))
     (bindE (log_get get_term E) (\<lambda>t. bindE (getsE (\<lambda>s. leader_uri (ops s))) (\<lambda>ldr.
      whenE (msg_term h = t \<and> ldr \<noteq> Some (sender h))
        (seqE (set_leader_uri (Some (sender h))) (record_op_detail joined_leader))))))"

definition take_entries :: "('l, 'a) env \<Rightarrow> message \<Rightarrow> log_hdr \<Rightarrow> LogRec list \<Rightarrow> int \<Rightarrow> ('l, 'a, unit) act" where
  "take_entries E m h es ci =
     (if length es = 0 then seqE (send_append_entries_response E m h) (maybe_commit E ci)
      else seqE (forE es (append_record E))
        (seqE (send_append_entries_response E m h) (maybe_commit E ci)))"

definition on_append_entries :: "('l, 'a) env \<Rightarrow> message \<Rightarrow> log_hdr \<Rightarrow> LogRec list \<Rightarrow> int \<Rightarrow> ('l, 'a, unit) act" where
  "on_append_entries E m h es ci =
     seqE (note_leader E h)
     (bindE (sync_log E m h es) (\<lambda>go. whenE go (take_entries E m h es ci)))"

section \<open>Votes\<close>

definition send_vote_response_message :: "('l, 'a) env \<Rightarrow> message \<Rightarrow> log_hdr \<Rightarrow> bool \<Rightarrow> ('l, 'a, unit) act" where
  "send_vote_response_message E m h vote_yes =
     send_vote_reply E m h (my_uri E) (\<lambda>rh. RequestVoteResponseMessage rh vote_yes)"

definition on_vote_request :: "('l, 'a) env \<Rightarrow> message \<Rightarrow> log_hdr \<Rightarrow> ('l, 'a, unit) act" where
  "on_vote_request E m h = bindE (log_get get_voted_for E) (\<lambda>last_vote.
     if last_vote \<noteq> None then send_vote_response_message E m h False
     else bindE (log_get get_last_index E) (\<lambda>local_index. bindE (log_get get_last_term E) (\<lambda>local_term.
       if local_index > 0 \<and> (prevLogIndex h < local_index \<or> prevLogTerm h < local_term)
       then send_vote_response_message E m h False
       else seqE (log_do (set_voted_for (log E) (Some (sender h))))
              (send_vote_response_message E m h True))))"

section \<open>Timeouts, terms, snapshots\<close>

definition join_cluster :: "('l, 'a) env \<Rightarrow> uri \<Rightarrow> ('l, 'a, unit) act" where
  "join_cluster E ldr = bindE (mk_hdr (my_uri E) (Some ldr)) (\<lambda>h.
     send_message (MembershipChangeMessage h op_add (my_uri E)))"

definition follower_term_expired :: "('l, 'a) env \<Rightarrow> message \<Rightarrow> int \<Rightarrow> ('l, 'a, bool) act" where
  "follower_term_expired E m t =
     seqE (record_op_detail newer_term)
     (seqE (deck_set_term E t) (seqE (log_do (set_voted_for (log E) None)) (ret True)))"

definition leader_lost :: "('l, 'a) env \<Rightarrow> ('l, 'a, unit) act" where
  "leader_lost E = seqE (record_op_detail leader_lost_op)
     (seqE (log_do (set_voted_for (log E) None)) (deck_start_campaign E False))"

definition contact_checker :: "('l, 'a) env \<Rightarrow> ('l, 'a, unit) act" where
  "contact_checker E = bindE (get_election_timeout E) (\<lambda>max_time.
     bindE (getsE (\<lambda>s. now s - last_leader_contact (follower s))) (\<lambda>e_time.
     if e_time > max_time then leader_lost E
     else bindE (get_election_timeout E) (\<lambda>d. role_run_after d ContactChecker)))"

definition on_snapshot_message ::
  "('l, 'a) env \<Rightarrow> message \<Rightarrow> log_hdr \<Rightarrow> int \<Rightarrow> bool \<Rightarrow> pystr \<Rightarrow> pystr option \<Rightarrow> ('l, 'a, unit) act" where
  "on_snapshot_message E m h off dn dat cc = bindE (log_get get_term E) (\<lambda>t.
     whenE (msg_term h = t)
       (bindE (getsE (\<lambda>s. f_snapshot (follower s))) (\<lambda>fs.
        seqE (whenE (fs = None)
          (let sn = \<lparr>snap_index = prevLogIndex h, snap_term = prevLogTerm h\<rparr> in
           seqE (follower_mod (\<lambda>f. f\<lparr>f_snapshot := Some sn\<rparr>))
           (seqE (app_do (begin_snapshot_import E sn))
           (update_cluster_config_from_json_string E cc))))
        (seqE (app_do (load_snapshot_chunk E dat))
        (seqE (whenE dn
          (bindE (app_do (apply_snapshot E)) (\<lambda>sn.
           seqE (log_do (install_snapshot (log E) sn))
           (follower_mod (\<lambda>f. f\<lparr>f_snapshot := None\<rparr>)))))
        (send_snapshot_response_message E m h off True))))))"

section \<open>The role\<close>

definition new_Follower :: "time \<Rightarrow> Follower" where
  "new_Follower clock = \<lparr>f_stopped = False, last_leader_contact = clock, f_snapshot = None,
     f_commands_idempotent = False\<rparr>"

definition follower_start :: "('l, 'a) env \<Rightarrow> ('l, 'a, unit) act" where
  "follower_start E = seqE base_start
     (seqE (bindE (getsE now) (\<lambda>clock. follower_mod (\<lambda>f. f\<lparr>last_leader_contact := clock\<rparr>)))
     (bindE (get_cluster_config E) (\<lambda>c.
      seqE (follower_mod (\<lambda>f. f\<lparr>f_commands_idempotent := commands_idempotent (settings c)\<rparr>))
      (bindE (get_election_timeout E) (\<lambda>d. role_run_after d ContactChecker)))))"

definition follower_routes :: "('l, 'a) env \<Rightarrow> ('l, 'a) routes" where
  "follower_routes E =
     \<lparr>r_append_entries = on_append_entries E,
      r_append_response = (\<lambda>m h mi ok l orig. ret ()),
      r_vote_request = on_vote_request E,
      r_vote_response = (\<lambda>m h v. ret ()),
      r_pre_vote_response = (\<lambda>m h v. ret ()),
      r_membership_change = base_on_membership_change_message E,
      r_snapshot = on_snapshot_message E,
      r_snapshot_response = (\<lambda>m h off ok. ret ())\<rparr>"

definition follower_on_message :: "('l, 'a) env \<Rightarrow> message \<Rightarrow> ('l, 'a, unit) act" where
  "follower_on_message E =
     base_on_message E (\<lambda>s. f_stopped (follower s)) (follower_term_expired E) (follower_routes E)"

section \<open>Message serialisation and demotion\<close>

text \<open>
  \<open>Deck.inner_on_message\<close>, given the current role's \<open>on_message\<close>. A message that finds another one
  active waits to be the first; while this handler runs no other one finishes, so for a nested
  call the wait ends in the timeout, which raises and leaves the message registered.
\<close>

definition message_key :: "message \<Rightarrow> uri \<times> int" where
  "message_key m = (sender (msg_hdr_of m), serial_number (msg_hdr_of m))"

definition inner_on_message_with ::
  "('l, 'a) env \<Rightarrow> (message \<Rightarrow> ('l, 'a, unit) act) \<Rightarrow> message \<Rightarrow> ('l, 'a, unit) act" where
  "inner_on_message_with E handler m =
     seqE (deck_mod (\<lambda>d. d\<lparr>deck_active_messages := dict_set (message_key m) m (deck_active_messages d)\<rparr>))
     (bindE (getsE (\<lambda>s. length (deck_active_messages (deck s)))) (\<lambda>n.
     if n > 1 then throw MessageWaitTimeout
     else seqE (tryE (handler m) (\<lambda>e.
            seqE (emit_if_active (ErrorEvent (format_exc e)))
            (record_message_problem E (ProblemMessage m e))))
          (deck_mod (\<lambda>d. d\<lparr>deck_active_messages := dict_del (message_key m) (deck_active_messages d)\<rparr>))))"

definition demote_and_handle :: "('l, 'a) env \<Rightarrow> message option \<Rightarrow> ('l, 'a, unit) act" where
  "demote_and_handle E mo =
     seqE (stop_role E)
     (bindE (getsE (\<lambda>s. exiting_cluster (deck s))) (\<lambda>ex.
     whenE (\<not> ex)
       (seqE (modE (\<lambda>s. s\<lparr>role := RoleFollower, follower := new_Follower (now s)\<rparr>))
       (seqE (follower_start E)
       (seqE (emit_if_active (RoleChangeEvent RoleFollower))
       (case mo of None \<Rightarrow> ret ()
        | Some m \<Rightarrow>
            seqE (case leaderId_of_msg m of None \<Rightarrow> ret () | Some l \<Rightarrow> set_leader_uri l)
            (inner_on_message_with E (follower_on_message E) m)))))))"

end
