(* ===== verification/Leader_Role.thy ===== *)
theory Leader_Role
  imports Follower_Role
begin

text \<open>
  \<open>Leader\<close> of \<open>src/raftengine/roles/leader.py\<close> and the operations of \<open>ClusterOps\<close> that drive it: sending
  log records and heartbeats, bringing followers up to date, counting replication votes,
  committing and applying, quorum checks, transfer of power, snapshots, client commands and
  membership changes. \<open>get_prev_record_id\<close> answers \<open>None\<close> only below a snapshot, where no append
  message is built.
\<close>

section \<open>Bookkeeping\<close>

definition new_Leader :: "bool \<Rightarrow> Leader" where
  "new_Leader cq = \<lparr>l_stopped = False, last_broadcast_time = 0, active_commands = [], command_recs = [],
     l_use_check_quorum = cq, accepting_commands = True, exit_in_progress = False,
     transfer_in_progress = False, active_messages = [], broadcast_id = 0, broadcast_trackers = [],
     log_vote_trackers = [], l_commands_idempotent = False, command_counter = 0\<rparr>"

definition messages_to :: "uri \<Rightarrow> Leader \<Rightarrow> (int \<times> MessageTracker) list" where
  "messages_to u l = or_else [] (dict_get (active_messages l) u)"

definition track_message :: "uri \<Rightarrow> int \<Rightarrow> MessageTracker \<Rightarrow> Leader \<Rightarrow> Leader" where
  "track_message u sn mt l = l\<lparr>active_messages := dict_set u (dict_set sn mt (messages_to u l)) (active_messages l)\<rparr>"

definition drop_message :: "uri \<Rightarrow> int \<Rightarrow> Leader \<Rightarrow> Leader" where
  "drop_message u sn l = l\<lparr>active_messages := dict_set u (dict_del sn (messages_to u l)) (active_messages l)\<rparr>"

definition new_broadcast :: "('l, 'a, int) act" where
  "new_broadcast = bindE (getsE (\<lambda>s. (broadcast_id (leader s), now s))) (\<lambda>(b, clock).
     seqE (leader_mod (\<lambda>l. l\<lparr>broadcast_trackers := dict_set b
             \<lparr>bt_followers = [], sent_time = clock, bt_reply_count = 0\<rparr> (broadcast_trackers l),
             broadcast_id := b + 1\<rparr>)) (ret b))"

definition add_broadcast_follower :: "int \<Rightarrow> uri \<Rightarrow> MessageTracker \<Rightarrow> Leader \<Rightarrow> Leader" where
  "add_broadcast_follower b u mt l = (case dict_get (broadcast_trackers l) b of None \<Rightarrow> l
     | Some bt \<Rightarrow> l\<lparr>broadcast_trackers := dict_set b (bt\<lparr>bt_followers := dict_set u mt (bt_followers bt)\<rparr>)
                                              (broadcast_trackers l)\<rparr>)"

definition record_sent_message :: "('l, 'a) env \<Rightarrow> message \<Rightarrow> ('l, 'a, unit) act" where
  "record_sent_message E m = bindE (tracker_for_follower E (sender (msg_hdr_of m))) (\<lambda>_.
     bindE (getsE now) (\<lambda>clock.
     tracker_mod (sender (msg_hdr_of m)) (\<lambda>t. t\<lparr>msg_count := msg_count t + 1, last_msg_time := clock\<rparr>)))"

definition report_command_result :: "LogRec \<Rightarrow> pystr option \<Rightarrow> pystr option \<Rightarrow> ('l, 'a, unit) act" where
  "report_command_result r result err = leader_mod (\<lambda>l.
     if rec_index r \<notin> set (active_commands l) then l
     else (case dict_get (command_recs l) (rec_index r) of None \<Rightarrow> l
       | Some c \<Rightarrow> if cmd_done c then l
           else l\<lparr>command_recs := dict_set (rec_index r)
             (c\<lparr>cmd_result := result, cmd_error := err, cmd_done := True\<rparr>) (command_recs l)\<rparr>))"

definition demoted_text :: pystr where
  "demoted_text = Str ''Leader demoted during command execution''"

definition notify_pending_commands_on_demotion :: "('l, 'a, unit) act" where
  "notify_pending_commands_on_demotion = leader_mod (\<lambda>l.
     l\<lparr>command_recs := map (\<lambda>(i, c). (i, if i \<in> set (active_commands l) \<and> \<not> cmd_done c
           then c\<lparr>cmd_done := True, cmd_error := Some demoted_text, cmd_result := None\<rparr> else c)) (command_recs l),
       active_commands := []\<rparr>)"

section \<open>Quorum check and sending\<close>

text \<open>\<open>math.ceil(n / 2)\<close>.\<close>

definition half_up :: "nat \<Rightarrow> nat" where
  "half_up n = (n + 1) div 2"

fun check_broadcasts :: "('l, 'a) env \<Rightarrow> time \<Rightarrow> int list \<Rightarrow> ('l, 'a, bool) act" where
  "check_broadcasts E et_max [] = ret True"
| "check_broadcasts E et_max (b # bs) = bindE (getsE (\<lambda>s. (dict_get (broadcast_trackers (leader s)) b, now s))) (\<lambda>(bo, clock).
     bindE (some_or KeyError bo) (\<lambda>bt.
     if bt_reply_count bt + 1 < int (half_up (length (bt_followers bt) + 1)) \<and> clock - sent_time bt > et_max
     then seqE notify_pending_commands_on_demotion (seqE (demote_and_handle E None) (ret False))
     else check_broadcasts E et_max bs))"

definition check_quorum :: "('l, 'a) env \<Rightarrow> ('l, 'a, bool) act" where
  "check_quorum E = bindE (get_election_timeout_range E) (\<lambda>(et_min, et_max).
     bindE (getsE (\<lambda>s. dict_keys (broadcast_trackers (leader s)))) (\<lambda>b_ids.
     check_broadcasts E et_max (rev b_ids)))"

definition get_prev_record_id :: "('l, 'a) env \<Rightarrow> int \<Rightarrow> ('l, 'a, int option \<times> int option) act" where
  "get_prev_record_id E i = bindE (log_get get_snapshot E) (\<lambda>snap.
     case snap of
       Some sn \<Rightarrow> if i - 1 < snap_index sn + 1
                  then (if snap_index sn = i - 1 then ret (Some (snap_index sn), Some (snap_term sn))
                        else ret (None, None))
                  else if i > 1 then bindE (read_rec E (i - 1)) (\<lambda>r. ret (Some (rec_index r), Some (rec_term r)))
                  else ret (Some 0, Some 0)
     | None \<Rightarrow> if i > 1 then bindE (read_rec E (i - 1)) (\<lambda>r. ret (Some (rec_index r), Some (rec_term r)))
               else ret (Some 0, Some 0))"

definition broadcast_one :: "('l, 'a) env \<Rightarrow> int \<Rightarrow> int \<Rightarrow> int \<Rightarrow> int \<Rightarrow> int \<Rightarrow> LogRec \<Rightarrow> uri \<Rightarrow> ('l, 'a, unit) act" where
  "broadcast_one E b t pix ptm ci r u =
     (if u = my_uri E then ret ()
      else bindE (tracker_for_follower E u) (\<lambda>_.
        bindE (mk_log_hdr (my_uri E) (Some u) t pix ptm) (\<lambda>h.
        let m = AppendEntriesMessage h [r] ci;
            mt = \<lparr>mt_uri = u, mt_message = m, mt_broadcast_id = Some b, log_rec_ids = [rec_index r], mt_reply = None\<rparr>
        in seqE (leader_mod (track_message u (serial_number h) mt))
           (seqE (leader_mod (add_broadcast_follower b u mt))
           (seqE (send_message m) (create_task (RecordSentMessage m)))))))"

definition broadcast_log_record :: "('l, 'a) env \<Rightarrow> LogRec \<Rightarrow> ('l, 'a, unit) act" where
  "broadcast_log_record E r =
     bindE (get_prev_record_id E (rec_index r)) (\<lambda>(pix, ptm).
     bindE (log_get get_term E) (\<lambda>t. bindE (log_get get_commit_index E) (\<lambda>ci.
     bindE new_serial (\<lambda>_.
     bindE (some_or TypeError pix) (\<lambda>pix. bindE (some_or TypeError ptm) (\<lambda>ptm.
     bindE new_broadcast (\<lambda>b.
     bindE get_cluster_node_ids (\<lambda>us.
     seqE (leader_mod (\<lambda>l. l\<lparr>log_vote_trackers := dict_set (rec_index r)
             \<lparr>lvt_log_rec = r, voters = us, lvt_votes = [(my_uri E, True)]\<rparr> (log_vote_trackers l)\<rparr>))
     (seqE (whenE (code r = term_start) (record_op_detail broadcasting_term_start))
     (forE us (broadcast_one E b t pix ptm ci r)))))))))))"

definition heartbeat_one :: "('l, 'a) env \<Rightarrow> int option \<Rightarrow> int \<Rightarrow> int \<Rightarrow> int \<Rightarrow> int \<Rightarrow> uri \<Rightarrow> ('l, 'a, unit) act" where
  "heartbeat_one E bo t li lt ci u =
     (if u = my_uri E then ret ()
      else bindE (mk_log_hdr (my_uri E) (Some u) t li lt) (\<lambda>h.
        let m = AppendEntriesMessage h [] ci;
            mt = \<lparr>mt_uri = u, mt_message = m, mt_broadcast_id = bo, log_rec_ids = [], mt_reply = None\<rparr>
        in seqE (leader_mod (track_message u (serial_number h) mt))
           (seqE (case bo of None \<Rightarrow> ret () | Some b \<Rightarrow> leader_mod (add_broadcast_follower b u mt))
           (seqE (record_sent_message E m)
           (seqE (bindE (getsE now) (\<lambda>clock. leader_mod (\<lambda>l. l\<lparr>last_broadcast_time := clock\<rparr>)))
           (send_message m))))))"

definition send_heartbeats :: "('l, 'a) env \<Rightarrow> uri option \<Rightarrow> ('l, 'a, unit) act" where
  "send_heartbeats E target_only =
     bindE (getsE (\<lambda>s. l_use_check_quorum (leader s))) (\<lambda>cq.
     bindE (if cq then check_quorum E else ret True) (\<lambda>ok.
     whenE ok
       (bindE (log_get get_term E) (\<lambda>t. bindE (log_get get_last_term E) (\<lambda>lt.
        bindE (log_get get_last_index E) (\<lambda>li. bindE (log_get get_commit_index E) (\<lambda>ci.
        case target_only of
          Some u \<Rightarrow> heartbeat_one E None t li lt ci u
        | None \<Rightarrow> bindE get_cluster_node_ids (\<lambda>us.
            bindE new_broadcast (\<lambda>b. forE us (heartbeat_one E (Some b) t li lt ci))))))))))"

definition scheduled_send_heartbeats :: "('l, 'a) env \<Rightarrow> ('l, 'a, unit) act" where
  "scheduled_send_heartbeats E = seqE (send_heartbeats E None)
     (bindE (get_heartbeat_period E) (\<lambda>d. role_run_after d ScheduledSendHeartbeats))"

definition ensure_log_tracker :: "('l, 'a) env \<Rightarrow> LogRec \<Rightarrow> ('l, 'a, unit) act" where
  "ensure_log_tracker E r = bindE (getsE (\<lambda>s. dict_get (log_vote_trackers (leader s)) (rec_index r))) (\<lambda>v.
     case v of Some _ \<Rightarrow> ret ()
     | None \<Rightarrow> bindE get_cluster_node_ids (\<lambda>us.
         bindE (foldE us (\<lambda>u vs. if u = my_uri E then ret vs
             else bindE (tracker_for_follower E u) (\<lambda>t. ret (dict_set u (matchIndex t \<ge> rec_index r) vs)))
           [(my_uri E, True)]) (\<lambda>vs.
         leader_mod (\<lambda>l. l\<lparr>log_vote_trackers := dict_set (rec_index r)
           \<lparr>lvt_log_rec = r, voters = us, lvt_votes = vs\<rparr> (log_vote_trackers l)\<rparr>))))"

section \<open>Snapshots\<close>

definition snapshot_send :: "('l, 'a) env \<Rightarrow> uri \<Rightarrow> ('l, 'a, unit) act" where
  "snapshot_send E u = bindE (tracker_for_follower E u) (\<lambda>tr.
     if \<not> has_snapshot_tool tr then throw AttributeError
     else bindE (some_or AttributeError (sending_snapshot tr)) (\<lambda>cur.
       let sn = cursor_snapshot cur in
       bindE (app_do (get_snapshot_chunk E sn (cursor_offset cur))) (\<lambda>(chunk, new_offset, dn).
       bindE (log_get get_term E) (\<lambda>t.
       bindE (mk_log_hdr (my_uri E) (Some u) t (snap_index sn) (snap_term sn)) (\<lambda>h.
       bindE (if cursor_offset cur = 0 then bindE (get_cluster_config_json_string E) (\<lambda>c. ret (Some c)) else ret None) (\<lambda>cc.
       seqE (tracker_mod u (\<lambda>tr. tr\<lparr>sending_snapshot := Some (cur\<lparr>cursor_offset := new_offset, cursor_done := dn\<rparr>)\<rparr>))
       (send_message (SnapShotMessage h (my_uri E) (cursor_offset cur) dn chunk cc))))))))"

definition start_snapshot_send :: "('l, 'a) env \<Rightarrow> uri \<Rightarrow> ('l, 'a, unit) act" where
  "start_snapshot_send E u = bindE (tracker_for_follower E u) (\<lambda>_.
     bindE (log_get get_snapshot E) (\<lambda>snap. bindE (some_or AttributeError snap) (\<lambda>sn.
     seqE (app_do (begin_snapshot_export E sn))
     (seqE (tracker_mod u (\<lambda>tr. tr\<lparr>sending_snapshot := Some \<lparr>cursor_snapshot = sn, cursor_offset = 0, cursor_done = False\<rparr>,
                                   has_snapshot_tool := True\<rparr>))
     (snapshot_send E u)))))"

definition on_snapshot_response_message :: "('l, 'a) env \<Rightarrow> uri \<Rightarrow> bool \<Rightarrow> ('l, 'a, unit) act" where
  "on_snapshot_response_message E u ok = bindE (tracker_for_follower E u) (\<lambda>tr.
     case sending_snapshot tr of
       Some cur \<Rightarrow> if cursor_done cur \<and> ok
         then seqE (tracker_mod u (\<lambda>tr. tr\<lparr>sending_snapshot := None, has_snapshot_tool := False,
                nextIndex := snap_index (cursor_snapshot cur) + 1, matchIndex := snap_index (cursor_snapshot cur)\<rparr>))
                (send_heartbeats E (Some u))
         else snapshot_send E u
     | None \<Rightarrow> snapshot_send E u)"

section \<open>Bringing followers up to date\<close>

definition send_entries :: "('l, 'a) env \<Rightarrow> uri \<Rightarrow> LogRec list \<Rightarrow> int \<Rightarrow> int \<Rightarrow> OpDetail \<Rightarrow> ('l, 'a, unit) act" where
  "send_entries E u es pix ptm d =
     bindE (log_get get_term E) (\<lambda>t. bindE (log_get get_commit_index E) (\<lambda>ci.
     bindE (mk_log_hdr (my_uri E) (Some u) t pix ptm) (\<lambda>h.
     let m = AppendEntriesMessage h es ci in
     seqE (leader_mod (track_message u (serial_number h)
            \<lparr>mt_uri = u, mt_message = m, mt_broadcast_id = None, log_rec_ids = map rec_index es, mt_reply = None\<rparr>))
     (seqE (record_op_detail d) (seqE (record_sent_message E m) (send_message m))))))"

definition send_backdown :: "('l, 'a) env \<Rightarrow> log_hdr \<Rightarrow> int \<Rightarrow> ('l, 'a, unit) act" where
  "send_backdown E h mi = bindE (tracker_for_follower E (sender h)) (\<lambda>_.
     let send_index = (if mi < prevLogIndex h then mi + 1 else prevLogIndex h) in
     seqE (tracker_mod (sender h) (\<lambda>tr. tr\<lparr>nextIndex := send_index + 1\<rparr>))
     (bindE (get_prev_record_id E send_index) (\<lambda>(pix, ptm).
      bindE (log_get get_snapshot E) (\<lambda>snap.
      if pix = None \<and> (case snap of Some sn \<Rightarrow> snap_index sn \<ge> send_index | None \<Rightarrow> False)
      then start_snapshot_send E (sender h)
      else bindE (read_rec E send_index) (\<lambda>r.
        bindE (log_get get_commit_index E) (\<lambda>ci.
        seqE (whenE (rec_index r < ci) (ensure_log_tracker E r))
        (bindE (some_or TypeError pix) (\<lambda>pix. bindE (some_or TypeError ptm) (\<lambda>ptm.
         send_entries E (sender h) [r] pix ptm sending_backdown)))))))))"

text \<open>The records to send, with at most one configuration record, and where the block was cut.\<close>

fun collect_catchup :: "('l, 'a) env \<Rightarrow> int list \<Rightarrow> bool \<Rightarrow> LogRec list \<Rightarrow> int \<Rightarrow> ('l, 'a, LogRec list \<times> int) act" where
  "collect_catchup E [] have_change es end_i = ret (es, end_i)"
| "collect_catchup E (i # is) have_change es end_i = bindE (read_rec E i) (\<lambda>r.
     if code r = cluster_config \<and> have_change then ret (es, rec_index r)
     else seqE (whenE (\<not> committed r) (ensure_log_tracker E r))
       (collect_catchup E is (have_change \<or> code r = cluster_config) (es @ [r]) end_i))"

definition send_catchup :: "('l, 'a) env \<Rightarrow> uri \<Rightarrow> int \<Rightarrow> ('l, 'a, unit) act" where
  "send_catchup E u mi = bindE (tracker_for_follower E u) (\<lambda>_.
     seqE (tracker_mod u (\<lambda>tr. tr\<lparr>matchIndex := mi\<rparr>))
     (bindE (log_get get_last_index E) (\<lambda>last_i. bindE (get_max_entries_per_message E) (\<lambda>max_e.
      let start_i = mi + 1;
          end_i = (if last_i - start_i > max_e then start_i + max_e else last_i) in
      bindE (collect_catchup E (py_range start_i (end_i + 1)) False [] end_i) (\<lambda>(es, end_i).
      seqE (tracker_mod u (\<lambda>tr. tr\<lparr>nextIndex := end_i + 1\<rparr>))
      (bindE (get_prev_record_id E start_i) (\<lambda>(pix, ptm).
       bindE (some_or TypeError pix) (\<lambda>pix. bindE (some_or TypeError ptm) (\<lambda>ptm.
       send_entries E u es pix ptm sending_catchup)))))))))"

section \<open>Transfer of power\<close>

definition transfer_power :: "('l, 'a) env \<Rightarrow> uri \<Rightarrow> LogRec option \<Rightarrow> ('l, 'a, time option) act" where
  "transfer_power E u lr = bindE (getsE (\<lambda>s. transfer_in_progress (leader s))) (\<lambda>b.
     if b then ret None
     else bindE get_cluster_node_ids (\<lambda>us.
       if u \<notin> set us then throw (NotClusterNode u)
       else seqE (leader_mod (\<lambda>l. l\<lparr>transfer_in_progress := True\<rparr>))
         (seqE (create_task (TransferRunner u lr))
         (bindE (get_election_timeout_range E) (\<lambda>(et_min, et_max).
          seqE (leader_mod (\<lambda>l. l\<lparr>accepting_commands := False\<rparr>))
          (bindE (getsE now) (\<lambda>clock. ret (Some (clock + et_max)))))))))"

text \<open>
  \<open>transfer_runner\<close> in three parts: up to the wait for the follower, one turn of the waiting loop of
  \<open>wait_for_follower\<close>, and what follows once the follower is up to date.
\<close>

definition transfer_proceed :: "('l, 'a) env \<Rightarrow> uri \<Rightarrow> LogRec option \<Rightarrow> ('l, 'a, unit) act" where
  "transfer_proceed E u lr = bindE (tracker_for_follower E u) (\<lambda>tr.
     bindE (get_prev_record_id E (matchIndex tr + 1)) (\<lambda>(pix, ptm).
     bindE (log_get get_term E) (\<lambda>t.
     bindE (mk_hdr (my_uri E) (Some u)) (\<lambda>h.
     seqE (send_message (TransferPowerMessage h t pix ptm))
     (bindE (getsE (\<lambda>s. exit_in_progress (leader s))) (\<lambda>ex.
      case lr of
        Some r \<Rightarrow> if code r = cluster_config \<and> ex
                  then bindE (call_later (1/100) (DelayedExit r)) (\<lambda>_. ret ())
                  else demote_and_handle E None
      | None \<Rightarrow> demote_and_handle E None))))))"

definition transfer_runner :: "('l, 'a) env \<Rightarrow> uri \<Rightarrow> LogRec option \<Rightarrow> ('l, 'a, unit) act" where
  "transfer_runner E u lr = bindE (tracker_for_follower E u) (\<lambda>tr.
     bindE (get_election_timeout_range E) (\<lambda>(et_min, et_max).
     bindE (log_get get_commit_index E) (\<lambda>ci.
     if matchIndex tr < ci
     then seqE (send_heartbeats E (Some u))
            (bindE (getsE now) (\<lambda>clock. create_task (TransferWait u lr clock et_max)))
     else transfer_proceed E u lr)))"

definition transfer_wait :: "('l, 'a) env \<Rightarrow> uri \<Rightarrow> LogRec option \<Rightarrow> time \<Rightarrow> time \<Rightarrow> ('l, 'a, unit) act" where
  "transfer_wait E u lr start limit = bindE (tracker_for_follower E u) (\<lambda>tr.
     bindE (log_get get_commit_index E) (\<lambda>ci. bindE (getsE now) (\<lambda>clock.
     if matchIndex tr < ci \<and> clock - start < limit then create_task (TransferWait u lr start limit)
     else if matchIndex tr \<ge> ci then transfer_proceed E u lr
     else leader_mod (\<lambda>l. l\<lparr>accepting_commands := True, transfer_in_progress := False\<rparr>))))"

definition delayed_exit :: "('l, 'a) env \<Rightarrow> LogRec \<Rightarrow> ('l, 'a, unit) act" where
  "delayed_exit E r = bindE (finish_node_remove E (my_uri E)) (\<lambda>_.
     seqE (log_do (mark_applied (log E) (rec_index r))) (note_exit_done True))"

section \<open>Membership changes at the leader\<close>

text \<open>\<open>self.deck.role.send_heartbeats\<close>: only a leader has that method.\<close>

definition role_send_heartbeats :: "('l, 'a) env \<Rightarrow> uri option \<Rightarrow> ('l, 'a, unit) act" where
  "role_send_heartbeats E u = bindE (getsE role) (\<lambda>r.
     if r = RoleLeader then send_heartbeats E u else throw AttributeError)"

definition role_transfer_power :: "('l, 'a) env \<Rightarrow> uri \<Rightarrow> LogRec option \<Rightarrow> ('l, 'a, unit) act" where
  "role_transfer_power E u lr = bindE (getsE role) (\<lambda>r.
     if r = RoleLeader then bindE (transfer_power E u lr) (\<lambda>_. ret ()) else throw AttributeError)"

definition append_change :: "('l, 'a) env \<Rightarrow> pystr \<Rightarrow> ('l, 'a, unit) act" where
  "append_change E cmd = bindE (log_get get_term E) (\<lambda>t.
     bindE (log_do (log_append (log E) (new_LogRec cluster_config t (Some cmd)))) (broadcast_log_record E))"

definition membership_response :: "('l, 'a) env \<Rightarrow> message \<Rightarrow> bool \<Rightarrow> ('l, 'a, unit) act" where
  "membership_response E m ok = (case m of
       MembershipChangeMessage h op tgt \<Rightarrow> send_membership_change_response_message E m h op tgt ok
     | _ \<Rightarrow> throw AttributeError)"

definition do_node_inout :: "('l, 'a) env \<Rightarrow> ChangeOp \<Rightarrow> uri \<Rightarrow> message option \<Rightarrow> ('l, 'a, unit) act" where
  "do_node_inout E op tgt mo =
     seqE (case op of
       op_remove \<Rightarrow> bindE (plan_remove_node E tgt) (\<lambda>plan.
         seqE (append_change E (change_command ''remove_node'' plan tgt))
         (bindE (start_node_remove E tgt) (\<lambda>_.
          whenE (mo \<noteq> None) (ops_mod (\<lambda>p. p\<lparr>remove_message := mo\<rparr>)))))
     | op_add \<Rightarrow> bindE (start_node_add E tgt) (\<lambda>_.
         bindE (tracker_for_follower E tgt) (\<lambda>_.
         bindE (log_get get_last_index E) (\<lambda>li. bindE (getsE now) (\<lambda>clock.
         seqE (ops_mod (\<lambda>p. p\<lparr>loading_data := Some \<lparr>load_uri = tgt, start_time = clock,
                first_round_max_index = li, prev_round_max_index = 0, round_count = 1, change_message = mo\<rparr>\<rparr>))
         (seqE (tracker_mod tgt (\<lambda>tr. tr\<lparr>add_loading := True\<rparr>))
         (if mo = None then throw AttributeError else send_heartbeats E (Some tgt)))))))
     | op_assume_control \<Rightarrow> ret ())
     (whenE (tgt = my_uri E) (leader_mod (\<lambda>l. l\<lparr>exit_in_progress := True\<rparr>)))"

definition do_update_settings :: "('l, 'a) env \<Rightarrow> ClusterSettings \<Rightarrow> ('l, 'a, unit) act" where
  "do_update_settings E st = bindE (log_get Log_Api.get_cluster_config E) (\<lambda>stored.
     bindE (some_or AttributeError stored) (\<lambda>c.
     append_change E (change_command ''update_settings'' (Some (c\<lparr>settings := st\<rparr>)) [])))"

definition abort_node_add :: "('l, 'a) env \<Rightarrow> uri \<Rightarrow> ('l, 'a, unit) act" where
  "abort_node_add E u = bindE (get_cluster_config E) (\<lambda>c.
     let c' = c\<lparr>pending_node := None\<rparr> in
     seqE (set_current c')
     (bindE (log_do (save_cluster_config (log E) c')) (\<lambda>_.
     seqE stop_loading_round_timer
     (bindE (getsE (\<lambda>s. dict_get (follower_trackers (ops s)) u)) (\<lambda>tr.
     bindE (some_or KeyError tr) (\<lambda>_.
     seqE (ops_mod (\<lambda>p. p\<lparr>follower_trackers := dict_del u (follower_trackers p)\<rparr>))
     (bindE (getsE (\<lambda>s. loading_data (ops s))) (\<lambda>ld.
      bindE (some_or AttributeError ld) (\<lambda>ld.
      case change_message ld of None \<Rightarrow> ret () | Some m \<Rightarrow> membership_response E m False)))))))))"

definition loading_round_timeout :: "('l, 'a) env \<Rightarrow> uri \<Rightarrow> ('l, 'a, unit) act" where
  "loading_round_timeout E u = abort_node_add E u"

definition next_round :: "int \<Rightarrow> NewNodeLoad \<Rightarrow> NewNodeLoad" where
  "next_round my_last ld = ld\<lparr>round_count := round_count ld + 1, prev_round_max_index := my_last\<rparr>"

definition start_next_round :: "('l, 'a) env \<Rightarrow> uri \<Rightarrow> NewNodeLoad \<Rightarrow> int \<Rightarrow> ('l, 'a, bool) act" where
  "start_next_round E u ld my_last =
     seqE (ops_mod (\<lambda>p. p\<lparr>loading_data := Some (next_round my_last ld)\<rparr>))
     (seqE (start_loading_round_timer E u) (ret True))"

definition finish_loading :: "('l, 'a) env \<Rightarrow> uri \<Rightarrow> ('l, 'a, bool) act" where
  "finish_loading E u =
     seqE stop_loading_round_timer
     (bindE (tracker_for_follower E u) (\<lambda>_.
     seqE (tracker_mod u (\<lambda>tr. tr\<lparr>add_loading := False\<rparr>))
     (bindE (get_cluster_config E) (\<lambda>plan.
     seqE (append_change E (change_command ''add_node'' (Some plan) u))
     (bindE (getsE (\<lambda>s. loading_data (ops s))) (\<lambda>ld.
      bindE (some_or AttributeError ld) (\<lambda>ld.
      seqE (case change_message ld of None \<Rightarrow> ret () | Some m \<Rightarrow> membership_response E m True)
      (seqE (ops_mod (\<lambda>p. p\<lparr>loading_data := None\<rparr>)) (ret True)))))))))"

definition note_loading_progress :: "('l, 'a) env \<Rightarrow> uri \<Rightarrow> int \<Rightarrow> ('l, 'a, bool) act" where
  "note_loading_progress E u log_index =
     bindE (log_get get_last_index E) (\<lambda>my_index.
     bindE (getsE (\<lambda>s. loading_data (ops s))) (\<lambda>ld.
     bindE (some_or AttributeError ld) (\<lambda>ld.
     bindE (get_cluster_config E) (\<lambda>_.
     if log_index = my_index then finish_loading E u
     else if round_count ld = 1
     then (if log_index < first_round_max_index ld then ret True else start_next_round E u ld my_index)
     else if log_index \<ge> prev_round_max_index ld
     then (if round_count ld = 10 then seqE (abort_node_add E u) (ret False) else start_next_round E u ld my_index)
     else ret True))))"

definition change_op_operand :: "LogRec \<Rightarrow> exn + string \<times> uri" where
  "change_op_operand r =
     sbind (load_change r) (\<lambda>d.
     sbind (item ''op'' d) (\<lambda>oj. sbind (j_str oj) (\<lambda>op.
     sbind (item ''operand'' d) (\<lambda>uj. sbind (j_str uj) (\<lambda>u. Inr (op, u))))))"

definition change_nodes :: "LogRec \<Rightarrow> exn + uri list" where
  "change_nodes r = sbind (load_change r) (\<lambda>d. sbind (item ''config'' d) ClusterConfig_kwargs)"

definition cluster_config_vote_passed :: "('l, 'a) env \<Rightarrow> LogRec \<Rightarrow> ('l, 'a, unit) act" where
  "cluster_config_vote_passed E r =
     bindE (liftE (change_op_operand r)) (\<lambda>(op, operand).
     seqE (log_do (mark_applied (log E) (rec_index r)))
     (if op = ''remove_node'' then
        (if operand \<noteq> my_uri E then
           bindE (finish_node_remove E operand) (\<lambda>_.
           seqE (role_send_heartbeats E (Some operand))
           (seqE (role_send_heartbeats E None)
           (bindE (getsE (\<lambda>s. remove_message (ops s))) (\<lambda>rm.
            case rm of None \<Rightarrow> ret ()
            | Some m \<Rightarrow> seqE (membership_response E m True) (ops_mod (\<lambda>p. p\<lparr>remove_message := None\<rparr>))))))
         else bindE (liftE (change_nodes r)) (\<lambda>us.
           case us of [] \<Rightarrow> throw IndexError | u # _ \<Rightarrow> role_transfer_power E u (Some r)))
      else if op = ''add_node'' then bindE (finish_node_add E operand) (\<lambda>_. ret ())
      else if op = ''update_settings'' then save_settings E r
      else ret ()))"

section \<open>Committing and applying\<close>

definition run_command_locally :: "('l, 'a) env \<Rightarrow> LogRec \<Rightarrow> ('l, 'a, unit) act" where
  "run_command_locally E r =
     bindE (tryE (bindE (app_do (process_command E (command r) (serial r))) (\<lambda>p. ret (Inr p)))
                 (\<lambda>e. ret (Inl e))) (\<lambda>out.
     case out of
       Inl e \<Rightarrow> bindE (getsE (\<lambda>s. l_commands_idempotent (leader s))) (\<lambda>idem.
         if \<not> idem
         then seqE (log_do (set_broken (log E)))
                (seqE (report_command_result r None (Some (format_exc e))) (deck_stop E True))
         else report_command_result r None (Some (format_exc e)))
     | Inr (result, err) \<Rightarrow> seqE (log_do (mark_applied (log E) (rec_index r)))
         (report_command_result r result err))"

definition apply_ready :: "('l, 'a) env \<Rightarrow> LogRec \<Rightarrow> int \<Rightarrow> ('l, 'a, unit) act" where
  "apply_ready E r i = bindE (if i = rec_index r then ret r else read_rec E i) (\<lambda>t_rec.
     case code t_rec of
       client_command \<Rightarrow> run_command_locally E t_rec
     | cluster_config \<Rightarrow> cluster_config_vote_passed E t_rec
     | term_start \<Rightarrow> ret ())"

definition process_ready_log_record :: "('l, 'a) env \<Rightarrow> LogRec \<Rightarrow> ('l, 'a, unit) act" where
  "process_ready_log_record E r =
     bindE (log_get get_commit_index E) (\<lambda>ci.
     seqE (whenE (rec_index r > ci) (log_do (mark_committed (log E) (rec_index r))))
     (bindE (log_get get_applied_index E) (\<lambda>ai.
      whenE (rec_index r > ai) (forE (py_range (ai + 1) (rec_index r + 1)) (apply_ready E r)))))"

text \<open>The votes counted for a record, and how many are needed.\<close>

definition count_ayes :: "bool \<Rightarrow> uri \<Rightarrow> LogVoteTracker \<Rightarrow> nat" where
  "count_ayes leaving me v = length (filter (\<lambda>u. \<not> (leaving \<and> u = me) \<and> dict_get (lvt_votes v) u = Some True) (voters v))"

definition win_count :: "bool \<Rightarrow> LogVoteTracker \<Rightarrow> nat" where
  "win_count leaving v = half_up (length (voters v) - (if leaving then 1 else 0))"

definition record_vote :: "uri \<Rightarrow> bool \<Rightarrow> LogVoteTracker \<Rightarrow> LogVoteTracker" where
  "record_vote u ok v = v\<lparr>lvt_votes := dict_set u ok (lvt_votes v)\<rparr>"

text \<open>
  One vote tracker of a reply. The tracker object is changed in place, which shows in
  \<open>log_vote_trackers\<close> while it is there; the tracker deleted is that of the message's last entry.
\<close>

definition assess_one :: "('l, 'a) env \<Rightarrow> uri \<Rightarrow> bool \<Rightarrow> int \<Rightarrow> int \<times> LogVoteTracker \<Rightarrow> ('l, 'a, unit) act" where
  "assess_one E u ok last_entry = (\<lambda>(k, v).
     let v' = record_vote u ok v in
     bindE (getsE (\<lambda>s. exit_in_progress (leader s))) (\<lambda>leaving.
     seqE (leader_mod (\<lambda>l. if k \<in> set (dict_keys (log_vote_trackers l))
             then l\<lparr>log_vote_trackers := dict_set k v' (log_vote_trackers l)\<rparr> else l))
     (seqE (if length (lvt_votes v') = length (voters v')
            then bindE (getsE (\<lambda>s. last_entry \<in> set (dict_keys (log_vote_trackers (leader s))))) (\<lambda>there.
              if there then leader_mod (\<lambda>l. l\<lparr>log_vote_trackers := dict_del last_entry (log_vote_trackers l)\<rparr>)
              else throw KeyError)
            else ret ())
     (whenE (count_ayes leaving (my_uri E) v' \<ge> win_count leaving v')
        (process_ready_log_record E (lvt_log_rec v'))))))"

definition entry_trackers :: "(int \<times> LogVoteTracker) list \<Rightarrow> LogRec list \<Rightarrow> (int \<times> LogVoteTracker) list" where
  "entry_trackers d es = concat (map (\<lambda>e. case dict_get d (rec_index e) of None \<Rightarrow> [] | Some v \<Rightarrow> [(rec_index e, v)]) es)"

definition assess_log_vote :: "('l, 'a) env \<Rightarrow> LogRec list \<Rightarrow> uri \<Rightarrow> bool \<Rightarrow> ('l, 'a, unit) act" where
  "assess_log_vote E es u ok = bindE (getsE (\<lambda>s. entry_trackers (log_vote_trackers (leader s)) es)) (\<lambda>vs.
     forE vs (assess_one E u ok (rec_index (last es))))"

section \<open>Append responses\<close>

definition entries_of :: "message \<Rightarrow> LogRec list" where
  "entries_of m = (case m of AppendEntriesMessage h es ci \<Rightarrow> es | _ \<Rightarrow> [])"

definition in_flight :: "int \<Rightarrow> (int \<times> MessageTracker) list \<Rightarrow> bool" where
  "in_flight mi pending = list_ex (\<lambda>(_, mt). list_ex (\<lambda>e. rec_index e > mi) (entries_of (mt_message mt))) pending"

definition direct_response :: "('l, 'a) env \<Rightarrow> log_hdr \<Rightarrow> int \<Rightarrow> bool \<Rightarrow> ('l, 'a, unit) act" where
  "direct_response E h mi ok =
     (if ok then bindE (log_get get_last_index E) (\<lambda>local_last.
        if mi = local_last then ret () else send_catchup E (sender h) mi)
      else send_backdown E h mi)"

text \<open>Count a reply to a broadcast; the answer tells whether the broadcast was still tracked.\<close>

definition note_broadcast_reply :: "int \<Rightarrow> ('l, 'a, bool) act" where
  "note_broadcast_reply b = bindE (getsE (\<lambda>s. dict_get (broadcast_trackers (leader s)) b)) (\<lambda>bo.
     case bo of None \<Rightarrow> ret False
     | Some bt \<Rightarrow> seqE (leader_mod (\<lambda>l. l\<lparr>broadcast_trackers :=
           (if bt_reply_count bt + 1 = int (length (bt_followers bt)) then dict_del b (broadcast_trackers l)
            else dict_set b (bt\<lparr>bt_reply_count := bt_reply_count bt + 1\<rparr>) (broadcast_trackers l))\<rparr>))
         (ret True))"

definition broadcast_response :: "('l, 'a) env \<Rightarrow> MessageTracker \<Rightarrow> int \<Rightarrow> log_hdr \<Rightarrow> int \<Rightarrow> bool \<Rightarrow> ('l, 'a, unit) act" where
  "broadcast_response E mt b h mi ok = bindE (note_broadcast_reply b) (\<lambda>tracked.
     if tracked \<and> log_rec_ids mt = [] then whenE (\<not> ok) (send_backdown E h mi)
     else seqE (assess_log_vote E (entries_of (mt_message mt)) (sender h) ok)
       (bindE (log_get get_last_index E) (\<lambda>local_last.
        bindE (getsE (\<lambda>s. messages_to (sender h) (leader s))) (\<lambda>pending.
        whenE (mi < local_last \<and> \<not> in_flight mi pending) (send_catchup E (sender h) mi)))))"

definition on_append_entries_response ::
  "('l, 'a) env \<Rightarrow> message \<Rightarrow> log_hdr \<Rightarrow> int \<Rightarrow> bool \<Rightarrow> uri option \<Rightarrow> int \<Rightarrow> ('l, 'a, unit) act" where
  "on_append_entries_response E m h mi ok ldr orig =
     bindE (tracker_for_follower E (sender h)) (\<lambda>tr.
     seqE (tracker_mod (sender h) (\<lambda>tr. tr\<lparr>matchIndex := mi,
            nextIndex := (if mi = nextIndex tr then nextIndex tr + 1 else nextIndex tr)\<rparr>))
     (bindE (if add_loading tr then note_loading_progress E (sender h) mi else ret True) (\<lambda>go.
      whenE go
        (bindE (getsE (\<lambda>s. dict_get (messages_to (sender h) (leader s)) orig)) (\<lambda>mto.
         case mto of None \<Rightarrow> ret ()
         | Some mt \<Rightarrow> seqE (leader_mod (drop_message (sender h) orig))
             (case mt_broadcast_id mt of
                None \<Rightarrow> direct_response E h mi ok
              | Some b \<Rightarrow> broadcast_response E mt b h mi ok))))))"

section \<open>Client commands\<close>

text \<open>
  \<open>Leader.run_command\<close> up to its wait: either an immediate answer or the index of the log record the
  caller waits for. \<open>await_command\<close> is one look at the future of that command; \<open>None\<close> means the caller
  still waits. The caller's own cancellation is not modelled.
\<close>

definition leader_run_command :: "('l, 'a) env \<Rightarrow> pystr option \<Rightarrow> ('l, 'a, CommandResult + int) act" where
  "leader_run_command E cmd = bindE (getsE (\<lambda>s. accepting_commands (leader s))) (\<lambda>acc.
     if \<not> acc then ret (Inl ((new_CommandResult cmd)\<lparr>cr_retry := Flag True\<rparr>))
     else bindE new_serial (\<lambda>sn. bindE (log_get get_term E) (\<lambda>t.
       bindE (log_do (log_append (log E)
         ((new_LogRec client_command t cmd)\<lparr>leader_id := Some (my_uri E), serial := Some sn\<rparr>))) (\<lambda>r.
       seqE (leader_mod (\<lambda>l. l\<lparr>
           active_commands := filter (\<lambda>i. i \<noteq> rec_index r) (active_commands l) @ [rec_index r],
           command_recs := dict_set (rec_index r) \<lparr>cmd_serial = sn, cmd_log_rec = r, cmd_result = None,
             cmd_error = None, cmd_done = False\<rparr> (command_recs l)\<rparr>))
       (seqE (broadcast_log_record E r)
       (bindE (getsE role) (\<lambda>ro. if ro = RoleLeader then ret (Inr (rec_index r)) else throw AttributeError)))))))"

definition retire_command :: "int \<Rightarrow> Leader \<Rightarrow> Leader" where
  "retire_command i l = l\<lparr>active_commands := filter (\<lambda>k. k \<noteq> i) (active_commands l),
     command_counter := command_counter l + 1\<rparr>"

definition await_command :: "int \<Rightarrow> time \<Rightarrow> time \<Rightarrow> ('l, 'a, CommandResult option) act" where
  "await_command i start limit = bindE (getsE (\<lambda>s. (dict_get (command_recs (leader s)) i, now s))) (\<lambda>(co, clock).
     bindE (some_or KeyError co) (\<lambda>c.
     let base = new_CommandResult (command (cmd_log_rec c)) in
     if cmd_done c
     then seqE (leader_mod (retire_command i))
            (ret (Some (base\<lparr>cr_result := cmd_result c, cr_error := cmd_error c\<rparr>)))
     else if clock - start \<ge> limit
     then seqE (leader_mod (retire_command i))
            (ret (Some (base\<lparr>cr_timeout_expired := Boxed True, cr_retry := Boxed False\<rparr>)))
     else ret None))"

section \<open>The role\<close>

definition leader_start :: "('l, 'a) env \<Rightarrow> ('l, 'a, unit) act" where
  "leader_start E =
     seqE base_start
     (bindE get_cluster_node_ids (\<lambda>us.
     seqE (forE us (\<lambda>u. bindE (tracker_for_follower E u) (\<lambda>_. ret ())))
     (bindE (get_cluster_config E) (\<lambda>c.
     seqE (leader_mod (\<lambda>l. l\<lparr>l_commands_idempotent := commands_idempotent (settings c)\<rparr>))
     (bindE (get_heartbeat_period E) (\<lambda>d.
     seqE (role_run_after d ScheduledSendHeartbeats)
     (bindE (log_get get_term E) (\<lambda>t.
     bindE (get_cluster_config_json_string E) (\<lambda>cmd.
     bindE (log_do (log_append (log E)
       ((new_LogRec term_start t (Some cmd))\<lparr>leader_id := Some (my_uri E)\<rparr>)))
     (broadcast_log_record E))))))))))"

definition leader_term_expired :: "('l, 'a) env \<Rightarrow> message \<Rightarrow> int \<Rightarrow> ('l, 'a, bool) act" where
  "leader_term_expired E m t =
     seqE (deck_set_term E t)
     (seqE notify_pending_commands_on_demotion (seqE (demote_and_handle E (Some m)) (ret False)))"

definition on_membership_change_message :: "('l, 'a) env \<Rightarrow> message \<Rightarrow> msg_hdr \<Rightarrow> ChangeOp \<Rightarrow> uri \<Rightarrow> ('l, 'a, unit) act" where
  "on_membership_change_message E m h op tgt = do_node_inout E op tgt (Some m)"

definition do_node_exit :: "('l, 'a) env \<Rightarrow> uri \<Rightarrow> ('l, 'a, unit) act" where
  "do_node_exit E u = do_node_inout E op_remove u None"

definition leader_routes :: "('l, 'a) env \<Rightarrow> ('l, 'a) routes" where
  "leader_routes E =
     \<lparr>r_append_entries = (\<lambda>m h es ci. send_reject_append_response E m h),
      r_append_response = on_append_entries_response E,
      r_vote_request = base_on_vote_request E,
      r_vote_response = (\<lambda>m h v. ret ()),
      r_pre_vote_response = (\<lambda>m h v. ret ()),
      r_membership_change = on_membership_change_message E,
      r_snapshot = (\<lambda>m h off dn dat cc. base_on_snapshot_message E m h off),
      r_snapshot_response = (\<lambda>m h off ok. on_snapshot_response_message E (sender h) ok)\<rparr>"

definition leader_on_message :: "('l, 'a) env \<Rightarrow> message \<Rightarrow> ('l, 'a, unit) act" where
  "leader_on_message E =
     base_on_message E (\<lambda>s. l_stopped (leader s)) (leader_term_expired E) (leader_routes E)"

end
