(* ===== verification/Candidate_Role.thy ===== *)
theory Candidate_Role
  imports Leader_Role
begin

text \<open>
  \<open>Candidate\<close> of \<open>src/raftengine/roles/candidate.py\<close> (its campaign start is in \<open>Campaign\<close>): counting votes
  and pre-votes, giving way to a leader or to a newer term, and \<open>Deck.win_vote\<close>, which turns the
  candidate into the leader.
\<close>

section \<open>Winning\<close>

definition win_vote :: "('l, 'a) env \<Rightarrow> int \<Rightarrow> ('l, 'a, unit) act" where
  "win_vote E new_term =
     seqE (stop_role E)
     (bindE (get_cluster_config E) (\<lambda>c.
     seqE (modE (\<lambda>s. s\<lparr>role := RoleLeader, leader := new_Leader (use_check_quorum (settings c))\<rparr>))
     (seqE (set_leader_uri (Some (my_uri E)))
     (seqE (leader_start E)
     (emit_if_active (RoleChangeEvent RoleLeader))))))"

section \<open>Counting\<close>

definition tally :: "(uri \<times> bool option) list \<Rightarrow> nat" where
  "tally vs = length (filter (\<lambda>p. snd p = Some True) vs)"

definition campaign_lost :: "('l, 'a) env \<Rightarrow> OpDetail \<Rightarrow> ('l, 'a, unit) act" where
  "campaign_lost E d =
     seqE cancel_role_run_after
     (bindE (get_election_timeout E) (\<lambda>t.
     seqE (role_run_after t StartCampaign)
     (seqE (record_op_detail d) (record_op_detail start_new_election))))"

definition on_vote_response :: "('l, 'a) env \<Rightarrow> log_hdr \<Rightarrow> bool \<Rightarrow> ('l, 'a, unit) act" where
  "on_vote_response E h v = bindE (getsE (\<lambda>s. c_term (candidate s))) (\<lambda>t.
     whenE (\<not> msg_term h < t)
       (seqE (candidate_mod (\<lambda>c. c\<lparr>votes := dict_set (sender h) (Some v) (votes c), c_reply_count := c_reply_count c + 1\<rparr>))
       (bindE (getsE candidate) (\<lambda>c.
        if 2 * tally (votes c) > length (votes c)
        then seqE cancel_role_run_after (seqE (win_vote E (c_term c)) (record_op_detail won))
        else whenE (2 * (c_reply_count c + 1) > int (length (votes c))) (campaign_lost E lost)))))"

definition on_pre_vote_response :: "('l, 'a) env \<Rightarrow> log_hdr \<Rightarrow> bool \<Rightarrow> ('l, 'a, unit) act" where
  "on_pre_vote_response E h v = bindE (getsE (\<lambda>s. c_term (candidate s))) (\<lambda>t.
     whenE (\<not> msg_term h \<le> t)
       (seqE (candidate_mod (\<lambda>c. c\<lparr>pre_votes := dict_set (sender h) (Some v) (pre_votes c), c_reply_count := c_reply_count c + 1\<rparr>))
       (bindE (getsE candidate) (\<lambda>c.
        if 2 * tally (pre_votes c) > length (pre_votes c)
        then seqE cancel_role_run_after (seqE (record_op_detail pre_won) (start_campaign_base E))
        else whenE (2 * (c_reply_count c + 1) > int (length (pre_votes c))) (campaign_lost E pre_lost)))))"

section \<open>Giving way\<close>

definition candidate_term_expired :: "('l, 'a) env \<Rightarrow> message \<Rightarrow> int \<Rightarrow> ('l, 'a, bool) act" where
  "candidate_term_expired E m t =
     seqE (record_op_detail newer_term)
     (seqE (deck_set_term E t) (seqE (demote_and_handle E (Some m)) (ret False)))"

definition candidate_on_append_entries :: "('l, 'a) env \<Rightarrow> message \<Rightarrow> log_hdr \<Rightarrow> ('l, 'a, unit) act" where
  "candidate_on_append_entries E m h = bindE (log_get get_term E) (\<lambda>t.
     if msg_term h = t then seqE (record_op_detail older_term) (demote_and_handle E (Some m))
     else send_reject_append_response E m h)"

section \<open>The role\<close>

definition candidate_routes :: "('l, 'a) env \<Rightarrow> ('l, 'a) routes" where
  "candidate_routes E =
     \<lparr>r_append_entries = (\<lambda>m h es ci. candidate_on_append_entries E m h),
      r_append_response = (\<lambda>m h mi ok l orig. ret ()),
      r_vote_request = base_on_vote_request E,
      r_vote_response = (\<lambda>m. on_vote_response E),
      r_pre_vote_response = (\<lambda>m. on_pre_vote_response E),
      r_membership_change = base_on_membership_change_message E,
      r_snapshot = (\<lambda>m h off dn dat cc. base_on_snapshot_message E m h off),
      r_snapshot_response = (\<lambda>m h off ok. ret ())\<rparr>"

definition candidate_on_message :: "('l, 'a) env \<Rightarrow> message \<Rightarrow> ('l, 'a, unit) act" where
  "candidate_on_message E =
     base_on_message E (\<lambda>s. c_stopped (candidate s)) (candidate_term_expired E) (candidate_routes E)"

end
