(* ===== verification/Deck.thy ===== *)
theory Deck
  imports Candidate_Role
begin

text \<open>
  \<open>Deck\<close> of \<open>src/raftengine/deck/deck.py\<close>: dispatch of messages and timers to the current role, the
  operations of \<open>DeckAPI\<close>, the join and exit waiters, and the event loop that runs tasks and timers, as
  the step relation \<open>loop_step\<close>. \<open>Deck.stopped\<close> is never set by the code, so its tests are left out. An
  operation that waits for something is split at the wait; the part after it is one look at what it
  waits for. In particular \<open>command_turn\<close> is one look at a command's future; the code awaits it with \<open>wait_for\<close>, and nothing
  here says when the look happens. A step of \<open>loop_step\<close> runs a method to its end, sends included: the pilot's
  \<open>send_message\<close> and \<open>send_response\<close> are taken to return without waiting, as those of the simulated servers do, which append to
  a queue. With a pilot that waits for the network a method is suspended in its sends and other steps
  come in between; \<open>Suspension_Props\<close> cuts a campaign there. The pauses inside \<open>stop\<close> are not steps. Exceptions of tasks and
  timer callbacks are lost, as nobody awaits those.
\<close>

section \<open>Construction\<close>

definition new_Deck :: Deck where
  "new_Deck = \<lparr>started = False, role_async_handle = None, message_problem_history = [], joining_cluster = False,
     join_result = None, join_waiter_handle = False, exiting_cluster = False, exit_result = None,
     exit_waiter_handle = False, await_message = False, deck_active_messages = []\<rparr>"

definition new_ClusterOps :: ClusterOps where
  "new_ClusterOps = \<lparr>follower_trackers = [], current_config = None, leader_uri = None, loading_data = None,
     loading_round_timer_handle = None, remove_message = None\<rparr>"

definition new_node :: "'l \<Rightarrow> 'a \<Rightarrow> time \<Rightarrow> SerialNumberGenerator \<Rightarrow> ('l, 'a) node" where
  "new_node l a clock g = \<lparr>n_log = l, n_app = a, now = clock, draws = 0, serials = g, outbox = [], timers = [],
     next_timer = 0, tasks = [], event_control = new_EventControl, ops = new_ClusterOps, deck = new_Deck,
     role = RoleFollower, follower = new_Follower clock, candidate = new_Candidate False False,
     leader = new_Leader False\<rparr>"

section \<open>Dispatch\<close>

definition role_on_message :: "('l, 'a) env \<Rightarrow> message \<Rightarrow> ('l, 'a, unit) act" where
  "role_on_message E m = bindE (getsE role) (\<lambda>r. case r of
       RoleFollower \<Rightarrow> follower_on_message E m
     | RoleCandidate \<Rightarrow> candidate_on_message E m
     | RoleLeader \<Rightarrow> leader_on_message E m)"

definition inner_on_message :: "('l, 'a) env \<Rightarrow> message \<Rightarrow> ('l, 'a, unit) act" where
  "inner_on_message E = inner_on_message_with E (role_on_message E)"

definition deck_decode :: "pystr \<Rightarrow> ('l, 'a, message) act" where
  "deck_decode data = (\<lambda>s. zoomE serials (\<lambda>g s. s\<lparr>serials := g\<rparr>) (decode_message (now s) data) s)"

definition on_message :: "('l, 'a) env \<Rightarrow> pystr \<Rightarrow> ('l, 'a, unit) act" where
  "on_message E data =
     tryE (bindE (deck_decode data) (\<lambda>m.
       bindE (getsE (\<lambda>s. await_message (deck s))) (\<lambda>aw.
       if aw then inner_on_message E m else create_task (InnerOnMessage m))))
     (\<lambda>e. seqE (record_message_problem E (ProblemBytes data e)) (emit_if_active (ErrorEvent (format_exc e))))"

definition role_start :: "('l, 'a) env \<Rightarrow> ('l, 'a, unit) act" where
  "role_start E = bindE (getsE role) (\<lambda>r. case r of
       RoleFollower \<Rightarrow> follower_start E | RoleCandidate \<Rightarrow> candidate_start E | RoleLeader \<Rightarrow> leader_start E)"

text \<open>\<open>_role_after_runner\<close>; the targets are methods of the role that set the timer.\<close>

definition role_after_runner :: "('l, 'a) env \<Rightarrow> role_target \<Rightarrow> ('l, 'a, unit) act" where
  "role_after_runner E target = bindE (getsE (\<lambda>s. role_stopped s \<or> joining_cluster (deck s))) (\<lambda>skip.
     whenE (\<not> skip) (case target of
         ContactChecker \<Rightarrow> contact_checker E
       | ElectionTimedOut \<Rightarrow> election_timed_out E
       | StartCampaign \<Rightarrow> start_campaign E
       | ScheduledSendHeartbeats \<Rightarrow> scheduled_send_heartbeats E))"

section \<open>Starting and joining\<close>

definition deck_start :: "('l, 'a) env \<Rightarrow> ('l, 'a, unit) act" where
  "deck_start E = bindE (get_cluster_config E) (\<lambda>_.
     bindE (log_get get_broken E) (\<lambda>b.
     if b then throw LogBroken
     else seqE (deck_mod (\<lambda>d. d\<lparr>started := True\<rparr>))
       (seqE (log_do (set_uri (log E) (my_uri E)))
       (seqE (role_start E)
       (bindE (getsE role) (\<lambda>r. emit_if_active (RoleChangeEvent r)))))))"

definition start_and_join :: "('l, 'a) env \<Rightarrow> uri \<Rightarrow> time \<Rightarrow> ('l, 'a, unit) act" where
  "start_and_join E ldr limit = bindE (get_cluster_config E) (\<lambda>c.
     if ldr \<notin> set (dict_keys (nodes c)) then throw (LeaderUnknown ldr)
     else seqE (deck_mod (\<lambda>d. d\<lparr>joining_cluster := True\<rparr>))
       (seqE (deck_start E)
       (seqE (deck_mod (\<lambda>d. d\<lparr>join_result := None\<rparr>))
       (bindE (getsE role) (\<lambda>r.
        if r \<noteq> RoleFollower then throw AttributeError
        else seqE (join_cluster E ldr)
          (seqE (deck_mod (\<lambda>d. d\<lparr>join_waiter_handle := True\<rparr>)) (create_task (JoinWaiter None limit))))))))"

definition join_waiter_end :: "('l, 'a) env \<Rightarrow> ('l, 'a, unit) act" where
  "join_waiter_end E = bindE (getsE (\<lambda>s. join_result (deck s) = Some True)) (\<lambda>ok.
     seqE (deck_mod (\<lambda>d. d\<lparr>join_result := None\<rparr>))
     (seqE (if ok
        then bindE (get_cluster_config E) (\<lambda>c.
          seqE (whenE (pending_node c \<noteq> None) (bindE (finish_node_add E (my_uri E)) (\<lambda>_. ret ())))
          (emit_if_active (MembershipChangeDoneEvent op_add (my_uri E))))
        else emit_if_active (MembershipChangeAbortedEvent op_add (my_uri E)))
     (seqE (app_do (join_callback E ok (my_uri E)))
     (seqE (deck_mod (\<lambda>d. d\<lparr>joining_cluster := False\<rparr>))
     (seqE (whenE (\<not> ok) (deck_stop E False))
     (deck_mod (\<lambda>d. d\<lparr>join_waiter_handle := False\<rparr>)))))))"

definition join_waiter :: "('l, 'a) env \<Rightarrow> time option \<Rightarrow> time \<Rightarrow> ('l, 'a, unit) act" where
  "join_waiter E begun limit = bindE (getsE (\<lambda>s. (now s, deck s))) (\<lambda>(clock, d).
     let start = or_else clock begun in
     if clock - start < limit \<and> join_result d = None \<and> joining_cluster d
     then create_task (JoinWaiter (Some start) limit)
     else join_waiter_end E)"

section \<open>Leaving\<close>

definition exit_cluster :: "('l, 'a) env \<Rightarrow> time \<Rightarrow> ('l, 'a, unit) act" where
  "exit_cluster E limit =
     seqE (deck_mod (\<lambda>d. d\<lparr>exiting_cluster := True, exit_result := None\<rparr>))
     (bindE (getsE role) (\<lambda>r.
     seqE (if r = RoleLeader then do_node_exit E (my_uri E) else send_self_exit E)
     (bindE (get_cluster_config E) (\<lambda>_.
     seqE (deck_mod (\<lambda>d. d\<lparr>exit_waiter_handle := True\<rparr>)) (create_task (ExitWaiter None limit))))))"

definition exit_waiter_end :: "('l, 'a) env \<Rightarrow> ('l, 'a, unit) act" where
  "exit_waiter_end E = bindE (getsE (\<lambda>s. exit_result (deck s) = Some True)) (\<lambda>ok.
     seqE (deck_mod (\<lambda>d. d\<lparr>exit_result := None\<rparr>))
     (seqE (emit_if_active (if ok then MembershipChangeDoneEvent op_remove (my_uri E)
                            else MembershipChangeAbortedEvent op_remove (my_uri E)))
     (seqE (app_do (exit_callback E ok (my_uri E)))
     (seqE (deck_mod (\<lambda>d. d\<lparr>exiting_cluster := False\<rparr>))
     (whenE ok (seqE (deck_mod (\<lambda>d. d\<lparr>exit_waiter_handle := False\<rparr>)) (deck_stop E False)))))))"

definition exit_waiter :: "('l, 'a) env \<Rightarrow> time option \<Rightarrow> time \<Rightarrow> ('l, 'a, unit) act" where
  "exit_waiter E begun limit = bindE (getsE (\<lambda>s. (now s, deck s))) (\<lambda>(clock, d).
     let start = or_else clock begun in
     if clock - start < limit \<and> exit_result d = None \<and> exiting_cluster d
     then create_task (ExitWaiter (Some start) limit)
     else if \<not> exiting_cluster d then deck_mod (\<lambda>d. d\<lparr>exit_waiter_handle := False\<rparr>)
     else exit_waiter_end E)"

section \<open>Commands\<close>

definition redirected :: "pystr option \<Rightarrow> uri option \<Rightarrow> CommandResult" where
  "redirected cmd ldr = (new_CommandResult cmd)\<lparr>cr_redirect := ldr, cr_retry := Flag (ldr = None)\<rparr>"

definition run_command :: "('l, 'a) env \<Rightarrow> pystr option \<Rightarrow> ('l, 'a, CommandResult + int) act" where
  "run_command E cmd = bindE (getsE (\<lambda>s. (role s, leader_uri (ops s)))) (\<lambda>(r, ldr).
     if r = RoleLeader then leader_run_command E cmd
     else if r = RoleFollower \<and> ldr \<noteq> None then ret (Inl ((new_CommandResult cmd)\<lparr>cr_redirect := ldr\<rparr>))
     else ret (Inl ((new_CommandResult cmd)\<lparr>cr_retry := Flag True\<rparr>)))"

definition command_turn :: "pystr option \<Rightarrow> int \<Rightarrow> time \<Rightarrow> time \<Rightarrow> ('l, 'a, CommandResult option) act" where
  "command_turn cmd i start limit = bindE (await_command i start limit) (\<lambda>res.
     case res of None \<Rightarrow> ret None
     | Some res \<Rightarrow> bindE (getsE (\<lambda>s. (role s, leader_uri (ops s)))) (\<lambda>(r, ldr).
         ret (Some (if r \<noteq> RoleLeader then redirected cmd ldr else res))))"

section \<open>Snapshots, settings, transfer\<close>

text \<open>\<open>take_snapshot\<close> up to the wait for a new leader: whether a snapshot is to be taken at all.\<close>

definition first_other :: "uri \<Rightarrow> uri list \<Rightarrow> uri" where
  "first_other me us = (case filter (\<lambda>u. u \<noteq> me) us of [] \<Rightarrow> ''None'' | u # _ \<Rightarrow> u)"

definition take_snapshot_begin :: "('l, 'a) env \<Rightarrow> ('l, 'a, bool) act" where
  "take_snapshot_begin E =
     bindE (log_get get_applied_index E) (\<lambda>i. bindE (log_get get_first_index E) (\<lambda>first.
     case first of None \<Rightarrow> ret False
     | Some f \<Rightarrow>
       if f \<noteq> 0 \<and> i \<noteq> 0 \<and> i > f
       then bindE (getsE role) (\<lambda>r.
         seqE (whenE (r = RoleLeader) (bindE get_cluster_node_ids (\<lambda>us.
                 bindE (transfer_power E (first_other (my_uri E) us) None) (\<lambda>_. ret ()))))
         (ret True))
       else ret False))"

definition make_snapshot :: "('l, 'a) env \<Rightarrow> ('l, 'a, SnapShot) act" where
  "make_snapshot E = seqE (role_stop E)
     (bindE (log_get get_applied_index E) (\<lambda>i. bindE (read_rec E i) (\<lambda>r.
      bindE (app_do (create_snapshot E i (rec_term r))) (\<lambda>sn.
      seqE (log_do (install_snapshot (log E) sn))
      (seqE (modE (\<lambda>s. s\<lparr>role := RoleFollower, follower := new_Follower (now s)\<rparr>))
      (seqE (follower_start E) (ret sn)))))))"

definition take_snapshot_turn :: "('l, 'a) env \<Rightarrow> time \<Rightarrow> time \<Rightarrow> ('l, 'a, SnapShot option) act" where
  "take_snapshot_turn E start limit = bindE (getsE (\<lambda>s. (now s, role s))) (\<lambda>(clock, r).
     if r = RoleLeader
     then (if clock - start < limit then ret None else throw SnapshotTransferFailed)
     else bindE (make_snapshot E) (\<lambda>sn. ret (Some sn)))"

definition update_settings :: "('l, 'a) env \<Rightarrow> ClusterSettings \<Rightarrow> ('l, 'a, unit) act" where
  "update_settings E st = bindE (getsE role) (\<lambda>r.
     if r \<noteq> RoleLeader then throw MustBeLeader else do_update_settings E st)"

definition deck_transfer_power :: "('l, 'a) env \<Rightarrow> uri \<Rightarrow> ('l, 'a, time option) act" where
  "deck_transfer_power E u = bindE (getsE role) (\<lambda>r.
     if r = RoleLeader then transfer_power E u None else throw TransferNotLeader)"

definition get_message_problem_history :: "bool \<Rightarrow> ('l, 'a, problem list) act" where
  "get_message_problem_history clear = bindE (getsE (\<lambda>s. message_problem_history (deck s))) (\<lambda>ps.
     seqE (whenE clear (deck_mod (\<lambda>d. d\<lparr>message_problem_history := []\<rparr>))) (ret ps))"

definition get_leader_uri :: "('l, 'a) env \<Rightarrow> ('l, 'a, uri option) act" where
  "get_leader_uri E = bindE (get_cluster_config E) (\<lambda>_. getsE (\<lambda>s. leader_uri (ops s)))"

definition is_leader :: "('l, 'a, bool) act" where
  "is_leader = getsE (\<lambda>s. role s = RoleLeader)"

definition add_event_handler :: "EventHandler \<Rightarrow> ('l, 'a, unit) act" where
  "add_event_handler h = zoomE event_control (\<lambda>c s. s\<lparr>event_control := c\<rparr>) (add_handler h)"

definition remove_event_handler :: "EventHandler \<Rightarrow> ('l, 'a, unit) act" where
  "remove_event_handler h = zoomE event_control (\<lambda>c s. s\<lparr>event_control := c\<rparr>) (remove_handler h)"

section \<open>The event loop\<close>

definition run_task :: "('l, 'a) env \<Rightarrow> task \<Rightarrow> ('l, 'a, unit) act" where
  "run_task E t = (case t of
       InnerOnMessage m \<Rightarrow> inner_on_message E m
     | RecordSentMessage m \<Rightarrow> record_sent_message E m
     | TransferRunner u lr \<Rightarrow> transfer_runner E u lr
     | TransferWait u lr start limit \<Rightarrow> transfer_wait E u lr start limit
     | JoinWaiter begun limit \<Rightarrow> join_waiter E begun limit
     | ExitWaiter begun limit \<Rightarrow> exit_waiter E begun limit
     | OnEvent h e \<Rightarrow> app_do (on_event E h e))"

definition run_callback :: "('l, 'a) env \<Rightarrow> callback \<Rightarrow> ('l, 'a, unit) act" where
  "run_callback E cb = (case cb of
       RoleAfterRunner target \<Rightarrow> role_after_runner E target
     | LoadingRoundTimeout u \<Rightarrow> loading_round_timeout E u
     | DelayedExit r \<Rightarrow> delayed_exit E r)"

inductive loop_step :: "('l, 'a) env \<Rightarrow> ('l, 'a) node \<Rightarrow> ('l, 'a) node \<Rightarrow> bool" for E where
  tick: "now s \<le> clock \<Longrightarrow> loop_step E s (s\<lparr>now := clock\<rparr>)"
| task: "tasks s = t # ts \<Longrightarrow> loop_step E s (snd (run_task E t (s\<lparr>tasks := ts\<rparr>)))"
| timer: "(i, due, cb) \<in> set (timers s) \<Longrightarrow> due \<le> now s \<Longrightarrow>
    loop_step E s (snd (run_callback E cb (s\<lparr>timers := filter (\<lambda>p. fst p \<noteq> i) (timers s)\<rparr>)))"
| receive: "loop_step E s (snd (on_message E data s))"
| command: "loop_step E s (snd (run_command E cmd s))"
| command_wait: "loop_step E s (snd (command_turn cmd i start limit s))"
| start: "loop_step E s (snd (deck_start E s))"
| join: "loop_step E s (snd (start_and_join E u limit s))"
| stop: "loop_step E s (snd (deck_stop E False s))"
| exit: "loop_step E s (snd (exit_cluster E limit s))"
| snapshot: "loop_step E s (snd (take_snapshot_begin E s))"
| snapshot_wait: "loop_step E s (snd (take_snapshot_turn E start limit s))"
| settings: "loop_step E s (snd (update_settings E st s))"
| transfer: "loop_step E s (snd (deck_transfer_power E u s))"
| problems: "loop_step E s (snd (get_message_problem_history clear s))"
| add_events: "loop_step E s (snd (add_event_handler h s))"
| remove_events: "loop_step E s (snd (remove_event_handler h s))"
| ask_leader: "loop_step E s (snd (get_leader_uri E s))"

abbreviation reachable :: "('l, 'a) env \<Rightarrow> ('l, 'a) node \<Rightarrow> ('l, 'a) node \<Rightarrow> bool" where
  "reachable E \<equiv> (loop_step E)\<^sup>*\<^sup>*"

end
