(* ===== verification/Engine_Rel.thy ===== *)
theory Engine_Rel
  imports Deck
begin

text \<open>
  Relations between engine states that every step keeps. The engine changes a node through few
  primitives: calls of its log, a serial number, a sent message, timers, the event registry, the clock;
  almost everything else it writes (trackers, deck fields, tasks, application state) is bookkeeping. What
  is not is the role and the term: a change of role, a campaign, and a newer term in a message.
  The locales build on each other in the order in which the code calls: \<open>engine_prims\<close> has the laws of the
  primitives, and each further locale adds the laws of the methods that change the role or the term
  once the methods they call are covered. Whoever shows the laws gets that every step of the event
  loop keeps the relation. \<open>engine_rel\<close> is the common case of a relation that is indifferent to
  roles and terms, for which all those laws follow from the primitives.
\<close>

section \<open>Primitives\<close>

text \<open>The calls the engine makes on its log; those of \<open>quiet_call\<close> change neither the term nor the configuration.\<close>

inductive quiet_call :: "'l LogAPI \<Rightarrow> 'l \<Rightarrow> 'l \<Rightarrow> bool" for A where
  "quiet_call A l (snd (set_broken A l))"
| "quiet_call A l (snd (set_uri A u l))"
| "quiet_call A l (snd (set_voted_for A v l))"
| "quiet_call A l (snd (log_append A r l))"
| "quiet_call A l (snd (mark_committed A i l))"
| "quiet_call A l (snd (mark_applied A i l))"
| "quiet_call A l (snd (log_read A io l))"
| "quiet_call A l (snd (delete_all_from A i l))"
| "quiet_call A l (snd (install_snapshot A sn l))"

inductive log_call :: "'l LogAPI \<Rightarrow> 'l \<Rightarrow> 'l \<Rightarrow> bool" for A where
  quiet: "quiet_call A l l' \<Longrightarrow> log_call A l l'"
| call_term: "log_call A l (snd (set_term A t l))"
| call_config: "log_call A l (snd (save_cluster_config A c l))"

text \<open>States that differ in bookkeeping only.\<close>

definition same_core :: "('l, 'a) node \<Rightarrow> ('l, 'a) node \<Rightarrow> bool" where
  "same_core s t \<longleftrightarrow> n_log t = n_log s \<and> serials t = serials s \<and> outbox t = outbox s \<and> timers t = timers s \<and>
     next_timer t = next_timer s \<and> event_control t = event_control s \<and> now t = now s \<and>
     role_async_handle (deck t) = role_async_handle (deck s)"

text \<open>The running role and its term.\<close>

definition same_office :: "('l, 'a) node \<Rightarrow> ('l, 'a) node \<Rightarrow> bool" where
  "same_office s t \<longleftrightarrow> role t = role s \<and> c_term (candidate t) = c_term (candidate s) \<and>
     c_stopped (candidate t) = c_stopped (candidate s)"

definition no_role_timer :: "callback \<Rightarrow> bool" where
  "no_role_timer cb = (case cb of RoleAfterRunner _ \<Rightarrow> False | _ \<Rightarrow> True)"

text \<open>The timers of a candidate.\<close>

definition campaign_target :: "role_target \<Rightarrow> bool" where
  "campaign_target x \<longleftrightarrow> x = ElectionTimedOut \<or> x = StartCampaign"

locale engine_prims = method_rel R for R :: "('l, 'a) node \<Rightarrow> ('l, 'a) node \<Rightarrow> bool" +
  fixes E :: "('l, 'a) env"
  assumes core: "same_core s t \<Longrightarrow> same_office s t \<Longrightarrow> R s t"
    and log_rel: "quiet_call (log E) (n_log s) l \<Longrightarrow> R s (s\<lparr>n_log := l\<rparr>)"
    and serial_rel: "R s (s\<lparr>serials := snd (generate (now s) (serials s))\<rparr>)"
    and send_rel: "R s (s\<lparr>outbox := outbox s @ [x]\<rparr>)"
    and call_rel: "no_role_timer cb \<Longrightarrow> steps R (call_later d cb)"
    and cancel_rel: "steps R (cancel_timer i)"
    and run_after_rel: "\<not> campaign_target target \<Longrightarrow> steps R (role_run_after d target)"
    and cancel_after_rel: "steps R cancel_role_run_after"
    and add_rel: "R s (s\<lparr>event_control := snd (add_handler h (event_control s))\<rparr>)"
    and remove_rel: "R s (s\<lparr>event_control := snd (remove_handler h (event_control s))\<rparr>)"
    and tick_rel: "now s \<le> clock \<Longrightarrow> R s (s\<lparr>now := clock\<rparr>)"
    and halt_rel: "steps R (set_role_stopped True)"
    and config_rel: "steps R (Cluster_Ops.get_cluster_config E)"
    and load_rel: "steps R (update_cluster_config_from_json_string E txt)"
    and add_node_rel: "steps R (start_node_add E u)" "steps R (finish_node_add E u)"
    and remove_node_rel: "steps R (start_node_remove E u)" "steps R (finish_node_remove E u)"
    and settings_rel: "steps R (save_settings E r)"
    and reverse_rel: "steps R (reverse_config_change E r)"
    and drop_rel: "steps R (k :: ('l, 'a, unit) act) \<Longrightarrow> steps R (bindE (Cluster_Ops.get_cluster_config E) (\<lambda>c.
      let c' = c\<lparr>pending_node := None\<rparr> in
      seqE (set_current c') (bindE (log_do (save_cluster_config (log E) c')) (\<lambda>_. k))))"
begin

subsection \<open>Bookkeeping and primitives\<close>

lemma ops_mod_steps: "steps R (ops_mod f)"
  by (rule stepsI, rule core) (simp_all add: ops_mod_def run same_core_def same_office_def)

lemma deck_mod_steps:
  "(\<And>d. role_async_handle (f d) = role_async_handle d) \<Longrightarrow> steps R (deck_mod f)"
  by (rule stepsI, rule core) (simp_all add: deck_mod_def run same_core_def same_office_def)

lemma follower_mod_steps: "steps R (follower_mod f)"
  by (rule stepsI, rule core) (simp_all add: follower_mod_def run same_core_def same_office_def)

lemma candidate_mod_steps:
  "(\<And>c. c_term (f c) = c_term c \<and> c_stopped (f c) = c_stopped c) \<Longrightarrow> steps R (candidate_mod f)"
  by (rule stepsI, rule core) (simp_all add: candidate_mod_def run same_core_def same_office_def)

lemma leader_mod_steps: "steps R (leader_mod f)"
  by (rule stepsI, rule core) (simp_all add: leader_mod_def run same_core_def same_office_def)

lemma app_do_steps: "steps R (app_do m)"
  by (rule stepsI, rule core) (simp_all add: app_do_def run same_core_def same_office_def split: prod.split)

lemma create_task_steps: "steps R (create_task t)"
  by (rule stepsI, rule core) (simp_all add: create_task_def run same_core_def same_office_def)

lemma modE_steps: "(\<And>s. same_core s (f s)) \<Longrightarrow> (\<And>s. same_office s (f s)) \<Longrightarrow> steps R (modE f)"
  by (rule stepsI, rule core) (simp_all add: run)

lemma log_get_steps: "steps R (log_get q E')"
  unfolding log_get_def by (rule steps_getsE)

lemma log_do_steps: "(\<And>l. quiet_call (log E) l (snd (m l))) \<Longrightarrow> steps R (log_do m)"
  using log_rel by (intro stepsI) (simp add: log_do_def run case_prod_beta)

lemma log_do_op_steps:
  "steps R (log_do (set_broken (log E)))" "steps R (log_do (set_uri (log E) u))"
  "steps R (log_do (set_voted_for (log E) v))" "steps R (log_do (log_append (log E) r))"
  "steps R (log_do (mark_committed (log E) i))" "steps R (log_do (mark_applied (log E) i))"
  "steps R (log_do (log_read (log E) io))" "steps R (log_do (delete_all_from (log E) i))"
  "steps R (log_do (install_snapshot (log E) sn))"
  by (rule log_do_steps, rule quiet_call.intros)+

lemma new_serial_steps: "steps R new_serial"
  using serial_rel by (intro stepsI) (simp add: new_serial_def run case_prod_beta)

lemma deck_decode_steps: "steps R (deck_decode data)"
proof (rule stepsI)
  fix s :: "('l, 'a) node"
  have "snd (decode_message (now s) data (serials s)) \<in> {serials s, snd (generate (now s) (serials s))}"
    unfolding decode_message_def by (auto simp: run split: prod.splits sum.splits option.splits)
  then have "snd (deck_decode data s) = s \<or>
      snd (deck_decode data s) = s\<lparr>serials := snd (generate (now s) (serials s))\<rparr>"
    by (auto simp: deck_decode_def run case_prod_beta)
  then show "R s (snd (deck_decode data s))"
    using serial_rel [of s] rel_refl [of s] by auto
qed

lemma send_message_steps: "steps R (send_message m)"
  unfolding send_message_def using send_rel by (simp add: steps_def run)

lemma send_response_steps: "steps R (send_response m r)"
  unfolding send_response_def using send_rel by (simp add: steps_def run)

lemma event_handler_steps: "steps R (add_event_handler h)" "steps R (remove_event_handler h)"
  using add_rel remove_rel
  by (auto simp: steps_def add_event_handler_def remove_event_handler_def run case_prod_beta)

lemmas base_steps =
  ops_mod_steps deck_mod_steps follower_mod_steps candidate_mod_steps leader_mod_steps app_do_steps
  create_task_steps log_get_steps log_do_op_steps new_serial_steps send_message_steps send_response_steps
  halt_rel cancel_rel run_after_rel cancel_after_rel

lemma steps_RoleName:
  "steps R a \<Longrightarrow> steps R b \<Longrightarrow> steps R c \<Longrightarrow>
   steps R (case r of RoleFollower \<Rightarrow> a | RoleCandidate \<Rightarrow> b | RoleLeader \<Rightarrow> c)"
  by (cases r) simp_all

lemma steps_RecordCode:
  "steps R a \<Longrightarrow> steps R b \<Longrightarrow> steps R c \<Longrightarrow>
   steps R (case r of term_start \<Rightarrow> a | client_command \<Rightarrow> b | cluster_config \<Rightarrow> c)"
  by (cases r) simp_all

lemma steps_ChangeOp:
  "steps R a \<Longrightarrow> steps R b \<Longrightarrow> steps R c \<Longrightarrow>
   steps R (case r of op_add \<Rightarrow> a | op_remove \<Rightarrow> b | op_assume_control \<Rightarrow> c)"
  by (cases r) simp_all

lemma steps_list:
  "steps R a \<Longrightarrow> (\<And>y ys. steps R (f y ys)) \<Longrightarrow> steps R (case xs of [] \<Rightarrow> a | y # ys \<Rightarrow> f y ys)"
  by (cases xs) simp_all

lemmas control = steps_rules steps_RoleName steps_RecordCode steps_ChangeOp steps_list

subsection \<open>Node and cluster operations\<close>

lemma node_steps:
  "steps R (mk_log_hdr u rcv t pix ptm)" "steps R (mk_hdr u rcv)" "steps R (emit e)" "steps R (emit_if_active e)"
  "steps R (record_op_detail d)" "steps R (set_leader_uri uo)"
  "steps R (note_join_done ok)" "steps R (note_exit_done ok)" "steps R (record_message_problem E p)"
  "steps R (role_stop E)" "steps R (stop_role E)"
  unfolding mk_log_hdr_def mk_hdr_def emit_def emit_if_active_def record_op_detail_def set_leader_uri_def
    note_join_done_def note_exit_done_def record_message_problem_def role_stop_def stop_role_def
  by (intro control base_steps; simp)+

lemmas node_rules = control base_steps node_steps

lemma config_steps: "steps R (set_current c)" "steps R get_cluster_node_ids"
  unfolding set_current_def get_cluster_node_ids_def by (intro node_rules; simp)+

lemma draws_steps: "steps R (modE (\<lambda>s. s\<lparr>draws := n\<rparr>))"
  by (rule modE_steps) (simp_all add: same_core_def same_office_def)

lemmas config_rules = node_rules config_rel load_rel add_node_rel remove_node_rel settings_rel reverse_rel
  config_steps draws_steps

lemma settings_steps:
  "steps R (get_heartbeat_period E)" "steps R (get_election_timeout E)" "steps R (get_election_timeout_range E)"
  "steps R (get_max_entries_per_message E)" "steps R (get_cluster_config_json_string E)"
  "steps R (plan_add_node E u)" "steps R (plan_remove_node E u)"
  unfolding get_heartbeat_period_def get_election_timeout_def get_election_timeout_range_def
    get_max_entries_per_message_def get_cluster_config_json_string_def plan_add_node_def plan_remove_node_def
  by (intro config_rules; simp)+

lemmas change_rules = config_rules settings_steps

lemma call_steps: "steps R (call_later d (LoadingRoundTimeout u))" "steps R (call_later d (DelayedExit r))"
  by (rule call_rel, simp add: no_role_timer_def)+

lemma ops_steps:
  "steps R (handle_membership_change_log_update E r)" "steps R (handle_membership_change_log_commit E r)"
  "steps R (tracker_for_follower E u)" "steps R (tracker_mod u f)" "steps R (start_loading_round_timer E u)"
  "steps R stop_loading_round_timer"
  unfolding handle_membership_change_log_update_def handle_membership_change_log_commit_def
    tracker_for_follower_def tracker_mod_def start_loading_round_timer_def stop_loading_round_timer_def
  by (intro change_rules call_steps; simp)+

lemmas ops_rules = change_rules call_steps ops_steps

subsection \<open>Campaigns and responses\<close>

lemma response_steps:
  "steps R (send_reject_append_response E m h)" "steps R (send_vote_reply E m h me mk)"
  "steps R (send_transfer_power_response_message E m h2 t ok)" "steps R (send_self_exit E)"
  "steps R (send_membership_change_response_message E m h2 op tgt ok)"
  "steps R (send_snapshot_response_message E m h off ok)"
  unfolding send_reject_append_response_def send_vote_reply_def send_transfer_power_response_message_def
    send_self_exit_def send_membership_change_response_message_def send_snapshot_response_message_def
  by (intro ops_rules; simp)+

lemmas response_rules = ops_rules response_steps

lemma vote_response_steps:
  "steps R (send_reject_vote_response E m h)" "steps R (send_pre_vote_response_message E m h v)"
  "steps R (send_vote_response_message E m h v)"
  unfolding send_reject_vote_response_def send_pre_vote_response_message_def send_vote_response_message_def
  by (intro response_rules)+

lemma campaign_steps:
  "steps R (request_votes E us)" "steps R (request_pre_votes E us)"
  unfolding request_votes_def request_pre_votes_def by (intro response_rules; simp)+

lemmas campaign_rules = response_rules vote_response_steps campaign_steps

end

section \<open>Campaigns and the follower\<close>

locale engine_campaigns = engine_prims R E for R :: "('l, 'a) node \<Rightarrow> ('l, 'a) node \<Rightarrow> bool" and E +
  assumes campaign_rel: "steps R (deck_start_campaign E auth)"
begin

lemma base_role_steps:
  "steps R (on_pre_vote_request E m h auth)"
  "steps R (on_transfer_power_message E m h2 t pix ptm)" "steps R (on_membership_change_response E op tgt ok)"
  "steps R (base_on_vote_request E m h)" "steps R (base_on_membership_change_message E m h2 op tgt)"
  "steps R (base_on_snapshot_message E m h off)"
  unfolding on_pre_vote_request_def on_transfer_power_message_def
    on_membership_change_response_def base_on_vote_request_def base_on_membership_change_message_def
    base_on_snapshot_message_def
  by (intro campaign_rules campaign_rel)+

lemmas role_rules = campaign_rules campaign_rel base_role_steps

definition routes_kept :: "('l, 'a) routes \<Rightarrow> bool" where
  "routes_kept T \<longleftrightarrow> (\<forall>m h es ci. steps R (r_append_entries T m h es ci)) \<and>
     (\<forall>m h mi ok l orig. steps R (r_append_response T m h mi ok l orig)) \<and>
     (\<forall>m h. steps R (r_vote_request T m h)) \<and> (\<forall>m h v. steps R (r_vote_response T m h v)) \<and>
     (\<forall>m h v. steps R (r_pre_vote_response T m h v)) \<and>
     (\<forall>m h op tgt. steps R (r_membership_change T m h op tgt)) \<and>
     (\<forall>m h off dn dat cc. steps R (r_snapshot T m h off dn dat cc)) \<and>
     (\<forall>m h off ok. steps R (r_snapshot_response T m h off ok))"

lemma route_steps: "routes_kept T \<Longrightarrow> steps R (route E T m)"
  by (cases m) (simp_all add: route_def routes_kept_def base_role_steps steps_ret)

subsection \<open>The follower\<close>

lemma deck_stop_steps: "steps R (deck_stop E internal)"
  unfolding deck_stop_def by (intro role_rules; simp)

lemma read_rec_steps: "steps R (read_rec E i)"
  unfolding read_rec_def by (intro role_rules)

lemma delete_record_steps: "steps R (delete_record E i)"
  unfolding delete_record_def by (intro role_rules read_rec_steps)

lemmas log_rules = role_rules deck_stop_steps read_rec_steps delete_record_steps

lemma append_steps:
  "steps R (send_no_sync_append_response E m h)" "steps R (send_append_entries_response E m h)"
  "steps R (delete_log_from E i)" "steps R (process_command_record E r)" "steps R (append_record E r)"
  unfolding send_no_sync_append_response_def send_append_entries_response_def delete_log_from_def
    process_command_record_def append_record_def
  by (intro log_rules)+

lemmas append_rules = log_rules append_steps

lemma apply_steps: "steps R (apply_record E i)" "steps R (rewrite_conflicts E es)"
  unfolding apply_record_def rewrite_conflicts_def by (intro append_rules)+

lemma commit_steps: "steps R (new_leader_commit_index E ci)"
  unfolding new_leader_commit_index_def by (intro append_rules apply_steps)

lemma sync_steps: "steps R (maybe_commit E ci)" "steps R (sync_log E m h es)" "steps R (note_leader E h)"
  unfolding maybe_commit_def sync_log_def note_leader_def by (intro append_rules apply_steps commit_steps)+

lemma take_entries_steps: "steps R (take_entries E m h es ci)"
  unfolding take_entries_def by (intro append_rules sync_steps)

lemma follower_steps:
  "steps R (on_append_entries E m h es ci)" "steps R (on_vote_request E m h)" "steps R (join_cluster E u)"
  "steps R (leader_lost E)" "steps R (on_snapshot_message E m h off dn dat cc)"
  unfolding on_append_entries_def on_vote_request_def join_cluster_def leader_lost_def on_snapshot_message_def
  by (intro append_rules sync_steps take_entries_steps)+

lemma follower_route_steps: "steps R (route E (follower_routes E) m)"
  by (rule route_steps) (simp add: routes_kept_def follower_routes_def follower_steps base_role_steps steps_ret)

lemma contact_steps: "steps R (contact_checker E)"
  unfolding contact_checker_def by (intro append_rules follower_steps; simp add: campaign_target_def)

lemma inner_on_message_with_steps:
  "(\<And>m. steps R (handler m)) \<Longrightarrow> steps R (inner_on_message_with E handler m)"
  unfolding inner_on_message_with_def by (intro append_rules; simp)

end

section \<open>The leader\<close>

locale engine_roles = engine_campaigns R E for R :: "('l, 'a) node \<Rightarrow> ('l, 'a) node \<Rightarrow> bool" and E +
  assumes demote_rel: "steps R (demote_and_handle E mo)"
begin

lemmas follower_rules = append_rules follower_steps contact_steps demote_rel

lemma leader_book_steps:
  "steps R new_broadcast" "steps R (record_sent_message E m)" "steps R (report_command_result r res err)"
  "steps R notify_pending_commands_on_demotion" "steps R (get_prev_record_id E i)" "steps R (ensure_log_tracker E r)"
  unfolding new_broadcast_def record_sent_message_def report_command_result_def
    notify_pending_commands_on_demotion_def get_prev_record_id_def ensure_log_tracker_def
  by (intro follower_rules)+

lemmas leader_book_rules = follower_rules leader_book_steps

lemma check_broadcasts_steps: "steps R (check_broadcasts E et bs)"
  by (induction bs) (simp_all, (intro leader_book_rules; simp)+)

lemma check_quorum_steps: "steps R (check_quorum E)"
  unfolding check_quorum_def by (intro leader_book_rules check_broadcasts_steps)

lemma broadcast_steps: "steps R (broadcast_one E b t pix ptm ci r u)" "steps R (heartbeat_one E bo t li lt ci u)"
  unfolding broadcast_one_def heartbeat_one_def by (intro leader_book_rules)+

lemma send_heartbeats_steps: "steps R (send_heartbeats E u)"
  unfolding send_heartbeats_def by (intro leader_book_rules check_quorum_steps broadcast_steps)

lemma broadcast_log_record_steps: "steps R (broadcast_log_record E r)"
  unfolding broadcast_log_record_def by (intro leader_book_rules broadcast_steps)

lemmas send_rules = leader_book_rules send_heartbeats_steps broadcast_log_record_steps

lemma snapshot_send_steps: "steps R (snapshot_send E u)"
  unfolding snapshot_send_def by (intro send_rules)

lemma leader_send_steps:
  "steps R (scheduled_send_heartbeats E)" "steps R (start_snapshot_send E u)"
  "steps R (on_snapshot_response_message E u ok)" "steps R (send_entries E u es p1 p2 d)"
  unfolding scheduled_send_heartbeats_def start_snapshot_send_def on_snapshot_response_message_def
    send_entries_def
  by (intro send_rules snapshot_send_steps; simp add: campaign_target_def)+

lemma collect_catchup_steps: "steps R (collect_catchup E is b es e)"
  by (induction "is" arbitrary: b es) (simp_all, (intro send_rules; simp)+)

lemma catchup_steps: "steps R (send_backdown E h mi)" "steps R (send_catchup E u mi)"
  unfolding send_backdown_def send_catchup_def
  by (intro send_rules leader_send_steps collect_catchup_steps)+

lemmas catchup_rules = send_rules leader_send_steps catchup_steps

lemma transfer_steps: "steps R (transfer_power E u lr)" "steps R (transfer_proceed E u lr)" "steps R (delayed_exit E r)"
  unfolding transfer_power_def transfer_proceed_def delayed_exit_def by (intro catchup_rules)+

lemma transfer_runner_steps: "steps R (transfer_runner E u lr)" "steps R (transfer_wait E u lr b limit)"
  unfolding transfer_runner_def transfer_wait_def by (intro catchup_rules transfer_steps)+

lemmas transfer_rules = catchup_rules transfer_steps transfer_runner_steps

lemma membership_response_steps: "steps R (membership_response E m ok)"
  by (cases m) (simp_all add: membership_response_def response_steps steps_throw)

lemma abort_steps: "steps R (abort_node_add E u)"
  unfolding abort_node_add_def by (rule drop_rel) (intro transfer_rules membership_response_steps)

lemma leader_change_steps:
  "steps R (role_send_heartbeats E uo)" "steps R (role_transfer_power E u lr)" "steps R (append_change E cmd)"
  "steps R (do_update_settings E st)" "steps R (loading_round_timeout E u)"
  "steps R (start_next_round E u ld n)"
  unfolding role_send_heartbeats_def role_transfer_power_def append_change_def do_update_settings_def
    loading_round_timeout_def start_next_round_def
  by (intro transfer_rules membership_response_steps abort_steps)+

lemmas leader_change_rules = transfer_rules membership_response_steps abort_steps leader_change_steps

lemma loading_steps: "steps R (finish_loading E u)" "steps R (do_node_inout E op tgt mo)"
  "steps R (cluster_config_vote_passed E r)"
  unfolding finish_loading_def do_node_inout_def cluster_config_vote_passed_def
  by (intro leader_change_rules)+

lemma note_loading_progress_steps: "steps R (note_loading_progress E u i)"
  unfolding note_loading_progress_def by (intro leader_change_rules loading_steps)

lemma run_command_locally_steps: "steps R (run_command_locally E r)"
  unfolding run_command_locally_def by (intro leader_change_rules)

lemma apply_ready_steps: "steps R (apply_ready E r i)"
  unfolding apply_ready_def by (intro leader_change_rules run_command_locally_steps loading_steps)

lemma process_ready_steps: "steps R (process_ready_log_record E r)"
  unfolding process_ready_log_record_def by (intro leader_change_rules apply_ready_steps)

lemma assess_steps: "steps R (assess_one E u ok n kv)"
  unfolding assess_one_def by (intro leader_change_rules process_ready_steps)

lemma assess_log_vote_steps: "steps R (assess_log_vote E es u ok)"
  unfolding assess_log_vote_def by (intro leader_change_rules assess_steps)

lemma response_handler_steps: "steps R (direct_response E h mi ok)" "steps R (note_broadcast_reply b)"
  unfolding direct_response_def note_broadcast_reply_def by (intro leader_change_rules)+

lemma broadcast_response_steps: "steps R (broadcast_response E mt b h mi ok)"
  unfolding broadcast_response_def
  by (intro leader_change_rules response_handler_steps assess_log_vote_steps)

lemma on_append_entries_response_steps: "steps R (on_append_entries_response E m h mi ok l orig)"
  unfolding on_append_entries_response_def
  by (intro leader_change_rules response_handler_steps broadcast_response_steps note_loading_progress_steps)

lemma leader_steps:
  "steps R (leader_run_command E cmd)" "steps R (await_command i b limit)"
  "steps R (on_membership_change_message E m h2 op tgt)" "steps R (do_node_exit E u)"
  unfolding leader_run_command_def await_command_def on_membership_change_message_def do_node_exit_def
  by (intro leader_change_rules loading_steps)+

lemma leader_route_steps: "steps R (route E (leader_routes E) m)"
  by (rule route_steps) (simp add: routes_kept_def leader_routes_def leader_steps base_role_steps steps_ret
      response_steps on_append_entries_response_steps leader_send_steps)

lemmas leader_rules = leader_change_rules loading_steps leader_steps

lemma give_way_steps: "steps R (candidate_on_append_entries E m h)"
  unfolding candidate_on_append_entries_def by (intro leader_rules)

end

section \<open>The deck\<close>

locale engine_loop = engine_roles R E for R :: "('l, 'a) node \<Rightarrow> ('l, 'a) node \<Rightarrow> bool" and E +
  assumes message_rel: "steps R (role_on_message E m)"
    and start_rel: "steps R (role_start E)"
    and snapshot_rel: "steps R (make_snapshot E)"
    and campaign_timer_rel: "(i, due, RoleAfterRunner x) \<in> set (timers s) \<Longrightarrow> campaign_target x \<Longrightarrow>
      R s (snd (role_after_runner E x (s\<lparr>timers := filter (\<lambda>p. fst p \<noteq> i) (timers s)\<rparr>)))"
begin

lemma inner_on_message_steps: "steps R (inner_on_message E m)"
  unfolding inner_on_message_def by (intro inner_on_message_with_steps message_rel)

lemma on_message_steps: "steps R (on_message E data)"
  unfolding on_message_def by (intro leader_rules inner_on_message_steps deck_decode_steps)

lemma deck_start_steps: "steps R (deck_start E)"
  unfolding deck_start_def by (intro leader_rules start_rel; simp)

lemma join_steps: "steps R (start_and_join E u limit)" "steps R (join_waiter_end E)" "steps R (exit_cluster E limit)"
  "steps R (exit_waiter_end E)"
  unfolding start_and_join_def join_waiter_end_def exit_cluster_def exit_waiter_end_def
  by (intro leader_rules deck_start_steps; simp)+

lemma waiter_steps: "steps R (join_waiter E begun limit)" "steps R (exit_waiter E begun limit)"
  unfolding join_waiter_def exit_waiter_def by (intro leader_rules join_steps; simp)+

lemma deck_steps:
  "steps R (run_command E cmd)" "steps R (command_turn cmd i b limit)" "steps R (take_snapshot_begin E)"
  "steps R (update_settings E st)" "steps R (deck_transfer_power E u)"
  "steps R (get_message_problem_history clear)" "steps R (get_leader_uri E)"
  unfolding run_command_def command_turn_def take_snapshot_begin_def update_settings_def
    deck_transfer_power_def get_message_problem_history_def get_leader_uri_def
  by (intro leader_rules; simp)+

lemma take_snapshot_turn_steps: "steps R (take_snapshot_turn E b limit)"
  unfolding take_snapshot_turn_def by (intro leader_rules deck_steps snapshot_rel)

lemma role_after_runner_steps: "\<not> campaign_target target \<Longrightarrow> steps R (role_after_runner E target)"
  unfolding role_after_runner_def by (cases target; simp add: campaign_target_def; intro leader_rules leader_send_steps)

lemma run_task_steps: "steps R (run_task E t)"
  by (cases t) (simp_all add: run_task_def inner_on_message_steps leader_book_steps transfer_runner_steps
      waiter_steps app_do_steps)

lemma run_callback_steps:
  "(\<And>x. cb = RoleAfterRunner x \<Longrightarrow> \<not> campaign_target x) \<Longrightarrow> steps R (run_callback E cb)"
  by (cases cb) (simp_all add: run_callback_def role_after_runner_steps leader_change_steps transfer_steps)

lemma timer_step_rel:
  assumes "(i, due, cb) \<in> set (timers s)"
  shows "R s (snd (run_callback E cb (s\<lparr>timers := filter (\<lambda>p. fst p \<noteq> i) (timers s)\<rparr>)))"
proof (cases "\<exists>x. cb = RoleAfterRunner x \<and> campaign_target x")
  case True
  then show ?thesis using assms campaign_timer_rel by (auto simp: run_callback_def)
next
  case False
  have "R s (s\<lparr>timers := filter (\<lambda>p. fst p \<noteq> i) (timers s)\<rparr>)"
    using stepsD [OF cancel_rel, of s i] by (simp add: cancel_timer_def run)
  then show ?thesis using stepsD [OF run_callback_steps] False by (blast intro: rel_trans)
qed

theorem loop_step_rel:
  assumes "loop_step E s t"
  shows "R s t"
  using assms
proof cases
  case (task tk ts)
  have "R s (s\<lparr>tasks := ts\<rparr>)" by (rule core) (simp_all add: same_core_def same_office_def)
  then show ?thesis unfolding task using stepsD [OF run_task_steps] by (rule rel_trans)
next
  case (timer i due cb)
  then show ?thesis using timer_step_rel by blast
qed (use tick_rel stepsD [OF on_message_steps] stepsD [OF deck_steps(1)] stepsD [OF deck_steps(2)]
      stepsD [OF deck_steps(3)] stepsD [OF deck_steps(4)] stepsD [OF deck_steps(5)] stepsD [OF deck_steps(6)]
      stepsD [OF deck_steps(7)] stepsD [OF deck_start_steps] stepsD [OF join_steps(1)] stepsD [OF join_steps(3)]
      stepsD [OF deck_stop_steps] stepsD [OF take_snapshot_turn_steps] stepsD [OF event_handler_steps(1)]
      stepsD [OF event_handler_steps(2)] in \<open>simp_all\<close>)

theorem reachable_rel: "reachable E s t \<Longrightarrow> R s t"
proof (induction rule: rtranclp_induct)
  case base
  show ?case by (rule rel_refl)
next
  case (step t u)
  then show ?case using loop_step_rel rel_trans by blast
qed

end

section \<open>Relations indifferent to roles and terms\<close>

locale engine_rel = method_rel R for R :: "('l, 'a) node \<Rightarrow> ('l, 'a) node \<Rightarrow> bool" +
  fixes E :: "('l, 'a) env"
  assumes any_core: "same_core s t \<Longrightarrow> R s t"
    and any_log: "log_call (log E) (n_log s) l \<Longrightarrow> R s (s\<lparr>n_log := l\<rparr>)"
    and any_serial: "R s (s\<lparr>serials := snd (generate (now s) (serials s))\<rparr>)"
    and any_send: "R s (s\<lparr>outbox := outbox s @ [x]\<rparr>)"
    and any_call: "no_role_timer cb \<Longrightarrow> steps R (call_later d cb)"
    and any_cancel: "steps R (cancel_timer i)"
    and any_run_after: "steps R (role_run_after d target)"
    and any_cancel_after: "steps R cancel_role_run_after"
    and any_add: "R s (s\<lparr>event_control := snd (add_handler h (event_control s))\<rparr>)"
    and any_remove: "R s (s\<lparr>event_control := snd (remove_handler h (event_control s))\<rparr>)"
    and any_tick: "now s \<le> clock \<Longrightarrow> R s (s\<lparr>now := clock\<rparr>)"
begin

lemma any_modE: "(\<And>s. same_core s (f s)) \<Longrightarrow> steps R (modE f)"
  by (rule stepsI, rule any_core) (simp add: run)

lemma any_stopped: "steps R (set_role_stopped b)"
  unfolding set_role_stopped_def by (rule any_modE) (simp add: same_core_def split: RoleName.split)

lemma any_log_do: "(\<And>l. log_call (log E) l (snd (m l))) \<Longrightarrow> steps R (log_do m)"
  using any_log by (intro stepsI) (simp add: log_do_def run case_prod_beta)

lemma any_save: "steps R (log_do (save_cluster_config (log E) c))"
  by (rule any_log_do, rule log_call.intros)

lemma any_mods:
  "steps R (set_current c)" "steps R (note_exit_done b)" "steps R (candidate_mod f)"
  "steps R (modE (\<lambda>s. s\<lparr>role := RoleCandidate, candidate := cd\<rparr>))"
  "steps R (modE (\<lambda>s. s\<lparr>role := RoleLeader, leader := l\<rparr>))"
  "steps R (modE (\<lambda>s. s\<lparr>role := RoleFollower, follower := new_Follower (now s)\<rparr>))"
  unfolding set_current_def note_exit_done_def candidate_mod_def ops_mod_def deck_mod_def
  by (rule any_modE, simp add: same_core_def)+

lemma any_config: "steps R (Cluster_Ops.get_cluster_config E)" "steps R (save_current E c)"
  unfolding Cluster_Ops.get_cluster_config_def save_current_def log_get_def by (intro steps_rules any_save any_mods)+

lemma any_plan: "steps R (plan_add_node E u)" "steps R (plan_remove_node E u)"
  unfolding plan_add_node_def plan_remove_node_def by (intro steps_rules any_config)+

lemma any_change:
  "steps R (update_cluster_config_from_json_string E txt)" "steps R (start_node_add E u)" "steps R (finish_node_add E u)"
  "steps R (start_node_remove E u)" "steps R (finish_node_remove E u)" "steps R (save_settings E r)"
  "steps R (reverse_config_change E r)"
  unfolding update_cluster_config_from_json_string_def start_node_add_def finish_node_add_def
    start_node_remove_def finish_node_remove_def save_settings_def reverse_config_change_def log_get_def
  by (intro steps_rules any_config any_plan any_save any_mods)+

end

sublocale engine_rel \<subseteq> engine_prims
proof
  fix s :: "('l, 'a) node" and k :: "('l, 'a, unit) act" and t l x cb d i target h clock
  show "same_core s t \<Longrightarrow> R s t" by (rule any_core)
  show "quiet_call (log E) (n_log s) l \<Longrightarrow> R s (s\<lparr>n_log := l\<rparr>)" by (rule any_log, rule log_call.quiet)
  show "steps R (role_run_after d target)" by (rule any_run_after)
  assume "steps R k"
  then show "steps R (bindE (Cluster_Ops.get_cluster_config E) (\<lambda>c. let c' = c\<lparr>pending_node := None\<rparr> in
      seqE (set_current c') (bindE (log_do (save_cluster_config (log E) c')) (\<lambda>_. k))))"
    by (intro steps_rules any_config any_mods any_save)
qed (rule any_serial any_send any_call any_cancel any_cancel_after any_add any_remove any_tick any_stopped
      any_config(1) any_change | assumption)+

context engine_rel
begin

lemma any_term: "steps R (deck_set_term E t)"
  unfolding deck_set_term_def by (intro node_rules any_log_do log_call.intros)

lemmas any_rules = any_term any_stopped any_mods any_run_after campaign_rules

lemma start_campaign_steps: "steps R (start_campaign_base E)" "steps R (start_campaign_pre E)"
  unfolding start_campaign_base_def start_campaign_pre_def by (intro any_rules)+

lemma start_campaign_steps': "steps R (start_campaign E)"
  unfolding start_campaign_def by (intro any_rules start_campaign_steps)

lemma candidate_start_steps: "steps R (candidate_start E)"
  unfolding candidate_start_def base_start_def by (intro any_rules start_campaign_steps')

lemma deck_start_campaign_steps: "steps R (deck_start_campaign E auth)"
  unfolding deck_start_campaign_def by (intro any_rules candidate_start_steps)

end

sublocale engine_rel \<subseteq> engine_campaigns
  by unfold_locales (rule deck_start_campaign_steps)

context engine_rel
begin

lemma base_on_message_steps:
  "(\<And>m t. steps R (expired m t)) \<Longrightarrow> steps R (route E T m) \<Longrightarrow> steps R (base_on_message E stopped expired T m)"
  unfolding base_on_message_def by (intro control log_get_steps)

lemma follower_change_steps: "steps R (follower_term_expired E m t)" "steps R (follower_start E)"
  unfolding follower_term_expired_def follower_start_def base_start_def by (intro any_rules)+

lemma follower_on_message_steps: "steps R (follower_on_message E m)"
  unfolding follower_on_message_def by (intro base_on_message_steps follower_change_steps follower_route_steps)

lemma demote_and_handle_steps: "steps R (demote_and_handle E mo)"
  unfolding demote_and_handle_def
  by (intro any_rules follower_change_steps inner_on_message_with_steps follower_on_message_steps)

end

sublocale engine_rel \<subseteq> engine_roles
  by unfold_locales (rule demote_and_handle_steps)

context engine_rel
begin

lemma leader_change_role_steps: "steps R (leader_start E)" "steps R (leader_term_expired E m t)"
  unfolding leader_start_def leader_term_expired_def base_start_def by (intro any_rules leader_rules)+

lemma leader_on_message_steps: "steps R (leader_on_message E m)"
  unfolding leader_on_message_def by (intro base_on_message_steps leader_change_role_steps leader_route_steps)

lemma win_vote_steps: "steps R (win_vote E t)" "steps R (campaign_lost E d)"
  unfolding win_vote_def campaign_lost_def by (intro any_rules leader_change_role_steps)+

lemma candidate_steps:
  "steps R (on_vote_response E h v)" "steps R (on_pre_vote_response E h v)" "steps R (candidate_term_expired E m t)"
  unfolding on_vote_response_def on_pre_vote_response_def candidate_term_expired_def
  by (intro any_rules win_vote_steps start_campaign_steps demote_and_handle_steps)+

lemma candidate_on_message_steps: "steps R (candidate_on_message E m)"
  unfolding candidate_on_message_def
  by (intro base_on_message_steps candidate_steps route_steps)
    (simp add: routes_kept_def candidate_routes_def candidate_steps give_way_steps base_role_steps steps_ret)

lemma role_on_message_steps: "steps R (role_on_message E m)"
  unfolding role_on_message_def
  by (intro control follower_on_message_steps leader_on_message_steps candidate_on_message_steps)

lemma role_start_steps: "steps R (role_start E)"
  unfolding role_start_def by (intro control follower_change_steps candidate_start_steps leader_change_role_steps)

lemma make_snapshot_steps: "steps R (make_snapshot E)"
  unfolding make_snapshot_def by (intro any_rules leader_rules follower_change_steps)

lemma campaign_timer_steps: "campaign_target x \<Longrightarrow> steps R (role_after_runner E x)"
  unfolding role_after_runner_def election_timed_out_def campaign_target_def
  by (cases x) (auto intro!: control start_campaign_steps' node_steps)

end

sublocale engine_rel \<subseteq> engine_loop
proof
  fix i due x and s :: "('l, 'a) node"
  assume "campaign_target x"
  moreover have "R s (s\<lparr>timers := filter (\<lambda>p. fst p \<noteq> i) (timers s)\<rparr>)"
    using stepsD [OF any_cancel, of s i] by (simp add: cancel_timer_def run)
  ultimately show "R s (snd (role_after_runner E x (s\<lparr>timers := filter (\<lambda>p. fst p \<noteq> i) (timers s)\<rparr>)))"
    using stepsD [OF campaign_timer_steps] by (blast intro: rel_trans)
qed (rule role_on_message_steps role_start_steps make_snapshot_steps)+

end
