(* ===== verification/Memory_Log.thy ===== *)
theory Memory_Log
  imports Log_Api
begin

text \<open>
  \<open>MemoryLog\<close> of \<open>src/raftengine/extras/memory_log/memory_log.py\<close>: a dict of records with the first
  and last index, the last term and the two progress indexes kept beside it. The class meets the
  log contract \<open>raft_log\<close>, but not \<open>stable_log\<close>: deleting the only records resets the current term.
  The wall clock that \<open>insert_entry\<close> and \<open>get_stats\<close> read is the field \<open>m_now\<close>.
\<close>

section \<open>State\<close>

record MemoryLog =
  m_first_index :: "int option"
  m_last_index :: int
  m_last_term :: int
  m_term :: int
  m_entries :: "(int \<times> LogRec) list"
  m_voted_for :: "uri option"
  m_snapshot :: "SnapShot option"
  m_nodes :: "(uri \<times> NodeRec) list option"
  m_pending_node :: "NodeRec option"
  m_cluster_settings :: "ClusterSettings option"
  m_broken :: bool
  m_max_commit :: int
  m_max_apply :: int
  m_max_timestamps :: nat
  m_uri :: "uri option"
  m_record_timestamps :: "time list"
  m_last_record_time :: "time option"
  m_now :: time

definition new_MemoryLog :: "time \<Rightarrow> MemoryLog" where
  "new_MemoryLog clock =
     \<lparr>m_first_index = None, m_last_index = 0, m_last_term = 0, m_term = 0, m_entries = [],
      m_voted_for = None, m_snapshot = None, m_nodes = None, m_pending_node = None,
      m_cluster_settings = None, m_broken = False, m_max_commit = 0, m_max_apply = 0,
      m_max_timestamps = 1000, m_uri = None, m_record_timestamps = [],
      m_last_record_time = None, m_now = clock\<rparr>"

definition mem_close :: "(MemoryLog, unit) eff" where
  "mem_close = modE (\<lambda>s. s\<lparr>m_first_index := None, m_last_index := 0, m_last_term := 0, m_term := 0,
     m_entries := [], m_voted_for := None, m_snapshot := None, m_nodes := None,
     m_pending_node := None, m_cluster_settings := None, m_record_timestamps := [],
     m_last_record_time := None\<rparr>)"

section \<open>Operations\<close>

text \<open>\<open>xs[-n:]\<close> of a longer list.\<close>

definition last_n :: "nat \<Rightarrow> 'a list \<Rightarrow> 'a list" where
  "last_n n xs = drop (length xs - n) xs"

definition mem_track_time :: "MemoryLog \<Rightarrow> MemoryLog" where
  "mem_track_time s = (let ts = m_record_timestamps s @ [m_now s] in
     s\<lparr>m_last_record_time := Some (m_now s),
       m_record_timestamps :=
         (if length ts > m_max_timestamps s then last_n (m_max_timestamps s) ts else ts)\<rparr>)"

definition mem_store :: "LogRec \<Rightarrow> MemoryLog \<Rightarrow> MemoryLog" where
  "mem_store r s =
     (let s1 = s\<lparr>m_entries := dict_set (rec_index r) r (m_entries s),
                 m_last_index := max (rec_index r) (m_last_index s),
                 m_last_term := max (rec_term r) (m_last_term s)\<rparr>;
          s2 = (if m_first_index s1 = Some 0 \<or> m_first_index s1 = None
                then s1\<lparr>m_first_index := Some (rec_index r)\<rparr> else s1);
          s3 = (if m_last_index s2 \<le> rec_index r
                then s2\<lparr>m_last_index := rec_index r, m_last_term := rec_term r\<rparr> else s2)
      in mem_track_time s3)"

definition mem_insert_entry :: "LogRec \<Rightarrow> (MemoryLog, LogRec) eff" where
  "mem_insert_entry r = bindE (getsE m_last_index) (\<lambda>l.
     if rec_index r = 0
     then (let r' = r\<lparr>rec_index := l + 1\<rparr> in seqE (modE (mem_store r')) (ret r'))
     else if rec_index r > l + 1 then throw InsertPastLast
     else if rec_index r < 1 then throw InsertBelowOne
     else seqE (modE (mem_store r)) (ret r))"

definition mem_get_entry_at :: "int \<Rightarrow> MemoryLog \<Rightarrow> LogRec option" where
  "mem_get_entry_at i s = dict_get (m_entries s) i"

definition mem_get_last_entry :: "MemoryLog \<Rightarrow> LogRec option" where
  "mem_get_last_entry s = mem_get_entry_at (m_last_index s) s"

definition mem_delete_ending_with :: "int \<Rightarrow> (MemoryLog, unit) eff" where
  "mem_delete_ending_with i =
     seqE (modE (\<lambda>s. s\<lparr>m_entries := (if i = m_last_index s then []
                                    else dict_filter (\<lambda>k. \<not> k \<le> i) (m_entries s))\<rparr>))
     (bindE (getsE (\<lambda>s. (m_entries s, m_snapshot s))) (\<lambda>(es, snap).
        if es = []
        then bindE (some_or AttributeError snap) (\<lambda>sn.
               modE (\<lambda>s. s\<lparr>m_first_index := None, m_last_index := snap_index sn,
                           m_last_term := snap_term sn\<rparr>))
        else modE (\<lambda>s. s\<lparr>m_first_index := Some (i + 1)\<rparr>)))"

text \<open>\<open>mark\<close> is the side effect of a read: the flags of the stored record follow the two indexes.\<close>

definition mem_mark :: "MemoryLog \<Rightarrow> LogRec \<Rightarrow> LogRec" where
  "mem_mark s r =
     (let r1 = (if rec_index r \<le> m_max_commit s then r\<lparr>committed := True\<rparr> else r)
      in if rec_index r \<le> m_max_apply s then r1\<lparr>applied := True\<rparr> else r1)"

definition mem_give :: "int \<Rightarrow> (MemoryLog, LogRec option) eff" where
  "mem_give i = bindE (getsE (\<lambda>s. (s, mem_get_entry_at i s))) (\<lambda>(s, e).
     case e of None \<Rightarrow> ret None
     | Some r \<Rightarrow> (let r' = mem_mark s r in
         seqE (modE (\<lambda>s. s\<lparr>m_entries := dict_set i r' (m_entries s)\<rparr>)) (ret (Some r'))))"

definition mem_read :: "int option \<Rightarrow> (MemoryLog, LogRec option) eff" where
  "mem_read ix = bindE (getsE id) (\<lambda>s.
     case ix of None \<Rightarrow> mem_give (m_last_index s)
     | Some i \<Rightarrow>
         if i < 1 then throw (ReadBelowOne i)
         else if i > m_last_index s then ret None
         else (case m_first_index s of None \<Rightarrow> ret None
               | Some f \<Rightarrow> if i < f then ret None else mem_give i))"

definition mem_delete_all_from :: "int \<Rightarrow> (MemoryLog, unit) eff" where
  "mem_delete_all_from i = bindE (getsE id) (\<lambda>s.
     if (case m_snapshot s of None \<Rightarrow> False | Some sn \<Rightarrow> i < snap_index sn + 1)
     then throw (DeleteInSnapshot i)
     else if m_last_index s < i then throw (DeletePastMax i (m_last_index s))
     else if i = 0 \<or> (case m_snapshot s of None \<Rightarrow> False | Some sn \<Rightarrow> i = snap_index sn + 1)
     then modE (\<lambda>s. s\<lparr>m_entries := [], m_first_index := None,
            m_last_index := (case m_snapshot s of None \<Rightarrow> 0 | Some sn \<Rightarrow> snap_index sn),
            m_last_term := (case m_snapshot s of None \<Rightarrow> 0 | Some sn \<Rightarrow> snap_term sn)\<rparr>)
     else (let es = dict_filter (\<lambda>k. \<not> k \<ge> i) (m_entries s); ks = sort (dict_keys es) in
       seqE (modE (\<lambda>s. s\<lparr>m_entries := es\<rparr>))
         (if ks \<noteq> []
          then seqE (modE (\<lambda>s. s\<lparr>m_first_index := Some (hd ks), m_last_index := last ks\<rparr>))
                 (bindE (some_or KeyError (dict_get es (last ks))) (\<lambda>r.
                    modE (\<lambda>s. s\<lparr>m_last_term := rec_term r\<rparr>)))
          else modE (\<lambda>s. s\<lparr>m_first_index := None, m_last_index := 0, m_term := 0\<rparr>))))"

text \<open>The three parts of a configuration are only ever stored together.\<close>

definition mem_get_cluster_config :: "MemoryLog \<Rightarrow> ClusterConfig option" where
  "mem_get_cluster_config s = (case (m_nodes s, m_cluster_settings s) of
     (Some ns, Some st) \<Rightarrow> Some \<lparr>nodes = ns, pending_node = m_pending_node s, settings = st\<rparr>
   | _ \<Rightarrow> None)"

definition mem_save_cluster_config :: "ClusterConfig \<Rightarrow> (MemoryLog, ClusterConfig) eff" where
  "mem_save_cluster_config c =
     seqE (modE (\<lambda>s. s\<lparr>m_nodes := Some (nodes c), m_pending_node := pending_node c,
                       m_cluster_settings := Some (settings c)\<rparr>))
     (ret \<lparr>nodes = nodes c, pending_node = pending_node c, settings = settings c\<rparr>)"

definition mem_install_snapshot :: "SnapShot \<Rightarrow> (MemoryLog, unit) eff" where
  "mem_install_snapshot sn =
     (if snap_index sn = 0 then throw SnapshotAtZero
      else seqE (modE (\<lambda>s. s\<lparr>m_snapshot := Some sn\<rparr>))
        (seqE (mem_delete_ending_with (snap_index sn))
          (modE (\<lambda>s. let l = max (snap_index sn) (m_last_index s) in
             s\<lparr>m_last_term := max (snap_term sn) (m_last_term s), m_last_index := l,
               m_first_index := (if l > snap_index sn then Some (snap_index sn + 1) else None)\<rparr>))))"

definition mem_get_stats :: "MemoryLog \<Rightarrow> LogStats" where
  "mem_get_stats s =
     (let snapshot_index = (case m_snapshot s of None \<Rightarrow> 0 | Some sn \<Rightarrow> snap_index sn);
          ts = m_record_timestamps s in
      \<lparr>st_first_index = m_first_index s, st_last_index = m_last_index s, st_last_term = m_last_term s,
       st_commit_index = m_max_commit s, st_applied_index = m_max_apply s,
       st_record_count = int (length (m_entries s)),
       st_records_since_snapshot = max 0 (m_last_index s - snapshot_index),
       st_records_per_minute = (if length ts \<ge> 2 then recent_rate (m_now s) ts else 0),
       st_percent_remaining = None, st_total_size_bytes = int (length (m_entries s)) * 200,
       st_snapshot_index = (if snapshot_index > 0 then Some snapshot_index else None),
       st_last_record_timestamp = m_last_record_time s\<rparr>)"

definition memory_api :: "MemoryLog LogAPI" where
  "memory_api =
     \<lparr>get_broken = m_broken,
      set_broken = modE (\<lambda>s. s\<lparr>m_broken := True\<rparr>),
      set_fixed = modE (\<lambda>s. s\<lparr>m_broken := False\<rparr>),
      get_uri = m_uri,
      set_uri = (\<lambda>u. modE (\<lambda>s. s\<lparr>m_uri := Some u\<rparr>)),
      get_term = m_term,
      set_term = (\<lambda>v. modE (\<lambda>s. s\<lparr>m_term := v\<rparr>)),
      incr_term = seqE (modE (\<lambda>s. s\<lparr>m_term := m_term s + 1\<rparr>)) (getsE m_term),
      get_voted_for = m_voted_for,
      set_voted_for = (\<lambda>v. modE (\<lambda>s. s\<lparr>m_voted_for := v\<rparr>)),
      get_last_index = m_last_index,
      get_first_index = m_first_index,
      get_last_term = m_last_term,
      get_commit_index = m_max_commit,
      get_applied_index = m_max_apply,
      log_append = mem_insert_entry,
      log_insert = mem_insert_entry,
      mark_committed = (\<lambda>i. modE (\<lambda>s. s\<lparr>m_max_commit := max i (m_max_commit s)\<rparr>)),
      mark_applied = (\<lambda>i. modE (\<lambda>s. s\<lparr>m_max_apply := max i (m_max_apply s)\<rparr>)),
      log_read = mem_read,
      delete_all_from = mem_delete_all_from,
      save_cluster_config = mem_save_cluster_config,
      get_cluster_config = mem_get_cluster_config,
      install_snapshot = mem_install_snapshot,
      get_snapshot = m_snapshot\<rparr>"

section \<open>Invariant and contract\<close>

definition mem_ents :: "MemoryLog \<Rightarrow> int \<Rightarrow> LogRec option" where
  "mem_ents s i = map_option content (dict_get (m_entries s) i)"

abbreviation mem_view :: "MemoryLog \<Rightarrow> log_view" where
  "mem_view \<equiv> view memory_api mem_ents"

definition mem_inv :: "MemoryLog \<Rightarrow> bool" where
  "mem_inv s \<longleftrightarrow> dict_ok (m_entries s) \<and> view_ok (mem_view s)"

lemmas mem_simps = mem_inv_def view_ok_def view_def memory_api_def mem_ents_def

lemma mem_api_simps [simp]:
  "get_broken memory_api = m_broken" "get_uri memory_api = m_uri" "get_term memory_api = m_term"
  "get_voted_for memory_api = m_voted_for" "get_last_index memory_api = m_last_index"
  "get_first_index memory_api = m_first_index" "get_last_term memory_api = m_last_term"
  "get_commit_index memory_api = m_max_commit" "get_applied_index memory_api = m_max_apply"
  "get_cluster_config memory_api = mem_get_cluster_config" "get_snapshot memory_api = m_snapshot"
  "log_insert memory_api = mem_insert_entry" "log_append memory_api = mem_insert_entry"
  "log_read memory_api = mem_read" "delete_all_from memory_api = mem_delete_all_from"
  "save_cluster_config memory_api = mem_save_cluster_config"
  "install_snapshot memory_api = mem_install_snapshot"
  "set_broken memory_api = modE (\<lambda>s. s\<lparr>m_broken := True\<rparr>)"
  "set_fixed memory_api = modE (\<lambda>s. s\<lparr>m_broken := False\<rparr>)"
  "set_uri memory_api = (\<lambda>u. modE (\<lambda>s. s\<lparr>m_uri := Some u\<rparr>))"
  "set_term memory_api = (\<lambda>v. modE (\<lambda>s. s\<lparr>m_term := v\<rparr>))"
  "incr_term memory_api = seqE (modE (\<lambda>s. s\<lparr>m_term := m_term s + 1\<rparr>)) (getsE m_term)"
  "set_voted_for memory_api = (\<lambda>v. modE (\<lambda>s. s\<lparr>m_voted_for := v\<rparr>))"
  "mark_committed memory_api = (\<lambda>i. modE (\<lambda>s. s\<lparr>m_max_commit := max i (m_max_commit s)\<rparr>))"
  "mark_applied memory_api = (\<lambda>i. modE (\<lambda>s. s\<lparr>m_max_apply := max i (m_max_apply s)\<rparr>))"
  by (simp_all add: memory_api_def)

lemma mem_config_frame [simp]:
  "mem_get_cluster_config (s\<lparr>m_entries := a\<rparr>) = mem_get_cluster_config s"
  "mem_get_cluster_config (s\<lparr>m_first_index := b\<rparr>) = mem_get_cluster_config s"
  "mem_get_cluster_config (s\<lparr>m_last_index := c\<rparr>) = mem_get_cluster_config s"
  "mem_get_cluster_config (s\<lparr>m_last_term := c\<rparr>) = mem_get_cluster_config s"
  "mem_get_cluster_config (s\<lparr>m_term := c\<rparr>) = mem_get_cluster_config s"
  "mem_get_cluster_config (s\<lparr>m_voted_for := d\<rparr>) = mem_get_cluster_config s"
  "mem_get_cluster_config (s\<lparr>m_uri := d\<rparr>) = mem_get_cluster_config s"
  "mem_get_cluster_config (s\<lparr>m_broken := e\<rparr>) = mem_get_cluster_config s"
  "mem_get_cluster_config (s\<lparr>m_max_commit := c\<rparr>) = mem_get_cluster_config s"
  "mem_get_cluster_config (s\<lparr>m_max_apply := c\<rparr>) = mem_get_cluster_config s"
  "mem_get_cluster_config (s\<lparr>m_snapshot := f\<rparr>) = mem_get_cluster_config s"
  by (simp_all add: mem_get_cluster_config_def split: option.split)

lemma mem_dom:
  assumes "mem_inv s"
  shows "(mem_ents s j \<noteq> None) = (snap_base (m_snapshot s) < j \<and> j \<le> m_last_index s)"
    "j \<in> set (dict_keys (m_entries s)) \<longleftrightarrow> snap_base (m_snapshot s) < j \<and> j \<le> m_last_index s"
proof -
  show 1: "(mem_ents s j \<noteq> None) = (snap_base (m_snapshot s) < j \<and> j \<le> m_last_index s)"
    using assms by (simp add: mem_inv_def view_ok_def)
  show "j \<in> set (dict_keys (m_entries s)) \<longleftrightarrow> snap_base (m_snapshot s) < j \<and> j \<le> m_last_index s"
    unfolding dict_keys_dom 1 [symmetric] by (simp add: dom_def mem_ents_def)
qed

lemma mem_view_eqI:
  "\<lbrakk>m_broken t = m_broken s; m_uri t = m_uri s; m_term t = m_term s; m_voted_for t = m_voted_for s;
    m_max_commit t = m_max_commit s; m_max_apply t = m_max_apply s;
    m_nodes t = m_nodes s; m_pending_node t = m_pending_node s;
    m_cluster_settings t = m_cluster_settings s\<rbrakk> \<Longrightarrow>
   mem_view t = (mem_view s)\<lparr>v_last := m_last_index t, v_first := m_first_index t,
     v_last_term := m_last_term t, v_snap := m_snapshot t, v_ents := mem_ents t\<rparr>"
  by (simp add: view_def mem_get_cluster_config_def split: option.split)

lemma mem_inv_new: "mem_inv (new_MemoryLog c)"
  by (simp add: mem_inv_def view_ok_def new_MemoryLog_def mem_ents_def)

lemma mem_store_frame [simp]:
  "m_broken (mem_store r s) = m_broken s" "m_uri (mem_store r s) = m_uri s"
  "m_term (mem_store r s) = m_term s" "m_voted_for (mem_store r s) = m_voted_for s"
  "m_max_commit (mem_store r s) = m_max_commit s" "m_max_apply (mem_store r s) = m_max_apply s"
  "m_snapshot (mem_store r s) = m_snapshot s"
  "m_entries (mem_store r s) = dict_set (rec_index r) r (m_entries s)"
  "m_nodes (mem_store r s) = m_nodes s" "m_pending_node (mem_store r s) = m_pending_node s"
  "m_cluster_settings (mem_store r s) = m_cluster_settings s"
  by (simp_all add: mem_store_def mem_track_time_def Let_def)

lemma mem_store_view:
  assumes "mem_inv s" and "m_last_index s \<le> rec_index r"
  shows "mem_view (mem_store r s) = insert_view r (mem_view s)"
proof -
  from assms have f: "m_first_index s \<noteq> Some 0"
    by (auto simp: mem_inv_def view_ok_def split: if_splits)
  have "m_last_index (mem_store r s) = rec_index r" "m_last_term (mem_store r s) = rec_term r"
    "m_first_index (mem_store r s) = (case m_first_index s of None \<Rightarrow> Some (rec_index r) | Some f \<Rightarrow> Some f)"
    using assms(2) f by (auto simp: mem_store_def mem_track_time_def Let_def split: option.splits)
  then show ?thesis
    by (subst mem_view_eqI [of _ s])
       (simp_all add: insert_view_def mem_ents_def fun_eq_iff view_def)
qed

text \<open>Writing at the end of a well-formed view keeps it well formed, whatever the log.\<close>

lemma mem_store_inv:
  assumes "mem_inv s" and "can_insert (mem_view s) r" and "rec_index r \<noteq> 0"
  shows "mem_inv (mem_store r s)"
proof -
  have "m_last_index s \<le> rec_index r"
    using assms by (auto simp: can_insert_def)
  with assms show ?thesis
    by (simp add: mem_inv_def mem_store_view insert_view_ok)
qed

lemma mem_insert_law:
  assumes "mem_inv s" and "can_insert (mem_view s) r"
  shows "\<exists>t. mem_insert_entry r s = (Inr (place (mem_view s) r), t) \<and> mem_inv t \<and>
             mem_view t = insert_view (place (mem_view s) r) (mem_view s)"
proof (intro exI conjI)
  let ?p = "place (mem_view s) r"
  have p: "can_insert (mem_view s) ?p" "rec_index ?p \<noteq> 0" "m_last_index s \<le> rec_index ?p"
    using place_can_insert [of "mem_view s" r] assms by (simp_all add: mem_inv_def)
  show "mem_insert_entry r s = (Inr ?p, mem_store ?p s)"
    using assms by (auto simp: mem_insert_entry_def run Let_def place_def can_insert_def
        mem_inv_def view_ok_def)
  show "mem_inv (mem_store ?p s)" "mem_view (mem_store ?p s) = insert_view ?p (mem_view s)"
    using mem_store_inv mem_store_view assms(1) p by simp_all
qed

text \<open>A read marks the stored record, which no client observes.\<close>

lemma content_mem_mark [simp]: "content (mem_mark s r) = content r"
  by (simp add: mem_mark_def Let_def)

lemma mem_give_law:
  assumes "mem_inv s"
  shows "\<exists>r t. mem_give i s = (Inr r, t) \<and> mem_inv t \<and> mem_view t = mem_view s \<and>
               map_option content r = mem_ents s i"
proof (cases "dict_get (m_entries s) i")
  case None
  with assms show ?thesis
    by (simp add: mem_give_def run mem_get_entry_at_def mem_ents_def)
next
  case (Some r)
  let ?t = "s\<lparr>m_entries := dict_set i (mem_mark s r) (m_entries s)\<rparr>"
  have v: "mem_view ?t = mem_view s"
    using Some by (subst mem_view_eqI [of _ s])
      (simp_all add: view_def mem_ents_def fun_eq_iff)
  with assms have "mem_inv ?t" by (simp add: mem_inv_def)
  with v Some show ?thesis
    by (simp add: mem_give_def run mem_get_entry_at_def mem_ents_def Let_def)
qed

lemma mem_read_law:
  assumes "mem_inv s" and "1 \<le> i"
  shows "\<exists>r t. mem_read (Some i) s = (Inr r, t) \<and> mem_inv t \<and> mem_view t = mem_view s \<and>
               map_option content r = mem_ents s i"
proof (cases "mem_ents s i")
  case None
  then have "mem_give i s = (Inr None, s)"
    by (simp add: mem_give_def run mem_get_entry_at_def mem_ents_def)
  with None assms show ?thesis
    by (auto simp: mem_read_def run split: option.splits)
next
  case (Some r)
  with mem_dom(1) [OF assms(1), of i] have "i \<le> m_last_index s" "\<exists>f. m_first_index s = Some f \<and> f \<le> i"
    using assms(1) by (simp_all add: mem_inv_def view_ok_def)
  with assms mem_give_law [of s i] show ?thesis
    by (auto simp: mem_read_def run)
qed

text \<open>Deleting: an emptied log, with and without a snapshot, and one that keeps records.\<close>

lemma mem_delete_keys:
  assumes "mem_inv s" and "can_delete i (mem_view s)"
  shows "sort (dict_keys (dict_filter (\<lambda>k. \<not> k \<ge> i) (m_entries s))) =
         [snap_base (m_snapshot s) + 1..i - 1]"
proof (rule sort_interval)
  show "set (dict_keys (dict_filter (\<lambda>k. \<not> k \<ge> i) (m_entries s))) = {snap_base (m_snapshot s) + 1..i - 1}"
    using assms(2) unfolding dict_keys_filter set_filter mem_dom(2) [OF assms(1)]
    by (auto simp: can_delete_def)
qed (use assms in \<open>simp add: mem_inv_def\<close>)

lemma mem_delete_emptied:
  assumes "mem_inv s" and "can_delete i (mem_view s)" and "i = snap_base (m_snapshot s) + 1"
  shows "mem_delete_all_from i s =
    (Inr (), case m_snapshot s of
       None \<Rightarrow> s\<lparr>m_entries := [], m_first_index := None, m_last_index := 0, m_term := 0\<rparr>
     | Some sn \<Rightarrow> s\<lparr>m_entries := [], m_first_index := None, m_last_index := snap_index sn,
                   m_last_term := snap_term sn\<rparr>)"
proof -
  have "sort (dict_keys (dict_filter (\<lambda>k. \<not> k \<ge> i) (m_entries s))) = []"
    using mem_delete_keys [OF assms(1,2)] assms(3) by simp
  then have "dict_filter (\<lambda>k. \<not> k \<ge> i) (m_entries s) = []"
    by (metis list.map_disc_iff length_0_conv length_sort)
  with assms show ?thesis
    by (auto simp: mem_delete_all_from_def can_delete_def run Let_def split: option.splits)
qed

lemma mem_delete_kept:
  assumes "mem_inv s" and "can_delete i (mem_view s)" and "snap_base (m_snapshot s) + 1 < i"
  shows "\<exists>r. dict_get (m_entries s) (i - 1) = Some r \<and> mem_delete_all_from i s =
    (Inr (), s\<lparr>m_entries := dict_filter (\<lambda>k. \<not> k \<ge> i) (m_entries s),
      m_first_index := Some (snap_base (m_snapshot s) + 1), m_last_index := i - 1,
      m_last_term := rec_term r\<rparr>)"
proof -
  have b: "0 \<le> snap_base (m_snapshot s)"
    using assms(1) by (simp add: mem_inv_def view_ok_def)
  obtain r where r: "dict_get (m_entries s) (i - 1) = Some r"
    using mem_dom(1) [OF assms(1), of "i - 1"] assms(2,3) by (auto simp: can_delete_def mem_ents_def)
  have ks: "[snap_base (m_snapshot s) + 1..i - 1] \<noteq> []"
    using assms(3) by simp
  show ?thesis
    using assms(2,3) b r ks mem_delete_keys [OF assms(1,2)]
    by (auto simp: mem_delete_all_from_def can_delete_def run Let_def split: option.splits)
qed

lemma mem_delete_law:
  assumes inv: "mem_inv s" and can: "can_delete i (mem_view s)"
  shows "\<exists>t. mem_delete_all_from i s = (Inr (), t) \<and> mem_inv t \<and>
             deleted_from i (mem_view s) (mem_view t)"
proof (cases "snap_base (m_snapshot s) + 1 = i")
  case True
  have none: "mem_ents s j = None" if "j < i" for j
    using mem_dom(1) [OF inv, of j] that True by simp
  obtain t where t: "mem_delete_all_from i s = (Inr (), t)"
    and e: "m_entries t = []" "m_last_index t = i - 1" "m_first_index t = None"
    and del: "deleted_from i (mem_view s) (mem_view t)"
    using mem_delete_emptied [OF inv can True [symmetric]] none True
    by (auto simp: deleted_from_def mem_ents_def fun_eq_iff split: option.splits)
  have "view_ok (mem_view t)"
    by (rule deleted_from_ok [OF _ can del]) (use True e none inv in \<open>auto simp: mem_inv_def\<close>)
  with t e del show ?thesis by (simp add: mem_inv_def)
next
  case False
  with can have "snap_base (m_snapshot s) + 1 < i" by (simp add: can_delete_def)
  from mem_delete_kept [OF inv can this] obtain r where r: "dict_get (m_entries s) (i - 1) = Some r"
    and t: "mem_delete_all_from i s = (Inr (), s\<lparr>m_entries := dict_filter (\<lambda>k. \<not> k \<ge> i) (m_entries s),
      m_first_index := Some (snap_base (m_snapshot s) + 1), m_last_index := i - 1,
      m_last_term := rec_term r\<rparr>)" (is "_ = (_, ?t)") by blast
  have del: "deleted_from i (mem_view s) (mem_view ?t)"
    by (auto simp: deleted_from_def mem_ents_def fun_eq_iff)
  have "view_ok (mem_view ?t)"
    by (rule deleted_from_ok [OF _ can del])
       (use inv r \<open>snap_base (m_snapshot s) + 1 < i\<close> in \<open>auto simp: mem_inv_def mem_ents_def\<close>)
  with t inv del show ?thesis by (simp add: mem_inv_def)
qed

lemma mem_install_law:
  assumes inv: "mem_inv s" and can: "can_install sn (mem_view s)"
  shows "\<exists>t. mem_install_snapshot sn s = (Inr (), t) \<and> mem_inv t \<and>
             mem_view t = snapshot_view sn (mem_view s)"
proof -
  let ?n = "snap_index sn" and ?es = "dict_filter (\<lambda>k. \<not> k \<le> snap_index sn) (m_entries s)"
  have n: "0 < ?n" "snap_base (m_snapshot s) \<le> ?n" "?n < m_last_index s \<Longrightarrow> snap_term sn \<le> m_last_term s"
    using can by (simp_all add: can_install_def)
  have kept: "mem_ents s j = None" if "m_last_index s \<le> ?n" "?n < j" for j
    using mem_dom(1) [OF inv, of j] that by simp
  have empty: "?es = [] \<longleftrightarrow> m_last_index s \<le> ?n"
  proof -
    have "?es = [] \<longleftrightarrow> (\<forall>j. j \<in> set (dict_keys (m_entries s)) \<longrightarrow> j \<le> ?n)"
      by (auto simp: dict_filter_def filter_empty_conv)
    then show ?thesis
      unfolding mem_dom(2) [OF inv] using n(2) by (meson linorder_not_less order.trans order_refl)
  qed
  show ?thesis
  proof (cases "m_last_index s \<le> ?n")
    case True
    let ?t = "s\<lparr>m_snapshot := Some sn, m_entries := [], m_first_index := None,
                 m_last_index := ?n, m_last_term := snap_term sn\<rparr>"
    have t: "mem_install_snapshot sn s = (Inr (), ?t)"
      using True empty n(1) by (simp add: mem_install_snapshot_def mem_delete_ending_with_def run Let_def)
    have v: "mem_view ?t = snapshot_view sn (mem_view s)"
      using True kept by (simp add: view_def snapshot_view_def fun_eq_iff mem_ents_def)
    have "mem_inv ?t"
      using snapshot_view_ok [OF _ can] inv v by (simp add: mem_inv_def)
    with t v show ?thesis by blast
  next
    case False
    let ?t = "s\<lparr>m_snapshot := Some sn, m_entries := ?es, m_first_index := Some (?n + 1)\<rparr>"
    have t: "mem_install_snapshot sn s = (Inr (), ?t)"
      using False empty n
      by (simp add: mem_install_snapshot_def mem_delete_ending_with_def run Let_def max_def)
    have v: "mem_view ?t = snapshot_view sn (mem_view s)"
      using False by (simp add: view_def snapshot_view_def fun_eq_iff mem_ents_def max_def)
    have "mem_inv ?t"
      using snapshot_view_ok [OF _ can] inv v by (simp add: mem_inv_def)
    with t v show ?thesis by blast
  qed
qed

text \<open>An operation that leaves the records alone changes one field of the view and keeps the invariant.\<close>

lemma mem_view_frame [simp]:
  "mem_view (s\<lparr>m_broken := a\<rparr>) = (mem_view s)\<lparr>v_broken := a\<rparr>"
  "mem_view (s\<lparr>m_uri := b\<rparr>) = (mem_view s)\<lparr>v_uri := b\<rparr>"
  "mem_view (s\<lparr>m_term := c\<rparr>) = (mem_view s)\<lparr>v_term := c\<rparr>"
  "mem_view (s\<lparr>m_voted_for := b\<rparr>) = (mem_view s)\<lparr>v_voted := b\<rparr>"
  "mem_view (s\<lparr>m_max_commit := c\<rparr>) = (mem_view s)\<lparr>v_commit := c\<rparr>"
  "mem_view (s\<lparr>m_max_apply := c\<rparr>) = (mem_view s)\<lparr>v_applied := c\<rparr>"
  "mem_view (s\<lparr>m_nodes := Some ns, m_pending_node := p, m_cluster_settings := Some st\<rparr>) =
     (mem_view s)\<lparr>v_config := Some \<lparr>nodes = ns, pending_node = p, settings = st\<rparr>\<rparr>"
  by (simp_all add: view_def mem_ents_def fun_eq_iff) (simp add: mem_get_cluster_config_def)

lemma mem_inv_frame [simp]:
  "mem_inv (s\<lparr>m_broken := a\<rparr>) = mem_inv s" "mem_inv (s\<lparr>m_uri := b\<rparr>) = mem_inv s"
  "mem_inv (s\<lparr>m_term := c\<rparr>) = mem_inv s" "mem_inv (s\<lparr>m_voted_for := b\<rparr>) = mem_inv s"
  "mem_inv (s\<lparr>m_max_commit := c\<rparr>) = mem_inv s" "mem_inv (s\<lparr>m_max_apply := c\<rparr>) = mem_inv s"
  "mem_inv (s\<lparr>m_nodes := Some ns, m_pending_node := p, m_cluster_settings := Some st\<rparr>) = mem_inv s"
  by (simp_all add: mem_inv_def)

interpretation mem: raft_log memory_api mem_inv mem_ents
proof (unfold_locales, goal_cases)
  case (1 s) then show ?case by (simp add: mem_inv_def)
next
  case (8 s r) then show ?case using mem_insert_law [of s r] by simp
next
  case (9 s r) then show ?case by (simp add: mem_insert_entry_def run mem_inv_def view_ok_def)
next
  case (13 s i) then show ?case using mem_read_law by simp
next
  case (15 s i) then show ?case using mem_delete_law by simp
next
  case (16 s sn i) then show ?case by (simp add: mem_delete_all_from_def run)
next
  case (18 s sn) then show ?case using mem_install_law by simp
next
  case (17 s c) then show ?case
    by (auto simp: run mem_save_cluster_config_def intro!: exI [of _ c] config_same_refl)
qed (simp_all add: run mem_read_def mem_install_snapshot_def mem_save_cluster_config_def)

section \<open>Statistics\<close>

text \<open>In a well-formed log the number of records is what lies between the snapshot and the last index.\<close>

lemma mem_stats_count:
  assumes "mem_inv s"
  shows "st_record_count (mem_get_stats s) = st_records_since_snapshot (mem_get_stats s)"
proof -
  have "set (dict_keys (m_entries s)) = {snap_base (m_snapshot s)<..m_last_index s}"
    by (rule set_eqI) (simp only: mem_dom(2) [OF assms] greaterThanAtMost_iff)
  then have "card (set (dict_keys (m_entries s))) = nat (m_last_index s - snap_base (m_snapshot s))"
    by (simp del: set_map)
  moreover have "card (set (dict_keys (m_entries s))) = length (m_entries s)"
    using assms by (metis distinct_card length_map mem_inv_def)
  moreover have "snap_base (m_snapshot s) \<le> m_last_index s"
    using assms by (simp add: mem_inv_def view_ok_def)
  ultimately show ?thesis
    by (simp add: mem_get_stats_def Let_def snap_base_def split: option.splits)
qed

lemma mem_delete_term:
  assumes "mem_inv s" and "can_delete i (mem_view s)"
  shows "m_term (snd (mem_delete_all_from i s)) = (if m_snapshot s = None \<and> i = 1 then 0 else m_term s)"
proof (cases "snap_base (m_snapshot s) + 1 = i")
  case True
  with mem_delete_emptied [OF assms] show ?thesis by (auto split: option.splits)
next
  case False
  with assms(2) have "snap_base (m_snapshot s) + 1 < i" by (simp add: can_delete_def)
  with mem_delete_kept [OF assms] show ?thesis by auto
qed

definition one_record_log :: MemoryLog where
  "one_record_log = snd (mem_insert_entry (new_LogRec client_command 7 None)
     ((new_MemoryLog 0)\<lparr>m_term := 7\<rparr>))"

lemma one_record_log_eq:
  "one_record_log = (new_MemoryLog 0)\<lparr>m_term := 7, m_last_index := 1, m_last_term := 7,
     m_first_index := Some 1, m_entries := [(1, (new_LogRec client_command 7 None)\<lparr>rec_index := 1\<rparr>)],
     m_record_timestamps := [0], m_last_record_time := Some 0\<rparr>"
  by (simp add: one_record_log_def mem_insert_entry_def new_MemoryLog_def new_LogRec_def run Let_def
      mem_store_def mem_track_time_def)

lemma one_record_log_inv: "mem_inv one_record_log"
  by (auto simp: one_record_log_eq mem_inv_def view_ok_def mem_ents_def new_MemoryLog_def new_LogRec_def)

text \<open>C14. \<open>MemoryLog\<close> does what the engine relies on: from the state the constructor makes, every operation succeeds or
  raises exactly as \<open>raft_log\<close> says, has the abstract effect on what a client observes, and keeps the records free of
  gaps between the snapshot and the last index. A deletion keeps the current term except that of the only records of a
  log without a snapshot, which resets it to 0. Two sentences of the \<open>LogAPI\<close> documentation do not hold of it: a change
  of the term does not clear the vote, and an installed snapshot does not move the commit and applied indexes.
\<close>

theorem memory_log_contract:
  "raft_log memory_api mem_inv mem_ents \<and> mem_inv (new_MemoryLog clock) \<and>
   (\<forall>s i. mem_inv s \<and> can_delete i (mem_view s) \<longrightarrow>
      m_term (snd (mem_delete_all_from i s)) = (if m_snapshot s = None \<and> i = 1 then 0 else m_term s)) \<and>
   \<not> clears_vote memory_api mem_inv \<and> \<not> snapshot_baseline memory_api mem_inv mem_ents"
  using mem.raft_log_axioms mem_inv_new mem_delete_term mem.keeps_vote mem.keeps_progress by blast

theorem memory_log_contract_witness:
  "raft_log memory_api mem_inv mem_ents \<and> mem_inv one_record_log \<and> m_term one_record_log = 7 \<and>
   m_term (snd (mem_delete_all_from 1 one_record_log)) = 0"
  using memory_log_contract one_record_log_inv
  by (simp add: one_record_log_eq new_MemoryLog_def can_delete_def)

text \<open>Deleting the only records of a \<open>MemoryLog\<close> without a snapshot resets the current term to 0:
  the branch of \<open>delete_all_from\<close> for an emptied log assigns \<open>self.term\<close> where the other branches
  assign \<open>self.last_term\<close>, which keeps the term of a record that is gone.
\<close>

theorem memory_delete_resets_term:
  assumes "mem_inv s" and "m_snapshot s = None" and "1 \<le> m_last_index s"
  shows "\<exists>t. mem_delete_all_from 1 s = (Inr (), t) \<and> m_term t = 0 \<and> m_last_term t = m_last_term s"
  using mem_delete_emptied [of s 1] assms by (simp add: can_delete_def)

theorem memory_delete_resets_term_witness:
  "\<exists>t. mem_delete_all_from 1 one_record_log = (Inr (), t) \<and> m_term t = 0 \<and> m_last_term t = 7"
  using memory_delete_resets_term [of one_record_log] one_record_log_inv
  by (simp add: one_record_log_eq new_MemoryLog_def)

end
