(* ===== verification/Sqlite_Log.thy ===== *)
theory Sqlite_Log
  imports Log_Api
begin

text \<open>
  \<open>SqliteLog\<close> and its \<open>Records\<close> of \<open>src/raftengine/extras/sqlite_log/sqlite_log.py\<close>. The database is
  its tables as seen by the connection (\<open>r_work\<close>) and as last committed (\<open>r_disk\<close>); the attributes
  that mirror the \<open>stats\<close> row are one record of the same shape. The class meets \<open>stable_log\<close>, every
  operation that returns has committed what it did, and opening the file again gives back the
  same observations. The queries are modelled on an open connection, which they reopen otherwise.
\<close>

section \<open>Tables and attributes\<close>

text \<open>
  A row of \<open>records\<close>. The \<open>serial\<close> column holds the decimal text of the number, which \<open>int\<close> reads
  back, and is the number here.
\<close>

record rec_row =
  row_code :: RecordCode
  row_command :: "pystr option"
  row_term :: int
  row_leader_id :: "uri option"
  row_serial :: "int option"
  row_timestamp :: time

record SqliteDB =
  tab_records :: "(int \<times> rec_row) list"
  tab_stats :: "stats_row option"
  tab_nodes :: "NodeRec list"
  tab_settings :: "ClusterSettings option"
  tab_snapshot :: "SnapShot option"

record Records =
  enable_wal :: bool
  r_open :: bool
  r_disk :: SqliteDB
  r_work :: SqliteDB
  r_stats :: stats_row
  r_snapshot :: "SnapShot option"
  r_now :: time

definition empty_db :: SqliteDB where
  "empty_db = \<lparr>tab_records = [], tab_stats = None, tab_nodes = [], tab_settings = None, tab_snapshot = None\<rparr>"

text \<open>A fresh object on a database file; the attributes of the \<open>stats\<close> row are set when it is opened.\<close>

definition new_Records :: "bool \<Rightarrow> time \<Rightarrow> SqliteDB \<Rightarrow> Records" where
  "new_Records wal clock db = \<lparr>enable_wal = wal, r_open = False, r_disk = db, r_work = db,
     r_stats = \<lparr>max_index = 0, cur_term = -1, voted_for = None, broken = False, max_commit = 0,
       max_apply = 0, own_uri = None\<rparr>,
     r_snapshot = None, r_now = clock\<rparr>"

section \<open>Statements and transactions\<close>

text \<open>
  \<open>cursor.execute\<close> of a statement that changes the tables: with \<open>isolation_level=None\<close> (the
  write-ahead mode) it is committed at once, otherwise at the next \<open>commit\<close>.
\<close>

definition execute :: "(SqliteDB \<Rightarrow> SqliteDB) \<Rightarrow> (Records, unit) eff" where
  "execute f = modE (\<lambda>s. let w = f (r_work s) in
     s\<lparr>r_work := w, r_disk := (if enable_wal s then w else r_disk s)\<rparr>)"

definition commit :: "(Records, unit) eff" where
  "commit = modE (\<lambda>s. s\<lparr>r_disk := r_work s\<rparr>)"

definition replace_stats :: "(Records, unit) eff" where
  "replace_stats = bindE (getsE r_stats) (\<lambda>st. execute (\<lambda>d. d\<lparr>tab_stats := Some st\<rparr>))"

definition refresh_stats :: "(Records, unit) eff" where
  "refresh_stats = bindE (getsE (\<lambda>s. tab_stats (r_work s))) (\<lambda>row.
     bindE (some_or TypeError row) (\<lambda>st.
     seqE (modE (\<lambda>s. s\<lparr>r_stats := st\<rparr>))
     (modE (\<lambda>s. case tab_snapshot (r_work s) of None \<Rightarrow> s | Some sn \<Rightarrow> s\<lparr>r_snapshot := Some sn\<rparr>))))"

definition sql_open :: "(Records, unit) eff" where
  "sql_open = seqE (modE (\<lambda>s. s\<lparr>r_open := True, r_work := r_disk s, r_stats := open_stats\<rparr>))
     (bindE (getsE (\<lambda>s. tab_stats (r_work s))) (\<lambda>row.
     seqE (case row of Some _ \<Rightarrow> refresh_stats
           | None \<Rightarrow> execute (\<lambda>d. d\<lparr>tab_stats := Some open_stats\<rparr>))
     (seqE (modE (\<lambda>s. case tab_snapshot (r_work s) of None \<Rightarrow> s | Some sn \<Rightarrow> s\<lparr>r_snapshot := Some sn\<rparr>))
     commit)))"

text \<open>Closing the connection rolls an open transaction back.\<close>

definition sql_close :: "(Records, unit) eff" where
  "sql_close = modE (\<lambda>s. if r_open s then s\<lparr>r_open := False, r_work := r_disk s\<rparr> else s)"

definition ensure_open :: "(Records, unit) eff" where
  "ensure_open = bindE (getsE r_open) (\<lambda>b. whenE (\<not> b) sql_open)"

definition save_stats :: "(Records, unit) eff" where
  "save_stats = seqE ensure_open (seqE replace_stats commit)"

section \<open>Records\<close>

definition row_of :: "time \<Rightarrow> LogRec \<Rightarrow> rec_row" where
  "row_of clock r = \<lparr>row_code = code r, row_command = command r, row_term = rec_term r,
     row_leader_id = leader_id r, row_serial = serial r, row_timestamp = clock\<rparr>"

definition rec_of :: "int \<Rightarrow> rec_row \<Rightarrow> LogRec" where
  "rec_of i w = \<lparr>rec_index = i, rec_term = row_term w, command = row_command w, code = row_code w,
     serial = row_serial w, leader_id = row_leader_id w, committed = False, applied = False\<rparr>"

definition save_entry :: "LogRec \<Rightarrow> (Records, LogRec) eff" where
  "save_entry r = seqE ensure_open
     (seqE (bindE (getsE r_now) (\<lambda>clock.
        execute (\<lambda>d. d\<lparr>tab_records := dict_set (rec_index r) (row_of clock r) (tab_records d)\<rparr>)))
     (seqE (modE (\<lambda>s. if rec_index r > max_index (r_stats s)
                      then s\<lparr>r_stats := (r_stats s)\<lparr>max_index := rec_index r\<rparr>\<rparr> else s))
     (seqE replace_stats (seqE commit (ret r)))))"

text \<open>\<open>select max(rec_index) from records\<close>.\<close>

definition max_rec_index :: "Records \<Rightarrow> int option" where
  "max_rec_index s = (case sort (dict_keys (tab_records (r_work s))) of [] \<Rightarrow> None | ks \<Rightarrow> Some (last ks))"

definition read_entry :: "int option \<Rightarrow> Records \<Rightarrow> LogRec option" where
  "read_entry ix s =
     (case (case ix of None \<Rightarrow> max_rec_index s | Some i \<Rightarrow> Some i) of None \<Rightarrow> None
      | Some i \<Rightarrow>
          (case dict_get (tab_records (r_work s)) i of None \<Rightarrow> None
           | Some w \<Rightarrow>
               (let r = rec_of i w;
                    r1 = (if max_commit (r_stats s) \<ge> i then r\<lparr>committed := True\<rparr> else r)
                in Some (if max_apply (r_stats s) \<ge> i then r1\<lparr>applied := True\<rparr> else r1))))"

definition get_entry_at :: "int \<Rightarrow> Records \<Rightarrow> LogRec option" where
  "get_entry_at i s = (if i < 1 then None else read_entry (Some i) s)"

definition set_stat :: "(stats_row \<Rightarrow> stats_row) \<Rightarrow> (Records, unit) eff" where
  "set_stat f = seqE (modE (\<lambda>s. s\<lparr>r_stats := f (r_stats s)\<rparr>)) save_stats"

definition set_commit_index :: "int \<Rightarrow> (Records, unit) eff" where
  "set_commit_index i = seqE ensure_open (bindE (getsE (\<lambda>s. max_commit (r_stats s))) (\<lambda>m.
     whenE (i > m) (set_stat (\<lambda>st. st\<lparr>max_commit := i\<rparr>))))"

definition set_apply_index :: "int \<Rightarrow> (Records, unit) eff" where
  "set_apply_index i = seqE ensure_open (bindE (getsE (\<lambda>s. max_apply (r_stats s))) (\<lambda>m.
     whenE (i > m) (set_stat (\<lambda>st. st\<lparr>max_apply := i\<rparr>))))"

definition sql_delete_all_from :: "int \<Rightarrow> (Records, unit) eff" where
  "sql_delete_all_from i = bindE (getsE id) (\<lambda>s.
     if (case r_snapshot s of None \<Rightarrow> False | Some sn \<Rightarrow> i < snap_index sn + 1)
     then throw (DeleteInSnapshot i)
     else if max_index (r_stats s) < i then throw (DeletePastMax i (max_index (r_stats s)))
     else seqE ensure_open
       (seqE (execute (\<lambda>d. d\<lparr>tab_records := dict_filter (\<lambda>k. \<not> k \<ge> i) (tab_records d)\<rparr>))
       (seqE (modE (\<lambda>s. let m = (if i > 0 then i - 1 else 0) in
          s\<lparr>r_stats := (r_stats s)\<lparr>max_index := m, max_commit := min m (max_commit (r_stats s)),
                                  max_apply := min m (max_apply (r_stats s))\<rparr>\<rparr>))
       (seqE replace_stats commit))))"

section \<open>Cluster configuration and snapshot\<close>

text \<open>\<open>insert into nodes\<close>: the uri is the primary key.\<close>

definition insert_node :: "NodeRec \<Rightarrow> (Records, unit) eff" where
  "insert_node n = bindE (getsE (\<lambda>s. tab_nodes (r_work s))) (\<lambda>rows.
     if node_uri n \<in> set (map node_uri rows) then throw IntegrityError
     else execute (\<lambda>d. d\<lparr>tab_nodes := tab_nodes d @ [n]\<rparr>))"

definition sql_save_cluster_config :: "ClusterConfig \<Rightarrow> (Records, ClusterConfig) eff" where
  "sql_save_cluster_config c = seqE ensure_open
     (seqE (execute (\<lambda>d. d\<lparr>tab_nodes := []\<rparr>))
     (seqE (execute (\<lambda>d. d\<lparr>tab_settings := None\<rparr>))
     (seqE (forE (map snd (nodes c)) insert_node)
     (seqE (case pending_node c of None \<Rightarrow> ret () | Some n \<Rightarrow> insert_node n)
     (seqE (execute (\<lambda>d. d\<lparr>tab_settings := Some (settings c)\<rparr>))
     (seqE commit (ret c)))))))"

definition sql_get_cluster_config :: "Records \<Rightarrow> ClusterConfig option" where
  "sql_get_cluster_config s = db_config (tab_nodes (r_work s)) (tab_settings (r_work s))"

definition sql_get_first_index :: "Records \<Rightarrow> int option" where
  "sql_get_first_index s = (case r_snapshot s of
     Some sn \<Rightarrow> if max_index (r_stats s) > snap_index sn then Some (snap_index sn + 1) else None
   | None \<Rightarrow> if max_index (r_stats s) > 0 then Some 1 else None)"

definition sql_get_last_index :: "Records \<Rightarrow> int" where
  "sql_get_last_index s = (case r_snapshot s of None \<Rightarrow> max_index (r_stats s)
     | Some sn \<Rightarrow> max (max_index (r_stats s)) (snap_index sn))"

definition special_install_snapshot :: "SnapShot \<Rightarrow> (Records, unit) eff" where
  "special_install_snapshot sn = seqE ensure_open
     (seqE (execute (\<lambda>d. d\<lparr>tab_snapshot := None\<rparr>))
     (seqE (execute (\<lambda>d. d\<lparr>tab_snapshot := Some sn\<rparr>))
     (seqE (execute (\<lambda>d. d\<lparr>tab_records := dict_filter (\<lambda>k. \<not> k \<le> snap_index sn) (tab_records d)\<rparr>))
     (seqE commit
     (seqE (modE (\<lambda>s. s\<lparr>r_stats := (r_stats s)\<lparr>max_index := max (snap_index sn) (max_index (r_stats s))\<rparr>,
                       r_snapshot := Some sn\<rparr>))
     save_stats)))))"

definition sql_install_snapshot :: "SnapShot \<Rightarrow> (Records, unit) eff" where
  "sql_install_snapshot sn = seqE ensure_open
     (if snap_index sn = 0 then throw SnapshotAtZero
      else seqE (execute (\<lambda>d. d\<lparr>tab_snapshot := None\<rparr>))
        (seqE (execute (\<lambda>d. d\<lparr>tab_snapshot := Some sn\<rparr>))
        (seqE (execute (\<lambda>d. d\<lparr>tab_records := dict_filter (\<lambda>k. \<not> k \<le> snap_index sn) (tab_records d)\<rparr>))
        (seqE commit
        (seqE (modE (\<lambda>s. s\<lparr>r_stats := (r_stats s)\<lparr>max_index := max (snap_index sn) (max_index (r_stats s))\<rparr>,
                          r_snapshot := Some sn\<rparr>))
        save_stats)))))"

section \<open>The log object\<close>

definition sql_insert :: "LogRec \<Rightarrow> (Records, LogRec) eff" where
  "sql_insert r = bindE (getsE (\<lambda>s. max_index (r_stats s))) (\<lambda>m.
     if rec_index r = 0 then save_entry (r\<lparr>rec_index := m + 1\<rparr>)
     else if rec_index r > m + 1 then throw InsertPastLast
     else if rec_index r < 1 then throw InsertBelowOne
     else save_entry r)"

definition sql_read :: "int option \<Rightarrow> (Records, LogRec option) eff" where
  "sql_read ix = bindE (getsE id) (\<lambda>s.
     case ix of None \<Rightarrow> ret (get_entry_at (max_index (r_stats s)) s)
     | Some i \<Rightarrow> if i < 1 then throw (ReadBelowOne i)
                 else if i > max_index (r_stats s) then ret None
                 else ret (get_entry_at i s))"

definition sql_get_last_term :: "Records \<Rightarrow> int" where
  "sql_get_last_term s = (case read_entry None s of
     None \<Rightarrow> (case r_snapshot s of Some sn \<Rightarrow> snap_term sn | None \<Rightarrow> 0)
   | Some r \<Rightarrow> rec_term r)"

definition sql_get_stats :: "int \<Rightarrow> Records \<Rightarrow> LogStats" where
  "sql_get_stats file_size s =
     (let snapshot_index = (case r_snapshot s of None \<Rightarrow> 0 | Some sn \<Rightarrow> snap_index sn);
          ts = sort (map (row_timestamp \<circ> snd) (tab_records (r_work s))) in
      \<lparr>st_first_index = sql_get_first_index s, st_last_index = sql_get_last_index s,
       st_last_term = sql_get_last_term s, st_commit_index = max_commit (r_stats s),
       st_applied_index = max_apply (r_stats s), st_record_count = int (length (tab_records (r_work s))),
       st_records_since_snapshot = max 0 (max_index (r_stats s) - snapshot_index),
       st_records_per_minute = recent_rate (r_now s) ts,
       st_percent_remaining = None, st_total_size_bytes = file_size,
       st_snapshot_index = (if snapshot_index > 0 then Some snapshot_index else None),
       st_last_record_timestamp = (if ts = [] \<or> last ts = 0 then None else Some (last ts))\<rparr>)"

definition sqlite_api :: "Records LogAPI" where
  "sqlite_api =
     \<lparr>get_broken = broken \<circ> r_stats,
      set_broken = seqE ensure_open (set_stat (\<lambda>st. st\<lparr>broken := True\<rparr>)),
      set_fixed = seqE ensure_open (set_stat (\<lambda>st. st\<lparr>broken := False\<rparr>)),
      get_uri = own_uri \<circ> r_stats,
      set_uri = (\<lambda>u. set_stat (\<lambda>st. st\<lparr>own_uri := Some u\<rparr>)),
      get_term = cur_term \<circ> r_stats,
      set_term = (\<lambda>v. set_stat (\<lambda>st. st\<lparr>cur_term := v\<rparr>)),
      incr_term = seqE (set_stat (\<lambda>st. st\<lparr>cur_term := cur_term st + 1\<rparr>)) (getsE (cur_term \<circ> r_stats)),
      get_voted_for = voted_for \<circ> r_stats,
      set_voted_for = (\<lambda>v. seqE ensure_open (set_stat (\<lambda>st. st\<lparr>voted_for := v\<rparr>))),
      get_last_index = sql_get_last_index,
      get_first_index = sql_get_first_index,
      get_last_term = sql_get_last_term,
      get_commit_index = max_commit \<circ> r_stats,
      get_applied_index = max_apply \<circ> r_stats,
      log_append = sql_insert,
      log_insert = sql_insert,
      mark_committed = set_commit_index,
      mark_applied = set_apply_index,
      log_read = sql_read,
      delete_all_from = sql_delete_all_from,
      save_cluster_config = sql_save_cluster_config,
      get_cluster_config = sql_get_cluster_config,
      install_snapshot = sql_install_snapshot,
      get_snapshot = r_snapshot\<rparr>"

lemma sql_api_simps [simp]:
  "get_broken sqlite_api = broken \<circ> r_stats" "get_uri sqlite_api = own_uri \<circ> r_stats"
  "get_term sqlite_api = cur_term \<circ> r_stats" "get_voted_for sqlite_api = voted_for \<circ> r_stats"
  "get_last_index sqlite_api = sql_get_last_index" "get_first_index sqlite_api = sql_get_first_index"
  "get_last_term sqlite_api = sql_get_last_term" "get_commit_index sqlite_api = max_commit \<circ> r_stats"
  "get_applied_index sqlite_api = max_apply \<circ> r_stats"
  "get_cluster_config sqlite_api = sql_get_cluster_config" "get_snapshot sqlite_api = r_snapshot"
  "log_insert sqlite_api = sql_insert" "log_append sqlite_api = sql_insert"
  "log_read sqlite_api = sql_read" "delete_all_from sqlite_api = sql_delete_all_from"
  "save_cluster_config sqlite_api = sql_save_cluster_config"
  "install_snapshot sqlite_api = sql_install_snapshot"
  "set_broken sqlite_api = seqE ensure_open (set_stat (\<lambda>st. st\<lparr>broken := True\<rparr>))"
  "set_fixed sqlite_api = seqE ensure_open (set_stat (\<lambda>st. st\<lparr>broken := False\<rparr>))"
  "set_uri sqlite_api = (\<lambda>u. set_stat (\<lambda>st. st\<lparr>own_uri := Some u\<rparr>))"
  "set_term sqlite_api = (\<lambda>v. set_stat (\<lambda>st. st\<lparr>cur_term := v\<rparr>))"
  "incr_term sqlite_api = seqE (set_stat (\<lambda>st. st\<lparr>cur_term := cur_term st + 1\<rparr>)) (getsE (cur_term \<circ> r_stats))"
  "set_voted_for sqlite_api = (\<lambda>v. seqE ensure_open (set_stat (\<lambda>st. st\<lparr>voted_for := v\<rparr>)))"
  "mark_committed sqlite_api = set_commit_index" "mark_applied sqlite_api = set_apply_index"
  by (simp_all add: sqlite_api_def)

section \<open>Invariant\<close>

text \<open>
  Nothing is pending: the committed tables are the ones the connection sees, and they hold the
  attributes. The records fill the indexes between the snapshot and \<open>max_index\<close>.
\<close>

definition durable :: "Records \<Rightarrow> bool" where
  "durable s \<longleftrightarrow> r_open s \<and> r_disk s = r_work s \<and> tab_stats (r_work s) = Some (r_stats s) \<and>
     tab_snapshot (r_work s) = r_snapshot s"

definition sql_inv :: "Records \<Rightarrow> bool" where
  "sql_inv s \<longleftrightarrow> durable s \<and>
     0 \<le> snap_base (r_snapshot s) \<and> snap_base (r_snapshot s) \<le> max_index (r_stats s) \<and>
     contiguous (tab_records (r_work s)) (snap_base (r_snapshot s)) (max_index (r_stats s))"

lemma sql_row_None: "sql_inv s \<Longrightarrow> dict_get (tab_records (r_work s)) i = None \<longleftrightarrow>
    \<not> (snap_base (r_snapshot s) < i \<and> i \<le> max_index (r_stats s))"
  unfolding sql_inv_def by (intro contiguous_None) simp

definition sql_ents :: "Records \<Rightarrow> int \<Rightarrow> LogRec option" where
  "sql_ents s i = map_option (rec_of i) (dict_get (tab_records (r_work s)) i)"

abbreviation sql_view :: "Records \<Rightarrow> log_view" where
  "sql_view \<equiv> view sqlite_api sql_ents"

text \<open>The end state of every operation that writes: new tables and attributes, committed.\<close>

definition put :: "SqliteDB \<Rightarrow> stats_row \<Rightarrow> Records \<Rightarrow> Records" where
  "put d st s = s\<lparr>r_stats := st, r_work := d\<lparr>tab_stats := Some st\<rparr>, r_disk := d\<lparr>tab_stats := Some st\<rparr>\<rparr>"

lemma put_simps [simp]:
  "r_stats (put d st s) = st" "r_snapshot (put d st s) = r_snapshot s" "r_open (put d st s) = r_open s"
  "r_work (put d st s) = d\<lparr>tab_stats := Some st\<rparr>" "r_disk (put d st s) = d\<lparr>tab_stats := Some st\<rparr>"
  by (simp_all add: put_def)

lemma durable_put: "r_open s \<Longrightarrow> tab_snapshot d = r_snapshot s \<Longrightarrow> durable (put d st s)"
  by (simp add: durable_def)

lemma content_rec_of [simp]: "content (rec_of i w) = rec_of i w"
  by (simp add: content_def rec_of_def)

lemma rec_of_simps [simp]: "rec_index (rec_of i w) = i" "rec_term (rec_of i w) = row_term w"
  by (simp_all add: rec_of_def)

lemma rec_of_row_of [simp]: "rec_of (rec_index r) (row_of clock r) = content r"
  by (simp add: rec_of_def row_of_def content_def)

lemma max_rec_index_inv:
  assumes "sql_inv s"
  shows "max_rec_index s = (if snap_base (r_snapshot s) < max_index (r_stats s)
                            then Some (max_index (r_stats s)) else None)"
proof -
  have "sort (dict_keys (tab_records (r_work s))) = [snap_base (r_snapshot s) + 1..max_index (r_stats s)]"
    using assms by (simp add: sql_inv_def contiguous_keys)
  then show ?thesis
    by (auto simp: max_rec_index_def split: list.split)
       (metis last.simps last_upto add1_zle_eq)+
qed

lemma sql_last_term:
  assumes "sql_inv s"
  shows "sql_get_last_term s =
    or_else (snap_last_term (r_snapshot s))
      (map_option row_term (dict_get (tab_records (r_work s)) (max_index (r_stats s))))"
  using sql_row_None [OF assms, of "max_index (r_stats s)"]
  by (cases "dict_get (tab_records (r_work s)) (max_index (r_stats s))")
     (simp_all add: sql_get_last_term_def read_entry_def max_rec_index_inv [OF assms] Let_def
       snap_last_term_def split: option.split)

lemma sql_last_index: "sql_inv s \<Longrightarrow> sql_get_last_index s = max_index (r_stats s)"
  by (auto simp: sql_get_last_index_def sql_inv_def split: option.splits)

lemma sql_first_index: "sql_inv s \<Longrightarrow> sql_get_first_index s =
    (if snap_base (r_snapshot s) < max_index (r_stats s) then Some (snap_base (r_snapshot s) + 1) else None)"
  by (auto simp: sql_get_first_index_def sql_inv_def split: option.splits)

lemma sql_inv_view:
  assumes "sql_inv s"
  shows "view_ok (sql_view s)"
proof -
  have "(sql_ents s i \<noteq> None) = (snap_base (r_snapshot s) < i \<and> i \<le> max_index (r_stats s))" for i
    using sql_row_None [OF assms, of i] by (auto simp: sql_ents_def)
  moreover have "rec_index r = i" if "sql_ents s i = Some r" for i r
    using that by (auto simp: sql_ents_def)
  moreover have "sql_get_last_term s = rec_term r" if "sql_ents s (max_index (r_stats s)) = Some r" for r
    using that by (auto simp: sql_ents_def sql_last_term [OF assms])
  ultimately show ?thesis
    using assms unfolding view_ok_def view_simps sql_api_simps sql_last_index [OF assms] sql_first_index [OF assms]
    by (simp add: sql_inv_def)
qed

section \<open>Results of the operations\<close>

lemma sql_inv_open [simp]: "sql_inv s \<Longrightarrow> r_open s"
  by (simp add: sql_inv_def durable_def)

lemma ensure_open_run: "r_open s \<Longrightarrow> ensure_open s = (Inr (), s)"
  by (simp add: ensure_open_def run)

lemma set_stat_run:
  "r_open s \<Longrightarrow> set_stat f s = (Inr (), put (r_work s) (f (r_stats s)) s)"
  by (simp add: set_stat_def save_stats_def replace_stats_def execute_def commit_def run put_def
      ensure_open_def Let_def)

lemma save_entry_run:
  "r_open s \<Longrightarrow> save_entry r s = (Inr r,
     put ((r_work s)\<lparr>tab_records := dict_set (rec_index r) (row_of (r_now s) r) (tab_records (r_work s))\<rparr>)
         ((r_stats s)\<lparr>max_index := max (rec_index r) (max_index (r_stats s))\<rparr>) s)"
  by (simp add: save_entry_def replace_stats_def execute_def commit_def run put_def
      ensure_open_def Let_def max_def)

lemma sql_delete_run:
  assumes "r_open s" and "snap_base (r_snapshot s) < i" and "i \<le> max_index (r_stats s)"
    and "0 \<le> snap_base (r_snapshot s)"
  shows "sql_delete_all_from i s = (Inr (),
     put ((r_work s)\<lparr>tab_records := dict_filter (\<lambda>k. \<not> k \<ge> i) (tab_records (r_work s))\<rparr>)
         ((r_stats s)\<lparr>max_index := i - 1, max_commit := min (i - 1) (max_commit (r_stats s)),
            max_apply := min (i - 1) (max_apply (r_stats s))\<rparr>) s)"
  using assms
  by (auto simp: sql_delete_all_from_def replace_stats_def execute_def commit_def run put_def
      ensure_open_def Let_def split: option.splits)

lemma sql_install_run:
  "r_open s \<Longrightarrow> snap_index sn \<noteq> 0 \<Longrightarrow> sql_install_snapshot sn s = (Inr (),
     put ((r_work s)\<lparr>tab_snapshot := Some sn,
            tab_records := dict_filter (\<lambda>k. \<not> k \<le> snap_index sn) (tab_records (r_work s))\<rparr>)
         ((r_stats s)\<lparr>max_index := max (snap_index sn) (max_index (r_stats s))\<rparr>)
         (s\<lparr>r_snapshot := Some sn\<rparr>))"
  by (simp add: sql_install_snapshot_def save_stats_def replace_stats_def execute_def commit_def run
      put_def ensure_open_def Let_def)

text \<open>Storing the nodes of a configuration one by one; no uri occurs twice.\<close>

lemma insert_nodes_run:
  assumes "distinct (map node_uri (tab_nodes (r_work s) @ ns))"
  shows "\<exists>t. forE ns insert_node s = (Inr (), t) \<and>
     r_work t = (r_work s)\<lparr>tab_nodes := tab_nodes (r_work s) @ ns\<rparr> \<and>
     t = s\<lparr>r_work := r_work t, r_disk := r_disk t\<rparr>"
  using assms
proof (induction ns arbitrary: s)
  case Nil
  then show ?case by (simp add: run)
next
  case (Cons n ns)
  define s' where "s' = snd (insert_node n s)"
  have s': "insert_node n s = (Inr (), s')" "r_work s' = (r_work s)\<lparr>tab_nodes := tab_nodes (r_work s) @ [n]\<rparr>"
    "s' = s\<lparr>r_work := r_work s', r_disk := r_disk s'\<rparr>"
    using Cons.prems by (auto simp: s'_def insert_node_def run execute_def Let_def)
  then obtain t where "forE ns insert_node s' = (Inr (), t)"
    "r_work t = (r_work s')\<lparr>tab_nodes := tab_nodes (r_work s') @ ns\<rparr>"
    "t = s'\<lparr>r_work := r_work t, r_disk := r_disk t\<rparr>"
    using Cons.IH [of s'] Cons.prems by auto
  with s' show ?case
    by (auto simp: run) (metis (no_types, lifting) Records.surjective Records.update_convs(3,4))
qed

section \<open>The contract\<close>

lemma sql_view_inv:
  "sql_inv s \<Longrightarrow> sql_view s =
     \<lparr>v_broken = broken (r_stats s), v_uri = own_uri (r_stats s), v_term = cur_term (r_stats s),
      v_voted = voted_for (r_stats s), v_last = max_index (r_stats s),
      v_first = (if snap_base (r_snapshot s) < max_index (r_stats s)
                 then Some (snap_base (r_snapshot s) + 1) else None),
      v_last_term = or_else (snap_last_term (r_snapshot s))
        (map_option row_term (dict_get (tab_records (r_work s)) (max_index (r_stats s)))),
      v_commit = max_commit (r_stats s), v_applied = max_apply (r_stats s),
      v_config = sql_get_cluster_config s, v_snap = r_snapshot s, v_ents = sql_ents s\<rparr>"
  by (simp add: view_def sql_last_index sql_first_index sql_last_term)

lemma sql_ents_put [simp]: "sql_ents (put d st s) = sql_ents (s\<lparr>r_work := d\<rparr>)"
  by (simp add: sql_ents_def fun_eq_iff)

text \<open>Changing an attribute other than \<open>max_index\<close>.\<close>

lemma sql_put_stat:
  assumes "sql_inv s" and "max_index st = max_index (r_stats s)"
  shows "sql_inv (put (r_work s) st s)"
    "sql_view (put (r_work s) st s) = (sql_view s)\<lparr>v_broken := broken st, v_uri := own_uri st,
       v_term := cur_term st, v_voted := voted_for st, v_commit := max_commit st, v_applied := max_apply st\<rparr>"
proof -
  show inv: "sql_inv (put (r_work s) st s)"
    using assms by (auto simp: sql_inv_def durable_def)
  show "sql_view (put (r_work s) st s) = (sql_view s)\<lparr>v_broken := broken st, v_uri := own_uri st,
       v_term := cur_term st, v_voted := voted_for st, v_commit := max_commit st, v_applied := max_apply st\<rparr>"
    unfolding sql_view_inv [OF inv] sql_view_inv [OF assms(1)] using assms(2)
    by (simp add: sql_ents_def sql_get_cluster_config_def fun_eq_iff)
qed

lemma sql_save_law:
  assumes inv: "sql_inv s" and b: "snap_base (r_snapshot s) < rec_index p"
    "rec_index p \<le> max_index (r_stats s) + 1" "max_index (r_stats s) \<le> rec_index p"
  shows "\<exists>t. save_entry p s = (Inr p, t) \<and> sql_inv t \<and> sql_view t = insert_view p (sql_view s)"
proof -
  let ?t = "put ((r_work s)\<lparr>tab_records := dict_set (rec_index p) (row_of (r_now s) p) (tab_records (r_work s))\<rparr>)
         ((r_stats s)\<lparr>max_index := max (rec_index p) (max_index (r_stats s))\<rparr>) s"
  have invt: "sql_inv ?t"
    using inv b contiguous_set [of "tab_records (r_work s)" "snap_base (r_snapshot s)" "max_index (r_stats s)" "rec_index p"]
    by (simp add: sql_inv_def durable_def max_def)
  have "sql_view ?t = insert_view p (sql_view s)"
    unfolding sql_view_inv [OF invt] sql_view_inv [OF inv] using b
    by (simp add: insert_view_def sql_ents_def sql_get_cluster_config_def fun_eq_iff max_def row_of_def [of _ p]
        rec_of_def [of "rec_index p"] content_def)
  with inv invt show ?thesis by (simp add: save_entry_run)
qed

lemma sql_insert_law:
  assumes inv: "sql_inv s" and can: "can_insert (sql_view s) r"
  shows "\<exists>t. sql_insert r s = (Inr (place (sql_view s) r), t) \<and> sql_inv t \<and>
             sql_view t = insert_view (place (sql_view s) r) (sql_view s)"
proof -
  have p: "can_insert (sql_view s) (place (sql_view s) r)" "rec_index (place (sql_view s) r) \<noteq> 0"
    "max_index (r_stats s) \<le> rec_index (place (sql_view s) r)"
    using place_can_insert [OF sql_inv_view [OF inv] can] inv by (simp_all add: sql_last_index)
  have "sql_insert r s = save_entry (place (sql_view s) r) s"
    using inv can by (auto simp: sql_insert_def run place_def can_insert_def sql_last_index sql_inv_def)
  moreover have "snap_base (r_snapshot s) < rec_index (place (sql_view s) r)"
    "rec_index (place (sql_view s) r) \<le> max_index (r_stats s) + 1"
    using p inv by (auto simp: can_insert_def sql_last_index sql_inv_def)
  ultimately show ?thesis
    using sql_save_law [OF inv] p(3) by simp
qed

lemma sql_delete_law:
  assumes inv: "sql_inv s" and can: "can_delete i (sql_view s)"
  shows "\<exists>t. sql_delete_all_from i s = (Inr (), t) \<and> sql_inv t \<and>
             deleted_from i (sql_view s) (sql_view t) \<and> cur_term (r_stats t) = cur_term (r_stats s)"
proof -
  let ?t = "put ((r_work s)\<lparr>tab_records := dict_filter (\<lambda>k. \<not> k \<ge> i) (tab_records (r_work s))\<rparr>)
         ((r_stats s)\<lparr>max_index := i - 1, max_commit := min (i - 1) (max_commit (r_stats s)),
            max_apply := min (i - 1) (max_apply (r_stats s))\<rparr>) s"
  have b: "snap_base (r_snapshot s) < i" "i \<le> max_index (r_stats s)" "0 \<le> snap_base (r_snapshot s)"
    using can inv by (simp_all add: can_delete_def sql_last_index sql_inv_def)
  have t: "sql_delete_all_from i s = (Inr (), ?t)"
    using inv b by (simp add: sql_delete_run)
  have invt: "sql_inv ?t"
    using inv b contiguous_below [of "tab_records (r_work s)" "snap_base (r_snapshot s)" "max_index (r_stats s)" i]
    by (simp add: sql_inv_def durable_def)
  have "deleted_from i (sql_view s) (sql_view ?t)"
    unfolding sql_view_inv [OF invt] sql_view_inv [OF inv]
    by (simp add: deleted_from_def sql_ents_def sql_get_cluster_config_def fun_eq_iff)
  with t invt show ?thesis by simp
qed

lemma sql_install_law:
  assumes inv: "sql_inv s" and can: "can_install sn (sql_view s)"
  shows "\<exists>t. sql_install_snapshot sn s = (Inr (), t) \<and> sql_inv t \<and>
             sql_view t = snapshot_view sn (sql_view s)"
proof -
  let ?t = "put ((r_work s)\<lparr>tab_snapshot := Some sn,
            tab_records := dict_filter (\<lambda>k. \<not> k \<le> snap_index sn) (tab_records (r_work s))\<rparr>)
         ((r_stats s)\<lparr>max_index := max (snap_index sn) (max_index (r_stats s))\<rparr>)
         (s\<lparr>r_snapshot := Some sn\<rparr>)"
  have b: "0 < snap_index sn" "snap_base (r_snapshot s) \<le> snap_index sn"
    using can inv by (simp_all add: can_install_def)
  have t: "sql_install_snapshot sn s = (Inr (), ?t)"
    using inv b by (simp add: sql_install_run)
  have invt: "sql_inv ?t"
    using inv b contiguous_above [of "tab_records (r_work s)" "snap_base (r_snapshot s)" "max_index (r_stats s)" "snap_index sn"]
    by (simp add: sql_inv_def durable_def)
  have "sql_view ?t = snapshot_view sn (sql_view s)"
    unfolding sql_view_inv [OF invt] sql_view_inv [OF inv]
    using sql_row_None [OF inv, of "max_index (r_stats s)"] b(2)
    by (cases "dict_get (tab_records (r_work s)) (max_index (r_stats s))") (simp_all add: snapshot_view_def sql_ents_def sql_get_cluster_config_def fun_eq_iff max_def)
  with t invt show ?thesis by blast
qed

lemma sql_read_law:
  assumes "sql_inv s" and "1 \<le> i"
  shows "\<exists>r. sql_read (Some i) s = (Inr r, s) \<and> map_option content r = sql_ents s i"
  using assms sql_row_None [OF assms(1), of i]
  by (cases "dict_get (tab_records (r_work s)) i")
     (auto simp: sql_read_def run get_entry_at_def read_entry_def sql_ents_def Let_def)

lemma insert_all_nodes:
  "sql_save_cluster_config c = seqE ensure_open
     (seqE (execute (\<lambda>d. d\<lparr>tab_nodes := []\<rparr>))
     (seqE (execute (\<lambda>d. d\<lparr>tab_settings := None\<rparr>))
     (seqE (forE (node_rows c) insert_node)
     (seqE (execute (\<lambda>d. d\<lparr>tab_settings := Some (settings c)\<rparr>))
     (seqE commit (ret c))))))"
  by (simp add: sql_save_cluster_config_def node_rows_def forE_append seqE_assoc split: option.split)

lemma sql_save_config_law:
  assumes inv: "sql_inv s" and ok: "config_ok c"
  shows "\<exists>t. sql_save_cluster_config c s = (Inr c, t) \<and> sql_inv t \<and>
             sql_view t = (sql_view s)\<lparr>v_config := Some c\<rparr>"
proof -
  let ?d = "(r_work s)\<lparr>tab_nodes := [], tab_settings := None\<rparr>"
  let ?s = "s\<lparr>r_work := ?d, r_disk := (if enable_wal s then ?d else r_disk s)\<rparr>"
  have "distinct (map node_uri (tab_nodes (r_work ?s) @ node_rows c))"
    using node_rows_distinct [OF ok] by simp
  then obtain t where t: "forE (node_rows c) insert_node ?s = (Inr (), t)"
    "r_work t = ?d\<lparr>tab_nodes := (node_rows c)\<rparr>" "t = ?s\<lparr>r_work := r_work t, r_disk := r_disk t\<rparr>"
    using insert_nodes_run [of ?s "node_rows c"] by auto
  let ?w = "(r_work t)\<lparr>tab_settings := Some (settings c)\<rparr>"
  let ?t = "t\<lparr>r_work := ?w, r_disk := ?w\<rparr>"
  have f: "r_open t = r_open s" "r_stats t = r_stats s" "r_snapshot t = r_snapshot s"
    by (subst t(3), simp)+
  have "sql_save_cluster_config c s = (Inr c, ?t)"
    using t(1) inv unfolding insert_all_nodes sql_save_cluster_config_def
    by (cases "enable_wal s") (simp_all add: run ensure_open_run execute_def commit_def Let_def)
  moreover have invt: "sql_inv ?t"
    using inv t(2) f by (simp add: sql_inv_def durable_def)
  moreover have "sql_get_cluster_config ?t = Some c"
    using db_config_rows [OF ok] t(2) by (simp add: sql_get_cluster_config_def)
  moreover have "sql_view ?t = (sql_view s)\<lparr>v_config := sql_get_cluster_config ?t\<rparr>"
    unfolding sql_view_inv [OF invt] sql_view_inv [OF inv] using t(2) f by (simp add: sql_ents_def fun_eq_iff)
  ultimately show ?thesis by metis
qed

interpretation sql: stable_log sqlite_api sql_inv sql_ents
proof (unfold_locales, goal_cases)
  case (1 s) then show ?case by (rule sql_inv_view)
next
  case (8 s r) then show ?case using sql_insert_law by simp
next
  case (9 s r) then show ?case by (simp add: sql_insert_def run sql_last_index sql_inv_def)
next
  case (11 s i) then show ?case
    using sql_put_stat [of s "(r_stats s)\<lparr>max_commit := i\<rparr>"]
    by (auto simp: set_commit_index_def run ensure_open_run set_stat_run max_def)
next
  case (12 s i) then show ?case
    using sql_put_stat [of s "(r_stats s)\<lparr>max_apply := i\<rparr>"]
    by (auto simp: set_apply_index_def run ensure_open_run set_stat_run max_def)
next
  case (13 s i) then show ?case using sql_read_law [of s i] by auto
next
  case (14 s i) then show ?case by (simp add: sql_read_def run)
next
  case (15 s i) then show ?case using sql_delete_law [of s i] by auto
next
  case (16 s sn i) then show ?case by (simp add: sql_delete_all_from_def run)
next
  case (17 s c) then show ?case using sql_save_config_law [of s c] config_same_refl [of c] by fastforce
next
  case (18 s sn) then show ?case using sql_install_law by simp
next
  case (19 s sn) then show ?case by (simp add: sql_install_snapshot_def run ensure_open_run)
next
  case (20 s i r t) then show ?case using sql_delete_law [of s i] by auto
next
  case (21 s) then show ?case by (simp add: sql_ents_def sql_last_term sql_last_index)
qed (simp_all add: run ensure_open_run set_stat_run sql_put_stat)

section \<open>Opening a database file\<close>

lemma sql_open_run:
  "sql_open (new_Records wal clock d) =
     (Inr (), (new_Records wal clock (d\<lparr>tab_stats := Some (or_else open_stats (tab_stats d))\<rparr>))
        \<lparr>r_open := True, r_stats := or_else open_stats (tab_stats d), r_snapshot := tab_snapshot d\<rparr>)"
  by (cases "tab_stats d"; cases "tab_snapshot d"; cases d)
     (simp_all add: sql_open_def refresh_stats_def new_Records_def execute_def commit_def run Let_def)

lemma sql_open_reopens:
  assumes "sql_inv s"
  shows "\<exists>t. sql_open (new_Records wal clock (r_disk s)) = (Inr (), t) \<and> sql_inv t \<and> sql_view t = sql_view s"
proof -
  let ?t = "(new_Records wal clock (r_disk s))\<lparr>r_open := True, r_stats := r_stats s, r_snapshot := r_snapshot s\<rparr>"
  have d: "r_disk s = r_work s" "tab_stats (r_work s) = Some (r_stats s)" "tab_snapshot (r_work s) = r_snapshot s"
    using assms by (simp_all add: sql_inv_def durable_def)
  then have same: "(r_disk s)\<lparr>tab_stats := Some (or_else open_stats (tab_stats (r_disk s)))\<rparr> = r_disk s"
    by simp
  have "sql_open (new_Records wal clock (r_disk s)) = (Inr (), ?t)"
    unfolding sql_open_run same using d by simp
  moreover have invt: "sql_inv ?t"
    using assms d by (simp add: sql_inv_def durable_def new_Records_def)
  moreover have "sql_view ?t = sql_view s"
    unfolding sql_view_inv [OF invt] sql_view_inv [OF assms] using d
    by (simp add: new_Records_def sql_ents_def sql_get_cluster_config_def fun_eq_iff)
  ultimately show ?thesis by blast
qed

lemma sql_open_empty: "sql_inv (snd (sql_open (new_Records wal clock empty_db)))"
  unfolding sql_open_run by (simp add: empty_db_def sql_inv_def durable_def new_Records_def open_stats_def)

text \<open>C15. \<open>SqliteLog\<close> does what the engine relies on, from the state that opening an empty file gives: every operation
  succeeds or raises as \<open>raft_log\<close> says, has the abstract effect on what a client observes, and leaves no uncommitted
  change behind; deletions keep the current term. Two sentences of the \<open>LogAPI\<close> documentation do not hold of it: a
  change of the term does not clear the vote, and an installed snapshot does not move the commit and applied indexes.
\<close>

theorem sqlite_log_contract:
  "stable_log sqlite_api sql_inv sql_ents \<and> sql_inv (snd (sql_open (new_Records wal clock empty_db))) \<and>
   \<not> clears_vote sqlite_api sql_inv \<and> \<not> snapshot_baseline sqlite_api sql_inv sql_ents"
  using sql.stable_log_axioms sql_open_empty sql.keeps_vote sql.keeps_progress by blast

text \<open>C17. Persistence: after any operations, a new \<open>Records\<close> object on the committed database file
  observes exactly what the old one did: term, vote, indexes, records, configuration, snapshot.
\<close>

theorem sqlite_reopen:
  assumes "sql_inv s"
  shows "\<exists>t. sql_open (new_Records wal clock (r_disk s)) = (Inr (), t) \<and> sql_inv t \<and> sql_view t = sql_view s"
  by (rule sql_open_reopens [OF assms])

definition sqlite_example :: Records where
  "sqlite_example = snd (seqE sql_open (seqE (set_stat (\<lambda>st. st\<lparr>cur_term := 4, voted_for := Some ''n2''\<rparr>))
     (seqE (sql_insert (new_LogRec client_command 4 (Some (Str ''x'')))) (set_commit_index 1)))
     (new_Records False 10 empty_db))"

lemma sqlite_example_eq:
  "sqlite_example = put (empty_db\<lparr>tab_records := [(1, row_of 10 (new_LogRec client_command 4 (Some (Str ''x''))))]\<rparr>)
     \<lparr>max_index = 1, cur_term = 4, voted_for = Some ''n2'', broken = False, max_commit = 1, max_apply = 0,
      own_uri = None\<rparr>
     ((new_Records False 10 empty_db)\<lparr>r_open := True\<rparr>)"
  unfolding sqlite_example_def run_seqE sql_open_run
  by (simp add: run set_stat_run sql_insert_def save_entry_run
      set_commit_index_def ensure_open_run empty_db_def open_stats_def new_Records_def put_def
      new_LogRec_def row_of_def)

lemma sqlite_example_inv: "sql_inv sqlite_example"
  by (auto simp: sqlite_example_eq sql_inv_def durable_def empty_db_def new_Records_def contiguous_def)

theorem sqlite_reopen_witness:
  "\<exists>t. sql_open (new_Records True 11 (r_disk sqlite_example)) = (Inr (), t) \<and> cur_term (r_stats t) = 4 \<and>
       voted_for (r_stats t) = Some ''n2'' \<and> max_commit (r_stats t) = 1"
proof -
  obtain t where t: "sql_open (new_Records True 11 (r_disk sqlite_example)) = (Inr (), t)"
      "sql_view t = sql_view sqlite_example"
    using sqlite_reopen [OF sqlite_example_inv] by blast
  have "v_term (sql_view t) = 4" "v_voted (sql_view t) = Some ''n2''" "v_commit (sql_view t) = 1"
    unfolding t(2) by (simp_all add: sqlite_example_eq)
  with t(1) show ?thesis by simp
qed

end
