(* ===== verification/Lmdb_Log.thy ===== *)
theory Lmdb_Log
  imports Log_Api "HOL-Library.List_Lexorder" "HOL-Library.Multiset"
begin

text \<open>
  \<open>LmdbLog\<close> and its \<open>Records\<close> of \<open>src/raftengine/extras/lmdb_log/lmdb_log.py\<close>. The environment is its
  six sub-databases. Record keys are the eight big-endian bytes of the index, while \<open>integerkey=True\<close>
  makes the store compare them as integers of the machine's own byte order: the parameter \<open>rank\<close> is
  the integer the store sees, \<open>id\<close> on a big-endian machine and \<open>le_rank\<close> on a little-endian one. The
  class meets \<open>stable_log\<close> on a big-endian machine; on a little-endian one it does the same up to index
  255, and the order of the records is lost from index 256 on. The loop that prunes records in
  batches of a hundred is shown to end and to prune all of them, within the same limits. Indexes
  stay below \<open>2 ^ 64\<close>, the largest the eight bytes hold.
\<close>

section \<open>Environment\<close>

record LmdbEnv =
  records_db :: "(int \<times> LogRec) list"
  stats_db :: "stats_row option"
  nodes_db :: "(uri \<times> NodeRec) list"
  settings_db :: "ClusterSettings option"
  snapshots_db :: "SnapShot option"
  timestamps_db :: "(int \<times> time) list"

record LmdbRecords =
  l_open :: bool
  l_env :: LmdbEnv
  l_stats :: stats_row
  l_snapshot :: "SnapShot option"
  l_now :: time

definition empty_env :: LmdbEnv where
  "empty_env = \<lparr>records_db = [], stats_db = None, nodes_db = [], settings_db = None,
     snapshots_db = None, timestamps_db = []\<rparr>"

definition new_LmdbRecords :: "time \<Rightarrow> LmdbEnv \<Rightarrow> LmdbRecords" where
  "new_LmdbRecords clock env =
     \<lparr>l_open = False, l_env = env, l_stats = open_stats, l_snapshot = None, l_now = clock\<rparr>"

text \<open>\<open>with env.begin(write=True) as txn\<close>: an exception in the body aborts the transaction.\<close>

definition txn :: "(LmdbRecords, 'b) eff \<Rightarrow> (LmdbRecords, 'b) eff" where
  "txn m = (\<lambda>s. case m s of (Inl e, t) \<Rightarrow> (Inl e, t\<lparr>l_env := l_env s\<rparr>) | (Inr x, t) \<Rightarrow> (Inr x, t))"

definition put_env :: "(LmdbEnv \<Rightarrow> LmdbEnv) \<Rightarrow> (LmdbRecords, unit) eff" where
  "put_env f = modE (\<lambda>s. s\<lparr>l_env := f (l_env s)\<rparr>)"

text \<open>\<open>_save_stats(txn)\<close>.\<close>

definition put_stats :: "(LmdbRecords, unit) eff" where
  "put_stats = bindE (getsE l_stats) (\<lambda>st. put_env (\<lambda>e. e\<lparr>stats_db := Some st\<rparr>))"

definition lmdb_open :: "(LmdbRecords, unit) eff" where
  "lmdb_open = seqE (modE (\<lambda>s. s\<lparr>l_open := True\<rparr>))
     (bindE (getsE (\<lambda>s. stats_db (l_env s))) (\<lambda>row.
     seqE (case row of Some st \<Rightarrow> modE (\<lambda>s. s\<lparr>l_stats := st\<rparr>)
           | None \<Rightarrow> seqE (modE (\<lambda>s. s\<lparr>l_stats := open_stats\<rparr>)) (txn put_stats))
     (modE (\<lambda>s. case snapshots_db (l_env s) of None \<Rightarrow> s | Some sn \<Rightarrow> s\<lparr>l_snapshot := Some sn\<rparr>))))"

definition lmdb_close :: "(LmdbRecords, unit) eff" where
  "lmdb_close = modE (\<lambda>s. s\<lparr>l_open := False\<rparr>)"

definition lmdb_ensure_open :: "(LmdbRecords, unit) eff" where
  "lmdb_ensure_open = bindE (getsE l_open) (\<lambda>b. whenE (\<not> b) lmdb_open)"

definition lmdb_save_stats :: "(LmdbRecords, unit) eff" where
  "lmdb_save_stats = seqE lmdb_ensure_open (txn put_stats)"

definition lmdb_set_stat :: "(stats_row \<Rightarrow> stats_row) \<Rightarrow> (LmdbRecords, unit) eff" where
  "lmdb_set_stat f = seqE (modE (\<lambda>s. s\<lparr>l_stats := f (l_stats s)\<rparr>)) lmdb_save_stats"

section \<open>Records\<close>

text \<open>\<open>index.to_bytes(8, 'big')\<close> refuses a negative index.\<close>

definition to_bytes :: "int \<Rightarrow> ('s, int) eff" where
  "to_bytes i = (if i < 0 then throw OverflowError else ret i)"

text \<open>The keys in the order a cursor visits them.\<close>

definition cursor_keys :: "(int \<Rightarrow> int) \<Rightarrow> (int \<times> 'v) list \<Rightarrow> int list" where
  "cursor_keys rank d = sort_key rank (dict_keys d)"

definition lmdb_read_entry :: "(int \<Rightarrow> int) \<Rightarrow> int option \<Rightarrow> LmdbRecords \<Rightarrow> LogRec option" where
  "lmdb_read_entry rank ix s =
     (case ix of Some i \<Rightarrow> dict_get (records_db (l_env s)) i
      | None \<Rightarrow> (case cursor_keys rank (records_db (l_env s)) of [] \<Rightarrow> None
                 | ks \<Rightarrow> dict_get (records_db (l_env s)) (last ks)))"

definition lmdb_save_entry :: "(int \<Rightarrow> int) \<Rightarrow> LogRec \<Rightarrow> (LmdbRecords, LogRec option) eff" where
  "lmdb_save_entry rank r = seqE lmdb_ensure_open
     (seqE (txn (bindE (to_bytes (rec_index r)) (\<lambda>key.
        seqE (put_env (\<lambda>e. e\<lparr>records_db := dict_set key r (records_db e)\<rparr>))
        (seqE (bindE (getsE l_now) (\<lambda>clock. put_env (\<lambda>e. e\<lparr>timestamps_db := dict_set key clock (timestamps_db e)\<rparr>)))
        (seqE (modE (\<lambda>s. s\<lparr>l_stats := (l_stats s)\<lparr>max_index := max (rec_index r) (max_index (l_stats s))\<rparr>\<rparr>))
        put_stats)))))
     (getsE (lmdb_read_entry rank (Some (rec_index r)))))"

definition lmdb_get_entry_at :: "(int \<Rightarrow> int) \<Rightarrow> int \<Rightarrow> LmdbRecords \<Rightarrow> LogRec option" where
  "lmdb_get_entry_at rank i s = (if i < 1 then None else lmdb_read_entry rank (Some i) s)"

definition lmdb_set_commit_index :: "int \<Rightarrow> (LmdbRecords, unit) eff" where
  "lmdb_set_commit_index i = seqE lmdb_ensure_open (bindE (getsE (\<lambda>s. max_commit (l_stats s))) (\<lambda>m.
     whenE (i > m) (lmdb_set_stat (\<lambda>st. st\<lparr>max_commit := i\<rparr>))))"

definition lmdb_set_apply_index :: "int \<Rightarrow> (LmdbRecords, unit) eff" where
  "lmdb_set_apply_index i = seqE lmdb_ensure_open (bindE (getsE (\<lambda>s. max_apply (l_stats s))) (\<lambda>m.
     whenE (i > m) (lmdb_set_stat (\<lambda>st. st\<lparr>max_apply := i\<rparr>))))"

text \<open>
  \<open>cursor.set_range(start_key)\<close> and deleting from there on removes every key that does not come
  before the start key in the cursor's order.
\<close>

definition lmdb_delete_all_from :: "(int \<Rightarrow> int) \<Rightarrow> int \<Rightarrow> (LmdbRecords, unit) eff" where
  "lmdb_delete_all_from rank i = bindE (getsE id) (\<lambda>s.
     if (case l_snapshot s of None \<Rightarrow> False | Some sn \<Rightarrow> i < snap_index sn + 1)
     then throw (DeleteInSnapshot i)
     else if max_index (l_stats s) < i then throw (DeletePastMax i (max_index (l_stats s)))
     else seqE lmdb_ensure_open (txn (bindE (to_bytes i) (\<lambda>start_key.
       seqE (put_env (\<lambda>e. e\<lparr>records_db := dict_filter (\<lambda>k. \<not> rank k \<ge> rank start_key) (records_db e)\<rparr>))
       (seqE (modE (\<lambda>s. s\<lparr>l_stats := (l_stats s)\<lparr>max_index := (if i > 0 then i - 1 else 0)\<rparr>\<rparr>))
       put_stats)))))"

section \<open>Cluster configuration\<close>

text \<open>The node rows come back in the byte order of their keys.\<close>

definition uri_key :: "uri \<Rightarrow> nat list" where
  "uri_key u = map of_char u"

definition put_node :: "NodeRec \<Rightarrow> (LmdbRecords, unit) eff" where
  "put_node n = put_env (\<lambda>e. e\<lparr>nodes_db := dict_set (node_uri n) n (nodes_db e)\<rparr>)"

definition lmdb_save_cluster_config :: "ClusterConfig \<Rightarrow> (LmdbRecords, ClusterConfig) eff" where
  "lmdb_save_cluster_config c = seqE lmdb_ensure_open (txn
     (seqE (put_env (\<lambda>e. e\<lparr>nodes_db := []\<rparr>))
     (seqE (forE (map snd (nodes c)) put_node)
     (seqE (case pending_node c of None \<Rightarrow> ret () | Some n \<Rightarrow> put_node n)
     (seqE (put_env (\<lambda>e. e\<lparr>settings_db := Some (settings c)\<rparr>))
     (ret c))))))"

definition lmdb_get_cluster_config :: "LmdbRecords \<Rightarrow> ClusterConfig option" where
  "lmdb_get_cluster_config s =
     db_config (map snd (sort_key (uri_key \<circ> fst) (nodes_db (l_env s)))) (settings_db (l_env s))"

definition lmdb_get_first_index :: "LmdbRecords \<Rightarrow> int option" where
  "lmdb_get_first_index s = (case l_snapshot s of
     Some sn \<Rightarrow> if max_index (l_stats s) > snap_index sn then Some (snap_index sn + 1) else None
   | None \<Rightarrow> if max_index (l_stats s) > 0 then Some 1 else None)"

definition lmdb_get_last_index :: "LmdbRecords \<Rightarrow> int" where
  "lmdb_get_last_index s = (case l_snapshot s of None \<Rightarrow> max_index (l_stats s)
     | Some sn \<Rightarrow> max (max_index (l_stats s)) (snap_index sn))"

section \<open>Snapshots\<close>

text \<open>The keys one call of \<open>delete_100\<close> deletes: at most \<open>n\<close>, from the first on, up to one past the snapshot.\<close>

fun delete_batch :: "nat \<Rightarrow> int \<Rightarrow> int list \<Rightarrow> int list" where
  "delete_batch 0 i ks = []"
| "delete_batch (Suc n) i [] = []"
| "delete_batch (Suc n) i (k # ks) = (if k > i then [] else k # delete_batch n i ks)"

lemma delete_batch_subset: "set (delete_batch n i ks) \<subseteq> set ks"
  by (induction n i ks rule: delete_batch.induct) auto

lemma delete_batch_eq: "delete_batch n i ks = take n (takeWhile (\<lambda>k. \<not> k > i) ks)"
  by (induction n i ks rule: delete_batch.induct) auto

text \<open>\<open>while await delete_100() > 0: pass\<close>: each round that deletes something makes the table shorter.\<close>

function prune :: "(int \<Rightarrow> int) \<Rightarrow> int \<Rightarrow> (int \<times> 'v) list \<Rightarrow> (int \<times> 'v) list" where
  "prune rank i d =
     (let ks = delete_batch 100 i (cursor_keys rank d) in
      if length ks > 0 then prune rank i (dict_filter (\<lambda>k. k \<notin> set ks) d) else d)"
  by auto

lemma prune_shrinks:
  assumes "0 < length (delete_batch n i (cursor_keys rank d))"
  shows "length (dict_filter (\<lambda>k. k \<notin> set (delete_batch n i (cursor_keys rank d))) d) < length d"
proof -
  let ?ks = "delete_batch n i (cursor_keys rank d)"
  obtain k where k: "k \<in> set ?ks" using assms by (cases ?ks) auto
  then have "k \<in> set (dict_keys d)"
    using delete_batch_subset [of n i "cursor_keys rank d"] by (auto simp: cursor_keys_def)
  then obtain p where "p \<in> set d" "fst p = k" by auto
  with k show ?thesis
    unfolding dict_filter_def by (intro length_filter_less) auto
qed

termination prune
  by (relation "measure (\<lambda>(rank, i, d). length d)") (auto intro: prune_shrinks)

declare prune.simps [simp del]

definition lmdb_install_snapshot :: "(int \<Rightarrow> int) \<Rightarrow> SnapShot \<Rightarrow> (LmdbRecords, unit) eff" where
  "lmdb_install_snapshot rank sn = seqE lmdb_ensure_open
     (if snap_index sn = 0 then throw SnapshotAtZero
      else seqE (txn
        (seqE (put_env (\<lambda>e. e\<lparr>snapshots_db := Some sn\<rparr>))
        (seqE (modE (\<lambda>s. s\<lparr>l_stats := (l_stats s)\<lparr>max_index := max (snap_index sn) (max_index (l_stats s))\<rparr>,
                          l_snapshot := Some sn\<rparr>))
        put_stats)))
        (put_env (\<lambda>e. e\<lparr>records_db := prune rank (snap_index sn) (records_db e)\<rparr>)))"

definition delete_snapshot :: "(LmdbRecords, unit) eff" where
  "delete_snapshot = seqE (modE (\<lambda>s. s\<lparr>l_snapshot := None\<rparr>)) (txn (put_env (\<lambda>e. e\<lparr>snapshots_db := None\<rparr>)))"

definition clear_despite_snapshot :: "(int \<Rightarrow> int) \<Rightarrow> (LmdbRecords, unit) eff" where
  "clear_despite_snapshot rank = seqE delete_snapshot (lmdb_delete_all_from rank 1)"

section \<open>The log object\<close>

definition lmdb_insert :: "(int \<Rightarrow> int) \<Rightarrow> LogRec \<Rightarrow> (LmdbRecords, LogRec) eff" where
  "lmdb_insert rank r = bindE (getsE (\<lambda>s. max_index (l_stats s))) (\<lambda>m.
     if rec_index r = 0
     then bindE (lmdb_save_entry rank (r\<lparr>rec_index := m + 1\<rparr>)) (\<lambda>v. some_or AttributeError v)
     else if rec_index r > m + 1 then throw InsertPastLast
     else bindE (lmdb_save_entry rank r) (\<lambda>v. some_or AttributeError v))"

definition lmdb_read :: "(int \<Rightarrow> int) \<Rightarrow> int option \<Rightarrow> (LmdbRecords, LogRec option) eff" where
  "lmdb_read rank ix = bindE (getsE id) (\<lambda>s.
     let mark = map_option (\<lambda>r.
           let r1 = (if rec_index r \<le> max_commit (l_stats s) then r\<lparr>committed := True\<rparr> else r)
           in if rec_index r \<le> max_apply (l_stats s) then r1\<lparr>applied := True\<rparr> else r1) in
     case ix of None \<Rightarrow> ret (mark (lmdb_get_entry_at rank (max_index (l_stats s)) s))
     | Some i \<Rightarrow> if i < 1 then throw (ReadBelowOne i)
                 else if i > max_index (l_stats s) then ret None
                 else ret (mark (lmdb_get_entry_at rank i s)))"

definition lmdb_get_last_term :: "(int \<Rightarrow> int) \<Rightarrow> LmdbRecords \<Rightarrow> int" where
  "lmdb_get_last_term rank s = (case lmdb_read_entry rank None s of
     None \<Rightarrow> (case l_snapshot s of Some sn \<Rightarrow> snap_term sn | None \<Rightarrow> 0)
   | Some r \<Rightarrow> rec_term r)"

text \<open>The map size and the used size are what the environment reports.\<close>

definition lmdb_get_stats :: "(int \<Rightarrow> int) \<Rightarrow> int \<Rightarrow> int \<Rightarrow> LmdbRecords \<Rightarrow> LogStats" where
  "lmdb_get_stats rank map_size used_size s =
     (let snapshot_index = (case l_snapshot s of None \<Rightarrow> 0 | Some sn \<Rightarrow> snap_index sn);
          ts = sort (map snd (timestamps_db (l_env s)));
          recent = filter (\<lambda>t. t \<ge> l_now s - 300) ts in
      \<lparr>st_first_index = lmdb_get_first_index s, st_last_index = lmdb_get_last_index s,
       st_last_term = lmdb_get_last_term rank s, st_commit_index = max_commit (l_stats s),
       st_applied_index = max_apply (l_stats s), st_record_count = int (length (records_db (l_env s))),
       st_records_since_snapshot = max 0 (max_index (l_stats s) - snapshot_index),
       st_records_per_minute = recent_rate (l_now s) ts,
       st_percent_remaining = (if map_size > 0
          then Some (max 0 (min 100 (of_int (map_size - used_size) * 100 / of_int map_size))) else None),
       st_total_size_bytes = used_size,
       st_snapshot_index = (if snapshot_index > 0 then Some snapshot_index else None),
       st_last_record_timestamp = (if recent = [] then None else Some (last recent))\<rparr>)"

definition lmdb_api :: "(int \<Rightarrow> int) \<Rightarrow> LmdbRecords LogAPI" where
  "lmdb_api rank =
     \<lparr>get_broken = broken \<circ> l_stats,
      set_broken = seqE lmdb_ensure_open (lmdb_set_stat (\<lambda>st. st\<lparr>broken := True\<rparr>)),
      set_fixed = seqE lmdb_ensure_open (lmdb_set_stat (\<lambda>st. st\<lparr>broken := False\<rparr>)),
      get_uri = own_uri \<circ> l_stats,
      set_uri = (\<lambda>u. lmdb_set_stat (\<lambda>st. st\<lparr>own_uri := Some u\<rparr>)),
      get_term = cur_term \<circ> l_stats,
      set_term = (\<lambda>v. lmdb_set_stat (\<lambda>st. st\<lparr>cur_term := v\<rparr>)),
      incr_term = seqE (lmdb_set_stat (\<lambda>st. st\<lparr>cur_term := cur_term st + 1\<rparr>)) (getsE (cur_term \<circ> l_stats)),
      get_voted_for = voted_for \<circ> l_stats,
      set_voted_for = (\<lambda>v. seqE lmdb_ensure_open (lmdb_set_stat (\<lambda>st. st\<lparr>voted_for := v\<rparr>))),
      get_last_index = lmdb_get_last_index,
      get_first_index = lmdb_get_first_index,
      get_last_term = lmdb_get_last_term rank,
      get_commit_index = max_commit \<circ> l_stats,
      get_applied_index = max_apply \<circ> l_stats,
      log_append = lmdb_insert rank,
      log_insert = lmdb_insert rank,
      mark_committed = lmdb_set_commit_index,
      mark_applied = lmdb_set_apply_index,
      log_read = lmdb_read rank,
      delete_all_from = lmdb_delete_all_from rank,
      save_cluster_config = lmdb_save_cluster_config,
      get_cluster_config = lmdb_get_cluster_config,
      install_snapshot = lmdb_install_snapshot rank,
      get_snapshot = l_snapshot\<rparr>"

lemma lmdb_api_simps [simp]:
  "get_broken (lmdb_api rank) = broken \<circ> l_stats" "get_uri (lmdb_api rank) = own_uri \<circ> l_stats"
  "get_term (lmdb_api rank) = cur_term \<circ> l_stats" "get_voted_for (lmdb_api rank) = voted_for \<circ> l_stats"
  "get_last_index (lmdb_api rank) = lmdb_get_last_index"
  "get_first_index (lmdb_api rank) = lmdb_get_first_index"
  "get_last_term (lmdb_api rank) = lmdb_get_last_term rank"
  "get_commit_index (lmdb_api rank) = max_commit \<circ> l_stats"
  "get_applied_index (lmdb_api rank) = max_apply \<circ> l_stats"
  "get_cluster_config (lmdb_api rank) = lmdb_get_cluster_config" "get_snapshot (lmdb_api rank) = l_snapshot"
  "log_insert (lmdb_api rank) = lmdb_insert rank" "log_append (lmdb_api rank) = lmdb_insert rank"
  "log_read (lmdb_api rank) = lmdb_read rank" "delete_all_from (lmdb_api rank) = lmdb_delete_all_from rank"
  "save_cluster_config (lmdb_api rank) = lmdb_save_cluster_config"
  "install_snapshot (lmdb_api rank) = lmdb_install_snapshot rank"
  "set_broken (lmdb_api rank) = seqE lmdb_ensure_open (lmdb_set_stat (\<lambda>st. st\<lparr>broken := True\<rparr>))"
  "set_fixed (lmdb_api rank) = seqE lmdb_ensure_open (lmdb_set_stat (\<lambda>st. st\<lparr>broken := False\<rparr>))"
  "set_uri (lmdb_api rank) = (\<lambda>u. lmdb_set_stat (\<lambda>st. st\<lparr>own_uri := Some u\<rparr>))"
  "set_term (lmdb_api rank) = (\<lambda>v. lmdb_set_stat (\<lambda>st. st\<lparr>cur_term := v\<rparr>))"
  "incr_term (lmdb_api rank) = seqE (lmdb_set_stat (\<lambda>st. st\<lparr>cur_term := cur_term st + 1\<rparr>)) (getsE (cur_term \<circ> l_stats))"
  "set_voted_for (lmdb_api rank) = (\<lambda>v. seqE lmdb_ensure_open (lmdb_set_stat (\<lambda>st. st\<lparr>voted_for := v\<rparr>)))"
  "mark_committed (lmdb_api rank) = lmdb_set_commit_index" "mark_applied (lmdb_api rank) = lmdb_set_apply_index"
  by (simp_all add: lmdb_api_def)

section \<open>Cursor order\<close>

text \<open>The integer a little-endian machine reads in the eight big-endian bytes of an index; a big-endian machine
  reads the index itself.\<close>

definition le_rank :: "int \<Rightarrow> int" where
  "le_rank i = (\<Sum>k\<leftarrow>[0..<8]. (i div 256 ^ k mod 256) * 256 ^ (7 - k))"

lemma le_rank_small:
  assumes "0 \<le> i" and "i < 65536"
  shows "le_rank i = (i mod 256) * 256 ^ 7 + (i div 256) * 256 ^ 6"
  using assms by (simp add: le_rank_def upt_rec)

text \<open>The store orders the record keys up to \<open>m\<close>, or all of them, like the indexes they encode.\<close>

definition ordered_upto :: "(int \<Rightarrow> int) \<Rightarrow> int \<Rightarrow> bool" where
  "ordered_upto rank m \<longleftrightarrow> (\<forall>i j. 0 \<le> i \<longrightarrow> i < j \<longrightarrow> j \<le> m \<longrightarrow> rank i < rank j)"

definition ordered_keys :: "(int \<Rightarrow> int) \<Rightarrow> bool" where
  "ordered_keys rank \<longleftrightarrow> (\<forall>m. ordered_upto rank m)"

lemma ordered_keys_id [simp]: "ordered_keys id"
  by (simp add: ordered_keys_def ordered_upto_def)

lemma ordered_keysD: "ordered_keys rank \<Longrightarrow> ordered_upto rank m"
  by (simp add: ordered_keys_def)

lemma ordered_upto_le:
  "ordered_upto rank m \<Longrightarrow> 0 \<le> i \<Longrightarrow> 0 \<le> j \<Longrightarrow> i \<le> m \<Longrightarrow> j \<le> m \<Longrightarrow> rank i \<le> rank j \<longleftrightarrow> i \<le> j"
  by (metis linorder_not_less nle_le ordered_upto_def)

lemma ordered_machines: "rank = id \<or> rank = le_rank \<and> m \<le> 255 \<Longrightarrow> ordered_upto rank m"
  by (auto simp: ordered_upto_def le_rank_small)

lemma cursor_keys_contiguous:
  assumes "ordered_upto rank m" and "contiguous d b m" and "0 \<le> b"
  shows "cursor_keys rank d = [b + 1..m]"
  unfolding cursor_keys_def
proof (rule sort_key_inj_key_eq)
  show "mset (dict_keys d) = mset [b + 1..m]"
    by (metis contiguous_keys [OF assms(2)] mset_sort)
  have "set (dict_keys d) = {b<..m}"
    using assms(2) by (simp add: contiguous_def del: set_map)
  moreover have "inj_on rank {b<..m}"
  proof (rule linorder_inj_onI')
    fix i j assume "i \<in> {b<..m}" and "j \<in> {b<..m}" and "i < j"
    then have "rank i < rank j" using assms(1,3) by (simp add: ordered_upto_def)
    then show "rank i \<noteq> rank j" by simp
  qed
  ultimately show "inj_on rank (set (dict_keys d))" by (simp del: set_map)
  have "sorted_wrt (\<lambda>i j. rank i \<le> rank j) [b + 1..m]"
    using assms(1,3) by (intro sorted_wrt_mono_rel [OF _ sorted_upto])
      (auto simp: ordered_upto_le simp del: sorted_upto)
  then show "sorted (map rank [b + 1..m])" by (simp add: sorted_map)
qed

text \<open>The batched loop prunes exactly the records up to the snapshot.\<close>

lemma prune_contiguous:
  assumes "ordered_upto rank m" and "contiguous d b m" and "0 \<le> b"
  shows "prune rank i d = dict_filter (\<lambda>k. \<not> k \<le> i) d"
  using assms
proof (induction "length d" arbitrary: d b rule: less_induct)
  case less
  define ks where "ks = delete_batch 100 i (cursor_keys rank d)"
  define c where "c = min (b + 100) (min i m)"
  have ks: "ks = [b + 1..c]"
    using cursor_keys_contiguous [OF less.prems]
    by (simp add: ks_def delete_batch_eq takeWhile_upto take_upto c_def add.commute)
  have keys: "k \<in> set (dict_keys d) \<longleftrightarrow> b < k \<and> k \<le> m" for k
    using less.prems(2) by (simp add: contiguous_def del: set_map)
  show ?case
  proof (cases "b < c")
    case True
    let ?d = "dict_filter (\<lambda>k. k \<notin> set ks) d"
    have "contiguous ?d c m"
      by (rule contiguous_filter [OF less.prems(2)]) (use True in \<open>auto simp: ks c_def\<close>)
    moreover have "length ?d < length d"
      using prune_shrinks [of 100 i rank d] True by (simp add: ks flip: ks_def)
    ultimately have "prune rank i ?d = dict_filter (\<lambda>k. \<not> k \<le> i) ?d"
      using less.hyps [of ?d c] less.prems(1,3) True by simp
    also have "\<dots> = dict_filter (\<lambda>k. \<not> k \<le> i) d"
      unfolding dict_filter_filter by (rule dict_filter_cong) (auto simp: ks c_def)
    finally show ?thesis
      using True by (subst prune.simps) (simp add: Let_def ks flip: ks_def)
  next
    case False
    then have "prune rank i d = d"
      by (subst prune.simps) (simp add: Let_def ks flip: ks_def)
    also have "\<dots> = dict_filter (\<lambda>k. \<not> k \<le> i) d"
      using False by (intro dict_filter_True [symmetric]) (auto simp: keys c_def simp del: set_map)
    finally show ?thesis .
  qed
qed

section \<open>Invariant\<close>

definition lmdb_inv :: "(int \<Rightarrow> int) \<Rightarrow> LmdbRecords \<Rightarrow> bool" where
  "lmdb_inv rank s \<longleftrightarrow> ordered_keys rank \<and> l_open s \<and> stats_db (l_env s) = Some (l_stats s) \<and>
     snapshots_db (l_env s) = l_snapshot s \<and>
     0 \<le> snap_base (l_snapshot s) \<and> snap_base (l_snapshot s) \<le> max_index (l_stats s) \<and>
     contiguous (records_db (l_env s)) (snap_base (l_snapshot s)) (max_index (l_stats s)) \<and>
     (\<forall>i r. dict_get (records_db (l_env s)) i = Some r \<longrightarrow> rec_index r = i)"

definition lmdb_ents :: "LmdbRecords \<Rightarrow> int \<Rightarrow> LogRec option" where
  "lmdb_ents s i = map_option content (dict_get (records_db (l_env s)) i)"

abbreviation lmdb_view :: "(int \<Rightarrow> int) \<Rightarrow> LmdbRecords \<Rightarrow> log_view" where
  "lmdb_view rank \<equiv> view (lmdb_api rank) lmdb_ents"

lemma lmdb_row_None: "lmdb_inv rank s \<Longrightarrow> dict_get (records_db (l_env s)) i = None \<longleftrightarrow>
    \<not> (snap_base (l_snapshot s) < i \<and> i \<le> max_index (l_stats s))"
  unfolding lmdb_inv_def by (intro contiguous_None) simp

lemma lmdb_last_term:
  assumes "lmdb_inv rank s"
  shows "lmdb_get_last_term rank s = or_else (snap_last_term (l_snapshot s))
    (map_option rec_term (dict_get (records_db (l_env s)) (max_index (l_stats s))))"
proof -
  have ks: "cursor_keys rank (records_db (l_env s)) = [snap_base (l_snapshot s) + 1..max_index (l_stats s)]"
    using assms by (intro cursor_keys_contiguous) (simp_all add: lmdb_inv_def ordered_keys_def)
  have "lmdb_read_entry rank None s = dict_get (records_db (l_env s)) (max_index (l_stats s))"
  proof (cases "snap_base (l_snapshot s) < max_index (l_stats s)")
    case True
    then obtain k ks where k: "[snap_base (l_snapshot s) + 1..max_index (l_stats s)] = k # ks"
      by (cases "[snap_base (l_snapshot s) + 1..max_index (l_stats s)]") auto
    then have "last (k # ks) = max_index (l_stats s)"
      using True last_upto [of "snap_base (l_snapshot s) + 1" "max_index (l_stats s)"] by simp
    then show ?thesis
      unfolding lmdb_read_entry_def ks k by simp
  next
    case False
    with lmdb_row_None [OF assms, of "max_index (l_stats s)"] show ?thesis
      by (simp add: lmdb_read_entry_def ks)
  qed
  then show ?thesis
    by (simp add: lmdb_get_last_term_def snap_last_term_def split: option.split)
qed

lemma lmdb_last_index: "lmdb_inv rank s \<Longrightarrow> lmdb_get_last_index s = max_index (l_stats s)"
  by (auto simp: lmdb_get_last_index_def lmdb_inv_def split: option.splits)

lemma lmdb_first_index: "lmdb_inv rank s \<Longrightarrow> lmdb_get_first_index s =
    (if snap_base (l_snapshot s) < max_index (l_stats s) then Some (snap_base (l_snapshot s) + 1) else None)"
  by (auto simp: lmdb_get_first_index_def lmdb_inv_def split: option.splits)

lemma lmdb_view_inv:
  "lmdb_inv rank s \<Longrightarrow> lmdb_view rank s =
     \<lparr>v_broken = broken (l_stats s), v_uri = own_uri (l_stats s), v_term = cur_term (l_stats s),
      v_voted = voted_for (l_stats s), v_last = max_index (l_stats s),
      v_first = (if snap_base (l_snapshot s) < max_index (l_stats s)
                 then Some (snap_base (l_snapshot s) + 1) else None),
      v_last_term = or_else (snap_last_term (l_snapshot s))
        (map_option rec_term (dict_get (records_db (l_env s)) (max_index (l_stats s)))),
      v_commit = max_commit (l_stats s), v_applied = max_apply (l_stats s),
      v_config = lmdb_get_cluster_config s, v_snap = l_snapshot s, v_ents = lmdb_ents s\<rparr>"
  by (simp add: view_def lmdb_last_index lmdb_first_index lmdb_last_term)

lemma lmdb_inv_view:
  assumes "lmdb_inv rank s"
  shows "view_ok (lmdb_view rank s)"
proof -
  have "(lmdb_ents s i \<noteq> None) = (snap_base (l_snapshot s) < i \<and> i \<le> max_index (l_stats s))" for i
    using lmdb_row_None [OF assms, of i] by (auto simp: lmdb_ents_def)
  moreover have "rec_index r = i" if "lmdb_ents s i = Some r" for i r
    using that assms by (auto simp: lmdb_ents_def lmdb_inv_def)
  moreover have "or_else (snap_last_term (l_snapshot s))
      (map_option rec_term (dict_get (records_db (l_env s)) (max_index (l_stats s)))) = rec_term r"
    if "lmdb_ents s (max_index (l_stats s)) = Some r" for r
    using that by (auto simp: lmdb_ents_def)
  moreover have "0 \<le> snap_base (l_snapshot s)" "snap_base (l_snapshot s) \<le> max_index (l_stats s)"
    using assms by (simp_all add: lmdb_inv_def)
  ultimately show ?thesis
    unfolding view_ok_def lmdb_view_inv [OF assms] log_view.simps by blast
qed

section \<open>Results of the operations\<close>

text \<open>The end state of every operation that writes.\<close>

definition lput :: "LmdbEnv \<Rightarrow> stats_row \<Rightarrow> LmdbRecords \<Rightarrow> LmdbRecords" where
  "lput e st s = s\<lparr>l_stats := st, l_env := e\<lparr>stats_db := Some st\<rparr>\<rparr>"

lemma lput_simps [simp]:
  "l_stats (lput e st s) = st" "l_snapshot (lput e st s) = l_snapshot s" "l_open (lput e st s) = l_open s"
  "l_env (lput e st s) = e\<lparr>stats_db := Some st\<rparr>"
  by (simp_all add: lput_def)

lemma lmdb_inv_open [simp]: "lmdb_inv rank s \<Longrightarrow> l_open s"
  by (simp add: lmdb_inv_def)

lemmas lmdb_run = run txn_def put_env_def put_stats_def lmdb_ensure_open_def

lemma lmdb_ensure_open_run: "l_open s \<Longrightarrow> lmdb_ensure_open s = (Inr (), s)"
  by (simp add: lmdb_run)

lemma lmdb_set_stat_run:
  "l_open s \<Longrightarrow> lmdb_set_stat f s = (Inr (), lput (l_env s) (f (l_stats s)) s)"
  by (simp add: lmdb_set_stat_def lmdb_save_stats_def lmdb_run lput_def)

lemma lmdb_save_entry_run:
  "l_open s \<Longrightarrow> 0 \<le> rec_index r \<Longrightarrow> lmdb_save_entry rank r s = (Inr (Some r),
     lput ((l_env s)\<lparr>records_db := dict_set (rec_index r) r (records_db (l_env s)),
                     timestamps_db := dict_set (rec_index r) (l_now s) (timestamps_db (l_env s))\<rparr>)
          ((l_stats s)\<lparr>max_index := max (rec_index r) (max_index (l_stats s))\<rparr>) s)"
  by (simp add: lmdb_save_entry_def lmdb_run lput_def to_bytes_def lmdb_read_entry_def)

lemma lmdb_delete_run:
  assumes "l_open s" and "snap_base (l_snapshot s) < i" and "i \<le> max_index (l_stats s)"
    and "0 \<le> snap_base (l_snapshot s)"
  shows "lmdb_delete_all_from rank i s = (Inr (),
     lput ((l_env s)\<lparr>records_db := dict_filter (\<lambda>k. \<not> rank k \<ge> rank i) (records_db (l_env s))\<rparr>)
          ((l_stats s)\<lparr>max_index := i - 1\<rparr>) s)"
  using assms
  by (auto simp: lmdb_delete_all_from_def lmdb_run lput_def to_bytes_def split: option.splits)

lemma lmdb_install_run:
  "l_open s \<Longrightarrow> snap_index sn \<noteq> 0 \<Longrightarrow> lmdb_install_snapshot rank sn s = (Inr (),
     lput ((l_env s)\<lparr>snapshots_db := Some sn, records_db := prune rank (snap_index sn) (records_db (l_env s))\<rparr>)
          ((l_stats s)\<lparr>max_index := max (snap_index sn) (max_index (l_stats s))\<rparr>)
          (s\<lparr>l_snapshot := Some sn\<rparr>))"
  by (simp add: lmdb_install_snapshot_def lmdb_run lput_def)

section \<open>The contract\<close>

lemma lmdb_put_stat:
  assumes "lmdb_inv rank s" and "max_index st = max_index (l_stats s)"
  shows "lmdb_inv rank (lput (l_env s) st s)"
    "lmdb_view rank (lput (l_env s) st s) = (lmdb_view rank s)\<lparr>v_broken := broken st, v_uri := own_uri st,
       v_term := cur_term st, v_voted := voted_for st, v_commit := max_commit st, v_applied := max_apply st\<rparr>"
proof -
  show inv: "lmdb_inv rank (lput (l_env s) st s)"
    using assms by (auto simp: lmdb_inv_def)
  show "lmdb_view rank (lput (l_env s) st s) = (lmdb_view rank s)\<lparr>v_broken := broken st, v_uri := own_uri st,
       v_term := cur_term st, v_voted := voted_for st, v_commit := max_commit st, v_applied := max_apply st\<rparr>"
    unfolding lmdb_view_inv [OF inv] lmdb_view_inv [OF assms(1)] using assms(2)
    by (simp add: lmdb_ents_def lmdb_get_cluster_config_def fun_eq_iff)
qed

lemma lmdb_save_law:
  assumes inv: "lmdb_inv rank s" and b: "snap_base (l_snapshot s) < rec_index p"
    "rec_index p \<le> max_index (l_stats s) + 1" "max_index (l_stats s) \<le> rec_index p"
  shows "\<exists>t. lmdb_save_entry rank p s = (Inr (Some p), t) \<and> lmdb_inv rank t \<and>
             lmdb_view rank t = insert_view p (lmdb_view rank s)"
proof -
  let ?t = "lput ((l_env s)\<lparr>records_db := dict_set (rec_index p) p (records_db (l_env s)),
                     timestamps_db := dict_set (rec_index p) (l_now s) (timestamps_db (l_env s))\<rparr>)
          ((l_stats s)\<lparr>max_index := max (rec_index p) (max_index (l_stats s))\<rparr>) s"
  have invt: "lmdb_inv rank ?t"
    using inv b contiguous_set [of "records_db (l_env s)" "snap_base (l_snapshot s)" "max_index (l_stats s)" "rec_index p"]
    by (simp add: lmdb_inv_def max_def)
  have "0 \<le> rec_index p"
    using inv b(1) by (simp add: lmdb_inv_def)
  moreover have "lmdb_view rank ?t = insert_view p (lmdb_view rank s)"
    unfolding lmdb_view_inv [OF invt] lmdb_view_inv [OF inv] using b
    by (simp add: insert_view_def lmdb_ents_def lmdb_get_cluster_config_def fun_eq_iff max_def)
  ultimately show ?thesis using inv invt by (simp add: lmdb_save_entry_run)
qed

lemma lmdb_insert_law:
  assumes inv: "lmdb_inv rank s" and can: "can_insert (lmdb_view rank s) r"
  shows "\<exists>t. lmdb_insert rank r s = (Inr (place (lmdb_view rank s) r), t) \<and> lmdb_inv rank t \<and>
             lmdb_view rank t = insert_view (place (lmdb_view rank s) r) (lmdb_view rank s)"
proof -
  let ?p = "place (lmdb_view rank s) r"
  have p: "can_insert (lmdb_view rank s) ?p" "rec_index ?p \<noteq> 0" "max_index (l_stats s) \<le> rec_index ?p"
    using place_can_insert [OF lmdb_inv_view [OF inv] can] inv by (simp_all add: lmdb_last_index)
  have eq: "lmdb_insert rank r s = bindE (lmdb_save_entry rank ?p) (\<lambda>v. some_or AttributeError v) s"
    using can lmdb_last_index [OF inv]
    by (auto simp: lmdb_insert_def run_bindE run_getsE place_def can_insert_def)
  have "snap_base (l_snapshot s) < rec_index ?p" "rec_index ?p \<le> max_index (l_stats s) + 1"
    using p inv lmdb_last_index [OF inv] by (auto simp: can_insert_def lmdb_inv_def)
  from lmdb_save_law [OF inv this p(3)] show ?thesis
    by (auto simp: eq run_bindE run_ret)
qed

lemma lmdb_delete_law:
  assumes inv: "lmdb_inv rank s" and can: "can_delete i (lmdb_view rank s)"
  shows "\<exists>t. lmdb_delete_all_from rank i s = (Inr (), t) \<and> lmdb_inv rank t \<and>
             deleted_from i (lmdb_view rank s) (lmdb_view rank t) \<and> cur_term (l_stats t) = cur_term (l_stats s)"
proof -
  have b: "snap_base (l_snapshot s) < i" "i \<le> max_index (l_stats s)" "0 \<le> snap_base (l_snapshot s)"
    using can inv lmdb_last_index [OF inv] by (simp_all add: can_delete_def lmdb_inv_def)
  have ord: "ordered_upto rank (max_index (l_stats s))" and c: "contiguous (records_db (l_env s)) (snap_base (l_snapshot s)) (max_index (l_stats s))"
    using inv by (simp_all add: lmdb_inv_def ordered_keys_def)
  have "rank k \<ge> rank i \<longleftrightarrow> k \<ge> i" if "k \<in> set (dict_keys (records_db (l_env s)))" for k
  proof -
    have "0 \<le> k" "k \<le> max_index (l_stats s)" using that c b(3) by (simp_all add: contiguous_def del: set_map)
    with b ord show ?thesis by (simp add: ordered_upto_le)
  qed
  then have filt: "dict_filter (\<lambda>k. \<not> rank k \<ge> rank i) (records_db (l_env s)) =
                   dict_filter (\<lambda>k. \<not> k \<ge> i) (records_db (l_env s))"
    by (intro dict_filter_cong) (simp del: set_map)
  let ?t = "lput ((l_env s)\<lparr>records_db := dict_filter (\<lambda>k. \<not> k \<ge> i) (records_db (l_env s))\<rparr>)
          ((l_stats s)\<lparr>max_index := i - 1\<rparr>) s"
  have t: "lmdb_delete_all_from rank i s = (Inr (), ?t)"
    using inv b by (simp add: lmdb_delete_run filt)
  have invt: "lmdb_inv rank ?t"
    using inv b contiguous_below [OF c, of i] by (simp add: lmdb_inv_def)
  have "deleted_from i (lmdb_view rank s) (lmdb_view rank ?t)"
    unfolding lmdb_view_inv [OF invt] lmdb_view_inv [OF inv]
    by (simp add: deleted_from_def lmdb_ents_def lmdb_get_cluster_config_def fun_eq_iff)
  with t invt show ?thesis by simp
qed

lemma lmdb_install_law:
  assumes inv: "lmdb_inv rank s" and can: "can_install sn (lmdb_view rank s)"
  shows "\<exists>t. lmdb_install_snapshot rank sn s = (Inr (), t) \<and> lmdb_inv rank t \<and>
             lmdb_view rank t = snapshot_view sn (lmdb_view rank s)"
proof -
  let ?t = "lput ((l_env s)\<lparr>snapshots_db := Some sn,
              records_db := dict_filter (\<lambda>k. \<not> k \<le> snap_index sn) (records_db (l_env s))\<rparr>)
          ((l_stats s)\<lparr>max_index := max (snap_index sn) (max_index (l_stats s))\<rparr>)
          (s\<lparr>l_snapshot := Some sn\<rparr>)"
  have b: "0 < snap_index sn" "snap_base (l_snapshot s) \<le> snap_index sn"
    using can inv by (simp_all add: can_install_def)
  have c: "contiguous (records_db (l_env s)) (snap_base (l_snapshot s)) (max_index (l_stats s))"
    using inv by (simp add: lmdb_inv_def)
  have t: "lmdb_install_snapshot rank sn s = (Inr (), ?t)"
    using inv b prune_contiguous [OF _ c, of rank] by (simp add: lmdb_install_run lmdb_inv_def ordered_keys_def)
  have invt: "lmdb_inv rank ?t"
    using inv b contiguous_above [OF c, of "snap_index sn"] by (simp add: lmdb_inv_def)
  have "lmdb_view rank ?t = snapshot_view sn (lmdb_view rank s)"
    unfolding lmdb_view_inv [OF invt] lmdb_view_inv [OF inv]
    using lmdb_row_None [OF inv, of "max_index (l_stats s)"] b(2)
    by (cases "dict_get (records_db (l_env s)) (max_index (l_stats s))")
       (simp_all add: snapshot_view_def lmdb_ents_def lmdb_get_cluster_config_def fun_eq_iff max_def)
  with t invt show ?thesis by blast
qed

lemma lmdb_read_law:
  assumes "lmdb_inv rank s" and "1 \<le> i"
  shows "\<exists>r. lmdb_read rank (Some i) s = (Inr r, s) \<and> map_option content r = lmdb_ents s i"
  using assms lmdb_row_None [OF assms(1), of i]
  by (cases "dict_get (records_db (l_env s)) i")
     (auto simp: lmdb_read_def run lmdb_get_entry_at_def lmdb_read_entry_def lmdb_ents_def Let_def)

text \<open>The configuration comes back in the order of the uris.\<close>

lemma put_nodes_run:
  assumes "distinct (dict_keys (nodes_db (l_env s)) @ map node_uri ns)"
  shows "forE ns put_node s = (Inr (), s\<lparr>l_env := (l_env s)\<lparr>nodes_db := nodes_db (l_env s) @ map (\<lambda>n. (node_uri n, n)) ns\<rparr>\<rparr>)"
  using assms
proof (induction ns arbitrary: s)
  case (Cons n ns)
  have "dict_set (node_uri n) n (nodes_db (l_env s)) = nodes_db (l_env s) @ [(node_uri n, n)]"
    using Cons.prems by (intro update_append_new) auto
  then have "put_node n s = (Inr (), s\<lparr>l_env := (l_env s)\<lparr>nodes_db := nodes_db (l_env s) @ [(node_uri n, n)]\<rparr>\<rparr>)"
    by (simp add: run put_node_def put_env_def)
  then show ?case
    using Cons.prems Cons.IH [of "s\<lparr>l_env := (l_env s)\<lparr>nodes_db := nodes_db (l_env s) @ [(node_uri n, n)]\<rparr>\<rparr>"]
    by (simp add: run)
qed (simp add: run)

lemma put_all_nodes:
  "lmdb_save_cluster_config c = seqE lmdb_ensure_open (txn
     (seqE (put_env (\<lambda>e. e\<lparr>nodes_db := []\<rparr>)) (seqE (forE (node_rows c) put_node)
     (seqE (put_env (\<lambda>e. e\<lparr>settings_db := Some (settings c)\<rparr>)) (ret c)))))"
  by (simp add: lmdb_save_cluster_config_def node_rows_def forE_append seqE_assoc split: option.split)

lemma lmdb_save_config_law:
  assumes inv: "lmdb_inv rank s" and ok: "config_ok c"
  shows "\<exists>t c'. lmdb_save_cluster_config c s = (Inr c, t) \<and> lmdb_inv rank t \<and> config_same c c' \<and>
             lmdb_view rank t = (lmdb_view rank s)\<lparr>v_config := Some c'\<rparr>"
proof -
  let ?rows = "map (\<lambda>n. (node_uri n, n)) (node_rows c)"
  let ?t = "s\<lparr>l_env := (l_env s)\<lparr>nodes_db := ?rows, settings_db := Some (settings c)\<rparr>\<rparr>"
  have t: "lmdb_save_cluster_config c s = (Inr c, ?t)"
    using node_rows_distinct [OF ok] inv unfolding put_all_nodes
    by (simp add: run lmdb_ensure_open_run txn_def put_env_def put_nodes_run)
  have invt: "lmdb_inv rank ?t"
    using inv by (simp add: lmdb_inv_def)
  have "mset (map snd (sort_key (uri_key \<circ> fst) ?rows)) = mset (node_rows c)"
    by (simp add: multiset.map_comp comp_def)
  then obtain c' where c': "lmdb_get_cluster_config ?t = Some c'" "config_same c c'"
    using db_config_perm [OF ok, of "map snd (sort_key (uri_key \<circ> fst) ?rows)"]
    unfolding lmdb_get_cluster_config_def by auto
  have "lmdb_view rank ?t = (lmdb_view rank s)\<lparr>v_config := Some c'\<rparr>"
    unfolding lmdb_view_inv [OF invt] lmdb_view_inv [OF inv] using c'(1)
    by (simp add: lmdb_ents_def fun_eq_iff)
  with t invt c' show ?thesis by blast
qed

interpretation lmdb: stable_log "lmdb_api rank" "lmdb_inv rank" lmdb_ents for rank
proof (unfold_locales, goal_cases)
  case (1 s) then show ?case by (rule lmdb_inv_view)
next
  case (8 s r) then show ?case using lmdb_insert_law by simp
next
  case (9 s r)
  then have "0 \<le> max_index (l_stats s)" by (simp add: lmdb_inv_def)
  with 9 show ?case by (simp add: lmdb_insert_def run lmdb_last_index)
next
  case (11 s i) then show ?case
    using lmdb_put_stat [of rank s "(l_stats s)\<lparr>max_commit := i\<rparr>"]
    by (auto simp: lmdb_set_commit_index_def run lmdb_ensure_open_run lmdb_set_stat_run max_def)
next
  case (12 s i) then show ?case
    using lmdb_put_stat [of rank s "(l_stats s)\<lparr>max_apply := i\<rparr>"]
    by (auto simp: lmdb_set_apply_index_def run lmdb_ensure_open_run lmdb_set_stat_run max_def)
next
  case (13 s i) then show ?case using lmdb_read_law [of rank s i] by auto
next
  case (14 s i) then show ?case by (simp add: lmdb_read_def run Let_def)
next
  case (15 s i) then show ?case using lmdb_delete_law [of rank s i] by auto
next
  case (16 s sn i) then show ?case by (simp add: lmdb_delete_all_from_def run)
next
  case (17 s c) then show ?case using lmdb_save_config_law by simp
next
  case (18 s sn) then show ?case using lmdb_install_law by simp
next
  case (19 s sn) then show ?case by (simp add: lmdb_install_snapshot_def run lmdb_ensure_open_run)
next
  case (20 s i r t) then show ?case using lmdb_delete_law [of rank s i] by auto
next
  case (21 s) then show ?case by (simp add: lmdb_ents_def lmdb_last_term lmdb_last_index)
qed (simp_all add: run lmdb_ensure_open_run lmdb_set_stat_run lmdb_put_stat)

section \<open>Properties\<close>

lemma lmdb_open_run:
  "lmdb_open (new_LmdbRecords clock e) =
     (Inr (), (new_LmdbRecords clock (e\<lparr>stats_db := Some (or_else open_stats (stats_db e))\<rparr>))
        \<lparr>l_open := True, l_stats := or_else open_stats (stats_db e), l_snapshot := snapshots_db e\<rparr>)"
  by (cases "stats_db e"; cases "snapshots_db e"; cases e)
     (simp_all add: lmdb_open_def new_LmdbRecords_def lmdb_run)

lemma lmdb_open_empty:
  "ordered_keys rank \<Longrightarrow> lmdb_inv rank (snd (lmdb_open (new_LmdbRecords clock empty_env)))"
  unfolding lmdb_open_run by (simp add: empty_env_def lmdb_inv_def new_LmdbRecords_def open_stats_def)

lemma le_rank_255: "0 \<le> i \<Longrightarrow> i \<le> 510 \<Longrightarrow> i \<noteq> 255 \<Longrightarrow> le_rank i < le_rank 255"
proof -
  assume i: "0 \<le> i" "i \<le> 510" "i \<noteq> 255"
  then have "i mod 256 \<le> 254" "i div 256 \<le> 1" by presburger+
  moreover have "le_rank i = (i mod 256) * 256 ^ 7 + (i div 256) * 256 ^ 6" "le_rank 255 = 255 * 256 ^ 7"
    using i by (simp_all add: le_rank_small)
  ultimately show ?thesis by simp
qed

lemma last_sort_key_max:
  assumes "x \<in> set xs" and "\<And>y. y \<in> set xs \<Longrightarrow> y \<noteq> x \<Longrightarrow> f y < f x"
  shows "last (sort_key f xs) = x"
proof (rule ccontr)
  let ?ys = "sort_key f xs"
  assume ne: "last ?ys \<noteq> x"
  have "?ys \<noteq> []" using assms(1) by (metis empty_iff empty_set set_sort)
  then have "last ?ys \<in> set xs" by (metis last_in_set set_sort)
  then have "f (last ?ys) < f x" using assms(2) ne by blast
  moreover have "f x \<le> f (last ?ys)"
  proof -
    have ys: "butlast ?ys @ [last ?ys] = ?ys" using \<open>?ys \<noteq> []\<close> by simp
    have "sorted (map f (butlast ?ys @ [last ?ys]))" unfolding ys by simp
    moreover have "x \<in> set (butlast ?ys @ [last ?ys])" unfolding ys using assms(1) by simp
    ultimately show ?thesis by (auto simp: sorted_append)
  qed
  ultimately show False by simp
qed

text \<open>On a little-endian machine the cursor order is not the index order: in a log of 256 up to 510
  records the last key of the cursor is index 255, so \<open>get_last_term\<close> answers with the term of record
  255 instead of the term of the last record.
\<close>

lemma little_endian_last:
  assumes "contiguous (records_db (l_env s)) 0 m" and "256 \<le> m" and "m \<le> 510"
    and "dict_get (records_db (l_env s)) 255 = Some r"
  shows "lmdb_get_last_term le_rank s = rec_term r"
proof -
  have keys: "set (dict_keys (records_db (l_env s))) = {0<..m}"
    using assms(1) by (simp add: contiguous_def del: set_map)
  then have last: "last (cursor_keys le_rank (records_db (l_env s))) = 255"
    unfolding cursor_keys_def using assms(2,3)
    by (intro last_sort_key_max) (auto intro!: le_rank_255 simp del: set_map)
  have "cursor_keys le_rank (records_db (l_env s)) \<noteq> []"
    using keys assms(2) by (metis cursor_keys_def empty_set greaterThanAtMost_empty_iff2 set_sort
        not_less verit_comp_simplify1(3) zero_less_numeral order.strict_trans2)
  with last assms(4) show ?thesis
    by (cases "cursor_keys le_rank (records_db (l_env s))")
       (simp_all add: lmdb_get_last_term_def lmdb_read_entry_def)
qed

definition le_example :: LmdbRecords where
  "le_example = (new_LmdbRecords 0 (empty_env\<lparr>records_db := map (\<lambda>i. (i, (new_LogRec client_command
     (if i \<le> 255 then 1 else 9) None)\<lparr>rec_index := i\<rparr>)) [1..300], stats_db := Some (open_stats\<lparr>max_index := 300\<rparr>)\<rparr>))
     \<lparr>l_open := True, l_stats := open_stats\<lparr>max_index := 300\<rparr>\<rparr>"

lemma le_example_rows:
  "records_db (l_env le_example) = map (\<lambda>i. (i, (new_LogRec client_command
     (if i \<le> 255 then 1 else 9) None)\<lparr>rec_index := i\<rparr>)) [1..300]"
  by (simp add: le_example_def new_LmdbRecords_def)

lemma le_example_contiguous: "contiguous (records_db (l_env le_example)) 0 300"
  by (auto simp: le_example_rows contiguous_def comp_def)

lemma le_example_get: "1 \<le> i \<Longrightarrow> i \<le> 300 \<Longrightarrow> dict_get (records_db (l_env le_example)) i =
    Some ((new_LogRec client_command (if i \<le> 255 then 1 else 9) None)\<lparr>rec_index := i\<rparr>)"
  by (simp add: le_example_rows map_of_map_restrict)

lemma le_example_inv: "lmdb_inv id le_example"
proof -
  have "dict_get (records_db (l_env le_example)) i = Some r \<Longrightarrow> rec_index r = i" for i r
    using le_example_get [of i] contiguous_None [OF le_example_contiguous, of i]
    by (cases "1 \<le> i \<and> i \<le> 300") auto
  then show ?thesis using le_example_contiguous
    by (simp add: lmdb_inv_def) (simp add: le_example_def new_LmdbRecords_def empty_env_def)
qed

lemma le_example_last: "max_index (l_stats le_example) = 300" "lmdb_get_last_term id le_example = 9"
  using lmdb_last_term [OF le_example_inv] le_example_get [of 300]
  by (simp_all add: le_example_def new_LogRec_def)

lemma le_example_le_last: "lmdb_get_last_term le_rank le_example = 1"
  using little_endian_last [OF le_example_contiguous, of "(new_LogRec client_command 1 None)\<lparr>rec_index := 255\<rparr>"]
    le_example_get [of 255] by (simp add: new_LogRec_def)

text \<open>Up to index 255 a little-endian machine answers and stores what a big-endian one does.\<close>

lemma le_same:
  assumes "lmdb_inv id s" and "max_index (l_stats s) \<le> 255"
  shows "lmdb_get_last_term le_rank s = lmdb_get_last_term id s"
    "lmdb_delete_all_from le_rank i s = lmdb_delete_all_from id i s"
    "lmdb_install_snapshot le_rank sn s = lmdb_install_snapshot id sn s"
proof -
  let ?d = "records_db (l_env s)" and ?m = "max_index (l_stats s)" and ?b = "snap_base (l_snapshot s)"
  have c: "contiguous ?d ?b ?m" "0 \<le> ?b" and o: "l_open s" using assms(1) by (simp_all add: lmdb_inv_def)
  have r: "ordered_upto le_rank ?m" "ordered_upto id ?m" using assms(2) by (auto intro: ordered_machines)
  show "lmdb_get_last_term le_rank s = lmdb_get_last_term id s"
    using cursor_keys_contiguous [OF r(1) c] cursor_keys_contiguous [OF r(2) c]
    by (simp add: lmdb_get_last_term_def lmdb_read_entry_def)
  show "lmdb_install_snapshot le_rank sn s = lmdb_install_snapshot id sn s"
    using prune_contiguous [OF r(1) c] prune_contiguous [OF r(2) c] o
    by (simp add: lmdb_install_snapshot_def run lmdb_ensure_open_run txn_def put_env_def put_stats_def)
  have "dict_filter (\<lambda>k. \<not> le_rank k \<ge> le_rank i) ?d = dict_filter (\<lambda>k. \<not> k \<ge> i) ?d" if "0 \<le> i" "i \<le> ?m"
  proof (rule dict_filter_cong)
    fix k assume "k \<in> set (dict_keys ?d)"
    then have "0 \<le> k" "k \<le> ?m" using c by (simp_all add: contiguous_def del: set_map)
    then show "(\<not> le_rank k \<ge> le_rank i) = (\<not> k \<ge> i)" using ordered_upto_le [OF r(1)] that by simp
  qed
  then show "lmdb_delete_all_from le_rank i s = lmdb_delete_all_from id i s"
    using o by (cases "0 \<le> i \<and> i \<le> ?m")
      (auto simp: lmdb_delete_all_from_def run lmdb_ensure_open_run txn_def put_env_def put_stats_def to_bytes_def)
qed

lemma read_entry_at: "lmdb_read_entry rank (Some i) = (\<lambda>s. dict_get (records_db (l_env s)) i)"
  by (simp add: lmdb_read_entry_def fun_eq_iff)

lemma le_same_rows: "lmdb_insert le_rank = lmdb_insert id" "lmdb_read le_rank = lmdb_read id"
  unfolding lmdb_insert_def lmdb_save_entry_def lmdb_read_def lmdb_get_entry_at_def read_entry_at by (rule refl)+

text \<open>C16. \<open>LmdbLog\<close> on a big-endian machine does what the engine relies on, from the state that opening an empty
  environment gives: every operation succeeds or raises as \<open>raft_log\<close> says and has the abstract effect on what a client
  observes, and deletions keep the current term. On a little-endian machine every operation does the same as long as the
  last index is at most 255; beyond that it does not: there is a log with 300 records whose last term it gets wrong. As
  with the other logs, a change of the term does not clear the vote and an installed snapshot does not move the commit
  and applied indexes, which the \<open>LogAPI\<close> documentation asks for.
\<close>

theorem lmdb_log_contract:
  "stable_log (lmdb_api id) (lmdb_inv id) lmdb_ents \<and> lmdb_inv id (snd (lmdb_open (new_LmdbRecords clock empty_env))) \<and>
   (\<forall>s r k i sn. lmdb_inv id s \<and> max_index (l_stats s) \<le> 255 \<longrightarrow>
      get_last_term (lmdb_api le_rank) s = get_last_term (lmdb_api id) s \<and>
      log_insert (lmdb_api le_rank) r s = log_insert (lmdb_api id) r s \<and>
      log_read (lmdb_api le_rank) k s = log_read (lmdb_api id) k s \<and>
      delete_all_from (lmdb_api le_rank) i s = delete_all_from (lmdb_api id) i s \<and>
      install_snapshot (lmdb_api le_rank) sn s = install_snapshot (lmdb_api id) sn s) \<and>
   (\<exists>s. lmdb_inv id s \<and> max_index (l_stats s) = 300 \<and>
      get_last_term (lmdb_api le_rank) s \<noteq> get_last_term (lmdb_api id) s) \<and>
   \<not> clears_vote (lmdb_api id) (lmdb_inv id) \<and> \<not> snapshot_baseline (lmdb_api id) (lmdb_inv id) lmdb_ents"
proof (intro conjI)
  let ?s = "snd (lmdb_open (new_LmdbRecords clock empty_env))"
  show i: "lmdb_inv id ?s" by (rule lmdb_open_empty) simp
  show "\<not> clears_vote (lmdb_api id) (lmdb_inv id)" "\<not> snapshot_baseline (lmdb_api id) (lmdb_inv id) lmdb_ents"
    by (rule lmdb.keeps_vote [OF i] lmdb.keeps_progress [OF i])+
  show "\<exists>s. lmdb_inv id s \<and> max_index (l_stats s) = 300 \<and>
      get_last_term (lmdb_api le_rank) s \<noteq> get_last_term (lmdb_api id) s"
    using le_example_inv le_example_last le_example_le_last by (intro exI [of _ le_example]) simp
qed (simp_all add: le_same le_same_rows lmdb.stable_log_axioms)

theorem lmdb_log_contract_witness:
  "stable_log (lmdb_api id) (lmdb_inv id) lmdb_ents \<and>
   delete_all_from (lmdb_api le_rank) 1 (snd (lmdb_open (new_LmdbRecords 0 empty_env))) =
     delete_all_from (lmdb_api id) 1 (snd (lmdb_open (new_LmdbRecords 0 empty_env)))"
proof -
  have "max_index (l_stats (snd (lmdb_open (new_LmdbRecords 0 empty_env)))) \<le> 255"
    unfolding lmdb_open_run by (simp add: empty_env_def new_LmdbRecords_def open_stats_def)
  with lmdb_log_contract [of 0] show ?thesis by (simp del: lmdb_api_simps)
qed

text \<open>C34. The loop of \<open>install_snapshot\<close> that deletes at most a hundred records per transaction ends, and
  when it does exactly the records after the snapshot are left: on a big-endian machine however many there were, on a
  little-endian machine for a log that ends at index 255 or before.
\<close>

theorem prune_complete:
  assumes "rank = id \<or> rank = le_rank \<and> m \<le> 255" and "contiguous d b m" and "0 \<le> b"
  shows "prune rank i d = dict_filter (\<lambda>k. \<not> k \<le> i) d"
  by (rule prune_contiguous [OF ordered_machines [OF assms(1)] assms(2,3)])

lemma interval_rows: "contiguous (map (\<lambda>i. (i, i)) [1..m]) (0::int) m" if "0 \<le> m"
  using that by (auto simp: contiguous_def comp_def)

lemma interval_filter:
  "dict_filter (\<lambda>k. \<not> k \<le> 150) (map (\<lambda>i. (i::int, i)) [1..m]) = map (\<lambda>i. (i, i)) (filter (\<lambda>k. \<not> k \<le> 150) [1..m])"
  by (simp add: dict_filter_def filter_map comp_def)

theorem prune_complete_witness:
  "prune id 150 (map (\<lambda>i. (i, i)) [1..300]) = map (\<lambda>i. (i, i)) [151..300] \<and>
   prune le_rank 150 (map (\<lambda>i. (i, i)) [1..250]) = map (\<lambda>i. (i, i)) [151..250]"
  using prune_complete [OF _ interval_rows, of id 300 150] prune_complete [OF _ interval_rows, of le_rank 250 150]
  unfolding interval_filter filter_upto by simp

end
