(* ===== verification/Example_Engine.thy ===== *)
theory Example_Engine
  imports Deck Memory_Log Sqlite_Log Lmdb_Log
begin

text \<open>
  A concrete engine, for evaluating the model: a three node cluster on any log, with an application
  that answers every command with its own text, and a fresh node on a memory log.
\<close>

definition example_init :: ClusterInitConfig where
  "example_init = \<lparr>node_uris = [''n1'', ''n2'', ''n3''], init_heartbeat_period = 1/100,
     init_election_timeout_min = 15/100, init_election_timeout_max = 35/100, init_max_entries_per_message = 10,
     init_use_pre_vote = True, init_use_check_quorum = True, init_use_dynamic_config = True,
     init_commands_idempotent = False\<rparr>"

definition example_env :: "'l LogAPI \<Rightarrow> uri \<Rightarrow> ('l, unit) env" where
  "example_env api me = \<lparr>log = api, uniform = (\<lambda>n lo hi. lo),
     local_config = \<lparr>local_uri = me, record_message_problems = True\<rparr>, initial_config = Some example_init,
     process_command = (\<lambda>c n. ret (c, None)), create_snapshot = (\<lambda>i t. ret \<lparr>snap_index = i, snap_term = t\<rparr>),
     begin_snapshot_import = (\<lambda>sn. ret ()), load_snapshot_chunk = (\<lambda>dat. ret ()),
     apply_snapshot = ret \<lparr>snap_index = 1, snap_term = 1\<rparr>, begin_snapshot_export = (\<lambda>sn. ret ()),
     get_snapshot_chunk = (\<lambda>sn off. ret (Str '''', off, True)), stop_commanded = ret (),
     on_event = (\<lambda>h e. ret ()), join_callback = (\<lambda>ok u. ret ()), exit_callback = (\<lambda>ok u. ret ())\<rparr>"

definition example_node :: "'l \<Rightarrow> ('l, unit) node" where
  "example_node l = new_node l () 1800000000 new_SerialNumberGenerator"

lemma example_log [simp]: "log (example_env api me) = api"
  by (simp add: example_env_def)

lemma example_n_log [simp]: "n_log (example_node l) = l"
  by (simp add: example_node_def new_node_def)

end
