(* ===== verification/Log_Client.thy ===== *)
theory Log_Client
  imports Example_Engine
begin

text \<open>
  The engine as a client of the log contract: \<open>log_client\<close> is an engine whose log satisfies \<open>raft_log\<close>, with
  the effect of every log call of the engine on the node. The interpretations are the engine on each of the
  three logs.
\<close>

locale log_client = raft_log api inv ents
  for api :: "'l LogAPI" and inv :: "'l \<Rightarrow> bool" and ents :: "'l \<Rightarrow> int \<Rightarrow> LogRec option" +
  fixes E :: "('l, 'a) env"
  assumes log_E: "log E = api"
begin

text \<open>The log a node's handlers see.\<close>

abbreviation lv :: "('l, 'a) node \<Rightarrow> log_view" where
  "lv s \<equiv> view api ents (n_log s)"

abbreviation ok :: "('l, 'a) node \<Rightarrow> bool" where
  "ok s \<equiv> inv (n_log s)"

lemma log_do_run: "m (n_log s) = (r, l) \<Longrightarrow> log_do m s = (r, s\<lparr>n_log := l\<rparr>)"
  by (simp add: log_do_def run)

lemma do_set_term: "ok s \<Longrightarrow> \<exists>l. log_do (set_term (log E) t) s = (Inr (), s\<lparr>n_log := l\<rparr>) \<and> inv l \<and>
    view api ents l = (lv s)\<lparr>v_term := t\<rparr>"
  using set_term_law log_do_run unfolding log_E by metis

lemma do_set_voted: "ok s \<Longrightarrow> \<exists>l. log_do (set_voted_for (log E) w) s = (Inr (), s\<lparr>n_log := l\<rparr>) \<and> inv l \<and>
    view api ents l = (lv s)\<lparr>v_voted := w\<rparr>"
  using set_voted_for_law log_do_run unfolding log_E by metis

lemma do_set_broken: "ok s \<Longrightarrow> \<exists>l. log_do (set_broken (log E)) s = (Inr (), s\<lparr>n_log := l\<rparr>) \<and> inv l \<and>
    view api ents l = (lv s)\<lparr>v_broken := True\<rparr>"
  using set_broken_law log_do_run unfolding log_E by metis

lemma do_committed: "ok s \<Longrightarrow> \<exists>l. log_do (mark_committed (log E) i) s = (Inr (), s\<lparr>n_log := l\<rparr>) \<and> inv l \<and>
    view api ents l = (lv s)\<lparr>v_commit := max i (v_commit (lv s))\<rparr>"
  using mark_committed_law log_do_run unfolding log_E by (metis view_simps(8))

lemma do_applied: "ok s \<Longrightarrow> \<exists>l. log_do (mark_applied (log E) i) s = (Inr (), s\<lparr>n_log := l\<rparr>) \<and> inv l \<and>
    view api ents l = (lv s)\<lparr>v_applied := max i (v_applied (lv s))\<rparr>"
  using mark_applied_law log_do_run unfolding log_E by (metis view_simps(9))

lemma do_append: "ok s \<Longrightarrow> can_insert (lv s) r \<Longrightarrow>
    \<exists>l. log_do (log_append (log E) r) s = (Inr (place (lv s) r), s\<lparr>n_log := l\<rparr>) \<and> inv l \<and>
      view api ents l = insert_view (place (lv s) r) (lv s)"
  using insert_law log_do_run unfolding log_E append_insert by metis

lemma do_delete: "ok s \<Longrightarrow> can_delete i (lv s) \<Longrightarrow>
    \<exists>l. log_do (delete_all_from (log E) i) s = (Inr (), s\<lparr>n_log := l\<rparr>) \<and> inv l \<and>
      deleted_from i (lv s) (view api ents l)"
  using delete_law log_do_run unfolding log_E by metis

lemma do_save_config: "ok s \<Longrightarrow> config_ok c \<Longrightarrow>
    \<exists>l c'. log_do (save_cluster_config (log E) c) s = (Inr c, s\<lparr>n_log := l\<rparr>) \<and> inv l \<and> config_same c c' \<and>
      view api ents l = (lv s)\<lparr>v_config := Some c'\<rparr>"
  using save_config_law log_do_run unfolding log_E by metis

lemma do_read: "ok s \<Longrightarrow> 1 \<le> i \<Longrightarrow> \<exists>l r. log_do (log_read (log E) (Some i)) s = (Inr r, s\<lparr>n_log := l\<rparr>) \<and> inv l \<and>
    view api ents l = lv s \<and> map_option content r = ents (n_log s) i"
  using read_law log_do_run unfolding log_E by metis

text \<open>Reading a record that is there, and one that is not.\<close>

lemma read_rec_some: "ok s \<Longrightarrow> 1 \<le> i \<Longrightarrow> ents (n_log s) i = Some r \<Longrightarrow>
    \<exists>l r'. read_rec E i s = (Inr r', s\<lparr>n_log := l\<rparr>) \<and> inv l \<and> view api ents l = lv s \<and> content r' = r"
  using do_read [of s i] by (auto simp: read_rec_def run)

lemma read_rec_none: "ok s \<Longrightarrow> 1 \<le> i \<Longrightarrow> ents (n_log s) i = None \<Longrightarrow>
    \<exists>l. read_rec E i s = (Inl AttributeError, s\<lparr>n_log := l\<rparr>) \<and> inv l \<and> view api ents l = lv s"
  using do_read [of s i] by (auto simp: read_rec_def run)

text \<open>Where there are records.\<close>

lemma ents_none: "ok s \<Longrightarrow> ents (n_log s) i = None \<longleftrightarrow>
    \<not> (snap_base (v_snap (lv s)) < i \<and> i \<le> v_last (lv s))"
  using inv_view [of "n_log s"] unfolding view_ok_def view_simps(12) by blast

lemma ents_some: "ok s \<Longrightarrow> snap_base (v_snap (lv s)) < i \<Longrightarrow> i \<le> v_last (lv s) \<Longrightarrow>
    \<exists>r. ents (n_log s) i = Some r \<and> rec_index r = i"
  using inv_view [of "n_log s"] unfolding view_ok_def view_simps(12) by blast

lemma last_nonneg: "ok s \<Longrightarrow> 0 \<le> snap_base (v_snap (lv s)) \<and> snap_base (v_snap (lv s)) \<le> v_last (lv s)"
  using inv_view [of "n_log s"] unfolding view_ok_def by blast

text \<open>What the queries answer in a log with a known view.\<close>

lemma viewD:
  assumes "view api ents l = v"
  shows "get_term api l = v_term v" "get_voted_for api l = v_voted v" "get_last_index api l = v_last v"
    "get_last_term api l = v_last_term v" "get_commit_index api l = v_commit v" "get_applied_index api l = v_applied v"
    "get_first_index api l = v_first v" "get_snapshot api l = v_snap v" "Log_Api.get_cluster_config api l = v_config v"
    "get_broken api l = v_broken v" "ents l = v_ents v" "get_uri api l = v_uri v"
  using assms by (auto simp: view_def)

end

text \<open>The engine on the three logs.\<close>

interpretation mem_client: log_client memory_api mem_inv mem_ents "E\<lparr>log := memory_api\<rparr>" for E
  by unfold_locales simp

interpretation sql_client: log_client sqlite_api sql_inv sql_ents "E\<lparr>log := sqlite_api\<rparr>" for E
  by unfold_locales simp

interpretation lmdb_client: log_client "lmdb_api rank" "lmdb_inv rank" lmdb_ents "E\<lparr>log := lmdb_api rank\<rparr>" for E rank
  by unfold_locales simp

section \<open>A log to evaluate on\<close>

lemma example_client: "log_client memory_api mem_inv mem_ents (example_env memory_api me)"
  by unfold_locales simp

definition example_rec :: "int \<Rightarrow> int \<Rightarrow> LogRec" where
  "example_rec i t = (new_LogRec client_command t (Some (Str ''add 1'')))\<lparr>rec_index := i\<rparr>"

definition example_log :: MemoryLog where
  "example_log = snd (log_insert memory_api (example_rec 2 1)
     (snd (log_insert memory_api (example_rec 1 1) (new_MemoryLog 0))))"

lemma example_log_inv: "mem_inv example_log"
  and example_log_view: "mem_view example_log =
    insert_view (example_rec 2 1) (insert_view (example_rec 1 1) (mem_view (new_MemoryLog 0)))"
proof -
  define l0 where "l0 = new_MemoryLog 0"
  define l1 where "l1 = snd (log_insert memory_api (example_rec 1 1) l0)"
  have l0: "mem_inv l0" "v_last (mem_view l0) = 0" by (simp_all add: l0_def mem_inv_new) (simp add: new_MemoryLog_def)
  have p: "place v (example_rec i t) = example_rec i t" if "i \<noteq> 0" for v i t
    using that by (simp add: place_def example_rec_def new_LogRec_def)
  have ri: "rec_index (example_rec i t) = i" for i t by (simp add: example_rec_def)
  have "can_insert (mem_view l0) (example_rec 1 1)" using l0(2) by (simp add: can_insert_def ri)
  from mem.insert_law [OF l0(1) this] have l1: "mem_inv l1" "mem_view l1 = insert_view (example_rec 1 1) (mem_view l0)"
    by (auto simp: l1_def p)
  have "v_last (mem_view l1) = 1" unfolding l1(2) by (simp add: insert_view_def ri)
  then have "can_insert (mem_view l1) (example_rec 2 1)" by (simp add: can_insert_def ri)
  moreover have ex: "example_log = snd (log_insert memory_api (example_rec 2 1) l1)"
    by (simp add: example_log_def l1_def l0_def)
  ultimately show "mem_inv example_log" "mem_view example_log =
      insert_view (example_rec 2 1) (insert_view (example_rec 1 1) (mem_view (new_MemoryLog 0)))"
    using mem.insert_law [OF l1(1), of "example_rec 2 1"] unfolding l1(2) l0_def by (auto simp: p)
qed

lemma example_rec_simps [simp]:
  "rec_index (example_rec i t) = i" "rec_term (example_rec i t) = t" "code (example_rec i t) = client_command"
  "content (example_rec i t) = example_rec i t"
  by (simp_all add: example_rec_def new_LogRec_def content_def)

lemma example_view_simps:
  "v_last (mem_view example_log) = 2" "v_last_term (mem_view example_log) = 1" "v_term (mem_view example_log) = 0"
  "v_commit (mem_view example_log) = 0" "v_applied (mem_view example_log) = 0" "v_snap (mem_view example_log) = None"
  "v_voted (mem_view example_log) = None"
  "v_ents (mem_view example_log) = [1 \<mapsto> example_rec 1 1, 2 \<mapsto> example_rec 2 1]"
  unfolding example_log_view
  by (simp_all add: insert_view_def del: view_simps)
    (simp_all add: view_def new_MemoryLog_def mem_ents_def fun_eq_iff)

text \<open>A message header to that node.\<close>

definition example_hdr :: "uri \<Rightarrow> int \<Rightarrow> int \<Rightarrow> int \<Rightarrow> log_hdr" where
  "example_hdr u t pix ptm = \<lparr>sender = u, receiver = Some ''n1'', serial_number = 7, msg_term = t,
     prevLogIndex = pix, prevLogTerm = ptm\<rparr>"

lemma example_hdr_simps [simp]:
  "sender (example_hdr u t pix ptm) = u" "receiver (example_hdr u t pix ptm) = Some ''n1''"
  "serial_number (example_hdr u t pix ptm) = 7" "msg_term (example_hdr u t pix ptm) = t"
  "prevLogIndex (example_hdr u t pix ptm) = pix" "prevLogTerm (example_hdr u t pix ptm) = ptm"
  by (simp_all add: example_hdr_def)

text \<open>The same log with a stored configuration of three members.\<close>

definition example_config :: ClusterConfig where
  "example_config = \<lparr>nodes = init_nodes [''n1'', ''n2'', ''n3''], pending_node = None,
     settings = init_settings example_init\<rparr>"

lemma example_nodes: "nodes example_config =
    [(''n1'', new_NodeRec ''n1''), (''n2'', new_NodeRec ''n2''), (''n3'', new_NodeRec ''n3'')]"
  by (simp add: example_config_def init_nodes_def)

lemma example_config_ok: "config_ok example_config" "pending_node example_config = None"
  by (simp_all add: config_ok_def example_nodes) (simp_all add: example_config_def new_NodeRec_def)

definition example_member_log :: MemoryLog where
  "example_member_log = snd (save_cluster_config memory_api example_config example_log)"

lemma example_member_log_inv: "mem_inv example_member_log"
  and example_member_view: "\<exists>c. mem_view example_member_log = (mem_view example_log)\<lparr>v_config := Some c\<rparr> \<and>
    config_same example_config c"
  using mem.save_config_law [OF example_log_inv example_config_ok(1)]
  by (auto simp: example_member_log_def)

end
