(* ===== verification/Cluster_Props.thy ===== *)
theory Cluster_Props
  imports Log_Client
begin

text \<open>
  Membership changes on any log that satisfies the contract: what starting, finishing and reversing a
  change do to the stored configuration, that only one change can be pending, and what a configuration
  record carries from the leader to the followers.
\<close>

section \<open>Well-formed configurations\<close>

text \<open>Well-formedness by lookups alone.\<close>

lemma config_ok_get:
  "config_ok c \<longleftrightarrow> dict_ok (nodes c) \<and>
     (\<forall>u n. dict_get (nodes c) u = Some n \<longrightarrow> node_uri n = u \<and> \<not> is_adding n \<and> \<not> is_removing n) \<and>
     (\<forall>n. pending_node c = Some n \<longrightarrow> (is_adding n \<or> is_removing n) \<and> dict_get (nodes c) (node_uri n) = None)"
proof (cases "dict_ok (nodes c)")
  case True
  then have "dict_get (nodes c) u = Some n \<longleftrightarrow> (u, n) \<in> set (nodes c)" for u n
    by (simp add: map_of_eq_Some_iff)
  with True show ?thesis
    by (auto simp: config_ok_def list_all_iff map_of_eq_None_iff split: option.splits)
qed (simp add: config_ok_def)

lemma config_same_ok: "config_ok c \<Longrightarrow> config_same c c' \<Longrightarrow> config_ok c'"
  by (simp add: config_ok_get config_same_def)

definition adding :: "uri \<Rightarrow> NodeRec" where
  "adding u = (new_NodeRec u)\<lparr>is_adding := True\<rparr>"

lemma adding_simps [simp]: "node_uri (adding u) = u" "is_adding (adding u)"
  "(adding u)\<lparr>is_adding := False\<rparr> = new_NodeRec u"
  by (simp_all add: adding_def new_NodeRec_def)

lemma new_NodeRec_simps [simp]: "node_uri (new_NodeRec u) = u" "\<not> is_adding (new_NodeRec u)" "\<not> is_removing (new_NodeRec u)"
  by (simp_all add: new_NodeRec_def)

definition added :: "uri \<Rightarrow> ClusterConfig \<Rightarrow> ClusterConfig" where
  "added u c = c\<lparr>pending_node := Some (adding u)\<rparr>"

definition removed :: "uri \<Rightarrow> NodeRec \<Rightarrow> ClusterConfig \<Rightarrow> ClusterConfig" where
  "removed u n c = c\<lparr>pending_node := Some (n\<lparr>is_removing := True\<rparr>), nodes := dict_del u (nodes c)\<rparr>"

lemma added_ok: "config_ok c \<Longrightarrow> dict_get (nodes c) u = None \<Longrightarrow> config_ok (added u c)"
  by (simp add: config_ok_get added_def)

lemma removed_ok: "config_ok c \<Longrightarrow> dict_get (nodes c) u = Some n \<Longrightarrow> config_ok (removed u n c)"
  by (simp add: config_ok_get removed_def)

section \<open>Operations\<close>

context log_client
begin

lemma get_config_run:
  "v_config (lv s) = Some c \<Longrightarrow>
   Cluster_Ops.get_cluster_config E s = (Inr c, s\<lparr>ops := (ops s)\<lparr>current_config := Some c\<rparr>\<rparr>)"
  by (simp add: Cluster_Ops.get_cluster_config_def set_current_def ops_mod_def run log_E)

lemma save_current_run:
  assumes "ok s" and "config_ok c"
  shows "\<exists>l c' p. save_current E c s = (Inr c, s\<lparr>n_log := l, ops := p\<rparr>) \<and> inv l \<and> config_same c c' \<and>
     view api ents l = (lv s)\<lparr>v_config := Some c'\<rparr> \<and> p = (ops s)\<lparr>current_config := Some c\<rparr>"
  using do_save_config [OF assms] by (fastforce simp: save_current_def set_current_def ops_mod_def run)

lemma start_add_run:
  assumes "ok s" and "v_config (lv s) = Some c" and "config_ok c" and "pending_node c = None"
    and "dict_get (nodes c) u = None"
  shows "\<exists>t c'. start_node_add E u s = (Inr (added u c), t) \<and> ok t \<and> config_same (added u c) c' \<and>
     lv t = (lv s)\<lparr>v_config := Some c'\<rparr> \<and> current_config (ops t) = Some (added u c) \<and> deck t = deck s"
proof -
  let ?s = "s\<lparr>ops := (ops s)\<lparr>current_config := Some c\<rparr>\<rparr>"
  have "u \<notin> set (dict_keys (nodes c))" using assms(5) by (simp add: map_of_eq_None_iff)
  then have "start_node_add E u s = save_current E (added u c) ?s"
    using assms(2,4)
    by (simp add: start_node_add_def plan_add_node_def plan_add_def get_config_run run added_def adding_def)
  with save_current_run [of ?s "added u c"] added_ok [OF assms(3,5)] assms(1) show ?thesis by fastforce
qed

lemma finish_add_run:
  assumes "ok s" and "v_config (lv s) = Some c" and "config_ok c" and "pending_node c = Some (adding u)"
  shows "\<exists>t c'. finish_node_add E u s = (Inr (c\<lparr>nodes := dict_set u (new_NodeRec u) (nodes c), pending_node := None\<rparr>), t) \<and>
     ok t \<and> lv t = (lv s)\<lparr>v_config := Some c'\<rparr> \<and> config_ok c' \<and> pending_node c' = None \<and> settings c' = settings c \<and>
     dict_get (nodes c') = (dict_get (nodes c))(u \<mapsto> new_NodeRec u) \<and> deck t = deck s"
proof -
  let ?c = "c\<lparr>nodes := dict_set u (new_NodeRec u) (nodes c), pending_node := None\<rparr>"
  let ?s = "s\<lparr>ops := (ops s)\<lparr>current_config := Some ?c\<rparr>\<rparr>"
  have ok: "config_ok ?c" using assms(3) by (auto simp: config_ok_get)
  have "finish_node_add E u s = save_current E ?c ?s"
    using assms(2,4) by (simp add: finish_node_add_def get_config_run run Let_def set_current_def ops_mod_def)
  moreover obtain t c' where t: "save_current E ?c ?s = (Inr ?c, t)" "ok t" "config_same ?c c'"
      "lv t = (lv s)\<lparr>v_config := Some c'\<rparr>" "deck t = deck s"
    using save_current_run [of ?s ?c] ok assms(1) by fastforce
  moreover have "config_ok c'" by (rule config_same_ok [OF ok t(3)])
  ultimately show ?thesis by (auto simp: config_same_def fun_eq_iff)
qed

lemma start_remove_run:
  assumes "ok s" and "v_config (lv s) = Some c" and "config_ok c" and "pending_node c = None"
    and "dict_get (nodes c) u = Some n"
  shows "\<exists>t c'. start_node_remove E u s = (Inr (removed u n c), t) \<and> ok t \<and> config_same (removed u n c) c' \<and>
     lv t = (lv s)\<lparr>v_config := Some c'\<rparr> \<and> current_config (ops t) = Some (removed u n c) \<and> deck t = deck s"
proof -
  let ?s = "s\<lparr>ops := (ops s)\<lparr>current_config := Some c\<rparr>\<rparr>"
  have "u \<in> set (dict_keys (nodes c))" using map_of_SomeD [OF assms(5)] by force
  then have "start_node_remove E u s = save_current E (removed u n c) ?s"
    using assms(2,4,5)
    by (simp add: start_node_remove_def plan_remove_node_def plan_remove_def get_config_run run removed_def del: set_map)
  with save_current_run [of ?s "removed u n c"] removed_ok [OF assms(3,5)] assms(1) show ?thesis by fastforce
qed

lemma finish_remove_run:
  assumes "ok s" and "v_config (lv s) = Some c" and "config_ok c" and "pending_node c = Some n"
    and "node_uri n = u" and "is_removing n"
  shows "\<exists>t c'. finish_node_remove E u s = (Inr (c\<lparr>pending_node := None\<rparr>), t) \<and> ok t \<and>
     lv t = (lv s)\<lparr>v_config := Some c'\<rparr> \<and> config_same (c\<lparr>pending_node := None\<rparr>) c' \<and> deck t = deck s"
proof -
  let ?c = "c\<lparr>pending_node := None\<rparr>"
  let ?s = "s\<lparr>ops := (ops s)\<lparr>current_config := Some ?c\<rparr>\<rparr>"
  have ok: "config_ok ?c" using assms(3) by (auto simp: config_ok_get)
  have "finish_node_remove E u s = save_current E ?c ?s"
    using assms(2,4-6) by (simp add: finish_node_remove_def get_config_run run Let_def set_current_def ops_mod_def)
  with save_current_run [of ?s ?c] ok assms(1) show ?thesis by fastforce
qed

lemma reverse_remove_run:
  assumes "ok s" and "v_config (lv s) = Some c" and "config_ok c" and "pending_node c = Some n"
    and "node_uri n = u" and "is_removing n" and "\<not> is_adding n" and "read_change r = Inr (''remove_node'', u)"
  shows "\<exists>t c'. reverse_config_change E r s =
       (Inr (c\<lparr>nodes := dict_set u (n\<lparr>is_removing := False\<rparr>) (nodes c), pending_node := None\<rparr>), t) \<and> ok t \<and>
     lv t = (lv s)\<lparr>v_config := Some c'\<rparr> \<and> config_ok c' \<and> pending_node c' = None \<and> settings c' = settings c \<and>
     dict_get (nodes c') = (dict_get (nodes c))(u \<mapsto> n\<lparr>is_removing := False\<rparr>) \<and>
     exit_result (deck t) = (if u = my_uri E then Some False else exit_result (deck s))"
proof -
  let ?c = "c\<lparr>nodes := dict_set u (n\<lparr>is_removing := False\<rparr>) (nodes c), pending_node := None\<rparr>"
  have okc: "config_ok ?c" using assms(3,5,7) by (auto simp: config_ok_get)
  define d where "d = (if u = my_uri E then (deck s)\<lparr>exit_result := Some False\<rparr> else deck s)"
  let ?s = "s\<lparr>deck := d, ops := (ops s)\<lparr>current_config := Some ?c\<rparr>\<rparr>"
  have "reverse_config_change E r s = log_do (save_cluster_config (log E) ?c) ?s"
    using assms(2,4,5,8)
    by (simp add: reverse_config_change_def get_config_run run Let_def set_current_def ops_mod_def note_exit_done_def
        deck_mod_def d_def)
  moreover obtain l c' where l: "log_do (save_cluster_config (log E) ?c) ?s = (Inr ?c, ?s\<lparr>n_log := l\<rparr>)" "inv l"
      "config_same ?c c'" "view api ents l = (lv s)\<lparr>v_config := Some c'\<rparr>"
    using do_save_config [of ?s ?c] okc assms(1) by auto
  moreover have "config_ok c'" by (rule config_same_ok [OF okc l(3)])
  ultimately show ?thesis by (auto simp: config_same_def fun_eq_iff d_def)
qed

end

text \<open>The example log's configuration.\<close>

lemma example_member:
  obtains c where "v_config (mem_view example_member_log) = Some c" "config_ok c" "pending_node c = None"
    "dict_get (nodes c) = dict_get (nodes example_config)"
proof -
  obtain c where c: "mem_view example_member_log = (mem_view example_log)\<lparr>v_config := Some c\<rparr>" "config_same example_config c"
    using example_member_view by blast
  from arg_cong [OF c(1), of v_config] have "v_config (mem_view example_member_log) = Some c" by simp
  moreover have "config_ok c" by (rule config_same_ok [OF example_config_ok(1) c(2)])
  ultimately show ?thesis using that c(2) example_config_ok(2) by (auto simp: config_same_def)
qed

text \<open>C22. Adding a node in two steps (recorded as pending, then finished when the record commits) succeeds on every
  log, ends in a well-formed stored configuration with nothing pending, and the member set is the
  old one plus exactly that node; the rest of the log is untouched.\<close>

theorem add_node_completes:
  assumes "log_client api I ents E" and "I (n_log s)" and "v = view api ents (n_log s)" and "v_config v = Some c"
    and "config_ok c" and "pending_node c = None" and "dict_get (nodes c) u = None"
  shows "\<exists>t c1 c2. bindE (start_node_add E u) (\<lambda>_. finish_node_add E u) s = (Inr c1, t) \<and> I (n_log t) \<and>
     view api ents (n_log t) = v\<lparr>v_config := Some c2\<rparr> \<and> config_ok c2 \<and> pending_node c2 = None \<and>
     settings c2 = settings c \<and> dict_get (nodes c2) = (dict_get (nodes c))(u \<mapsto> new_NodeRec u)"
proof -
  obtain s1 c1 where s1: "start_node_add E u s = (Inr (added u c), s1)" "I (n_log s1)" "config_same (added u c) c1"
      "view api ents (n_log s1) = v\<lparr>v_config := Some c1\<rparr>"
    using log_client.start_add_run [OF assms(1,2)] assms(4-7) unfolding assms(3) by blast
  have c1: "config_ok c1" "pending_node c1 = Some (adding u)" "settings c1 = settings c"
      "dict_get (nodes c1) = dict_get (nodes c)"
    using s1(3) config_same_ok [OF added_ok [OF assms(5,7)] s1(3)] by (simp_all add: config_same_def added_def)
  have "v_config (view api ents (n_log s1)) = Some c1" unfolding s1(4) by simp
  from log_client.finish_add_run [OF assms(1) s1(2) this c1(1,2)] show ?thesis
    using s1(1) c1 unfolding s1(4) by (auto simp: run_bindE)
qed

theorem add_node_completes_witness:
  "\<exists>t c1 c2. bindE (start_node_add (example_env memory_api ''n1'') ''n4'')
       (\<lambda>_. finish_node_add (example_env memory_api ''n1'') ''n4'') (example_node example_member_log) = (Inr c1, t) \<and>
     v_config (mem_view (n_log t)) = Some c2 \<and> dict_get (nodes c2) ''n4'' = Some (new_NodeRec ''n4'')"
proof -
  obtain c where c: "v_config (mem_view example_member_log) = Some c" "config_ok c" "pending_node c = None"
    "dict_get (nodes c) = dict_get (nodes example_config)"
    by (rule example_member)
  then have "dict_get (nodes c) ''n4'' = None" by (simp add: example_nodes)
  with add_node_completes [OF example_client, of "example_node example_member_log" "mem_view example_member_log" c
      "''n4''" "''n1''"] c(1-3) example_member_log_inv
  show ?thesis by (fastforce simp del: view_simps)
qed

text \<open>C27. A removal that is undone because its log record was overwritten gives back the members as they were:
  starting the removal takes the node out at once, reversing it with the record's own command puts the same
  node back unmarked, and when the node is this one its exit is reported as failed.\<close>

theorem remove_node_reversed:
  assumes "log_client api I ents E" and "I (n_log s)" and "v = view api ents (n_log s)" and "v_config v = Some c"
    and "config_ok c" and "pending_node c = None" and "dict_get (nodes c) u = Some n"
    and "command r = Some (change_command ''remove_node'' (Some plan) u)"
  shows "\<exists>t c1 c2 s1. start_node_remove E u s = (Inr (removed u n c), s1) \<and>
     u \<notin> set (dict_keys (nodes (removed u n c))) \<and> reverse_config_change E r s1 = (Inr c1, t) \<and> I (n_log t) \<and>
     view api ents (n_log t) = v\<lparr>v_config := Some c2\<rparr> \<and> config_ok c2 \<and> config_same c c2 \<and>
     (u = my_uri E \<longrightarrow> exit_result (deck t) = Some False)"
proof -
  obtain s1 c1 where s1: "start_node_remove E u s = (Inr (removed u n c), s1)" "I (n_log s1)"
      "config_same (removed u n c) c1" "view api ents (n_log s1) = v\<lparr>v_config := Some c1\<rparr>"
    using log_client.start_remove_run [OF assms(1,2)] assms(4-7) unfolding assms(3) by blast
  let ?n = "n\<lparr>is_removing := True\<rparr>"
  have n: "node_uri n = u" "\<not> is_adding n" "\<not> is_removing n" using assms(5,7) by (auto simp: config_ok_get)
  then have n': "?n\<lparr>is_removing := False\<rparr> = n" by simp
  have c1: "config_ok c1" "pending_node c1 = Some ?n" "settings c1 = settings c"
      "dict_get (nodes c1) = (dict_get (nodes c))(u := None)"
    using s1(3) config_same_ok [OF removed_ok [OF assms(5,7)] s1(3)]
    by (auto simp: config_same_def removed_def fun_eq_iff)
  have rc: "read_change r = Inr (''remove_node'', u)"
    using assms(8) by (simp add: read_change_def load_change_def change_command_def kwargs_simps)
  have v1: "v_config (view api ents (n_log s1)) = Some c1" unfolding s1(4) by simp
  obtain t c3 c2 where t: "reverse_config_change E r s1 = (Inr c3, t)" "I (n_log t)"
      "view api ents (n_log t) = v\<lparr>v_config := Some c2\<rparr>" "config_ok c2" "pending_node c2 = None"
      "settings c2 = settings c" "dict_get (nodes c2) = (dict_get (nodes c))(u \<mapsto> n)"
      "exit_result (deck t) = (if u = my_uri E then Some False else exit_result (deck s1))"
    using log_client.reverse_remove_run [OF assms(1) s1(2) v1 c1(1,2) _ _ _ rc] n c1 n' unfolding s1(4) by auto
  have "config_same c c2"
    using t(4-7) assms(6,7) by (auto simp: config_same_def config_ok_get fun_eq_iff)
  moreover have "u \<notin> set (dict_keys (nodes (removed u n c)))"
    by (simp add: removed_def dict_keys_del del: set_map)
  ultimately show ?thesis using s1(1) t by auto
qed

theorem remove_node_reversed_witness:
  "\<exists>t c1 s1 c. start_node_remove (example_env memory_api ''n1'') ''n2'' (example_node example_member_log) =
       (Inr (removed ''n2'' (new_NodeRec ''n2'') c), s1) \<and>
     reverse_config_change (example_env memory_api ''n1'')
       ((example_rec 3 1)\<lparr>command := Some (change_command ''remove_node'' (Some example_config) ''n2'')\<rparr>) s1 = (Inr c1, t)"
proof -
  obtain c where c: "v_config (mem_view example_member_log) = Some c" "config_ok c" "pending_node c = None"
    "dict_get (nodes c) = dict_get (nodes example_config)"
    by (rule example_member)
  then have "dict_get (nodes c) ''n2'' = Some (new_NodeRec ''n2'')" by (simp add: example_nodes)
  with remove_node_reversed [OF example_client, of "example_node example_member_log" "mem_view example_member_log" c
      "''n2''" "new_NodeRec ''n2''"
      "(example_rec 3 1)\<lparr>command := Some (change_command ''remove_node'' (Some example_config) ''n2'')\<rparr>" example_config "''n1''"]
    c(1-3) example_member_log_inv
  show ?thesis by (fastforce simp del: view_simps)
qed

text \<open>While a change is pending no other one can start: planning gives nothing, and starting an addition or
  a removal raises and leaves the log as it is.\<close>

theorem one_change_at_a_time:
  assumes "log_client api I ents E" and "v_config (view api ents (n_log s)) = Some c" and "pending_node c = Some n"
  shows "plan_add u c = None \<and> plan_remove u c = None \<and>
     (\<exists>t. start_node_add E u s = (Inl (ChangeInProgress (node_uri n)), t) \<and> n_log t = n_log s) \<and>
     (\<exists>t. start_node_remove E u s = (Inl (RemoveWhilePending u (node_uri n)), t) \<and> n_log t = n_log s)"
  using assms log_client.get_config_run [OF assms(1,2)]
  by (simp add: plan_add_def plan_remove_def start_node_add_def start_node_remove_def run)

theorem one_change_at_a_time_witness:
  "\<exists>s c n t. v_config (mem_view (n_log s)) = Some c \<and> pending_node c = Some n \<and>
     start_node_add (example_env memory_api ''n1'') ''n5'' s = (Inl (ChangeInProgress (node_uri n)), t)"
proof -
  define l where "l = snd (save_cluster_config memory_api (added ''n4'' example_config) example_log)"
  have "config_ok (added ''n4'' example_config)"
    by (rule added_ok [OF example_config_ok(1)]) (simp add: example_nodes)
  from mem.save_config_law [OF example_log_inv this] obtain c where
    "mem_view l = (mem_view example_log)\<lparr>v_config := Some c\<rparr>" "config_same (added ''n4'' example_config) c"
    by (auto simp: l_def)
  then have c: "v_config (mem_view (n_log (example_node l))) = Some c" "pending_node c = Some (adding ''n4'')"
    using arg_cong [of "mem_view l" _ v_config] by (auto simp: config_same_def added_def)
  from one_change_at_a_time [OF example_client c, of "''n5''"] c show ?thesis by blast
qed

text \<open>The command text of a configuration record tells a follower the operation and the node, the leader the
  members and the settings it carries; the text written without a plan is one that every follower refuses with
  \<open>TypeError\<close>.\<close>

theorem change_record_read_back:
  "command r = Some (change_command op (Some c) u) \<Longrightarrow>
     read_change r = Inr (op, u) \<and> change_op_operand r = Inr (op, u) \<and> change_settings r = Inr (settings c) \<and>
     change_nodes r = Inr (dict_keys (nodes c)) \<and>
     (command r' = Some (change_command op None u) \<longrightarrow> read_change r' = Inl TypeError)"
  by (simp add: read_change_def load_change_def change_command_def kwargs_simps change_op_operand_def
      change_settings_def change_nodes_def ClusterConfig_json_def ClusterConfig_kwargs_def comp_def case_prod_beta)

theorem change_record_read_back_witness:
  "read_change ((example_rec 3 1)\<lparr>command := Some (change_command ''add_node'' (Some example_config) ''n4'')\<rparr>) =
     Inr (''add_node'', ''n4'') \<and>
   read_change ((example_rec 3 1)\<lparr>command := Some (change_command ''add_node'' None ''n4'')\<rparr>) = Inl TypeError"
  using change_record_read_back [of
      "(example_rec 3 1)\<lparr>command := Some (change_command ''add_node'' (Some example_config) ''n4'')\<rparr>"
      "''add_node''" example_config "''n4''"
      "(example_rec 3 1)\<lparr>command := Some (change_command ''add_node'' None ''n4'')\<rparr>"]
  by simp

end
