(* ===== verification/Follower_Props.thy ===== *)
theory Follower_Props
  imports Log_Client
begin

text \<open>
  What the follower's handlers do on any log that satisfies the contract: the vote decision and its
  record, the append of a leader's entries, commit and apply, and the places where the code
  loses or refuses more than it should.
\<close>

section \<open>Votes\<close>

text \<open>The rule of \<open>on_vote_request\<close>.\<close>

definition grants :: "log_view \<Rightarrow> log_hdr \<Rightarrow> bool" where
  "grants v h \<longleftrightarrow> v_voted v = None \<and>
     \<not> (v_last v > 0 \<and> (prevLogIndex h < v_last v \<or> prevLogTerm h < v_last_term v))"

text \<open>The header of a reply to a vote request.\<close>

definition vote_hdr :: "('l, 'a) env \<Rightarrow> ('l, 'a) node \<Rightarrow> log_hdr \<Rightarrow> log_hdr" where
  "vote_hdr E s h = \<lparr>sender = my_uri E, receiver = Some (sender h), serial_number = next_serial s,
     msg_term = msg_term h, prevLogIndex = get_last_index (log E) (n_log s),
     prevLogTerm = get_last_term (log E) (n_log s)\<rparr>"

lemma send_vote_response_run [run]:
  "send_vote_response_message E m h v s =
     (Inr (), (use_serial s)\<lparr>outbox := outbox s @ [response m (RequestVoteResponseMessage (vote_hdr E s h) v)]\<rparr>)"
  by (simp add: send_vote_response_message_def send_vote_reply_def mk_log_hdr_def send_response_def run vote_hdr_def)

context log_client
begin

lemma vote_decision:
  assumes "ok s"
  shows "\<exists>t. on_vote_request E m h s = (Inr (), t) \<and> ok t \<and> role t = role s \<and>
     lv t = (lv s)\<lparr>v_voted := (if grants (lv s) h then Some (sender h) else v_voted (lv s))\<rparr> \<and>
     outbox t = outbox s @ [response m (RequestVoteResponseMessage (vote_hdr E s h) (grants (lv s) h))]"
proof (cases "grants (lv s) h")
  case True
  obtain l where l: "log_do (set_voted_for (log E) (Some (sender h))) s = (Inr (), s\<lparr>n_log := l\<rparr>)" "inv l"
      "view api ents l = (lv s)\<lparr>v_voted := Some (sender h)\<rparr>"
    using do_set_voted [OF assms] by blast
  then have "vote_hdr E (s\<lparr>n_log := l\<rparr>) h = vote_hdr E s h"
    by (simp add: vote_hdr_def log_E viewD [OF l(3)])
  with True l show ?thesis
    by (auto simp: on_vote_request_def run log_E grants_def)
next
  case False
  then show ?thesis using assms
    by (auto simp: on_vote_request_def run log_E grants_def)
qed

end

text \<open>C7. A follower grants a vote exactly when it has not voted and the candidate's last index and last
  term are not below its own (an empty log accepts any); a granted vote is recorded in the log, the rest of
  the log is untouched, and exactly one response goes out, to the sender, with the decision.\<close>

theorem vote_request_decision:
  assumes "log_client api I ents E" and "I (n_log s)"
  shows "\<exists>t. on_vote_request E m h s = (Inr (), t) \<and> I (n_log t) \<and> role t = role s \<and>
     view api ents (n_log t) = (view api ents (n_log s))\<lparr>v_voted :=
       (if grants (view api ents (n_log s)) h then Some (sender h) else v_voted (view api ents (n_log s)))\<rparr> \<and>
     outbox t = outbox s @
       [response m (RequestVoteResponseMessage (vote_hdr E s h) (grants (view api ents (n_log s)) h))]"
  using log_client.vote_decision [OF assms] .

theorem vote_request_decision_witness:
  "\<exists>t. on_vote_request (example_env memory_api ''n1'') (RequestVoteMessage (example_hdr ''n2'' 1 2 1))
       (example_hdr ''n2'' 1 2 1) (example_node example_log) = (Inr (), t) \<and>
     v_voted (mem_view (n_log t)) = Some ''n2''"
proof -
  have "grants (mem_view example_log) (example_hdr ''n2'' 1 2 1)"
    by (simp add: grants_def example_view_simps del: view_simps)
  then show ?thesis
    using vote_request_decision [OF example_client, of "example_node example_log" "''n1''"
        "RequestVoteMessage (example_hdr ''n2'' 1 2 1)" "example_hdr ''n2'' 1 2 1"] example_log_inv
    by (auto simp del: view_simps)
qed

section \<open>Appending\<close>

text \<open>Records that carry no configuration: client commands, and term starts other than the very first.\<close>

definition plain :: "LogRec \<Rightarrow> bool" where
  "plain r \<longleftrightarrow> code r \<noteq> cluster_config \<and> \<not> (code r = term_start \<and> rec_index r = 1)"

text \<open>Consecutive records from an index on.\<close>

fun run_from :: "int \<Rightarrow> LogRec list \<Rightarrow> bool" where
  "run_from i [] = True"
| "run_from i (r # rs) = (rec_index r = i \<and> run_from (i + 1) rs)"

lemma fold_insert_view:
  "run_from (v_last v + 1) es \<Longrightarrow>
   v_last (fold insert_view es v) = v_last v + int (length es) \<and>
   v_term (fold insert_view es v) = v_term v \<and> v_commit (fold insert_view es v) = v_commit v \<and>
   v_applied (fold insert_view es v) = v_applied v"
proof (induction es arbitrary: v)
  case (Cons r rs)
  from Cons.IH [of "insert_view r v"] Cons.prems show ?case by (simp add: insert_view_def)
qed simp

lemma fold_insert_ents:
  "run_from (v_last v + 1) es \<Longrightarrow>
   v_ents (fold insert_view es v) = (\<lambda>i. if v_last v < i \<and> i \<le> v_last v + int (length es)
     then Some (content (es ! nat (i - v_last v - 1))) else v_ents v i)"
proof (induction es arbitrary: v)
  case (Cons r rs)
  let ?v = "insert_view r v"
  have v: "v_last ?v = v_last v + 1" "v_ents ?v = (v_ents v)(v_last v + 1 \<mapsto> content r)"
    using Cons.prems by (simp_all add: insert_view_def)
  have ih: "v_ents (fold insert_view rs ?v) = (\<lambda>i. if v_last v + 1 < i \<and> i \<le> v_last v + 1 + int (length rs)
     then Some (content (rs ! nat (i - v_last v - 2))) else v_ents ?v i)"
  proof -
    have "i - (v_last v + 1) - 1 = i - v_last v - 2" for i by simp
    then show ?thesis using Cons.IH [of ?v] Cons.prems by (simp add: v(1) cong: if_cong)
  qed
  have nth: "nat (i - v_last v - 1) - Suc 0 = nat (i - v_last v - 2)" for i
    by simp
  show ?case unfolding fold_simps o_apply ih by (rule ext) (auto simp: v(2) nth)
qed (auto simp: fun_eq_iff)

text \<open>The header of a reply to an append message.\<close>

definition append_hdr :: "uri \<Rightarrow> ('l, 'a) env \<Rightarrow> ('l, 'a) node \<Rightarrow> log_hdr \<Rightarrow> log_hdr" where
  "append_hdr me E s h = \<lparr>sender = me, receiver = Some (sender h), serial_number = next_serial s,
     msg_term = get_term (log E) (n_log s), prevLogIndex = prevLogIndex h, prevLogTerm = prevLogTerm h\<rparr>"

lemma send_append_response_run [run]:
  "send_append_entries_response E m h s = (Inr (), (use_serial s)\<lparr>outbox := outbox s @
     [response m (AppendResponseMessage (append_hdr (my_uri E) E s h) (get_last_index (log E) (n_log s)) True
        (leader_uri (ops s)) (serial_number h))]\<rparr>)"
  by (simp add: send_append_entries_response_def mk_log_hdr_def send_response_def run append_hdr_def)

lemma send_no_sync_run [run]:
  "send_no_sync_append_response E m h s = (Inr (), (use_serial s)\<lparr>outbox := outbox s @
     [response m (AppendResponseMessage (append_hdr (or_else [] (receiver h)) E s h)
        (get_last_index (log E) (n_log s)) False (leader_uri (ops s)) (serial_number h))]\<rparr>)"
  by (simp add: send_no_sync_append_response_def mk_log_hdr_def send_response_def run append_hdr_def)

lemma append_hdr_frame [simp]:
  "append_hdr me E (s\<lparr>follower := f\<rparr>) h = append_hdr me E s h"
  "append_hdr me E (s\<lparr>ops := p\<rparr>) h = append_hdr me E s h"
  "append_hdr me E (s\<lparr>tasks := ts\<rparr>) h = append_hdr me E s h"
  by (simp_all add: append_hdr_def)

context log_client
begin

lemma append_records:
  assumes "ok s" and "run_from (v_last (lv s) + 1) es" and "list_all plain es"
  shows "\<exists>l. forE es (append_record E) s = (Inr (), s\<lparr>n_log := l\<rparr>) \<and> inv l \<and>
     view api ents l = fold insert_view es (lv s)"
  using assms
proof (induction es arbitrary: s)
  case Nil
  then show ?case by (auto simp: run intro!: exI [of _ "n_log s"])
next
  case (Cons r rs)
  have last: "0 \<le> v_last (lv s)" using inv_view [OF Cons.prems(1)] by (simp add: view_ok_def)
  have idx: "rec_index r = v_last (lv s) + 1" and pl: "plain r" using Cons.prems by simp_all
  have pr: "place (lv s) r = r" using idx last by (simp add: place_def)
  obtain l where l: "log_do (log_append (log E) r) s = (Inr r, s\<lparr>n_log := l\<rparr>)" "inv l"
      "view api ents l = insert_view r (lv s)"
    using do_append [OF Cons.prems(1), of r] idx pr by (auto simp: can_insert_def)
  have "append_record E r s = (Inr (), s\<lparr>n_log := l\<rparr>)"
    using pl l(1) by (auto simp: append_record_def plain_def run)
  moreover have "v_last (view api ents l) = v_last (lv s) + 1"
    unfolding l(3) using idx by (simp add: insert_view_def)
  moreover obtain l' where "forE rs (append_record E) (s\<lparr>n_log := l\<rparr>) = (Inr (), s\<lparr>n_log := l'\<rparr>)" "inv l'"
      "view api ents l' = fold insert_view rs (view api ents l)"
    using Cons.IH [of "s\<lparr>n_log := l\<rparr>"] Cons.prems l(2) calculation(2) by auto
  ultimately show ?case using l(3) by (auto simp: run)
qed

lemma maybe_commit_nothing: "ci \<le> v_commit (lv s) \<Longrightarrow> ci \<le> v_applied (lv s) \<Longrightarrow> maybe_commit E ci s = (Inr (), s)"
  by (simp add: maybe_commit_def run log_E)

lemma note_leader_run:
  "\<exists>f p ts. note_leader E h s = (Inr (), s\<lparr>follower := f, ops := p, tasks := ts\<rparr>) \<and>
     f_commands_idempotent f = f_commands_idempotent (follower s) \<and> last_leader_contact f = now s \<and>
     (msg_term h = v_term (lv s) \<longrightarrow> leader_uri p = Some (sender h)) \<and> current_config p = current_config (ops s)"
proof (cases "msg_term h = v_term (lv s) \<and> leader_uri (ops s) \<noteq> Some (sender h)")
  case True
  let ?f = "(follower s)\<lparr>last_leader_contact := now s\<rparr>" and ?p = "(ops s)\<lparr>leader_uri := Some (sender h)\<rparr>"
  have "\<exists>ts. note_leader E h s = (Inr (), s\<lparr>follower := ?f, ops := ?p, tasks := ts\<rparr>)"
    using True by (simp add: note_leader_def follower_mod_def set_leader_uri_def ops_mod_def run log_E
        split del: if_split) (rule exI, rule refl)
  then obtain ts where "note_leader E h s = (Inr (), s\<lparr>follower := ?f, ops := ?p, tasks := ts\<rparr>)" by blast
  then show ?thesis by (intro exI [of _ ?f] exI [of _ ?p] exI [of _ ts]) simp
next
  case False
  let ?f = "(follower s)\<lparr>last_leader_contact := now s\<rparr>"
  have "note_leader E h s = (Inr (), s\<lparr>follower := ?f, ops := ops s, tasks := tasks s\<rparr>)"
    using False by (auto simp: note_leader_def follower_mod_def run log_E)
  with False show ?thesis
    by (intro exI [of _ ?f] exI [of _ "ops s"] exI [of _ "tasks s"]) auto
qed

lemma sync_in_step:
  assumes "msg_term h = v_term (lv s)" and "prevLogIndex h = v_last (lv s)" and "prevLogTerm h = v_last_term (lv s)"
  shows "sync_log E m h es s = (Inr True, s)"
  using assms by (auto simp: sync_log_def run log_E)

lemma take_entries_run:
  assumes "ok s" and "run_from (v_last (lv s) + 1) es" and "list_all plain es"
    and "ci \<le> v_commit (lv s)" and "ci \<le> v_applied (lv s)"
  shows "\<exists>t. take_entries E m h es ci s = (Inr (), t) \<and> ok t \<and> lv t = fold insert_view es (lv s) \<and>
     follower t = follower s \<and> ops t = ops s \<and> outbox t = outbox s @
       [response m (AppendResponseMessage (append_hdr (my_uri E) E s h) (v_last (lv s) + int (length es)) True
          (leader_uri (ops s)) (serial_number h))]"
proof -
  obtain l where l: "forE es (append_record E) s = (Inr (), s\<lparr>n_log := l\<rparr>)" "inv l"
      "view api ents l = fold insert_view es (lv s)"
    using append_records assms(1-3) by blast
  note v = fold_insert_view [OF assms(2)]
  have hdr: "append_hdr (my_uri E) E (s\<lparr>n_log := l\<rparr>) h = append_hdr (my_uri E) E s h"
    using v by (simp add: append_hdr_def log_E viewD [OF l(3)])
  have "take_entries E m h es ci s = (Inr (), (use_serial (s\<lparr>n_log := l\<rparr>))\<lparr>outbox := outbox s @
       [response m (AppendResponseMessage (append_hdr (my_uri E) E s h) (v_last (lv s) + int (length es)) True
          (leader_uri (ops s)) (serial_number h))]\<rparr>)"
  proof (cases "es = []")
    case True
    then have "s\<lparr>n_log := l\<rparr> = s" using l(1) by (simp add: run)
    with True show ?thesis using assms(4,5) by (simp add: take_entries_def run maybe_commit_def log_E)
  next
    case False
    with v assms(4,5) l show ?thesis
      by (simp add: take_entries_def run maybe_commit_def log_E viewD [OF l(3)] hdr)
  qed
  with l show ?thesis by simp
qed

lemma append_success:
  assumes "ok s" and "msg_term h = v_term (lv s)" and "prevLogIndex h = v_last (lv s)"
    and "prevLogTerm h = v_last_term (lv s)" and "run_from (v_last (lv s) + 1) es" and "list_all plain es"
    and "ci \<le> v_commit (lv s)" and "ci \<le> v_applied (lv s)"
  shows "\<exists>t. on_append_entries E m h es ci s = (Inr (), t) \<and> ok t \<and> lv t = fold insert_view es (lv s) \<and>
     leader_uri (ops t) = Some (sender h) \<and> last_leader_contact (follower t) = now s \<and> outbox t = outbox s @
       [response m (AppendResponseMessage (append_hdr (my_uri E) E s h) (v_last (lv s) + int (length es)) True
          (Some (sender h)) (serial_number h))]"
proof -
  obtain f p ts where n: "note_leader E h s = (Inr (), s\<lparr>follower := f, ops := p, tasks := ts\<rparr>)"
      "last_leader_contact f = now s" "leader_uri p = Some (sender h)"
    using note_leader_run [of h s] assms(2) by blast
  let ?s = "s\<lparr>follower := f, ops := p, tasks := ts\<rparr>"
  have "sync_log E m h es ?s = (Inr True, ?s)"
    using assms(2-4) by (intro sync_in_step) simp_all
  moreover obtain t where "take_entries E m h es ci ?s = (Inr (), t)" "ok t" "lv t = fold insert_view es (lv s)"
      "follower t = f" "ops t = p" "outbox t = outbox s @
       [response m (AppendResponseMessage (append_hdr (my_uri E) E s h) (v_last (lv s) + int (length es)) True
          (Some (sender h)) (serial_number h))]"
    using take_entries_run [of ?s es ci m h] assms(1,5-8) n(3) by auto
  ultimately show ?thesis using n by (auto simp: on_append_entries_def run)
qed

end

text \<open>C4. A follower in the leader's term whose last record is the one the message names stores all of
  its entries after it (each found at its index, the older ones untouched), adopts the sender as leader, counts
  the contact, and answers success with its new last index.\<close>

theorem append_entries_stored:
  assumes "log_client api I ents E" and "I (n_log s)" and "v = view api ents (n_log s)"
    and "msg_term h = v_term v" and "prevLogIndex h = v_last v" and "prevLogTerm h = v_last_term v"
    and "run_from (v_last v + 1) es" and "list_all plain es" and "ci \<le> v_commit v" and "ci \<le> v_applied v"
  shows "\<exists>t. on_append_entries E m h es ci s = (Inr (), t) \<and> I (n_log t) \<and>
     v_last (view api ents (n_log t)) = v_last v + int (length es) \<and>
     ents (n_log t) = (\<lambda>i. if v_last v < i \<and> i \<le> v_last v + int (length es)
        then Some (content (es ! nat (i - v_last v - 1))) else ents (n_log s) i) \<and>
     leader_uri (ops t) = Some (sender h) \<and> last_leader_contact (follower t) = now s \<and> outbox t = outbox s @
       [response m (AppendResponseMessage (append_hdr (my_uri E) E s h) (v_last v + int (length es)) True
          (Some (sender h)) (serial_number h))]"
proof -
  obtain t where t: "on_append_entries E m h es ci s = (Inr (), t)" "I (n_log t)"
     "view api ents (n_log t) = fold insert_view es v"
     "leader_uri (ops t) = Some (sender h)" "last_leader_contact (follower t) = now s" "outbox t = outbox s @
       [response m (AppendResponseMessage (append_hdr (my_uri E) E s h) (v_last v + int (length es)) True
          (Some (sender h)) (serial_number h))]"
    using log_client.append_success [OF assms(1,2)] assms(4-) unfolding assms(3) by blast
  moreover have "ents (n_log t) = v_ents (fold insert_view es v)" "v_ents v = ents (n_log s)"
    "get_last_index api (n_log t) = v_last (fold insert_view es v)"
    using arg_cong [OF t(3), of v_ents] arg_cong [OF t(3), of v_last] assms(3) by simp_all
  ultimately show ?thesis
    using fold_insert_view [OF assms(7)] fold_insert_ents [OF assms(7)] by auto
qed

theorem append_entries_stored_witness:
  "\<exists>t. on_append_entries (example_env memory_api ''n1'')
       (AppendEntriesMessage (example_hdr ''n2'' 0 2 1) [example_rec 3 1] 0) (example_hdr ''n2'' 0 2 1)
       [example_rec 3 1] 0 (example_node example_log) = (Inr (), t) \<and>
     v_last (mem_view (n_log t)) = 3 \<and> leader_uri (ops t) = Some ''n2''"
  using append_entries_stored [OF example_client, of "example_node example_log" "mem_view example_log"
      "example_hdr ''n2'' 0 2 1" "[example_rec 3 1]" 0 "''n1''"
      "AppendEntriesMessage (example_hdr ''n2'' 0 2 1) [example_rec 3 1] 0"] example_log_inv
  by (auto simp: example_view_simps plain_def simp del: view_simps)

section \<open>Committing and applying\<close>

text \<open>What the application sees of a list of records: the client commands in order.\<close>

definition apply_rec :: "('l, 'a) env \<Rightarrow> LogRec \<Rightarrow> 'a \<Rightarrow> 'a" where
  "apply_rec E r a = (if code r = client_command then snd (process_command E (command r) (serial r) a) else a)"

text \<open>An application that answers every command without an error.\<close>

definition app_total :: "('l, 'a) env \<Rightarrow> bool" where
  "app_total E \<longleftrightarrow> (\<forall>c n a. \<exists>res. fst (process_command E c n a) = Inr (res, None))"

text \<open>A record that a follower can apply: no change of configuration, and a command gets an answer without an error.\<close>

definition servable :: "('l, 'a) env \<Rightarrow> LogRec \<Rightarrow> bool" where
  "servable E r \<longleftrightarrow> code r \<noteq> cluster_config \<and>
     (code r = client_command \<longrightarrow> (\<forall>a. \<exists>res. fst (process_command E (command r) (serial r) a) = Inr (res, None)))"

lemma app_total_servable: "app_total E \<Longrightarrow> code r \<noteq> cluster_config \<Longrightarrow> servable E r"
  by (simp add: app_total_def servable_def)

lemma process_command_run:
  "servable E r \<Longrightarrow> code r = client_command \<Longrightarrow>
   \<exists>res. process_command E (command r) (serial r) a = (Inr (res, None), apply_rec E r a)"
  by (metis servable_def apply_rec_def prod.collapse)

lemma bind_log_get: "bindE (log_get q E) f s = f (q (log E) (n_log s)) s"
  by (simp add: run)

lemma commit_same: "max m (v_commit v) = v_commit v \<Longrightarrow> v\<lparr>v_commit := max m (v_commit v)\<rparr> = v"
  by simp

lemma applied_same: "max m (v_applied v) = v_applied v \<Longrightarrow> v\<lparr>v_applied := max m (v_applied v)\<rparr> = v"
  by simp

lemma app_log_swap: "s\<lparr>n_log := l, n_app := a\<rparr> = s\<lparr>n_app := a, n_log := l\<rparr>"
  by simp

context log_client
begin

lemma commit_up:
  assumes "ok s" and "a \<le> b + 1"
  shows "\<exists>l. forE (py_range a (b + 1)) (\<lambda>i. log_do (mark_committed (log E) i)) s = (Inr (), s\<lparr>n_log := l\<rparr>) \<and> inv l \<and>
     view api ents l = (if a \<le> b then (lv s)\<lparr>v_commit := max b (v_commit (lv s))\<rparr> else lv s)"
  using assms(2,1)
proof (induction a arbitrary: s rule: int_le_induct)
  case base
  then show ?case by (auto simp: py_range_def run intro!: exI [of _ "n_log s"])
next
  case (step a)
  have rng: "py_range (a - 1) (b + 1) = (a - 1) # py_range a (b + 1)"
    using step.hyps by (simp add: py_range_def upto_rec1)
  obtain l where l: "log_do (mark_committed (log E) (a - 1)) s = (Inr (), s\<lparr>n_log := l\<rparr>)" "inv l"
      "view api ents l = (lv s)\<lparr>v_commit := max (a - 1) (v_commit (lv s))\<rparr>"
    using do_committed [OF step.prems] by blast
  obtain l' where "forE (py_range a (b + 1)) (\<lambda>i. log_do (mark_committed (log E) i)) (s\<lparr>n_log := l\<rparr>) =
        (Inr (), s\<lparr>n_log := l'\<rparr>)" "inv l'"
      "view api ents l' = (if a \<le> b then (view api ents l)\<lparr>v_commit := max b (v_commit (view api ents l))\<rparr>
         else view api ents l)"
    using step.IH [of "s\<lparr>n_log := l\<rparr>"] l(2) by auto
  with l step.hyps show ?case unfolding rng
    by (auto simp: run l(3) max.assoc max_absorb1 max_absorb2)
qed

lemma apply_one:
  assumes "ok s" and "1 \<le> i" and "ents (n_log s) i = Some r" and "rec_index r = i" and "servable E r"
  shows "\<exists>l. apply_record E i s = (Inr (), s\<lparr>n_app := apply_rec E r (n_app s), n_log := l\<rparr>) \<and> inv l \<and>
     view api ents l = (lv s)\<lparr>v_applied := max i (v_applied (lv s))\<rparr>"
proof -
  obtain l r' where rd: "read_rec E i s = (Inr r', s\<lparr>n_log := l\<rparr>)" "inv l" "view api ents l = lv s" "content r' = r"
    using read_rec_some [OF assms(1,2,3)] by blast
  from rd(4) have r': "code r' = code r" "command r' = command r" "serial r' = serial r" "rec_index r' = i"
    using assms(4) by (auto simp: content_def)
  define s1 where "s1 = s\<lparr>n_app := apply_rec E r (n_app s), n_log := l\<rparr>"
  have "ok s1" using rd(2) by (simp add: s1_def)
  then obtain l' where l': "log_do (mark_applied (log E) i) s1 = (Inr (), s1\<lparr>n_log := l'\<rparr>)" "inv l'"
      "view api ents l' = (lv s)\<lparr>v_applied := max i (v_applied (lv s))\<rparr>"
    using do_applied [of s1 i] rd(3) by (auto simp: s1_def)
  have "apply_record E i s = log_do (mark_applied (log E) i) s1"
  proof (cases "code r = client_command")
    case True
    obtain res where "process_command E (command r) (serial r) (n_app s) = (Inr (res, None), apply_rec E r (n_app s))"
      using process_command_run [OF assms(5) True] by blast
    then show ?thesis using rd(1) r' True
      by (simp add: apply_record_def process_command_record_def app_do_def run s1_def app_log_swap)
  next
    case False
    then have "code r = term_start" using assms(5) by (cases "code r") (auto simp: servable_def)
    moreover have "s1 = s\<lparr>n_log := l\<rparr>" using False by (simp add: s1_def apply_rec_def)
    ultimately show ?thesis using rd(1) r' by (simp add: apply_record_def run)
  qed
  with l' show ?thesis by (auto simp: s1_def)
qed

lemma apply_up:
  assumes "ok s" and "a \<le> b + 1" and "1 \<le> a"
    and "\<forall>i \<in> {a..b}. \<exists>r. ents (n_log s) i = Some r \<and> rec_index r = i \<and> servable E r"
  shows "\<exists>l. forE (py_range a (b + 1)) (apply_record E) s =
       (Inr (), s\<lparr>n_app := fold (apply_rec E) (map (\<lambda>i. the (ents (n_log s) i)) [a..b]) (n_app s), n_log := l\<rparr>) \<and>
     inv l \<and> view api ents l = (if a \<le> b then (lv s)\<lparr>v_applied := max b (v_applied (lv s))\<rparr> else lv s)"
  using assms(2,1,3,4)
proof (induction a arbitrary: s rule: int_le_induct)
  case base
  then show ?case by (auto simp: py_range_def run intro!: exI [of _ "n_log s"])
next
  case (step a)
  have rng: "py_range (a - 1) (b + 1) = (a - 1) # py_range a (b + 1)" "[a - 1..b] = (a - 1) # [a..b]"
    using step.hyps by (simp_all add: py_range_def upto_rec1)
  obtain r where r: "ents (n_log s) (a - 1) = Some r" "rec_index r = a - 1" "servable E r"
    using step.prems(3) step.hyps by force
  obtain l where l: "apply_record E (a - 1) s = (Inr (), s\<lparr>n_app := apply_rec E r (n_app s), n_log := l\<rparr>)" "inv l"
      "view api ents l = (lv s)\<lparr>v_applied := max (a - 1) (v_applied (lv s))\<rparr>"
    using apply_one [OF step.prems(1) _ r] step.prems(2) by blast
  let ?s = "s\<lparr>n_app := apply_rec E r (n_app s), n_log := l\<rparr>"
  have e: "ents l = ents (n_log s)" using arg_cong [OF l(3), of v_ents] by simp
  obtain l' where "forE (py_range a (b + 1)) (apply_record E) ?s =
       (Inr (), s\<lparr>n_app := fold (apply_rec E) (map (\<lambda>i. the (ents (n_log s) i)) [a..b]) (apply_rec E r (n_app s)),
          n_log := l'\<rparr>)" "inv l'"
      "view api ents l' = (if a \<le> b then (view api ents l)\<lparr>v_applied := max b (v_applied (view api ents l))\<rparr>
         else view api ents l)"
    using step.IH [of ?s] l(2) step.prems(2,3) e by auto
  with l step.hyps r show ?case unfolding rng
    by (auto simp: run l(3) max.assoc max_absorb1 max_absorb2)
qed

lemma commit_all:
  assumes "ok s"
  shows "\<exists>l. forE (py_range a (b + 1)) (\<lambda>i. log_do (mark_committed (log E) i)) s = (Inr (), s\<lparr>n_log := l\<rparr>) \<and> inv l \<and>
     view api ents l = (if a \<le> b then (lv s)\<lparr>v_commit := max b (v_commit (lv s))\<rparr> else lv s)"
proof (cases "a \<le> b + 1")
  case False
  with assms show ?thesis by (auto simp: py_range_def run intro!: exI [of _ "n_log s"])
qed (rule commit_up [OF assms])

lemma apply_all:
  assumes "ok s" and "1 \<le> a"
    and "\<forall>i \<in> {a..b}. \<exists>r. ents (n_log s) i = Some r \<and> rec_index r = i \<and> servable E r"
  shows "\<exists>l. forE (py_range a (b + 1)) (apply_record E) s =
       (Inr (), s\<lparr>n_app := fold (apply_rec E) (map (\<lambda>i. the (ents (n_log s) i)) [a..b]) (n_app s), n_log := l\<rparr>) \<and>
     inv l \<and> view api ents l = (if a \<le> b then (lv s)\<lparr>v_applied := max b (v_applied (lv s))\<rparr> else lv s)"
proof (cases "a \<le> b + 1")
  case False
  with assms show ?thesis by (auto simp: py_range_def run intro!: exI [of _ "n_log s"])
qed (rule apply_up [OF assms(1) _ assms(2,3)])

text \<open>The commit loop of \<open>new_leader_commit_index\<close>, from wherever it starts, ends at the same commit index.\<close>

lemma commit_phase:
  assumes "ok s" and "v_commit (lv s) < ci \<Longrightarrow> lo \<le> v_commit (lv s) + 1"
  shows "\<exists>l. whenE (v_commit (lv s) < ci) (forE (py_range lo (min ci (v_last (lv s)) + 1))
         (\<lambda>i. log_do (mark_committed (log E) i))) s = (Inr (), s\<lparr>n_log := l\<rparr>) \<and> inv l \<and>
     view api ents l = (lv s)\<lparr>v_commit := max (min ci (v_last (lv s))) (v_commit (lv s))\<rparr>"
proof (cases "v_commit (lv s) < ci")
  case True
  obtain l where "forE (py_range lo (min ci (v_last (lv s)) + 1)) (\<lambda>i. log_do (mark_committed (log E) i)) s =
      (Inr (), s\<lparr>n_log := l\<rparr>)" "inv l"
    "view api ents l = (if lo \<le> min ci (v_last (lv s))
       then (lv s)\<lparr>v_commit := max (min ci (v_last (lv s))) (v_commit (lv s))\<rparr> else lv s)"
    using commit_all [OF assms(1)] by blast
  moreover have "\<not> lo \<le> min ci (v_last (lv s)) \<Longrightarrow>
      lv s = (lv s)\<lparr>v_commit := max (min ci (v_last (lv s))) (v_commit (lv s))\<rparr>"
    using assms(2) [OF True] by (intro commit_same [symmetric]) (auto simp: max_def min_def)
  ultimately show ?thesis using True by auto
next
  case False
  then have "lv s = (lv s)\<lparr>v_commit := max (min ci (v_last (lv s))) (v_commit (lv s))\<rparr>"
    by (intro commit_same [symmetric]) (auto simp: max_def min_def)
  with False assms(1) show ?thesis by (intro exI [of _ "n_log s"]) (simp add: run)
qed

lemma commit_and_apply:
  assumes "ok s" and "snap_base (v_snap (lv s)) \<le> v_applied (lv s)"
    and "\<forall>i r. v_applied (lv s) < i \<and> i \<le> ci \<and> ents (n_log s) i = Some r \<longrightarrow> servable E r"
  shows "\<exists>l. new_leader_commit_index E ci s = (Inr (), s\<lparr>
       n_app := fold (apply_rec E) (map (\<lambda>i. the (ents (n_log s) i)) [v_applied (lv s) + 1..min ci (v_last (lv s))]) (n_app s),
       n_log := l\<rparr>) \<and> inv l \<and>
     view api ents l = (lv s)\<lparr>v_commit := max (min ci (v_last (lv s))) (v_commit (lv s)),
       v_applied := max (min ci (v_last (lv s))) (v_applied (lv s))\<rparr>"
proof -
  let ?v = "lv s" and ?m = "min ci (v_last (lv s))"
  have vok: "view_ok ?v" using inv_view assms(1) by blast
  define f where "f = (case v_first ?v of Some f \<Rightarrow> f | None \<Rightarrow> v_last ?v)"
  have f: "f \<le> v_applied ?v + 1"
    using vok assms(2) by (auto simp: f_def view_ok_def split: option.splits if_splits)
  define lo where "lo = (if v_applied ?v < ci then min (if v_commit ?v < ci then v_commit ?v + 1 else f) (v_applied ?v + 1)
     else (if v_commit ?v < ci then v_commit ?v + 1 else f))"
  have lo: "v_commit ?v < ci \<Longrightarrow> lo \<le> v_commit ?v + 1" by (simp add: lo_def)
  obtain l where l: "whenE (v_commit ?v < ci) (forE (py_range lo (?m + 1)) (\<lambda>i. log_do (mark_committed (log E) i))) s =
      (Inr (), s\<lparr>n_log := l\<rparr>)" "inv l" "view api ents l = ?v\<lparr>v_commit := max ?m (v_commit ?v)\<rparr>"
    using commit_phase [OF assms(1), of ci lo] lo by blast
  let ?s = "s\<lparr>n_log := l\<rparr>"
  have e: "ents l = ents (n_log s)" using arg_cong [OF l(3), of v_ents] by simp
  have there: "\<forall>i \<in> {v_applied ?v + 1..?m}. \<exists>r. ents (n_log ?s) i = Some r \<and> rec_index r = i \<and> servable E r"
  proof
    fix i
    assume i: "i \<in> {v_applied ?v + 1..?m}"
    then have "snap_base (v_snap ?v) < i" "i \<le> v_last ?v" using assms(2) by auto
    then obtain r where "ents (n_log s) i = Some r" "rec_index r = i" using ents_some [OF assms(1)] by blast
    moreover have "v_applied ?v < i \<and> i \<le> ci" using i by auto
    ultimately show "\<exists>r. ents (n_log ?s) i = Some r \<and> rec_index r = i \<and> servable E r"
      using assms(3) e by fastforce
  qed
  have pos: "1 \<le> v_applied ?v + 1" using vok assms(2) by (simp add: view_ok_def)
  obtain l' where l': "forE (py_range (v_applied ?v + 1) (?m + 1)) (apply_record E) ?s = (Inr (), s\<lparr>
       n_app := fold (apply_rec E) (map (\<lambda>i. the (ents (n_log s) i)) [v_applied ?v + 1..?m]) (n_app s), n_log := l'\<rparr>)"
      "inv l'" "view api ents l' = (if v_applied ?v + 1 \<le> ?m
         then (view api ents l)\<lparr>v_applied := max ?m (v_applied (view api ents l))\<rparr> else view api ents l)"
    using apply_all [OF _ pos there] l(2) e by (auto simp: app_log_swap)
  have "new_leader_commit_index E ci s =
      seqE (whenE (v_commit ?v < ci) (forE (py_range lo (?m + 1)) (\<lambda>i. log_do (mark_committed (log E) i))))
        (forE (py_range (max (v_applied ?v + 1) f) (?m + 1)) (apply_record E)) s"
    unfolding new_leader_commit_index_def bind_log_get Let_def lo_def f_def log_E view_simps ..
  then have "new_leader_commit_index E ci s = forE (py_range (v_applied ?v + 1) (?m + 1)) (apply_record E) ?s"
    using l(1) f by (simp add: run_seqE max_absorb1)
  moreover have "view api ents l' = ?v\<lparr>v_commit := max ?m (v_commit ?v), v_applied := max ?m (v_applied ?v)\<rparr>"
  proof (cases "v_applied ?v + 1 \<le> ?m")
    case True
    then show ?thesis unfolding l'(3) l(3) by simp
  next
    case False
    then have "max ?m (v_applied ?v) = v_applied ?v" by (intro max_absorb2) linarith
    with applied_same [of ?m "?v\<lparr>v_commit := max ?m (v_commit ?v)\<rparr>"] False show ?thesis
      unfolding l'(3) l(3) by simp
  qed
  ultimately show ?thesis using l'(1,2) by auto
qed

end

text \<open>C3. When the records to apply change no configuration and the application answers their commands without an error, a new
  leader commit index makes the follower commit up to it or to the end of its own log, whichever is
  smaller, and apply every record between its applied index and there, once each and in index order; neither
  index ever moves back.\<close>

theorem follower_commits_and_applies:
  assumes "log_client api I ents E" and "I (n_log s)" and "v = view api ents (n_log s)"
    and "snap_base (v_snap v) \<le> v_applied v"
    and "\<forall>i r. v_applied v < i \<and> i \<le> ci \<and> ents (n_log s) i = Some r \<longrightarrow> servable E r"
  shows "\<exists>t. new_leader_commit_index E ci s = (Inr (), t) \<and> I (n_log t) \<and>
     n_app t = fold (apply_rec E) (map (\<lambda>i. the (ents (n_log s) i)) [v_applied v + 1..min ci (v_last v)]) (n_app s) \<and>
     view api ents (n_log t) = v\<lparr>v_commit := max (min ci (v_last v)) (v_commit v),
       v_applied := max (min ci (v_last v)) (v_applied v)\<rparr>"
  using log_client.commit_and_apply [OF assms(1,2)] assms(4,5) unfolding assms(3) by fastforce

theorem follower_commits_and_applies_witness:
  "\<exists>t. new_leader_commit_index (example_env memory_api ''n1'') 2 (example_node example_log) = (Inr (), t) \<and>
     v_commit (mem_view (n_log t)) = 2 \<and> v_applied (mem_view (n_log t)) = 2"
proof -
  have total: "app_total (example_env memory_api ''n1'')"
    by (simp add: app_total_def example_env_def run)
  have "\<forall>i r. mem_ents example_log i = Some r \<longrightarrow> code r \<noteq> cluster_config"
    using arg_cong [OF example_view_simps(8), of id] by auto
  then have "\<forall>i r. v_applied (mem_view example_log) < i \<and> i \<le> 2 \<and> mem_ents example_log i = Some r \<longrightarrow>
      servable (example_env memory_api ''n1'') r"
    using app_total_servable [OF total] by blast
  then show ?thesis
    using follower_commits_and_applies [OF example_client, of "example_node example_log" "mem_view example_log" 2 "''n1''"]
      example_log_inv
    by (auto simp: example_view_simps simp del: view_simps)
qed

section \<open>What the consistency check loses\<close>

context log_client
begin

text \<open>Deleting one record after the other from the end.\<close>

lemma delete_down:
  assumes "ok s" and "v_snap (lv s) = None" and "v_last (lv s) = int n"
    and "\<forall>i r. ents (n_log s) i = Some r \<longrightarrow> code r \<noteq> cluster_config"
  shows "\<exists>l. forE (rev (py_range 1 (int n + 1))) (delete_record E) s = (Inr (), s\<lparr>n_log := l\<rparr>) \<and> inv l \<and>
     v_last (view api ents l) = 0 \<and> v_ents (view api ents l) = (\<lambda>i. None)"
  using assms
proof (induction n arbitrary: s)
  case 0
  have "ents (n_log s) = (\<lambda>i. None)" using ents_none [OF 0(1)] 0(2,3) by (auto simp: fun_eq_iff)
  with 0 show ?case by (intro exI [of _ "n_log s"]) (simp add: py_range_def run)
next
  case (Suc n)
  let ?i = "int (Suc n)"
  have rng: "rev (py_range 1 (?i + 1)) = ?i # rev (py_range 1 (int n + 1))"
    by (simp add: py_range_def upto_rec2)
  obtain r where r: "ents (n_log s) ?i = Some r" using ents_some [OF Suc.prems(1), of ?i] Suc.prems(2,3) by auto
  obtain l r' where rd: "read_rec E ?i s = (Inr r', s\<lparr>n_log := l\<rparr>)" "inv l" "view api ents l = lv s" "content r' = r"
    using read_rec_some [OF Suc.prems(1) _ r] by auto
  have code: "code r' \<noteq> cluster_config" using Suc.prems(4) r rd(4) by (metis content_simps(4))
  have "can_delete ?i (lv (s\<lparr>n_log := l\<rparr>))" using Suc.prems(2,3) rd(3) by (simp add: can_delete_def)
  then obtain l' where d: "log_do (delete_all_from (log E) ?i) (s\<lparr>n_log := l\<rparr>) = (Inr (), s\<lparr>n_log := l'\<rparr>)" "inv l'"
      "deleted_from ?i (lv s) (view api ents l')"
    using do_delete [of "s\<lparr>n_log := l\<rparr>" ?i] rd(2,3) by auto
  have "\<forall>i r. ents l' i = Some r \<longrightarrow> code r \<noteq> cluster_config"
    using d(3) Suc.prems(4) by (auto simp: deleted_from_def)
  then obtain l'' where "forE (rev (py_range 1 (int n + 1))) (delete_record E) (s\<lparr>n_log := l'\<rparr>) = (Inr (), s\<lparr>n_log := l''\<rparr>)" "inv l''"
     "v_last (view api ents l'') = 0 \<and> v_ents (view api ents l'') = (\<lambda>i. None)"
    using Suc.IH [of "s\<lparr>n_log := l'\<rparr>"] d(2,3) Suc.prems(2) by (auto simp: deleted_from_def)
  moreover have "delete_record E ?i s = (Inr (), s\<lparr>n_log := l'\<rparr>)"
    using rd(1) code d(1) by (simp add: run delete_record_def)
  ultimately show ?case unfolding rng by (auto simp: run)
qed

lemma wiped:
  assumes "ok s" and "v_snap (lv s) = None" and "0 < v_last (lv s)" and "prevLogIndex h = 0"
    and "\<forall>i r. ents (n_log s) i = Some r \<longrightarrow> code r \<noteq> cluster_config"
  shows "\<exists>l. sync_log E m h es s = (Inr True, s\<lparr>n_log := l\<rparr>) \<and> inv l \<and>
     v_last (view api ents l) = 0 \<and> v_ents (view api ents l) = (\<lambda>i. None)"
proof -
  obtain n where n: "v_last (lv s) = int n" using assms(3) by (metis int_nat_eq less_le)
  from delete_down [OF assms(1,2) n assms(5)] n assms(3,4) show ?thesis
    by (auto simp: sync_log_def delete_log_from_def run log_E)
qed

text \<open>Entries that reach past the end of a log that already goes beyond the previous index.\<close>

lemma rewrite_matching:
  assumes "ok s" and "list_all (\<lambda>r. 1 \<le> rec_index r \<and> (\<exists>r'. ents (n_log s) (rec_index r) = Some r' \<and> rec_term r' = rec_term r)) ms"
  shows "\<exists>l. rewrite_conflicts E ms s = (Inr (), s\<lparr>n_log := l\<rparr>) \<and> inv l \<and> view api ents l = lv s"
  using assms
proof (induction ms arbitrary: s)
  case Nil
  then show ?case by (auto simp: rewrite_conflicts_def run intro!: exI [of _ "n_log s"])
next
  case (Cons r ms)
  then obtain r' where r': "1 \<le> rec_index r" "ents (n_log s) (rec_index r) = Some r'" "rec_term r' = rec_term r" by auto
  obtain l q where rd: "read_rec E (rec_index r) s = (Inr q, s\<lparr>n_log := l\<rparr>)" "inv l" "view api ents l = lv s" "content q = r'"
    using read_rec_some [OF Cons.prems(1) r'(1,2)] by blast
  have e: "ents l = ents (n_log s)" using arg_cong [OF rd(3), of v_ents] by simp
  have "rec_term q = rec_term r" using rd(4) r'(3) by auto
  moreover obtain l' where "rewrite_conflicts E ms (s\<lparr>n_log := l\<rparr>) = (Inr (), s\<lparr>n_log := l'\<rparr>)" "inv l'"
      "view api ents l' = lv s"
    using Cons.IH [of "s\<lparr>n_log := l\<rparr>"] rd(2,3) Cons.prems(2) e by auto
  ultimately show ?case using rd(1) by (auto simp: rewrite_conflicts_def run)
qed

lemma overlap_raises:
  assumes "ok s" and "msg_term h = v_term (lv s)" and "1 \<le> prevLogIndex h" and "prevLogIndex h < v_last (lv s)"
    and "ents (n_log s) (prevLogIndex h) = Some p" and "rec_term p = prevLogTerm h"
    and "list_all (\<lambda>r. 1 \<le> rec_index r \<and> (\<exists>r'. ents (n_log s) (rec_index r) = Some r' \<and> rec_term r' = rec_term r)) ms"
    and "v_last (lv s) < rec_index r"
  shows "\<exists>t. on_append_entries E m h (ms @ r # rs) ci s = (Inl AttributeError, t) \<and> lv t = lv s \<and> outbox t = outbox s"
proof -
  obtain f q ts where n: "note_leader E h s = (Inr (), s\<lparr>follower := f, ops := q, tasks := ts\<rparr>)"
    using note_leader_run [of h s] by blast
  let ?s = "s\<lparr>follower := f, ops := q, tasks := ts\<rparr>"
  obtain l p' where rd: "read_rec E (prevLogIndex h) ?s = (Inr p', ?s\<lparr>n_log := l\<rparr>)" "inv l" "view api ents l = lv s"
      "content p' = p"
    using read_rec_some [of ?s "prevLogIndex h" p] assms(1,3,5) by auto
  have e: "ents l = ents (n_log s)" using arg_cong [OF rd(3), of v_ents] by simp
  obtain l' where rw: "rewrite_conflicts E ms (?s\<lparr>n_log := l\<rparr>) = (Inr (), ?s\<lparr>n_log := l'\<rparr>)" "inv l'"
      "view api ents l' = lv s"
    using rewrite_matching [of "?s\<lparr>n_log := l\<rparr>" ms] rd(2,3) assms(7) e by auto
  have e': "ents l' = ents (n_log s)" using arg_cong [OF rw(3), of v_ents] by simp
  have none: "ents l' (rec_index r) = None" and pos: "1 \<le> rec_index r"
    using ents_none [OF assms(1)] last_nonneg [OF assms(1)] assms(8) e' by auto
  obtain l'' where no: "read_rec E (rec_index r) (?s\<lparr>n_log := l'\<rparr>) = (Inl AttributeError, ?s\<lparr>n_log := l''\<rparr>)"
      "view api ents l'' = lv s"
    using read_rec_none [of "?s\<lparr>n_log := l'\<rparr>"] rw(2,3) none pos by auto
  have "rewrite_conflicts E (ms @ r # rs) (?s\<lparr>n_log := l\<rparr>) = (Inl AttributeError, ?s\<lparr>n_log := l''\<rparr>)"
    using rw(1) no(1) by (simp add: rewrite_conflicts_def forE_append run_seqE run_bindE)
  moreover have "rec_term p' = prevLogTerm h" using rd(4) assms(6) by auto
  ultimately have "sync_log E m h (ms @ r # rs) ?s = (Inl AttributeError, ?s\<lparr>n_log := l''\<rparr>)"
    using rd(1) assms(2,3,4) by (simp add: sync_log_def run log_E)
  with n no(2) show ?thesis by (auto simp: on_append_entries_def run)
qed

end

text \<open>C38. The check that a message with previous index 0 empties the log is made before the terms are
  compared: such a message, of any term and so also of a leader that was deposed long ago, deletes every
  record of the follower, the committed ones too, and its entries are then accepted.\<close>

theorem stale_append_wipes_log:
  assumes "log_client api I ents E" and "I (n_log s)" and "v = view api ents (n_log s)" and "v_snap v = None"
    and "0 < v_last v" and "prevLogIndex h = 0" and "\<forall>i r. ents (n_log s) i = Some r \<longrightarrow> code r \<noteq> cluster_config"
  shows "\<exists>t. sync_log E m h es s = (Inr True, t) \<and> I (n_log t) \<and>
     v_last (view api ents (n_log t)) = 0 \<and> ents (n_log t) = (\<lambda>i. None)"
  using log_client.wiped [OF assms(1,2)] assms(4-) unfolding assms(3) by fastforce

theorem stale_append_wipes_log_witness:
  "\<exists>t. sync_log (example_env memory_api ''n1'') (AppendEntriesMessage (example_hdr ''n3'' (- 5) 0 0) [] 0)
       (example_hdr ''n3'' (- 5) 0 0) [] (example_node example_log) = (Inr True, t) \<and> v_last (mem_view (n_log t)) = 0"
proof -
  have "\<forall>i r. mem_ents example_log i = Some r \<longrightarrow> code r \<noteq> cluster_config"
    using arg_cong [OF example_view_simps(8), of id] by auto
  then show ?thesis
    using stale_append_wipes_log [OF example_client, of "example_node example_log" "mem_view example_log"
        "example_hdr ''n3'' (- 5) 0 0" "''n1''" "AppendEntriesMessage (example_hdr ''n3'' (- 5) 0 0) [] 0" "[]"]
      example_log_inv
    by (auto simp: example_view_simps simp del: view_simps)
qed

text \<open>A message that repeats records the follower has, all with the same terms, and goes on past the end of
  its log is not handled: reading the first missing index gives \<open>None\<close>, the handler raises
  \<open>AttributeError\<close>, nothing is stored and no response is sent.\<close>

theorem overlapping_append_raises:
  assumes "log_client api I ents E" and "I (n_log s)" and "v = view api ents (n_log s)" and "msg_term h = v_term v"
    and "1 \<le> prevLogIndex h" and "prevLogIndex h < v_last v" and "ents (n_log s) (prevLogIndex h) = Some p"
    and "rec_term p = prevLogTerm h"
    and "list_all (\<lambda>r. 1 \<le> rec_index r \<and> (\<exists>r'. ents (n_log s) (rec_index r) = Some r' \<and> rec_term r' = rec_term r)) ms"
    and "v_last v < rec_index r"
  shows "\<exists>t. on_append_entries E m h (ms @ r # rs) ci s = (Inl AttributeError, t) \<and>
     view api ents (n_log t) = v \<and> outbox t = outbox s"
  using log_client.overlap_raises [OF assms(1,2)] assms(4-) unfolding assms(3) by blast

theorem overlapping_append_raises_witness:
  "\<exists>t. on_append_entries (example_env memory_api ''n1'')
       (AppendEntriesMessage (example_hdr ''n2'' 0 1 1) [example_rec 2 1, example_rec 3 1] 0) (example_hdr ''n2'' 0 1 1)
       ([example_rec 2 1] @ example_rec 3 1 # []) 0 (example_node example_log) = (Inl AttributeError, t) \<and> outbox t = []"
proof -
  have e: "mem_ents example_log = [1 \<mapsto> example_rec 1 1, 2 \<mapsto> example_rec 2 1]"
    using example_view_simps(8) by simp
  show ?thesis
    using overlapping_append_raises [OF example_client, of "example_node example_log" "mem_view example_log"
        "example_hdr ''n2'' 0 1 1" "example_rec 1 1" "[example_rec 2 1]" "example_rec 3 1" "''n1''"
        "AppendEntriesMessage (example_hdr ''n2'' 0 1 1) [example_rec 2 1, example_rec 3 1] 0" "[]" 0] example_log_inv
    by (auto simp: example_view_simps e example_node_def new_node_def simp del: view_simps)
qed

end
