(* ===== verification/Leader_Props.thy ===== *)
theory Leader_Props
  imports Cluster_Props Follower_Props
begin

text \<open>
  What the leader does on any log that satisfies the contract: the identity of the record before a given one,
  the broadcast of a record to the members, client commands from their arrival to the answer, commit and
  apply, the votes a record needs, and the records sent to a follower that is behind.
\<close>

section \<open>The record before\<close>

text \<open>The term at an index of the log, at its snapshot too.\<close>

definition term_at :: "log_view \<Rightarrow> int \<Rightarrow> int" where
  "term_at v i = (if i = snap_base (v_snap v) then snap_last_term (v_snap v) else rec_term (the (v_ents v i)))"

context log_client
begin

lemma prev_id_run:
  assumes "ok s" and "snap_base (v_snap (lv s)) < i" and "i \<le> v_last (lv s) + 1"
  shows "\<exists>l. get_prev_record_id E i s = (Inr (Some (i - 1), Some (term_at (lv s) (i - 1))), s\<lparr>n_log := l\<rparr>) \<and>
     inv l \<and> view api ents l = lv s"
proof (cases "i - 1 = snap_base (v_snap (lv s))")
  case True
  then have "get_prev_record_id E i s = (Inr (Some (i - 1), Some (term_at (lv s) (i - 1))), s)"
    by (cases "get_snapshot api (n_log s)") (auto simp: get_prev_record_id_def run log_E term_at_def)
  with assms(1) show ?thesis by (intro exI [of _ "n_log s"]) simp
next
  case False
  then have i: "snap_base (v_snap (lv s)) < i - 1" "i - 1 \<le> v_last (lv s)" using assms(2,3) by auto
  obtain r where r: "ents (n_log s) (i - 1) = Some r" "rec_index r = i - 1" using ents_some [OF assms(1) i] by blast
  have "1 \<le> i - 1" using last_nonneg [OF assms(1)] i(1) by simp
  from read_rec_some [OF assms(1) this r(1)] obtain l r' where
    l: "read_rec E (i - 1) s = (Inr r', s\<lparr>n_log := l\<rparr>)" "inv l" "view api ents l = lv s" "content r' = r" by blast
  have r': "rec_index r' = i - 1" "rec_term r' = rec_term r" using r(2) l(4) by auto
  have "get_prev_record_id E i s = (Inr (Some (i - 1), Some (term_at (lv s) (i - 1))), s\<lparr>n_log := l\<rparr>)"
    using i(1) r' l(1) r(1) False \<open>1 \<le> i - 1\<close>
    by (cases "get_snapshot api (n_log s)") (auto simp: get_prev_record_id_def run log_E term_at_def)
  with l show ?thesis by blast
qed

end

section \<open>Broadcasting a record\<close>

text \<open>An append message handed to the pilot for a member.\<close>

definition append_sent :: "uri \<Rightarrow> int \<Rightarrow> int \<Rightarrow> int \<Rightarrow> LogRec list \<Rightarrow> int \<Rightarrow> uri \<Rightarrow> sending \<Rightarrow> bool" where
  "append_sent me t pix ptm es ci u x \<longleftrightarrow> (\<exists>sn.
     let m = AppendEntriesMessage \<lparr>sender = me, receiver = Some u, serial_number = sn, msg_term = t,
               prevLogIndex = pix, prevLogTerm = ptm\<rparr> es ci
     in x = SendMessage (Some u) (fst (encode_message m)) (snd (encode_message m)))"

text \<open>Sending work leaves the log, the application, the role, the timers and the members alone.\<close>

definition sending_frame :: "('l, 'a) node \<Rightarrow> ('l, 'a) node \<Rightarrow> bool" where
  "sending_frame s t \<longleftrightarrow> n_log t = n_log s \<and> n_app t = n_app s \<and> now t = now s \<and> role t = role s \<and>
     deck t = deck s \<and> timers t = timers s \<and> event_control t = event_control s \<and>
     current_config (ops t) = current_config (ops s) \<and> leader_uri (ops t) = leader_uri (ops s) \<and>
     accepting_commands (leader t) = accepting_commands (leader s) \<and>
     active_commands (leader t) = active_commands (leader s) \<and> command_recs (leader t) = command_recs (leader s) \<and>
     log_vote_trackers (leader t) = log_vote_trackers (leader s) \<and>
     exit_in_progress (leader t) = exit_in_progress (leader s) \<and> l_stopped (leader t) = l_stopped (leader s)"

lemma sending_frame_refl: "sending_frame s s"
  by (simp add: sending_frame_def)

lemma sending_frame_trans: "sending_frame s t \<Longrightarrow> sending_frame t u \<Longrightarrow> sending_frame s u"
  by (simp add: sending_frame_def)

lemma tracker_run:
  "\<exists>p tr. tracker_for_follower E u s = (Inr tr, s\<lparr>ops := p\<rparr>) \<and>
     current_config p = current_config (ops s) \<and> leader_uri p = leader_uri (ops s) \<and> dict_get (follower_trackers p) u = Some tr"
proof (cases "dict_get (follower_trackers (ops s)) u")
  case None
  then show ?thesis by (auto simp: tracker_for_follower_def run ops_mod_def Let_def)
next
  case (Some tr)
  then have "tracker_for_follower E u s = (Inr tr, s\<lparr>ops := ops s\<rparr>)" by (simp add: tracker_for_follower_def run)
  with Some show ?thesis by blast
qed

lemma leader_tracking_frame [simp]:
  "accepting_commands (track_message u n mt l) = accepting_commands l"
  "active_commands (track_message u n mt l) = active_commands l"
  "command_recs (track_message u n mt l) = command_recs l"
  "log_vote_trackers (track_message u n mt l) = log_vote_trackers l"
  "exit_in_progress (track_message u n mt l) = exit_in_progress l"
  "l_stopped (track_message u n mt l) = l_stopped l" "l_stopped (add_broadcast_follower b u mt l) = l_stopped l"
  "accepting_commands (add_broadcast_follower b u mt l) = accepting_commands l"
  "active_commands (add_broadcast_follower b u mt l) = active_commands l"
  "command_recs (add_broadcast_follower b u mt l) = command_recs l"
  "log_vote_trackers (add_broadcast_follower b u mt l) = log_vote_trackers l"
  "exit_in_progress (add_broadcast_follower b u mt l) = exit_in_progress l"
  by (simp_all add: track_message_def add_broadcast_follower_def split: option.split)

lemma broadcast_one_run:
  assumes "u \<noteq> my_uri E"
  shows "\<exists>t x. broadcast_one E b tm pix ptm ci r u s = (Inr (), t) \<and> sending_frame s t \<and>
     outbox t = outbox s @ [x] \<and> append_sent (my_uri E) tm pix ptm [r] ci u x"
proof -
  obtain p tr where "tracker_for_follower E u s = (Inr tr, s\<lparr>ops := p\<rparr>)"
      "current_config p = current_config (ops s)" "leader_uri p = leader_uri (ops s)"
    using tracker_run by blast
  with assms show ?thesis
    by (auto simp: broadcast_one_def mk_log_hdr_def run leader_mod_def send_message_def create_task_def
        sending_frame_def append_sent_def Let_def)
qed

lemma broadcast_all_run:
  "\<exists>t xs. forE us (broadcast_one E b tm pix ptm ci r) s = (Inr (), t) \<and> sending_frame s t \<and>
     outbox t = outbox s @ xs \<and>
     list_all2 (append_sent (my_uri E) tm pix ptm [r] ci) (filter (\<lambda>u. u \<noteq> my_uri E) us) xs"
proof (induction us arbitrary: s)
  case Nil
  then show ?case by (auto simp: run sending_frame_refl)
next
  case (Cons u us)
  show ?case
  proof (cases "u = my_uri E")
    case True
    with Cons show ?thesis by (simp add: broadcast_one_def run)
  next
    case False
    obtain t x where t: "broadcast_one E b tm pix ptm ci r u s = (Inr (), t)" "sending_frame s t"
        "outbox t = outbox s @ [x]" "append_sent (my_uri E) tm pix ptm [r] ci u x"
      using broadcast_one_run [OF False] by blast
    obtain t' xs where "forE us (broadcast_one E b tm pix ptm ci r) t = (Inr (), t')" "sending_frame t t'"
        "outbox t' = outbox t @ xs"
        "list_all2 (append_sent (my_uri E) tm pix ptm [r] ci) (filter (\<lambda>u. u \<noteq> my_uri E) us) xs"
      using Cons [of t] by blast
    with t False show ?thesis
      by (intro exI [of _ t'] exI [of _ "x # xs"]) (auto simp: run intro: sending_frame_trans)
  qed
qed

text \<open>The tracker a broadcast opens, with the leader's own vote.\<close>

definition opened_votes :: "uri \<Rightarrow> LogRec \<Rightarrow> uri list \<Rightarrow> LogVoteTracker" where
  "opened_votes me r us = \<lparr>lvt_log_rec = r, voters = us, lvt_votes = [(me, True)]\<rparr>"

text \<open>A broadcast leaves everything alone but the outbox, the trackers and the position of reads.\<close>

definition broadcast_frame :: "('l, 'a) node \<Rightarrow> ('l, 'a) node \<Rightarrow> bool" where
  "broadcast_frame s t \<longleftrightarrow> n_app t = n_app s \<and> now t = now s \<and> role t = role s \<and> deck t = deck s \<and>
     timers t = timers s \<and> current_config (ops t) = current_config (ops s) \<and> leader_uri (ops t) = leader_uri (ops s) \<and>
     accepting_commands (leader t) = accepting_commands (leader s) \<and>
     active_commands (leader t) = active_commands (leader s) \<and> command_recs (leader t) = command_recs (leader s) \<and>
     exit_in_progress (leader t) = exit_in_progress (leader s) \<and> l_stopped (leader t) = l_stopped (leader s)"

context log_client
begin

lemma broadcast_run:
  assumes "ok s" and "snap_base (v_snap (lv s)) < rec_index r" and "rec_index r \<le> v_last (lv s) + 1"
    and "current_config (ops s) = Some c"
  shows "\<exists>t xs. broadcast_log_record E r s = (Inr (), t) \<and> ok t \<and> lv t = lv s \<and> broadcast_frame s t \<and>
     log_vote_trackers (leader t) =
       dict_set (rec_index r) (opened_votes (my_uri E) r (dict_keys (nodes c))) (log_vote_trackers (leader s)) \<and>
     outbox t = outbox s @ xs \<and>
     list_all2 (append_sent (my_uri E) (v_term (lv s)) (rec_index r - 1) (term_at (lv s) (rec_index r - 1)) [r]
         (v_commit (lv s))) (filter (\<lambda>u. u \<noteq> my_uri E) (dict_keys (nodes c))) xs"
proof -
  let ?us = "dict_keys (nodes c)" and ?pix = "rec_index r - 1" and ?ptm = "term_at (lv s) (rec_index r - 1)"
  obtain l where l: "get_prev_record_id E (rec_index r) s = (Inr (Some ?pix, Some ?ptm), s\<lparr>n_log := l\<rparr>)"
      "inv l" "view api ents l = lv s"
    using prev_id_run [OF assms(1-3)] by blast
  let ?b = "broadcast_id (leader s)"
  define s1 where "s1 = (use_serial (s\<lparr>n_log := l\<rparr>))\<lparr>leader := (leader s)\<lparr>
      broadcast_trackers := dict_set ?b \<lparr>bt_followers = [], sent_time = now s, bt_reply_count = 0\<rparr>
        (broadcast_trackers (leader s)), broadcast_id := ?b + 1,
      log_vote_trackers := dict_set (rec_index r) (opened_votes (my_uri E) r ?us) (log_vote_trackers (leader s))\<rparr>\<rparr>"
  obtain ts where ts: "whenE (code r = term_start) (record_op_detail broadcasting_term_start) s1 = (Inr (), s1\<lparr>tasks := ts\<rparr>)"
    by (cases "code r = term_start") (auto simp: run intro: that [of "tasks s1"] split del: if_split)
  obtain t xs where t: "forE ?us (broadcast_one E ?b (v_term (lv s)) ?pix ?ptm (v_commit (lv s)) r) (s1\<lparr>tasks := ts\<rparr>) = (Inr (), t)"
      "sending_frame (s1\<lparr>tasks := ts\<rparr>) t" "outbox t = outbox s @ xs"
      "list_all2 (append_sent (my_uri E) (v_term (lv s)) ?pix ?ptm [r] (v_commit (lv s))) (filter (\<lambda>u. u \<noteq> my_uri E) ?us) xs"
    using broadcast_all_run [of ?us E ?b "v_term (lv s)" ?pix ?ptm "v_commit (lv s)" r "s1\<lparr>tasks := ts\<rparr>"]
    by (auto simp: s1_def)
  have "broadcast_log_record E r s =
      seqE (whenE (code r = term_start) (record_op_detail broadcasting_term_start))
        (forE ?us (broadcast_one E ?b (v_term (lv s)) ?pix ?ptm (v_commit (lv s)) r)) s1"
    using l(1) assms(4)
    by (simp add: broadcast_log_record_def run_bindE l(1) new_broadcast_def get_cluster_node_ids_def run_seqE
        new_serial_run log_get_run run_getsE run_ret leader_mod_def run_modE log_E viewD [OF l(3)] s1_def opened_votes_def
        case_prod_beta)
  then have "broadcast_log_record E r s = (Inr (), t)" using ts t(1) by (simp add: run_seqE)
  moreover have "n_log t = l" "broadcast_frame s t" "log_vote_trackers (leader t) =
      dict_set (rec_index r) (opened_votes (my_uri E) r ?us) (log_vote_trackers (leader s))"
    using t(2) by (auto simp: sending_frame_def broadcast_frame_def s1_def)
  ultimately show ?thesis using l t(3,4) by auto
qed

end

section \<open>Client commands\<close>

text \<open>The record of a command at the end of the log.\<close>

definition command_record :: "('l, 'a) env \<Rightarrow> log_view \<Rightarrow> pystr option \<Rightarrow> int \<Rightarrow> LogRec" where
  "command_record E v cmd sn = (new_LogRec client_command (v_term v) cmd)\<lparr>rec_index := v_last v + 1,
     leader_id := Some (my_uri E), serial := Some sn\<rparr>"

definition waiting_command :: "int \<Rightarrow> LogRec \<Rightarrow> command_rec" where
  "waiting_command sn r = \<lparr>cmd_serial = sn, cmd_log_rec = r, cmd_result = None, cmd_error = None, cmd_done = False\<rparr>"

lemma new_LogRec_simps [simp]:
  "rec_index (new_LogRec k t c) = 0" "rec_term (new_LogRec k t c) = t" "command (new_LogRec k t c) = c"
  "code (new_LogRec k t c) = k"
  by (simp_all add: new_LogRec_def)

context log_client
begin

lemma append_new:
  assumes "ok s" and "rec_index r = 0" and "r' = r\<lparr>rec_index := v_last (lv s) + 1\<rparr>"
  shows "\<exists>l. log_do (log_append (log E) r) s = (Inr r', s\<lparr>n_log := l\<rparr>) \<and> inv l \<and> view api ents l = insert_view r' (lv s)"
  using do_append [OF assms(1), of r] assms(2,3) last_nonneg [OF assms(1)]
  by (auto simp: place_def can_insert_def)

lemma insert_view_prev:
  assumes "ok s" and "rec_index r = v_last (lv s) + 1"
  shows "term_at (insert_view r (lv s)) (v_last (lv s)) = term_at (lv s) (v_last (lv s))"
    "snap_base (v_snap (insert_view r (lv s))) < rec_index r" "rec_index r \<le> v_last (insert_view r (lv s)) + 1"
    "v_term (insert_view r (lv s)) = v_term (lv s)" "v_commit (insert_view r (lv s)) = v_commit (lv s)"
  using assms last_nonneg [OF assms(1)] by (simp_all add: term_at_def insert_view_def)

lemma command_taken:
  assumes "ok s" and "accepting_commands (leader s)" and "role s = RoleLeader" and "current_config (ops s) = Some c"
  shows "\<exists>t sn xs. leader_run_command E cmd s = (Inr (Inr (v_last (lv s) + 1)), t) \<and> ok t \<and>
     lv t = insert_view (command_record E (lv s) cmd sn) (lv s) \<and> role t = RoleLeader \<and>
     v_last (lv s) + 1 \<in> set (active_commands (leader t)) \<and>
     dict_get (command_recs (leader t)) (v_last (lv s) + 1) = Some (waiting_command sn (command_record E (lv s) cmd sn)) \<and>
     dict_get (log_vote_trackers (leader t)) (v_last (lv s) + 1) =
       Some (opened_votes (my_uri E) (command_record E (lv s) cmd sn) (dict_keys (nodes c))) \<and>
     outbox t = outbox s @ xs \<and>
     list_all2 (append_sent (my_uri E) (v_term (lv s)) (v_last (lv s)) (term_at (lv s) (v_last (lv s)))
         [command_record E (lv s) cmd sn] (v_commit (lv s))) (filter (\<lambda>u. u \<noteq> my_uri E) (dict_keys (nodes c))) xs"
proof -
  let ?n = "v_last (lv s) + 1" and ?sn = "next_serial s"
  let ?r = "command_record E (lv s) cmd ?sn"
  have r: "rec_index ?r = ?n" by (simp add: command_record_def)
  obtain l where l: "log_do (log_append (log E) ((new_LogRec client_command (v_term (lv s)) cmd)\<lparr>leader_id := Some (my_uri E),
      serial := Some ?sn\<rparr>)) (use_serial s) = (Inr ?r, (use_serial s)\<lparr>n_log := l\<rparr>)" "inv l"
      "view api ents l = insert_view ?r (lv s)"
    using append_new [of "use_serial s" "(new_LogRec client_command (v_term (lv s)) cmd)\<lparr>leader_id := Some (my_uri E),
      serial := Some ?sn\<rparr>" ?r] assms(1) by (auto simp: command_record_def)
  define s1 where "s1 = (use_serial s)\<lparr>n_log := l, leader := (leader s)\<lparr>
      active_commands := filter (\<lambda>i. i \<noteq> ?n) (active_commands (leader s)) @ [?n],
      command_recs := dict_set ?n (waiting_command ?sn ?r) (command_recs (leader s))\<rparr>\<rparr>"
  have s1: "n_log s1 = l" "ok s1" "current_config (ops s1) = Some c" "role s1 = RoleLeader" "outbox s1 = outbox s"
    using l(2) assms(3,4) by (simp_all add: s1_def)
  note v = insert_view_prev [OF assms(1) r]
  obtain t xs where t: "broadcast_log_record E ?r s1 = (Inr (), t)" "ok t" "lv t = insert_view ?r (lv s)"
      "broadcast_frame s1 t" "log_vote_trackers (leader t) =
        dict_set ?n (opened_votes (my_uri E) ?r (dict_keys (nodes c))) (log_vote_trackers (leader s1))"
      "outbox t = outbox s @ xs"
      "list_all2 (append_sent (my_uri E) (v_term (lv s)) (v_last (lv s)) (term_at (lv s) (v_last (lv s))) [?r]
         (v_commit (lv s))) (filter (\<lambda>u. u \<noteq> my_uri E) (dict_keys (nodes c))) xs"
    using broadcast_run [of s1 ?r c] s1 v r l(3) by (auto simp: r simp del: view_simps)
  have "leader_run_command E cmd s = (Inr (Inr ?n), t)"
    using assms(2,3) l(1) t(1,4) r s1(4)
    by (simp add: leader_run_command_def run leader_mod_def s1_def waiting_command_def log_E broadcast_frame_def)
  with t s1(4) show ?thesis
    by (intro exI [of _ t] exI [of _ ?sn] exI [of _ xs]) (auto simp: broadcast_frame_def s1_def)
qed

end

text \<open>C9. An accepting leader puts a client's command at the end of its log, in its current term and under its
  own uri, opens the vote on it with its own, registers it as pending, and hands the pilot one append message for
  every other member, with the record before it as the previous one; the caller waits for that index.\<close>

theorem command_accepted:
  assumes "log_client api I ents E" and "I (n_log s)" and "v = view api ents (n_log s)"
    and "accepting_commands (leader s)" and "role s = RoleLeader" and "current_config (ops s) = Some c"
  shows "\<exists>t sn xs. leader_run_command E cmd s = (Inr (Inr (v_last v + 1)), t) \<and> I (n_log t) \<and>
     view api ents (n_log t) = insert_view (command_record E v cmd sn) v \<and> role t = RoleLeader \<and>
     v_last v + 1 \<in> set (active_commands (leader t)) \<and>
     dict_get (command_recs (leader t)) (v_last v + 1) = Some (waiting_command sn (command_record E v cmd sn)) \<and>
     dict_get (log_vote_trackers (leader t)) (v_last v + 1) =
       Some (opened_votes (my_uri E) (command_record E v cmd sn) (dict_keys (nodes c))) \<and>
     outbox t = outbox s @ xs \<and>
     list_all2 (append_sent (my_uri E) (v_term v) (v_last v) (term_at v (v_last v))
         [command_record E v cmd sn] (v_commit v)) (filter (\<lambda>u. u \<noteq> my_uri E) (dict_keys (nodes c))) xs"
  using log_client.command_taken [OF assms(1,2,4-6)] unfolding assms(3) .

text \<open>The example node as a leader.\<close>

definition example_leader :: "(MemoryLog, unit) node" where
  "example_leader = (example_node example_log)\<lparr>role := RoleLeader, leader := new_Leader False,
     ops := new_ClusterOps\<lparr>current_config := Some example_config\<rparr>\<rparr>"

lemma example_leader_simps [simp]:
  "n_log example_leader = example_log" "role example_leader = RoleLeader" "leader example_leader = new_Leader False"
  "current_config (ops example_leader) = Some example_config" "outbox example_leader = []"
  by (simp_all add: example_leader_def example_node_def new_node_def)

theorem command_accepted_witness:
  "\<exists>t. leader_run_command (example_env memory_api ''n1'') (Some (Str ''add 2'')) example_leader = (Inr (Inr 3), t) \<and>
     v_last (mem_view (n_log t)) = 3 \<and> length (outbox t) = 2"
proof -
  have me: "local_uri (local_config (example_env memory_api ''n1'')) = ''n1''" by (simp add: example_env_def)
  have "\<exists>t sn xs. leader_run_command (example_env memory_api ''n1'') (Some (Str ''add 2'')) example_leader =
        (Inr (Inr 3), t) \<and>
      mem_view (n_log t) = insert_view (command_record (example_env memory_api ''n1'') (mem_view example_log)
        (Some (Str ''add 2'')) sn) (mem_view example_log) \<and> outbox t = xs \<and>
      list_all2 (append_sent ''n1'' 0 2 (term_at (mem_view example_log) 2) [command_record (example_env memory_api ''n1'')
        (mem_view example_log) (Some (Str ''add 2'')) sn] 0) [''n2'', ''n3''] xs"
    using command_accepted [OF example_client, of example_leader "mem_view example_log" example_config "''n1''" "Some (Str ''add 2'')"]
      example_log_inv example_view_simps
    by (fastforce simp: new_Leader_def example_nodes me simp del: view_simps)
  then obtain t sn xs where t: "leader_run_command (example_env memory_api ''n1'') (Some (Str ''add 2'')) example_leader =
        (Inr (Inr 3), t)"
      "mem_view (n_log t) = insert_view (command_record (example_env memory_api ''n1'') (mem_view example_log)
        (Some (Str ''add 2'')) sn) (mem_view example_log)" "outbox t = xs" "length xs = 2"
    by (auto dest: list_all2_lengthD)
  from arg_cong [OF t(2), of v_last] have "v_last (mem_view (n_log t)) = 3"
    using example_view_simps(1) by (simp add: insert_view_def command_record_def del: view_simps)
  with t show ?thesis by blast
qed

section \<open>Committing, applying and answering\<close>

text \<open>An application that raises no exception; it may still answer a command with an error.\<close>

definition app_returns :: "('l, 'a) env \<Rightarrow> bool" where
  "app_returns E \<longleftrightarrow> (\<forall>c n a. \<exists>p. fst (process_command E c n a) = Inr p)"

text \<open>The answer to a pending command, and one record served: applied and answered.\<close>

definition answer :: "('l, 'a) env \<Rightarrow> LogRec \<Rightarrow> 'a \<Rightarrow> Leader \<Rightarrow> Leader" where
  "answer E e a L =
     (if code e = client_command \<and> rec_index e \<in> set (active_commands L)
      then (case dict_get (command_recs L) (rec_index e) of None \<Rightarrow> L
        | Some c \<Rightarrow> if cmd_done c then L
            else (case fst (process_command E (command e) (serial e) a) of Inl _ \<Rightarrow> L
              | Inr (res, err) \<Rightarrow> L\<lparr>command_recs := dict_set (rec_index e)
                  (c\<lparr>cmd_result := res, cmd_error := err, cmd_done := True\<rparr>) (command_recs L)\<rparr>))
      else L)"

definition serve :: "('l, 'a) env \<Rightarrow> LogRec \<Rightarrow> 'a \<times> Leader \<Rightarrow> 'a \<times> Leader" where
  "serve E e p = (apply_rec E e (fst p), answer E e (fst p) (snd p))"

text \<open>The applied index after serving records: a term start does not count.\<close>

definition applied_by :: "LogRec list \<Rightarrow> int \<Rightarrow> int" where
  "applied_by es ap = fold (\<lambda>e ap. if code e = client_command then max (rec_index e) ap else ap) es ap"

lemma answer_frame [simp]: "active_commands (answer E e a L) = active_commands L"
  by (simp add: answer_def split: option.split sum.split prod.split)

lemma answer_other: "i \<noteq> rec_index e \<Longrightarrow> dict_get (command_recs (answer E e a L)) i = dict_get (command_recs L) i"
  by (simp add: answer_def split: option.split sum.split prod.split)

lemma answer_hit:
  assumes "code e = client_command" and "rec_index e \<in> set (active_commands L)"
    and "dict_get (command_recs L) (rec_index e) = Some c" and "\<not> cmd_done c"
    and "fst (process_command E (command e) (serial e) a) = Inr (res, err)"
  shows "dict_get (command_recs (answer E e a L)) (rec_index e) =
     Some (c\<lparr>cmd_result := res, cmd_error := err, cmd_done := True\<rparr>)"
  using assms by (simp add: answer_def)

lemma serve_Cons: "fold (serve E) (e # es) (a, L) = fold (serve E) es (apply_rec E e a, answer E e a L)"
  by (simp add: serve_def)

lemma serve_app: "fst (fold (serve E) es (a, L)) = fold (apply_rec E) es a"
  by (induction es arbitrary: a L) (simp_all add: serve_def)

lemma serve_other:
  "i \<notin> rec_index ` set es \<Longrightarrow> dict_get (command_recs (snd (fold (serve E) es (a, L)))) i = dict_get (command_recs L) i"
  by (induction es arbitrary: a L) (simp_all add: serve_def answer_other)

text \<open>Every pending command among the served records is answered with what the application said at its turn.\<close>

lemma serve_answers:
  assumes "distinct (map rec_index es)" and "k < length es" and "code (es ! k) = client_command"
    and "rec_index (es ! k) \<in> set (active_commands L)"
    and "dict_get (command_recs L) (rec_index (es ! k)) = Some c" and "\<not> cmd_done c"
    and "fst (process_command E (command (es ! k)) (serial (es ! k)) (fold (apply_rec E) (take k es) a)) = Inr (res, err)"
  shows "dict_get (command_recs (snd (fold (serve E) es (a, L)))) (rec_index (es ! k)) =
     Some (c\<lparr>cmd_result := res, cmd_error := err, cmd_done := True\<rparr>)"
  using assms
proof (induction es arbitrary: a L k)
  case (Cons e es)
  show ?case
  proof (cases k)
    case 0
    with Cons.prems show ?thesis unfolding serve_Cons by (simp add: serve_other answer_hit)
  next
    case (Suc j)
    then have "rec_index (es ! j) \<noteq> rec_index e" using Cons.prems(1,2) by (metis distinct.simps(2) imageI length_Cons
        list.set_map list.simps(9) not_less_eq nth_mem)
    with Suc Cons.prems Cons.IH [of j "answer E e a L" "apply_rec E e a"] show ?thesis
      unfolding serve_Cons by (simp add: answer_other)
  qed
qed simp

lemma run_locally:
  assumes "app_returns E" and "code r = client_command"
  shows "run_command_locally E r s = (case log_do (mark_applied (log E) (rec_index r)) (s\<lparr>n_app := apply_rec E r (n_app s)\<rparr>) of
     (Inl e, t) \<Rightarrow> (Inl e, t) | (Inr _, t) \<Rightarrow> (Inr (), t\<lparr>leader := answer E r (n_app s) (leader t)\<rparr>))"
proof -
  obtain res err where "process_command E (command r) (serial r) (n_app s) = (Inr (res, err), apply_rec E r (n_app s))"
    using assms by (metis app_returns_def apply_rec_def prod.collapse)
  with assms(2) show ?thesis
    by (auto simp: run_command_locally_def run app_do_def report_command_result_def leader_mod_def answer_def
        split: prod.split sum.split option.split)
qed

context log_client
begin

lemma apply_ready_one:
  assumes "ok s" and "app_returns E" and "1 \<le> i" and "ents (n_log s) i = Some e" and "rec_index e = i"
    and "code e \<noteq> cluster_config" and "i = rec_index r \<Longrightarrow> content r = e"
  shows "\<exists>l. apply_ready E r i s = (Inr (), s\<lparr>n_app := fst (serve E e (n_app s, leader s)), n_log := l,
        leader := snd (serve E e (n_app s, leader s))\<rparr>) \<and> inv l \<and>
     view api ents l = (lv s)\<lparr>v_applied := applied_by [e] (v_applied (lv s))\<rparr>"
proof -
  have "\<exists>l x. (if i = rec_index r then ret r else read_rec E i) s = (Inr x, s\<lparr>n_log := l\<rparr>) \<and> inv l \<and>
      view api ents l = lv s \<and> content x = e"
    using read_rec_some [OF assms(1,3,4)] assms(1,7) by (auto simp: run intro!: exI [of _ "n_log s"])
  then obtain l x where rd: "(if i = rec_index r then ret r else read_rec E i) s = (Inr x, s\<lparr>n_log := l\<rparr>)" "inv l"
      "view api ents l = lv s" "content x = e" by blast
  from rd(4) have x: "code x = code e" "command x = command e" "serial x = serial e" "rec_index x = i"
    using assms(5) by (auto simp: content_def)
  show ?thesis
  proof (cases "code e = client_command")
    case True
    have eq: "apply_rec E x a = apply_rec E e a" "answer E x a L = answer E e a L" for a L
      unfolding apply_rec_def answer_def x assms(5) by (rule refl)+
    let ?s = "s\<lparr>n_app := apply_rec E e (n_app s), n_log := l\<rparr>"
    obtain l' where l': "log_do (mark_applied (log E) i) ?s = (Inr (), ?s\<lparr>n_log := l'\<rparr>)" "inv l'"
        "view api ents l' = (lv s)\<lparr>v_applied := max i (v_applied (lv s))\<rparr>"
      using do_applied [of ?s i] rd(2,3) by auto
    have "apply_ready E r i s = run_command_locally E x (s\<lparr>n_log := l\<rparr>)"
      using rd(1) True x(1) by (simp add: apply_ready_def run_bindE)
    then have "apply_ready E r i s = (Inr (), ?s\<lparr>n_log := l', leader := answer E e (n_app s) (leader s)\<rparr>)"
      using run_locally [OF assms(2), of x "s\<lparr>n_log := l\<rparr>"] True x l'(1) eq by (simp add: app_log_swap)
    with l' True assms(5) show ?thesis by (auto simp: serve_def applied_by_def)
  next
    case False
    then have "code e = term_start" using assms(6) by (cases "code e") auto
    with rd x show ?thesis
      by (auto simp: apply_ready_def run_bindE run_ret serve_def applied_by_def apply_rec_def answer_def intro!: exI [of _ l])
  qed
qed

lemma apply_ready_up:
  assumes "a \<le> b + 1" and "ok s" and "app_returns E" and "1 \<le> a" and "rec_index r = b"
    and "\<forall>i \<in> {a..b}. \<exists>e. ents (n_log s) i = Some e \<and> rec_index e = i \<and> code e \<noteq> cluster_config"
    and "ents (n_log s) b = Some (content r) \<or> b < a"
  shows "\<exists>l. forE (py_range a (b + 1)) (apply_ready E r) s = (Inr (), s\<lparr>
        n_app := fst (fold (serve E) (map (\<lambda>i. the (ents (n_log s) i)) [a..b]) (n_app s, leader s)), n_log := l,
        leader := snd (fold (serve E) (map (\<lambda>i. the (ents (n_log s) i)) [a..b]) (n_app s, leader s))\<rparr>) \<and> inv l \<and>
     view api ents l = (lv s)\<lparr>v_applied := applied_by (map (\<lambda>i. the (ents (n_log s) i)) [a..b]) (v_applied (lv s))\<rparr>"
  using assms
proof (induction a arbitrary: s rule: int_le_induct)
  case base
  then show ?case by (auto simp: py_range_def run applied_by_def intro!: exI [of _ "n_log s"])
next
  case (step a)
  have rng: "py_range (a - 1) (b + 1) = (a - 1) # py_range a (b + 1)" "[a - 1..b] = (a - 1) # [a..b]"
    using step.hyps by (simp_all add: py_range_def upto_rec1)
  obtain e where e: "ents (n_log s) (a - 1) = Some e" "rec_index e = a - 1" "code e \<noteq> cluster_config"
    using step.prems(5) step.hyps by force
  let ?p = "serve E e (n_app s, leader s)"
  have same: "a - 1 = rec_index r \<Longrightarrow> content r = e" using step.prems(4,6) e(1) by auto
  obtain l where l: "apply_ready E r (a - 1) s = (Inr (), s\<lparr>n_app := fst ?p, n_log := l, leader := snd ?p\<rparr>)" "inv l"
      "view api ents l = (lv s)\<lparr>v_applied := applied_by [e] (v_applied (lv s))\<rparr>"
    using apply_ready_one [OF step.prems(1,2) _ e same] step.prems(3) by blast
  let ?s = "s\<lparr>n_app := fst ?p, n_log := l, leader := snd ?p\<rparr>"
  let ?es = "map (\<lambda>i. the (ents (n_log s) i)) [a..b]"
  have en: "ents l = ents (n_log s)" using arg_cong [OF l(3), of v_ents] by simp
  obtain l' where "forE (py_range a (b + 1)) (apply_ready E r) ?s =
       (Inr (), s\<lparr>n_app := fst (fold (serve E) ?es ?p), n_log := l', leader := snd (fold (serve E) ?es ?p)\<rparr>)" "inv l'"
      "view api ents l' = (view api ents l)\<lparr>v_applied := applied_by ?es (v_applied (view api ents l))\<rparr>"
    using step.IH [of ?s] l(2) step.prems(2-6) en by auto
  with l e(1) show ?case unfolding rng
    by (auto simp: run l(3) applied_by_def simp del: view_simps)
qed

lemma ready_run:
  assumes "ok s" and "app_returns E" and "snap_base (v_snap (lv s)) \<le> v_applied (lv s)"
    and "ents (n_log s) (rec_index r) = Some (content r)"
    and "\<forall>i r. ents (n_log s) i = Some r \<longrightarrow> code r \<noteq> cluster_config"
  defines "es \<equiv> map (\<lambda>i. the (ents (n_log s) i)) [v_applied (lv s) + 1..rec_index r]"
  shows "\<exists>l. process_ready_log_record E r s = (Inr (), s\<lparr>n_app := fst (fold (serve E) es (n_app s, leader s)), n_log := l,
        leader := snd (fold (serve E) es (n_app s, leader s))\<rparr>) \<and> inv l \<and>
     view api ents l = (lv s)\<lparr>v_commit := max (rec_index r) (v_commit (lv s)), v_applied := applied_by es (v_applied (lv s))\<rparr>"
proof -
  let ?n = "rec_index r" and ?ap = "v_applied (lv s)"
  have "\<exists>l. whenE (?n > v_commit (lv s)) (log_do (mark_committed (log E) ?n)) s = (Inr (), s\<lparr>n_log := l\<rparr>) \<and> inv l \<and>
      view api ents l = (lv s)\<lparr>v_commit := max ?n (v_commit (lv s))\<rparr>"
  proof (cases "?n > v_commit (lv s)")
    case False
    then have "lv s = (lv s)\<lparr>v_commit := max ?n (v_commit (lv s))\<rparr>" by (intro commit_same [symmetric]) (auto simp: max_def)
    with False assms(1) show ?thesis by (intro exI [of _ "n_log s"]) (simp add: run)
  next
    case True
    with do_committed [OF assms(1), of ?n] show ?thesis by auto
  qed
  then obtain l where l: "whenE (?n > v_commit (lv s)) (log_do (mark_committed (log E) ?n)) s = (Inr (), s\<lparr>n_log := l\<rparr>)"
      "inv l" "view api ents l = (lv s)\<lparr>v_commit := max ?n (v_commit (lv s))\<rparr>" by blast
  have en: "ents l = ents (n_log s)" using arg_cong [OF l(3), of v_ents] by simp
  have eq: "process_ready_log_record E r s =
      whenE (?n > ?ap) (forE (py_range (?ap + 1) (?n + 1)) (apply_ready E r)) (s\<lparr>n_log := l\<rparr>)"
    using l(1) by (simp add: process_ready_log_record_def run_bindE run_seqE log_get_run log_E viewD [OF l(3)])
  show ?thesis
  proof (cases "?n > ?ap")
    case True
    have there: "\<forall>i \<in> {?ap + 1..?n}. \<exists>e. ents (n_log (s\<lparr>n_log := l\<rparr>)) i = Some e \<and> rec_index e = i \<and> code e \<noteq> cluster_config"
    proof
      fix i
      assume "i \<in> {?ap + 1..?n}"
      moreover have "?n \<le> v_last (lv s)" using ents_none [OF assms(1), of ?n] assms(4) by auto
      ultimately have "snap_base (v_snap (lv s)) < i" "i \<le> v_last (lv s)" using assms(3) by auto
      then show "\<exists>e. ents (n_log (s\<lparr>n_log := l\<rparr>)) i = Some e \<and> rec_index e = i \<and> code e \<noteq> cluster_config"
        using ents_some [OF assms(1)] assms(5) en by fastforce
    qed
    have "1 \<le> ?ap + 1" using last_nonneg [OF assms(1)] assms(3) by simp
    with apply_ready_up [of "?ap + 1" ?n "s\<lparr>n_log := l\<rparr>" r] True l(2) assms(2,4) there en show ?thesis
      unfolding eq es_def by (auto simp: l(3) simp del: view_simps)
  next
    case False
    then have "es = []" by (simp add: es_def)
    with False l show ?thesis unfolding eq by (auto simp: run applied_by_def)
  qed
qed

end

text \<open>C2. When a record has its votes, the leader commits up to it and serves every record after its applied index in
  order: each client command runs once on the application, and a caller that waits for one of them gets what the
  application answered at that point. The applied index is that of the last command served.\<close>

theorem leader_commits_and_answers:
  assumes "log_client api I ents E" and "I (n_log s)" and "v = view api ents (n_log s)" and "app_returns E"
    and "snap_base (v_snap v) \<le> v_applied v" and "v_ents v (rec_index r) = Some (content r)"
    and "\<forall>i e. v_ents v i = Some e \<longrightarrow> code e \<noteq> cluster_config"
    and "es = map (\<lambda>i. the (v_ents v i)) [v_applied v + 1..rec_index r]"
  shows "\<exists>t. process_ready_log_record E r s = (Inr (), t) \<and> I (n_log t) \<and> n_app t = fold (apply_rec E) es (n_app s) \<and>
     view api ents (n_log t) = v\<lparr>v_commit := max (rec_index r) (v_commit v), v_applied := applied_by es (v_applied v)\<rparr> \<and>
     (\<forall>k c. k < length es \<and> code (es ! k) = client_command \<and> rec_index (es ! k) \<in> set (active_commands (leader s)) \<and>
        dict_get (command_recs (leader s)) (rec_index (es ! k)) = Some c \<and> \<not> cmd_done c \<longrightarrow>
      (\<exists>res err. fst (process_command E (command (es ! k)) (serial (es ! k)) (fold (apply_rec E) (take k es) (n_app s))) =
           Inr (res, err) \<and>
         dict_get (command_recs (leader t)) (rec_index (es ! k)) =
           Some (c\<lparr>cmd_result := res, cmd_error := err, cmd_done := True\<rparr>)))"
proof -
  have es: "es = map (\<lambda>i. the (ents (n_log s) i)) [v_applied v + 1..rec_index r]" using assms(3,8) by simp
  obtain l where l: "process_ready_log_record E r s = (Inr (), s\<lparr>n_app := fst (fold (serve E) es (n_app s, leader s)), n_log := l,
        leader := snd (fold (serve E) es (n_app s, leader s))\<rparr>)" "I l"
     "view api ents l = v\<lparr>v_commit := max (rec_index r) (v_commit v), v_applied := applied_by es (v_applied v)\<rparr>"
    using log_client.ready_run [OF assms(1,2,4), of r] assms(3,5-7) es by auto
  have "map rec_index es = [v_applied v + 1..rec_index r]"
  proof -
    have "rec_index (the (ents (n_log s) i)) = i" if "i \<in> set [v_applied v + 1..rec_index r]" for i
    proof -
      have "rec_index r \<le> v_last v" using log_client.ents_none [OF assms(1,2), of "rec_index r"] assms(3,6) by auto
      then show ?thesis using log_client.ents_some [OF assms(1,2), of i] that assms(3,5) by auto
    qed
    then show ?thesis unfolding es map_map by (intro map_idI) simp
  qed
  then have d: "distinct (map rec_index es)" by simp
  define t where "t = s\<lparr>n_app := fst (fold (serve E) es (n_app s, leader s)), n_log := l,
        leader := snd (fold (serve E) es (n_app s, leader s))\<rparr>"
  have "\<exists>res err. fst (process_command E (command (es ! k)) (serial (es ! k)) (fold (apply_rec E) (take k es) (n_app s))) =
           Inr (res, err) \<and>
         dict_get (command_recs (leader t)) (rec_index (es ! k)) =
           Some (c\<lparr>cmd_result := res, cmd_error := err, cmd_done := True\<rparr>)"
    if "k < length es \<and> code (es ! k) = client_command \<and> rec_index (es ! k) \<in> set (active_commands (leader s)) \<and>
        dict_get (command_recs (leader s)) (rec_index (es ! k)) = Some c \<and> \<not> cmd_done c" for k c
  proof -
    obtain res err where "fst (process_command E (command (es ! k)) (serial (es ! k)) (fold (apply_rec E) (take k es) (n_app s))) =
           Inr (res, err)"
      using assms(4) unfolding app_returns_def by (metis surj_pair)
    with serve_answers [OF d, of k "leader s" c E "n_app s"] that show ?thesis by (simp add: t_def)
  qed
  moreover have "n_app t = fold (apply_rec E) es (n_app s)" "n_log t = l" by (simp_all add: t_def serve_app)
  ultimately show ?thesis using l unfolding t_def [symmetric] by blast
qed

text \<open>The example leader with a caller waiting for the second record.\<close>

definition example_waiting :: "(MemoryLog, unit) node" where
  "example_waiting = example_leader\<lparr>leader := (new_Leader False)\<lparr>active_commands := [2],
     command_recs := [(2, waiting_command 7 (example_rec 2 1))]\<rparr>\<rparr>"

theorem leader_commits_and_answers_witness:
  "\<exists>t c. process_ready_log_record (example_env memory_api ''n1'') (example_rec 2 1) example_waiting = (Inr (), t) \<and>
     v_commit (mem_view (n_log t)) = 2 \<and> v_applied (mem_view (n_log t)) = 2 \<and>
     dict_get (command_recs (leader t)) 2 = Some c \<and> cmd_done c \<and> cmd_result c = Some (Str ''add 1'')"
proof -
  let ?E = "example_env memory_api ''n1''" and ?v = "mem_view example_log"
  let ?es = "[example_rec 1 1, example_rec 2 1]"
  have app: "process_command ?E c n a = (Inr (c, None), a)" for c n a by (simp add: example_env_def run)
  have n: "n_log example_waiting = example_log" by (simp add: example_waiting_def)
  have e: "v_ents ?v = [1 \<mapsto> example_rec 1 1, 2 \<mapsto> example_rec 2 1]" by (rule example_view_simps(8))
  have es: "?es = map (\<lambda>i. the (v_ents ?v i)) [v_applied ?v + 1..rec_index (example_rec 2 1)]"
    unfolding e example_view_simps by (simp add: upto_rec1)
  have k: "(1::nat) < length ?es \<and> code (?es ! 1) = client_command \<and>
      rec_index (?es ! 1) \<in> set (active_commands (leader example_waiting)) \<and>
      dict_get (command_recs (leader example_waiting)) (rec_index (?es ! 1)) = Some (waiting_command 7 (example_rec 2 1)) \<and>
      \<not> cmd_done (waiting_command 7 (example_rec 2 1))"
    by (simp add: example_waiting_def waiting_command_def)
  have inv: "mem_inv (n_log example_waiting)" "?v = mem_view (n_log example_waiting)" using example_log_inv n by simp_all
  have "app_returns ?E" by (simp add: app_returns_def app)
  moreover have "snap_base (v_snap ?v) \<le> v_applied ?v" "v_ents ?v (rec_index (example_rec 2 1)) = Some (content (example_rec 2 1))"
      "\<forall>i r. v_ents ?v i = Some r \<longrightarrow> code r \<noteq> cluster_config"
    unfolding e example_view_simps by (auto split: if_splits)
  ultimately obtain t where t: "process_ready_log_record ?E (example_rec 2 1) example_waiting = (Inr (), t)"
      "mem_view (n_log t) = ?v\<lparr>v_commit := max (rec_index (example_rec 2 1)) (v_commit ?v), v_applied := applied_by ?es (v_applied ?v)\<rparr>"
      "\<exists>res err. fst (process_command ?E (command (?es ! 1)) (serial (?es ! 1))
           (fold (apply_rec ?E) (take 1 ?es) (n_app example_waiting))) = Inr (res, err) \<and>
         dict_get (command_recs (leader t)) (rec_index (?es ! 1)) =
           Some ((waiting_command 7 (example_rec 2 1))\<lparr>cmd_result := res, cmd_error := err, cmd_done := True\<rparr>)"
    using leader_commits_and_answers [OF example_client inv(1) inv(2) _ _ _ _ es] k by blast
  have "v_commit (mem_view (n_log t)) = 2" "v_applied (mem_view (n_log t)) = 2"
    unfolding t(2) example_view_simps by (simp_all add: applied_by_def)
  moreover obtain c where "dict_get (command_recs (leader t)) 2 = Some c" "cmd_done c" "cmd_result c = Some (Str ''add 1'')"
    using t(3) by (auto simp: app example_rec_def new_LogRec_def)
  ultimately show ?thesis using t(1) by blast
qed

end
