(* ===== verification/Quorum_Props.thy ===== *)
theory Quorum_Props
  imports Leader_Props
begin

text \<open>
  Votes: the majorities behind elections and commits. Two candidates elected by the same members share a
  voter, and so do two records committed by an odd number of members; with an even number, or when the leader
  itself is leaving, half of the members are enough for a commit.
\<close>

section \<open>Sets of voters\<close>

lemma majorities_share:
  assumes "finite M" and "A \<subseteq> M" and "B \<subseteq> M" and "card M < card A + card B"
  shows "A \<inter> B \<noteq> {}"
proof
  assume "A \<inter> B = {}"
  with assms(1-3) have "card (A \<union> B) = card A + card B" by (intro card_Un_disjoint) (auto intro: finite_subset)
  moreover have "card (A \<union> B) \<le> card M" using assms(1-3) by (intro card_mono) auto
  ultimately show False using assms(4) by simp
qed

definition ayes :: "(uri \<times> bool option) list \<Rightarrow> uri set" where
  "ayes vs = {u. dict_get vs u = Some (Some True)}"

lemma tally_card: "dict_ok vs \<Longrightarrow> tally vs = card (ayes vs)"
proof -
  assume d: "dict_ok vs"
  have "ayes vs = fst ` set (filter (\<lambda>p. snd p = Some True) vs)"
    using d by (force simp: ayes_def map_of_eq_Some_iff)
  moreover have "distinct (map fst (filter (\<lambda>p. snd p = Some True) vs))" using d by (rule distinct_map_filter)
  ultimately show ?thesis unfolding tally_def by (metis distinct_card length_map set_map)
qed

lemma ayes_members: "ayes vs \<subseteq> set (dict_keys vs)"
  by (auto simp: ayes_def dest: map_of_SomeD intro: rev_image_eqI)

section \<open>Elections\<close>

text \<open>Everything a lost or undecided vote count does keeps the role.\<close>

interpretation role_kept: method_rel "\<lambda>s t. role t = role s"
  by unfold_locales simp_all

lemma role_kept_modE: "(\<And>s. role (f s) = role s) \<Longrightarrow> steps (\<lambda>s t. role t = role s) (modE f)"
  by (simp add: steps_def run)

lemma role_kept_zoom: "(\<And>x s. role (upd x s) = role s) \<Longrightarrow> steps (\<lambda>s t. role t = role s) (zoomE sel upd m)"
  by (simp add: steps_def run case_prod_beta)

lemmas role_kept_rules = role_kept.steps_rules role_kept_modE role_kept_zoom

lemma role_kept_ops:
  "steps (\<lambda>s t. role t = role s) (log_get q E)" "steps (\<lambda>s t. role t = role s) (log_do m)"
  "steps (\<lambda>s t. role t = role s) (candidate_mod f)" "steps (\<lambda>s t. role t = role s) (ops_mod g)"
  "steps (\<lambda>s t. role t = role s) (deck_mod k)"
  unfolding log_get_def log_do_def candidate_mod_def ops_mod_def deck_mod_def
  by (intro role_kept_rules; simp)+

lemma role_kept_detail: "steps (\<lambda>s t. role t = role s) (record_op_detail d)"
  by (simp add: steps_def record_op_detail_run emit_if_active_run)

lemma role_kept_run_after: "steps (\<lambda>(s :: ('l, 'a) node) t. role t = role s) (role_run_after d x)"
proof (rule stepsI)
  fix s :: "('l, 'a) node"
  obtain t where "role_run_after d x s = (Inr (), t)" "timer_frame s t" using role_run_after_frame by blast
  then show "role (snd (role_run_after d x s)) = role s" by (simp add: timer_frameD)
qed

lemma role_kept_cancel: "steps (\<lambda>(s :: ('l, 'a) node) t. role t = role s) cancel_role_run_after"
proof (rule stepsI)
  fix s :: "('l, 'a) node"
  obtain t where "cancel_role_run_after s = (Inr (), t)" "timer_frame s t" using cancel_after_frame by blast
  then show "role (snd (cancel_role_run_after s)) = role s" by (simp add: timer_frameD)
qed

lemma role_kept_lost: "steps (\<lambda>s t. role t = role s) (campaign_lost E d)"
  unfolding campaign_lost_def get_election_timeout_def Cluster_Ops.get_cluster_config_def set_current_def
  by (intro role_kept_rules role_kept_ops role_kept_detail role_kept_run_after role_kept_cancel; simp)

lemma elected_has_majority:
  assumes "role s \<noteq> RoleLeader" and "role (snd (on_vote_response E h v s)) = RoleLeader"
  defines "vs \<equiv> dict_set (sender h) (Some v) (votes (candidate s))"
  shows "length vs < 2 * tally vs \<and> c_term (candidate s) \<le> msg_term h"
proof (rule ccontr)
  let ?c = "(candidate s)\<lparr>votes := vs, c_reply_count := c_reply_count (candidate s) + 1\<rparr>"
  assume "\<not> (length vs < 2 * tally vs \<and> c_term (candidate s) \<le> msg_term h)"
  then have "snd (on_vote_response E h v s) \<in>
      {s, s\<lparr>candidate := ?c\<rparr>, snd (campaign_lost E lost (s\<lparr>candidate := ?c\<rparr>))}"
    by (auto simp: on_vote_response_def run candidate_mod_def vs_def)
  then have "role (snd (on_vote_response E h v s)) = role s" 
    using stepsD [OF role_kept_lost, of E lost "s\<lparr>candidate := ?c\<rparr>"] by auto
  with assms(1,2) show False by simp
qed

subsection \<open>Taking office\<close>

lemma role_run_after_armed:
  "\<exists>t. role_run_after d x s = (Inr (), t) \<and> timer_frame s t \<and> (next_timer s, now s + d, RoleAfterRunner x) \<in> set (timers t)"
proof -
  obtain t where t: "role_run_after d x s = (Inr (), t)" "timer_frame s t" using role_run_after_frame by blast
  moreover have "(next_timer s, now s + d, RoleAfterRunner x) \<in> set (timers (snd (role_run_after d x s)))"
    by (cases "role_async_handle (deck s)")
      (simp_all add: role_run_after_def call_later_def cancel_timer_def deck_mod_def run)
  ultimately show ?thesis by auto
qed

lemma trackers_run:
  "\<exists>p. forE us (\<lambda>u. bindE (tracker_for_follower E u) (\<lambda>_. ret ())) s = (Inr (), s\<lparr>ops := p\<rparr>) \<and>
     current_config p = current_config (ops s) \<and> leader_uri p = leader_uri (ops s)"
proof (induction us arbitrary: s)
  case Nil
  show ?case by (intro exI [of _ "ops s"]) (simp add: run)
next
  case (Cons u us)
  obtain p tr where "tracker_for_follower E u s = (Inr tr, s\<lparr>ops := p\<rparr>)"
      "current_config p = current_config (ops s)" "leader_uri p = leader_uri (ops s)"
    using tracker_run by blast
  with Cons [of "s\<lparr>ops := p\<rparr>"] show ?case by (auto simp: run)
qed

text \<open>The term start record of a new leader.\<close>

definition term_start_record :: "('l, 'a) env \<Rightarrow> log_view \<Rightarrow> ClusterConfig \<Rightarrow> LogRec" where
  "term_start_record E v c = (new_LogRec term_start (v_term v) (Some (Dumps (ClusterConfig_json c))))\<lparr>
     rec_index := v_last v + 1, leader_id := Some (my_uri E)\<rparr>"

context log_client
begin

lemma stop_role_run:
  assumes "ok s"
  shows "\<exists>t. stop_role E s = (Inr (), t) \<and> ok t \<and> lv t = (lv s)\<lparr>v_voted := None\<rparr> \<and> role t = role s \<and> ops t = ops s \<and>
     outbox t = outbox s \<and> now t = now s \<and> n_app t = n_app s \<and> role_stopped t \<and> exiting_cluster (deck t) = exiting_cluster (deck s) \<and>
     event_control t = event_control s \<and> c_term (candidate t) = c_term (candidate s) \<and>
     c_use_pre_vote (candidate t) = c_use_pre_vote (candidate s) \<and> joining_cluster (deck t) = joining_cluster (deck s) \<and>
     deck_active_messages (deck t) = deck_active_messages (deck s)"
proof -
  obtain l where l: "log_do (set_voted_for (log E) None) s = (Inr (), s\<lparr>n_log := l\<rparr>)" "inv l"
      "view api ents l = (lv s)\<lparr>v_voted := None\<rparr>" using do_set_voted [OF assms] by blast
  define s1 where "s1 = snd (set_role_stopped True (s\<lparr>n_log := l\<rparr>))"
  have s1: "set_role_stopped True (s\<lparr>n_log := l\<rparr>) = (Inr (), s1)" "n_log s1 = l" "role s1 = role s" "ops s1 = ops s"
      "outbox s1 = outbox s" "now s1 = now s" "n_app s1 = n_app s" "role_stopped s1" "deck s1 = deck s"
      "event_control s1 = event_control s" "c_term (candidate s1) = c_term (candidate s)"
      "c_use_pre_vote (candidate s1) = c_use_pre_vote (candidate s)"
    by (cases "role s"; simp add: s1_def set_role_stopped_def run role_stopped_def)+
  obtain l' where l': "log_do (set_voted_for (log E) None) s1 = (Inr (), s1\<lparr>n_log := l'\<rparr>)" "inv l'"
      "view api ents l' = (lv s)\<lparr>v_voted := None\<rparr>"
    using do_set_voted [of s1 None] l(2,3) s1(2) by auto
  obtain t where t: "cancel_role_run_after (s1\<lparr>n_log := l'\<rparr>) = (Inr (), t)" "timer_frame (s1\<lparr>n_log := l'\<rparr>) t"
    using cancel_after_frame by blast
  have "stop_role E s = (Inr (), t)"
    using l(1) s1(1) l'(1) t(1) by (simp add: stop_role_def role_stop_def run)
  then show ?thesis using l' s1 timer_frameD [OF t(2)] by (auto simp: role_stopped_def split: RoleName.splits)
qed

lemma leader_start_run:
  assumes "ok s" and "role s = RoleLeader" and "current_config (ops s) = Some c" and "v_config (lv s) = Some c"
  shows "\<exists>t xs. leader_start E s = (Inr (), t) \<and> ok t \<and> lv t = insert_view (term_start_record E (lv s) c) (lv s) \<and>
     role t = RoleLeader \<and> \<not> role_stopped t \<and> leader_uri (ops t) = leader_uri (ops s) \<and> outbox t = outbox s @ xs \<and>
     list_all2 (append_sent (my_uri E) (v_term (lv s)) (v_last (lv s)) (term_at (lv s) (v_last (lv s)))
         [term_start_record E (lv s) c] (v_commit (lv s))) (filter (\<lambda>u. u \<noteq> my_uri E) (dict_keys (nodes c))) xs \<and>
     (\<exists>p \<in> set (timers t). snd (snd p) = RoleAfterRunner ScheduledSendHeartbeats)"
proof -
  let ?us = "dict_keys (nodes c)" and ?r = "term_start_record E (lv s) c"
  have r: "rec_index ?r = v_last (lv s) + 1" by (simp add: term_start_record_def)
  define s1 where "s1 = s\<lparr>leader := (leader s)\<lparr>l_stopped := False\<rparr>\<rparr>"
  obtain p where p: "forE ?us (\<lambda>u. bindE (tracker_for_follower E u) (\<lambda>_. ret ())) s1 = (Inr (), s1\<lparr>ops := p\<rparr>)"
      "current_config p = Some c" "leader_uri p = leader_uri (ops s)"
    using trackers_run [of ?us E s1] assms(3) by (auto simp: s1_def)
  define s2 where "s2 = s1\<lparr>ops := p\<lparr>current_config := Some c\<rparr>,
     leader := (leader s1)\<lparr>l_commands_idempotent := commands_idempotent (settings c)\<rparr>\<rparr>"
  obtain s3 where s3: "role_run_after (heartbeat_period (settings c)) ScheduledSendHeartbeats s2 = (Inr (), s3)" "timer_frame s2 s3"
      "(next_timer s2, now s2 + heartbeat_period (settings c), RoleAfterRunner ScheduledSendHeartbeats) \<in> set (timers s3)"
    using role_run_after_armed by blast
  note f = timer_frameD [OF s3(2)]
  define s4 where "s4 = s3\<lparr>ops := (ops s3)\<lparr>current_config := Some c\<rparr>\<rparr>"
  have s4: "n_log s4 = n_log s" "role s4 = RoleLeader" "outbox s4 = outbox s" "leader_uri (ops s4) = leader_uri (ops s)"
      "current_config (ops s4) = Some c" "l_stopped (leader s4) = False" "timers s4 = timers s3"
    using f assms(2) p(3) by (simp_all add: s4_def s2_def s1_def)
  have v4: "v_config (lv s1) = Some c" "v_config (view api ents (n_log (s1\<lparr>ops := p\<rparr>))) = Some c"
      "v_config (lv s2) = Some c" "v_config (lv s3) = Some c"
    using assms(4) s4(1) by (simp_all add: s1_def s2_def s4_def)
  have ok4: "ok s4" using assms(1) s4(1) by simp
  obtain l where l: "log_do (log_append (log E) ((new_LogRec term_start (v_term (lv s)) (Some (Dumps (ClusterConfig_json c))))
      \<lparr>leader_id := Some (my_uri E)\<rparr>)) s4 = (Inr ?r, s4\<lparr>n_log := l\<rparr>)" "inv l" "view api ents l = insert_view ?r (lv s)"
    using append_new [OF ok4, of "(new_LogRec term_start (v_term (lv s)) (Some (Dumps (ClusterConfig_json c))))
      \<lparr>leader_id := Some (my_uri E)\<rparr>" ?r] s4(1) by (auto simp: term_start_record_def)
  note v = insert_view_prev [OF assms(1) r]
  obtain t xs where t: "broadcast_log_record E ?r (s4\<lparr>n_log := l\<rparr>) = (Inr (), t)" "ok t" "lv t = insert_view ?r (lv s)"
      "broadcast_frame (s4\<lparr>n_log := l\<rparr>) t" "outbox t = outbox s @ xs"
      "list_all2 (append_sent (my_uri E) (v_term (lv s)) (v_last (lv s)) (term_at (lv s) (v_last (lv s))) [?r]
         (v_commit (lv s))) (filter (\<lambda>u. u \<noteq> my_uri E) ?us) xs"
    using broadcast_run [of "s4\<lparr>n_log := l\<rparr>" ?r c] s4 v r l(2,3) by (auto simp: r simp del: view_simps)
  have "leader_start E s = broadcast_log_record E ?r (s4\<lparr>n_log := l\<rparr>)"
  proof -
    have "base_start s = (Inr (), s1)" using assms(2) by (simp add: base_start_def set_role_stopped_def run s1_def)
    moreover have "get_cluster_node_ids s1 = (Inr ?us, s1)" using assms(3) by (simp add: get_cluster_node_ids_def run s1_def)
    moreover have "Cluster_Ops.get_cluster_config E (s1\<lparr>ops := p\<rparr>) = (Inr c, s1\<lparr>ops := p\<lparr>current_config := Some c\<rparr>\<rparr>)"
      using get_config_run [OF v4(2)] by simp
    moreover have "get_heartbeat_period E s2 = (Inr (heartbeat_period (settings c)), s2)"
      using get_config_run [OF v4(3)] by (simp add: get_heartbeat_period_def run s2_def)
    moreover have "get_cluster_config_json_string E s3 = (Inr (Dumps (ClusterConfig_json c)), s4)"
      using get_config_run [OF v4(4)] by (simp add: get_cluster_config_json_string_def run s4_def)
    moreover have "get_term (log E) (n_log s3) = v_term (lv s)" using s4(1) by (simp add: s4_def log_E)
    ultimately show ?thesis using p(1) s3(1) l(1)
      by (simp add: leader_start_def run_bindE run_seqE log_get_run leader_mod_def run_modE flip: s2_def)
  qed
  then show ?thesis using t s4 s3(3) by (force simp: broadcast_frame_def role_stopped_def)
qed

lemma win_vote_run:
  assumes "ok s" and "v_config (lv s) = Some c"
  defines "v \<equiv> (lv s)\<lparr>v_voted := None\<rparr>"
  shows "\<exists>t xs. win_vote E n s = (Inr (), t) \<and> ok t \<and> lv t = insert_view (term_start_record E v c) v \<and>
     role t = RoleLeader \<and> \<not> role_stopped t \<and> leader_uri (ops t) = Some (my_uri E) \<and> outbox t = outbox s @ xs \<and>
     list_all2 (append_sent (my_uri E) (v_term v) (v_last v) (term_at v (v_last v))
         [term_start_record E v c] (v_commit v)) (filter (\<lambda>u. u \<noteq> my_uri E) (dict_keys (nodes c))) xs \<and>
     (\<exists>p \<in> set (timers t). snd (snd p) = RoleAfterRunner ScheduledSendHeartbeats)"
proof -
  obtain s1 where s1: "stop_role E s = (Inr (), s1)" "ok s1" "lv s1 = v" "ops s1 = ops s" "outbox s1 = outbox s"
    using stop_role_run [OF assms(1)] unfolding v_def by blast
  have c1: "v_config (lv s1) = Some c" unfolding s1(3) v_def using assms(2) by simp
  define ts where "ts = tasks s1 @ (if event_type (LeaderChangeEvent (Some (my_uri E))) \<in> set (active_events (event_control s1))
     then event_tasks s1 (LeaderChangeEvent (Some (my_uri E))) else [])"
  define s2 where "s2 = s1\<lparr>role := RoleLeader, leader := new_Leader (use_check_quorum (settings c)),
     ops := (ops s1)\<lparr>current_config := Some c, leader_uri := Some (my_uri E)\<rparr>, tasks := ts\<rparr>"
  have s2: "ok s2" "lv s2 = v" "role s2 = RoleLeader" "current_config (ops s2) = Some c" "leader_uri (ops s2) = Some (my_uri E)"
      "outbox s2 = outbox s" "v_config (lv s2) = Some c"
    using s1 c1 by (simp_all add: s2_def)
  obtain t xs where t: "leader_start E s2 = (Inr (), t)" "ok t" "lv t = insert_view (term_start_record E v c) v"
      "role t = RoleLeader" "\<not> role_stopped t" "leader_uri (ops t) = Some (my_uri E)" "outbox t = outbox s @ xs"
      "list_all2 (append_sent (my_uri E) (v_term v) (v_last v) (term_at v (v_last v))
         [term_start_record E v c] (v_commit v)) (filter (\<lambda>u. u \<noteq> my_uri E) (dict_keys (nodes c))) xs"
      "\<exists>p \<in> set (timers t). snd (snd p) = RoleAfterRunner ScheduledSendHeartbeats"
    using leader_start_run [OF s2(1,3,4,7)] unfolding s2(2) s2(5) s2(6) by blast
  have "win_vote E n s = (case leader_start E s2 of (Inl e, t) \<Rightarrow> (Inl e, t)
      | (Inr _, t) \<Rightarrow> emit_if_active (RoleChangeEvent RoleLeader) t)"
    using s1(1) get_config_run [OF c1]
    by (simp add: win_vote_def run_seqE run_bindE run_modE set_leader_uri_def ops_mod_def emit_if_active_run event_tasks_def
        s2_def ts_def)
  then obtain us where "win_vote E n s = (Inr (), t\<lparr>tasks := us\<rparr>)" using t(1) by (simp add: emit_if_active_run)
  with t show ?thesis by (intro exI [of _ "t\<lparr>tasks := us\<rparr>"] exI [of _ xs]) (simp add: role_stopped_def)
qed

lemma vote_won:
  assumes "ok s" and "v_config (lv s) = Some c" and "c_term (candidate s) \<le> msg_term h"
    and "vs = dict_set (sender h) (Some b) (votes (candidate s))" and "length vs < 2 * tally vs"
    and "v = (lv s)\<lparr>v_voted := None\<rparr>"
  shows "\<exists>t xs. on_vote_response E h b s = (Inr (), t) \<and> ok t \<and> lv t = insert_view (term_start_record E v c) v \<and>
     role t = RoleLeader \<and> \<not> role_stopped t \<and> leader_uri (ops t) = Some (my_uri E) \<and> outbox t = outbox s @ xs \<and>
     list_all2 (append_sent (my_uri E) (v_term v) (v_last v) (term_at v (v_last v))
         [term_start_record E v c] (v_commit v)) (filter (\<lambda>u. u \<noteq> my_uri E) (dict_keys (nodes c))) xs \<and>
     (\<exists>p \<in> set (timers t). snd (snd p) = RoleAfterRunner ScheduledSendHeartbeats)"
proof -
  let ?s = "s\<lparr>candidate := (candidate s)\<lparr>votes := vs, c_reply_count := c_reply_count (candidate s) + 1\<rparr>\<rparr>"
  obtain s1 where s1: "cancel_role_run_after ?s = (Inr (), s1)" "timer_frame ?s s1" using cancel_after_frame by blast
  note f = timer_frameD [OF s1(2)]
  have "ok s1" "v_config (lv s1) = Some c" using f(1) assms(1,2) by simp_all
  from win_vote_run [OF this, of "c_term (candidate s)"] obtain t xs where
    t: "win_vote E (c_term (candidate s)) s1 = (Inr (), t)" "ok t" "lv t = insert_view (term_start_record E v c) v"
     "role t = RoleLeader" "\<not> role_stopped t" "leader_uri (ops t) = Some (my_uri E)" "outbox t = outbox s @ xs"
     "list_all2 (append_sent (my_uri E) (v_term v) (v_last v) (term_at v (v_last v))
         [term_start_record E v c] (v_commit v)) (filter (\<lambda>u. u \<noteq> my_uri E) (dict_keys (nodes c))) xs"
     "\<exists>p \<in> set (timers t). snd (snd p) = RoleAfterRunner ScheduledSendHeartbeats"
    unfolding assms(6) using f(1,6) by auto
  have "\<exists>ts. on_vote_response E h b s = (Inr (), t\<lparr>tasks := ts\<rparr>)"
    using assms(3,5) s1(1) t(1) unfolding assms(4)
    by (simp add: on_vote_response_def run_bindE run_getsE run_seqE candidate_mod_def run_modE record_op_detail_run
        emit_if_active_run split del: if_split) (rule exI, rule refl)
  then obtain ts where "on_vote_response E h b s = (Inr (), t\<lparr>tasks := ts\<rparr>)" ..
  with t show ?thesis by (intro exI [of _ "t\<lparr>tasks := ts\<rparr>"] exI [of _ xs]) (simp add: role_stopped_def)
qed

end

text \<open>C1. Two candidates of one term that the same members elected, each on counting a response, have a voter
  in common: at least one member's vote was counted for both. (So if members vote once per term, there is one
  leader per term.)\<close>

theorem elections_share_voter:
  assumes "role s1 = RoleCandidate" and "role (snd (on_vote_response E1 h1 v1 s1)) = RoleLeader"
    and "role s2 = RoleCandidate" and "role (snd (on_vote_response E2 h2 v2 s2)) = RoleLeader"
    and "vs1 = dict_set (sender h1) (Some v1) (votes (candidate s1))" and "vs2 = dict_set (sender h2) (Some v2) (votes (candidate s2))"
    and "dict_ok vs1" and "dict_ok vs2" and "set (dict_keys vs1) = set (dict_keys vs2)"
  shows "\<exists>u. dict_get vs1 u = Some (Some True) \<and> dict_get vs2 u = Some (Some True)"
proof -
  let ?M = "set (dict_keys vs1)"
  have n: "length vs1 = card ?M" "length vs2 = card ?M"
    using assms(7-9) distinct_card [of "dict_keys vs1"] distinct_card [of "dict_keys vs2"] by simp_all
  have "card ?M < 2 * card (ayes vs1)" "card ?M < 2 * card (ayes vs2)"
    using elected_has_majority [of s1 E1 h1 v1] elected_has_majority [of s2 E2 h2 v2] assms n
    by (auto simp: tally_card)
  then have "ayes vs1 \<inter> ayes vs2 \<noteq> {}"
    using ayes_members [of vs1] ayes_members [of vs2] assms(9) by (intro majorities_share [of ?M]) auto
  then show ?thesis by (auto simp: ayes_def)
qed

text \<open>Two candidates of the example cluster, each with its own vote.\<close>

definition example_candidate :: "uri \<Rightarrow> (MemoryLog, unit) node" where
  "example_candidate me = (example_node example_member_log)\<lparr>role := RoleCandidate,
     candidate := (new_Candidate False False)\<lparr>c_term := 1,
       votes := map (\<lambda>u. (u, if u = me then Some True else None)) [''n1'', ''n2'', ''n3'']\<rparr>\<rparr>"

lemma example_candidate_simps [simp]:
  "n_log (example_candidate me) = example_member_log" "role (example_candidate me) = RoleCandidate"
  "c_term (candidate (example_candidate me)) = 1" "outbox (example_candidate me) = []"
  "votes (candidate (example_candidate me)) = [(''n1'', if ''n1'' = me then Some True else None),
     (''n2'', if ''n2'' = me then Some True else None), (''n3'', if ''n3'' = me then Some True else None)]"
  by (simp_all add: example_candidate_def example_node_def new_node_def)

lemma example_votes:
  assumes "me = ''n1'' \<or> me = ''n3''" and "vs = dict_set ''n2'' (Some True) (votes (candidate (example_candidate me)))"
  shows "length vs < 2 * tally vs"
  using assms by (auto simp: tally_def)

lemma example_candidate_log: "mem_inv (n_log (example_candidate me))"
  using example_member_log_inv by simp

lemma example_elected:
  assumes "me = ''n1'' \<or> me = ''n3''"
  shows "role (snd (on_vote_response (example_env memory_api me) (example_hdr ''n2'' 1 2 1) True (example_candidate me))) = RoleLeader"
proof -
  obtain c where "v_config (mem_view (n_log (example_candidate me))) = Some c" using example_member by auto
  moreover have "c_term (candidate (example_candidate me)) \<le> msg_term (example_hdr ''n2'' 1 2 1)" by simp
  moreover have "dict_set (sender (example_hdr ''n2'' 1 2 1)) (Some True) (votes (candidate (example_candidate me))) =
      dict_set ''n2'' (Some True) (votes (candidate (example_candidate me)))" by simp
  ultimately obtain t where
    "on_vote_response (example_env memory_api me) (example_hdr ''n2'' 1 2 1) True (example_candidate me) = (Inr (), t)"
    "role t = RoleLeader"
    using log_client.vote_won [OF example_client example_candidate_log _ _ refl _ refl] example_votes [OF assms refl] by metis
  then show ?thesis by simp
qed

theorem elections_share_voter_witness:
  "\<exists>u. dict_get (dict_set ''n2'' (Some True) (votes (candidate (example_candidate ''n1'')))) u = Some (Some True) \<and>
       dict_get (dict_set ''n2'' (Some True) (votes (candidate (example_candidate ''n3'')))) u = Some (Some True)"
proof (rule elections_share_voter)
  show "role (snd (on_vote_response (example_env memory_api ''n1'') (example_hdr ''n2'' 1 2 1) True (example_candidate ''n1''))) = RoleLeader"
    by (rule example_elected) simp
  show "role (snd (on_vote_response (example_env memory_api ''n3'') (example_hdr ''n2'' 1 2 1) True (example_candidate ''n3''))) = RoleLeader"
    by (rule example_elected) simp
qed simp_all

text \<open>C10. A candidate that counts a response which completes a strict majority becomes the leader: its log gains exactly
  one record, the term start of its term with the members' configuration, one append message with it goes to every
  other member, it knows itself as the leader, and its heartbeat timer is armed.\<close>

theorem majority_makes_leader:
  assumes "log_client api I ents E" and "I (n_log s)" and "v = (view api ents (n_log s))\<lparr>v_voted := None\<rparr>" and "v_config v = Some c"
    and "c_term (candidate s) \<le> msg_term h" and "vs = dict_set (sender h) (Some b) (votes (candidate s))" and "length vs < 2 * tally vs"
  shows "\<exists>t xs. on_vote_response E h b s = (Inr (), t) \<and> I (n_log t) \<and>
     view api ents (n_log t) = insert_view (term_start_record E v c) v \<and>
     role t = RoleLeader \<and> \<not> role_stopped t \<and> leader_uri (ops t) = Some (my_uri E) \<and> outbox t = outbox s @ xs \<and>
     list_all2 (append_sent (my_uri E) (v_term v) (v_last v) (term_at v (v_last v))
         [term_start_record E v c] (v_commit v)) (filter (\<lambda>u. u \<noteq> my_uri E) (dict_keys (nodes c))) xs \<and>
     (\<exists>p \<in> set (timers t). snd (snd p) = RoleAfterRunner ScheduledSendHeartbeats)"
  using log_client.vote_won [OF assms(1,2) _ assms(5,6,7,3), of c] assms(3,4) by simp

theorem majority_makes_leader_witness:
  "\<exists>t. on_vote_response (example_env memory_api ''n1'') (example_hdr ''n2'' 1 2 1) True (example_candidate ''n1'') = (Inr (), t) \<and>
     role t = RoleLeader \<and> v_last (mem_view (n_log t)) = 3"
proof -
  let ?E = "example_env memory_api ''n1''" and ?v = "(mem_view example_member_log)\<lparr>v_voted := None\<rparr>"
  obtain c0 where "mem_view example_member_log = (mem_view example_log)\<lparr>v_config := Some c0\<rparr>"
    using example_member_view by blast
  from arg_cong [OF this, of v_last] have last: "v_last (mem_view example_member_log) = 2"
    using example_view_simps(1) by simp
  obtain c where c: "v_config ?v = Some c" using example_member by auto
  have v: "?v = (mem_view (n_log (example_candidate ''n1'')))\<lparr>v_voted := None\<rparr>" by simp
  have vs: "dict_set ''n2'' (Some True) (votes (candidate (example_candidate ''n1''))) =
      dict_set (sender (example_hdr ''n2'' 1 2 1)) (Some True) (votes (candidate (example_candidate ''n1'')))" by simp
  have tm: "c_term (candidate (example_candidate ''n1'')) \<le> msg_term (example_hdr ''n2'' 1 2 1)" by simp
  obtain t where t: "on_vote_response ?E (example_hdr ''n2'' 1 2 1) True (example_candidate ''n1'') = (Inr (), t)"
     "mem_view (n_log t) = insert_view (term_start_record ?E ?v c) ?v" "role t = RoleLeader"
    using majority_makes_leader [OF example_client example_candidate_log v c tm vs] example_votes [OF disjI1 [OF refl] refl] by metis
  from arg_cong [OF t(2), of v_last] last have "v_last (mem_view (n_log t)) = 3"
    by (simp add: insert_view_def term_start_record_def del: view_simps)
  with t show ?thesis by blast
qed

section \<open>A vote that is forgotten\<close>

context log_client
begin

lemma election_timeout_run:
  "v_config (lv s) = Some c \<Longrightarrow> get_election_timeout E s =
     (Inr (uniform E (draws s) (election_timeout_min (settings c)) (election_timeout_max (settings c))),
      s\<lparr>ops := (ops s)\<lparr>current_config := Some c\<rparr>, draws := Suc (draws s)\<rparr>)"
  by (simp add: get_election_timeout_def run get_config_run)

lemma follower_start_run:
  assumes "v_config (lv s) = Some c" and "role s = RoleFollower"
  shows "\<exists>t. follower_start E s = (Inr (), t) \<and> n_log t = n_log s \<and> role t = RoleFollower \<and> \<not> role_stopped t \<and>
     outbox t = outbox s \<and> n_app t = n_app s \<and> leader_uri (ops t) = leader_uri (ops s) \<and>
     last_leader_contact (follower t) = now s \<and> (\<exists>p \<in> set (timers t). snd (snd p) = RoleAfterRunner ContactChecker) \<and>
     candidate t = candidate s \<and> joining_cluster (deck t) = joining_cluster (deck s) \<and>
     deck_active_messages (deck t) = deck_active_messages (deck s)"
proof -
  define s1 where "s1 = s\<lparr>ops := (ops s)\<lparr>current_config := Some c\<rparr>, follower := (follower s)\<lparr>f_stopped := False,
      last_leader_contact := now s, f_commands_idempotent := commands_idempotent (settings c)\<rparr>\<rparr>"
  let ?d = "uniform E (draws s1) (election_timeout_min (settings c)) (election_timeout_max (settings c))"
  have c1: "v_config (lv s1) = Some c" using assms(1) by (simp add: s1_def)
  define s2 where "s2 = s1\<lparr>ops := (ops s1)\<lparr>current_config := Some c\<rparr>, draws := Suc (draws s1)\<rparr>"
  obtain t where t: "role_run_after ?d ContactChecker s2 = (Inr (), t)" "timer_frame s2 t"
      "(next_timer s2, now s2 + ?d, RoleAfterRunner ContactChecker) \<in> set (timers t)"
    using role_run_after_armed by blast
  have "follower_start E s = bindE (get_election_timeout E) (\<lambda>d. role_run_after d ContactChecker) s1"
    using assms get_config_run [of "s\<lparr>follower := (follower s)\<lparr>f_stopped := False, last_leader_contact := now s\<rparr>\<rparr>" c]
    by (simp add: follower_start_def base_start_def set_role_stopped_def follower_mod_def run_seqE run_bindE run_modE run_getsE s1_def)
  then have "follower_start E s = (Inr (), t)"
    using election_timeout_run [OF c1] t(1) by (simp add: run_bindE s2_def)
  then show ?thesis using timer_frameD [OF t(2)] t(3) assms(2)
    by (force simp: s2_def s1_def role_stopped_def)
qed

lemma demote_run:
  assumes "ok s" and "v_config (lv s) = Some c" and "\<not> exiting_cluster (deck s)"
  shows "\<exists>t. demote_and_handle E None s = (Inr (), t) \<and> ok t \<and> lv t = (lv s)\<lparr>v_voted := None\<rparr> \<and> role t = RoleFollower \<and>
     \<not> role_stopped t \<and> outbox t = outbox s \<and> (\<exists>p \<in> set (timers t). snd (snd p) = RoleAfterRunner ContactChecker)"
proof -
  obtain s1 where s1: "stop_role E s = (Inr (), s1)" "ok s1" "lv s1 = (lv s)\<lparr>v_voted := None\<rparr>" "outbox s1 = outbox s"
      "exiting_cluster (deck s1) = exiting_cluster (deck s)"
    using stop_role_run [OF assms(1)] by blast
  let ?s = "s1\<lparr>role := RoleFollower, follower := new_Follower (now s1)\<rparr>"
  have "v_config (lv ?s) = Some c" "role ?s = RoleFollower" using s1(3) assms(2) by (simp_all flip: view_simps)
  from follower_start_run [OF this] obtain t where t: "follower_start E ?s = (Inr (), t)" "n_log t = n_log s1"
      "role t = RoleFollower" "\<not> role_stopped t" "outbox t = outbox s1"
      "\<exists>p \<in> set (timers t). snd (snd p) = RoleAfterRunner ContactChecker" by auto
  have "\<exists>ts. demote_and_handle E None s = (Inr (), t\<lparr>tasks := ts\<rparr>)"
    using s1(1,5) assms(3) t(1)
    by (simp add: demote_and_handle_def run_seqE run_bindE run_getsE run_modE run_whenE emit_if_active_run run_ret split del: if_split)
      (rule exI, rule refl)
  then obtain ts where "demote_and_handle E None s = (Inr (), t\<lparr>tasks := ts\<rparr>)" ..
  with t s1 show ?thesis by (intro exI [of _ "t\<lparr>tasks := ts\<rparr>"]) (simp add: role_stopped_def)
qed

end

text \<open>C36. Leaving a role forgets the vote of the current term: a node that has voted (or, as leader, was elected
  without recording its own vote) and is demoted in its term grants a second vote in that same term, to any
  candidate whose log is not behind.\<close>

theorem demoted_node_votes_again:
  assumes "log_client api I ents E" and "I (n_log s)" and "v = view api ents (n_log s)" and "v_config v = Some c"
    and "\<not> exiting_cluster (deck s)" and "v_voted v = w" and "v_last v \<le> prevLogIndex h" and "v_last_term v \<le> prevLogTerm h"
  shows "\<exists>t t'. demote_and_handle E None s = (Inr (), t) \<and> role t = RoleFollower \<and> v_term (view api ents (n_log t)) = v_term v \<and>
     on_vote_request E m h t = (Inr (), t') \<and> v_term (view api ents (n_log t')) = v_term v \<and>
     v_voted (view api ents (n_log t')) = Some (sender h) \<and>
     outbox t' = outbox s @ [response m (RequestVoteResponseMessage (vote_hdr E t h) True)]"
proof -
  obtain t where t: "demote_and_handle E None s = (Inr (), t)" "I (n_log t)" "view api ents (n_log t) = v\<lparr>v_voted := None\<rparr>"
      "role t = RoleFollower" "outbox t = outbox s"
    using log_client.demote_run [OF assms(1,2) _ assms(5)] assms(3,4) by blast
  have g: "grants (view api ents (n_log t)) h" unfolding t(3) grants_def using assms(7,8) by simp
  obtain t' where t': "on_vote_request E m h t = (Inr (), t')"
      "view api ents (n_log t') = (view api ents (n_log t))\<lparr>v_voted := Some (sender h)\<rparr>"
      "outbox t' = outbox t @ [response m (RequestVoteResponseMessage (vote_hdr E t h) True)]"
    using log_client.vote_decision [OF assms(1) t(2), of m h] by (auto simp: g simp del: view_simps)
  have "v_term (view api ents (n_log t)) = v_term v" "v_term (view api ents (n_log t')) = v_term v"
      "v_voted (view api ents (n_log t')) = Some (sender h)"
    unfolding t'(2) t(3) by (simp_all del: view_simps)
  with t t' show ?thesis by (auto simp del: view_simps)
qed

text \<open>The example node after a vote for \<open>n2\<close>, as a leader.\<close>

definition example_voted :: "(MemoryLog, unit) node" where
  "example_voted = (example_node (snd (set_voted_for memory_api (Some ''n2'') example_member_log)))\<lparr>role := RoleLeader\<rparr>"

theorem demoted_node_votes_again_witness:
  "\<exists>t t'. v_voted (mem_view (n_log example_voted)) = Some ''n2'' \<and>
     demote_and_handle (example_env memory_api ''n1'') None example_voted = (Inr (), t) \<and>
     on_vote_request (example_env memory_api ''n1'') (RequestVoteMessage (example_hdr ''n3'' 0 2 1)) (example_hdr ''n3'' 0 2 1) t = (Inr (), t') \<and>
     v_term (mem_view (n_log t')) = v_term (mem_view (n_log example_voted)) \<and> v_voted (mem_view (n_log t')) = Some ''n3''"
proof -
  let ?v = "mem_view (n_log example_voted)"
  obtain c0 where c0: "mem_view example_member_log = (mem_view example_log)\<lparr>v_config := Some c0\<rparr>"
    using example_member_view by blast
  have inv: "mem_inv (n_log example_voted)" and "mem_view (n_log example_voted) = (mem_view example_member_log)\<lparr>v_voted := Some ''n2''\<rparr>"
    using mem.set_voted_for_law [OF example_member_log_inv, of "Some ''n2''"] by (auto simp: example_voted_def)
  then have v: "?v = (mem_view example_log)\<lparr>v_config := Some c0, v_voted := Some ''n2''\<rparr>" unfolding c0 by simp
  have c: "v_config ?v = Some c0" "v_last ?v \<le> prevLogIndex (example_hdr ''n3'' 0 2 1)"
      "v_last_term ?v \<le> prevLogTerm (example_hdr ''n3'' 0 2 1)" "v_voted ?v = Some ''n2''"
    unfolding v by (simp_all add: example_view_simps del: view_simps)
  have "\<not> exiting_cluster (deck example_voted)" by (simp add: example_voted_def example_node_def new_node_def new_Deck_def)
  from demoted_node_votes_again [OF example_client inv refl c(1) this c(4) c(2) c(3), of "''n1''"
      "RequestVoteMessage (example_hdr ''n3'' 0 2 1)"] c(4)
  show ?thesis by (auto simp del: view_simps)
qed

section \<open>Votes on a record\<close>

definition record_ayes :: "LogVoteTracker \<Rightarrow> uri set" where
  "record_ayes v = {u \<in> set (voters v). dict_get (lvt_votes v) u = Some True}"

lemma count_ayes_card: "distinct (voters v) \<Longrightarrow> count_ayes False me v = card (record_ayes v)"
proof -
  assume d: "distinct (voters v)"
  have "record_ayes v = set (filter (\<lambda>u. dict_get (lvt_votes v) u = Some True) (voters v))" by (auto simp: record_ayes_def)
  moreover have "distinct (filter (\<lambda>u. dict_get (lvt_votes v) u = Some True) (voters v))" using d by simp
  ultimately show ?thesis unfolding count_ayes_def using distinct_card by force
qed

lemma odd_majority:
  assumes "odd (length (voters v))" and "distinct (voters v)" and "win_count False v \<le> count_ayes False me v"
  shows "card (set (voters v)) < 2 * card (record_ayes v)" "record_ayes v \<subseteq> set (voters v)"
  using assms by (auto simp: count_ayes_card win_count_def half_up_def distinct_card record_ayes_def elim!: oddE)

section \<open>Commits\<close>

lemma commit_needs_ayes:
  assumes "\<not> exit_in_progress (leader s)" and "w = record_vote u b tr"
    and "get_commit_index (log E) (n_log (snd (assess_one E u b i (k, tr) s))) \<noteq> get_commit_index (log E) (n_log s)"
  shows "win_count False w \<le> count_ayes False (my_uri E) w"
proof (rule ccontr)
  assume "\<not> win_count False w \<le> count_ayes False (my_uri E) w"
  then have "n_log (snd (assess_one E u b i (k, tr) s)) = n_log s"
    using assms(1) unfolding assess_one_def case_prod_conv Let_def assms(2) [symmetric]
    by (simp add: run leader_mod_def)
  with assms(3) show False by simp
qed

context log_client
begin

lemma assess_run:
  assumes "\<not> exit_in_progress (leader s)" and "v' = record_vote u b v" and "length (lvt_votes v') \<noteq> length (voters v')"
    and "win_count False v' \<le> count_ayes False (my_uri E) v'"
  shows "\<exists>L. assess_one E u b i (k, v) s = process_ready_log_record E (lvt_log_rec v) (s\<lparr>leader := L\<rparr>)"
proof -
  let ?L = "if k \<in> set (dict_keys (log_vote_trackers (leader s)))
     then (leader s)\<lparr>log_vote_trackers := dict_set k v' (log_vote_trackers (leader s))\<rparr> else leader s"
  have "lvt_log_rec v' = lvt_log_rec v" by (simp add: assms(2) record_vote_def)
  then have "assess_one E u b i (k, v) s = process_ready_log_record E (lvt_log_rec v) (s\<lparr>leader := ?L\<rparr>)"
    using assms(1,3,4) unfolding assess_one_def case_prod_conv Let_def assms(2) [symmetric]
    by (simp add: run_bindE run_getsE run_seqE leader_mod_def run_modE run_ret del: set_map)
  then show ?thesis by blast
qed

lemma record_committed:
  assumes "ok s" and "app_returns E" and "snap_base (v_snap (lv s)) \<le> v_applied (lv s)"
    and "v_ents (lv s) (rec_index (lvt_log_rec tr)) = Some (content (lvt_log_rec tr))"
    and "\<forall>i e. v_ents (lv s) i = Some e \<longrightarrow> code e \<noteq> cluster_config"
    and "\<not> exit_in_progress (leader s)" and "w = record_vote u b tr" and "length (lvt_votes w) \<noteq> length (voters w)"
    and "win_count False w \<le> count_ayes False (my_uri E) w"
  shows "\<exists>t. assess_one E u b i (k, tr) s = (Inr (), t) \<and> ok t \<and>
     v_commit (lv t) = max (rec_index (lvt_log_rec tr)) (v_commit (lv s))"
proof -
  let ?r = "lvt_log_rec tr"
  from assess_run [OF assms(6-9), of i k] obtain L where
    L: "assess_one E u b i (k, tr) s = process_ready_log_record E ?r (s\<lparr>leader := L\<rparr>)" by blast
  let ?rs = "map (\<lambda>i. the (ents (n_log s) i)) [v_applied (lv s) + 1..rec_index ?r]"
  obtain l where "process_ready_log_record E ?r (s\<lparr>leader := L\<rparr>) = (Inr (), s\<lparr>
        n_app := fst (fold (serve E) ?rs (n_app s, L)), n_log := l, leader := snd (fold (serve E) ?rs (n_app s, L))\<rparr>)" "inv l"
     and l: "view api ents l = (lv s)\<lparr>v_commit := max (rec_index ?r) (v_commit (lv s)), v_applied := applied_by ?rs (v_applied (lv s))\<rparr>"
    using ready_run [OF _ assms(2), of "s\<lparr>leader := L\<rparr>" ?r] assms(1,3-5) by auto
  moreover have "v_commit (view api ents l) = max (rec_index ?r) (v_commit (lv s))" unfolding l by simp
  ultimately show ?thesis using L by (simp del: view_simps)
qed

end

text \<open>C8. In a cluster with an odd number of members, two leaders (not leaving the cluster) whose commit index moves when
  they count a vote on a record share a member that voted for both records; and a candidate that becomes the leader on
  counting a response was elected by a member that had voted for the committed record. (A leader that is removing itself
  is left out: it counts by another rule.)\<close>

theorem odd_quorums_meet:
  assumes "\<not> exit_in_progress (leader s1)" and "w1 = record_vote u1 b1 tr1"
    and "get_commit_index (log E1) (n_log (snd (assess_one E1 u1 b1 i1 (k1, tr1) s1))) \<noteq> get_commit_index (log E1) (n_log s1)"
    and "\<not> exit_in_progress (leader s2)" and "w2 = record_vote u2 b2 tr2"
    and "get_commit_index (log E2) (n_log (snd (assess_one E2 u2 b2 i2 (k2, tr2) s2))) \<noteq> get_commit_index (log E2) (n_log s2)"
    and "role s3 = RoleCandidate" and "role (snd (on_vote_response E3 h b3 s3)) = RoleLeader"
    and "vs = dict_set (sender h) (Some b3) (votes (candidate s3))"
    and "odd (length (voters tr1))" and "distinct (voters tr1)" and "distinct (voters tr2)" and "dict_ok vs"
    and "set (voters tr2) = set (voters tr1)" and "set (dict_keys vs) = set (voters tr1)"
  shows "record_ayes w1 \<inter> record_ayes w2 \<noteq> {} \<and> record_ayes w1 \<inter> ayes vs \<noteq> {}"
proof -
  let ?M = "set (voters w1)"
  have vt: "voters w1 = voters tr1" "voters w2 = voters tr2" using assms(2,5) by (simp_all add: record_vote_def)
  have "length (voters w2) = length (voters w1)" using assms(11,12,14) vt by (metis distinct_card)
  then have w: "card ?M < 2 * card (record_ayes w2)" "record_ayes w2 \<subseteq> ?M"
    using odd_majority [of w2 "my_uri E2"] commit_needs_ayes [OF assms(4-6)] assms(10,12,14) vt by simp_all
  have "length vs = card ?M" using assms(13,15) vt distinct_card [of "dict_keys vs"] by simp
  moreover have "length vs < 2 * tally vs" using elected_has_majority [of s3 E3 h b3] assms(7-9) by simp
  ultimately have e: "card ?M < 2 * card (ayes vs)" "ayes vs \<subseteq> ?M"
    using assms(13,15) vt ayes_members [of vs] by (simp_all add: tally_card)
  have v: "card ?M < 2 * card (record_ayes w1)" "record_ayes w1 \<subseteq> ?M"
    using odd_majority [of w1 "my_uri E1"] commit_needs_ayes [OF assms(1-3)] assms(10,11) vt by simp_all
  have "record_ayes w1 \<inter> record_ayes w2 \<noteq> {}" "record_ayes w1 \<inter> ayes vs \<noteq> {}"
    by (rule majorities_share [of ?M]; use v w e in simp)+
  then show ?thesis by blast
qed

definition example_votes_for :: LogVoteTracker where
  "example_votes_for = \<lparr>lvt_log_rec = example_rec 2 1, voters = [''n1'', ''n2'', ''n3''], lvt_votes = [(''n1'', True)]\<rparr>"

text \<open>The example leader counting a vote: it commits when the count reaches the number needed.\<close>

lemma example_commit:
  assumes "lvt_log_rec tr = example_rec 2 1" and "w = record_vote u b tr" and "length (lvt_votes w) \<noteq> length (voters w)"
    and "win_count False w \<le> count_ayes False ''n1'' w"
  shows "\<exists>t. assess_one (example_env memory_api ''n1'') u b i (k, tr) example_leader = (Inr (), t) \<and>
     v_commit (mem_view (n_log t)) = 2"
proof -
  let ?E = "example_env memory_api ''n1''" and ?v = "mem_view (n_log example_leader)"
  have e: "v_ents ?v = [1 \<mapsto> example_rec 1 1, 2 \<mapsto> example_rec 2 1]"
    unfolding example_leader_simps by (rule example_view_simps(8))
  have "app_returns ?E" by (simp add: app_returns_def example_env_def run)
  moreover have "snap_base (v_snap ?v) \<le> v_applied ?v" "v_ents ?v (rec_index (lvt_log_rec tr)) = Some (content (lvt_log_rec tr))"
      "\<forall>i r. v_ents ?v i = Some r \<longrightarrow> code r \<noteq> cluster_config"
    unfolding e assms(1) using example_view_simps by (auto split: if_splits simp del: view_simps)
  moreover have "mem_inv (n_log example_leader)" "\<not> exit_in_progress (leader example_leader)" "my_uri ?E = ''n1''"
    using example_log_inv by (simp_all add: new_Leader_def example_env_def)
  ultimately obtain t where "assess_one ?E u b i (k, tr) example_leader = (Inr (), t)"
      "v_commit (mem_view (n_log t)) = max (rec_index (lvt_log_rec tr)) (v_commit ?v)"
    using log_client.record_committed [OF example_client _ _ _ _ _ _ assms(2,3)] assms(4) by metis
  then show ?thesis using example_view_simps assms(1) by (auto simp del: view_simps)
qed

lemma example_commit_moves:
  assumes "u = ''n2'' \<or> u = ''n3''"
  shows "get_commit_index (log (example_env memory_api ''n1''))
      (n_log (snd (assess_one (example_env memory_api ''n1'') u True 2 (2, example_votes_for) example_leader))) \<noteq>
    get_commit_index (log (example_env memory_api ''n1'')) (n_log example_leader)"
proof -
  have "lvt_log_rec example_votes_for = example_rec 2 1"
      "length (lvt_votes (record_vote u True example_votes_for)) \<noteq> length (voters (record_vote u True example_votes_for))"
      "win_count False (record_vote u True example_votes_for) \<le> count_ayes False ''n1'' (record_vote u True example_votes_for)"
    using assms by (auto simp: example_votes_for_def record_vote_def win_count_def half_up_def count_ayes_def)
  from example_commit [OF this(1) refl this(2,3), of 2 2] show ?thesis
    using example_view_simps by (auto simp: log_client.log_E [OF example_client])
qed

theorem odd_quorums_meet_witness:
  "record_ayes (record_vote ''n2'' True example_votes_for) \<inter> record_ayes (record_vote ''n3'' True example_votes_for) \<noteq> {} \<and>
   record_ayes (record_vote ''n2'' True example_votes_for) \<inter>
     ayes (dict_set ''n2'' (Some True) (votes (candidate (example_candidate ''n3'')))) \<noteq> {}"
  by (rule odd_quorums_meet [OF _ refl example_commit_moves _ refl example_commit_moves _ example_elected [of "''n3''"]])
    (simp_all add: example_votes_for_def new_Leader_def)

section \<open>Half of an even cluster\<close>

text \<open>C37. With an even number of members half of the votes already commit a record: as soon as the leader counts
  as many ayes as half of the members, with the rest still silent, the record is committed and applied.\<close>

theorem half_commits:
  assumes "log_client api I ents E" and "I (n_log s)" and "v = view api ents (n_log s)" and "app_returns E"
    and "snap_base (v_snap v) \<le> v_applied v" and "v_ents v (rec_index r) = Some (content r)"
    and "\<forall>i e. v_ents v i = Some e \<longrightarrow> code e \<noteq> cluster_config"
    and "\<not> exit_in_progress (leader s)" and "lvt_log_rec tr = r" and "tr' = record_vote u b tr"
    and "length (voters tr) = 2 * n" and "0 < n" and "count_ayes False (my_uri E) tr' = n" and "length (lvt_votes tr') = n"
  shows "\<exists>t. assess_one E u b i (k, tr) s = (Inr (), t) \<and> I (n_log t) \<and>
     v_commit (view api ents (n_log t)) = max (rec_index r) (v_commit v)"
proof -
  have "length (lvt_votes tr') \<noteq> length (voters tr')" "win_count False tr' \<le> count_ayes False (my_uri E) tr'"
    using assms(10-14) by (simp_all add: record_vote_def win_count_def half_up_def)
  from log_client.record_committed [OF assms(1,2,4) _ _ _ assms(8,10) this, of i k] assms(3,5-7,9) show ?thesis by simp
qed

definition example_four :: LogVoteTracker where
  "example_four = \<lparr>lvt_log_rec = example_rec 2 1, voters = [''n1'', ''n2'', ''n3'', ''n4''], lvt_votes = [(''n1'', True)]\<rparr>"

theorem half_commits_witness:
  "\<exists>t. assess_one (example_env memory_api ''n1'') ''n2'' True 2 (2, example_four) example_leader = (Inr (), t) \<and>
     v_commit (mem_view (n_log t)) = 2"
proof -
  let ?E = "example_env memory_api ''n1''" and ?v = "mem_view example_log"
  have e: "v_ents ?v = [1 \<mapsto> example_rec 1 1, 2 \<mapsto> example_rec 2 1]" by (rule example_view_simps(8))
  have inv: "mem_inv (n_log example_leader)" "?v = mem_view (n_log example_leader)" using example_log_inv by simp_all
  have app: "app_returns ?E" by (simp add: app_returns_def example_env_def run)
  have v: "snap_base (v_snap ?v) \<le> v_applied ?v" "v_ents ?v (rec_index (example_rec 2 1)) = Some (content (example_rec 2 1))"
      "\<forall>i r. v_ents ?v i = Some r \<longrightarrow> code r \<noteq> cluster_config"
    unfolding e example_view_simps by (auto split: if_splits)
  have "\<not> exit_in_progress (leader example_leader)" "lvt_log_rec example_four = example_rec 2 1"
      "length (voters example_four) = 2 * 2" "(0::nat) < 2"
      "count_ayes False (my_uri ?E) (record_vote ''n2'' True example_four) = 2"
      "length (lvt_votes (record_vote ''n2'' True example_four)) = 2"
    by (simp_all add: example_four_def record_vote_def count_ayes_def new_Leader_def)
  from half_commits [OF example_client inv app v this(1,2) refl this(3-6), of 2 2]
  obtain t where "assess_one ?E ''n2'' True 2 (2, example_four) example_leader = (Inr (), t)"
      "v_commit (mem_view (n_log t)) = max (rec_index (example_rec 2 1)) (v_commit ?v)" by blast
  then show ?thesis unfolding example_view_simps by (auto simp del: view_simps)
qed

end
