(* ===== verification/Deck_Props.thy ===== *)
theory Deck_Props
  imports Quorum_Props
begin

text \<open>
  The deck: an exception of a message's handler is recorded, a message that stays registered blocks all later ones,
  snapshots of the local log, what a caller of \<open>run_command\<close> finds when it looks, and the two ways leaders and
  followers take an application's error.
\<close>

section \<open>Arriving messages\<close>

lemma record_problem_run:
  "record_message_problem E p s = (Inr (), s\<lparr>deck := (deck s)\<lparr>message_problem_history := message_problem_history (deck s) @
     (if record_message_problems (local_config E) then [p] else [])\<rparr>\<rparr>)"
  by (simp add: record_message_problem_def run deck_mod_def)

text \<open>Handling a message that finds no other one active, in terms of what its role's handler does.\<close>

lemma inner_run:
  assumes "deck_active_messages (deck s) = []"
    and "handler m (s\<lparr>deck := (deck s)\<lparr>deck_active_messages := [(message_key m, m)]\<rparr>\<rparr>) = (r, t)"
  shows "\<exists>u. inner_on_message_with E handler m s = (Inr (), u) \<and> n_log u = n_log t \<and> outbox u = outbox t \<and> role u = role t \<and>
     message_key m \<notin> set (dict_keys (deck_active_messages (deck u))) \<and>
     message_problem_history (deck u) = message_problem_history (deck t) @
       (case r of Inl e \<Rightarrow> (if record_message_problems (local_config E) then [ProblemMessage m e] else []) | Inr _ \<Rightarrow> [])"
proof (cases r)
  case (Inl e)
  then show ?thesis using assms
    by (simp add: inner_on_message_with_def run_seqE run_bindE run_getsE run_tryE deck_mod_def run_modE
        emit_if_active_run record_problem_run dict_keys_del del: set_map)
next
  case (Inr x)
  then show ?thesis using assms
    by (simp add: inner_on_message_with_def run_seqE run_bindE run_getsE run_tryE deck_mod_def run_modE dict_keys_del del: set_map)
qed

lemma on_message_total: "fst (on_message E data s) = Inr ()"
  by (auto simp: on_message_def run_tryE run_seqE record_problem_run emit_if_active_run split: prod.split sum.split)

text \<open>Exceptions are contained: \<open>on_message\<close> raises none, and a message handled while no other is active is taken off the
  active ones at the end whatever its handler did; an exception of the handler becomes an entry of the problem history, and
  what the handler had done to the log stays done. This is what the two \<open>try\<close> blocks give; it does not say that the deck goes on
  (\<open>blocked_forever\<close> and \<open>error_answer_parts_cluster\<close> show two ways in which it does not).\<close>

theorem messages_contained:
  assumes "deck_active_messages (deck s) = []"
    and "role_on_message E m (s\<lparr>deck := (deck s)\<lparr>deck_active_messages := [(message_key m, m)]\<rparr>\<rparr>) = (r, t)"
  shows "fst (on_message E data s') = Inr () \<and>
     (\<exists>u. inner_on_message E m s = (Inr (), u) \<and> n_log u = n_log t \<and> outbox u = outbox t \<and>
        message_key m \<notin> set (dict_keys (deck_active_messages (deck u))) \<and>
        message_problem_history (deck u) = message_problem_history (deck t) @
          (case r of Inl e \<Rightarrow> (if record_message_problems (local_config E) then [ProblemMessage m e] else []) | Inr _ \<Rightarrow> []))"
  using on_message_total inner_run [where handler = "role_on_message E", OF assms]
  unfolding inner_on_message_def by blast

theorem messages_contained_witness:
  "\<exists>u. inner_on_message (example_env memory_api ''n1'') (RequestVoteMessage (example_hdr ''n2'' 0 2 1)) (example_node example_log) =
       (Inr (), u) \<and> v_voted (mem_view (n_log u)) = Some ''n2''"
proof -
  let ?m = "RequestVoteMessage (example_hdr ''n2'' 0 2 1)" and ?E = "example_env memory_api ''n1''"
  let ?s = "(example_node example_log)\<lparr>deck := (deck (example_node example_log))\<lparr>deck_active_messages := [(message_key ?m, ?m)]\<rparr>\<rparr>"
  have g: "grants (mem_view example_log) (example_hdr ''n2'' 0 2 1)"
    by (simp add: grants_def example_view_simps del: view_simps)
  obtain t where t: "on_vote_request ?E ?m (example_hdr ''n2'' 0 2 1) ?s = (Inr (), t)"
      "mem_view (n_log t) = (mem_view (n_log ?s))\<lparr>v_voted := Some ''n2''\<rparr>"
    using log_client.vote_decision [OF example_client, of ?s "''n1''" ?m "example_hdr ''n2'' 0 2 1"] example_log_inv
    by (auto simp: g simp del: view_simps)
  have tm: "get_term (log ?E) (n_log ?s) = 0" using example_view_simps(3) by simp
  have "role_on_message ?E ?m ?s = on_vote_request ?E ?m (example_hdr ''n2'' 0 2 1) ?s"
    using tm by (simp add: role_on_message_def run_bindE run_getsE follower_on_message_def base_on_message_def log_get_run
        route_def follower_routes_def example_node_def new_node_def new_Follower_def run_ret)
  with t(1) have "role_on_message ?E ?m ?s = (Inr (), t)" by simp
  moreover have "deck_active_messages (deck (example_node example_log)) = []"
    by (simp add: example_node_def new_node_def new_Deck_def)
  ultimately obtain u where "inner_on_message ?E ?m (example_node example_log) = (Inr (), u)" "n_log u = n_log t"
    using messages_contained [of "example_node example_log" ?E ?m "Inr ()" t] by blast
  with t(2) show ?thesis by (auto simp del: view_simps)
qed

section \<open>A blocked deck\<close>

text \<open>One message after another, as tasks.\<close>

fun run_messages :: "('l, 'a) env \<Rightarrow> message list \<Rightarrow> ('l, 'a) node \<Rightarrow> (exn + unit) list \<times> ('l, 'a) node" where
  "run_messages E [] s = ([], s)"
| "run_messages E (m # ms) s = (case inner_on_message E m s of (r, t) \<Rightarrow>
     (case run_messages E ms t of (rs, u) \<Rightarrow> (r # rs, u)))"

lemma inner_blocked:
  assumes "dict_get (deck_active_messages (deck s)) k = Some x" and "k \<noteq> message_key m"
  shows "inner_on_message E m s = (Inl MessageWaitTimeout, s\<lparr>deck := (deck s)\<lparr>deck_active_messages :=
     dict_set (message_key m) m (deck_active_messages (deck s))\<rparr>\<rparr>)"
proof -
  let ?d = "dict_set (message_key m) m (deck_active_messages (deck s))"
  have "{k, message_key m} \<subseteq> set (dict_keys ?d)"
    using assms(1) by (auto simp: dict_keys_set dest: map_of_SomeD intro: rev_image_eqI)
  then have "card {k, message_key m} \<le> card (set (dict_keys ?d))" by (intro card_mono) auto
  also have "\<dots> \<le> length ?d" using card_length [of "dict_keys ?d"] by simp
  finally have "1 < length ?d" using assms(2) by simp
  then show ?thesis
    by (simp add: inner_on_message_def inner_on_message_with_def run_seqE run_bindE run_getsE deck_mod_def run_modE run_throw)
qed

lemma run_blocked:
  assumes "dict_get (deck_active_messages (deck s)) k = Some x" and "k \<notin> message_key ` set ms"
  shows "\<exists>t. run_messages E ms s = (replicate (length ms) (Inl MessageWaitTimeout), t) \<and> n_log t = n_log s \<and>
     role t = role s \<and> outbox t = outbox s \<and> dict_get (deck_active_messages (deck t)) k = Some x \<and>
     dom (dict_get (deck_active_messages (deck s))) \<union> message_key ` set ms \<subseteq> dom (dict_get (deck_active_messages (deck t)))"
  using assms
proof (induction ms arbitrary: s)
  case (Cons m ms)
  let ?t = "s\<lparr>deck := (deck s)\<lparr>deck_active_messages := dict_set (message_key m) m (deck_active_messages (deck s))\<rparr>\<rparr>"
  have k: "k \<noteq> message_key m" "k \<notin> message_key ` set ms" using Cons.prems(2) by auto
  have "dict_get (deck_active_messages (deck ?t)) k = Some x" using Cons.prems(1) k(1) by simp
  from Cons.IH [OF this k(2)] obtain t where
    t: "run_messages E ms ?t = (replicate (length ms) (Inl MessageWaitTimeout), t)" "n_log t = n_log ?t" "role t = role ?t"
      "outbox t = outbox ?t" "dict_get (deck_active_messages (deck t)) k = Some x"
      "dom (dict_get (deck_active_messages (deck ?t))) \<union> message_key ` set ms \<subseteq> dom (dict_get (deck_active_messages (deck t)))"
    by blast
  have "insert (message_key m) (dom (dict_get (deck_active_messages (deck s)))) \<subseteq> dom (dict_get (deck_active_messages (deck ?t)))"
    by (auto split: if_splits)
  with t(6) have "dom (dict_get (deck_active_messages (deck s))) \<union> message_key ` set (m # ms) \<subseteq>
      dom (dict_get (deck_active_messages (deck t)))" unfolding list.set(2) image_insert by blast
  with t inner_blocked [OF Cons.prems(1) k(1)] show ?case by simp
qed simp

text \<open>A message that stays registered blocks the deck for good: every other message times out behind it, is not handled
  (log, role and outbox stay as they are) and stays registered too; nothing ever removes them.\<close>

theorem blocked_forever:
  assumes "dict_get (deck_active_messages (deck s)) k = Some x" and "k \<notin> message_key ` set ms"
  shows "\<exists>t. run_messages E ms s = (replicate (length ms) (Inl MessageWaitTimeout), t) \<and> n_log t = n_log s \<and>
     role t = role s \<and> outbox t = outbox s \<and> dict_get (deck_active_messages (deck t)) k = Some x \<and>
     (\<forall>m \<in> set ms. message_key m \<in> set (dict_keys (deck_active_messages (deck t))))"
  using run_blocked [OF assms, of E] unfolding dict_keys_dom by blast

theorem blocked_forever_witness:
  "\<exists>t. run_messages (example_env memory_api ''n1'') [RequestVoteMessage (example_hdr ''n2'' 0 2 1)]
      ((example_node example_log)\<lparr>deck := new_Deck\<lparr>deck_active_messages := [((''n3'', 1), RequestVoteMessage (example_hdr ''n3'' 0 2 1))]\<rparr>\<rparr>) =
      ([Inl MessageWaitTimeout], t) \<and> n_log t = example_log"
  using blocked_forever [of "(example_node example_log)\<lparr>deck := new_Deck\<lparr>deck_active_messages :=
        [((''n3'', 1), RequestVoteMessage (example_hdr ''n3'' 0 2 1))]\<rparr>\<rparr>" "(''n3'', 1)"
      "RequestVoteMessage (example_hdr ''n3'' 0 2 1)" "[RequestVoteMessage (example_hdr ''n2'' 0 2 1)]" "example_env memory_api ''n1''"]
  by (auto simp: message_key_def simp del: run_messages.simps)

section \<open>Snapshots of the local log\<close>

context log_client
begin

lemma role_stop_run:
  assumes "ok s"
  shows "\<exists>t. role_stop E s = (Inr (), t) \<and> ok t \<and> lv t = (lv s)\<lparr>v_voted := None\<rparr> \<and> n_app t = n_app s \<and> outbox t = outbox s"
proof -
  obtain l where "log_do (set_voted_for (log E) None) s = (Inr (), s\<lparr>n_log := l\<rparr>)" "inv l"
      "view api ents l = (lv s)\<lparr>v_voted := None\<rparr>" using do_set_voted [OF assms] by blast
  then show ?thesis by (cases "role s"; simp add: role_stop_def set_role_stopped_def run)
qed

lemma do_install: "ok s \<Longrightarrow> can_install sn (lv s) \<Longrightarrow>
    \<exists>l. log_do (install_snapshot (log E) sn) s = (Inr (), s\<lparr>n_log := l\<rparr>) \<and> inv l \<and> view api ents l = snapshot_view sn (lv s)"
  using install_law log_do_run unfolding log_E by metis

lemma snapshot_made:
  assumes "ok s" and "v_config (lv s) = Some c" and "snap_base (v_snap (lv s)) < v_applied (lv s)" and "v_applied (lv s) \<le> v_last (lv s)"
    and "ents (n_log s) (v_applied (lv s)) = Some r"
    and "create_snapshot E (v_applied (lv s)) (rec_term r) (n_app s) = (Inr sn, a)"
    and "snap_index sn = v_applied (lv s)" and "snap_term sn = rec_term r" and "rec_term r \<le> v_last_term (lv s)"
  shows "\<exists>t. make_snapshot E s = (Inr sn, t) \<and> ok t \<and> lv t = snapshot_view sn ((lv s)\<lparr>v_voted := None\<rparr>) \<and> role t = RoleFollower \<and>
     n_app t = a \<and> (\<exists>p \<in> set (timers t). snd (snd p) = RoleAfterRunner ContactChecker)"
proof -
  let ?i = "v_applied (lv s)" and ?v = "(lv s)\<lparr>v_voted := None\<rparr>"
  obtain s1 where s1: "role_stop E s = (Inr (), s1)" "ok s1" "lv s1 = ?v" "n_app s1 = n_app s"
    using role_stop_run [OF assms(1)] by blast
  have i1: "1 \<le> ?i" using last_nonneg [OF assms(1)] assms(3) by simp
  have e1: "ents (n_log s1) = ents (n_log s)" "get_applied_index api (n_log s1) = ?i" using viewD [OF s1(3)] by simp_all
  obtain l x where l: "read_rec E ?i s1 = (Inr x, s1\<lparr>n_log := l\<rparr>)" "inv l" "view api ents l = ?v" "content x = r"
    using read_rec_some [OF s1(2) i1, of r] assms(5) e1(1) unfolding s1(3) by auto
  have x: "rec_term x = rec_term r" using l(4) by auto
  let ?s2 = "s1\<lparr>n_log := l, n_app := a\<rparr>"
  have inst: "can_install sn (lv ?s2)"
    using assms(3,7-9) i1 by (simp add: can_install_def l(3) del: view_simps)
  obtain l' where l': "log_do (install_snapshot (log E) sn) ?s2 = (Inr (), ?s2\<lparr>n_log := l'\<rparr>)" "inv l'"
      "view api ents l' = snapshot_view sn ?v"
    using do_install [OF _ inst] l(2,3) by (auto simp del: view_simps)
  let ?s3 = "?s2\<lparr>n_log := l', role := RoleFollower, follower := new_Follower (now s1)\<rparr>"
  have c3: "v_config (lv ?s3) = Some c" using assms(2) by (simp add: l'(3) snapshot_view_def del: view_simps)
  obtain t where t: "follower_start E ?s3 = (Inr (), t)" "n_log t = l'" "role t = RoleFollower" "n_app t = a"
      "\<exists>p \<in> set (timers t). snd (snd p) = RoleAfterRunner ContactChecker"
    using follower_start_run [OF c3] by auto
  have "make_snapshot E s = (Inr sn, t)"
    using s1(1,4) l(1) l'(1) t(1) assms(6) e1(2) x
    by (simp add: make_snapshot_def run_seqE run_bindE log_get_run log_E app_do_def run_zoomE run_modE run_ret)
  with t l' show ?thesis by auto
qed

end

text \<open>A snapshot taken by a node that is not the leader covers exactly what is applied: it is installed in the log at the
  applied index, the records up to there are gone and those after it remain, and the node goes on as a running follower.\<close>

theorem local_snapshot:
  assumes "log_client api I ents E" and "I (n_log s)" and "v = view api ents (n_log s)" and "v_config v = Some c" and "role s \<noteq> RoleLeader"
    and "snap_base (v_snap v) < v_applied v" and "v_applied v \<le> v_last v" and "v_ents v (v_applied v) = Some r"
    and "create_snapshot E (v_applied v) (rec_term r) (n_app s) = (Inr sn, a)"
    and "snap_index sn = v_applied v" and "snap_term sn = rec_term r" and "rec_term r \<le> v_last_term v"
  shows "\<exists>t. take_snapshot_turn E start limit s = (Inr (Some sn), t) \<and> I (n_log t) \<and> role t = RoleFollower \<and>
     get_snapshot api (n_log t) = Some sn \<and> ents (n_log t) = (\<lambda>i. if v_applied v < i then ents (n_log s) i else None) \<and>
     v_last (view api ents (n_log t)) = v_last v \<and> (\<exists>p \<in> set (timers t). snd (snd p) = RoleAfterRunner ContactChecker)"
proof -
  have p: "v_config (view api ents (n_log s)) = Some c" "snap_base (v_snap (view api ents (n_log s))) < v_applied (view api ents (n_log s))"
      "v_applied (view api ents (n_log s)) \<le> v_last (view api ents (n_log s))" "ents (n_log s) (v_applied (view api ents (n_log s))) = Some r"
      "create_snapshot E (v_applied (view api ents (n_log s))) (rec_term r) (n_app s) = (Inr sn, a)"
      "snap_index sn = v_applied (view api ents (n_log s))" "rec_term r \<le> v_last_term (view api ents (n_log s))"
    using assms(3,4,6-12) by auto
  obtain t where t: "make_snapshot E s = (Inr sn, t)" "I (n_log t)" "view api ents (n_log t) = snapshot_view sn (v\<lparr>v_voted := None\<rparr>)"
      "role t = RoleFollower" "\<exists>p \<in> set (timers t). snd (snd p) = RoleAfterRunner ContactChecker"
    using log_client.snapshot_made [OF assms(1,2) p(1-6) assms(11) p(7)] unfolding assms(3) by blast
  have q: "get_snapshot api (n_log t) = Some sn" "ents (n_log t) = (\<lambda>i. if v_applied v < i then ents (n_log s) i else None)"
    using log_client.viewD [OF assms(1) t(3)] assms(3,10) by (simp_all add: snapshot_view_def cong: if_cong)
  moreover have "v_last (view api ents (n_log t)) = v_last v" unfolding t(3) using assms(7,10) by (simp add: snapshot_view_def)
  moreover have "take_snapshot_turn E start limit s = (Inr (Some sn), t)"
    using assms(5) t(1) by (simp add: take_snapshot_turn_def run)
  ultimately show ?thesis using t by blast
qed

text \<open>The example node with its first record applied.\<close>

definition example_applied :: "(MemoryLog, unit) node" where
  "example_applied = example_node (snd (mark_applied memory_api 1 example_member_log))"

theorem local_snapshot_witness:
  "\<exists>t. take_snapshot_turn (example_env memory_api ''n1'') 0 2 example_applied = (Inr (Some \<lparr>snap_index = 1, snap_term = 1\<rparr>), t) \<and>
     mem_ents (n_log t) 1 = None \<and> mem_ents (n_log t) 2 = Some (example_rec 2 1)"
proof -
  let ?v = "mem_view (n_log example_applied)" and ?E = "example_env memory_api ''n1''" and ?sn = "\<lparr>snap_index = 1, snap_term = 1\<rparr>"
  obtain c0 where c0: "mem_view example_member_log = (mem_view example_log)\<lparr>v_config := Some c0\<rparr>" using example_member_view by blast
  have a0: "v_applied (mem_view example_member_log) = 0" unfolding c0 by (simp add: example_view_simps del: view_simps)
  have inv: "mem_inv (n_log example_applied)" and "?v = (mem_view example_member_log)\<lparr>v_applied := max 1 (v_applied (mem_view example_member_log))\<rparr>"
    using mem.mark_applied_law [OF example_member_log_inv, of 1] by (auto simp: example_applied_def)
  then have v: "?v = (mem_view example_log)\<lparr>v_config := Some c0, v_applied := 1\<rparr>" unfolding a0 unfolding c0 by simp
  have "v_config ?v = Some c0" "role example_applied \<noteq> RoleLeader" "snap_base (v_snap ?v) < v_applied ?v" "v_applied ?v \<le> v_last ?v"
      "v_ents ?v (v_applied ?v) = Some (example_rec 1 1)"
      "create_snapshot ?E (v_applied ?v) (rec_term (example_rec 1 1)) (n_app example_applied) = (Inr ?sn, n_app example_applied)"
      "snap_index ?sn = v_applied ?v" "snap_term ?sn = rec_term (example_rec 1 1)" "rec_term (example_rec 1 1) \<le> v_last_term ?v"
    unfolding v by (simp_all add: example_view_simps example_applied_def example_node_def new_node_def example_env_def run del: view_simps)
  from local_snapshot [OF example_client inv refl this, of 0 2] obtain t where
    t: "take_snapshot_turn ?E 0 2 example_applied = (Inr (Some ?sn), t)"
      "mem_ents (n_log t) = (\<lambda>i. if v_applied ?v < i then mem_ents (n_log example_applied) i else None)" by blast
  have "v_applied ?v = 1" "mem_ents (n_log example_applied) 2 = Some (example_rec 2 1)"
    using arg_cong [OF v, of v_applied] arg_cong [OF v, of v_ents] example_view_simps(8) by simp_all
  with t show ?thesis by simp
qed

section \<open>Errors of the application\<close>

context log_client
begin

lemma role_stopped_frame [simp]:
  "role_stopped (s\<lparr>deck := d\<rparr>) = role_stopped s" "role_stopped (s\<lparr>n_app := a, n_log := l\<rparr>) = role_stopped s"
  by (cases "role s"; simp add: role_stopped_def)+

lemma deck_stop_run:
  assumes "ok s"
  shows "\<exists>t. deck_stop E False s = (Inr (), t) \<and> ok t \<and> lv t = (lv s)\<lparr>v_voted := None\<rparr> \<and> role_stopped t \<and> n_app t = n_app s"
proof -
  obtain t where "stop_role E s = (Inr (), t)" "ok t" "lv t = (lv s)\<lparr>v_voted := None\<rparr>" "role_stopped t" "n_app t = n_app s"
    using stop_role_run [OF assms] by blast
  then show ?thesis by (auto simp: deck_stop_def run deck_mod_def)
qed

lemma follower_breaks:
  assumes "ok s" and "process_command E (command r) (serial r) (n_app s) = (Inr (res, Some (Str x)), a)" and "x \<noteq> []"
    and "\<not> f_commands_idempotent (follower s)"
  shows "\<exists>t. process_command_record E r s = (Inr (), t) \<and> ok t \<and> lv t = (lv s)\<lparr>v_broken := True, v_voted := None\<rparr> \<and>
     role_stopped t \<and> n_app t = a"
proof -
  have x: "text_true (Some (Str x))" using assms(3) by (cases x) auto
  let ?s = "s\<lparr>n_app := a\<rparr>"
  obtain l where l: "log_do (set_broken (log E)) ?s = (Inr (), ?s\<lparr>n_log := l\<rparr>)" "inv l" "view api ents l = (lv s)\<lparr>v_broken := True\<rparr>"
    using do_set_broken [of ?s] assms(1) by auto
  obtain t where t: "deck_stop E False (?s\<lparr>n_log := l\<rparr>) = (Inr (), t)" "ok t" "lv t = (lv s)\<lparr>v_broken := True, v_voted := None\<rparr>"
      "role_stopped t" "n_app t = a"
    using deck_stop_run [of "?s\<lparr>n_log := l\<rparr>"] l(2,3) by (auto simp del: view_simps)
  have "process_command_record E r s = (Inr (), t)"
    using assms(2,4) x l(1) t(1) by (simp add: process_command_record_def run app_do_def)
  with t show ?thesis by blast
qed

lemma leader_applies:
  assumes "ok s" and "process_command E (command r) (serial r) (n_app s) = (Inr (res, err), a)"
  shows "\<exists>t. run_command_locally E r s = (Inr (), t) \<and> ok t \<and> lv t = (lv s)\<lparr>v_applied := max (rec_index r) (v_applied (lv s))\<rparr> \<and>
     role_stopped t = role_stopped s \<and> n_app t = a"
proof -
  let ?s = "s\<lparr>n_app := a\<rparr>"
  obtain l where l: "log_do (mark_applied (log E) (rec_index r)) ?s = (Inr (), ?s\<lparr>n_log := l\<rparr>)" "inv l"
      "view api ents l = (lv s)\<lparr>v_applied := max (rec_index r) (v_applied (lv s))\<rparr>"
    using do_applied [of ?s "rec_index r"] assms(1) by auto
  then show ?thesis using assms(2)
    by (cases "role s") (auto simp: run_command_locally_def run app_do_def report_command_result_def leader_mod_def role_stopped_def
        split: option.split)
qed

end

text \<open>C39. A command that the application answers with an error parts leader and followers: the leader records it as applied and
  goes on, while a follower on which it gives the same answer marks its log broken, stops, and does not record it.\<close>

theorem error_answer_parts_cluster:
  assumes "log_client api I ents E" and "I (n_log s)" and "process_command E (command r) (serial r) (n_app s) = (Inr (res, Some (Str x)), a)"
    and "log_client api' I' ents' E'" and "I' (n_log f)" and "process_command E' (command r) (serial r) (n_app f) = (Inr (res, Some (Str x)), a')"
    and "x \<noteq> []" and "\<not> f_commands_idempotent (follower f)"
  shows "\<exists>t f'. run_command_locally E r s = (Inr (), t) \<and> rec_index r \<le> v_applied (view api ents (n_log t)) \<and>
     v_broken (view api ents (n_log t)) = v_broken (view api ents (n_log s)) \<and> role_stopped t = role_stopped s \<and>
     process_command_record E' r f = (Inr (), f') \<and> v_applied (view api' ents' (n_log f')) = v_applied (view api' ents' (n_log f)) \<and>
     v_broken (view api' ents' (n_log f')) \<and> role_stopped f'"
proof -
  obtain t where t: "run_command_locally E r s = (Inr (), t)"
      "view api ents (n_log t) = (view api ents (n_log s))\<lparr>v_applied := max (rec_index r) (v_applied (view api ents (n_log s)))\<rparr>"
      "role_stopped t = role_stopped s"
    using log_client.leader_applies [OF assms(1-3)] by blast
  obtain f' where f': "process_command_record E' r f = (Inr (), f')"
      "view api' ents' (n_log f') = (view api' ents' (n_log f))\<lparr>v_broken := True, v_voted := None\<rparr>" "role_stopped f'"
    using log_client.follower_breaks [OF assms(4-8)] by blast
  have "rec_index r \<le> v_applied (view api ents (n_log t))" "v_broken (view api ents (n_log t)) = v_broken (view api ents (n_log s))"
      "v_applied (view api' ents' (n_log f')) = v_applied (view api' ents' (n_log f))" "v_broken (view api' ents' (n_log f'))"
    unfolding t(2) f'(2) by simp_all
  with t f' show ?thesis by blast
qed

definition failing_env :: "uri \<Rightarrow> (MemoryLog, unit) env" where
  "failing_env me = (example_env memory_api me)\<lparr>process_command := (\<lambda>c n. ret (None, Some (Str ''no'')))\<rparr>"

theorem error_answer_parts_cluster_witness:
  "\<exists>t f'. run_command_locally (failing_env ''n1'') (example_rec 2 1) example_leader = (Inr (), t) \<and> 2 \<le> v_applied (mem_view (n_log t)) \<and>
     process_command_record (failing_env ''n2'') (example_rec 2 1) (example_node example_log) = (Inr (), f') \<and>
     v_broken (mem_view (n_log f'))"
proof -
  have c: "log_client memory_api mem_inv mem_ents (failing_env me)" for me by unfold_locales (simp add: failing_env_def)
  have p: "process_command (failing_env me) k n a = (Inr (None, Some (Str ''no'')), a)" for me k n a by (simp add: failing_env_def run)
  have i: "mem_inv (n_log example_leader)" "mem_inv (n_log (example_node example_log))" using example_log_inv by simp_all
  have "\<not> f_commands_idempotent (follower (example_node example_log))" by (simp add: example_node_def new_node_def new_Follower_def)
  from error_answer_parts_cluster [OF c [of "''n1''"] i(1) p c [of "''n2''"] i(2) p _ this, of "example_rec 2 1"] show ?thesis
    by (auto simp del: view_simps)
qed

section \<open>Waiting callers\<close>

text \<open>What one look of a waiting caller gives: past its limit it gets an answer, and after the notification of a demotion it is
  redirected to the leader that is on record at that moment, or told to retry when there is none. When the looks happen
  is up to \<open>asyncio.wait_for\<close>.\<close>

theorem callers_released:
  assumes "dict_get (command_recs (leader s)) i = Some c"
  shows "(limit \<le> now s - start \<longrightarrow> (\<exists>res t. command_turn cmd i start limit s = (Inr (Some res), t) \<and> i \<notin> set (active_commands (leader t)))) \<and>
     (i \<in> set (active_commands (leader s)) \<and> dict_ok (command_recs (leader s)) \<longrightarrow>
      (\<exists>s' t. notify_pending_commands_on_demotion s = (Inr (), s') \<and> active_commands (leader s') = [] \<and>
         command_turn cmd i start limit (s'\<lparr>role := RoleFollower\<rparr>) = (Inr (Some (redirected cmd (leader_uri (ops s)))), t)))"
proof -
  have "\<exists>res t. command_turn cmd i start limit s = (Inr (Some res), t) \<and> i \<notin> set (active_commands (leader t))"
    if "limit \<le> now s - start"
    using assms that by (simp add: command_turn_def await_command_def run leader_mod_def retire_command_def Let_def)
  moreover have "dict_get (map (\<lambda>(i, c). (i, g i c)) d) i = map_option (g i) (dict_get d i)" for g :: "int \<Rightarrow> command_rec \<Rightarrow> command_rec" and d
    by (induction d) auto
  ultimately show ?thesis
    using assms by (auto simp: notify_pending_commands_on_demotion_def command_turn_def await_command_def run leader_mod_def Let_def)
qed

theorem callers_released_witness:
  "\<exists>s' t. notify_pending_commands_on_demotion example_waiting = (Inr (), s') \<and>
     command_turn (Some (Str ''add 1'')) 2 0 1 (s'\<lparr>role := RoleFollower\<rparr>) = (Inr (Some (redirected (Some (Str ''add 1'')) None)), t)"
proof -
  have "dict_get (command_recs (leader example_waiting)) 2 = Some (waiting_command 7 (example_rec 2 1))"
      "2 \<in> set (active_commands (leader example_waiting))" "dict_ok (command_recs (leader example_waiting))"
      "leader_uri (ops example_waiting) = None"
    by (simp_all add: example_waiting_def example_leader_def new_ClusterOps_def)
  with callers_released [of example_waiting 2 "waiting_command 7 (example_rec 2 1)" 1 0 "Some (Str ''add 1'')"] show ?thesis by auto
qed

end
