(* ===== verification/Suspension_Props.thy ===== *)
theory Suspension_Props
  imports Deck_Props
begin

text \<open>
  What a campaign does when it is interrupted. The steps of \<open>Deck\<close>'s event loop run a method to its end, which
  is what happens when the pilot's \<open>send_message\<close> returns without waiting, as in the simulated servers, where it appends
  to a queue. A pilot that waits for the network suspends \<open>Candidate.start_campaign_base\<close> inside its loop of vote
  requests, and the event loop goes on. Here the method is cut at one such send: \<open>campaign_part\<close> is what has run up
  to it and \<open>campaign_rest\<close> what runs when the send comes back. A candidate that has been demoted meanwhile still
  arms its election timer, and its outdated term is written over the newer one.
\<close>

section \<open>A campaign cut at a send\<close>

definition campaign_part :: "('l, 'a) env \<Rightarrow> uri list \<Rightarrow> ('l, 'a, unit) act" where
  "campaign_part E us =
     seqE (record_op_detail start_election)
     (seqE (candidate_mod (\<lambda>c. c\<lparr>c_term := c_term c + 1\<rparr>))
     (bindE (getsE (\<lambda>s. c_term (candidate s))) (\<lambda>t.
     seqE (deck_set_term E t)
     (seqE (candidate_mod (\<lambda>c. c\<lparr>c_reply_count := 0\<rparr>))
     (request_votes E us)))))"

definition campaign_rest :: "('l, 'a) env \<Rightarrow> uri list \<Rightarrow> ('l, 'a, unit) act" where
  "campaign_rest E us = seqE (request_votes E us)
     (bindE (get_election_timeout E) (\<lambda>d. role_run_after d ElectionTimedOut))"

text \<open>Without anything in between the two parts are the method.\<close>

lemma campaign_split:
  assumes "current_config (ops s) = Some c" and "dict_keys (nodes c) = us @ vs"
  shows "start_campaign_base E s = seqE (campaign_part E us) (campaign_rest E vs) s"
proof -
  have "request_votes E (us @ vs) = seqE (request_votes E us) (request_votes E vs)"
    by (simp add: request_votes_def forE_append)
  then show ?thesis
    using assms by (simp add: start_campaign_base_def campaign_part_def campaign_rest_def get_cluster_node_ids_def deck_set_term_def
        log_do_def candidate_mod_def run emit_if_active_run split: prod.split sum.split)
qed

text \<open>Asking for votes touches the candidate's votes, the serial numbers, the outbox and the tasks.\<close>

definition vote_frame :: "('l, 'a) node \<Rightarrow> ('l, 'a) node \<Rightarrow> bool" where
  "vote_frame s t \<longleftrightarrow> n_log t = n_log s \<and> role t = role s \<and> follower t = follower s \<and> deck t = deck s \<and> ops t = ops s \<and>
     now t = now s \<and> c_term (candidate t) = c_term (candidate s) \<and> c_stopped (candidate t) = c_stopped (candidate s) \<and>
     c_use_pre_vote (candidate t) = c_use_pre_vote (candidate s)"

lemma request_votes_run: "\<exists>t. request_votes E us s = (Inr (), t) \<and> vote_frame s t"
proof (induction us arbitrary: s)
  case Nil
  show ?case by (simp add: request_votes_def run vote_frame_def)
next
  case (Cons u us)
  obtain s1 where s1: "request_votes E [u] s = (Inr (), s1)" "vote_frame s s1"
    by (cases "u = my_uri E")
      (simp_all add: request_votes_def run candidate_mod_def mk_log_hdr_def send_message_def log_get_run vote_frame_def)
  obtain t where t: "request_votes E us s1 = (Inr (), t)" "vote_frame s1 t" using Cons by blast
  have "request_votes E (u # us) = seqE (request_votes E [u]) (request_votes E us)"
    unfolding request_votes_def by (metis append_Cons append_Nil forE_append)
  with s1 t show ?case by (auto simp: run_seqE vote_frame_def)
qed

text \<open>A message that finds no other one active is handled and deregistered; the follower handles it under the same key.\<close>

lemma inner_with_run:
  assumes "deck_active_messages (deck s) \<in> {[], [(message_key m, m)]}"
    and "handler m (s\<lparr>deck := (deck s)\<lparr>deck_active_messages := [(message_key m, m)]\<rparr>\<rparr>) = (Inr (), t)"
  shows "inner_on_message_with E handler m s =
     (Inr (), t\<lparr>deck := (deck t)\<lparr>deck_active_messages := dict_del (message_key m) (deck_active_messages (deck t))\<rparr>\<rparr>)"
  using assms by (auto simp: inner_on_message_with_def deck_mod_def run)

lemma active_same: "deck_active_messages (deck s) = a \<Longrightarrow> s\<lparr>deck := (deck s)\<lparr>deck_active_messages := a\<rparr>\<rparr> = s"
  by auto

text \<open>The send in which the method is cut.\<close>

lemma request_votes_last:
  assumes "w \<noteq> my_uri E"
  shows "\<exists>data n. last (outbox (snd (request_votes E (us @ [w]) s))) = SendMessage (Some w) data n"
proof -
  obtain s1 where s1: "request_votes E us s = (Inr (), s1)" "vote_frame s s1" using request_votes_run by blast
  have "request_votes E (us @ [w]) s = request_votes E [w] s1"
    using s1(1) by (simp add: request_votes_def forE_append run_seqE)
  then show ?thesis
    using assms by (simp add: request_votes_def run candidate_mod_def mk_log_hdr_def send_message_def log_get_run)
qed

context log_client
begin

lemma part_run:
  assumes "ok s"
  shows "\<exists>t. campaign_part E us s = (Inr (), t) \<and> ok t \<and> lv t = (lv s)\<lparr>v_term := c_term (candidate s) + 1\<rparr> \<and> role t = role s \<and>
     follower t = follower s \<and> deck t = deck s \<and> ops t = ops s \<and> c_term (candidate t) = c_term (candidate s) + 1 \<and>
     c_stopped (candidate t) = c_stopped (candidate s) \<and> c_use_pre_vote (candidate t) = c_use_pre_vote (candidate s) \<and>
     (us = xs @ [w] \<and> w \<noteq> my_uri E \<longrightarrow> (\<exists>data n. last (outbox t) = SendMessage (Some w) data n))"
proof -
  let ?n = "c_term (candidate s) + 1"
  obtain l where l: "set_term (log E) ?n (n_log s) = (Inr (), l)" "inv l" "view api ents l = (lv s)\<lparr>v_term := ?n\<rparr>"
    using set_term_law [OF assms, of ?n] unfolding log_E by blast
  have "\<exists>v. campaign_part E us s = request_votes E us v \<and> n_log v = l \<and> role v = role s \<and> follower v = follower s \<and>
      deck v = deck s \<and> ops v = ops s \<and> candidate v = (candidate s)\<lparr>c_term := ?n, c_reply_count := 0\<rparr>"
    using l(1) unfolding campaign_part_def
    by (simp add: candidate_mod_def deck_set_term_def log_do_def run split del: if_split)
      (rule exI, rule conjI, rule refl, simp)
  then obtain v where v: "campaign_part E us s = request_votes E us v" "n_log v = l" "role v = role s" "follower v = follower s"
      "deck v = deck s" "ops v = ops s" "candidate v = (candidate s)\<lparr>c_term := ?n, c_reply_count := 0\<rparr>" by blast
  obtain t where t: "request_votes E us v = (Inr (), t)" "vote_frame v t" using request_votes_run by blast
  with v l request_votes_last [of w E xs v] show ?thesis by (auto simp: vote_frame_def)
qed

lemma rest_run:
  assumes "v_config (lv s) = Some c"
  shows "\<exists>t i due. campaign_rest E us s = (Inr (), t) \<and> n_log t = n_log s \<and> role t = role s \<and> follower t = follower s \<and>
     joining_cluster (deck t) = joining_cluster (deck s) \<and> current_config (ops t) = Some c \<and>
     c_term (candidate t) = c_term (candidate s) \<and> c_use_pre_vote (candidate t) = c_use_pre_vote (candidate s) \<and>
     (i, due, RoleAfterRunner ElectionTimedOut) \<in> set (timers t)"
proof -
  obtain s1 where s1: "request_votes E us s = (Inr (), s1)" "vote_frame s s1" using request_votes_run by blast
  have c1: "v_config (lv s1) = Some c" using s1(2) assms by (simp add: vote_frame_def)
  let ?d = "uniform E (draws s1) (election_timeout_min (settings c)) (election_timeout_max (settings c))"
  let ?s = "s1\<lparr>ops := (ops s1)\<lparr>current_config := Some c\<rparr>, draws := Suc (draws s1)\<rparr>"
  obtain t where t: "role_run_after ?d ElectionTimedOut ?s = (Inr (), t)" "timer_frame ?s t"
      "(next_timer ?s, now ?s + ?d, RoleAfterRunner ElectionTimedOut) \<in> set (timers t)"
    using role_run_after_armed by blast
  have "campaign_rest E us s = (Inr (), t)"
    using s1(1) election_timeout_run [OF c1] t(1) by (simp add: campaign_rest_def run_seqE run_bindE)
  moreover have "joining_cluster (deck t) = joining_cluster (deck s)"
    using t(2) s1(2) by (auto simp: timer_frame_def vote_frame_def)
  ultimately show ?thesis using timer_frameD [OF t(2)] t(3) s1(2) by (fastforce simp: vote_frame_def)
qed

lemma campaign_run:
  assumes "ok s" and "v_config (lv s) = Some c" and "current_config (ops s) = Some c"
  shows "\<exists>t. start_campaign_base E s = (Inr (), t) \<and> ok t \<and> role t = role s \<and> v_term (lv t) = c_term (candidate s) + 1"
proof -
  obtain s1 where s1: "campaign_part E (dict_keys (nodes c)) s = (Inr (), s1)" "ok s1" "lv s1 = (lv s)\<lparr>v_term := c_term (candidate s) + 1\<rparr>"
      "role s1 = role s"
    using part_run [OF assms(1)] by blast
  have c1: "v_config (lv s1) = Some c" using s1(3) assms(2) by (simp del: view_simps)
  obtain t where t: "campaign_rest E [] s1 = (Inr (), t)" "n_log t = n_log s1" "role t = role s1"
    using rest_run [OF c1, of "[]"] by blast
  have "v_term (lv t) = c_term (candidate s) + 1" unfolding t(2) s1(3) by simp
  then show ?thesis using campaign_split [OF assms(3), of "dict_keys (nodes c)" "[]" E] s1 t by (simp add: run_seqE del: view_simps)
qed

text \<open>The interruption: a vote request of a higher term demotes the candidate, which then handles it as a follower.\<close>

lemma vote_request_frame:
  assumes "ok s"
  shows "\<exists>t. on_vote_request E m h s = (Inr (), t) \<and> ok t \<and> role t = role s \<and> v_term (lv t) = v_term (lv s) \<and>
     v_config (lv t) = v_config (lv s) \<and> follower t = follower s \<and> candidate t = candidate s \<and> deck t = deck s"
proof -
  obtain t where t: "on_vote_request E m h s = (Inr (), t)" "ok t" "role t = role s"
      "lv t = (lv s)\<lparr>v_voted := (if grants (lv s) h then Some (sender h) else v_voted (lv s))\<rparr>"
    using vote_decision [OF assms] by blast
  obtain l where "log_do (set_voted_for (log E) (Some (sender h))) s = (Inr (), s\<lparr>n_log := l\<rparr>)"
    using do_set_voted [OF assms] by blast
  then have "follower t = follower s \<and> candidate t = candidate s \<and> deck t = deck s"
    using t(1) by (auto simp: on_vote_request_def run log_E split: if_splits)
  moreover have "v_term (lv t) = v_term (lv s)" "v_config (lv t) = v_config (lv s)" unfolding t(4) by simp_all
  ultimately show ?thesis using t by blast
qed

lemma demoted_by_request:
  assumes "ok s" and "v_config (lv s) = Some c" and "\<not> exiting_cluster (deck s)" and "msg_term h = v_term (lv s)"
    and "m = RequestVoteMessage h" and "deck_active_messages (deck s) = [(message_key m, m)]"
  shows "\<exists>t. demote_and_handle E (Some m) s = (Inr (), t) \<and> ok t \<and> v_term (lv t) = v_term (lv s) \<and> v_config (lv t) = Some c \<and>
     role t = RoleFollower \<and> \<not> f_stopped (follower t) \<and> c_term (candidate t) = c_term (candidate s) \<and>
     c_use_pre_vote (candidate t) = c_use_pre_vote (candidate s) \<and> joining_cluster (deck t) = joining_cluster (deck s)"
proof -
  obtain s1 where s1: "stop_role E s = (Inr (), s1)" "ok s1" "lv s1 = (lv s)\<lparr>v_voted := None\<rparr>"
      "exiting_cluster (deck s1) = exiting_cluster (deck s)" "c_term (candidate s1) = c_term (candidate s)"
      "c_use_pre_vote (candidate s1) = c_use_pre_vote (candidate s)" "joining_cluster (deck s1) = joining_cluster (deck s)"
      "deck_active_messages (deck s1) = deck_active_messages (deck s)"
    using stop_role_run [OF assms(1)] by blast
  let ?s = "s1\<lparr>role := RoleFollower, follower := new_Follower (now s1)\<rparr>"
  have v: "v_config (lv s1) = Some c" "v_term (lv s1) = v_term (lv s)" unfolding s1(3) using assms(2) by simp_all
  have "v_config (lv ?s) = Some c" "role ?s = RoleFollower" using v(1) by simp_all
  from follower_start_run [OF this] obtain s2 where s2: "follower_start E ?s = (Inr (), s2)" "n_log s2 = n_log s1"
      "role s2 = RoleFollower" "\<not> role_stopped s2" "candidate s2 = candidate s1" "joining_cluster (deck s2) = joining_cluster (deck s1)"
      "deck_active_messages (deck s2) = deck_active_messages (deck s1)" by auto
  define s3 where "s3 = snd (emit_if_active (RoleChangeEvent RoleFollower) s2)"
  have s3: "emit_if_active (RoleChangeEvent RoleFollower) s2 = (Inr (), s3)" "n_log s3 = n_log s1" "role s3 = RoleFollower"
      "\<not> f_stopped (follower s3)" "candidate s3 = candidate s1" "deck s3 = deck s2"
    using s2 by (simp_all add: s3_def emit_if_active_run role_stopped_def)
  have a: "deck_active_messages (deck s3) = [(message_key m, m)]" using s3(6) s2(7) s1(8) assms(6) by simp
  obtain t where t: "on_vote_request E m h s3 = (Inr (), t)" "ok t" "role t = RoleFollower" "v_term (lv t) = v_term (lv s3)"
      "v_config (lv t) = v_config (lv s3)" "follower t = follower s3" "candidate t = candidate s3" "deck t = deck s3"
    using vote_request_frame [of s3 m h] s1(2) s3(2,3) by auto
  have "follower_on_message E m s3 = (Inr (), t)"
    using t(1) s3(4) assms(4) v(2) s3(2) unfolding assms(5)
    by (simp add: follower_on_message_def base_on_message_def route_def follower_routes_def run log_E)
  then have "inner_on_message_with E (follower_on_message E) m s3
      = (Inr (), t\<lparr>deck := (deck t)\<lparr>deck_active_messages := dict_del (message_key m) (deck_active_messages (deck t))\<rparr>\<rparr>)"
    using a by (intro inner_with_run) (simp_all add: active_same)
  with s1(1,4) assms(3) s2(1) s3(1) have "demote_and_handle E (Some m) s
      = (Inr (), t\<lparr>deck := (deck t)\<lparr>deck_active_messages := dict_del (message_key m) (deck_active_messages (deck t))\<rparr>\<rparr>)"
    unfolding assms(5) by (simp add: demote_and_handle_def run_seqE run_bindE run_getsE run_modE run_whenE run_ret)
  then show ?thesis using t s3 s2 s1 v by simp
qed

lemma interrupted:
  assumes "ok s" and "v_config (lv s) = Some c" and "role s = RoleCandidate" and "\<not> c_stopped (candidate s)"
    and "\<not> exiting_cluster (deck s)" and "deck_active_messages (deck s) = []" and "v_term (lv s) < msg_term h"
  shows "\<exists>t. inner_on_message E (RequestVoteMessage h) s = (Inr (), t) \<and> ok t \<and> v_term (lv t) = msg_term h \<and> v_config (lv t) = Some c \<and>
     role t = RoleFollower \<and> \<not> f_stopped (follower t) \<and> c_term (candidate t) = c_term (candidate s) \<and>
     c_use_pre_vote (candidate t) = c_use_pre_vote (candidate s) \<and> joining_cluster (deck t) = joining_cluster (deck s)"
proof -
  let ?m = "RequestVoteMessage h"
  let ?s = "s\<lparr>deck := (deck s)\<lparr>deck_active_messages := [(message_key ?m, ?m)]\<rparr>\<rparr>"
  obtain l where l: "set_term (log E) (msg_term h) (n_log s) = (Inr (), l)" "inv l" "view api ents l = (lv s)\<lparr>v_term := msg_term h\<rparr>"
    using set_term_law [OF assms(1), of "msg_term h"] unfolding log_E by blast
  have vl: "v_config (view api ents l) = Some c" "v_term (view api ents l) = msg_term h" unfolding l(3) using assms(2) by simp_all
  have "\<exists>v. seqE (record_op_detail newer_term) (deck_set_term E (msg_term h)) ?s = (Inr (), v) \<and> n_log v = l \<and>
      deck v = deck ?s \<and> candidate v = candidate s"
    using l(1) by (simp add: deck_set_term_def log_do_def run split del: if_split)
  then obtain v where v: "seqE (record_op_detail newer_term) (deck_set_term E (msg_term h)) ?s = (Inr (), v)" "n_log v = l"
      "deck v = deck ?s" "candidate v = candidate s" by blast
  obtain t where t: "demote_and_handle E (Some ?m) v = (Inr (), t)" "ok t" "v_term (lv t) = v_term (lv v)" "v_config (lv t) = Some c"
      "role t = RoleFollower" "\<not> f_stopped (follower t)" "c_term (candidate t) = c_term (candidate v)"
      "c_use_pre_vote (candidate t) = c_use_pre_vote (candidate v)" "joining_cluster (deck t) = joining_cluster (deck v)"
    using demoted_by_request [of v c h ?m] l(2) v(2,3) vl assms(5) by auto
  have "role_on_message E ?m ?s = (Inr (), t)"
    using assms(3,4,7) v(1) t(1)
    by (auto simp: role_on_message_def candidate_on_message_def base_on_message_def candidate_term_expired_def run_seqE run_bindE
        run_getsE run_whenE run_ret log_get_run log_E split: prod.splits sum.splits)
  from inner_with_run [of s ?m "role_on_message E" t E, OF _ this] assms(6)
  show ?thesis using t v(2-4) vl(2) by (simp add: inner_on_message_def)
qed

text \<open>The timer that the demoted candidate armed when it resumed: it starts the next campaign on the outdated term.\<close>

lemma stale_timer_run:
  assumes "ok s" and "v_config (lv s) = Some c" and "current_config (ops s) = Some c" and "role s = RoleFollower"
    and "\<not> f_stopped (follower s)" and "\<not> joining_cluster (deck s)" and "\<not> c_use_pre_vote (candidate s)"
    and "(i, due, RoleAfterRunner ElectionTimedOut) \<in> set (timers s)"
  shows "\<exists>t. reachable E s t \<and> role t = RoleFollower \<and> v_term (lv t) = c_term (candidate s) + 1"
proof -
  let ?s = "s\<lparr>now := max due (now s)\<rparr>"
  let ?u = "?s\<lparr>timers := filter (\<lambda>p. fst p \<noteq> i) (timers s)\<rparr>"
  define w where "w = snd (record_op_detail election_timeout_op ?u)"
  have w: "record_op_detail election_timeout_op ?u = (Inr (), w)" "n_log w = n_log s" "role w = role s" "candidate w = candidate s" "ops w = ops s"
    by (simp_all add: w_def record_op_detail_run emit_if_active_run)
  have "ok w" "v_config (lv w) = Some c" "current_config (ops w) = Some c" using assms(1-3) w by simp_all
  from campaign_run [OF this] obtain t where t: "start_campaign_base E w = (Inr (), t)" "role t = role w"
      "v_term (lv t) = c_term (candidate w) + 1" by blast
  have "run_callback E (RoleAfterRunner ElectionTimedOut) ?u = (Inr (), t)"
    using assms(4-7) w(1,4) t(1)
    by (simp add: run_callback_def role_after_runner_def role_stopped_def election_timed_out_def start_campaign_def run_seqE run_bindE
        run_getsE run_whenE)
  then have "loop_step E ?s t" using loop_step.timer [of i due "RoleAfterRunner ElectionTimedOut" ?s E] assms(8) by simp
  moreover have "loop_step E s ?s" by (rule loop_step.tick) simp
  ultimately have "reachable E s t" by auto
  then show ?thesis using t w assms(4) by auto
qed

end

text \<open>C11. A campaign that is interrupted in one of its sends can lower the stored term. A candidate of term \<open>t\<close> starts a
  campaign and is suspended in the vote request to \<open>w\<close>; meanwhile a vote request of a higher term \<open>msg_term h\<close> demotes it to
  follower and stores that term; the send comes back and the abandoned candidate sends its other requests and arms its
  election timer over the follower's; when the timer fires, the node is still a follower and its log is set to term
  \<open>t + 2\<close>, below the term it had taken over.\<close>

theorem suspended_campaign_lowers_term:
  assumes "log_client api I ents E" and "I (n_log s)" and "v_config (view api ents (n_log s)) = Some c"
    and "current_config (ops s) = Some c" and "dict_keys (nodes c) = us @ w # vs" and "w \<noteq> my_uri E"
    and "role s = RoleCandidate" and "\<not> c_stopped (candidate s)" and "\<not> c_use_pre_vote (candidate s)"
    and "\<not> joining_cluster (deck s)" and "\<not> exiting_cluster (deck s)" and "deck_active_messages (deck s) = []"
    and "c_term (candidate s) + 2 < msg_term h"
  shows "start_campaign_base E s = seqE (campaign_part E (us @ [w])) (campaign_rest E vs) s \<and>
     (\<exists>s1 s2 s3 s4. campaign_part E (us @ [w]) s = (Inr (), s1) \<and>
       (\<exists>data n. last (outbox s1) = SendMessage (Some w) data n) \<and>
       inner_on_message E (RequestVoteMessage h) s1 = (Inr (), s2) \<and> role s2 = RoleFollower \<and>
       v_term (view api ents (n_log s2)) = msg_term h \<and> campaign_rest E vs s2 = (Inr (), s3) \<and> reachable E s3 s4 \<and>
       role s4 = RoleFollower \<and> v_term (view api ents (n_log s4)) = c_term (candidate s) + 2)"
proof (intro conjI)
  show "start_campaign_base E s = seqE (campaign_part E (us @ [w])) (campaign_rest E vs) s"
    using campaign_split [OF assms(4), of "us @ [w]" vs E] assms(5) by simp
next
  obtain s1 where s1: "campaign_part E (us @ [w]) s = (Inr (), s1)" "I (n_log s1)"
      "view api ents (n_log s1) = (view api ents (n_log s))\<lparr>v_term := c_term (candidate s) + 1\<rparr>" "role s1 = role s" "deck s1 = deck s"
      "c_term (candidate s1) = c_term (candidate s) + 1" "c_stopped (candidate s1) = c_stopped (candidate s)"
      "c_use_pre_vote (candidate s1) = c_use_pre_vote (candidate s)" "\<exists>data n. last (outbox s1) = SendMessage (Some w) data n"
    using log_client.part_run [OF assms(1,2), of "us @ [w]" us w] assms(6) by blast
  have v1: "v_config (view api ents (n_log s1)) = Some c" "v_term (view api ents (n_log s1)) < msg_term h"
    unfolding s1(3) using assms(3,13) by simp_all
  obtain s2 where s2: "inner_on_message E (RequestVoteMessage h) s1 = (Inr (), s2)" "I (n_log s2)"
      "v_term (view api ents (n_log s2)) = msg_term h" "v_config (view api ents (n_log s2)) = Some c" "role s2 = RoleFollower"
      "\<not> f_stopped (follower s2)" "c_term (candidate s2) = c_term (candidate s1)"
      "c_use_pre_vote (candidate s2) = c_use_pre_vote (candidate s1)" "joining_cluster (deck s2) = joining_cluster (deck s1)"
    using log_client.interrupted [OF assms(1) s1(2) v1(1) _ _ _ _ v1(2)] s1 assms(7,8,11,12) by auto
  obtain s3 i due where s3: "campaign_rest E vs s2 = (Inr (), s3)" "n_log s3 = n_log s2" "role s3 = role s2" "follower s3 = follower s2"
      "joining_cluster (deck s3) = joining_cluster (deck s2)" "current_config (ops s3) = Some c"
      "c_term (candidate s3) = c_term (candidate s2)" "c_use_pre_vote (candidate s3) = c_use_pre_vote (candidate s2)"
      "(i, due, RoleAfterRunner ElectionTimedOut) \<in> set (timers s3)"
    using log_client.rest_run [OF assms(1) s2(4)] by blast
  obtain s4 where "reachable E s3 s4" "role s4 = RoleFollower" "v_term (view api ents (n_log s4)) = c_term (candidate s3) + 1"
    using log_client.stale_timer_run [OF assms(1), of s3 c i due] s1(5,8) s2 s3 assms(9,10) by auto
  with s1 s2 s3 show "\<exists>s1 s2 s3 s4. campaign_part E (us @ [w]) s = (Inr (), s1) \<and>
       (\<exists>data n. last (outbox s1) = SendMessage (Some w) data n) \<and>
       inner_on_message E (RequestVoteMessage h) s1 = (Inr (), s2) \<and> role s2 = RoleFollower \<and>
       v_term (view api ents (n_log s2)) = msg_term h \<and> campaign_rest E vs s2 = (Inr (), s3) \<and> reachable E s3 s4 \<and>
       role s4 = RoleFollower \<and> v_term (view api ents (n_log s4)) = c_term (candidate s) + 2" by (auto simp del: view_simps)
qed

text \<open>A candidate of the example cluster that holds the stored configuration.\<close>

definition example_campaigner :: "(MemoryLog, unit) node" where
  "example_campaigner = (example_candidate ''n1'')\<lparr>ops := new_ClusterOps\<lparr>current_config := v_config (mem_view example_member_log)\<rparr>\<rparr>"

theorem suspended_campaign_lowers_term_witness:
  "\<exists>us vs s1 s2 s3 s4. campaign_part (example_env memory_api ''n1'') (us @ [''n2'']) example_campaigner = (Inr (), s1) \<and>
     inner_on_message (example_env memory_api ''n1'') (RequestVoteMessage (example_hdr ''n3'' 9 2 1)) s1 = (Inr (), s2) \<and>
     v_term (mem_view (n_log s2)) = 9 \<and> campaign_rest (example_env memory_api ''n1'') vs s2 = (Inr (), s3) \<and>
     reachable (example_env memory_api ''n1'') s3 s4 \<and> v_term (mem_view (n_log s4)) = 3"
proof -
  obtain c where c: "v_config (mem_view example_member_log) = Some c" "dict_get (nodes c) = dict_get (nodes example_config)"
    using example_member by blast
  have "dict_get (nodes c) ''n2'' \<noteq> None" unfolding c(2) by (simp add: example_nodes)
  then have "''n2'' \<in> set (dict_keys (nodes c))" by (simp add: map_of_eq_None_iff)
  then obtain us vs where us: "dict_keys (nodes c) = us @ ''n2'' # vs" by (meson split_list)
  have s: "mem_inv (n_log example_campaigner)" "v_config (mem_view (n_log example_campaigner)) = Some c"
      "current_config (ops example_campaigner) = Some c" "c_term (candidate example_campaigner) = 1"
    using example_member_log_inv c(1) by (simp_all add: example_campaigner_def)
  have p: "''n2'' \<noteq> my_uri (example_env memory_api ''n1'')" "role example_campaigner = RoleCandidate"
      "\<not> c_stopped (candidate example_campaigner)" "\<not> c_use_pre_vote (candidate example_campaigner)"
      "\<not> joining_cluster (deck example_campaigner)" "\<not> exiting_cluster (deck example_campaigner)"
      "deck_active_messages (deck example_campaigner) = []"
      "c_term (candidate example_campaigner) + 2 < msg_term (example_hdr ''n3'' 9 2 1)"
    by (simp_all add: example_campaigner_def example_candidate_def example_node_def new_node_def new_Deck_def new_Candidate_def
        example_env_def)
  have "c_term (candidate example_campaigner) + 2 = 3" "msg_term (example_hdr ''n3'' 9 2 1) = 9" using s(4) by simp_all
  with suspended_campaign_lowers_term [OF example_client s(1-3) us p] show ?thesis by metis
qed

end
