(* ===== verification/Catchup_Props.thy ===== *)
theory Catchup_Props
  imports Leader_Props
begin

text \<open>
  Bringing a follower up to date: the records the leader collects for it, the message it sends, and the effect of that
  message at the follower.
\<close>

section \<open>What a block holds\<close>

text \<open>Records up to the second configuration change.\<close>

fun cut_changes :: "bool \<Rightarrow> LogRec list \<Rightarrow> LogRec list" where
  "cut_changes b [] = []"
| "cut_changes b (r # rs) = (if code r = cluster_config \<and> b then [] else r # cut_changes (b \<or> code r = cluster_config) rs)"

lemma cut_changes_split:
  "\<exists>zs. rs = cut_changes b rs @ zs \<and> (zs = [] \<or> code (hd zs) = cluster_config \<and>
     (b \<or> filter (\<lambda>r. code r = cluster_config) (cut_changes b rs) \<noteq> []))"
proof (induction rs arbitrary: b)
  case (Cons r rs)
  show ?case
  proof (cases "code r = cluster_config \<and> b")
    case False
    from Cons.IH [of "b \<or> code r = cluster_config"] show ?thesis by (simp add: False) auto
  qed simp
qed simp

lemma cut_changes_length: "length (cut_changes b rs) \<le> length rs"
  by (induction rs arbitrary: b) auto

lemma cut_changes_one:
  "length (filter (\<lambda>r. code r = cluster_config) (cut_changes b rs)) \<le> (if b then 0 else 1)"
proof (induction rs arbitrary: b)
  case (Cons r rs)
  from Cons.IH [of True] Cons.IH [of False] show ?case by auto
qed simp

lemma cut_changes_all: "list_all (\<lambda>r. code r \<noteq> cluster_config) rs \<Longrightarrow> cut_changes b rs = rs"
  by (induction rs arbitrary: b) auto

section \<open>Quiet work\<close>

context log_client
begin

text \<open>States between which only trackers, serial numbers, tasks and the position of reads differ.\<close>

definition quiet :: "('l, 'a) node \<Rightarrow> ('l, 'a) node \<Rightarrow> bool" where
  "quiet s t \<longleftrightarrow> ok t \<and> lv t = lv s \<and> outbox t = outbox s \<and> role t = role s \<and> n_app t = n_app s \<and> now t = now s \<and>
     (current_config (ops s) \<noteq> None \<longrightarrow> current_config (ops t) \<noteq> None)"

lemma quiet_refl: "ok s \<Longrightarrow> quiet s s"
  by (simp add: quiet_def)

lemma quiet_trans: "quiet s t \<Longrightarrow> quiet t u \<Longrightarrow> quiet s u"
  by (auto simp: quiet_def simp del: view_simps)

lemma quiet_ok: "quiet s t \<Longrightarrow> ok t"
  by (simp add: quiet_def)

lemma quiet_ents: "quiet s t \<Longrightarrow> ents (n_log t) = ents (n_log s)"
proof -
  assume "quiet s t"
  then have "lv t = lv s" by (simp add: quiet_def)
  from arg_cong [OF this, of v_ents] show ?thesis by simp
qed

lemma quiet_tracker: "ok s \<Longrightarrow> \<exists>t tr. tracker_for_follower E u s = (Inr tr, t) \<and> quiet s t"
  using tracker_run [of E u s] by (auto simp: quiet_def)

lemma quiet_tracker_mod: "ok s \<Longrightarrow> \<exists>t. tracker_mod u f s = (Inr (), t) \<and> quiet s t"
  by (auto simp: tracker_mod_def ops_mod_def run quiet_def split: option.split)

lemma quiet_votes:
  "ok s \<Longrightarrow> \<exists>t vs. foldE us (\<lambda>u vs. if u = my_uri E then ret vs
       else bindE (tracker_for_follower E u) (\<lambda>t. ret (dict_set u (matchIndex t \<ge> i) vs))) acc s = (Inr vs, t) \<and> quiet s t"
proof (induction us arbitrary: acc s)
  case Nil
  then show ?case by (auto simp: run quiet_refl)
next
  case (Cons u us)
  show ?case
  proof (cases "u = my_uri E")
    case True
    with Cons show ?thesis by (simp add: run)
  next
    case False
    obtain t tr where t: "tracker_for_follower E u s = (Inr tr, t)" "quiet s t" using quiet_tracker [OF Cons.prems] by blast
    then have "ok t" by (simp add: quiet_def)
    from Cons.IH [OF this, of "dict_set u (matchIndex tr \<ge> i) acc"] t False show ?thesis
      by (auto simp: run intro: quiet_trans)
  qed
qed

lemma quiet_ensure:
  assumes "ok s" and "current_config (ops s) \<noteq> None"
  shows "\<exists>t. ensure_log_tracker E r s = (Inr (), t) \<and> quiet s t"
proof (cases "dict_get (log_vote_trackers (leader s)) (rec_index r)")
  case None
  obtain c where c: "current_config (ops s) = Some c" using assms(2) by blast
  obtain t vs where "foldE (dict_keys (nodes c)) (\<lambda>u vs. if u = my_uri E then ret vs
       else bindE (tracker_for_follower E u) (\<lambda>t. ret (dict_set u (matchIndex t \<ge> rec_index r) vs))) [(my_uri E, True)] s =
       (Inr vs, t)" "quiet s t"
    using quiet_votes [OF assms(1)] by blast
  with None c show ?thesis
    by (auto simp: ensure_log_tracker_def run get_cluster_node_ids_def leader_mod_def quiet_def)
next
  case (Some v)
  with assms(1) show ?thesis by (simp add: ensure_log_tracker_def run quiet_refl)
qed

lemma collect_run:
  assumes "ok s" and "current_config (ops s) \<noteq> None"
    and "list_all (\<lambda>i. 1 \<le> i \<and> (\<exists>r. ents (n_log s) i = Some r \<and> rec_index r = i)) js"
  shows "\<exists>t rs e. collect_catchup E js b es end_i s = (Inr (es @ rs, e), t) \<and> quiet s t \<and>
     map content rs = cut_changes b (map (\<lambda>i. the (ents (n_log s) i)) js)"
  using assms
proof (induction js arbitrary: s b es)
  case Nil
  then show ?case by (auto simp: run quiet_refl)
next
  case (Cons i js)
  obtain r where r: "1 \<le> i" "ents (n_log s) i = Some r" using Cons.prems(3) by auto
  obtain l x where l: "read_rec E i s = (Inr x, s\<lparr>n_log := l\<rparr>)" "inv l" "view api ents l = lv s" "content x = r"
    using read_rec_some [OF Cons.prems(1) r] by blast
  have code: "code x = code r" using l(4) by auto
  let ?s = "s\<lparr>n_log := l\<rparr>"
  have q: "quiet s ?s" using l by (simp add: quiet_def)
  have en: "ents l = ents (n_log s)" using arg_cong [OF l(3), of v_ents] by simp
  show ?case
  proof (cases "code r = cluster_config \<and> b")
    case True
    with l(1) code q r show ?thesis
      by (intro exI [of _ ?s] exI [of _ "[]"] exI [of _ "rec_index x"]) (simp add: run)
  next
    case False
    have "\<exists>t. whenE (\<not> committed x) (ensure_log_tracker E x) ?s = (Inr (), t) \<and> quiet ?s t"
      using quiet_ensure [of ?s x] l(2) Cons.prems(2) by (cases "committed x") (auto simp: run quiet_refl)
    then obtain t where t: "whenE (\<not> committed x) (ensure_log_tracker E x) ?s = (Inr (), t)" "quiet ?s t" by blast
    have tv: "ok t" "current_config (ops t) \<noteq> None" "ents (n_log t) = ents (n_log s)"
      using t(2) Cons.prems(2) en quiet_ents [OF t(2)] by (auto simp: quiet_def simp del: view_simps)
    obtain t' rs e where "collect_catchup E js (b \<or> code r = cluster_config) (es @ [x]) end_i t = (Inr ((es @ [x]) @ rs, e), t')"
        "quiet t t'" "map content rs = cut_changes (b \<or> code r = cluster_config) (map (\<lambda>i. the (ents (n_log s) i)) js)"
      using Cons.IH [of t "b \<or> code r = cluster_config" "es @ [x]"] tv Cons.prems(3) by auto
    with l(1,4) code False t q r show ?thesis
      by (intro exI [of _ t'] exI [of _ "x # rs"] exI [of _ e]) (auto simp: run intro: quiet_trans)
  qed
qed

lemma quiet_max_entries:
  "ok s \<Longrightarrow> v_config (lv s) = Some c \<Longrightarrow>
   \<exists>t. get_max_entries_per_message E s = (Inr (max_entries_per_message (settings c)), t) \<and> quiet s t \<and> current_config (ops t) \<noteq> None"
  by (simp add: get_max_entries_per_message_def run get_config_run quiet_def)

lemma send_entries_run:
  assumes "ok s"
  shows "\<exists>t x. send_entries E u es pix ptm d s = (Inr (), t) \<and> ok t \<and> lv t = lv s \<and> role t = role s \<and>
     outbox t = outbox s @ [x] \<and> append_sent (my_uri E) (v_term (lv s)) pix ptm es (v_commit (lv s)) u x"
proof -
  let ?h = "\<lparr>sender = my_uri E, receiver = Some u, serial_number = next_serial s, msg_term = v_term (lv s),
     prevLogIndex = pix, prevLogTerm = ptm\<rparr>"
  let ?m = "AppendEntriesMessage ?h es (v_commit (lv s))"
  let ?mt = "\<lparr>mt_uri = u, mt_message = ?m, mt_broadcast_id = None, log_rec_ids = map rec_index es, mt_reply = None\<rparr>"
  obtain ts where ts: "record_op_detail d ((use_serial s)\<lparr>leader := track_message u (next_serial s) ?mt (leader s)\<rparr>) =
      (Inr (), (use_serial s)\<lparr>leader := track_message u (next_serial s) ?mt (leader s), tasks := ts\<rparr>)"
    by (simp add: record_op_detail_run emit_if_active_run)
  let ?s = "(use_serial s)\<lparr>leader := track_message u (next_serial s) ?mt (leader s), tasks := ts\<rparr>"
  have "ok ?s" using assms by simp
  from quiet_tracker [OF this, of "my_uri E"] obtain s1 tr where
    s1: "tracker_for_follower E (my_uri E) ?s = (Inr tr, s1)" "quiet ?s s1" by blast
  obtain s2 where s2: "tracker_mod (my_uri E) (\<lambda>t. t\<lparr>msg_count := msg_count t + 1, last_msg_time := now s1\<rparr>) s1 = (Inr (), s2)"
      "quiet s1 s2"
    using quiet_tracker_mod [OF quiet_ok [OF s1(2)]] by blast
  have "send_entries E u es pix ptm d s = (Inr (), s2\<lparr>outbox := outbox s2 @
      [SendMessage (Some u) (fst (encode_message ?m)) (snd (encode_message ?m))]\<rparr>)"
    using ts s1(1) s2(1)
    by (simp add: send_entries_def run_bindE run_seqE log_get_run mk_log_hdr_def new_serial_run run_ret leader_mod_def run_modE
        record_sent_message_def run_getsE send_message_def log_E Let_def)
  then show ?thesis using quiet_trans [OF s1(2) s2(2)] by (auto simp: quiet_def append_sent_def Let_def)
qed

lemma catchup_run:
  assumes "ok s" and "v_config (lv s) = Some c" and "snap_base (v_snap (lv s)) \<le> mi" and "mi \<le> v_last (lv s)"
  defines "m \<equiv> max_entries_per_message (settings c)"
  shows "\<exists>t x rs. send_catchup E u mi s = (Inr (), t) \<and> ok t \<and> lv t = lv s \<and> role t = role s \<and> outbox t = outbox s @ [x] \<and>
     append_sent (my_uri E) (v_term (lv s)) mi (term_at (lv s) mi) rs (v_commit (lv s)) u x \<and>
     map content rs = cut_changes False (map (\<lambda>i. the (ents (n_log s) i))
       [mi + 1..(if v_last (lv s) - (mi + 1) > m then mi + 1 + m else v_last (lv s))])"
proof -
  let ?last = "v_last (lv s)"
  define en where "en = (if ?last - (mi + 1) > m then mi + 1 + m else ?last)"
  obtain s1 tr where s1: "tracker_for_follower E u s = (Inr tr, s1)" "quiet s s1" using quiet_tracker [OF assms(1)] by blast
  obtain s2 where s2: "tracker_mod u (\<lambda>tr. tr\<lparr>matchIndex := mi\<rparr>) s1 = (Inr (), s2)" "quiet s1 s2"
    using quiet_tracker_mod [OF quiet_ok [OF s1(2)]] by blast
  have q2: "quiet s s2" by (rule quiet_trans [OF s1(2) s2(2)])
  have v2: "ok s2" "v_config (lv s2) = Some c" "get_last_index (log E) (n_log s2) = ?last"
    using q2 assms(2) viewD(3) [of "n_log s2"] by (auto simp: quiet_def log_E simp del: view_simps)
  obtain s3 where s3: "get_max_entries_per_message E s2 = (Inr m, s3)" "quiet s2 s3" "current_config (ops s3) \<noteq> None"
    using quiet_max_entries [OF v2(1,2)] unfolding m_def by blast
  have q3: "quiet s s3" by (rule quiet_trans [OF q2 s3(2)])
  have ok3: "ok s3" using q3 by (simp add: quiet_def)
  have "list_all (\<lambda>i. 1 \<le> i \<and> (\<exists>r. ents (n_log s3) i = Some r \<and> rec_index r = i)) [mi + 1..en]"
  proof -
    have "1 \<le> i \<and> (\<exists>r. ents (n_log s) i = Some r \<and> rec_index r = i)" if "mi + 1 \<le> i" "i \<le> ?last" for i
      using ents_some [OF assms(1), of i] last_nonneg [OF assms(1)] assms(3) that by auto
    then show ?thesis unfolding quiet_ents [OF q3] by (auto simp: list_all_iff en_def split: if_splits)
  qed
  then obtain s4 rs e where s4: "collect_catchup E [mi + 1..en] False [] en s3 = (Inr (rs, e), s4)" "quiet s3 s4"
      "map content rs = cut_changes False (map (\<lambda>i. the (ents (n_log s) i)) [mi + 1..en])"
    using collect_run [OF ok3 s3(3), of "[mi + 1..en]" False "[]" en] unfolding quiet_ents [OF q3] by auto
  have ok4: "ok s4" using s4(2) by (simp add: quiet_def)
  obtain s5 where s5: "tracker_mod u (\<lambda>tr. tr\<lparr>nextIndex := e + 1\<rparr>) s4 = (Inr (), s5)" "quiet s4 s5"
    using quiet_tracker_mod [OF ok4] by blast
  have q5: "quiet s s5" by (rule quiet_trans [OF quiet_trans [OF q3 s4(2)] s5(2)])
  then have v5: "ok s5" "lv s5 = lv s" by (simp_all add: quiet_def)
  obtain l where l: "get_prev_record_id E (mi + 1) s5 = (Inr (Some mi, Some (term_at (lv s) mi)), s5\<lparr>n_log := l\<rparr>)" "inv l"
      "view api ents l = lv s"
    using prev_id_run [OF v5(1), of "mi + 1"] assms(3,4) unfolding v5(2) by auto
  obtain t x where "send_entries E u rs mi (term_at (lv s) mi) sending_catchup (s5\<lparr>n_log := l\<rparr>) = (Inr (), t)" "ok t" "lv t = lv s"
      "role t = role s5" "outbox t = outbox s5 @ [x]"
      "append_sent (my_uri E) (v_term (lv s)) mi (term_at (lv s) mi) rs (v_commit (lv s)) u x"
    using send_entries_run [of "s5\<lparr>n_log := l\<rparr>" u rs mi "term_at (lv s) mi" sending_catchup] l by (auto simp del: view_simps)
  moreover have "send_catchup E u mi s = send_entries E u rs mi (term_at (lv s) mi) sending_catchup (s5\<lparr>n_log := l\<rparr>)"
    using s1(1) s2(1) s3(1) s4(1) s5(1) l(1)
    by (simp add: send_catchup_def run_bindE run_seqE run_ret log_get_run v2(3) Let_def py_range_def cong: if_cong
        split del: if_split del: view_simps flip: en_def)
  ultimately show ?thesis using q5 s4(3) unfolding en_def by (auto simp: quiet_def)
qed

end

text \<open>C23. The message a leader sends to a follower that is behind carries exactly the records of its log that come right
  after the follower's last one, unchanged and in order, with the identity of that last one as the previous record. It
  holds all of them up to the end of the log or up to \<open>max_entries_per_message + 1\<close> records, whichever comes first (the
  documentation of the setting calls it the maximum per message), and stops earlier only in front of a second
  configuration change.\<close>

theorem catchup_message:
  assumes "log_client api I ents E" and "I (n_log s)" and "v = view api ents (n_log s)" and "v_config v = Some c"
    and "snap_base (v_snap v) \<le> mi" and "mi \<le> v_last v" and "m = max_entries_per_message (settings c)" and "0 \<le> m"
  shows "\<exists>t x rs zs. send_catchup E u mi s = (Inr (), t) \<and> I (n_log t) \<and> view api ents (n_log t) = v \<and>
     outbox t = outbox s @ [x] \<and> append_sent (my_uri E) (v_term v) mi (term_at v mi) rs (v_commit v) u x \<and>
     map (\<lambda>i. the (v_ents v i)) [mi + 1..min (v_last v) (mi + m + 1)] = map content rs @ zs \<and>
     int (length rs) \<le> m + 1 \<and> length (filter (\<lambda>r. code r = cluster_config) rs) \<le> 1 \<and>
     (zs = [] \<or> code (hd zs) = cluster_config \<and> length (filter (\<lambda>r. code r = cluster_config) rs) = 1)"
proof -
  let ?es = "map (\<lambda>i. the (v_ents v i)) [mi + 1..min (v_last v) (mi + m + 1)]"
  have en: "(if v_last v - (mi + 1) > m then mi + 1 + m else v_last v) = min (v_last v) (mi + m + 1)" by auto
  obtain t x rs where t: "send_catchup E u mi s = (Inr (), t)" "I (n_log t)" "view api ents (n_log t) = v"
     "outbox t = outbox s @ [x]" "append_sent (my_uri E) (v_term v) mi (term_at v mi) rs (v_commit v) u x"
     "map content rs = cut_changes False ?es"
    using log_client.catchup_run [OF assms(1,2), of c mi u] assms(4-6)
    unfolding assms(3) [symmetric] assms(7) [symmetric] en unfolding assms(3) view_simps(12) by blast
  let ?n = "length (filter (\<lambda>r. code r = cluster_config) rs)"
  have f: "filter (\<lambda>r. code r = cluster_config) (cut_changes False ?es) = map content (filter (\<lambda>r. code r = cluster_config) rs)"
    unfolding t(6) [symmetric] by (simp add: filter_map comp_def)
  obtain zs where zs: "?es = map content rs @ zs" "zs = [] \<or> code (hd zs) = cluster_config \<and> ?n \<noteq> 0"
    using cut_changes_split [of ?es False, unfolded f, folded t(6)] by auto
  have "length (filter (\<lambda>r. code r = cluster_config) (cut_changes False ?es)) \<le> 1"
    using cut_changes_one [of False ?es] by simp
  then have n: "?n \<le> 1" unfolding f by simp
  have "length rs \<le> length ?es" unfolding zs(1) by simp
  then have "int (length rs) \<le> m + 1" using assms(6,8) by auto
  moreover have "zs = [] \<or> code (hd zs) = cluster_config \<and> ?n = 1" using zs(2) n by linarith
  ultimately show ?thesis using t(1-5) zs(1) n by blast
qed

theorem catchup_message_witness:
  "\<exists>t x rs. send_catchup (example_env memory_api ''n1'') ''n2'' 1 (example_node example_member_log) = (Inr (), t) \<and>
     outbox t = [x] \<and> append_sent ''n1'' 0 1 1 rs 0 ''n2'' x \<and> map content rs = [example_rec 2 1]"
proof -
  obtain c0 where c0: "mem_view example_member_log = (mem_view example_log)\<lparr>v_config := Some c0\<rparr>" "config_same example_config c0"
    using example_member_view by blast
  let ?v = "mem_view example_member_log" and ?E = "example_env memory_api ''n1''" and ?s = "example_node example_member_log"
  have inv: "mem_inv (n_log ?s)" "?v = mem_view (n_log ?s)"
    using example_member_log_inv by simp_all
  have hyp: "v_config ?v = Some c0" "snap_base (v_snap ?v) \<le> 1" "1 \<le> v_last ?v" "0 \<le> max_entries_per_message (settings c0)"
    using c0(2) unfolding c0(1) by (simp_all add: example_view_simps config_same_def example_config_def init_settings_def
        example_init_def del: view_simps)
  have v: "v_last ?v = 2" "v_term ?v = 0" "v_commit ?v = 0" "v_ents ?v = [1 \<mapsto> example_rec 1 1, 2 \<mapsto> example_rec 2 1]" "term_at ?v 1 = 1"
    unfolding c0(1) by (simp_all add: example_view_simps term_at_def del: view_simps)
  have "min (v_last ?v) (1 + max_entries_per_message (settings c0) + 1) = 2" using v(1) hyp(4) by simp
  then have es: "map (\<lambda>i. the (v_ents ?v i)) [1 + 1..min (v_last ?v) (1 + max_entries_per_message (settings c0) + 1)] = [example_rec 2 1]"
    unfolding v(4) by simp
  obtain t x rs zs where t: "send_catchup ?E ''n2'' 1 ?s = (Inr (), t)" "outbox t = outbox ?s @ [x]"
      "append_sent (my_uri ?E) (v_term ?v) 1 (term_at ?v 1) rs (v_commit ?v) ''n2'' x" "[example_rec 2 1] = map content rs @ zs"
      "zs = [] \<or> code (hd zs) = cluster_config \<and> length (filter (\<lambda>r. code r = cluster_config) rs) = 1"
    using catchup_message [OF example_client inv hyp(1-3) refl hyp(4), of "''n1''" "''n2''"] unfolding es by blast
  have "zs = []" using t(4,5) by (cases zs; cases rs) (auto simp: example_rec_def new_LogRec_def)
  moreover have "my_uri ?E = ''n1''" "outbox ?s = []" by (simp_all add: example_env_def example_node_def new_node_def)
  ultimately show ?thesis using t v by auto
qed

section \<open>At the follower\<close>

context log_client
begin

lemma append_and_commit:
  assumes "ok s" and "msg_term h = v_term (lv s)" and "prevLogIndex h = v_last (lv s)"
    and "prevLogTerm h = v_last_term (lv s)" and "run_from (v_last (lv s) + 1) es" and "list_all plain es"
    and "app_total E" and "snap_base (v_snap (lv s)) \<le> v_applied (lv s)"
    and "\<forall>i r. ents (n_log s) i = Some r \<longrightarrow> code r \<noteq> cluster_config"
  defines "w \<equiv> fold insert_view es (lv s)"
  shows "\<exists>t. on_append_entries E m h es ci s = (Inr (), t) \<and> ok t \<and>
     lv t = w\<lparr>v_commit := max (min ci (v_last w)) (v_commit w), v_applied := max (min ci (v_last w)) (v_applied w)\<rparr> \<and>
     n_app t = fold (apply_rec E) (map (\<lambda>i. the (v_ents w i)) [v_applied w + 1..min ci (v_last w)]) (n_app s) \<and>
     outbox t = outbox s @ [response m (AppendResponseMessage (append_hdr (my_uri E) E s h) (v_last w) True
          (Some (sender h)) (serial_number h))]"
proof -
  obtain f p ts where n: "note_leader E h s = (Inr (), s\<lparr>follower := f, ops := p, tasks := ts\<rparr>)" "leader_uri p = Some (sender h)"
    using note_leader_run [of h s] assms(2) by blast
  define s0 where "s0 = s\<lparr>follower := f, ops := p, tasks := ts\<rparr>"
  have s0: "n_log s0 = n_log s" "leader_uri (ops s0) = Some (sender h)" "outbox s0 = outbox s" "n_app s0 = n_app s"
      "append_hdr (my_uri E) E s0 h = append_hdr (my_uri E) E s h"
    using n(2) by (simp_all add: s0_def)
  have sync: "sync_log E m h es s0 = (Inr True, s0)" using assms(2-4) s0(1) by (intro sync_in_step) simp_all
  obtain l where l: "forE es (append_record E) s0 = (Inr (), s0\<lparr>n_log := l\<rparr>)" "inv l" "view api ents l = w"
    using append_records [of s0 es] assms(1,5,6) s0(1) unfolding w_def by (auto simp del: view_simps)
  note v = fold_insert_view [OF assms(5), folded w_def]
  let ?r = "response m (AppendResponseMessage (append_hdr (my_uri E) E s h) (v_last w) True (Some (sender h)) (serial_number h))"
  define s1 where "s1 = (use_serial (s0\<lparr>n_log := l\<rparr>))\<lparr>outbox := outbox s @ [?r]\<rparr>"
  have s1: "ok s1" "lv s1 = w" "n_app s1 = n_app s" "ents (n_log s1) = v_ents w"
    using l s0 by (simp_all add: s1_def viewD [OF l(3)])
  have hdr: "append_hdr (my_uri E) E (s0\<lparr>n_log := l\<rparr>) h = append_hdr (my_uri E) E s h"
    using v s0(5) by (simp add: append_hdr_def log_E viewD [OF l(3)])
  have resp: "send_append_entries_response E m h (s0\<lparr>n_log := l\<rparr>) = (Inr (), s1)"
    using s0 hdr by (simp add: send_append_response_run s1_def log_E viewD [OF l(3)])
  have "take_entries E m h es ci s0 = maybe_commit E ci s1"
  proof (cases "es = []")
    case True
    then have "s0\<lparr>n_log := l\<rparr> = s0" using l(1) by (simp add: run_ret)
    with True resp show ?thesis by (simp add: take_entries_def run_seqE)
  qed (use l(1) resp in \<open>simp add: take_entries_def run_seqE\<close>)
  then have eq: "on_append_entries E m h es ci s = maybe_commit E ci s1"
    using n(1) sync by (simp add: on_append_entries_def run_seqE run_bindE s0_def)
  have sn: "snap_base (v_snap w) \<le> v_applied w"
  proof -
    have "v_snap (fold insert_view es x) = v_snap x" for x by (induction es arbitrary: x) (simp_all add: insert_view_def)
    then show ?thesis using assms(8) v by (simp add: w_def del: view_simps)
  qed
  have cc: "\<forall>i r. ents (n_log s1) i = Some r \<longrightarrow> code r \<noteq> cluster_config"
    unfolding s1(4) using assms(6,9) fold_insert_ents [OF assms(5), folded w_def]
    by (auto simp: list_all_length plain_def split: if_splits)
  show ?thesis
  proof (cases "ci > v_commit w \<or> ci > v_applied w")
    case True
    then have "on_append_entries E m h es ci s = new_leader_commit_index E ci s1"
      unfolding eq by (simp add: maybe_commit_def run_bindE log_get_run log_E viewD [OF s1(2)])
    moreover have "\<forall>i r. v_applied (lv s1) < i \<and> i \<le> ci \<and> ents (n_log s1) i = Some r \<longrightarrow> servable E r"
      using cc app_total_servable [OF assms(7)] by blast
    ultimately show ?thesis using commit_and_apply [OF s1(1), of ci] sn
      unfolding s1(2,3,4) by (auto simp: s1_def)
  next
    case False
    then have m: "max (min ci (v_last w)) (v_commit w) = v_commit w" "max (min ci (v_last w)) (v_applied w) = v_applied w"
        "[v_applied w + 1..min ci (v_last w)] = []" by auto
    have "on_append_entries E m h es ci s = (Inr (), s1)"
      using False unfolding eq by (simp add: maybe_commit_def run_bindE log_get_run log_E viewD [OF s1(2)] run_ret)
    moreover have "outbox s1 = outbox s @ [?r]" by (simp add: s1_def)
    ultimately show ?thesis using s1 unfolding m by simp
  qed
qed

end

end
