(* ===== verification/Sqlite_Writer.thy ===== *)
theory Sqlite_Writer
  imports Sqlite_Log Lmdb_Log
begin

text \<open>
  \<open>src/raftengine/extras/hybrid_log/sqlite_writer.py\<close>: the process that copies the records of a hybrid
  log from its LMDB store to its SQLite archive. The main process and the writer process share the two
  database files and nothing else; each has its own log objects with their own attributes in memory, and
  they exchange JSON objects over a socket, one queue per direction (a frame of the socket is one element).
  One step of either process is one task of its event loop up to its end. The copying, snapshot and push
  loops need not end, so that they are partial functions into \<open>option\<close>. Parameters are the order of
  LMDB keys (as for the LMDB log), the text of a traceback and the sizes of the two files.
\<close>

section \<open>State\<close>

text \<open>
  An attribute that holds a log object: \<open>None\<close> once it has been stopped and dropped, \<open>Some None\<close> before
  \<open>start\<close> has made its \<open>Records\<close>.
\<close>

type_synonym 'r log_object = "'r option option"

record SqliteWriterControl =
  c_snap_size :: int
  c_copy_block_size :: int
  c_connected :: bool
  c_proc :: bool
  c_running :: bool

record SqliteWriter =
  w_snap_size :: int
  w_copy_block_size :: int
  w_sqlite :: "Records log_object"
  w_lmdb :: "LmdbRecords log_object"
  w_started :: bool
  w_stopped :: bool
  copy_limit :: int
  copy_task_handle :: bool
  upstream_commit_index :: int
  upstream_apply_index :: int
  copy_block_timestamps :: "time list"
  copy_blocks_count :: int
  s_running :: bool
  s_connected :: bool
  s_shutdown :: bool
  s_fatal_error :: "string option"

text \<open>
  The whole system: the files, the clock, the attributes of \<open>HybridLog\<close>, its control object,
  the two directions of the socket, and the writer process.
\<close>

record hybrid =
  sq_file :: SqliteDB
  lm_file :: LmdbEnv
  h_clock :: time
  hold_count :: int
  last_pressure_sent :: int
  push_trigger :: int
  push_snap_size :: int
  h_copy_block_size :: int
  h_sqlite :: "Records log_object"
  h_lmdb :: "LmdbRecords log_object"
  last_lmdb_snap :: "SnapShot option"
  h_running :: bool
  writer_stats :: "(string \<times> json) list"
  stats_request_event :: "bool option"
  h_fatal_error :: "string option"
  sw_control :: "SqliteWriterControl option"
  to_writer :: "json list"
  from_writer :: "json list"
  sqlwriter :: SqliteWriter

record hybrid_env =
  key_rank :: "int \<Rightarrow> int"
  h_format_exc :: "exn \<Rightarrow> string"
  sqlite_size :: "SqliteDB \<Rightarrow> int"
  lmdb_used_size :: "LmdbEnv \<Rightarrow> int"

type_synonym 'b hact = "(hybrid, 'b) eff"

text \<open>A task that may not end: \<open>None\<close> when it runs for ever.\<close>

type_synonym 'b htask = "hybrid \<Rightarrow> ((exn + 'b) \<times> hybrid) option"

definition bindT :: "'a htask \<Rightarrow> ('a \<Rightarrow> 'b htask) \<Rightarrow> 'b htask" where
  "bindT m f = (\<lambda>s. case m s of None \<Rightarrow> None | Some (Inl e, t) \<Rightarrow> Some (Inl e, t) | Some (Inr x, t) \<Rightarrow> f x t)"

definition runT :: "'b hact \<Rightarrow> 'b htask" where
  "runT m = (\<lambda>s. Some (m s))"

definition tryT :: "'b htask \<Rightarrow> (exn \<Rightarrow> 'b htask) \<Rightarrow> 'b htask" where
  "tryT m h = (\<lambda>s. case m s of None \<Rightarrow> None | Some (Inl e, t) \<Rightarrow> h e t | Some (Inr x, t) \<Rightarrow> Some (Inr x, t))"

section \<open>Log objects on the shared files\<close>

definition sqlite_start :: "time \<Rightarrow> SqliteDB \<Rightarrow> Records option \<Rightarrow> Records" where
  "sqlite_start clock file records = (case records of Some r \<Rightarrow> r\<lparr>r_disk := file, r_work := file\<rparr>
     | None \<Rightarrow> snd (sql_open (new_Records True clock file)))"

definition lmdb_start :: "time \<Rightarrow> LmdbEnv \<Rightarrow> LmdbRecords" where
  "lmdb_start clock env = snd (lmdb_open (new_LmdbRecords clock env))"

text \<open>
  A call of a method of a log object: it sees the file as the last call of either process left it, with
  nothing of its own pending, and the attributes of its own process.
\<close>

definition on_file :: "SqliteDB \<Rightarrow> time \<Rightarrow> Records \<Rightarrow> Records" where
  "on_file file clock r = r\<lparr>r_disk := file, r_work := file, r_now := clock\<rparr>"

definition on_env :: "LmdbEnv \<Rightarrow> time \<Rightarrow> LmdbRecords \<Rightarrow> LmdbRecords" where
  "on_env env clock r = r\<lparr>l_env := env, l_now := clock\<rparr>"

definition writer_mod :: "(SqliteWriter \<Rightarrow> SqliteWriter) \<Rightarrow> unit hact" where
  "writer_mod f = modE (\<lambda>s. s\<lparr>sqlwriter := f (sqlwriter s)\<rparr>)"

definition writer_sqlite :: "(Records, 'b) eff \<Rightarrow> 'b hact" where
  "writer_sqlite m = (\<lambda>s. case w_sqlite (sqlwriter s) of
     Some (Some r) \<Rightarrow> (case m (on_file (sq_file s) (h_clock s) r) of
       (x, r') \<Rightarrow> (x, s\<lparr>sq_file := r_disk r', sqlwriter := (sqlwriter s)\<lparr>w_sqlite := Some (Some r')\<rparr>\<rparr>))
   | _ \<Rightarrow> (Inl AttributeError, s))"

definition writer_lmdb :: "(LmdbRecords, 'b) eff \<Rightarrow> 'b hact" where
  "writer_lmdb m = (\<lambda>s. case w_lmdb (sqlwriter s) of
     Some (Some r) \<Rightarrow> (case m (on_env (lm_file s) (h_clock s) r) of
       (x, r') \<Rightarrow> (x, s\<lparr>lm_file := l_env r', sqlwriter := (sqlwriter s)\<lparr>w_lmdb := Some (Some r')\<rparr>\<rparr>))
   | _ \<Rightarrow> (Inl AttributeError, s))"

text \<open>\<open>self.sqlite.start()\<close>, \<open>self.lmdb.start()\<close> and the two \<open>stop\<close>s in the writer.\<close>

definition writer_start_sqlite :: "unit hact" where
  "writer_start_sqlite = (\<lambda>s. case w_sqlite (sqlwriter s) of None \<Rightarrow> (Inl AttributeError, s)
     | Some records \<Rightarrow> (let r = sqlite_start (h_clock s) (sq_file s) records in
         (Inr (), s\<lparr>sq_file := r_disk r, sqlwriter := (sqlwriter s)\<lparr>w_sqlite := Some (Some r)\<rparr>\<rparr>)))"

definition writer_start_lmdb :: "unit hact" where
  "writer_start_lmdb = (\<lambda>s. case w_lmdb (sqlwriter s) of None \<Rightarrow> (Inl AttributeError, s)
     | Some _ \<Rightarrow> (let r = lmdb_start (h_clock s) (lm_file s) in
         (Inr (), s\<lparr>lm_file := l_env r, sqlwriter := (sqlwriter s)\<lparr>w_lmdb := Some (Some r)\<rparr>\<rparr>)))"

definition writer_stop_sqlite :: "unit hact" where
  "writer_stop_sqlite = bindE (getsE (\<lambda>s. w_sqlite (sqlwriter s))) (\<lambda>o1. bindE (some_or AttributeError o1) (\<lambda>records.
     whenE (records \<noteq> None) (writer_sqlite sql_close)))"

definition writer_stop_lmdb :: "unit hact" where
  "writer_stop_lmdb = bindE (getsE (\<lambda>s. w_lmdb (sqlwriter s))) (\<lambda>o1. bindE (some_or AttributeError o1) (\<lambda>records.
     whenE (records \<noteq> None) (writer_lmdb lmdb_close)))"

text \<open>
  \<open>if self.lmdb.records is not None: stop()\<close> and \<open>start()\<close>: the attributes are read again from the store,
  because those of an open object do not follow what the main process writes.
\<close>

definition reopen_lmdb :: "unit hact" where
  "reopen_lmdb = seqE writer_stop_lmdb writer_start_lmdb"

section \<open>The control object in the main process\<close>

definition new_SqliteWriterControl :: "int \<Rightarrow> int \<Rightarrow> SqliteWriterControl" where
  "new_SqliteWriterControl snaps block = \<lparr>c_snap_size = snaps, c_copy_block_size = block, c_connected = False,
     c_proc = False, c_running = False\<rparr>"

definition control :: "(SqliteWriterControl \<Rightarrow> 'b) \<Rightarrow> 'b hact" where
  "control f = bindE (getsE sw_control) (\<lambda>c. bindE (some_or AttributeError c) (\<lambda>c. ret (f c)))"

definition control_mod :: "(SqliteWriterControl \<Rightarrow> SqliteWriterControl) \<Rightarrow> unit hact" where
  "control_mod f = modE (\<lambda>s. s\<lparr>sw_control := map_option f (sw_control s)\<rparr>)"

definition send_command :: "(string \<times> json) list \<Rightarrow> unit hact" where
  "send_command cmd = bindE (control c_connected) (\<lambda>b.
     if b then modE (\<lambda>s. s\<lparr>to_writer := to_writer s @ [JObj cmd]\<rparr>) else throw AttributeError)"

definition send_limit :: "int \<Rightarrow> int \<Rightarrow> int \<Rightarrow> unit hact" where
  "send_limit limit commit_index apply_index = send_command
     [(''command'', str_json ''copy_limit''), (''limit'', JInt limit), (''commit_index'', JInt commit_index),
      (''apply_index'', JInt apply_index)]"

definition send_hard_push :: "int \<Rightarrow> int \<Rightarrow> int \<Rightarrow> unit hact" where
  "send_hard_push last_index commit_index apply_index = send_command
     [(''command'', str_json ''hard_push''), (''last_index'', JInt last_index), (''commit_index'', JInt commit_index),
      (''apply_index'', JInt apply_index)]"

definition control_set_snap_size :: "int \<Rightarrow> unit hact" where
  "control_set_snap_size n = bindE (control c_connected) (\<lambda>b.
     seqE (control_mod (\<lambda>c. c\<lparr>c_snap_size := n\<rparr>))
     (whenE b (send_command [(''command'', str_json ''snap_size''), (''size'', JInt n)])))"

definition control_set_copy_block_size :: "int \<Rightarrow> unit hact" where
  "control_set_copy_block_size n = bindE (control c_connected) (\<lambda>b.
     seqE (control_mod (\<lambda>c. c\<lparr>c_copy_block_size := n\<rparr>))
     (whenE b (send_command [(''command'', str_json ''copy_block_size''), (''size'', JInt n)])))"

definition send_note_delete :: "int \<Rightarrow> unit hact" where
  "send_note_delete new_last = send_command [(''command'', str_json ''note_delete''), (''new_last'', JInt new_last)]"

definition send_quit :: "unit hact" where
  "send_quit = send_command [(''command'', str_json ''quit'')]"

text \<open>
  \<open>stop\<close>: the writer process is told to quit and waited for. It ends by its own steps, which the caller
  does not observe.
\<close>

definition control_stop :: "unit hact" where
  "control_stop = seqE (control_mod (\<lambda>c. c\<lparr>c_running := False\<rparr>))
     (bindE (control c_connected) (\<lambda>b. seqE (whenE b send_quit)
     (control_mod (\<lambda>c. c\<lparr>c_proc := False\<rparr>))))"

section \<open>The writer\<close>

definition new_SqliteWriter :: "int \<Rightarrow> int \<Rightarrow> SqliteWriter" where
  "new_SqliteWriter snaps block = \<lparr>w_snap_size = snaps, w_copy_block_size = block, w_sqlite = Some None,
     w_lmdb = Some None, w_started = False, w_stopped = False, copy_limit = 0, copy_task_handle = False,
     upstream_commit_index = 0, upstream_apply_index = 0, copy_block_timestamps = [], copy_blocks_count = 0,
     s_running = False, s_connected = False, s_shutdown = False, s_fatal_error = None\<rparr>"

definition writer_start :: "unit hact" where
  "writer_start = bindE (getsE (\<lambda>s. w_started (sqlwriter s))) (\<lambda>st. whenE (\<not> st)
     (seqE writer_start_sqlite (seqE writer_start_lmdb
     (seqE (writer_mod (\<lambda>w. w\<lparr>s_running := True\<rparr>)) (writer_mod (\<lambda>w. w\<lparr>w_started := True\<rparr>))))))"

definition writer_stop :: "unit hact" where
  "writer_stop = bindE (getsE (\<lambda>s. w_stopped (sqlwriter s))) (\<lambda>st. whenE (\<not> st)
     (seqE (writer_mod (\<lambda>w. w\<lparr>copy_task_handle := False\<rparr>))
     (seqE writer_stop_sqlite (seqE writer_stop_lmdb
     (writer_mod (\<lambda>w. w\<lparr>w_sqlite := None, w_lmdb := None, w_stopped := True\<rparr>))))))"

definition writer_send :: "string \<Rightarrow> json \<Rightarrow> unit hact" where
  "writer_send c message = bindE (getsE (\<lambda>s. s_connected (sqlwriter s))) (\<lambda>b.
     if b then modE (\<lambda>s. s\<lparr>from_writer := from_writer s @ [JObj [(''code'', str_json c), (''message'', message)]]\<rparr>)
     else throw AttributeError)"

definition service_stop :: "unit hact" where
  "service_stop = writer_mod (\<lambda>w. w\<lparr>s_shutdown := True\<rparr>)"

definition report_fatal_error :: "hybrid_env \<Rightarrow> string \<Rightarrow> unit hact" where
  "report_fatal_error E error =
     seqE (tryE (seqE (writer_mod (\<lambda>w. w\<lparr>s_fatal_error := Some error\<rparr>))
                      (writer_send ''fatal_error'' (str_json error)))
                (\<lambda>e. writer_mod (\<lambda>w. w\<lparr>s_fatal_error := map_option (\<lambda>t. t @ '' '' @ h_format_exc E e) (s_fatal_error w)\<rparr>)))
     service_stop"

text \<open>\<open>serve\<close> returns once the shutdown event is set, and the writer stops.\<close>

definition serve_exit :: "unit hact" where
  "serve_exit = bindE (getsE (\<lambda>s. s_shutdown (sqlwriter s))) (\<lambda>b. whenE b
     (seqE (writer_mod (\<lambda>w. w\<lparr>s_running := False\<rparr>)) writer_stop))"

definition handle_deletes :: "int \<Rightarrow> unit hact" where
  "handle_deletes new_last = seqE reopen_lmdb
     (writer_mod (\<lambda>w. w\<lparr>upstream_commit_index := min new_last (upstream_commit_index w),
        upstream_apply_index := min new_last (upstream_apply_index w)\<rparr>))"

definition set_copy_limit :: "(string \<times> json) list \<Rightarrow> unit hact" where
  "set_copy_limit props =
     bindE (liftE (sbind (item ''limit'' props) j_int)) (\<lambda>limit.
     bindE (liftE (sbind (item ''commit_index'' props) j_int)) (\<lambda>ci.
     seqE (writer_mod (\<lambda>w. w\<lparr>upstream_commit_index := ci\<rparr>))
     (bindE (liftE (sbind (item ''apply_index'' props) j_int)) (\<lambda>ai.
     seqE (writer_mod (\<lambda>w. w\<lparr>upstream_apply_index := ai\<rparr>))
     (seqE (writer_mod (\<lambda>w. w\<lparr>copy_limit := limit\<rparr>))
     (writer_mod (\<lambda>w. w\<lparr>copy_task_handle := True\<rparr>)))))))"

definition writer_get_stats :: "((string \<times> json) list) hact" where
  "writer_get_stats =
     seqE (modE (\<lambda>s. s\<lparr>sqlwriter := (sqlwriter s)\<lparr>copy_block_timestamps :=
             filter (\<lambda>ts. ts \<ge> h_clock s - 300) (copy_block_timestamps (sqlwriter s))\<rparr>\<rparr>))
     (bindE (writer_sqlite (getsE (max_commit \<circ> r_stats))) (\<lambda>ci.
      bindE (writer_sqlite (getsE (max_apply \<circ> r_stats))) (\<lambda>ai.
      getsE (\<lambda>s. let w = sqlwriter s in
        [(''current_copy_limit'', JInt (copy_limit w)),
         (''upstream_commit_lag'', JInt (upstream_commit_index w - ci)),
         (''upstream_apply_lag'', JInt (upstream_apply_index w - ai)),
         (''copy_blocks_per_minute'', JInt (int (length (copy_block_timestamps w)) * 12))]))))"

section \<open>Copying\<close>

definition collect_block :: "hybrid_env \<Rightarrow> int list \<Rightarrow> LogRec list \<Rightarrow> (LogRec list) hact" where
  "collect_block E is recs = foldE is (\<lambda>i recs. bindE (writer_lmdb (lmdb_read (key_rank E) (Some i))) (\<lambda>r.
     ret (case r of None \<Rightarrow> recs | Some r \<Rightarrow> recs @ [r]))) recs"

definition store_copy :: "LogRec \<Rightarrow> unit hact" where
  "store_copy r = bindE (writer_sqlite (sql_insert r)) (\<lambda>_. ret ())"

definition copy_block :: "hybrid_env \<Rightarrow> int \<Rightarrow> int \<Rightarrow> unit hact" where
  "copy_block E first_index last_index = bindE (collect_block E (py_range first_index (last_index + 1)) []) (\<lambda>recs.
     forE recs store_copy)"

text \<open>\<open>if len(ts) > max_timestamps: ts = ts[max_timestamps//2:]\<close>, with the limit of 1000.\<close>

definition trim_timestamps :: "time list \<Rightarrow> time list" where
  "trim_timestamps ts = (if length ts > 1000 then drop 500 ts else ts)"

text \<open>One round of the copying loop; the result is the new value of \<open>my_last\<close>.\<close>

definition copy_round :: "hybrid_env \<Rightarrow> int \<Rightarrow> int hact" where
  "copy_round E my_last = bindE (getsE sqlwriter) (\<lambda>w0.
     seqE (if copy_limit w0 - my_last > w_copy_block_size w0
           then copy_block E my_last (my_last + w_copy_block_size w0)
           else copy_block E my_last (copy_limit w0))
     (bindE (writer_sqlite (getsE sql_get_last_index)) (\<lambda>max_ix.
      bindE (writer_sqlite (getsE sql_get_last_term)) (\<lambda>max_term.
      seqE (writer_sqlite (set_stat (\<lambda>st. st\<lparr>cur_term := max_term\<rparr>)))
      (bindE (writer_sqlite (getsE (max_commit \<circ> r_stats))) (\<lambda>local_commit.
       bindE (writer_sqlite (getsE (max_apply \<circ> r_stats))) (\<lambda>local_apply.
       seqE (whenE (upstream_commit_index w0 > local_commit)
              (writer_sqlite (set_commit_index (min (upstream_commit_index w0) max_ix))))
       (seqE (whenE (upstream_apply_index w0 > local_apply)
              (writer_sqlite (set_apply_index (min (upstream_apply_index w0) max_ix))))
       (seqE (modE (\<lambda>s. s\<lparr>sqlwriter := (sqlwriter s)\<lparr>copy_block_timestamps :=
                  trim_timestamps (copy_block_timestamps (sqlwriter s) @ [h_clock s]),
                copy_blocks_count := copy_blocks_count (sqlwriter s) + 1\<rparr>\<rparr>))
       (writer_sqlite (getsE sql_get_last_index)))))))))))"

partial_function (option) copy_loop :: "hybrid_env \<Rightarrow> int \<Rightarrow> int htask" where
  "copy_loop E my_last s =
     (if my_last < copy_limit (sqlwriter s)
      then (case copy_round E my_last s of (Inl e, t) \<Rightarrow> Some (Inl e, t) | (Inr m, t) \<Rightarrow> copy_loop E m t)
      else Some (Inr my_last, s))"

text \<open>One round of the snapshot loop; the result is the new low water mark.\<close>

definition snap_json :: "SnapShot \<Rightarrow> json" where
  "snap_json sn = JObj [(''index'', JInt (snap_index sn)), (''term'', JInt (snap_term sn))]"

definition snap_round :: "int \<Rightarrow> int \<Rightarrow> int hact" where
  "snap_round high_water low_water = bindE (getsE (\<lambda>s. w_snap_size (sqlwriter s))) (\<lambda>snaps.
     let to_send = min (high_water - low_water) snaps; ix = low_water - 1 + to_send in
     bindE (writer_sqlite (sql_read (Some ix))) (\<lambda>r. bindE (some_or AttributeError r) (\<lambda>r.
     seqE (writer_send ''snapshot'' (snap_json \<lparr>snap_index = rec_index r, snap_term = rec_term r\<rparr>))
     (ret (ix + 1)))))"

partial_function (option) snap_loop :: "int \<Rightarrow> int \<Rightarrow> unit htask" where
  "snap_loop high_water low_water s =
     (if high_water - low_water \<ge> w_snap_size (sqlwriter s)
      then (case snap_round high_water low_water s of (Inl e, t) \<Rightarrow> Some (Inl e, t)
            | (Inr m, t) \<Rightarrow> snap_loop high_water m t)
      else Some (Inr (), s))"

definition copy_start :: "int hact" where
  "copy_start = seqE reopen_lmdb (seqE (writer_sqlite refresh_stats)
     (bindE (writer_sqlite (getsE sql_get_last_index)) (\<lambda>my_last. ret (if my_last = 0 then 1 else my_last))))"

definition low_water_mark :: "int hact" where
  "low_water_mark = bindE (writer_lmdb (getsE l_snapshot)) (\<lambda>sn.
     ret (case sn of None \<Rightarrow> 1 | Some sn \<Rightarrow> snap_index sn + 1))"

definition copy_body :: "hybrid_env \<Rightarrow> unit htask" where
  "copy_body E = bindT (runT copy_start) (\<lambda>m. bindT (copy_loop E m) (\<lambda>my_last.
     bindT (runT low_water_mark) (\<lambda>low. snap_loop my_last low)))"

definition copy_task :: "hybrid_env \<Rightarrow> unit htask" where
  "copy_task E = bindT (tryT (copy_body E)
       (\<lambda>e. runT (seqE (report_fatal_error E (h_format_exc E e))
         (seqE (writer_mod (\<lambda>w. w\<lparr>copy_task_handle := False\<rparr>)) writer_stop))))
     (\<lambda>_. runT (writer_mod (\<lambda>w. w\<lparr>copy_task_handle := False\<rparr>)))"

section \<open>Hard push\<close>

definition hard_round :: "hybrid_env \<Rightarrow> int \<Rightarrow> int \<Rightarrow> (int \<times> int \<times> int) hact" where
  "hard_round E start_index end_index = bindE (getsE (\<lambda>s. copy_limit (sqlwriter s))) (\<lambda>limit.
     let to_copy = (if end_index - start_index > limit then limit else end_index - start_index) in
     seqE (copy_block E start_index (start_index + to_copy))
     (seqE writer_stop_lmdb (seqE writer_start_lmdb
     (bindE (writer_lmdb (getsE lmdb_get_last_index)) (\<lambda>end_i.
      bindE (writer_sqlite (getsE sql_get_last_index)) (\<lambda>sql_last.
      ret (to_copy, sql_last + 1, end_i)))))))"

partial_function (option) hard_loop :: "hybrid_env \<Rightarrow> int \<Rightarrow> int \<Rightarrow> int \<Rightarrow> (int \<times> int) htask" where
  "hard_loop E start_index end_index copied s =
     (if start_index < end_index
      then (case hard_round E start_index end_index s of (Inl e, t) \<Rightarrow> Some (Inl e, t)
            | (Inr (n, start_i, end_i), t) \<Rightarrow> hard_loop E start_i end_i (copied + n) t)
      else Some (Inr (copied, end_index), s))"

definition hard_start :: "(int \<times> int) hact" where
  "hard_start = seqE reopen_lmdb (seqE (writer_sqlite refresh_stats)
     (bindE (writer_sqlite (getsE sql_get_last_index)) (\<lambda>sql_last.
      bindE (writer_lmdb (getsE lmdb_get_last_index)) (\<lambda>lmdb_last. ret (sql_last, lmdb_last)))))"

definition hard_snapshot :: "int \<Rightarrow> int \<Rightarrow> unit hact" where
  "hard_snapshot copied ix = whenE (copied > 0)
     (bindE (writer_sqlite (sql_read (Some ix))) (\<lambda>r. bindE (some_or AttributeError r) (\<lambda>r.
      writer_send ''snapshot'' (snap_json \<lparr>snap_index = rec_index r, snap_term = rec_term r\<rparr>))))"

text \<open>The whole task sits in a \<open>try\<close> whose handler only logs.\<close>

definition hard_push_task :: "hybrid_env \<Rightarrow> unit htask" where
  "hard_push_task E = tryT (bindT (runT hard_start) (\<lambda>(sql_last, lmdb_last).
     if sql_last = lmdb_last then runT (ret ())
     else bindT (hard_loop E (sql_last + 1) lmdb_last 0) (\<lambda>(copied, end_i). runT (hard_snapshot copied end_i))))
     (\<lambda>e. runT (ret ()))"

section \<open>Requests\<close>

text \<open>\<open>handle_request\<close>: whether to go on.\<close>

definition handle_request :: "hybrid_env \<Rightarrow> (string \<times> json) list \<Rightarrow> bool htask" where
  "handle_request E request = bindT (runT (liftE (item ''command'' request))) (\<lambda>cmd.
     if cmd = str_json ''quit'' then runT (seqE (writer_send ''quitting'' (str_json [])) (ret False))
     else if cmd = str_json ''snap_size''
     then runT (bindE (liftE (sbind (item ''size'' request) j_int)) (\<lambda>n.
            seqE (writer_mod (\<lambda>w. w\<lparr>w_snap_size := n\<rparr>)) (ret True)))
     else if cmd = str_json ''copy_block_size''
     then runT (bindE (liftE (sbind (item ''size'' request) j_int)) (\<lambda>n.
            seqE (writer_mod (\<lambda>w. w\<lparr>w_copy_block_size := n\<rparr>)) (ret True)))
     else if cmd = str_json ''note_delete''
     then runT (bindE (liftE (sbind (item ''new_last'' request) j_int)) (\<lambda>n. seqE (handle_deletes n) (ret True)))
     else if cmd = str_json ''copy_limit'' then runT (seqE (set_copy_limit request) (ret True))
     else if cmd = str_json ''hard_push'' then bindT (hard_push_task E) (\<lambda>_. runT (ret True))
     else if cmd = str_json ''get_stats''
     then runT (bindE writer_get_stats (\<lambda>st. seqE (writer_send ''stats'' (JObj st)) (ret True)))
     else runT (throw UnknownWriterCode))"

text \<open>
  One round of \<open>handle_client\<close>: the next request, if one has come. An exception is reported, which ends
  the service; a \<open>quit\<close> ends it too.
\<close>

definition handle_client_turn :: "hybrid_env \<Rightarrow> unit htask" where
  "handle_client_turn E = (\<lambda>s. case to_writer s of [] \<Rightarrow> Some (Inr (), s)
     | q # qs \<Rightarrow> if \<not> s_running (sqlwriter s) \<or> s_shutdown (sqlwriter s) then Some (Inr (), s)
        else tryT (bindT (runT (liftE (j_obj q))) (\<lambda>request. bindT (handle_request E request) (\<lambda>go_flag.
               runT (whenE (\<not> go_flag) service_stop))))
             (\<lambda>e. runT (report_fatal_error E (''SqliteWriterService handler error'' @ h_format_exc E e)))
             (s\<lparr>to_writer := qs\<rparr>))"

section \<open>Starting the writer\<close>

text \<open>
  The retry loop of \<open>start\<close>: \<open>tries\<close> tells how each attempt to connect ends. The \<open>else\<close> that would raise
  \<open>TimeoutError\<close> belongs to the \<open>try\<close> and is never reached, so that a loop that runs out of time leaves the
  control object without a connection.
\<close>

fun connect_loop :: "time \<Rightarrow> bool list \<Rightarrow> bool" where
  "connect_loop elapsed [] = False"
| "connect_loop elapsed (ok # tries) =
     (if \<not> elapsed < 5 then False else if ok then True else connect_loop (elapsed + 1 / 10) tries)"

definition control_start :: "bool list \<Rightarrow> unit hact" where
  "control_start tries = bindE (control id) (\<lambda>c.
     seqE (modE (\<lambda>s. s\<lparr>sqlwriter := new_SqliteWriter (c_snap_size c) (c_copy_block_size c)\<rparr>))
     (seqE writer_start
     (seqE (whenE (connect_loop 0 tries) (seqE (control_mod (\<lambda>c. c\<lparr>c_connected := True\<rparr>))
              (writer_mod (\<lambda>w. w\<lparr>s_connected := True\<rparr>))))
     (control_mod (\<lambda>c. c\<lparr>c_proc := True, c_running := True\<rparr>)))))"

end
