(* ===== verification/Hybrid_Log.thy ===== *)
theory Hybrid_Log
  imports Sqlite_Writer
begin

text \<open>
  \<open>HybridLog\<close> of \<open>src/raftengine/extras/hybrid_log/hybrid_log.py\<close>: an LMDB log that takes the records,
  with a SQLite log as its archive. The writer process copies records to the archive and asks for a
  snapshot of the LMDB log, which prunes them there; reads at or below that snapshot go to the archive.
  The two log objects are the ones of \<open>Sqlite_Log\<close> and \<open>Lmdb_Log\<close>, on the files shared with the writer.
\<close>

section \<open>The log objects of the main process\<close>

definition main_sqlite :: "(Records, 'b) eff \<Rightarrow> 'b hact" where
  "main_sqlite m = (\<lambda>s. case h_sqlite s of
     Some (Some r) \<Rightarrow> (case m (on_file (sq_file s) (h_clock s) r) of
       (x, r') \<Rightarrow> (x, s\<lparr>sq_file := r_disk r', h_sqlite := Some (Some r')\<rparr>))
   | _ \<Rightarrow> (Inl AttributeError, s))"

definition main_lmdb :: "(LmdbRecords, 'b) eff \<Rightarrow> 'b hact" where
  "main_lmdb m = (\<lambda>s. case h_lmdb s of
     Some (Some r) \<Rightarrow> (case m (on_env (lm_file s) (h_clock s) r) of
       (x, r') \<Rightarrow> (x, s\<lparr>lm_file := l_env r', h_lmdb := Some (Some r')\<rparr>))
   | _ \<Rightarrow> (Inl AttributeError, s))"

text \<open>A method decorated with \<open>ensure_open\<close>.\<close>

definition if_open :: "'b hact \<Rightarrow> 'b hact" where
  "if_open m = bindE (getsE id) (\<lambda>s.
     if h_sqlite s = None \<or> h_lmdb s = None \<or> \<not> h_running s then throw LogNotRunning else m)"

definition new_HybridLog :: "int \<Rightarrow> int \<Rightarrow> int \<Rightarrow> int \<Rightarrow> SqliteDB \<Rightarrow> LmdbEnv \<Rightarrow> time \<Rightarrow> hybrid" where
  "new_HybridLog hold trigger snaps block db env clock =
     \<lparr>sq_file = db, lm_file = env, h_clock = clock, hold_count = hold, last_pressure_sent = 0,
      push_trigger = trigger, push_snap_size = snaps, h_copy_block_size = block, h_sqlite = Some None,
      h_lmdb = Some None, last_lmdb_snap = None, h_running = True, writer_stats = [],
      stats_request_event = None, h_fatal_error = None,
      sw_control = Some (new_SqliteWriterControl snaps block), to_writer = [], from_writer = [],
      sqlwriter = new_SqliteWriter snaps block\<rparr>"

definition set_hold_count :: "int \<Rightarrow> unit hact" where
  "set_hold_count v = modE (\<lambda>s. s\<lparr>hold_count := v\<rparr>)"

definition set_push_trigger :: "int \<Rightarrow> unit hact" where
  "set_push_trigger v = modE (\<lambda>s. s\<lparr>push_trigger := v\<rparr>)"

definition set_copy_size :: "int \<Rightarrow> unit hact" where
  "set_copy_size v = seqE (modE (\<lambda>s. s\<lparr>h_copy_block_size := v\<rparr>)) (control_set_copy_block_size v)"

definition set_snap_size :: "int \<Rightarrow> unit hact" where
  "set_snap_size v = seqE (modE (\<lambda>s. s\<lparr>push_snap_size := v\<rparr>)) (control_set_snap_size v)"

section \<open>Start and stop\<close>

definition main_start_lmdb :: "unit hact" where
  "main_start_lmdb = (\<lambda>s. case h_lmdb s of None \<Rightarrow> (Inl AttributeError, s)
     | Some _ \<Rightarrow> (let r = lmdb_start (h_clock s) (lm_file s) in
         (Inr (), s\<lparr>lm_file := l_env r, h_lmdb := Some (Some r)\<rparr>)))"

definition main_start_sqlite :: "unit hact" where
  "main_start_sqlite = (\<lambda>s. case h_sqlite s of None \<Rightarrow> (Inl AttributeError, s)
     | Some records \<Rightarrow> (let r = sqlite_start (h_clock s) (sq_file s) records in
         (Inr (), s\<lparr>sq_file := r_disk r, h_sqlite := Some (Some r)\<rparr>)))"

definition hyb_start :: "bool list \<Rightarrow> unit hact" where
  "hyb_start tries = seqE main_start_lmdb (seqE main_start_sqlite (seqE (control_start tries)
     (modE (\<lambda>s. s\<lparr>h_running := True\<rparr>))))"

definition hyb_stop :: "unit hact" where
  "hyb_stop = seqE (modE (\<lambda>s. s\<lparr>h_running := False\<rparr>))
     (seqE (bindE (getsE h_lmdb) (\<lambda>o1. case o1 of None \<Rightarrow> ret ()
        | Some records \<Rightarrow> seqE (whenE (records \<noteq> None) (main_lmdb lmdb_close)) (modE (\<lambda>s. s\<lparr>h_lmdb := None\<rparr>))))
     (seqE (bindE (getsE h_sqlite) (\<lambda>o1. case o1 of None \<Rightarrow> ret ()
        | Some records \<Rightarrow> seqE (whenE (records \<noteq> None) (main_sqlite sql_close)) (modE (\<lambda>s. s\<lparr>h_sqlite := None\<rparr>))))
     (bindE (getsE sw_control) (\<lambda>c. case c of None \<Rightarrow> ret ()
        | Some _ \<Rightarrow> seqE control_stop (modE (\<lambda>s. s\<lparr>sw_control := None\<rparr>))))))"

section \<open>Attributes\<close>

definition hyb_get_broken :: "bool hact" where
  "hyb_get_broken = if_open (bindE (main_sqlite (getsE (broken \<circ> r_stats))) (\<lambda>b.
     if b then ret b else main_lmdb (getsE (broken \<circ> l_stats))))"

definition hyb_set_broken :: "hybrid_env \<Rightarrow> unit hact" where
  "hyb_set_broken E = if_open (seqE (main_sqlite (set_broken sqlite_api)) (main_lmdb (set_broken (lmdb_api (key_rank E)))))"

definition hyb_set_fixed :: "hybrid_env \<Rightarrow> unit hact" where
  "hyb_set_fixed E = if_open (seqE (main_sqlite (set_fixed sqlite_api)) (main_lmdb (set_fixed (lmdb_api (key_rank E)))))"

definition hyb_get_uri :: "(uri option) hact" where
  "hyb_get_uri = if_open (main_lmdb (getsE (own_uri \<circ> l_stats)))"

definition hyb_set_uri :: "hybrid_env \<Rightarrow> uri \<Rightarrow> unit hact" where
  "hyb_set_uri E u = if_open (main_lmdb (set_uri (lmdb_api (key_rank E)) u))"

definition hyb_get_term :: "int hact" where
  "hyb_get_term = if_open (main_lmdb (getsE (cur_term \<circ> l_stats)))"

definition hyb_set_term :: "hybrid_env \<Rightarrow> int \<Rightarrow> unit hact" where
  "hyb_set_term E v = if_open (seqE (main_sqlite (set_term sqlite_api v)) (main_lmdb (set_term (lmdb_api (key_rank E)) v)))"

text \<open>\<open>incr_term\<close> returns what \<open>set_term\<close> does, which is nothing.\<close>

definition hyb_incr_term :: "hybrid_env \<Rightarrow> unit hact" where
  "hyb_incr_term E = if_open (bindE hyb_get_term (\<lambda>t. hyb_set_term E (t + 1)))"

definition hyb_get_voted_for :: "(uri option) hact" where
  "hyb_get_voted_for = if_open (main_lmdb (getsE (voted_for \<circ> l_stats)))"

definition hyb_set_voted_for :: "hybrid_env \<Rightarrow> uri option \<Rightarrow> unit hact" where
  "hyb_set_voted_for E v =
     if_open (seqE (main_sqlite (set_voted_for sqlite_api v)) (main_lmdb (set_voted_for (lmdb_api (key_rank E)) v)))"

definition hyb_get_last_index :: "int hact" where
  "hyb_get_last_index = if_open (main_lmdb (getsE lmdb_get_last_index))"

definition hyb_get_first_index :: "(int option) hact" where
  "hyb_get_first_index = if_open (bindE (main_lmdb (getsE lmdb_get_first_index)) (\<lambda>f.
     if f = None then main_sqlite (getsE sql_get_first_index) else ret f))"

definition hyb_get_last_term :: "hybrid_env \<Rightarrow> int hact" where
  "hyb_get_last_term E = if_open (main_lmdb (getsE (lmdb_get_last_term (key_rank E))))"

definition hyb_get_commit_index :: "int hact" where
  "hyb_get_commit_index = if_open (main_lmdb (getsE (max_commit \<circ> l_stats)))"

definition hyb_get_applied_index :: "int hact" where
  "hyb_get_applied_index = if_open (main_lmdb (getsE (max_apply \<circ> l_stats)))"

section \<open>Records\<close>

definition relieve_pressure :: "int \<Rightarrow> unit hact" where
  "relieve_pressure new_limit = bindE (main_lmdb (getsE (max_commit \<circ> l_stats))) (\<lambda>ci.
     bindE (main_lmdb (getsE (max_apply \<circ> l_stats))) (\<lambda>ai.
     seqE (send_limit new_limit ci ai) (modE (\<lambda>s. s\<lparr>last_pressure_sent := new_limit\<rparr>))))"

text \<open>
  The task that sends the new limit runs while \<open>insert\<close> yields to the event loop before it returns;
  an exception in it is not seen by the caller.
\<close>

definition hyb_insert :: "hybrid_env \<Rightarrow> LogRec \<Rightarrow> LogRec hact" where
  "hyb_insert E r = if_open (bindE (main_lmdb (lmdb_insert (key_rank E) r)) (\<lambda>r.
     bindE (main_lmdb (getsE lmdb_get_last_index)) (\<lambda>last_i.
     bindE (main_lmdb (getsE lmdb_get_first_index)) (\<lambda>first. bindE (some_or TypeError first) (\<lambda>first_i.
     bindE (getsE id) (\<lambda>s.
     seqE (whenE (last_i - first_i - last_pressure_sent s - hold_count s \<ge> push_trigger s)
             (tryE (relieve_pressure (rec_index r - hold_count s)) (\<lambda>_. ret ())))
     (ret r)))))))"

definition hyb_append :: "hybrid_env \<Rightarrow> LogRec \<Rightarrow> LogRec hact" where
  "hyb_append E r = if_open (hyb_insert E r)"

definition hyb_mark_committed :: "int \<Rightarrow> unit hact" where
  "hyb_mark_committed i = if_open (main_lmdb (lmdb_set_commit_index i))"

definition hyb_mark_applied :: "int \<Rightarrow> unit hact" where
  "hyb_mark_applied i = if_open (main_lmdb (lmdb_set_apply_index i))"

definition hyb_read :: "hybrid_env \<Rightarrow> int option \<Rightarrow> (LogRec option) hact" where
  "hyb_read E ix = if_open (case ix of None \<Rightarrow> main_lmdb (lmdb_read (key_rank E) None)
     | Some i \<Rightarrow> bindE (getsE last_lmdb_snap) (\<lambda>sn.
         if (case sn of None \<Rightarrow> False | Some sn \<Rightarrow> snap_index sn \<ge> i) then main_sqlite (sql_read (Some i))
         else main_lmdb (lmdb_read (key_rank E) (Some i))))"

definition trim_archive :: "int \<Rightarrow> unit hact" where
  "trim_archive i = bindE (main_sqlite (getsE sql_get_first_index)) (\<lambda>s_first. whenE (s_first \<noteq> None)
     (bindE (main_sqlite (getsE sql_get_last_index)) (\<lambda>s_last. whenE (i < s_last)
       (seqE (main_sqlite (sql_delete_all_from i)) (send_note_delete (i - 1))))))"

definition hyb_delete_all_from :: "hybrid_env \<Rightarrow> int \<Rightarrow> unit hact" where
  "hyb_delete_all_from E i = if_open (bindE (main_sqlite (getsE r_snapshot)) (\<lambda>sn.
     if (case sn of None \<Rightarrow> False | Some sn \<Rightarrow> i < snap_index sn + 1) then throw (DeleteInSnapshot i)
     else seqE (trim_archive i)
       (seqE (modE (\<lambda>s. s\<lparr>last_pressure_sent := (if i = 1 then 0 else min i (last_pressure_sent s))\<rparr>))
       (bindE (main_lmdb (getsE l_snapshot)) (\<lambda>lm_snap.
        if (case lm_snap of None \<Rightarrow> True | Some sn \<Rightarrow> snap_index sn < i)
        then main_lmdb (lmdb_delete_all_from (key_rank E) i)
        else main_lmdb (clear_despite_snapshot (key_rank E)))))))"

section \<open>Configuration and snapshots\<close>

definition hyb_save_cluster_config :: "ClusterConfig \<Rightarrow> ClusterConfig hact" where
  "hyb_save_cluster_config c =
     if_open (bindE (main_sqlite (sql_save_cluster_config c)) (\<lambda>_. main_lmdb (lmdb_save_cluster_config c)))"

definition hyb_get_cluster_config :: "(ClusterConfig option) hact" where
  "hyb_get_cluster_config = if_open (main_lmdb (getsE lmdb_get_cluster_config))"

definition hyb_install_snapshot :: "hybrid_env \<Rightarrow> SnapShot \<Rightarrow> SnapShot hact" where
  "hyb_install_snapshot E sn = if_open (seqE (main_sqlite refresh_stats)
     (if snap_index sn = 0 then throw SnapshotAtZero
      else seqE (main_sqlite (special_install_snapshot sn))
        (bindE (main_lmdb (getsE l_snapshot)) (\<lambda>lm_snap.
         if (case lm_snap of None \<Rightarrow> False | Some l \<Rightarrow> snap_index l \<ge> snap_index sn) then ret sn
         else bindE (main_lmdb (getsE lmdb_get_first_index)) (\<lambda>lmdb_first.
           seqE (whenE (case lmdb_first of None \<Rightarrow> False | Some f \<Rightarrow> f \<noteq> 0 \<and> snap_index sn > f)
                  (main_lmdb (lmdb_install_snapshot (key_rank E) sn)))
           (ret sn))))))"

definition hyb_get_snapshot :: "(SnapShot option) hact" where
  "hyb_get_snapshot = if_open (main_sqlite (getsE r_snapshot))"

definition push_all :: "unit hact" where
  "push_all = if_open (bindE (main_lmdb (getsE lmdb_get_last_index)) (\<lambda>last_i.
     bindE (main_lmdb (getsE (max_commit \<circ> l_stats))) (\<lambda>ci.
     bindE (main_lmdb (getsE (max_apply \<circ> l_stats))) (\<lambda>ai. send_hard_push last_i ci ai))))"

section \<open>Messages of the writer\<close>

definition process_snapshot :: "hybrid_env \<Rightarrow> SnapShot \<Rightarrow> unit hact" where
  "process_snapshot E sn = tryE
     (seqE (main_sqlite refresh_stats) (seqE (main_lmdb (lmdb_install_snapshot (key_rank E) sn))
       (modE (\<lambda>s. s\<lparr>last_lmdb_snap := Some sn\<rparr>))))
     (\<lambda>e. seqE (tryE hyb_stop (\<lambda>_. ret ())) (throw e))"

definition sw_control_callback :: "hybrid_env \<Rightarrow> string \<Rightarrow> json \<Rightarrow> unit hact" where
  "sw_control_callback E c payload =
     (if c = ''snapshot''
      then bindE (liftE (j_obj payload)) (\<lambda>d. bindE (liftE (sbind (item ''index'' d) j_int)) (\<lambda>i.
             bindE (liftE (sbind (item ''term'' d) j_int)) (\<lambda>t.
             process_snapshot E \<lparr>snap_index = i, snap_term = t\<rparr>)))
      else if c = ''stats''
      then bindE (liftE (j_obj payload)) (\<lambda>d. modE (\<lambda>s. s\<lparr>writer_stats := d,
             stats_request_event := map_option (\<lambda>_. True) (stats_request_event s)\<rparr>))
      else seqE hyb_stop (throw UnknownWriterCode))"

definition handle_writer_error :: "hybrid_env \<Rightarrow> string \<Rightarrow> unit hact" where
  "handle_writer_error E error = seqE (modE (\<lambda>s. s\<lparr>h_fatal_error := Some error\<rparr>)) (hyb_set_broken E)"

text \<open>
  One round of \<open>read_backchannel\<close>, with the two ways out of its loop: a \<open>quitting\<close> message stops the
  control object, an exception stops it too and starts the error callback as a task of its own.
\<close>

definition backchannel_message :: "hybrid_env \<Rightarrow> json \<Rightarrow> bool hact" where
  "backchannel_message E m = bindE (liftE (j_obj m)) (\<lambda>d. bindE (liftE (sbind (item ''code'' d) j_str)) (\<lambda>c.
     if c = ''quitting'' then ret False
     else if c = ''snapshot'' \<or> c = ''stats''
     then bindE (liftE (item ''message'' d)) (\<lambda>p. seqE (sw_control_callback E c p) (ret True))
     else throw UnknownWriterCode))"

definition backchannel_turn :: "hybrid_env \<Rightarrow> unit hact" where
  "backchannel_turn E = bindE (getsE id) (\<lambda>s. case (from_writer s, sw_control s) of
     (m # ms, Some c) \<Rightarrow> if \<not> c_running c then ret ()
       else seqE (modE (\<lambda>s. s\<lparr>from_writer := ms\<rparr>))
         (bindE (tryE (bindE (backchannel_message E m) (\<lambda>go. ret (Inr go))) (\<lambda>e. ret (Inl e))) (\<lambda>out.
          case out of Inr go \<Rightarrow> whenE (\<not> go) control_stop
          | Inl e \<Rightarrow> seqE (tryE control_stop (\<lambda>_. ret ()))
              (tryE (handle_writer_error E (h_format_exc E e)) (\<lambda>_. ret ()))))
   | _ \<Rightarrow> ret ())"

section \<open>Statistics\<close>

definition LMDB_MAP_SIZE :: int where
  "LMDB_MAP_SIZE = 10 ^ 9 * 2"

record HybridStats =
  hs_lmdb :: LogStats
  hs_sqlite :: LogStats
  ingress_rate :: rat
  copy_rate :: rat
  copy_lag :: int
  lmdb_record_count :: int
  sqlite_record_count :: int
  current_pressure :: int
  last_limit_sent :: int
  lmdb_percent_remaining :: "rat option"
  total_hybrid_size_bytes :: int
  hs_copy_limit :: json
  hs_commit_lag :: json
  hs_apply_lag :: json
  hs_blocks_per_minute :: json

definition calculate_pressure :: "int hact" where
  "calculate_pressure = bindE (main_lmdb (getsE lmdb_get_last_index)) (\<lambda>last_i.
     bindE (main_lmdb (getsE lmdb_get_first_index)) (\<lambda>first.
     getsE (\<lambda>s. last_i - (case first of None \<Rightarrow> 0 | Some f \<Rightarrow> f) - last_pressure_sent s - hold_count s)))"

text \<open>
  The wait for the answer of the writer, at most 0.2 seconds: \<open>meanwhile\<close> is what the event loop and the
  writer process do in that time.
\<close>

definition get_writer_stats :: "unit hact \<Rightarrow> ((string \<times> json) list) hact" where
  "get_writer_stats meanwhile = if_open (seqE (modE (\<lambda>s. s\<lparr>stats_request_event := Some False\<rparr>))
     (seqE (send_command [(''command'', str_json ''get_stats'')])
     (seqE (tryE meanwhile (\<lambda>_. ret ()))
     (bindE (getsE id) (\<lambda>s. seqE (modE (\<lambda>s. s\<lparr>stats_request_event := None\<rparr>))
       (if stats_request_event s = Some True then ret (writer_stats s) else throw TimeoutError))))))"

definition main_lmdb_stats :: "hybrid_env \<Rightarrow> LogStats hact" where
  "main_lmdb_stats E = main_lmdb (getsE (\<lambda>r.
     lmdb_get_stats (key_rank E) LMDB_MAP_SIZE (lmdb_used_size E (l_env r)) r))"

definition main_sqlite_stats :: "hybrid_env \<Rightarrow> LogStats hact" where
  "main_sqlite_stats E = main_sqlite (getsE (\<lambda>r. sql_get_stats (sqlite_size E (r_disk r)) r))"

definition get_hybrid_stats :: "hybrid_env \<Rightarrow> unit hact \<Rightarrow> HybridStats hact" where
  "get_hybrid_stats E meanwhile = if_open (bindE (main_lmdb_stats E) (\<lambda>l. bindE (main_sqlite_stats E) (\<lambda>q.
     bindE (main_lmdb (getsE lmdb_get_last_index)) (\<lambda>lmdb_last.
     bindE (main_sqlite (getsE sql_get_last_index)) (\<lambda>sql_last.
     bindE (get_writer_stats meanwhile) (\<lambda>ws. bindE calculate_pressure (\<lambda>pressure.
     bindE (getsE last_pressure_sent) (\<lambda>sent.
     bindE (liftE (item ''current_copy_limit'' ws)) (\<lambda>a. bindE (liftE (item ''upstream_commit_lag'' ws)) (\<lambda>b.
     bindE (liftE (item ''upstream_apply_lag'' ws)) (\<lambda>c. bindE (liftE (item ''copy_blocks_per_minute'' ws)) (\<lambda>d.
     ret \<lparr>hs_lmdb = l, hs_sqlite = q, ingress_rate = st_records_per_minute l,
       copy_rate = st_records_per_minute q, copy_lag = lmdb_last - sql_last,
       lmdb_record_count = st_record_count l, sqlite_record_count = st_record_count q,
       current_pressure = pressure, last_limit_sent = sent, lmdb_percent_remaining = st_percent_remaining l,
       total_hybrid_size_bytes = st_total_size_bytes l + st_total_size_bytes q,
       hs_copy_limit = a, hs_commit_lag = b, hs_apply_lag = c, hs_blocks_per_minute = d\<rparr>))))))))))))"

definition hyb_get_stats :: "hybrid_env \<Rightarrow> unit hact \<Rightarrow> (LogStats \<times> HybridStats) hact" where
  "hyb_get_stats E meanwhile = if_open (bindE (main_lmdb_stats E) (\<lambda>l. bindE (main_sqlite_stats E) (\<lambda>q.
     bindE (main_lmdb (getsE lmdb_get_last_index)) (\<lambda>lmdb_last.
     bindE (main_lmdb (getsE lmdb_get_first_index)) (\<lambda>lmdb_first.
     bindE (main_sqlite (getsE sql_get_first_index)) (\<lambda>sql_first.
     bindE (main_sqlite (getsE r_snapshot)) (\<lambda>sn.
     let (count, first) = (case (sql_first, lmdb_first) of
           (None, None) \<Rightarrow> (0, None)
         | (Some f, None) \<Rightarrow> (st_record_count q, Some f)
         | (None, Some f) \<Rightarrow> (st_record_count l, Some f)
         | (Some f, Some _) \<Rightarrow> (lmdb_last - f + 1, Some f)) in
     bindE (main_lmdb (getsE (lmdb_get_last_term (key_rank E)))) (\<lambda>last_t.
     bindE hyb_get_commit_index (\<lambda>ci. bindE hyb_get_applied_index (\<lambda>ai.
     bindE (get_hybrid_stats E meanwhile) (\<lambda>extra.
     ret (\<lparr>st_first_index = first, st_last_index = lmdb_last, st_last_term = last_t, st_commit_index = ci,
       st_applied_index = ai, st_record_count = count,
       st_records_since_snapshot = (case sn of Some sn \<Rightarrow> lmdb_last - snap_index sn | None \<Rightarrow> count),
       st_records_per_minute = st_records_per_minute l, st_percent_remaining = None,
       st_total_size_bytes = st_total_size_bytes l + st_total_size_bytes q,
       st_snapshot_index = map_option snap_index sn,
       st_last_record_timestamp = st_last_record_timestamp l\<rparr>, extra))))))))))))"

end
