(* ===== verification/Hybrid_Props.thy ===== *)
theory Hybrid_Props
  imports Hybrid_Log
begin

text \<open>
  What the hybrid log promises: a copy task of the writer ends and brings the archive up to its limit
  (\<open>copy_completes\<close>), and through inserts, marks, whole copy tasks and snapshot messages in any order no
  record is lost or changed for a reader (\<open>archiving_invisible\<close>), on a big-endian machine and as long as a
  copy task only starts once the snapshots of the one before are installed. What it does not: a copy task
  that starts earlier sends the same snapshots again, and the main process goes back to them
  (\<open>snapshots_sent_again\<close>); the main process and the writer keep
  the attributes of the archive each in its own memory and write them to the same row, so that a change
  of term between a copy and its snapshot makes archived records unreadable (\<open>term_change_hides_archive\<close>)
  and a deletion leaves old records in the archive (\<open>delete_leaves_stale_archive\<close>); and a log that is
  started again does not find its archive (\<open>restart_hides_archive\<close>).
\<close>

section \<open>What the files hold\<close>

definition file_ents :: "SqliteDB \<Rightarrow> int \<Rightarrow> LogRec option" where
  "file_ents d i = map_option (rec_of i) (dict_get (tab_records d) i)"

definition env_ents :: "LmdbEnv \<Rightarrow> int \<Rightarrow> LogRec option" where
  "env_ents e i = map_option content (dict_get (records_db e) i)"

lemma env_ents_simps [simp]:
  "env_ents (e\<lparr>stats_db := x\<rparr>) = env_ents e" "env_ents (e\<lparr>snapshots_db := y\<rparr>) = env_ents e"
  "env_ents (e\<lparr>timestamps_db := z\<rparr>) = env_ents e"
  "env_ents (e\<lparr>records_db := dict_filter P (records_db e)\<rparr>) i = (if P i then env_ents e i else None)"
  "env_ents (e\<lparr>records_db := dict_set k r (records_db e)\<rparr>) i = (if i = k then Some (content r) else env_ents e i)"
  by (simp_all add: env_ents_def fun_eq_iff)

text \<open>The result of \<open>LmdbLog.read(i)\<close> on a given object.\<close>

definition lmdb_at :: "(int \<Rightarrow> int) \<Rightarrow> LmdbRecords \<Rightarrow> int \<Rightarrow> LogRec option" where
  "lmdb_at rank l i = (case lmdb_read rank (Some i) l of (Inr r, _) \<Rightarrow> r | _ \<Rightarrow> None)"

lemma lmdb_read_at: "1 \<le> i \<Longrightarrow> lmdb_read rank (Some i) l = (Inr (lmdb_at rank l i), l)"
  by (simp add: lmdb_at_def lmdb_read_def run Let_def)

lemma lmdb_at_content:
  "1 \<le> i \<Longrightarrow> map_option content (lmdb_at rank l i) =
     (if i \<le> max_index (l_stats l) then env_ents (l_env l) i else None)"
  by (cases "dict_get (records_db (l_env l)) i")
     (auto simp: lmdb_at_def lmdb_read_def run Let_def lmdb_get_entry_at_def lmdb_read_entry_def env_ents_def content_def)

section \<open>Calls of the writer\<close>

text \<open>The log objects of the writer are in step with the files; so they are after every call within a task.\<close>

definition wsync :: "hybrid \<Rightarrow> Records \<Rightarrow> bool" where
  "wsync s r \<longleftrightarrow> w_sqlite (sqlwriter s) = Some (Some r) \<and> r_disk r = sq_file s \<and> r_work r = sq_file s \<and>
     r_now r = h_clock s \<and> r_open r"

definition lsync :: "hybrid \<Rightarrow> LmdbRecords \<Rightarrow> bool" where
  "lsync s l \<longleftrightarrow> w_lmdb (sqlwriter s) = Some (Some l) \<and> l_env l = lm_file s \<and> l_now l = h_clock s"

definition wset :: "Records \<Rightarrow> hybrid \<Rightarrow> hybrid" where
  "wset r s = s\<lparr>sq_file := r_disk r, sqlwriter := (sqlwriter s)\<lparr>w_sqlite := Some (Some r)\<rparr>\<rparr>"

lemma wset_simps [simp]:
  "sq_file (wset r s) = r_disk r" "lm_file (wset r s) = lm_file s" "h_clock (wset r s) = h_clock s"
  "w_sqlite (sqlwriter (wset r s)) = Some (Some r)" "w_lmdb (sqlwriter (wset r s)) = w_lmdb (sqlwriter s)"
  "copy_limit (sqlwriter (wset r s)) = copy_limit (sqlwriter s)"
  "w_copy_block_size (sqlwriter (wset r s)) = w_copy_block_size (sqlwriter s)"
  "w_snap_size (sqlwriter (wset r s)) = w_snap_size (sqlwriter s)"
  "copy_block_timestamps (sqlwriter (wset r s)) = copy_block_timestamps (sqlwriter s)"
  "copy_blocks_count (sqlwriter (wset r s)) = copy_blocks_count (sqlwriter s)"
  "s_connected (sqlwriter (wset r s)) = s_connected (sqlwriter s)" "from_writer (wset r s) = from_writer s"
  "wset r (wset r' s) = wset r s"
  by (simp_all add: wset_def)

lemma wset_same: "wsync s r \<Longrightarrow> wset r s = s"
  by (simp add: wset_def wsync_def)

lemma wsync_wset:
  "wsync s r \<Longrightarrow> r_open r' \<Longrightarrow> r_disk r' = r_work r' \<Longrightarrow> r_now r' = r_now r \<Longrightarrow> wsync (wset r' s) r'"
  by (simp add: wsync_def)

lemma lsync_wset [simp]: "lsync (wset r s) l = lsync s l"
  by (simp add: lsync_def)

lemma on_file_same: "wsync s r \<Longrightarrow> on_file (sq_file s) (h_clock s) r = r"
  by (simp add: on_file_def wsync_def)

lemma on_env_same: "lsync s l \<Longrightarrow> on_env (lm_file s) (h_clock s) l = l"
  by (simp add: on_env_def lsync_def)

lemma writer_sqlite_run:
  "wsync s r \<Longrightarrow> m r = (x, r') \<Longrightarrow> writer_sqlite m s = (x, wset r' s)"
  using on_file_same [of s r] by (simp add: writer_sqlite_def wsync_def wset_def)

lemma writer_sqlite_gets: "wsync s r \<Longrightarrow> writer_sqlite (getsE f) s = (Inr (f r), s)"
  using writer_sqlite_run [of s r "getsE f"] by (simp add: run_getsE wset_same)

lemma writer_lmdb_same: "lsync s l \<Longrightarrow> m l = (x, l) \<Longrightarrow> writer_lmdb m s = (x, s)"
  using on_env_same [of s l] by (simp add: writer_lmdb_def lsync_def)

lemma writer_lmdb_gets: "lsync s l \<Longrightarrow> writer_lmdb (getsE f) s = (Inr (f l), s)"
  by (rule writer_lmdb_same) (simp_all add: run_getsE)

lemma writer_lmdb_read:
  "lsync s l \<Longrightarrow> 1 \<le> i \<Longrightarrow> writer_lmdb (lmdb_read rank (Some i)) s = (Inr (lmdb_at rank l i), s)"
  by (rule writer_lmdb_same) (simp_all add: lmdb_read_at)

section \<open>Copying a block\<close>

lemma collect_block_run:
  assumes "lsync s l" and "\<And>i. i \<in> set is \<Longrightarrow> 1 \<le> i"
  shows "collect_block E is recs s = (Inr (recs @ List.map_filter (lmdb_at (key_rank E) l) is), s)"
  using assms(2)
proof (induction "is" arbitrary: recs)
  case (Cons i "is")
  then show ?case
    using writer_lmdb_read [OF assms(1), of i "key_rank E"]
    by (auto simp: collect_block_def run_bindE run_ret List.map_filter_def split: option.split)
qed (simp add: collect_block_def run_ret List.map_filter_def)

text \<open>
  Storing records of consecutive indexes \<open>lo\<close> to \<open>hi\<close>: the archive then holds their contents there, and
  what it held elsewhere.
\<close>

definition stored :: "int \<Rightarrow> int \<Rightarrow> (int \<Rightarrow> LogRec option) \<Rightarrow> Records \<Rightarrow> Records \<Rightarrow> bool" where
  "stored lo hi f r r' \<longleftrightarrow> r_open r' \<and> r_disk r' = r_work r' \<and> r_now r' = r_now r \<and> r_snapshot r' = r_snapshot r \<and>
     tab_snapshot (r_work r') = tab_snapshot (r_work r) \<and>
     max_index (r_stats r') = max (max_index (r_stats r)) hi \<and>
     tab_stats (r_work r') = Some (r_stats r') \<and>
     (\<forall>i. file_ents (r_work r') i = (if lo \<le> i \<and> i \<le> hi then f i else file_ents (r_work r) i))"

lemma stored_cong:
  "stored lo hi f r r' \<Longrightarrow> (\<And>i. lo \<le> i \<Longrightarrow> i \<le> hi \<Longrightarrow> f i = g i) \<Longrightarrow> stored lo hi g r r'"
  by (simp add: stored_def)

lemma stored_trans:
  assumes "stored lo mid f r r1" and "stored lo' hi f r1 r2" and "lo \<le> lo'" "lo' \<le> mid + 1" "mid \<le> hi"
  shows "stored lo hi f r r2"
proof -
  have "file_ents (r_work r2) i = (if lo \<le> i \<and> i \<le> hi then f i else file_ents (r_work r) i)" for i
    using assms by (cases "lo' \<le> i \<and> i \<le> hi"; cases "lo \<le> i \<and> i \<le> mid") (auto simp: stored_def)
  with assms show ?thesis by (simp add: stored_def max_def)
qed

lemma store_copy_run:
  assumes "wsync s r" and "1 \<le> rec_index x" and "rec_index x \<le> max_index (r_stats r) + 1"
  shows "\<exists>r'. store_copy x s = (Inr (), wset r' s) \<and> wsync (wset r' s) r' \<and>
    stored (rec_index x) (rec_index x) (\<lambda>i. Some (content x)) r r'"
proof -
  let ?r = "put ((r_work r)\<lparr>tab_records := dict_set (rec_index x) (row_of (r_now r) x) (tab_records (r_work r))\<rparr>)
         ((r_stats r)\<lparr>max_index := max (rec_index x) (max_index (r_stats r))\<rparr>) r"
  have o: "r_open r" using assms(1) by (simp add: wsync_def)
  have "sql_insert x r = (Inr x, ?r)"
    using assms(2,3) save_entry_run [OF o] by (simp add: sql_insert_def run_bindE run_getsE)
  then have "store_copy x s = (Inr (), wset ?r s)"
    by (simp add: store_copy_def run_bindE run_ret writer_sqlite_run [OF assms(1)])
  moreover have "r_now ?r = r_now r" by (simp add: put_def)
  moreover have "wsync (wset ?r s) ?r"
    using o by (intro wsync_wset [OF assms(1)]) (simp_all add: put_def)
  moreover have "stored (rec_index x) (rec_index x) (\<lambda>i. Some (content x)) r ?r"
    using o by (auto simp: stored_def file_ents_def max_def put_def)
  ultimately show ?thesis by blast
qed

lemma store_block_run:
  assumes "wsync s r" and "map rec_index xs = [lo..hi]" and "1 \<le> lo" and "lo \<le> hi" and "lo \<le> max_index (r_stats r) + 1"
  shows "\<exists>r'. forE xs store_copy s = (Inr (), wset r' s) \<and> wsync (wset r' s) r' \<and>
    stored lo hi (\<lambda>i. Some (content (xs ! nat (i - lo)))) r r'"
  using assms
proof (induction xs arbitrary: s r lo)
  case (Cons x xs)
  have hd: "rec_index x = lo" and tl: "map rec_index xs = [lo + 1..hi]"
    using Cons.prems(2,4) by (simp_all add: upto.simps [of lo])
  obtain r1 where r1: "store_copy x s = (Inr (), wset r1 s)" "wsync (wset r1 s) r1"
      "stored lo lo (\<lambda>i. Some (content x)) r r1"
    using store_copy_run [OF Cons.prems(1), of x] Cons.prems(3,5) hd by auto
  show ?case
  proof (cases "xs = []")
    case True
    then have "hi = lo" using tl Cons.prems(4) by simp
    with r1(3) True have "stored lo hi (\<lambda>i. Some (content ((x # xs) ! nat (i - lo)))) r r1"
      by (auto simp: stored_def)
    moreover have "forE (x # xs) store_copy s = (Inr (), wset r1 s)"
      using r1(1) True by (simp add: run_seqE run_ret)
    ultimately show ?thesis using r1(2) by blast
  next
    case False
    then have "lo + 1 \<le> hi" using tl by (metis Nil_is_map_conv linorder_not_le upto_empty)
    moreover have "lo + 1 \<le> max_index (r_stats r1) + 1" using r1(3) by (simp add: stored_def)
    ultimately obtain r2 where r2: "forE xs store_copy (wset r1 s) = (Inr (), wset r2 (wset r1 s))"
        "wsync (wset r2 (wset r1 s)) r2" "stored (lo + 1) hi (\<lambda>i. Some (content (xs ! nat (i - (lo + 1))))) r1 r2"
      using Cons.IH [OF r1(2) tl] Cons.prems(3) by auto
    let ?f = "\<lambda>i. Some (content ((x # xs) ! nat (i - lo)))"
    have "stored lo lo ?f r r1" by (rule stored_cong [OF r1(3)]) simp
    moreover have "stored (lo + 1) hi ?f r1 r2"
    proof (rule stored_cong [OF r2(3)])
      fix i assume "lo + 1 \<le> i"
      then have "nat (i - lo) = Suc (nat (i - (lo + 1)))" by simp
      then show "Some (content (xs ! nat (i - (lo + 1)))) = ?f i" by (simp only: nth_Cons_Suc)
    qed
    ultimately have "stored lo hi ?f r r2"
      by (rule stored_trans) (use Cons.prems(4) in simp_all)
    with r1(1) r2(1,2) show ?thesis by (auto simp: run_seqE)
  qed
qed simp

text \<open>A store that holds the records \<open>b < i \<le> m\<close>.\<close>

definition env_ok :: "LmdbEnv \<Rightarrow> int \<Rightarrow> int \<Rightarrow> bool" where
  "env_ok e b m \<longleftrightarrow> 0 \<le> b \<and> (\<forall>i. dict_get (records_db e) i = None \<longleftrightarrow> \<not> (b < i \<and> i \<le> m)) \<and>
     (\<forall>i r. dict_get (records_db e) i = Some r \<longrightarrow> rec_index r = i)"

lemma env_ok_ents: "env_ok e b m \<Longrightarrow> env_ents e i = None \<longleftrightarrow> \<not> (b < i \<and> i \<le> m)"
  by (simp add: env_ok_def env_ents_def)

lemma env_ok_at:
  assumes "env_ok (l_env l) b m" and "m = max_index (l_stats l)" and "1 \<le> i"
  shows "lmdb_at rank l i = None \<longleftrightarrow> \<not> (b < i \<and> i \<le> m)"
    "lmdb_at rank l i = Some r \<Longrightarrow> rec_index r = i \<and> env_ents (l_env l) i = Some (content r)"
proof -
  have c: "map_option content (lmdb_at rank l i) = (if i \<le> m then env_ents (l_env l) i else None)"
    using lmdb_at_content [OF assms(3)] assms(2) by simp
  show "lmdb_at rank l i = None \<longleftrightarrow> \<not> (b < i \<and> i \<le> m)"
    using arg_cong [OF c, of "\<lambda>x. x = None"] env_ok_ents [OF assms(1), of i] by (auto split: if_splits)
  assume "lmdb_at rank l i = Some r"
  with c have e: "env_ents (l_env l) i = Some (content r)" by (auto split: if_splits)
  then obtain r0 where "dict_get (records_db (l_env l)) i = Some r0" "content r0 = content r"
    by (auto simp: env_ents_def)
  with assms(1) have "rec_index (content r) = i" by (metis content_simps(1) env_ok_def)
  with e show "rec_index r = i \<and> env_ents (l_env l) i = Some (content r)" by simp
qed

lemma map_filter_from:
  assumes "\<And>i. a \<le> i \<Longrightarrow> i < lo \<Longrightarrow> f i = None" and "\<And>i. lo \<le> i \<Longrightarrow> i \<le> hi \<Longrightarrow> f i \<noteq> None" and "a \<le> lo"
  shows "List.map_filter f [a..hi] = map (\<lambda>i. the (f i)) [lo..hi]"
  using assms
proof (induction "nat (lo - a)" arbitrary: a)
  case 0
  then have "a = lo" by simp
  with "0.prems"(2) have "filter (\<lambda>i. f i \<noteq> None) [a..hi] = [a..hi]" by (intro filter_True) auto
  with \<open>a = lo\<close> show ?case by (simp add: List.map_filter_def comp_def)
next
  case (Suc n)
  show ?case
  proof (cases "a \<le> hi")
    case True
    have "List.map_filter f [a + 1..hi] = map (\<lambda>i. the (f i)) [lo..hi]"
      using Suc by (intro Suc.hyps(1)) auto
    moreover have "f a = None" using Suc by auto
    ultimately show ?thesis by (simp add: upto.simps [of a] True List.map_filter_simps)
  next
    case False
    with Suc.prems(3) show ?thesis by (simp add: List.map_filter_simps)
  qed
qed

text \<open>Reads past the end of the store give nothing, so that a block ends there.\<close>

lemma copy_block_run:
  assumes r: "wsync s r" "tab_stats (sq_file s) = Some (r_stats r)" and l: "lsync s l"
    and ok: "env_ok (lm_file s) b m" and m: "m = max_index (l_stats l)"
    and i: "1 \<le> first" "max first (b + 1) \<le> max_index (r_stats r) + 1"
      "min last_i m < max first (b + 1) \<Longrightarrow> min last_i m \<le> max_index (r_stats r)"
  shows "\<exists>r'. copy_block E first last_i s = (Inr (), wset r' s) \<and> wsync (wset r' s) r' \<and>
    stored (max first (b + 1)) (min last_i m) (env_ents (lm_file s)) r r'"
proof -
  let ?lo = "max first (b + 1)" and ?hi = "min last_i m" and ?at = "lmdb_at (key_rank E) l"
  let ?xs = "map (\<lambda>i. the (?at i)) [?lo..?hi]"
  have e: "l_env l = lm_file s" using l by (simp add: lsync_def)
  note at = env_ok_at [OF ok [folded e] m, where rank = "key_rank E"]
  have "List.map_filter ?at [first..?hi] = ?xs"
    by (rule map_filter_from) (use i at(1) in auto)
  moreover have "List.map_filter ?at [first..last_i] = List.map_filter ?at [first..?hi]"
  proof (cases "last_i \<le> m")
    case False
    have "[first..last_i] = [first..m] @ [max first (m + 1)..last_i]"
      using False upto_split1 [of first "m + 1" last_i] by (cases "first \<le> m + 1") (simp_all add: max_def)
    moreover have "List.map_filter ?at [max first (m + 1)..last_i] = []"
      using at(1) i(1) by (auto simp: List.map_filter_def filter_empty_conv)
    ultimately show ?thesis using False by (simp add: List.map_filter_def min_def)
  qed (simp add: min_def)
  ultimately have c: "collect_block E (py_range first (last_i + 1)) [] s = (Inr ?xs, s)"
    using collect_block_run [OF l, of "[first..last_i]" E "[]"] i by (simp add: py_range_def)
  have x: "rec_index (the (?at j)) = j \<and> env_ents (lm_file s) j = Some (content (the (?at j)))"
    if "?lo \<le> j" "j \<le> ?hi" for j
    using that at(1) [of j] at(2) [of j] i e by (cases "?at j") auto
  show ?thesis
  proof (cases "?lo \<le> ?hi")
    case True
    have "map rec_index ?xs = [?lo..?hi]" using x by (auto intro: map_idI)
    moreover have "1 \<le> ?lo" using i(1) by simp
    ultimately obtain r' where r': "forE ?xs store_copy s = (Inr (), wset r' s)" "wsync (wset r' s) r'"
        "stored ?lo ?hi (\<lambda>j. Some (content (?xs ! nat (j - ?lo)))) r r'"
      using store_block_run [OF r(1) _ _ True i(2)] by blast
    have "Some (content (?xs ! nat (j - ?lo))) = env_ents (lm_file s) j" if "?lo \<le> j" "j \<le> ?hi" for j
      using x [OF that] that by (simp add: nth_map)
    with r'(3) have "stored ?lo ?hi (env_ents (lm_file s)) r r'"
      by (rule stored_cong)
    with r'(1,2) c show ?thesis by (auto simp: copy_block_def run_bindE)
  next
    case False
    then have "?hi \<le> max_index (r_stats r)" by (intro i(3)) (simp only: not_le)
    then have "stored ?lo ?hi (env_ents (lm_file s)) r r"
      using r False by (auto simp: stored_def wsync_def)
    then show ?thesis
      using c r(1) wset_same [OF r(1)] upto_empty [of ?hi ?lo] False
      by (intro exI [of _ r]) (simp only: copy_block_def run_bindE not_le list.map forE.simps run_ret prod.case sum.case simp_thms)
  qed
qed

section \<open>The copying loop\<close>

text \<open>What a copy task leaves as it is: all but the archive, the writer's own log objects and its counters.\<close>

definition same :: "hybrid \<Rightarrow> hybrid \<Rightarrow> bool" where
  "same s t \<longleftrightarrow> lm_file t = lm_file s \<and> h_clock t = h_clock s \<and> hold_count t = hold_count s \<and>
     push_trigger t = push_trigger s \<and> last_pressure_sent t = last_pressure_sent s \<and> h_sqlite t = h_sqlite s \<and>
     h_lmdb t = h_lmdb s \<and> last_lmdb_snap t = last_lmdb_snap s \<and> h_running t = h_running s \<and>
     sw_control t = sw_control s \<and> to_writer t = to_writer s \<and>
     copy_limit (sqlwriter t) = copy_limit (sqlwriter s) \<and>
     w_copy_block_size (sqlwriter t) = w_copy_block_size (sqlwriter s) \<and>
     w_snap_size (sqlwriter t) = w_snap_size (sqlwriter s) \<and> s_connected (sqlwriter t) = s_connected (sqlwriter s) \<and>
     s_running (sqlwriter t) = s_running (sqlwriter s) \<and> s_shutdown (sqlwriter t) = s_shutdown (sqlwriter s)"

lemma same_trans: "same s t \<Longrightarrow> same t u \<Longrightarrow> same s u"
  by (simp add: same_def)

lemma same_refl [simp]: "same s s"
  by (simp add: same_def)

lemma same_wset [simp]: "same s (wset r s)"
  by (simp add: same_def wset_def)

lemma stored_put:
  assumes "stored lo hi f r r'" and "max_index st = max_index (r_stats r')"
  shows "stored lo hi f r (put (r_work r') st r')"
proof -
  have "file_ents ((r_work r')\<lparr>tab_stats := Some st\<rparr>) = file_ents (r_work r')"
    by (simp add: file_ents_def fun_eq_iff)
  with assms show ?thesis by (simp add: stored_def put_def)
qed

lemma set_indexes_stored:
  assumes "stored lo hi f r r'"
  shows "\<exists>r2. set_commit_index i r' = (Inr (), r2) \<and> stored lo hi f r r2"
    "\<exists>r2. set_apply_index i r' = (Inr (), r2) \<and> stored lo hi f r r2"
  using assms stored_put [OF assms]
  by (auto simp: set_commit_index_def set_apply_index_def run_seqE run_bindE run_getsE run_whenE ensure_open_run set_stat_run stored_def)

lemma stored_wsync: "wsync s r \<Longrightarrow> stored lo hi f r r' \<Longrightarrow> wsync (wset r' s) r'"
  by (rule wsync_wset) (simp_all add: stored_def)

lemma last_index_run: "snap_base (r_snapshot r) \<le> max_index (r_stats r) \<Longrightarrow> sql_get_last_index r = max_index (r_stats r)"
  by (auto simp: sql_get_last_index_def split: option.splits)

lemma copy_round_run:
  assumes r: "wsync s r" "tab_stats (sq_file s) = Some (r_stats r)" and l: "lsync s l"
    and ok: "env_ok (lm_file s) b m" and m: "m = max_index (l_stats l)"
    and base: "snap_base (r_snapshot r) \<le> max_index (r_stats r)"
    and i: "1 \<le> my_last" "my_last < copy_limit (sqlwriter s)" "max_index (r_stats r) \<le> m"
      "b \<le> max_index (r_stats r)" "my_last \<le> max_index (r_stats r) + 1" "max_index (r_stats r) \<le> my_last"
    and block: "1 \<le> w_copy_block_size (sqlwriter s)"
  defines "last_i \<equiv> min (my_last + w_copy_block_size (sqlwriter s)) (copy_limit (sqlwriter s))"
  defines "end_i \<equiv> max (max_index (r_stats r)) (min last_i m)"
  shows "\<exists>t r'. copy_round E my_last s = (Inr end_i, t) \<and> wsync t r' \<and> lsync t l \<and> same s t \<and>
    from_writer t = from_writer s \<and> stored (max my_last (b + 1)) (min last_i m) (env_ents (lm_file s)) r r'"
proof -
  let ?w = "sqlwriter s" and ?lo = "max my_last (b + 1)" and ?hi = "min last_i m" and ?f = "env_ents (lm_file s)"
  have li: "my_last < last_i" using i block by (auto simp: last_i_def)
  obtain r1 where r1: "copy_block E my_last last_i s = (Inr (), wset r1 s)" "stored ?lo ?hi ?f r r1"
    using copy_block_run [OF r l ok m, of my_last last_i E] i li by fastforce
  have blk: "(if copy_limit ?w - my_last > w_copy_block_size ?w then copy_block E my_last (my_last + w_copy_block_size ?w)
      else copy_block E my_last (copy_limit ?w)) s = (Inr (), wset r1 s)"
  proof -
    have "last_i = (if copy_limit ?w - my_last > w_copy_block_size ?w then my_last + w_copy_block_size ?w else copy_limit ?w)"
      by (auto simp: last_i_def min_def)
    with r1(1) show ?thesis by (simp split: if_splits)
  qed
  have last: "sql_get_last_index q = end_i" if "stored ?lo ?hi ?f r q" for q
    using that base i li last_index_run [of q] by (simp add: stored_def end_i_def)
  obtain r2 where r2: "set_stat (\<lambda>st. st\<lparr>cur_term := sql_get_last_term r1\<rparr>) r1 = (Inr (), r2)" "stored ?lo ?hi ?f r r2"
    using set_stat_run [of r1] stored_put [OF r1(2)] r1(2) by (simp add: stored_def)
  obtain r3 where r3: "(if upstream_commit_index ?w > max_commit (r_stats r2)
      then set_commit_index (min (upstream_commit_index ?w) end_i) else ret ()) r2 = (Inr (), r3)" "stored ?lo ?hi ?f r r3"
    using set_indexes_stored(1) [OF r2(2), of "min (upstream_commit_index ?w) end_i"] r2(2)
    by (cases "upstream_commit_index ?w > max_commit (r_stats r2)") (auto simp: run_ret)
  obtain r4 where r4: "(if upstream_apply_index ?w > max_apply (r_stats r2)
      then set_apply_index (min (upstream_apply_index ?w) end_i) else ret ()) r3 = (Inr (), r4)" "stored ?lo ?hi ?f r r4"
    using set_indexes_stored(2) [OF r3(2), of "min (upstream_apply_index ?w) end_i"] r3(2)
    by (cases "upstream_apply_index ?w > max_apply (r_stats r2)") (auto simp: run_ret)
  note sync = r1(2)[THEN stored_wsync [OF r(1)]] r2(2)[THEN stored_wsync [OF r(1)]] r3(2)[THEN stored_wsync [OF r(1)]]
    r4(2)[THEN stored_wsync [OF r(1)]]
  let ?t = "(wset r4 s)\<lparr>sqlwriter := (sqlwriter (wset r4 s))\<lparr>copy_block_timestamps :=
      trim_timestamps (copy_block_timestamps ?w @ [h_clock s]), copy_blocks_count := copy_blocks_count ?w + 1\<rparr>\<rparr>"
  have t: "wsync ?t r4" "lsync ?t l" "same s ?t" "from_writer ?t = from_writer s"
    using sync(4) l by (simp_all add: wsync_def lsync_def same_def wset_def)
  have "whenE (upstream_commit_index ?w > max_commit (r_stats r2)) (writer_sqlite (set_commit_index (min (upstream_commit_index ?w) end_i)))
      (wset r2 s) = (Inr (), wset r3 s)"
    using writer_sqlite_run [OF sync(2), of "set_commit_index (min (upstream_commit_index ?w) end_i)" "Inr ()" r3] r3(1)
    by (auto simp: run_whenE run_ret split: if_splits)
  moreover have "whenE (upstream_apply_index ?w > max_apply (r_stats r2)) (writer_sqlite (set_apply_index (min (upstream_apply_index ?w) end_i)))
      (wset r3 s) = (Inr (), wset r4 s)"
    using writer_sqlite_run [OF sync(3), of "set_apply_index (min (upstream_apply_index ?w) end_i)" "Inr ()" r4] r4(1)
    by (auto simp: run_whenE run_ret split: if_splits)
  ultimately have "copy_round E my_last s = (Inr end_i, ?t)"
    using writer_sqlite_run [OF sync(1), of "set_stat (\<lambda>st. st\<lparr>cur_term := sql_get_last_term r1\<rparr>)", OF r2(1)]
      writer_sqlite_gets [OF t(1), of sql_get_last_index] last [OF r4(2)]
    by (simp add: copy_round_def run_bindE run_getsE [of sqlwriter] run_seqE blk writer_sqlite_gets [OF sync(1)]
        writer_sqlite_gets [OF sync(2)] last [OF r1(2)] run_modE)
  with t r4(2) show ?thesis by blast
qed

lemma copy_loop_run:
  assumes "wsync s r" "tab_stats (sq_file s) = Some (r_stats r)" and "lsync s l" and "env_ok (lm_file s) b m" and m: "m = max_index (l_stats l)"
    and "snap_base (r_snapshot r) \<le> max_index (r_stats r)"
    and "1 \<le> my_last" "max_index (r_stats r) \<le> m"
      "b \<le> max_index (r_stats r)" "my_last \<le> max_index (r_stats r) + 1" "max_index (r_stats r) \<le> my_last"
    and "1 \<le> w_copy_block_size (sqlwriter s)" and "copy_limit (sqlwriter s) \<le> m"
  shows "\<exists>t r'. copy_loop E my_last s = Some (Inr (max my_last (copy_limit (sqlwriter s))), t) \<and>
    wsync t r' \<and> lsync t l \<and> same s t \<and> from_writer t = from_writer s \<and>
    (if my_last < copy_limit (sqlwriter s)
     then stored (max my_last (b + 1)) (copy_limit (sqlwriter s)) (env_ents (lm_file s)) r r' else r' = r)"
  using assms
proof (induction "nat (copy_limit (sqlwriter s) - my_last)" arbitrary: s r my_last rule: less_induct)
  case less
  let ?limit = "copy_limit (sqlwriter s)"
  show ?case
  proof (cases "my_last < ?limit")
    case False
    then show ?thesis using less.prems by (subst copy_loop.simps) auto
  next
    case True
    define last_i where "last_i = min (my_last + w_copy_block_size (sqlwriter s)) ?limit"
    obtain s1 r1 where s1: "copy_round E my_last s = (Inr last_i, s1)" "wsync s1 r1" "lsync s1 l" "same s s1"
        "from_writer s1 = from_writer s" "stored (max my_last (b + 1)) last_i (env_ents (lm_file s)) r r1"
    proof -
      have "max (max_index (r_stats r)) (min last_i m) = last_i" "min last_i m = last_i"
        using True less.prems(11-13) by (auto simp: last_i_def)
      then show ?thesis
        using copy_round_run [OF less.prems(1-7) True less.prems(8-12), of E] that unfolding last_i_def by metis
    qed
    have li: "my_last < last_i" "last_i \<le> ?limit" using True less.prems(12) by (auto simp: last_i_def)
    have lim: "copy_limit (sqlwriter s1) = ?limit" "w_copy_block_size (sqlwriter s1) = w_copy_block_size (sqlwriter s)"
        "lm_file s1 = lm_file s"
      using s1(4) by (simp_all add: same_def)
    have mx: "max_index (r_stats r1) = last_i" "r_snapshot r1 = r_snapshot r"
      using s1(6) less.prems(11) li by (simp_all add: stored_def)
    have "\<exists>t r'. copy_loop E last_i s1 = Some (Inr (max last_i (copy_limit (sqlwriter s1))), t) \<and>
      wsync t r' \<and> lsync t l \<and> same s1 t \<and> from_writer t = from_writer s1 \<and>
      (if last_i < copy_limit (sqlwriter s1)
       then stored (max last_i (b + 1)) (copy_limit (sqlwriter s1)) (env_ents (lm_file s1)) r1 r' else r' = r1)"
      by (rule less.hyps [OF _ s1(2) _ s1(3)]) (use less.prems li lim mx s1(2,6) in \<open>auto simp: stored_def wsync_def\<close>)
    then obtain t r' where t: "copy_loop E last_i s1 = Some (Inr ?limit, t)" "wsync t r'" "lsync t l" "same s1 t"
        "from_writer t = from_writer s1"
        "if last_i < ?limit then stored (max last_i (b + 1)) ?limit (env_ents (lm_file s)) r1 r' else r' = r1"
      using lim li by (auto simp: max_def split: if_splits)
    have "stored (max my_last (b + 1)) ?limit (env_ents (lm_file s)) r r'"
      using t(6) s1(6) li stored_trans [OF s1(6), of "max last_i (b + 1)" ?limit r'] less.prems(9,11)
      by (auto split: if_splits)
    moreover have "copy_loop E my_last s = Some (Inr (max my_last ?limit), t)"
      using True s1(1) t(1) by (subst copy_loop.simps) simp
    ultimately show ?thesis using True t s1(4,5) same_trans by auto
  qed
qed

section \<open>The snapshot loop\<close>

abbreviation snap_msg :: "SnapShot \<Rightarrow> json" where
  "snap_msg sn \<equiv> JObj [(''code'', str_json ''snapshot''), (''message'', snap_json sn)]"

lemma sql_read_run:
  assumes "1 \<le> i" and "i \<le> max_index (r_stats r)"
  shows "\<exists>x. sql_read (Some i) r = (Inr x, r) \<and> map_option content x = file_ents (r_work r) i"
  using assms by (cases "dict_get (tab_records (r_work r)) i")
     (auto simp: sql_read_def run get_entry_at_def read_entry_def file_ents_def Let_def content_def rec_of_def)

text \<open>The snapshots sent go upwards from the low water mark and stay below the high one.\<close>

definition snaps_between :: "SqliteDB \<Rightarrow> int \<Rightarrow> int \<Rightarrow> SnapShot list \<Rightarrow> bool" where
  "snaps_between d low high sns \<longleftrightarrow> sorted_wrt (<) (map snap_index sns) \<and>
     (\<forall>sn \<in> set sns. low \<le> snap_index sn \<and> snap_index sn < high \<and>
        map_option rec_term (file_ents d (snap_index sn)) = Some (snap_term sn))"

lemma snap_round_run:
  assumes "wsync s r" and "s_connected (sqlwriter s)" and "1 \<le> w_snap_size (sqlwriter s)"
    and "high - low \<ge> w_snap_size (sqlwriter s)" and "1 \<le> low" and "high \<le> max_index (r_stats r)"
    and "\<And>i. low \<le> i \<Longrightarrow> i \<le> high \<Longrightarrow> file_ents (sq_file s) i \<noteq> None"
  shows "\<exists>sn. snap_round high low s = (Inr (snap_index sn + 1), s\<lparr>from_writer := from_writer s @ [snap_msg sn]\<rparr>) \<and>
    snap_index sn = low - 1 + w_snap_size (sqlwriter s) \<and>
    map_option rec_term (file_ents (sq_file s) (snap_index sn)) = Some (snap_term sn)"
proof -
  let ?i = "low - 1 + w_snap_size (sqlwriter s)"
  have d: "r_work r = sq_file s" using assms(1) by (simp add: wsync_def)
  have i: "1 \<le> ?i" "?i \<le> max_index (r_stats r)" "low \<le> ?i" "?i \<le> high" using assms(3-6) by auto
  obtain x where x: "sql_read (Some ?i) r = (Inr x, r)" "map_option content x = file_ents (sq_file s) ?i"
    using sql_read_run [OF i(1,2)] d by auto
  with assms(7) [OF i(3,4)] obtain y where y: "x = Some y" "file_ents (sq_file s) ?i = Some (content y)"
    by (cases x) auto
  then have ix: "rec_index y = ?i"
    by (metis content_simps(1) file_ents_def map_option_eq_Some rec_of_simps(1))
  have "writer_sqlite (sql_read (Some ?i)) s = (Inr (Some y), s)"
    using writer_sqlite_run [OF assms(1), of "sql_read (Some ?i)", OF x(1)] wset_same [OF assms(1)] y(1) by simp
  moreover have "min (high - low) (w_snap_size (sqlwriter s)) = w_snap_size (sqlwriter s)" using assms(4) by simp
  ultimately have "snap_round high low s = (Inr (?i + 1),
      s\<lparr>from_writer := from_writer s @ [snap_msg \<lparr>snap_index = ?i, snap_term = rec_term y\<rparr>]\<rparr>)"
    using assms(2) ix by (simp add: snap_round_def run_bindE run_getsE Let_def run_ret run_seqE writer_send_def run_modE)
  then show ?thesis
    using y(2) by (intro exI [of _ "\<lparr>snap_index = ?i, snap_term = rec_term y\<rparr>"]) simp
qed

lemma snap_loop_run:
  assumes "wsync s r" and "s_connected (sqlwriter s)" and "1 \<le> w_snap_size (sqlwriter s)"
    and "1 \<le> low" and "high \<le> max 1 (max_index (r_stats r))"
    and "\<And>i. low \<le> i \<Longrightarrow> i \<le> high \<Longrightarrow> i \<le> max_index (r_stats r) \<Longrightarrow> file_ents (sq_file s) i \<noteq> None"
  shows "\<exists>sns. snap_loop high low s = Some (Inr (), s\<lparr>from_writer := from_writer s @ map snap_msg sns\<rparr>) \<and>
    snaps_between (sq_file s) low high sns \<and>
    high - w_snap_size (sqlwriter s) \<le> (if sns = [] then low - 1 else snap_index (last sns)) \<and>
    (sns = [] \<or> snap_index (hd sns) = low - 1 + w_snap_size (sqlwriter s))"
  using assms
proof (induction "nat (high - low)" arbitrary: s low rule: less_induct)
  case less
  let ?n = "w_snap_size (sqlwriter s)"
  show ?case
  proof (cases "high - low \<ge> ?n")
    case False
    then show ?thesis by (subst snap_loop.simps) (auto simp: snaps_between_def intro!: exI [of _ "[]"])
  next
    case True
    have hi: "high \<le> max_index (r_stats r)" using True less.prems(3-5) by auto
    obtain sn where sn: "snap_round high low s = (Inr (snap_index sn + 1), s\<lparr>from_writer := from_writer s @ [snap_msg sn]\<rparr>)"
        "snap_index sn = low - 1 + ?n" "map_option rec_term (file_ents (sq_file s) (snap_index sn)) = Some (snap_term sn)"
      using snap_round_run [OF less.prems(1-3) True less.prems(4) hi] less.prems(6) hi by auto
    let ?s = "s\<lparr>from_writer := from_writer s @ [snap_msg sn]\<rparr>"
    have "\<exists>sns. snap_loop high (snap_index sn + 1) ?s = Some (Inr (), ?s\<lparr>from_writer := from_writer ?s @ map snap_msg sns\<rparr>) \<and>
      snaps_between (sq_file ?s) (snap_index sn + 1) high sns \<and>
      high - w_snap_size (sqlwriter ?s) \<le> (if sns = [] then snap_index sn + 1 - 1 else snap_index (last sns)) \<and>
      (sns = [] \<or> snap_index (hd sns) = snap_index sn + 1 - 1 + w_snap_size (sqlwriter ?s))"
      by (rule less.hyps) (use less.prems True sn(2) in \<open>auto simp: wsync_def\<close>)
    then obtain sns where ih: "snap_loop high (snap_index sn + 1) ?s = Some (Inr (), ?s\<lparr>from_writer := from_writer ?s @ map snap_msg sns\<rparr>)"
        "snaps_between (sq_file ?s) (snap_index sn + 1) high sns"
        "high - w_snap_size (sqlwriter ?s) \<le> (if sns = [] then snap_index sn + 1 - 1 else snap_index (last sns))"
      by blast
    have sns: "snap_loop high (snap_index sn + 1) ?s = Some (Inr (), s\<lparr>from_writer := from_writer s @ map snap_msg (sn # sns)\<rparr>)"
        "snaps_between (sq_file s) (snap_index sn + 1) high sns"
        "high - ?n \<le> (if sns = [] then snap_index sn else snap_index (last sns))"
      using ih by (simp_all split: if_splits)
    have "snap_loop high low s = Some (Inr (), s\<lparr>from_writer := from_writer s @ map snap_msg (sn # sns)\<rparr>)"
      using True sn(1) sns(1) by (subst snap_loop.simps) simp
    moreover have "snaps_between (sq_file s) low high (sn # sns)"
      using sns(2) sn(2,3) less.prems(3) True by (fastforce simp: snaps_between_def)
    ultimately show ?thesis using sns(3) sn(2) by (intro exI [of _ "sn # sns"]) auto
  qed
qed

section \<open>A whole copy task\<close>

definition writer_ready :: "hybrid \<Rightarrow> bool" where
  "writer_ready s \<longleftrightarrow> s_connected (sqlwriter s) \<and>
     (\<exists>r l. w_sqlite (sqlwriter s) = Some (Some r) \<and> r_open r \<and> w_lmdb (sqlwriter s) = Some (Some l) \<and>
        (tab_snapshot (sq_file s) = None \<longrightarrow> r_snapshot r = None))"

lemma lmdb_start_run:
  "stats_db env = Some st \<Longrightarrow> lmdb_start clock env =
     \<lparr>l_open = True, l_env = env, l_stats = st, l_snapshot = snapshots_db env, l_now = clock\<rparr>"
  by (simp add: lmdb_start_def lmdb_open_def new_LmdbRecords_def run split: option.split)

lemma reopen_lmdb_run:
  assumes "w_lmdb (sqlwriter s) = Some (Some l)" and "stats_db (lm_file s) = Some st"
  shows "reopen_lmdb s = (Inr (), s\<lparr>sqlwriter := (sqlwriter s)\<lparr>w_lmdb := Some (Some
    \<lparr>l_open = True, l_env = lm_file s, l_stats = st, l_snapshot = snapshots_db (lm_file s), l_now = h_clock s\<rparr>)\<rparr>\<rparr>)"
  using assms lmdb_start_run [OF assms(2), of "h_clock s"]
  by (simp add: reopen_lmdb_def writer_stop_lmdb_def writer_start_lmdb_def writer_lmdb_def lmdb_close_def on_env_def
      run Let_def)

lemma refresh_stats_run:
  "tab_stats (r_work r) = Some q \<Longrightarrow> refresh_stats r = (Inr (), r\<lparr>r_stats := q,
     r_snapshot := (case tab_snapshot (r_work r) of None \<Rightarrow> r_snapshot r | Some sn \<Rightarrow> Some sn)\<rparr>)"
  by (simp add: refresh_stats_def run split: option.split)

lemma copy_start_run:
  assumes ready: "writer_ready s" and store: "stats_db (lm_file s) = Some st"
    and archive: "tab_stats (sq_file s) = Some q" "snap_base (tab_snapshot (sq_file s)) \<le> max_index q" "0 \<le> max_index q"
  shows "\<exists>t r l. copy_start s = (Inr (max 1 (max_index q)), t) \<and> wsync t r \<and> lsync t l \<and> same s t \<and>
    from_writer t = from_writer s \<and> sq_file t = sq_file s \<and> r_stats r = q \<and> r_snapshot r = tab_snapshot (sq_file s) \<and>
    l_stats l = st \<and> l_snapshot l = snapshots_db (lm_file s)"
proof -
  obtain r l where rl: "w_sqlite (sqlwriter s) = Some (Some r)" "r_open r" "w_lmdb (sqlwriter s) = Some (Some l)"
      "tab_snapshot (sq_file s) = None \<longrightarrow> r_snapshot r = None"
    using ready by (auto simp: writer_ready_def)
  let ?l = "\<lparr>l_open = True, l_env = lm_file s, l_stats = st, l_snapshot = snapshots_db (lm_file s), l_now = h_clock s\<rparr>"
  let ?s = "s\<lparr>sqlwriter := (sqlwriter s)\<lparr>w_lmdb := Some (Some ?l)\<rparr>\<rparr>"
  let ?r = "(on_file (sq_file s) (h_clock s) r)\<lparr>r_stats := q, r_snapshot := tab_snapshot (sq_file s)\<rparr>"
  have "refresh_stats (on_file (sq_file s) (h_clock s) r) = (Inr (), ?r)"
    using refresh_stats_run [of "on_file (sq_file s) (h_clock s) r" q] archive(1) rl(4)
    by (auto simp: on_file_def split: option.split)
  then have w: "writer_sqlite refresh_stats ?s = (Inr (), wset ?r ?s)"
    using rl(1) by (simp add: writer_sqlite_def wset_def)
  have sync: "wsync (wset ?r ?s) ?r" "lsync (wset ?r ?s) ?l"
    using rl(2) by (simp_all add: wsync_def lsync_def on_file_def)
  have last: "sql_get_last_index ?r = max_index q"
    using archive(2) by (subst last_index_run) simp_all
  have "copy_start s = (Inr (max 1 (max_index q)), wset ?r ?s)"
    using reopen_lmdb_run [OF rl(3) store] w archive(3)
    by (simp add: copy_start_def run_seqE run_bindE writer_sqlite_gets [OF sync(1)] last run_ret max_def)
  moreover have "same s (wset ?r ?s)" "sq_file (wset ?r ?s) = sq_file s" "from_writer (wset ?r ?s) = from_writer s"
    by (simp_all add: same_def wset_def on_file_def)
  ultimately show ?thesis using sync by fastforce
qed

lemma copy_task_run:
  assumes ready: "writer_ready s"
    and store: "stats_db (lm_file s) = Some st" "env_ok (lm_file s) (snap_base (snapshots_db (lm_file s))) (max_index st)"
    and archive: "tab_stats (sq_file s) = Some q" "snap_base (tab_snapshot (sq_file s)) \<le> max_index q"
      "snap_base (snapshots_db (lm_file s)) \<le> max_index q" "max_index q \<le> max_index st"
      "\<And>i. snap_base (snapshots_db (lm_file s)) < i \<Longrightarrow> i \<le> max_index q \<Longrightarrow> file_ents (sq_file s) i \<noteq> None"
    and sizes: "1 \<le> w_copy_block_size (sqlwriter s)" "1 \<le> w_snap_size (sqlwriter s)"
      "copy_limit (sqlwriter s) \<le> max_index st"
  shows "\<exists>t q' sns. copy_task E s = Some (Inr (), t) \<and> same s t \<and> writer_ready t \<and> \<not> copy_task_handle (sqlwriter t) \<and>
    tab_stats (sq_file t) = Some q' \<and> tab_snapshot (sq_file t) = tab_snapshot (sq_file s) \<and>
    max_index q' = (if max 1 (max_index q) < copy_limit (sqlwriter s) then copy_limit (sqlwriter s) else max_index q) \<and>
    (\<forall>i. file_ents (sq_file t) i =
       (if max 1 (max_index q) < copy_limit (sqlwriter s) \<and> max 1 (max_index q) \<le> i \<and>
           snap_base (snapshots_db (lm_file s)) < i \<and> i \<le> copy_limit (sqlwriter s)
        then env_ents (lm_file s) i else file_ents (sq_file s) i)) \<and>
    from_writer t = from_writer s @ map snap_msg sns \<and>
    snaps_between (sq_file t) (snap_base (snapshots_db (lm_file s)) + 1) (max (max 1 (max_index q)) (copy_limit (sqlwriter s))) sns \<and>
    max (max 1 (max_index q)) (copy_limit (sqlwriter s)) - w_snap_size (sqlwriter s) \<le>
      (if sns = [] then snap_base (snapshots_db (lm_file s)) else snap_index (last sns)) \<and>
    (sns = [] \<or> snap_index (hd sns) = snap_base (snapshots_db (lm_file s)) + w_snap_size (sqlwriter s))"
proof -
  let ?b = "snap_base (snapshots_db (lm_file s))" and ?limit = "copy_limit (sqlwriter s)" and ?m = "max 1 (max_index q)"
  have b: "0 \<le> ?b" using store(2) by (simp add: env_ok_def)
  obtain s1 r l where s1: "copy_start s = (Inr ?m, s1)" "wsync s1 r" "lsync s1 l" "same s s1" "from_writer s1 = from_writer s"
      "sq_file s1 = sq_file s" "r_stats r = q" "r_snapshot r = tab_snapshot (sq_file s)" "l_stats l = st"
      "l_snapshot l = snapshots_db (lm_file s)"
    using copy_start_run [OF ready store(1) archive(1,2)] b archive(3) by auto
  have f1: "lm_file s1 = lm_file s" "copy_limit (sqlwriter s1) = ?limit" "r_work r = sq_file s"
      "w_copy_block_size (sqlwriter s1) = w_copy_block_size (sqlwriter s)"
    using s1(2,4,6) by (simp_all add: same_def wsync_def)
  have "\<exists>t r'. copy_loop E ?m s1 = Some (Inr (max ?m (copy_limit (sqlwriter s1))), t) \<and>
    wsync t r' \<and> lsync t l \<and> same s1 t \<and> from_writer t = from_writer s1 \<and>
    (if ?m < copy_limit (sqlwriter s1)
     then stored (max ?m (?b + 1)) (copy_limit (sqlwriter s1)) (env_ents (lm_file s1)) r r' else r' = r)"
    by (rule copy_loop_run [OF s1(2) _ s1(3)]) (use f1 s1 store archive b sizes in auto)
  then obtain s2 r2 where s2: "copy_loop E ?m s1 = Some (Inr (max ?m ?limit), s2)" "wsync s2 r2" "lsync s2 l" "same s1 s2"
      "from_writer s2 = from_writer s1"
      "if ?m < ?limit then stored (max ?m (?b + 1)) ?limit (env_ents (lm_file s)) r r2 else r2 = r"
    unfolding f1(1,2) by blast
  have q2: "tab_stats (sq_file s2) = Some (r_stats r2)" "tab_snapshot (sq_file s2) = tab_snapshot (sq_file s)"
      "r_snapshot r2 = tab_snapshot (sq_file s)" "max_index (r_stats r2) = (if ?m < ?limit then ?limit else max_index q)"
    using s2(2,6) s1(2,7,8) f1(3) archive(1) by (auto simp: stored_def wsync_def max_def split: if_splits)
  have e2: "file_ents (sq_file s2) i = (if ?m < ?limit \<and> ?m \<le> i \<and> ?b < i \<and> i \<le> ?limit
      then env_ents (lm_file s) i else file_ents (sq_file s) i)" for i
    using s2(2,6) s1(2) f1(3) by (auto simp: stored_def wsync_def split: if_splits)
  have here: "file_ents (sq_file s2) i \<noteq> None" if "?b + 1 \<le> i" "i \<le> max ?m ?limit" "i \<le> max_index (r_stats r2)" for i
    using e2 [of i] archive(5) [of i] env_ok_ents [OF store(2), of i] that sizes(3) q2(4) b archive(4)
    by (cases "?m < ?limit \<and> ?m \<le> i"; cases "?m < ?limit") auto
  have c2: "s_connected (sqlwriter s2)" "w_snap_size (sqlwriter s2) = w_snap_size (sqlwriter s)"
    using ready s1(4) s2(4) by (simp_all add: same_def writer_ready_def)
  have hi: "max ?m ?limit \<le> max 1 (max_index (r_stats r2))" "1 \<le> w_snap_size (sqlwriter s2)" "1 \<le> ?b + 1"
    using q2(4) sizes(2) c2(2) b by auto
  have one: "?b + 1 - 1 = ?b" by simp
  obtain sns where sns: "snap_loop (max ?m ?limit) (?b + 1) s2 = Some (Inr (), s2\<lparr>from_writer := from_writer s2 @ map snap_msg sns\<rparr>)"
      "snaps_between (sq_file s2) (?b + 1) (max ?m ?limit) sns"
      "max ?m ?limit - w_snap_size (sqlwriter s) \<le> (if sns = [] then ?b else snap_index (last sns)) \<and>
       (sns = [] \<or> snap_index (hd sns) = ?b + w_snap_size (sqlwriter s))"
    using snap_loop_run [OF s2(2) c2(1) hi(2,3,1) here, unfolded c2(2) one] by blast
  define t where "t = s2\<lparr>from_writer := from_writer s2 @ map snap_msg sns,
    sqlwriter := (sqlwriter s2)\<lparr>copy_task_handle := False\<rparr>\<rparr>"
  have low: "low_water_mark s2 = (Inr (?b + 1), s2)"
    by (simp add: low_water_mark_def run_bindE writer_lmdb_gets [OF s2(3)] s1(10) run_ret split: option.split)
  have "copy_task E s = Some (Inr (), t)"
    using s1(1) s2(1) low sns(1)
    by (simp add: copy_task_def copy_body_def bindT_def tryT_def runT_def writer_mod_def run_modE t_def)
  moreover have "same s t" using same_trans [OF s1(4) s2(4)] by (simp add: same_def t_def)
  moreover have "writer_ready t"
    using s2(2,3) c2(1) q2(2,3) by (auto simp: writer_ready_def t_def wsync_def lsync_def)
  moreover have "sq_file t = sq_file s2" "\<not> copy_task_handle (sqlwriter t)" "from_writer t = from_writer s @ map snap_msg sns"
    using s1(5) s2(5) by (simp_all add: t_def)
  ultimately show ?thesis using q2 e2 sns(2,3) by (intro exI [of _ t] exI [of _ "r_stats r2"] exI [of _ sns] conjI allI) simp_all
qed

section \<open>The system while it archives\<close>

abbreviation limit_msg :: "int \<Rightarrow> int \<Rightarrow> int \<Rightarrow> json" where
  "limit_msg limit ci ai \<equiv> JObj [(''command'', str_json ''copy_limit''), (''limit'', JInt limit),
     (''commit_index'', JInt ci), (''apply_index'', JInt ai)]"

text \<open>
  The pruned records are in the archive as the main process knows it, the archive holds every record up
  to its last one, the same as the store where both have it, and the messages on their way are
  snapshots of archived records, upwards, and limits within the log.
\<close>

definition archive_inv :: "LmdbEnv \<Rightarrow> SqliteDB \<Rightarrow> LmdbRecords \<Rightarrow> Records \<Rightarrow> stats_row \<Rightarrow> SnapShot list \<Rightarrow> bool" where
  "archive_inv env d l r q sns \<longleftrightarrow>
     r_open r \<and> r_snapshot r = None \<and> tab_snapshot d = None \<and> tab_stats d = Some q \<and>
     snap_base (l_snapshot l) \<le> max_index (r_stats r) \<and> max_index (r_stats r) \<le> max_index q \<and>
     (\<forall>i. 1 \<le> i \<and> i \<le> max_index q \<longrightarrow> file_ents d i \<noteq> None) \<and>
     (\<forall>i. snap_base (l_snapshot l) < i \<and> i \<le> max_index q \<longrightarrow> file_ents d i = env_ents env i) \<and>
     sorted_wrt (<) (map snap_index sns) \<and>
     (\<forall>sn \<in> set sns. snap_base (l_snapshot l) < snap_index sn \<and> snap_index sn \<le> max_index q)"

lemma archive_invD:
  assumes "archive_inv env d l r q sns"
  shows "1 \<le> i \<Longrightarrow> i \<le> max_index q \<Longrightarrow> file_ents d i \<noteq> None"
    "snap_base (l_snapshot l) < i \<Longrightarrow> i \<le> max_index q \<Longrightarrow> file_ents d i = env_ents env i"
    "tab_stats d = Some q" "tab_snapshot d = None" "snap_base (l_snapshot l) \<le> max_index q"
  using assms by (simp_all add: archive_inv_def)

definition limits_inv :: "hybrid \<Rightarrow> int \<Rightarrow> bool" where
  "limits_inv s m \<longleftrightarrow> 0 \<le> hold_count s \<and> copy_limit (sqlwriter s) \<le> m \<and>
     (\<forall>j \<in> set (to_writer s). \<exists>n ci ai. j = limit_msg n ci ai \<and> n \<le> m) \<and>
     1 \<le> w_copy_block_size (sqlwriter s) \<and> 1 \<le> w_snap_size (sqlwriter s) \<and>
     s_running (sqlwriter s) \<and> \<not> s_shutdown (sqlwriter s) \<and>
     (\<exists>c. sw_control s = Some c \<and> c_connected c \<and> c_running c)"

definition hyb_state :: "hybrid_env \<Rightarrow> hybrid \<Rightarrow> LmdbRecords \<Rightarrow> Records \<Rightarrow> stats_row \<Rightarrow> SnapShot list \<Rightarrow> bool" where
  "hyb_state E s l r q sns \<longleftrightarrow> h_running s \<and> h_lmdb s = Some (Some l) \<and> h_sqlite s = Some (Some r) \<and>
     lmdb_inv (key_rank E) (l\<lparr>l_env := lm_file s\<rparr>) \<and> last_lmdb_snap s = l_snapshot l \<and>
     archive_inv (lm_file s) (sq_file s) l r q sns \<and> from_writer s = map snap_msg sns \<and>
     limits_inv s (max_index (l_stats l)) \<and> writer_ready s"

definition hyb_inv :: "hybrid_env \<Rightarrow> hybrid \<Rightarrow> bool" where
  "hyb_inv E s \<longleftrightarrow> (\<exists>l r q sns. hyb_state E s l r q sns)"

text \<open>What a reader finds, and the last index.\<close>

definition hyb_ents :: "hybrid \<Rightarrow> int \<Rightarrow> LogRec option" where
  "hyb_ents s i = (if i \<le> snap_base (last_lmdb_snap s) then file_ents (sq_file s) i else env_ents (lm_file s) i)"

definition kept :: "hybrid \<Rightarrow> hybrid \<Rightarrow> bool" where
  "kept s t \<longleftrightarrow> (\<forall>i. 1 \<le> i \<longrightarrow> hyb_ents s i \<noteq> None \<longrightarrow> hyb_ents t i = hyb_ents s i)"

lemma kept_trans: "kept s t \<Longrightarrow> kept t u \<Longrightarrow> kept s u"
  by (simp add: kept_def)

lemma env_ok_inv:
  "lmdb_inv rank (l\<lparr>l_env := e\<rparr>) \<Longrightarrow> env_ok e (snap_base (l_snapshot l)) (max_index (l_stats l))"
  using lmdb_row_None [of rank "l\<lparr>l_env := e\<rparr>"] by (auto simp: env_ok_def lmdb_inv_def)

lemma hyb_ents_bound:
  assumes "hyb_state E s l r q sns"
  shows "1 \<le> i \<Longrightarrow> hyb_ents s i \<noteq> None \<longleftrightarrow> i \<le> max_index (l_stats l)" "max_index q \<le> max_index (l_stats l)"
proof -
  let ?b = "snap_base (l_snapshot l)" and ?m = "max_index (l_stats l)"
  have ok: "env_ok (lm_file s) ?b ?m" and b: "?b \<le> ?m" "0 \<le> ?b"
    and a: "archive_inv (lm_file s) (sq_file s) l r q sns" and sn: "last_lmdb_snap s = l_snapshot l"
    using assms env_ok_inv [of "key_rank E" "lm_file s" l] by (simp_all add: hyb_state_def lmdb_inv_def)
  show q: "max_index q \<le> ?m"
  proof (rule ccontr)
    assume m: "\<not> max_index q \<le> ?m"
    then have "file_ents (sq_file s) (max_index q) = env_ents (lm_file s) (max_index q)"
      "file_ents (sq_file s) (max_index q) \<noteq> None"
      using archive_invD(1,2) [OF a, of "max_index q"] b by simp_all
    with m env_ok_ents [OF ok, of "max_index q"] show False by simp
  qed
  assume "1 \<le> i"
  then show "hyb_ents s i \<noteq> None \<longleftrightarrow> i \<le> ?m"
    using a b q sn env_ok_ents [OF ok, of i] by (auto simp: hyb_ents_def archive_inv_def)
qed

lemma main_sqlite_run:
  "h_sqlite s = Some (Some r) \<Longrightarrow> m (on_file (sq_file s) (h_clock s) r) = (x, r') \<Longrightarrow>
   main_sqlite m s = (x, s\<lparr>sq_file := r_disk r', h_sqlite := Some (Some r')\<rparr>)"
  by (simp add: main_sqlite_def)

lemma main_lmdb_run:
  "h_lmdb s = Some (Some l) \<Longrightarrow> m (on_env (lm_file s) (h_clock s) l) = (x, l') \<Longrightarrow>
   main_lmdb m s = (x, s\<lparr>lm_file := l_env l', h_lmdb := Some (Some l')\<rparr>)"
  by (simp add: main_lmdb_def)

lemma if_open_run: "hyb_state E s l r q sns \<Longrightarrow> if_open m s = m s"
  by (simp add: if_open_def run_bindE run_getsE hyb_state_def)

text \<open>The attributes of time do not matter to the invariant, nor do those of the main process to the writer.\<close>

lemma writer_ready_frame:
  "writer_ready s \<Longrightarrow> sqlwriter t = sqlwriter s \<Longrightarrow> tab_snapshot (sq_file t) = tab_snapshot (sq_file s) \<Longrightarrow> writer_ready t"
  by (simp add: writer_ready_def)

lemma lmdb_inv_frame [simp]:
  "lmdb_inv rank (l\<lparr>l_env := e, l_now := c\<rparr>) = lmdb_inv rank (l\<lparr>l_env := e\<rparr>)"
  "lmdb_inv rank (l\<lparr>l_now := c, l_env := e\<rparr>) = lmdb_inv rank (l\<lparr>l_env := e\<rparr>)"
  "lmdb_inv rank (l\<lparr>l_now := c\<rparr>) = lmdb_inv rank l"
  by (simp_all add: lmdb_inv_def)

lemma hyb_read_run:
  assumes st: "hyb_state E s l r q sns" and i: "1 \<le> i"
  shows "\<exists>x t l' r'. hyb_read E (Some i) s = (Inr x, t) \<and> map_option content x = hyb_ents s i \<and>
    hyb_state E t l' r' q sns \<and> kept s t"
proof (cases "i \<le> snap_base (l_snapshot l)")
  case True
  let ?r = "on_file (sq_file s) (h_clock s) r"
  let ?t = "s\<lparr>sq_file := r_disk ?r, h_sqlite := Some (Some ?r)\<rparr>"
  have s: "h_sqlite s = Some (Some r)" "last_lmdb_snap s = l_snapshot l" "i \<le> max_index (r_stats ?r)"
    using st True by (simp_all add: hyb_state_def archive_inv_def on_file_def)
  obtain x where x: "sql_read (Some i) ?r = (Inr x, ?r)" "map_option content x = file_ents (sq_file s) i"
    using sql_read_run [OF i s(3)] by (auto simp: on_file_def)
  have "hyb_read E (Some i) s = (Inr x, ?t)"
    using main_sqlite_run [OF s(1), of "sql_read (Some i)", OF x(1)] s(2) True i
    by (auto simp: hyb_read_def if_open_run [OF st] run_bindE run_getsE split: option.split)
  moreover have "hyb_state E ?t l ?r q sns"
    using st writer_ready_frame [of s ?t] by (simp add: hyb_state_def archive_inv_def on_file_def limits_inv_def)
  moreover have "kept s ?t" by (simp add: kept_def hyb_ents_def on_file_def)
  ultimately show ?thesis using x(2) s(2) True by (auto simp: hyb_ents_def)
next
  case False
  let ?l = "on_env (lm_file s) (h_clock s) l"
  let ?t = "s\<lparr>lm_file := l_env ?l, h_lmdb := Some (Some ?l)\<rparr>"
  have s: "h_lmdb s = Some (Some l)" "last_lmdb_snap s = l_snapshot l"
    and ok: "env_ok (lm_file s) (snap_base (l_snapshot l)) (max_index (l_stats l))"
    using st env_ok_inv [of "key_rank E" "lm_file s" l] by (simp_all add: hyb_state_def)
  have "hyb_read E (Some i) s = (Inr (lmdb_at (key_rank E) ?l i), ?t)"
    using main_lmdb_run [OF s(1), of "lmdb_read (key_rank E) (Some i)", OF lmdb_read_at [OF i]] s(2) False
    by (auto simp: hyb_read_def if_open_run [OF st] run_bindE run_getsE split: option.split)
  moreover have "map_option content (lmdb_at (key_rank E) ?l i) = env_ents (lm_file s) i"
    using lmdb_at_content [OF i, of "key_rank E" ?l] env_ok_ents [OF ok, of i] by (auto simp: on_env_def)
  moreover have "hyb_state E ?t ?l r q sns"
    using st writer_ready_frame [of s ?t] by (simp add: hyb_state_def archive_inv_def on_env_def limits_inv_def)
  moreover have "kept s ?t" by (simp add: kept_def hyb_ents_def on_env_def)
  ultimately show ?thesis using s(2) False by (auto simp: hyb_ents_def)
qed

subsection \<open>Each step keeps it\<close>

text \<open>A copy task, whatever snapshots are still on their way: it starts again after the snapshot the store has.\<close>

lemma copying_run:
  fixes l :: LmdbRecords and q :: stats_row and s :: hybrid
  defines "b \<equiv> snap_base (l_snapshot l)" and "limit \<equiv> copy_limit (sqlwriter s)" and "a \<equiv> max 1 (max_index q)"
  assumes st: "hyb_state E s l r q pend"
  shows "\<exists>t q' sns. copy_task E s = Some (Inr (), t) \<and> same s t \<and> writer_ready t \<and> \<not> copy_task_handle (sqlwriter t) \<and>
    tab_stats (sq_file t) = Some q' \<and> tab_snapshot (sq_file t) = tab_snapshot (sq_file s) \<and>
    max_index q' = (if a < limit then limit else max_index q) \<and>
    (\<forall>i. file_ents (sq_file t) i = (if a < limit \<and> a \<le> i \<and> b < i \<and> i \<le> limit
        then env_ents (lm_file s) i else file_ents (sq_file s) i)) \<and>
    from_writer t = from_writer s @ map snap_msg sns \<and>
    snaps_between (sq_file t) (b + 1) (max a limit) sns \<and>
    max a limit - w_snap_size (sqlwriter s) \<le> (if sns = [] then b else snap_index (last sns)) \<and>
    (sns = [] \<or> snap_index (hd sns) = b + w_snap_size (sqlwriter s))"
  unfolding b_def limit_def a_def
proof -
  let ?b = "snap_base (l_snapshot l)" and ?m = "max_index (l_stats l)" and ?limit = "copy_limit (sqlwriter s)"
  let ?a = "max 1 (max_index q)"
  have inv: "lmdb_inv (key_rank E) (l\<lparr>l_env := lm_file s\<rparr>)" and ar: "archive_inv (lm_file s) (sq_file s) l r q pend"
    and lim: "limits_inv s ?m" and w: "writer_ready s"
    using st by (simp_all add: hyb_state_def)
  have lm: "stats_db (lm_file s) = Some (l_stats l)" "snapshots_db (lm_file s) = l_snapshot l"
    and b: "0 \<le> ?b" "?b \<le> max_index q" and ok: "env_ok (lm_file s) ?b ?m"
    using inv ar env_ok_inv [OF inv] by (simp_all add: lmdb_inv_def archive_inv_def)
  have ex: "file_ents (sq_file s) i \<noteq> None" if "?b < i" "i \<le> max_index q" for i
    using archive_invD(1) [OF ar] that b(1) by simp
  show "\<exists>t q' sns. copy_task E s = Some (Inr (), t) \<and> same s t \<and> writer_ready t \<and> \<not> copy_task_handle (sqlwriter t) \<and>
    tab_stats (sq_file t) = Some q' \<and> tab_snapshot (sq_file t) = tab_snapshot (sq_file s) \<and>
    max_index q' = (if ?a < ?limit then ?limit else max_index q) \<and>
    (\<forall>i. file_ents (sq_file t) i = (if ?a < ?limit \<and> ?a \<le> i \<and> ?b < i \<and> i \<le> ?limit
        then env_ents (lm_file s) i else file_ents (sq_file s) i)) \<and>
    from_writer t = from_writer s @ map snap_msg sns \<and>
    snaps_between (sq_file t) (?b + 1) (max ?a ?limit) sns \<and>
    max ?a ?limit - w_snap_size (sqlwriter s) \<le> (if sns = [] then ?b else snap_index (last sns)) \<and>
    (sns = [] \<or> snap_index (hd sns) = ?b + w_snap_size (sqlwriter s))"
    unfolding lm(2) [symmetric]
    by (rule copy_task_run [OF w lm(1) _ archive_invD(3) [OF ar]])
       (use ok archive_invD(4,5) [OF ar] ex lim b lm(2) hyb_ents_bound(2) [OF st] in \<open>simp_all add: limits_inv_def\<close>)
qed

lemma copying_step:
  assumes st: "hyb_state E s l r q []"
  shows "\<exists>t q' sns. copy_task E s = Some (Inr (), t) \<and> hyb_state E t l r q' sns \<and> kept s t \<and>
    (sns = [] \<longrightarrow> max (max 1 (max_index q)) (copy_limit (sqlwriter s)) - w_snap_size (sqlwriter s) \<le> snap_base (l_snapshot l))"
proof -
  let ?b = "snap_base (l_snapshot l)" and ?m = "max_index (l_stats l)" and ?limit = "copy_limit (sqlwriter s)"
  let ?a = "max 1 (max_index q)"
  have inv: "lmdb_inv (key_rank E) (l\<lparr>l_env := lm_file s\<rparr>)" and ar: "archive_inv (lm_file s) (sq_file s) l r q []"
    and lim: "limits_inv s ?m"
    using st by (simp_all add: hyb_state_def)
  have b: "0 \<le> ?b" "?b \<le> max_index q" and ok: "env_ok (lm_file s) ?b ?m"
    using inv ar env_ok_inv [OF inv] by (simp_all add: lmdb_inv_def archive_inv_def)
  obtain t q' sns where t: "copy_task E s = Some (Inr (), t)" "same s t" "writer_ready t"
      "tab_stats (sq_file t) = Some q'" "tab_snapshot (sq_file t) = tab_snapshot (sq_file s)"
      "max_index q' = (if ?a < ?limit then ?limit else max_index q)"
      "\<And>i. file_ents (sq_file t) i = (if ?a < ?limit \<and> ?a \<le> i \<and> ?b < i \<and> i \<le> ?limit
        then env_ents (lm_file s) i else file_ents (sq_file s) i)"
      "from_writer t = from_writer s @ map snap_msg sns" "snaps_between (sq_file t) (?b + 1) (max ?a ?limit) sns"
      "max ?a ?limit - w_snap_size (sqlwriter s) \<le> (if sns = [] then ?b else snap_index (last sns))"
    using copying_run [OF st] by blast
  have here: "file_ents (sq_file t) i \<noteq> None" if "1 \<le> i" "i \<le> max_index q'" for i
  proof (cases "?a < ?limit \<and> ?a \<le> i \<and> ?b < i \<and> i \<le> ?limit")
    case True
    then show ?thesis using t(7) [of i] env_ok_ents [OF ok, of i] lim by (simp add: limits_inv_def)
  next
    case False
    then have "i \<le> max_index q" using that t(6) b by (auto split: if_splits)
    then have "file_ents (sq_file t) i = file_ents (sq_file s) i" "file_ents (sq_file s) i \<noteq> None"
      using t(7) [of i] archive_invD(1) [OF ar that(1)] False by auto
    then show ?thesis by simp
  qed
  have agree: "file_ents (sq_file t) i = env_ents (lm_file s) i" if "?b < i" "i \<le> max_index q'" for i
    using t(6) t(7) [of i] that archive_invD(2) [OF ar, of i] b(1) by (cases "?a < ?limit \<and> ?a \<le> i") (auto split: if_splits)
  have "archive_inv (lm_file s) (sq_file t) l r q' sns"
    unfolding archive_inv_def
  proof (intro conjI)
    show "\<forall>sn \<in> set sns. ?b < snap_index sn \<and> snap_index sn \<le> max_index q'"
      using t(6,9) b by (fastforce simp: snaps_between_def)
    show "max_index (r_stats r) \<le> max_index q'" using ar t(6) by (auto simp: archive_inv_def)
  qed (use ar t here agree in \<open>auto simp: archive_inv_def snaps_between_def\<close>)
  then have "hyb_state E t l r q' sns"
    using st t(2,3,8) by (simp add: hyb_state_def same_def limits_inv_def)
  moreover have "kept s t"
    using t(2) t(7) st by (simp add: kept_def hyb_ents_def same_def hyb_state_def)
  ultimately show ?thesis using t(1,10) by (intro exI [of _ t] exI [of _ q'] exI [of _ sns]) (simp split: if_splits)
qed

lemma backchannel_snapshot:
  "backchannel_message E (snap_msg sn) u =
     (case process_snapshot E sn u of (Inl e, t) \<Rightarrow> (Inl e, t) | (Inr _, t) \<Rightarrow> (Inr True, t))"
  by (cases sn) (simp add: backchannel_message_def sw_control_callback_def run_bindE run_liftE run_seqE run_ret item_def
      snap_json_def sbind_def ret_def split: prod.split sum.split)

lemma snapshot_step:
  assumes st: "hyb_state E s l r q (sn # sns)"
  shows "\<exists>t l' r'. backchannel_turn E s = (Inr (), t) \<and> hyb_state E t l' r' q sns \<and> kept s t \<and> l_snapshot l' = Some sn"
proof -
  let ?b = "snap_base (l_snapshot l)" and ?i = "snap_index sn"
  let ?e = "(lm_file s)\<lparr>snapshots_db := Some sn, records_db := dict_filter (\<lambda>k. \<not> k \<le> ?i) (records_db (lm_file s))\<rparr>"
  let ?r = "(on_file (sq_file s) (h_clock s) r)\<lparr>r_stats := q, r_snapshot := None\<rparr>"
  let ?st = "(l_stats l)\<lparr>max_index := max ?i (max_index (l_stats l))\<rparr>"
  let ?l = "lput ?e ?st ((on_env (lm_file s) (h_clock s) l)\<lparr>l_snapshot := Some sn\<rparr>)"
  let ?s = "s\<lparr>from_writer := map snap_msg sns\<rparr>"
  let ?t = "?s\<lparr>sq_file := r_disk ?r, h_sqlite := Some (Some ?r), lm_file := l_env ?l, h_lmdb := Some (Some ?l),
    last_lmdb_snap := Some sn\<rparr>"
  have inv: "lmdb_inv (key_rank E) (l\<lparr>l_env := lm_file s\<rparr>)" and ar: "archive_inv (lm_file s) (sq_file s) l r q (sn # sns)"
    and lim: "limits_inv s (max_index (l_stats l))" and w: "writer_ready s"
    and s: "h_lmdb s = Some (Some l)" "h_sqlite s = Some (Some r)" "last_lmdb_snap s = l_snapshot l"
      "from_writer s = snap_msg sn # map snap_msg sns"
    using st by (simp_all add: hyb_state_def)
  obtain c where c: "sw_control s = Some c" "c_running c" using lim by (auto simp: limits_inv_def)
  have i: "?b < ?i" "?i \<le> max_index q" "max_index q \<le> max_index (l_stats l)" "0 \<le> ?b"
    using ar hyb_ents_bound(2) [OF st] inv by (simp_all add: archive_inv_def lmdb_inv_def)
  have cont: "contiguous (records_db (lm_file s)) ?b (max_index (l_stats l))" "ordered_keys (key_rank E)"
    using inv by (simp_all add: lmdb_inv_def)
  have "refresh_stats (on_file (sq_file s) (h_clock s) r) = (Inr (), ?r)"
    using refresh_stats_run [of "on_file (sq_file s) (h_clock s) r" q] ar by (simp add: on_file_def archive_inv_def)
  then have r: "main_sqlite refresh_stats ?s = (Inr (), ?s\<lparr>sq_file := r_disk ?r, h_sqlite := Some (Some ?r)\<rparr>)"
    using s(2) by (simp add: main_sqlite_def)
  have "lmdb_install_snapshot (key_rank E) sn (on_env (lm_file s) (h_clock s) l) = (Inr (), ?l)"
    using lmdb_install_run [of "on_env (lm_file s) (h_clock s) l" sn "key_rank E"] inv i
      prune_contiguous [OF ordered_keysD [OF cont(2)] cont(1) i(4), of ?i] by (simp add: on_env_def lmdb_inv_def)
  then have l: "main_lmdb (lmdb_install_snapshot (key_rank E) sn) (?s\<lparr>sq_file := r_disk ?r, h_sqlite := Some (Some ?r)\<rparr>) =
      (Inr (), ?s\<lparr>sq_file := r_disk ?r, h_sqlite := Some (Some ?r), lm_file := l_env ?l, h_lmdb := Some (Some ?l)\<rparr>)"
    using s(1) by (simp add: main_lmdb_def)
  have "process_snapshot E sn ?s = (Inr (), ?t)"
    using r l by (simp add: process_snapshot_def run_tryE run_seqE run_modE)
  then have "backchannel_message E (snap_msg sn) ?s = (Inr True, ?t)"
    by (simp add: backchannel_snapshot)
  then have turn: "backchannel_turn E s = (Inr (), ?t)"
    using s(4) c by (simp add: backchannel_turn_def run_bindE run_getsE run_seqE run_modE run_tryE run_ret)
  have "lmdb_inv (key_rank E) (?l\<lparr>l_env := l_env ?l\<rparr>)"
    using inv i contiguous_above [OF cont(1), of ?i] by (simp add: lmdb_inv_def on_env_def lput_def)
  moreover have ents: "env_ents (l_env ?l) j = (if j \<le> ?i then None else env_ents (lm_file s) j)" for j
    by (auto simp: env_ents_def)
  moreover have "archive_inv (l_env ?l) (r_disk ?r) ?l ?r q sns"
    using ar i(1) by (auto simp: archive_inv_def on_file_def ents simp del: lput_simps(4))
  moreover have "limits_inv ?t (max_index (l_stats ?l))" "h_running ?t"
    using lim i st by (simp_all add: limits_inv_def hyb_state_def)
  moreover have "writer_ready ?t"
    by (rule writer_ready_frame [OF w]) (simp_all add: on_file_def)
  ultimately have "hyb_state E ?t ?l ?r q sns"
    by (simp add: hyb_state_def)
  moreover have "kept s ?t"
    using s(3) archive_invD(2) [OF ar] i by (auto simp: kept_def hyb_ents_def env_ents_def on_file_def)
  moreover have "l_snapshot ?l = Some sn" by simp
  ultimately show ?thesis using turn by blast
qed

text \<open>Calls of the main process that change the attributes of the LMDB log, or its records at the end.\<close>

lemma lmdb_put_state:
  assumes st: "hyb_state E s l r q sns"
    and l: "l' = lput e x (on_env (lm_file s) (h_clock s) l)" and inv: "lmdb_inv (key_rank E) l'"
    and e: "\<And>i. i \<le> max_index (l_stats l) \<Longrightarrow> env_ents e i = env_ents (lm_file s) i"
    and m: "max_index (l_stats l) \<le> max_index x"
  shows "hyb_state E (s\<lparr>lm_file := l_env l', h_lmdb := Some (Some l')\<rparr>) l' r q sns"
    "kept s (s\<lparr>lm_file := l_env l', h_lmdb := Some (Some l')\<rparr>)"
proof -
  let ?t = "s\<lparr>lm_file := l_env l', h_lmdb := Some (Some l')\<rparr>"
  have sn: "l_snapshot l' = l_snapshot l" "max_index (l_stats l') = max_index x" "env_ents (l_env l') = env_ents e"
    using l by (simp_all add: on_env_def)
  have "archive_inv (l_env l') (sq_file s) l' r q sns"
    using st hyb_ents_bound(2) [OF st] e unfolding hyb_state_def archive_inv_def sn by simp
  moreover have "limits_inv ?t (max_index (l_stats l'))"
    using st m unfolding sn hyb_state_def limits_inv_def by fastforce
  moreover have "writer_ready ?t"
    using st writer_ready_frame [of s ?t] by (simp add: hyb_state_def)
  ultimately show "hyb_state E ?t l' r q sns"
    using st inv sn by (simp add: hyb_state_def)
  show "kept s ?t"
    using hyb_ents_bound(1) [OF st] e sn by (auto simp: kept_def hyb_ents_def)
qed

lemma on_env_inv: "hyb_state E s l r q sns \<Longrightarrow> lmdb_inv (key_rank E) (on_env (lm_file s) (h_clock s) l)"
  by (simp add: hyb_state_def on_env_def)

lemma marking_step:
  assumes st: "hyb_state E s l r q sns"
  shows "\<exists>t l'. hyb_mark_committed i s = (Inr (), t) \<and> hyb_state E t l' r q sns \<and> kept s t"
    "\<exists>t l'. hyb_mark_applied i s = (Inr (), t) \<and> hyb_state E t l' r q sns \<and> kept s t"
proof -
  let ?l = "on_env (lm_file s) (h_clock s) l"
  have inv: "lmdb_inv (key_rank E) ?l" and o: "l_open ?l" and h: "h_lmdb s = Some (Some l)"
    using st on_env_inv [OF st] by (simp_all add: hyb_state_def)
  have put: "hyb_state E (s\<lparr>lm_file := l_env (lput (l_env ?l) x ?l), h_lmdb := Some (Some (lput (l_env ?l) x ?l))\<rparr>) (lput (l_env ?l) x ?l) r q sns"
      "kept s (s\<lparr>lm_file := l_env (lput (l_env ?l) x ?l), h_lmdb := Some (Some (lput (l_env ?l) x ?l))\<rparr>)"
    if "max_index x = max_index (l_stats ?l)" for x
    using lmdb_put_state [OF st refl lmdb_put_stat(1) [OF inv that]] that by (simp_all add: on_env_def)
  have "lput (l_env ?l) (l_stats ?l) ?l = ?l"
    using inv by (simp add: lput_def lmdb_inv_def)
  then have idle: "hyb_state E (s\<lparr>lm_file := l_env ?l, h_lmdb := Some (Some ?l)\<rparr>) ?l r q sns"
      "kept s (s\<lparr>lm_file := l_env ?l, h_lmdb := Some (Some ?l)\<rparr>)"
    using put [of "l_stats ?l"] by simp_all
  have c: "lmdb_set_commit_index i ?l = (Inr (), if i > max_commit (l_stats ?l)
      then lput (l_env ?l) ((l_stats ?l)\<lparr>max_commit := i\<rparr>) ?l else ?l)"
    "lmdb_set_apply_index i ?l = (Inr (), if i > max_apply (l_stats ?l)
      then lput (l_env ?l) ((l_stats ?l)\<lparr>max_apply := i\<rparr>) ?l else ?l)"
    using o by (simp_all add: lmdb_set_commit_index_def lmdb_set_apply_index_def run_seqE run_bindE run_getsE run_whenE
        lmdb_ensure_open_run lmdb_set_stat_run)
  show "\<exists>t l'. hyb_mark_committed i s = (Inr (), t) \<and> hyb_state E t l' r q sns \<and> kept s t"
    using main_lmdb_run [OF h, of "lmdb_set_commit_index i", OF c(1)] put [of "(l_stats ?l)\<lparr>max_commit := i\<rparr>"] idle
    unfolding hyb_mark_committed_def if_open_run [OF st]
    by (cases "i > max_commit (l_stats ?l)") (simp_all add: exI)
  show "\<exists>t l'. hyb_mark_applied i s = (Inr (), t) \<and> hyb_state E t l' r q sns \<and> kept s t"
    using main_lmdb_run [OF h, of "lmdb_set_apply_index i", OF c(2)] put [of "(l_stats ?l)\<lparr>max_apply := i\<rparr>"] idle
    unfolding hyb_mark_applied_def if_open_run [OF st]
    by (cases "i > max_apply (l_stats ?l)") (simp_all add: exI)
qed

lemma main_lmdb_gets:
  assumes "h_lmdb s = Some (Some l)" and sync: "on_env (lm_file s) (h_clock s) l = l"
  shows "main_lmdb (getsE f) s = (Inr (f l), s)"
proof -
  have "l_env l = lm_file s" using arg_cong [OF sync, of l_env] by (simp add: on_env_def)
  with assms show ?thesis by (simp add: main_lmdb_def run_getsE)
qed

lemma relieve_step:
  assumes st: "hyb_state E s l r q sns" and sync: "on_env (lm_file s) (h_clock s) l = l" and n: "n \<le> max_index (l_stats l)"
  shows "\<exists>t. relieve_pressure n s = (Inr (), t) \<and> hyb_state E t l r q sns \<and> kept s t \<and> sqlwriter t = sqlwriter s \<and>
    hold_count t = hold_count s \<and> push_trigger t = push_trigger s \<and> last_pressure_sent t = n \<and>
    to_writer t = to_writer s @ [limit_msg n (max_commit (l_stats l)) (max_apply (l_stats l))]"
proof -
  let ?msg = "limit_msg n (max_commit (l_stats l)) (max_apply (l_stats l))"
  let ?t = "s\<lparr>to_writer := to_writer s @ [?msg], last_pressure_sent := n\<rparr>"
  have h: "h_lmdb s = Some (Some l)" using st by (simp add: hyb_state_def)
  obtain c where "sw_control s = Some c" "c_connected c" using st by (auto simp: hyb_state_def limits_inv_def)
  then have "relieve_pressure n s = (Inr (), ?t)"
    by (simp add: relieve_pressure_def run_bindE run_seqE main_lmdb_gets [OF h sync] send_limit_def send_command_def
        control_def run_getsE [of sw_control] run_ret run_modE)
  moreover have "limits_inv ?t (max_index (l_stats l))"
    using st n by (auto simp: hyb_state_def limits_inv_def)
  then have "hyb_state E ?t l r q sns"
    using st writer_ready_frame [of s ?t] by (simp add: hyb_state_def)
  moreover have "kept s ?t" by (simp add: kept_def hyb_ents_def)
  ultimately show ?thesis by (intro exI [of _ ?t]) simp
qed

lemma inserting_step:
  assumes st: "hyb_state E s l r q sns" and x: "rec_index x = 0 \<or> rec_index x = max_index (l_stats l) + 1"
  shows "\<exists>t l'. hyb_insert E x s = (Inr (x\<lparr>rec_index := max_index (l_stats l) + 1\<rparr>), t) \<and>
    hyb_state E t l' r q sns \<and> kept s t \<and>
    hyb_ents t (max_index (l_stats l) + 1) = Some (content (x\<lparr>rec_index := max_index (l_stats l) + 1\<rparr>)) \<and>
    max_index (l_stats l') = max_index (l_stats l) + 1 \<and> l_snapshot l' = l_snapshot l \<and> sqlwriter t = sqlwriter s \<and>
    hold_count t = hold_count s \<and> push_trigger t = push_trigger s \<and>
    (max_index (l_stats l) - snap_base (l_snapshot l) - last_pressure_sent s - hold_count s \<ge> push_trigger s \<longrightarrow>
       last_pressure_sent t = max_index (l_stats l) + 1 - hold_count s \<and>
       (\<exists>ci ai. to_writer t = to_writer s @ [limit_msg (max_index (l_stats l) + 1 - hold_count s) ci ai]))"
proof -
  let ?l = "on_env (lm_file s) (h_clock s) l" and ?m = "max_index (l_stats l)"
  let ?p = "x\<lparr>rec_index := ?m + 1\<rparr>"
  define e where "e = (l_env ?l)\<lparr>records_db := dict_set (?m + 1) ?p (records_db (l_env ?l)),
    timestamps_db := dict_set (?m + 1) (l_now ?l) (timestamps_db (l_env ?l))\<rparr>"
  define st' where "st' = (l_stats ?l)\<lparr>max_index := ?m + 1\<rparr>"
  define l' where "l' = lput e st' ?l"
  let ?s = "s\<lparr>lm_file := l_env l', h_lmdb := Some (Some l')\<rparr>"
  have inv: "lmdb_inv (key_rank E) ?l" and h: "h_lmdb s = Some (Some l)" and b: "0 \<le> snap_base (l_snapshot l)" "snap_base (l_snapshot l) \<le> ?m"
    using st on_env_inv [OF st] by (simp_all add: hyb_state_def lmdb_inv_def)
  have save: "lmdb_save_entry (key_rank E) ?p ?l = (Inr (Some ?p), l')"
    using lmdb_save_entry_run [of ?l ?p "key_rank E"] inv b
    by (simp add: l'_def e_def st'_def on_env_def max_def lmdb_inv_def)
  then have inv': "lmdb_inv (key_rank E) l'"
    using lmdb_save_law [OF inv, of ?p] b by (auto simp: on_env_def)
  have "lmdb_insert (key_rank E) x ?l = (Inr ?p, l')"
  proof (cases "rec_index x = 0")
    case False
    then have "?p = x" using x by simp
    with save False x show ?thesis by (simp add: lmdb_insert_def run_bindE run_getsE on_env_def run_ret)
  qed (use save in \<open>simp add: lmdb_insert_def run_bindE run_getsE on_env_def run_ret\<close>)
  from main_lmdb_run [OF h, of "lmdb_insert (key_rank E) x", OF this]
  have ins: "main_lmdb (lmdb_insert (key_rank E) x) s = (Inr ?p, ?s)" .
  have ents: "env_ents e i = (if i = ?m + 1 then Some (content ?p) else env_ents (lm_file s) i)" for i
    by (simp add: e_def on_env_def env_ents_def)
  have s1: "hyb_state E ?s l' r q sns" "kept s ?s"
    using lmdb_put_state [OF st l'_def inv'] ents by (simp_all add: st'_def on_env_def)
  have sync: "on_env (lm_file ?s) (h_clock ?s) l' = l'" and h1: "h_lmdb ?s = Some (Some l')"
    by (simp_all add: l'_def lput_def on_env_def)
  have l': "max_index (l_stats l') = ?m + 1" "l_snapshot l' = l_snapshot l"
    by (simp_all add: l'_def st'_def on_env_def)
  have first: "lmdb_get_first_index l' = Some (snap_base (l_snapshot l) + 1)"
    using lmdb_first_index [OF inv'] l' b by simp
  have hold: "?m + 1 - hold_count s \<le> max_index (l_stats l')"
    using st l' by (simp add: hyb_state_def limits_inv_def)
  obtain u where u: "relieve_pressure (?m + 1 - hold_count s) ?s = (Inr (), u)" "hyb_state E u l' r q sns" "kept ?s u"
      "sqlwriter u = sqlwriter s" "hold_count u = hold_count s" "push_trigger u = push_trigger s"
      "last_pressure_sent u = ?m + 1 - hold_count s"
      "\<exists>ci ai. to_writer u = to_writer s @ [limit_msg (?m + 1 - hold_count s) ci ai]"
    using relieve_step [OF s1(1) sync hold] by auto
  have last: "lmdb_get_last_index l' = ?m + 1" using lmdb_last_index [OF inv'] l' by simp
  let ?push = "lmdb_get_last_index l' - (snap_base (l_snapshot l) + 1) - last_pressure_sent s - hold_count s \<ge> push_trigger s"
  have run_ins: "hyb_insert E x s = (Inr ?p, if ?push then u else ?s)"
    unfolding hyb_insert_def if_open_run [OF st]
    by (simp add: run_bindE ins main_lmdb_gets [OF h1 sync] first run_ret run_getsE [of id] run_seqE run_whenE run_tryE u(1))
  have "hyb_ents ?s (?m + 1) = Some (content ?p)"
    using s1(1) l' b ents by (simp add: hyb_ents_def hyb_state_def l'_def)
  moreover from this have "hyb_ents u (?m + 1) = Some (content ?p)"
    using u(3) b by (simp add: kept_def)
  moreover have "kept s u" using kept_trans [OF s1(2) u(3)] .
  ultimately show ?thesis
    using run_ins s1 u(2,4-8) l' last
    by (intro exI [of _ "if ?push then u else ?s"] exI [of _ l']) (cases ?push; simp)
qed

lemma request_taken:
  assumes st: "hyb_state E s l r q sns" and w: "to_writer s = limit_msg n ci ai # js"
  shows "\<exists>t. handle_client_turn E s = Some (Inr (), t) \<and> hyb_state E t l r q sns \<and> kept s t \<and> to_writer t = js \<and>
    copy_limit (sqlwriter t) = n \<and> copy_task_handle (sqlwriter t) \<and> w_snap_size (sqlwriter t) = w_snap_size (sqlwriter s)"
proof -
  have n: "n \<le> max_index (l_stats l)" and up: "s_running (sqlwriter s)" "\<not> s_shutdown (sqlwriter s)"
    using st w by (auto simp: hyb_state_def limits_inv_def)
  let ?t = "s\<lparr>to_writer := js, sqlwriter := (sqlwriter s)\<lparr>upstream_commit_index := ci, upstream_apply_index := ai,
    copy_limit := n, copy_task_handle := True\<rparr>\<rparr>"
  have "handle_client_turn E s = Some (Inr (), ?t)"
    using w up by (simp add: handle_client_turn_def tryT_def bindT_def runT_def handle_request_def item_def
        str_json_def set_copy_limit_def sbind_def run writer_mod_def)
  moreover have "limits_inv ?t (max_index (l_stats l))" "writer_ready ?t"
    using st n w by (auto simp: hyb_state_def limits_inv_def writer_ready_def)
  then have "hyb_state E ?t l r q sns"
    using st by (simp add: hyb_state_def)
  moreover have "kept s ?t" by (simp add: kept_def hyb_ents_def)
  ultimately show ?thesis by (intro exI [of _ ?t]) simp
qed

lemma request_step:
  assumes st: "hyb_state E s l r q sns"
  shows "\<exists>t. handle_client_turn E s = Some (Inr (), t) \<and> hyb_state E t l r q sns \<and> kept s t"
proof (cases "to_writer s")
  case Nil
  with st show ?thesis by (auto simp: handle_client_turn_def kept_def)
next
  case (Cons j js)
  then obtain n ci ai where "j = limit_msg n ci ai" using st by (fastforce simp: hyb_state_def limits_inv_def)
  with request_taken [OF st] Cons show ?thesis by blast
qed

subsection \<open>Runs\<close>

lemma last_index_state:
  assumes "hyb_state E s l r q sns"
  shows "fst (hyb_get_last_index s) = Inr (max_index (l_stats l))"
proof -
  have "h_lmdb s = Some (Some l)" using assms by (simp add: hyb_state_def)
  with lmdb_last_index [OF on_env_inv [OF assms]] show ?thesis
    by (simp add: hyb_get_last_index_def if_open_run [OF assms] main_lmdb_def run_getsE on_env_def)
qed

text \<open>
  The steps of a system that only grows: records added at the end, indexes marked, records read, the
  writer answering a request or copying, the main process taking a message of the writer, and time. Two
  conditions are the model's and not the code's. A copy task is one step, although the writer is another
  process and the main process goes on while it copies. And a copy task starts only when the snapshots of
  the one before have been taken; the writer does not wait for that, and \<open>snapshots_sent_again\<close> shows what
  happens when it starts earlier.
\<close>

inductive archiving :: "hybrid_env \<Rightarrow> hybrid \<Rightarrow> hybrid \<Rightarrow> bool" for E where
  inserting: "rec_index x = 0 \<or> fst (hyb_get_last_index s) = Inr (rec_index x - 1) \<Longrightarrow>
    hyb_insert E x s = (v, t) \<Longrightarrow> archiving E s t"
| committing: "hyb_mark_committed i s = (v, t) \<Longrightarrow> archiving E s t"
| applying: "hyb_mark_applied i s = (v, t) \<Longrightarrow> archiving E s t"
| reading: "1 \<le> i \<Longrightarrow> hyb_read E (Some i) s = (v, t) \<Longrightarrow> archiving E s t"
| requested: "handle_client_turn E s = Some (v, t) \<Longrightarrow> archiving E s t"
| copying: "from_writer s = [] \<Longrightarrow> copy_task_handle (sqlwriter s) \<Longrightarrow> copy_task E s = Some (v, t) \<Longrightarrow> archiving E s t"
| replied: "backchannel_turn E s = (v, t) \<Longrightarrow> archiving E s t"
| ticking: "archiving E s (s\<lparr>h_clock := c\<rparr>)"

lemma archiving_step:
  assumes "archiving E s t" and "hyb_inv E s"
  shows "hyb_inv E t \<and> kept s t"
proof -
  obtain l r q sns where st: "hyb_state E s l r q sns" using assms(2) by (auto simp: hyb_inv_def)
  from assms(1) show ?thesis
  proof cases
    case (inserting x v)
    then have "rec_index x = 0 \<or> rec_index x = max_index (l_stats l) + 1"
      using last_index_state [OF st] by auto
    from inserting_step [OF st this] inserting(2) show ?thesis by (auto simp: hyb_inv_def)
  next
    case (committing i v)
    with marking_step(1) [OF st, of i] show ?thesis by (auto simp: hyb_inv_def)
  next
    case (applying i v)
    with marking_step(2) [OF st, of i] show ?thesis by (auto simp: hyb_inv_def)
  next
    case (reading i v)
    with hyb_read_run [OF st, of i] show ?thesis by (auto simp: hyb_inv_def)
  next
    case (requested v)
    with request_step [OF st] show ?thesis by (auto simp: hyb_inv_def)
  next
    case (copying v)
    then have "sns = []" using st by (simp add: hyb_state_def)
    with copying_step [of E s l r q] st copying(3) show ?thesis by (auto simp: hyb_inv_def)
  next
    case (replied v)
    show ?thesis
    proof (cases sns)
      case Nil
      then have "backchannel_turn E s = (Inr (), s)"
        using st by (simp add: backchannel_turn_def run_bindE run_getsE hyb_state_def run_ret)
      with replied assms(2) show ?thesis by (simp add: kept_def)
    next
      case (Cons sn rest)
      with snapshot_step [of E s l r q sn rest] st replied show ?thesis by (auto simp: hyb_inv_def)
    qed
  next
    case (ticking c)
    have "hyb_state E t l r q sns"
      using st writer_ready_frame [of s t] ticking by (simp add: hyb_state_def limits_inv_def)
    then show ?thesis using ticking by (auto simp: hyb_inv_def kept_def hyb_ents_def)
  qed
qed

lemma archiving_run: "(archiving E)\<^sup>*\<^sup>* s t \<Longrightarrow> hyb_inv E s \<Longrightarrow> hyb_inv E t \<and> kept s t"
  by (induction rule: rtranclp_induct) (auto simp: kept_def dest: archiving_step)

text \<open>The state after a start on given files.\<close>

definition started_hybrid :: "int \<Rightarrow> int \<Rightarrow> int \<Rightarrow> int \<Rightarrow> SqliteDB \<Rightarrow> LmdbEnv \<Rightarrow> time \<Rightarrow> Records \<Rightarrow> LmdbRecords \<Rightarrow> hybrid" where
  "started_hybrid hold trigger snaps block db env clock r l =
     (new_HybridLog hold trigger snaps block db env clock)\<lparr>h_sqlite := Some (Some r), h_lmdb := Some (Some l),
       sw_control := Some ((new_SqliteWriterControl snaps block)\<lparr>c_connected := True, c_proc := True, c_running := True\<rparr>),
       sqlwriter := (new_SqliteWriter snaps block)\<lparr>w_sqlite := Some (Some r), w_lmdb := Some (Some l), s_running := True,
         w_started := True, s_connected := True\<rparr>\<rparr>"

lemma hyb_start_run:
  assumes r: "sqlite_start clock db0 None = r" "sqlite_start clock db None = r" "r_disk r = db"
    and l: "lmdb_start clock env0 = l" "lmdb_start clock env = l" "l_env l = env" and "connect_loop 0 tries"
  shows "hyb_start tries (new_HybridLog hold trigger snaps block db0 env0 clock) =
    (Inr (), started_hybrid hold trigger snaps block db env clock r l)"
  using assms by (simp add: hyb_start_def main_start_lmdb_def main_start_sqlite_def control_start_def control_def
        writer_start_def writer_start_sqlite_def writer_start_lmdb_def writer_mod_def control_mod_def run started_hybrid_def
        new_HybridLog_def new_SqliteWriter_def new_SqliteWriterControl_def Let_def)

lemma hyb_start_state:
  fixes clock :: time
  defines "db \<equiv> empty_db\<lparr>tab_stats := Some open_stats\<rparr>" and "env \<equiv> empty_env\<lparr>stats_db := Some open_stats\<rparr>"
  defines "r \<equiv> (new_Records True clock db)\<lparr>r_open := True, r_stats := open_stats, r_snapshot := None\<rparr>"
  defines "l \<equiv> \<lparr>l_open = True, l_env = env, l_stats = open_stats, l_snapshot = None, l_now = clock\<rparr>"
  assumes "ordered_keys (key_rank E)" and "0 \<le> hold" "1 \<le> snaps" "1 \<le> block" and "connect_loop 0 tries"
  shows "hyb_start tries (new_HybridLog hold trigger snaps block empty_db empty_env clock) =
      (Inr (), started_hybrid hold trigger snaps block db env clock r l)"
    "hyb_state E (started_hybrid hold trigger snaps block db env clock r l) l r open_stats []"
proof -
  have r: "sqlite_start clock empty_db None = r" "sqlite_start clock db None = r" "r_disk r = db"
    unfolding sqlite_start_def option.case sql_open_run by (simp_all add: r_def db_def empty_db_def new_Records_def)
  have l: "lmdb_start clock empty_env = l" "lmdb_start clock env = l" "l_env l = env"
    by (simp_all add: l_def env_def lmdb_start_def lmdb_open_def new_LmdbRecords_def empty_env_def run txn_def put_stats_def put_env_def)
  show "hyb_start tries (new_HybridLog hold trigger snaps block empty_db empty_env clock) =
      (Inr (), started_hybrid hold trigger snaps block db env clock r l)"
    by (rule hyb_start_run [OF r l assms(9)])
  show "hyb_state E (started_hybrid hold trigger snaps block db env clock r l) l r open_stats []"
    using assms(5-9) by (auto simp: r_def l_def db_def env_def started_hybrid_def hyb_state_def archive_inv_def limits_inv_def
        writer_ready_def new_HybridLog_def new_SqliteWriter_def lmdb_inv_def new_Records_def open_stats_def empty_db_def empty_env_def)
qed

lemma hyb_start_inv:
  assumes "ordered_keys (key_rank E)" and "0 \<le> hold" "1 \<le> snaps" "1 \<le> block" and "connect_loop 0 tries"
  shows "hyb_inv E (snd (hyb_start tries (new_HybridLog hold trigger snaps block empty_db empty_env clock)))"
  unfolding hyb_inv_def hyb_start_state(1) [OF assms] snd_conv using hyb_start_state(2) [OF assms] by blast

section \<open>A copy task that never ends\<close>

text \<open>
  When the store ends before the limit, as after a deletion, a round of the loop copies nothing past its
  end, and the loop goes on with the same record for ever.
\<close>

definition spinning :: "hybrid \<Rightarrow> int \<Rightarrow> int \<Rightarrow> Records \<Rightarrow> LmdbRecords \<Rightarrow> bool" where
  "spinning s b my_last r l \<longleftrightarrow> wsync s r \<and> tab_stats (sq_file s) = Some (r_stats r) \<and> lsync s l \<and>
     env_ok (lm_file s) b (max_index (l_stats l)) \<and> snap_base (r_snapshot r) \<le> max_index (r_stats r) \<and>
     my_last = max 1 (max_index (r_stats r)) \<and> b \<le> max_index (r_stats r) \<and> max_index (r_stats r) \<le> max_index (l_stats l) \<and> 1 \<le> max_index (l_stats l) \<and>
     max_index (l_stats l) < copy_limit (sqlwriter s) \<and> 1 \<le> w_copy_block_size (sqlwriter s)"

lemma spinning_round:
  assumes "spinning s b my_last r l"
  shows "\<exists>t m' r'. copy_round E my_last s = (Inr m', t) \<and> spinning t b m' r' l"
proof -
  let ?m = "max_index (l_stats l)"
  define last_i where "last_i = min (my_last + w_copy_block_size (sqlwriter s)) (copy_limit (sqlwriter s))"
  define end_i where "end_i = max (max_index (r_stats r)) (min last_i ?m)"
  have sp: "wsync s r" "tab_stats (sq_file s) = Some (r_stats r)" "lsync s l" "env_ok (lm_file s) b ?m"
      "snap_base (r_snapshot r) \<le> max_index (r_stats r)" "my_last = max 1 (max_index (r_stats r))"
      "b \<le> max_index (r_stats r)" "max_index (r_stats r) \<le> ?m" "1 \<le> ?m" "?m < copy_limit (sqlwriter s)"
      "1 \<le> w_copy_block_size (sqlwriter s)" "0 \<le> b"
    using assms by (simp_all add: spinning_def env_ok_def)
  have i: "1 \<le> my_last" "my_last < copy_limit (sqlwriter s)" "my_last \<le> max_index (r_stats r) + 1" "max_index (r_stats r) \<le> my_last"
    using sp(6-12) by simp_all
  obtain t r' where t: "copy_round E my_last s = (Inr end_i, t)" "wsync t r'"
      "lsync t l" "same s t" "stored (max my_last (b + 1)) (min last_i ?m) (env_ents (lm_file s)) r r'"
    using copy_round_run [OF sp(1-4) refl sp(5) i(1,2) sp(8,7) i(3,4) sp(11), of E] unfolding last_i_def end_i_def by blast
  have e: "1 \<le> end_i" "end_i \<le> ?m" "max_index (r_stats r) \<le> end_i" "max_index (r_stats r') = end_i"
    using sp i t(5) by (auto simp: end_i_def last_i_def stored_def)
  have "tab_stats (sq_file t) = Some (r_stats r')" "r_snapshot r' = r_snapshot r"
    using t(2,5) by (simp_all add: stored_def wsync_def)
  then have "spinning t b end_i r' l"
    using sp t(2-4) e by (simp add: spinning_def same_def)
  with t(1) show ?thesis by blast
qed

lemma copy_loop_spins:
  assumes "spinning s b my_last r l"
  shows "copy_loop E my_last s = None"
proof (rule ccontr)
  assume "copy_loop E my_last s \<noteq> None"
  then obtain x where ret: "copy_loop E my_last s = Some x" by blast
  have "\<forall>b r l. \<not> spinning s b my_last r l"
  proof (rule copy_loop.raw_induct [where P = "\<lambda>E my_last s x. \<forall>b r l. \<not> spinning s b my_last r l", OF _ ret])
    fix f E my_last s x
    assume IH: "\<And>E my_last s x. f E my_last s = Some x \<Longrightarrow> \<forall>b r l. \<not> spinning s b my_last r l"
      and eq: "(if my_last < copy_limit (sqlwriter s)
        then (case copy_round E my_last s of (Inl e, t) \<Rightarrow> Some (Inl e, t) | (Inr m, t) \<Rightarrow> f E m t)
        else Some (Inr my_last, s)) = Some x"
    show "\<forall>b r l. \<not> spinning s b my_last r l"
    proof (intro allI notI)
      fix b r l assume sp: "spinning s b my_last r l"
      then obtain t m' r' where t: "copy_round E my_last s = (Inr m', t)" "spinning t b m' r' l"
        using spinning_round by blast
      have "my_last < copy_limit (sqlwriter s)" using sp by (auto simp: spinning_def)
      then have "f E m' t = Some x" using eq t(1) by simp
      from IH [OF this] t(2) show False by blast
    qed
  qed
  with assms show False by blast
qed

section \<open>The writer and the main process at odds\<close>

lemma main_sqlite_gets:
  "h_sqlite s = Some (Some r) \<Longrightarrow> main_sqlite (getsE f) s =
     (Inr (f (on_file (sq_file s) (h_clock s) r)), s\<lparr>h_sqlite := Some (Some (on_file (sq_file s) (h_clock s) r))\<rparr>)"
  by (simp add: main_sqlite_def run_getsE on_file_def)

lemma main_lmdb_gets_sync:
  "h_lmdb s = Some (Some l) \<Longrightarrow> main_lmdb (getsE f) s =
     (Inr (f (on_env (lm_file s) (h_clock s) l)), s\<lparr>h_lmdb := Some (Some (on_env (lm_file s) (h_clock s) l))\<rparr>)"
  by (simp add: main_lmdb_def run_getsE on_env_def)

lemma on_file_idem [simp]: "on_file d c (on_file d c r) = on_file d c r"
  by (simp add: on_file_def)

text \<open>Taking a snapshot message, whatever the state of the archive.\<close>

lemma snapshot_taken:
  assumes "h_sqlite s = Some (Some r)" "h_lmdb s = Some (Some l)" "l_open l" "tab_stats (sq_file s) = Some q"
    and "snap_index sn \<noteq> 0" and "from_writer s = snap_msg sn # ms" and "sw_control s = Some c" "c_running c"
  shows "\<exists>v r' l'. backchannel_turn E s = (Inr (), v) \<and> h_running v = h_running s \<and> h_sqlite v = Some (Some r') \<and> r_stats r' = q \<and>
    h_lmdb v = Some (Some l') \<and> last_lmdb_snap v = Some sn \<and> sq_file v = sq_file s \<and>
    max_index (l_stats l') = max (snap_index sn) (max_index (l_stats l)) \<and> l_snapshot l' = Some sn \<and> l_open l' \<and>
    from_writer v = ms \<and> sw_control v = sw_control s \<and>
    records_db (lm_file v) = prune (key_rank E) (snap_index sn) (records_db (lm_file s))"
proof -
  let ?s = "s\<lparr>from_writer := ms\<rparr>"
  define r' where "r' = (on_file (sq_file s) (h_clock s) r)\<lparr>r_stats := q,
    r_snapshot := (case tab_snapshot (sq_file s) of None \<Rightarrow> r_snapshot r | Some sn \<Rightarrow> Some sn)\<rparr>"
  define l' where "l' = snd (lmdb_install_snapshot (key_rank E) sn (on_env (lm_file s) (h_clock s) l))"
  define s1 where "s1 = ?s\<lparr>h_sqlite := Some (Some r')\<rparr>"
  have "refresh_stats (on_file (sq_file s) (h_clock s) r) = (Inr (), r')"
    using refresh_stats_run [of "on_file (sq_file s) (h_clock s) r" q] assms(4) by (simp add: on_file_def r'_def split: option.split)
  then have a: "main_sqlite refresh_stats ?s = (Inr (), s1)"
    using assms(1) by (simp add: main_sqlite_def s1_def r'_def on_file_def)
  note inst = lmdb_install_run [of "on_env (lm_file s) (h_clock s) l" sn "key_rank E"]
  have "lmdb_install_snapshot (key_rank E) sn (on_env (lm_file s) (h_clock s) l) = (Inr (), l')"
    using inst assms(3,5) by (simp add: l'_def on_env_def)
  then have b: "main_lmdb (lmdb_install_snapshot (key_rank E) sn) s1 = (Inr (), s1\<lparr>lm_file := l_env l', h_lmdb := Some (Some l')\<rparr>)"
    using assms(2) by (simp add: main_lmdb_def s1_def)
  have "backchannel_turn E s = (Inr (), s1\<lparr>lm_file := l_env l', h_lmdb := Some (Some l'), last_lmdb_snap := Some sn\<rparr>)"
    using assms(6-8) a b by (simp add: backchannel_turn_def run_bindE run_getsE run_seqE run_modE run_tryE run_ret
        backchannel_snapshot process_snapshot_def)
  moreover have "max_index (l_stats l') = max (snap_index sn) (max_index (l_stats l))" "l_snapshot l' = Some sn" "l_open l'"
      "records_db (l_env l') = prune (key_rank E) (snap_index sn) (records_db (lm_file s))"
    using inst assms(3,5) by (simp_all add: l'_def on_env_def)
  ultimately show ?thesis by (simp add: s1_def r'_def on_file_def)
qed

text \<open>A record the archive holds, read through the attributes the main process has.\<close>

lemma archive_read:
  assumes "h_running s" "h_sqlite s = Some (Some r)" "h_lmdb s = Some (Some l)" and "last_lmdb_snap s = Some sn"
    and "1 \<le> i" "i \<le> snap_index sn"
  shows "i \<le> max_index (r_stats r) \<Longrightarrow> \<exists>x. fst (hyb_read E (Some i) s) = Inr x \<and> map_option content x = file_ents (sq_file s) i"
    "max_index (r_stats r) < i \<Longrightarrow> fst (hyb_read E (Some i) s) = Inr None"
proof -
  let ?r = "on_file (sq_file s) (h_clock s) r"
  have eq: "fst (hyb_read E (Some i) s) = fst (sql_read (Some i) ?r)"
    using assms by (auto simp: hyb_read_def if_open_def run_bindE run_getsE main_sqlite_def split: prod.split)
  show "fst (hyb_read E (Some i) s) = Inr None" if "max_index (r_stats r) < i"
    using that assms(5) by (simp add: eq sql_read_def run_bindE run_getsE run_ret on_file_def)
  show "\<exists>x. fst (hyb_read E (Some i) s) = Inr x \<and> map_option content x = file_ents (sq_file s) i" if "i \<le> max_index (r_stats r)"
    using sql_read_run [OF assms(5), of ?r] that by (auto simp: eq on_file_def)
qed

text \<open>
  A deletion while the snapshot of the deleted record is on its way: the main process does not know yet
  that the archive has the record, leaves it there, and takes the snapshot afterwards, which brings the
  record back and moves the end of the log up again.
\<close>

lemma deleted_record_returns:
  assumes st: "hyb_state E s l r q (sn # sns)"
    and i: "snap_base (l_snapshot l) < i" "max_index (r_stats r) \<le> i" "i \<le> snap_index sn"
  shows "\<exists>t v x. hyb_delete_all_from E i s = (Inr (), t) \<and> fst (hyb_read E (Some i) t) = Inr None \<and>
    backchannel_turn E t = (Inr (), v) \<and> fst (hyb_read E (Some i) v) = Inr (Some x) \<and> Some (content x) = hyb_ents s i \<and>
    fst (hyb_get_last_index v) = Inr (snap_index sn)"
proof -
  let ?r = "on_file (sq_file s) (h_clock s) r" and ?l = "on_env (lm_file s) (h_clock s) l"
  have s: "h_running s" "h_sqlite s = Some (Some r)" "h_lmdb s = Some (Some l)" "last_lmdb_snap s = l_snapshot l"
      "from_writer s = snap_msg sn # map snap_msg sns" and inv: "lmdb_inv (key_rank E) ?l"
    and ar: "archive_inv (lm_file s) (sq_file s) l r q (sn # sns)"
    using st on_env_inv [OF st] by (simp_all add: hyb_state_def)
  obtain c where c: "sw_control s = Some c" "c_running c" using st by (auto simp: hyb_state_def limits_inv_def)
  have sn: "snap_index sn \<le> max_index q" "r_snapshot r = None" "0 \<le> snap_base (l_snapshot l)"
    using ar inv by (simp_all add: archive_inv_def lmdb_inv_def on_env_def)
  have m: "i \<le> max_index (l_stats ?l)" using hyb_ents_bound(2) [OF st] sn(1) i(3) by (simp add: on_env_def)
  define l2 where "l2 = lput ((l_env ?l)\<lparr>records_db := dict_filter (\<lambda>k. \<not> key_rank E k \<ge> key_rank E i) (records_db (l_env ?l))\<rparr>)
          ((l_stats ?l)\<lparr>max_index := i - 1\<rparr>) ?l"
  have del: "lmdb_delete_all_from (key_rank E) i ?l = (Inr (), l2)"
    unfolding l2_def by (rule lmdb_delete_run) (use inv i(1) m sn(3) in \<open>simp_all add: on_env_def lmdb_inv_def\<close>)
  define s1 where "s1 = s\<lparr>h_sqlite := Some (Some ?r)\<rparr>"
  define s2 where "s2 = s1\<lparr>last_pressure_sent := (if i = 1 then 0 else min i (last_pressure_sent s))\<rparr>"
  define t where "t = s2\<lparr>lm_file := l_env l2, h_lmdb := Some (Some l2)\<rparr>"
  have h1: "h_sqlite s1 = Some (Some ?r)" "sq_file s1 = sq_file s" "h_clock s1 = h_clock s" by (simp_all add: s1_def)
  have g: "main_sqlite (getsE f) s1 = (Inr (f ?r), s1)" for f :: "Records \<Rightarrow> 'x"
    using main_sqlite_gets [OF h1(1), of f] unfolding h1(2,3) by (simp add: s1_def)
  have trim: "trim_archive i s1 = (Inr (), s1)"
    using i(2) sn(2) by (simp add: trim_archive_def run_bindE g run_whenE run_ret sql_get_last_index_def on_file_def)
  have "(case l_snapshot ?l of None \<Rightarrow> True | Some sn \<Rightarrow> snap_index sn < i)"
    using i(1) by (auto simp: on_env_def split: option.split)
  moreover have "main_lmdb (getsE l_snapshot) s2 = (Inr (l_snapshot ?l), s2\<lparr>h_lmdb := Some (Some ?l)\<rparr>)"
    using main_lmdb_gets_sync [of s2 l l_snapshot] s(3) by (simp add: s2_def s1_def)
  moreover have "main_lmdb (lmdb_delete_all_from (key_rank E) i) (s2\<lparr>h_lmdb := Some (Some ?l)\<rparr>) = (Inr (), t)"
    using del by (simp add: main_lmdb_def t_def s2_def s1_def on_env_def)
  moreover have "modE (\<lambda>s. s\<lparr>last_pressure_sent := (if i = 1 then 0 else min i (last_pressure_sent s))\<rparr>) s1 = (Inr (), s2)"
    by (simp add: run_modE s2_def s1_def)
  moreover have "main_sqlite (getsE r_snapshot) s = (Inr None, s1)"
    using main_sqlite_gets [OF s(2), of r_snapshot] sn(2) by (simp add: s1_def on_file_def)
  ultimately have run_del: "hyb_delete_all_from E i s = (Inr (), t)"
    unfolding hyb_delete_all_from_def if_open_run [OF st] using trim by (simp add: run_bindE run_seqE)
  have th: "h_sqlite t = Some (Some ?r)" "h_lmdb t = Some (Some l2)" "l_open l2" "tab_stats (sq_file t) = Some q"
      "from_writer t = snap_msg sn # map snap_msg sns" "sw_control t = Some c" "max_index (l_stats l2) = i - 1"
      "h_running t" "sq_file t = sq_file s" "last_lmdb_snap t = l_snapshot l"
    using s c archive_invD(3) [OF ar] inv by (simp_all add: t_def s2_def s1_def l2_def)
  have gone: "fst (hyb_read E (Some i) t) = Inr None"
    using th(1,2,7,8,10) i sn(3) by (auto simp: hyb_read_def if_open_def run_bindE run_getsE main_lmdb_def lmdb_read_def
        on_env_def run_ret Let_def split: option.split)
  obtain v r' l' where v: "backchannel_turn E t = (Inr (), v)" "h_running v = h_running t" "h_sqlite v = Some (Some r')"
      "r_stats r' = q" "h_lmdb v = Some (Some l')" "last_lmdb_snap v = Some sn" "sq_file v = sq_file t"
      "max_index (l_stats l') = max (snap_index sn) (i - 1)" "l_snapshot l' = Some sn"
    using snapshot_taken [OF th(1-4) _ th(5,6) c(2), of E] i sn(3) th(7) by auto
  obtain x where x: "fst (hyb_read E (Some i) v) = Inr x" "map_option content x = file_ents (sq_file s) i"
    using archive_read(1) [OF _ v(3,5,6), of i E] v(2,4,7) th(8,9) i sn(1,3) by auto
  have f: "file_ents (sq_file s) i = hyb_ents s i" "file_ents (sq_file s) i \<noteq> None"
    using archive_invD(1,2) [OF ar, of i] i sn s(4) by (auto simp: hyb_ents_def)
  have last: "fst (hyb_get_last_index v) = Inr (snap_index sn)"
    using v th(8) i(3) by (simp add: hyb_get_last_index_def if_open_def run_bindE run_getsE main_lmdb_def on_env_def
        lmdb_get_last_index_def)
  obtain y where "x = Some y" "Some (content y) = hyb_ents s i" using x(2) f by (cases x) auto
  with run_del gone v(1) x(1) last show ?thesis by blast
qed

section \<open>Properties\<close>

subsection \<open>Example files\<close>

definition hybrid_rec :: "int \<Rightarrow> LogRec" where
  "hybrid_rec i = (new_LogRec client_command 1 (Some (Str ''x'')))\<lparr>rec_index := i\<rparr>"

definition example_hyb_env :: hybrid_env where
  "example_hyb_env = \<lparr>key_rank = id, h_format_exc = (\<lambda>_. ''error''), sqlite_size = (\<lambda>_. 0), lmdb_used_size = (\<lambda>_. 0)\<rparr>"

text \<open>A store with three records, the same store pruned up to the first, and an archive of the first two.\<close>

definition example_store :: LmdbEnv where
  "example_store = empty_env\<lparr>records_db := [(1, hybrid_rec 1), (2, hybrid_rec 2), (3, hybrid_rec 3)],
     stats_db := Some (open_stats\<lparr>max_index := 3\<rparr>)\<rparr>"

definition pruned_store :: LmdbEnv where
  "pruned_store = example_store\<lparr>records_db := [(2, hybrid_rec 2), (3, hybrid_rec 3)],
     snapshots_db := Some \<lparr>snap_index = 1, snap_term = 1\<rparr>\<rparr>"

definition example_archive :: SqliteDB where
  "example_archive = empty_db\<lparr>tab_records := [(1, row_of 0 (hybrid_rec 1)), (2, row_of 0 (hybrid_rec 2))],
     tab_stats := Some (open_stats\<lparr>max_index := 2\<rparr>)\<rparr>"

text \<open>A log whose main process has not yet read anything of the archive, on the given archive and the three records.\<close>

definition example_hybrid :: "SqliteDB \<Rightarrow> int \<Rightarrow> json list \<Rightarrow> hybrid" where
  "example_hybrid db limit msgs = (let
     r = (new_Records True 0 db)\<lparr>r_open := True, r_stats := open_stats\<rparr>;
     l = \<lparr>l_open = True, l_env = example_store, l_stats = open_stats\<lparr>max_index := 3\<rparr>, l_snapshot = None, l_now = 0\<rparr>;
     s = started_hybrid 0 1 1 2 db example_store 0 r l
     in s\<lparr>from_writer := msgs, sqlwriter := (sqlwriter s)\<lparr>copy_limit := limit\<rparr>\<rparr>)"

lemma hybrid_rec_simps [simp]: "rec_index (hybrid_rec i) = i" "content (hybrid_rec i) = hybrid_rec i"
  by (simp_all add: hybrid_rec_def new_LogRec_def content_def)

lemma example_store_ok: "env_ok example_store 0 3"
  by (auto simp: env_ok_def example_store_def)

lemma pruned_store_ok: "env_ok pruned_store 1 3"
  by (auto simp: env_ok_def pruned_store_def)

lemma example_ready: "tab_snapshot db = None \<Longrightarrow> writer_ready (example_hybrid db limit msgs)"
  by (simp add: writer_ready_def example_hybrid_def started_hybrid_def new_HybridLog_def new_SqliteWriter_def new_Records_def Let_def)

lemma example_files [simp]:
  "lm_file (example_hybrid db limit msgs) = example_store" "sq_file (example_hybrid db limit msgs) = db"
  "copy_limit (sqlwriter (example_hybrid db limit msgs)) = limit"
  "w_copy_block_size (sqlwriter (example_hybrid db limit msgs)) = 2"
  "w_snap_size (sqlwriter (example_hybrid db limit msgs)) = 1"
  by (simp_all add: example_hybrid_def started_hybrid_def new_HybridLog_def new_SqliteWriter_def Let_def)

lemma example_store_simps [simp]:
  "stats_db example_store = Some (open_stats\<lparr>max_index := 3\<rparr>)" "snapshots_db example_store = None"
  by (simp_all add: example_store_def empty_env_def)

text \<open>C19. A copy task of the writer whose limit lies within the store ends (\<open>copy_spins\<close> shows what happens past it). It brings the archive to its limit with the contents of the store,
  leaves everything below alone, and sends upward snapshots of archived records until at most
  \<open>snap_size\<close> archived records are without one.
\<close>

theorem copy_completes:
  assumes "writer_ready s" and "copy_limit (sqlwriter s) = limit" and "snap_base (snapshots_db (lm_file s)) = b"
    and "stats_db (lm_file s) = Some st" "env_ok (lm_file s) b (max_index st)"
    and "tab_stats (sq_file s) = Some q" "snap_base (tab_snapshot (sq_file s)) \<le> max_index q" "b \<le> max_index q"
    and "\<And>i. b < i \<Longrightarrow> i \<le> max_index q \<Longrightarrow> file_ents (sq_file s) i \<noteq> None"
    and "max_index q < limit" "1 < limit" "limit \<le> max_index st"
    and "1 \<le> w_copy_block_size (sqlwriter s)" "1 \<le> w_snap_size (sqlwriter s)"
  shows "\<exists>t q' sns. copy_task E s = Some (Inr (), t) \<and> lm_file t = lm_file s \<and> \<not> copy_task_handle (sqlwriter t) \<and>
    tab_stats (sq_file t) = Some q' \<and> max_index q' = limit \<and>
    (\<forall>i. file_ents (sq_file t) i = (if max 1 (max_index q) \<le> i \<and> b < i \<and> i \<le> limit
       then env_ents (lm_file s) i else file_ents (sq_file s) i)) \<and>
    from_writer t = from_writer s @ map snap_msg sns \<and> snaps_between (sq_file t) (b + 1) limit sns \<and>
    limit - w_snap_size (sqlwriter s) \<le> (if sns = [] then b else snap_index (last sns))"
proof -
  have m: "max 1 (max_index q) < limit" "max (max 1 (max_index q)) limit = limit" using assms(10,11) by simp_all
  have "\<exists>t q' sns. copy_task E s = Some (Inr (), t) \<and> same s t \<and> writer_ready t \<and> \<not> copy_task_handle (sqlwriter t) \<and>
    tab_stats (sq_file t) = Some q' \<and> tab_snapshot (sq_file t) = tab_snapshot (sq_file s) \<and>
    max_index q' = (if max 1 (max_index q) < copy_limit (sqlwriter s) then copy_limit (sqlwriter s) else max_index q) \<and>
    (\<forall>i. file_ents (sq_file t) i =
       (if max 1 (max_index q) < copy_limit (sqlwriter s) \<and> max 1 (max_index q) \<le> i \<and>
           snap_base (snapshots_db (lm_file s)) < i \<and> i \<le> copy_limit (sqlwriter s)
        then env_ents (lm_file s) i else file_ents (sq_file s) i)) \<and>
    from_writer t = from_writer s @ map snap_msg sns \<and>
    snaps_between (sq_file t) (snap_base (snapshots_db (lm_file s)) + 1) (max (max 1 (max_index q)) (copy_limit (sqlwriter s))) sns \<and>
    max (max 1 (max_index q)) (copy_limit (sqlwriter s)) - w_snap_size (sqlwriter s) \<le>
      (if sns = [] then snap_base (snapshots_db (lm_file s)) else snap_index (last sns)) \<and>
    (sns = [] \<or> snap_index (hd sns) = snap_base (snapshots_db (lm_file s)) + w_snap_size (sqlwriter s))"
    by (rule copy_task_run [OF assms(1,4) _ assms(6,7)]) (use assms in simp_all)
  then show ?thesis
    unfolding assms(2,3) m(2) by (simp only: m(1) if_True simp_thms same_def) blast
qed

theorem copy_completes_witness:
  "\<exists>t. copy_task example_hyb_env (example_hybrid (empty_db\<lparr>tab_stats := Some open_stats\<rparr>) 3 []) = Some (Inr (), t) \<and>
     file_ents (sq_file t) 3 = Some (hybrid_rec 3)"
proof -
  let ?s = "example_hybrid (empty_db\<lparr>tab_stats := Some open_stats\<rparr>) 3 []"
  have "env_ents example_store 3 = Some (hybrid_rec 3)" by (simp add: env_ents_def example_store_def)
  moreover have "\<exists>t q' sns. copy_task example_hyb_env ?s = Some (Inr (), t) \<and> lm_file t = lm_file ?s \<and> \<not> copy_task_handle (sqlwriter t) \<and>
    tab_stats (sq_file t) = Some q' \<and> max_index q' = 3 \<and>
    (\<forall>i. file_ents (sq_file t) i = (if max 1 (max_index open_stats) \<le> i \<and> 0 < i \<and> i \<le> 3
       then env_ents (lm_file ?s) i else file_ents (sq_file ?s) i)) \<and>
    from_writer t = from_writer ?s @ map snap_msg sns \<and> snaps_between (sq_file t) (0 + 1) 3 sns \<and>
    3 - w_snap_size (sqlwriter ?s) \<le> (if sns = [] then 0 else snap_index (last sns))"
    by (rule copy_completes [where st = "open_stats\<lparr>max_index := 3\<rparr>"])
       (simp_all add: example_ready example_store_ok empty_db_def open_stats_def)
  ultimately show ?thesis by (auto simp: open_stats_def)
qed

text \<open>C18. Archiving is invisible to a reader, on a big-endian machine and under the conditions of \<open>archiving\<close>. On a log
  that was started on empty files, through any sequence of inserts at the end, marks, reads, limits taken by the writer,
  whole copy tasks that start when no snapshot is on its way to the main process, and snapshots installed, every record up
  to the last index can be read, and it is read back the same ever after, whether it is still in the store or only in the
  archive. Changes of term or vote, deletions, and copy tasks that start earlier are left out: see
  \<open>term_change_hides_archive\<close>, \<open>deleted_record_returns\<close> and \<open>snapshots_sent_again\<close>.
\<close>

theorem archiving_invisible:
  assumes "key_rank E = id" and "0 \<le> hold" "1 \<le> snaps" "1 \<le> block" and "connect_loop 0 tries"
    and "(archiving E)\<^sup>*\<^sup>* (snd (hyb_start tries (new_HybridLog hold trigger snaps block empty_db empty_env clock))) s"
    and "(archiving E)\<^sup>*\<^sup>* s t" and "1 \<le> i" "fst (hyb_get_last_index s) = Inr n" "i \<le> n"
  shows "\<exists>x y. fst (hyb_read E (Some i) s) = Inr (Some x) \<and> fst (hyb_read E (Some i) t) = Inr (Some y) \<and>
    content y = content x"
proof -
  have inv: "hyb_inv E s" "hyb_inv E t" "kept s t"
    using archiving_run [OF assms(6) hyb_start_inv [OF _ assms(2-5)]] archiving_run [OF assms(7)] assms(1) by auto
  obtain l r q sns l' r' q' sns' where st: "hyb_state E s l r q sns" "hyb_state E t l' r' q' sns'"
    using inv(1,2) by (auto simp: hyb_inv_def)
  obtain x y where xy: "fst (hyb_read E (Some i) s) = Inr x" "map_option content x = hyb_ents s i"
      "fst (hyb_read E (Some i) t) = Inr y" "map_option content y = hyb_ents t i"
    using hyb_read_run [OF st(1) assms(8)] hyb_read_run [OF st(2) assms(8)] by fastforce
  have "hyb_ents s i \<noteq> None"
    using hyb_ents_bound(1) [OF st(1) assms(8)] last_index_state [OF st(1)] assms(9,10) by simp
  moreover from this have "hyb_ents t i = hyb_ents s i"
    using inv(3) assms(8) by (simp add: kept_def)
  ultimately show ?thesis using xy by (cases x; cases y) auto
qed

text \<open>A run with a copy and a snapshot: two records, of which the first moves to the archive.\<close>

lemma example_run:
  fixes E defines "E \<equiv> example_hyb_env"
  defines "s0 \<equiv> snd (hyb_start [True] (new_HybridLog 0 0 1 1 empty_db empty_env 0))"
  shows "\<exists>s t sn. (archiving E)\<^sup>*\<^sup>* s0 s \<and> fst (hyb_get_last_index s) = Inr 2 \<and> last_lmdb_snap s = None \<and>
     (archiving E)\<^sup>*\<^sup>* s t \<and> last_lmdb_snap t = Some sn \<and> 1 \<le> snap_index sn \<and> env_ents (lm_file t) 1 = None"
proof -
  let ?r = "(new_Records True 0 (empty_db\<lparr>tab_stats := Some open_stats\<rparr>))\<lparr>r_open := True, r_stats := open_stats, r_snapshot := None\<rparr>"
  let ?l = "\<lparr>l_open = True, l_env = empty_env\<lparr>stats_db := Some open_stats\<rparr>, l_stats = open_stats, l_snapshot = None, l_now = 0\<rparr>"
  have ord: "ordered_keys (key_rank E)" by (simp add: E_def example_hyb_env_def)
  have s0: "hyb_state E s0 ?l ?r open_stats []" "hold_count s0 = 0" "push_trigger s0 = 0" "last_pressure_sent s0 = 0"
      "to_writer s0 = []" "w_snap_size (sqlwriter s0) = 1"
    unfolding s0_def using hyb_start_state [OF ord, of 0 1 1 "[True]" 0 0]
    by (simp_all add: started_hybrid_def new_HybridLog_def new_SqliteWriter_def)
  obtain s1 l1 ci ai where s1: "hyb_insert E (hybrid_rec 0) s0 = (Inr ((hybrid_rec 0)\<lparr>rec_index := 1\<rparr>), s1)"
      "hyb_state E s1 l1 ?r open_stats []" "max_index (l_stats l1) = 1" "l_snapshot l1 = None" "hold_count s1 = 0"
      "push_trigger s1 = 0" "last_pressure_sent s1 = 1" "sqlwriter s1 = sqlwriter s0" "to_writer s1 = [limit_msg 1 ci ai]"
    using inserting_step [OF s0(1), of "hybrid_rec 0"] s0(2-5) by (auto simp: open_stats_def)
  obtain s l2 ci' ai' where s2: "hyb_insert E (hybrid_rec 0) s1 = (Inr ((hybrid_rec 0)\<lparr>rec_index := 2\<rparr>), s)"
      "hyb_state E s l2 ?r open_stats []" "max_index (l_stats l2) = 2" "l_snapshot l2 = None" "sqlwriter s = sqlwriter s0"
      "to_writer s = [limit_msg 1 ci ai, limit_msg 2 ci' ai']"
    using inserting_step [OF s1(2), of "hybrid_rec 0"] s1(3-9) by auto
  obtain s3 where s3: "handle_client_turn E s = Some (Inr (), s3)" "hyb_state E s3 l2 ?r open_stats []"
      "to_writer s3 = [limit_msg 2 ci' ai']" "w_snap_size (sqlwriter s3) = 1"
    using request_taken [OF s2(2,6)] s2(5) s0(6) by auto
  obtain s4 where s4: "handle_client_turn E s3 = Some (Inr (), s4)" "hyb_state E s4 l2 ?r open_stats []"
      "copy_limit (sqlwriter s4) = 2" "copy_task_handle (sqlwriter s4)" "w_snap_size (sqlwriter s4) = 1"
    using request_taken [OF s3(2,3)] s3(4) by auto
  obtain s5 q5 sn sns where s5: "copy_task E s4 = Some (Inr (), s5)" "hyb_state E s5 l2 ?r q5 (sn # sns)"
    using copying_step [OF s4(2)] s4(3,5) s2(4) by (auto simp: open_stats_def neq_Nil_conv)
  obtain t l6 r6 where t: "backchannel_turn E s5 = (Inr (), t)" "hyb_state E t l6 r6 q5 sns" "l_snapshot l6 = Some sn"
    using snapshot_step [OF s5(2)] by blast
  have sn: "1 \<le> snap_index sn" using s5(2) s2(4) by (auto simp: hyb_state_def archive_inv_def)
  have "env_ok (lm_file t) (snap_index sn) (max_index (l_stats l6))"
    using t(2,3) env_ok_inv [of "key_rank E" "lm_file t" l6] by (auto simp: hyb_state_def)
  then have "env_ents (lm_file t) 1 = None" using env_ok_ents sn by fastforce
  moreover have "archiving E s0 s1" "archiving E s1 s"
    using archiving.inserting [OF _ s1(1)] archiving.inserting [OF _ s2(1)] by simp_all
  then have "(archiving E)\<^sup>*\<^sup>* s0 s" by (meson converse_rtranclp_into_rtranclp r_into_rtranclp)
  moreover have "from_writer s4 = []" using s4(2) by (simp add: hyb_state_def)
  then have "archiving E s s3" "archiving E s3 s4" "archiving E s4 s5" "archiving E s5 t"
    using archiving.requested [OF s3(1)] archiving.requested [OF s4(1)] archiving.copying [OF _ s4(4) s5(1)]
      archiving.replied [OF t(1)] by simp_all
  then have "(archiving E)\<^sup>*\<^sup>* s t" by (meson converse_rtranclp_into_rtranclp r_into_rtranclp)
  moreover have "last_lmdb_snap s = None" "last_lmdb_snap t = Some sn" "fst (hyb_get_last_index s) = Inr 2"
    using s2(2-4) t(2,3) last_index_state [OF s2(2)] by (simp_all add: hyb_state_def)
  ultimately show ?thesis using sn by blast
qed

theorem archiving_invisible_witness:
  "\<exists>s t sn x y. (archiving example_hyb_env)\<^sup>*\<^sup>* (snd (hyb_start [True] (new_HybridLog 0 0 1 1 empty_db empty_env 0))) s \<and>
     (archiving example_hyb_env)\<^sup>*\<^sup>* s t \<and> last_lmdb_snap s = None \<and> last_lmdb_snap t = Some sn \<and> 1 \<le> snap_index sn \<and>
     env_ents (lm_file t) 1 = None \<and> fst (hyb_read example_hyb_env (Some 1) s) = Inr (Some x) \<and>
     fst (hyb_read example_hyb_env (Some 1) t) = Inr (Some y) \<and> content y = content x"
proof -
  let ?E = example_hyb_env
  obtain s t sn where run: "(archiving ?E)\<^sup>*\<^sup>* (snd (hyb_start [True] (new_HybridLog 0 0 1 1 empty_db empty_env 0))) s"
      "fst (hyb_get_last_index s) = Inr 2" "last_lmdb_snap s = None" "(archiving ?E)\<^sup>*\<^sup>* s t" "last_lmdb_snap t = Some sn"
      "1 \<le> snap_index sn" "env_ents (lm_file t) 1 = None"
    using example_run by blast
  have "key_rank ?E = id" by (simp add: example_hyb_env_def)
  then obtain x y where "fst (hyb_read ?E (Some 1) s) = Inr (Some x)" "fst (hyb_read ?E (Some 1) t) = Inr (Some y)" "content y = content x"
    using archiving_invisible [OF _ _ _ _ _ run(1,4) _ run(2), of 1] by auto
  with run show ?thesis by blast
qed

text \<open>C28. A copy task that starts while snapshots of the one before are still on their way sends them again, because it
  takes its low water mark from the snapshot the store has. The main process installs the old ones a second time, after
  the newer ones: \<open>last_lmdb_snap\<close> goes back, and a record between the two, readable before, is looked up in the store that
  has already pruned it and is not found.
\<close>

theorem snapshots_sent_again:
  assumes st: "hyb_state E s l r q [sn1, sn2]"
    and i: "snap_base (l_snapshot l) + w_snap_size (sqlwriter s) < i" "i \<le> snap_index sn2"
  shows "\<exists>x t u v w. fst (hyb_read E (Some i) s) = Inr (Some x) \<and> copy_task E s = Some (Inr (), t) \<and>
    backchannel_turn E t = (Inr (), u) \<and> backchannel_turn E u = (Inr (), v) \<and> last_lmdb_snap v = Some sn2 \<and>
    backchannel_turn E v = (Inr (), w) \<and> fst (hyb_read E (Some i) w) = Inr None"
proof -
  let ?b = "snap_base (l_snapshot l)" and ?m = "max_index (l_stats l)" and ?n = "w_snap_size (sqlwriter s)"
  have s: "h_running s" "h_sqlite s = Some (Some r)" "h_lmdb s = Some (Some l)" and ar: "archive_inv (lm_file s) (sq_file s) l r q [sn1, sn2]"
    and inv: "lmdb_inv (key_rank E) (l\<lparr>l_env := lm_file s\<rparr>)" and lim: "limits_inv s ?m" and fw: "from_writer s = [snap_msg sn1, snap_msg sn2]"
    using st by (simp_all add: hyb_state_def)
  obtain c where c: "sw_control s = Some c" "c_running c" using lim by (auto simp: limits_inv_def)
  have b: "0 \<le> ?b" "1 \<le> ?n" "?b < snap_index sn1" "snap_index sn1 < snap_index sn2" "snap_index sn2 \<le> max_index q" "max_index q \<le> ?m"
    using inv lim ar hyb_ents_bound(2) [OF st] by (simp_all add: lmdb_inv_def limits_inv_def archive_inv_def)
  obtain x where x: "fst (hyb_read E (Some i) s) = Inr (Some x)"
    using hyb_read_run [OF st, of i] hyb_ents_bound(1) [OF st, of i] i b by force
  obtain t q' sns where t: "copy_task E s = Some (Inr (), t)" "same s t" "tab_stats (sq_file t) = Some q'"
      "from_writer t = [snap_msg sn1, snap_msg sn2] @ map snap_msg sns"
      "max (max 1 (max_index q)) (copy_limit (sqlwriter s)) - ?n \<le> (if sns = [] then ?b else snap_index (last sns))"
      "sns = [] \<or> snap_index (hd sns) = ?b + ?n"
    using copying_run [OF st] fw by metis
  then obtain sn sns' where sns: "sns = sn # sns'" "snap_index sn = ?b + ?n"
    using i b by (cases sns) (auto split: if_splits)
  have th: "h_running t" "h_sqlite t = Some (Some r)" "h_lmdb t = Some (Some l)" "l_open l" "sw_control t = Some c" "lm_file t = lm_file s"
    using t(2) s c inv by (simp_all add: same_def lmdb_inv_def)
  obtain u r1 l1 where u: "backchannel_turn E t = (Inr (), u)" "h_running u" "h_sqlite u = Some (Some r1)" "h_lmdb u = Some (Some l1)"
      "sq_file u = sq_file t" "l_open l1" "from_writer u = snap_msg sn2 # map snap_msg sns" "sw_control u = Some c"
      "records_db (lm_file u) = prune (key_rank E) (snap_index sn1) (records_db (lm_file s))"
    using snapshot_taken [OF th(2-4) t(3), of sn1 "snap_msg sn2 # map snap_msg sns" c E] t(4) th c(2) b by auto
  obtain v r2 l2 where v: "backchannel_turn E u = (Inr (), v)" "h_running v" "h_sqlite v = Some (Some r2)" "h_lmdb v = Some (Some l2)"
      "sq_file v = sq_file t" "l_open l2" "from_writer v = snap_msg sn # map snap_msg sns'" "sw_control v = Some c"
      "last_lmdb_snap v = Some sn2" "records_db (lm_file v) = prune (key_rank E) (snap_index sn2) (records_db (lm_file u))"
    using snapshot_taken [OF u(3,4,6) _ _ u(7,8) c(2), of q' E] t(3) u(2,5,8) b sns by auto
  obtain w r3 l3 where w: "backchannel_turn E v = (Inr (), w)" "h_running w" "h_sqlite w = Some (Some r3)" "h_lmdb w = Some (Some l3)"
      "last_lmdb_snap w = Some sn" "records_db (lm_file w) = prune (key_rank E) (snap_index sn) (records_db (lm_file v))"
    using snapshot_taken [OF v(3,4,6) _ _ v(7,8) c(2), of q' E] t(3) v(2,5) b sns by auto
  have ord: "ordered_upto (key_rank E) ?m" and c0: "contiguous (records_db (lm_file s)) ?b ?m"
    using inv by (simp_all add: lmdb_inv_def ordered_keys_def)
  have c1: "contiguous (records_db (lm_file u)) (snap_index sn1) ?m"
    using contiguous_above [OF c0, of "snap_index sn1"] prune_contiguous [OF ord c0 b(1)] u(9) b by simp
  have c2: "contiguous (records_db (lm_file v)) (snap_index sn2) ?m"
    using contiguous_above [OF c1, of "snap_index sn2"] prune_contiguous [OF ord c1] v(10) b by simp
  have "dict_get (records_db (lm_file w)) i = None"
    using prune_contiguous [OF ord c2, of "snap_index sn"] w(6) b i(2) contiguous_None [OF c2, of i] by simp
  then have "fst (hyb_read E (Some i) w) = Inr None"
    using w(2-5) sns(2) i b
    by (auto simp: hyb_read_def if_open_def run_bindE run_getsE main_lmdb_def lmdb_read_def on_env_def run_ret Let_def
        lmdb_get_entry_at_def lmdb_read_entry_def split: prod.split)
  with x t(1) u(1) v(1,9) w(1) show ?thesis by blast
qed

text \<open>The example after a copy of its three records: the snapshots of the first two are on their way.\<close>

definition full_archive :: SqliteDB where
  "full_archive = empty_db\<lparr>tab_records := map (\<lambda>i. (i, row_of 0 (hybrid_rec i))) [1, 2, 3],
     tab_stats := Some (open_stats\<lparr>max_index := 3\<rparr>)\<rparr>"

definition example_snaps :: "SnapShot list" where
  "example_snaps = [\<lparr>snap_index = 1, snap_term = 1\<rparr>, \<lparr>snap_index = 2, snap_term = 1\<rparr>]"

lemma full_archive_state:
  "hyb_state example_hyb_env (example_hybrid full_archive 3 (map snap_msg example_snaps))
     \<lparr>l_open = True, l_env = example_store, l_stats = open_stats\<lparr>max_index := 3\<rparr>, l_snapshot = None, l_now = 0\<rparr>
     ((new_Records True 0 full_archive)\<lparr>r_open := True, r_stats := open_stats\<rparr>) (open_stats\<lparr>max_index := 3\<rparr>) example_snaps"
    (is "hyb_state _ ?s ?l ?r ?q _")
proof -
  have ready: "writer_ready ?s" by (rule example_ready) (simp add: full_archive_def empty_db_def)
  have "file_ents full_archive i = env_ents example_store i \<and> env_ents example_store i \<noteq> None" if "1 \<le> i" "i \<le> 3" for i :: int
  proof -
    have "i = 1 \<or> i = 2 \<or> i = 3" using that by presburger
    then show ?thesis
      using rec_of_row_of [of "hybrid_rec i" 0] by (auto simp: file_ents_def env_ents_def full_archive_def example_store_def)
  qed
  then have "archive_inv example_store full_archive ?l ?r ?q example_snaps"
    by (simp add: archive_inv_def new_Records_def open_stats_def example_snaps_def)
      (simp add: full_archive_def empty_db_def open_stats_def)
  moreover have "lmdb_inv id (?l\<lparr>l_env := example_store\<rparr>)"
    by (auto simp: lmdb_inv_def contiguous_def example_store_def empty_env_def open_stats_def)
  ultimately show ?thesis
    using ready by (simp add: hyb_state_def limits_inv_def example_hyb_env_def example_hybrid_def started_hybrid_def new_HybridLog_def
        new_SqliteWriter_def new_SqliteWriterControl_def Let_def open_stats_def)
qed

theorem snapshots_sent_again_witness:
  "\<exists>x t u v w. fst (hyb_read example_hyb_env (Some 2) (example_hybrid full_archive 3 (map snap_msg example_snaps))) = Inr (Some x) \<and>
    copy_task example_hyb_env (example_hybrid full_archive 3 (map snap_msg example_snaps)) = Some (Inr (), t) \<and>
    backchannel_turn example_hyb_env t = (Inr (), u) \<and> backchannel_turn example_hyb_env u = (Inr (), v) \<and>
    backchannel_turn example_hyb_env v = (Inr (), w) \<and> fst (hyb_read example_hyb_env (Some 2) w) = Inr None"
  using snapshots_sent_again [OF full_archive_state [unfolded example_snaps_def], of 2] unfolding example_snaps_def by auto

text \<open>The attributes of the archive are one row that both processes write. When the term changes between
  a copy and the snapshot that follows it, the main process writes the row with the last index it knew,
  reads that back with the snapshot, and a record that was readable before is not found any more.
\<close>

theorem term_change_hides_archive:
  assumes st: "hyb_state E s l r q (sn # sns)" and i: "max_index (r_stats r) < i" "i \<le> snap_index sn"
  shows "\<exists>x t v. fst (hyb_read E (Some i) s) = Inr (Some x) \<and> hyb_set_term E n s = (Inr (), t) \<and>
    backchannel_turn E t = (Inr (), v) \<and> fst (hyb_read E (Some i) v) = Inr None"
proof -
  let ?r = "on_file (sq_file s) (h_clock s) r" and ?l = "on_env (lm_file s) (h_clock s) l"
  let ?q = "(r_stats r)\<lparr>cur_term := n\<rparr>"
  define r1 where "r1 = put (r_work ?r) ?q ?r"
  define l1 where "l1 = lput (l_env ?l) ((l_stats ?l)\<lparr>cur_term := n\<rparr>) ?l"
  define t where "t = s\<lparr>sq_file := r_disk r1, h_sqlite := Some (Some r1), lm_file := l_env l1, h_lmdb := Some (Some l1)\<rparr>"
  have s: "h_running s" "h_sqlite s = Some (Some r)" "h_lmdb s = Some (Some l)"
      "from_writer s = snap_msg sn # map snap_msg sns" and inv: "lmdb_inv (key_rank E) ?l"
    and ar: "archive_inv (lm_file s) (sq_file s) l r q (sn # sns)"
    using st on_env_inv [OF st] by (simp_all add: hyb_state_def)
  obtain c where c: "sw_control s = Some c" "c_running c" using st by (auto simp: hyb_state_def limits_inv_def)
  have o: "r_open ?r" "l_open ?l" "r_stats ?r = r_stats r" using ar inv by (simp_all add: archive_inv_def on_file_def)
  have i1: "1 \<le> i" "i \<le> max_index (l_stats l)"
    using ar inv i hyb_ents_bound(2) [OF st] by (auto simp: archive_inv_def lmdb_inv_def on_env_def)
  obtain x where "fst (hyb_read E (Some i) s) = Inr (Some x)"
    using hyb_read_run [OF st i1(1)] hyb_ents_bound(1) [OF st i1(1)] i1(2) by force
  moreover have "hyb_set_term E n s = (Inr (), t)"
    unfolding hyb_set_term_def if_open_run [OF st]
    using main_sqlite_run [OF s(2), of "set_term sqlite_api n" "Inr ()" r1] set_stat_run [OF o(1)] o(3)
      main_lmdb_run [of "s\<lparr>sq_file := r_disk r1, h_sqlite := Some (Some r1)\<rparr>" l "set_term (lmdb_api (key_rank E)) n" "Inr ()" l1]
      lmdb_set_stat_run [OF o(2)] s(3)
    by (simp add: run_seqE r1_def l1_def t_def)
  moreover have th: "h_sqlite t = Some (Some r1)" "h_lmdb t = Some (Some l1)" "l_open l1" "tab_stats (sq_file t) = Some ?q"
      "from_writer t = snap_msg sn # map snap_msg sns" "sw_control t = Some c" "h_running t"
    using s c o by (simp_all add: t_def r1_def l1_def)
  moreover obtain v r' l' where v: "backchannel_turn E t = (Inr (), v)" "h_running v = h_running t" "h_sqlite v = Some (Some r')"
      "r_stats r' = ?q" "h_lmdb v = Some (Some l')" "last_lmdb_snap v = Some sn"
    using snapshot_taken [OF th(1-4) _ th(5,6) c(2), of E] i(2) i1(1) by auto
  moreover have "fst (hyb_read E (Some i) v) = Inr None"
    using archive_read(2) [OF _ v(3,5,6) i1(1) i(2)] v(2,4) th(7) i(1) by simp
  ultimately show ?thesis by blast
qed

theorem term_change_hides_archive_witness:
  "\<exists>x t v. let s = example_hybrid example_archive 2 [snap_msg \<lparr>snap_index = 1, snap_term = 1\<rparr>] in
     fst (hyb_read example_hyb_env (Some 1) s) = Inr (Some x) \<and> hyb_set_term example_hyb_env 5 s = (Inr (), t) \<and>
     backchannel_turn example_hyb_env t = (Inr (), v) \<and> fst (hyb_read example_hyb_env (Some 1) v) = Inr None"
proof -
  let ?r = "(new_Records True 0 example_archive)\<lparr>r_open := True, r_stats := open_stats\<rparr>"
  let ?l = "\<lparr>l_open = True, l_env = example_store, l_stats = open_stats\<lparr>max_index := 3\<rparr>, l_snapshot = None, l_now = 0\<rparr>"
  let ?q = "open_stats\<lparr>max_index := 2\<rparr>" and ?sn = "\<lparr>snap_index = 1, snap_term = 1\<rparr>"
  let ?s = "example_hybrid example_archive 2 [snap_msg ?sn]"
  have "tab_snapshot example_archive = None" by (simp add: example_archive_def empty_db_def)
  then have ready: "writer_ready ?s" by (rule example_ready)
  have same: "file_ents example_archive i = env_ents example_store i \<and> env_ents example_store i \<noteq> None" if "1 \<le> i" "i \<le> 2" for i :: int
  proof -
    have "i = 1 \<or> i = 2" using that by presburger
    then show ?thesis
      using rec_of_row_of [of "hybrid_rec 1" 0] rec_of_row_of [of "hybrid_rec 2" 0]
      by (auto simp: file_ents_def env_ents_def example_archive_def example_store_def)
  qed
  then have "archive_inv example_store example_archive ?l ?r ?q [?sn]"
    by (simp add: archive_inv_def new_Records_def open_stats_def) (simp add: example_archive_def empty_db_def open_stats_def)
  moreover have "lmdb_inv id (?l\<lparr>l_env := example_store\<rparr>)"
    by (auto simp: lmdb_inv_def contiguous_def example_store_def empty_env_def open_stats_def)
  ultimately have "hyb_state example_hyb_env ?s ?l ?r ?q [?sn]"
    using ready by (simp add: hyb_state_def limits_inv_def example_hyb_env_def example_hybrid_def started_hybrid_def new_HybridLog_def
        new_SqliteWriter_def new_SqliteWriterControl_def Let_def open_stats_def)
  from term_change_hides_archive [OF this, of 1 5] show ?thesis by (simp add: Let_def new_Records_def open_stats_def)
qed

text \<open>A hybrid log that is started again does not know its archive: \<open>last_lmdb_snap\<close> is not restored, so
  that every read goes to the store, and a record that has been pruned there is not found, although the
  archive holds it.
\<close>

theorem restart_hides_archive:
  assumes env: "stats_db env = Some st" "snap_base (snapshots_db env) = b" "env_ok env b (max_index st)"
    and db: "tab_stats db = Some q" and i: "1 \<le> i" "i \<le> b" and "i \<le> max_index q" "file_ents db i = Some x"
    and tries: "connect_loop 0 tries"
  shows "\<exists>s y. hyb_start tries (new_HybridLog hold trigger snaps block db env clock) = (Inr (), s) \<and>
    fst (hyb_read E (Some i) s) = Inr None \<and> fst (main_sqlite (sql_read (Some i)) s) = Inr (Some y) \<and> content y = x"
proof -
  define l where "l = \<lparr>l_open = True, l_env = env, l_stats = st, l_snapshot = snapshots_db env, l_now = clock\<rparr>"
  define r where "r = (new_Records True clock db)\<lparr>r_open := True, r_stats := q, r_snapshot := tab_snapshot db\<rparr>"
  define s where "s = started_hybrid hold trigger snaps block db env clock r l"
  have "db\<lparr>tab_stats := Some q\<rparr> = db" using db by (cases db) simp
  then have r: "sqlite_start clock db None = r" "r_disk r = db"
    unfolding sqlite_start_def option.case sql_open_run r_def by (simp_all add: db new_Records_def)
  have l: "lmdb_start clock env = l" "l_env l = env" using lmdb_start_run [OF env(1)] by (simp_all add: l_def)
  have start: "hyb_start tries (new_HybridLog hold trigger snaps block db env clock) = (Inr (), s)"
    unfolding s_def by (rule hyb_start_run [OF r(1,1,2) l(1,1,2) tries])
  have s: "h_sqlite s = Some (Some r)" "h_lmdb s = Some (Some l)" "last_lmdb_snap s = None" "h_running s"
      "sq_file s = db" "lm_file s = env"
    by (simp_all add: s_def started_hybrid_def new_HybridLog_def)
  have "env_ents env i = None" using env_ok_ents [OF env(3), of i] i by simp
  then have "dict_get (records_db env) i = None" by (simp add: env_ents_def)
  then have "fst (hyb_read E (Some i) s) = Inr None"
    using s i(1) by (simp add: hyb_read_def if_open_def run_bindE run_getsE main_lmdb_def lmdb_read_def on_env_def
        run_ret Let_def lmdb_get_entry_at_def lmdb_read_entry_def)
  moreover have "i \<le> max_index (r_stats (on_file (sq_file s) (h_clock s) r))"
    using assms(7) by (simp add: r_def on_file_def)
  then obtain y where "fst (main_sqlite (sql_read (Some i)) s) = Inr y" "map_option content y = file_ents db i"
    using sql_read_run [OF i(1), of "on_file (sq_file s) (h_clock s) r"] s(1,5) by (auto simp: main_sqlite_def on_file_def)
  ultimately show ?thesis using start assms(8) by auto
qed

theorem restart_hides_archive_witness:
  "\<exists>s y. hyb_start [True] (new_HybridLog 0 1 1 2 example_archive pruned_store 0) = (Inr (), s) \<and>
     fst (hyb_read example_hyb_env (Some 1) s) = Inr None \<and> fst (main_sqlite (sql_read (Some 1)) s) = Inr (Some y) \<and>
     content y = hybrid_rec 1"
proof (rule restart_hides_archive)
  show "env_ok pruned_store 1 (max_index (open_stats\<lparr>max_index := 3\<rparr>))" using pruned_store_ok by simp
  show "file_ents example_archive 1 = Some (hybrid_rec 1)"
    using rec_of_row_of [of "hybrid_rec 1" 0] by (simp add: file_ents_def example_archive_def)
  show "1 \<le> max_index (open_stats\<lparr>max_index := 2\<rparr>)" by (simp add: open_stats_def)
qed (simp_all add: pruned_store_def example_store_def example_archive_def)

text \<open>A copy task does not end when the store ends before the limit, as it does when records are deleted
  after the limit was sent: the writer process is caught in the copying loop for ever.
\<close>

theorem copy_spins:
  assumes ready: "writer_ready s" and store: "stats_db (lm_file s) = Some st" "env_ok (lm_file s) b (max_index st)"
    and archive: "tab_stats (sq_file s) = Some q" "snap_base (tab_snapshot (sq_file s)) \<le> max_index q"
      "b \<le> max_index q" "max_index q \<le> max_index st"
    and limit: "1 \<le> max_index st" "max_index st < copy_limit (sqlwriter s)" "1 \<le> w_copy_block_size (sqlwriter s)"
  shows "copy_task E s = None"
proof -
  have b: "0 \<le> b" using store(2) by (simp add: env_ok_def)
  obtain t r l where t: "copy_start s = (Inr (max 1 (max_index q)), t)" "wsync t r" "lsync t l" "same s t"
      "sq_file t = sq_file s" "r_stats r = q" "r_snapshot r = tab_snapshot (sq_file s)" "l_stats l = st"
    using copy_start_run [OF ready store(1) archive(1,2)] b archive(3) by auto
  then have "spinning t b (max 1 (max_index q)) r l"
    using store(2) archive limit by (simp add: spinning_def same_def)
  then have "copy_loop E (max 1 (max_index q)) t = None" by (rule copy_loop_spins)
  with t(1) show ?thesis by (simp add: copy_task_def copy_body_def bindT_def tryT_def runT_def)
qed

theorem copy_spins_witness:
  "copy_task example_hyb_env (example_hybrid (empty_db\<lparr>tab_stats := Some open_stats\<rparr>) 5 []) = None"
  by (rule copy_spins [where st = "open_stats\<lparr>max_index := 3\<rparr>" and b = 0 and q = open_stats])
     (simp_all add: example_ready example_store_ok empty_db_def open_stats_def)

end
