(* ===== verification/Py_Text.thy ===== *)
theory Py_Text
  imports Prelude
begin

text \<open>
  The methods of Python's \<open>str\<close> and the conversions between \<open>str\<close> and \<open>int\<close> that the log controller and the RPC
  transport use: \<open>upper\<close>, \<open>split\<close> on a dot, \<open>join\<close>, \<open>strip\<close>, padding to a width, \<open>str(n)\<close> and \<open>int(s)\<close>. Characters are bytes; the
  case mapping and the classes of digits and blanks are those of ASCII.
\<close>

section \<open>Case, splitting, padding\<close>

definition upper_char :: "char \<Rightarrow> char" where
  "upper_char c = (let n = of_char c :: nat in if 97 \<le> n \<and> n \<le> 122 then char_of (n - 32) else c)"

definition upper :: "string \<Rightarrow> string" where
  "upper = map upper_char"

text \<open>\<open>s.split('.')\<close>, and the names \<open>'.'.join(...)\<close> of all its beginnings, shortest first.\<close>

fun split_dots :: "string \<Rightarrow> string list" where
  "split_dots [] = [[]]"
| "split_dots (c # cs) =
     (if c = CHR ''.'' then [] # split_dots cs else (c # hd (split_dots cs)) # tl (split_dots cs))"

fun join_dots :: "string list \<Rightarrow> string" where
  "join_dots [] = []"
| "join_dots [s] = s"
| "join_dots (s # ss) = s @ CHR ''.'' # join_dots ss"

definition dotted_names :: "string \<Rightarrow> string list" where
  "dotted_names s = map (\<lambda>k. join_dots (take k (split_dots s))) [1..<length (split_dots s) + 1]"

definition is_blank :: "char \<Rightarrow> bool" where
  "is_blank c \<longleftrightarrow> (let n = of_char c :: nat in n = 32 \<or> (9 \<le> n \<and> n \<le> 13) \<or> (28 \<le> n \<and> n \<le> 31))"

definition strip :: "string \<Rightarrow> string" where
  "strip s = rev (dropWhile is_blank (rev (dropWhile is_blank s)))"

definition ljust :: "nat \<Rightarrow> string \<Rightarrow> string" where
  "ljust w s = s @ replicate (w - length s) CHR '' ''"

lemma split_dots_nonempty [simp]: "split_dots s \<noteq> []"
  by (cases s) auto

lemma join_dots_Cons: "ss \<noteq> [] \<Longrightarrow> join_dots (s # ss) = s @ CHR ''.'' # join_dots ss"
  by (cases ss) simp_all

lemma join_split_dots [simp]: "join_dots (split_dots s) = s"
proof (induction s)
  case (Cons c cs)
  obtain x xs where x: "split_dots cs = x # xs" by (cases "split_dots cs") auto
  then show ?case using Cons by (cases xs) auto
qed simp

lemma dotted_names_last: "\<exists>ns. dotted_names s = ns @ [s]"
proof -
  have "1 \<le> length (split_dots s)" by (cases "split_dots s") simp_all
  then show ?thesis by (simp add: dotted_names_def)
qed

section \<open>Decimal numbers\<close>

fun string_of_nat :: "nat \<Rightarrow> string" where
  "string_of_nat n =
     (if n < 10 then [char_of (48 + n)] else string_of_nat (n div 10) @ [char_of (48 + n mod 10)])"

declare string_of_nat.simps [simp del]

definition string_of_int :: "int \<Rightarrow> string" where
  "string_of_int i = (if i < 0 then CHR ''-'' # string_of_nat (nat (- i)) else string_of_nat (nat i))"

definition is_digit :: "char \<Rightarrow> bool" where
  "is_digit c \<longleftrightarrow> (let n = of_char c :: nat in 48 \<le> n \<and> n \<le> 57)"

text \<open>The digits of an integer literal: non-empty, single underscores between digits allowed.\<close>

fun read_digits :: "nat \<Rightarrow> string \<Rightarrow> nat option" where
  "read_digits acc [] = Some acc"
| "read_digits acc (c # cs) =
     (if is_digit c then read_digits (10 * acc + (of_char c - 48)) cs
      else if c = CHR ''_'' then
        (case cs of [] \<Rightarrow> None
         | d # ds \<Rightarrow> if is_digit d then read_digits (10 * acc + (of_char d - 48)) ds else None)
      else None)"

definition read_nat :: "string \<Rightarrow> nat option" where
  "read_nat s = (case s of [] \<Rightarrow> None | c # cs \<Rightarrow> if is_digit c then read_digits 0 s else None)"

text \<open>\<open>int(s)\<close> for a string.\<close>

definition int_of_text :: "string \<Rightarrow> exn + int" where
  "int_of_text s = (let t = strip s;
     r = (case t of [] \<Rightarrow> None
          | c # cs \<Rightarrow> if c = CHR ''-'' then map_option (\<lambda>n. - int n) (read_nat cs)
                     else if c = CHR ''+'' then map_option int (read_nat cs) else map_option int (read_nat t))
     in case r of None \<Rightarrow> Inl ValueError | Some i \<Rightarrow> Inr i)"

lemma digit_char: "(n :: nat) < 10 \<Longrightarrow> is_digit (char_of (48 + n))"
  by (simp add: is_digit_def Let_def)

lemma string_of_nat_digits: "list_all is_digit (string_of_nat n)"
proof (induction n rule: string_of_nat.induct)
  case (1 n)
  then show ?case by (subst string_of_nat.simps) (simp add: digit_char)
qed

lemma string_of_nat_nonempty [simp]: "string_of_nat n \<noteq> []"
  by (subst string_of_nat.simps) simp

lemma read_digits_append:
  "list_all is_digit ds \<Longrightarrow> read_digits acc (ds @ ds') = read_digits (the (read_digits acc ds)) ds'"
  by (induction ds arbitrary: acc) simp_all

lemma read_digits_some: "list_all is_digit ds \<Longrightarrow> \<exists>n. read_digits acc ds = Some n"
  by (induction ds arbitrary: acc) simp_all

lemma read_string_of_nat: "read_digits 0 (string_of_nat n) = Some n"
proof (induction n rule: string_of_nat.induct)
  case (1 n)
  show ?case
  proof (cases "n < 10")
    case True
    then show ?thesis by (subst string_of_nat.simps) (simp add: is_digit_def Let_def)
  next
    case False
    then show ?thesis using 1 string_of_nat_digits [of "n div 10"]
      by (subst string_of_nat.simps) (simp add: read_digits_append is_digit_def Let_def)
  qed
qed

lemma string_of_nat_length: "n < 10 ^ k \<Longrightarrow> 0 < k \<Longrightarrow> length (string_of_nat n) \<le> k"
proof (induction k arbitrary: n)
  case (Suc k)
  show ?case
  proof (cases "n < 10")
    case True
    then show ?thesis by (subst string_of_nat.simps) simp
  next
    case False
    then have "0 < k" using Suc.prems by (cases k) simp_all
    moreover have "n div 10 < 10 ^ k" using Suc.prems by (simp add: less_mult_imp_div_less)
    ultimately have "length (string_of_nat (n div 10)) \<le> k" by (rule Suc.IH [rotated])
    then show ?thesis using False by (subst string_of_nat.simps) simp
  qed
qed simp

lemma digit_not_blank: "is_digit c \<Longrightarrow> \<not> is_blank c"
  by (auto simp: is_digit_def is_blank_def Let_def)

lemma strip_padded: "list_all is_digit ds \<Longrightarrow> strip (ds @ replicate k CHR '' '') = ds"
proof -
  assume ds: "list_all is_digit ds"
  have d: "dropWhile is_blank xs = xs" if "list_all is_digit xs" for xs
    using that by (cases xs) (simp_all add: digit_not_blank)
  have r: "dropWhile is_blank (replicate k CHR '' '' @ xs) = dropWhile is_blank xs" for xs
    by (induction k) (simp_all add: is_blank_def Let_def)
  have "list_all is_digit (rev ds)" using ds by simp
  then show ?thesis using ds d r [of "rev ds"] d [of "rev ds"] r [of "[]"]
    by (cases ds) (simp_all add: strip_def digit_not_blank)
qed

text \<open>What the transport relies on: a length that is printed and padded is read back.\<close>

lemma int_of_padded: "int_of_text (ljust w (string_of_nat n)) = Inr (int n)"
proof -
  obtain c cs where c: "string_of_nat n = c # cs" "is_digit c"
    using string_of_nat_digits [of n] by (cases "string_of_nat n") simp_all
  then have "c \<noteq> CHR ''-''" "c \<noteq> CHR ''+''" by (auto simp: is_digit_def)
  then show ?thesis
    using c read_string_of_nat [of n] strip_padded [OF string_of_nat_digits [of n]]
    by (simp add: int_of_text_def ljust_def read_nat_def)
qed

end
