(* ===== verification/Log_Control.thy ===== *)
theory Log_Control
  imports Py_Text Api_Types
begin

text \<open>
  \<open>deck/log_control.py\<close>: the controller of the levels of the library's loggers and the context manager that changes
  them for a while. The first section is the part of Python's \<open>logging\<close> the controller works on: the tree of loggers
  with its placeholders, \<open>getLogger\<close>, \<open>setLevel\<close> and the loggers' part of \<open>dictConfig\<close>. The handlers of a configuration
  are only those of \<open>known_handlers\<close>, to which no operation adds: their construction does not fail. A logger's
  handlers are represented by their names.
\<close>

section \<open>Python's loggers\<close>

datatype py_level = LevelInt int | LevelName string

record py_logger =
  lg_level :: int
  lg_handlers :: "string list"
  lg_propagate :: bool
  lg_disabled :: bool

text \<open>The names of the tree with their loggers; \<open>None\<close> is a placeholder for the parent of a logger.\<close>

record py_logging =
  root_logger :: py_logger
  logger_dict :: "(string \<times> py_logger option) list"

definition new_logger :: py_logger where
  "new_logger = \<lparr>lg_level = 0, lg_handlers = [], lg_propagate = True, lg_disabled = False\<rparr>"

definition fresh_logging :: py_logging where
  "fresh_logging = \<lparr>root_logger = new_logger\<lparr>lg_level := 30\<rparr>, logger_dict = []\<rparr>"

definition std_level :: "string \<Rightarrow> int option" where
  "std_level = map_of [(''CRITICAL'', 50), (''FATAL'', 50), (''ERROR'', 40), (''WARN'', 30), (''WARNING'', 30),
     (''INFO'', 20), (''DEBUG'', 10), (''NOTSET'', 0)]"

definition is_root :: "string \<Rightarrow> bool" where
  "is_root n \<longleftrightarrow> n = [] \<or> n = ''root''"

text \<open>The last dot before position \<open>e\<close> (0 when there is none past the first character, where the walk stops), and the walk to
  the root that leaves placeholders behind until it meets a logger.\<close>

fun rfind_dot :: "string \<Rightarrow> nat \<Rightarrow> nat" where
  "rfind_dot n 0 = 0"
| "rfind_dot n (Suc e) = (if e < length n \<and> n ! e = CHR ''.'' then e else rfind_dot n e)"

lemma rfind_dot_le: "rfind_dot n e \<le> e"
  by (induction e) auto

function fixup_parents :: "string \<Rightarrow> nat \<Rightarrow> (string \<times> py_logger option) list \<Rightarrow> (string \<times> py_logger option) list" where
  "fixup_parents n i d =
     (if i = 0 then d
      else (case dict_get d (take i n) of
          None \<Rightarrow> fixup_parents n (rfind_dot n (i - 1)) (dict_set (take i n) None d)
        | Some (Some _) \<Rightarrow> d
        | Some None \<Rightarrow> fixup_parents n (rfind_dot n (i - 1)) d))"
  by auto
termination
proof (relation "measure (\<lambda>(n, i, d). i)")
  fix n :: string and i :: nat
  assume "i \<noteq> 0"
  then have "rfind_dot n (i - 1) < i" using rfind_dot_le [of n "i - 1"] by simp
  then show "((n, rfind_dot n (i - 1), d'), n, i, d) \<in> measure (\<lambda>(n, i, d). i)" for d d' by simp
  then show "((n, rfind_dot n (i - 1), d'), n, i, d) \<in> measure (\<lambda>(n, i, d). i)" for d d' by simp
qed simp

declare fixup_parents.simps [simp del]

text \<open>\<open>logging.getLogger(n)\<close> for its effect on the tree, the logger it returns, and a change of that logger.\<close>

definition get_logger :: "string \<Rightarrow> py_logging \<Rightarrow> py_logging" where
  "get_logger n w = (if is_root n then w else case dict_get (logger_dict w) n of Some (Some _) \<Rightarrow> w
     | _ \<Rightarrow> w\<lparr>logger_dict := fixup_parents n (rfind_dot n (length n)) (dict_set n (Some new_logger) (logger_dict w))\<rparr>)"

definition the_logger :: "py_logging \<Rightarrow> string \<Rightarrow> py_logger" where
  "the_logger w n = (if is_root n then root_logger w
     else case dict_get (logger_dict w) n of Some (Some l) \<Rightarrow> l | _ \<Rightarrow> new_logger)"

definition upd_logger :: "string \<Rightarrow> (py_logger \<Rightarrow> py_logger) \<Rightarrow> py_logging \<Rightarrow> py_logging" where
  "upd_logger n f w = (if is_root n then w\<lparr>root_logger := f (root_logger w)\<rparr>
     else w\<lparr>logger_dict := dict_set n (Some (f (the_logger w n))) (logger_dict w)\<rparr>)"

text \<open>\<open>logger.setLevel(level)\<close>: an integer is taken as it is, a string must be one of the names \<open>logging\<close> knows.\<close>

fun check_level :: "py_level \<Rightarrow> exn + int" where
  "check_level (LevelInt i) = Inr i"
| "check_level (LevelName s) = (case std_level s of None \<Rightarrow> Inl ValueError | Some i \<Rightarrow> Inr i)"

definition set_py_level :: "string \<Rightarrow> py_level \<Rightarrow> (py_logging, unit) eff" where
  "set_py_level n l = bindE (liftE (check_level l)) (\<lambda>i. modE (upd_logger n (\<lambda>g. g\<lparr>lg_level := i\<rparr>)))"

subsection \<open>dictConfig\<close>

record logger_config =
  cfg_handler_names :: "string list"
  cfg_level :: string
  cfg_propagate :: bool

record dict_config =
  cfg_version :: int
  cfg_disable_existing :: bool
  cfg_formatters :: "(string \<times> json) list"
  cfg_handlers :: "(string \<times> json) list"
  cfg_loggers :: "(string \<times> logger_config) list"

definition add_handler_name :: "string \<Rightarrow> py_logger \<Rightarrow> py_logger" where
  "add_handler_name h g = (if h \<in> set (lg_handlers g) then g else g\<lparr>lg_handlers := lg_handlers g @ [h]\<rparr>)"

definition configure_logger :: "dict_config \<Rightarrow> string \<Rightarrow> logger_config \<Rightarrow> (py_logging, unit) eff" where
  "configure_logger cfg n c =
     seqE (modE (get_logger n))
    (seqE (set_py_level n (LevelName (cfg_level c)))
    (seqE (modE (upd_logger n (\<lambda>g. g\<lparr>lg_handlers := []\<rparr>)))
    (seqE (forE (cfg_handler_names c) (\<lambda>h. if h \<in> set (dict_keys (cfg_handlers cfg))
        then modE (upd_logger n (add_handler_name h)) else throw ValueError))
     (modE (upd_logger n (\<lambda>g. g\<lparr>lg_disabled := False, lg_propagate := cfg_propagate c\<rparr>))))))"

text \<open>The loop over the configured names. Its local state is the list of the other names of the tree and those of them that
  are children of a configured name; in the sorted list the source walks, the children of a name all follow it.\<close>

fun configure_loggers :: "dict_config \<Rightarrow> (string \<times> logger_config) list \<Rightarrow> string list \<times> string list \<Rightarrow>
    (py_logging, string list \<times> string list) eff" where
  "configure_loggers cfg [] acc = ret acc"
| "configure_loggers cfg ((n, c) # cs) (existing, children) =
     seqE (configure_logger cfg n c)
       (configure_loggers cfg cs (if n \<in> set existing
          then (removeAll n existing, children @ filter (\<lambda>m. take (length n + 1) m = n @ ''.'') existing)
          else (existing, children)))"

definition handle_existing :: "bool \<Rightarrow> string list \<Rightarrow> string \<Rightarrow> py_logging \<Rightarrow> py_logging" where
  "handle_existing dis children n w = (case dict_get (logger_dict w) n of
       Some (Some g) \<Rightarrow> upd_logger n (\<lambda>g. if n \<in> set children then g\<lparr>lg_level := 0, lg_handlers := [], lg_propagate := True\<rparr>
          else g\<lparr>lg_disabled := dis\<rparr>) w
     | _ \<Rightarrow> w)"

definition dictConfig :: "dict_config \<Rightarrow> (py_logging, unit) eff" where
  "dictConfig cfg = bindE (getsE (\<lambda>w. dict_keys (logger_dict w))) (\<lambda>names.
     bindE (configure_loggers cfg (cfg_loggers cfg) (names, [])) (\<lambda>(existing, children).
     modE (fold (handle_existing (cfg_disable_existing cfg) children) existing)))"

section \<open>The controller\<close>

record HandlerDef =
  hd_name :: string
  hd_description :: string
  handler_type :: string
  hd_level :: string
  hd_formatter :: string
  hd_stream :: "string option"
  hd_filename :: "string option"
  hd_mode :: string
  hd_encoding :: string
  handler_class :: "string option"
  extra_config :: "(string \<times> json) list"

record LoggerDef =
  ld_name :: string
  ld_description :: string
  custom_level :: "string option"
  ld_propagate :: bool
  handler_names :: "string list"

text \<open>The saved dictionaries are created after the additional loggers: until then the attributes do not exist (\<open>None\<close>).\<close>

record LogController =
  default_level :: string
  default_handlers :: "string list"
  known_handlers :: "(string \<times> HandlerDef) list"
  known_loggers :: "(string \<times> LoggerDef) list"
  saved_levels :: "(string \<times> int) list option"
  saved_custom_levels :: "(string \<times> string option) list"
  saved_handler_names :: "(string \<times> string list) list"

text \<open>A method runs on its controller and the loggers of the process.\<close>

record lc_state =
  lc_logging :: py_logging
  lc_self :: LogController

definition on_logging :: "(py_logging, 'b) eff \<Rightarrow> (lc_state, 'b) eff" where
  "on_logging m = zoomE lc_logging (\<lambda>w s. s\<lparr>lc_logging := w\<rparr>) m"

definition on_self :: "(LogController \<Rightarrow> LogController) \<Rightarrow> (lc_state, unit) eff" where
  "on_self f = modE (\<lambda>s. s\<lparr>lc_self := f (lc_self s)\<rparr>)"

definition known :: "string \<Rightarrow> lc_state \<Rightarrow> LoggerDef option" where
  "known n s = dict_get (known_loggers (lc_self s)) n"

definition upd_known :: "string \<Rightarrow> (LoggerDef \<Rightarrow> LoggerDef) \<Rightarrow> (lc_state, unit) eff" where
  "upd_known n f = bindE (getsE (known n)) (\<lambda>d. bindE (some_or KeyError d) (\<lambda>d.
     on_self (\<lambda>c. c\<lparr>known_loggers := dict_set n (f d) (known_loggers c)\<rparr>)))"

text \<open>The two tables of the source: from names to numbers, and from numbers to the names that are stored.\<close>

definition level_map :: "string \<Rightarrow> int option" where
  "level_map = map_of [(''DEBUG'', 10), (''INFO'', 20), (''WARNING'', 30), (''WARN'', 30), (''ERROR'', 40), (''CRITICAL'', 50)]"

definition level_str :: "int \<Rightarrow> string" where
  "level_str i = (case map_of [(10, ''DEBUG''), (20, ''INFO''), (30, ''WARNING''), (40, ''ERROR''), (50, ''CRITICAL'')] i of
     None \<Rightarrow> string_of_int i | Some s \<Rightarrow> s)"

fun convert_level :: "py_level \<Rightarrow> exn + int \<times> string" where
  "convert_level (LevelInt i) = Inr (i, level_str i)"
| "convert_level (LevelName s) = (case level_map (upper s) of None \<Rightarrow> Inl ValueError | Some i \<Rightarrow> Inr (i, upper s))"

definition set_logger_level :: "string \<Rightarrow> py_level \<Rightarrow> (lc_state, unit) eff" where
  "set_logger_level n l = bindE (getsE (known n)) (\<lambda>d. if d = None then throw ValueError else
     seqE (on_logging (modE (get_logger n)))
    (bindE (liftE (convert_level l)) (\<lambda>(i, s).
     seqE (on_logging (set_py_level n (LevelInt i)))
     (upd_known n (\<lambda>d. d\<lparr>custom_level := Some s\<rparr>)))))"

definition set_logger_level_without_custom_flag :: "string \<Rightarrow> py_level \<Rightarrow> (lc_state, unit) eff" where
  "set_logger_level_without_custom_flag n l = bindE (getsE (known n)) (\<lambda>d. if d = None then throw ValueError else
     seqE (on_logging (modE (get_logger n)))
    (bindE (liftE (convert_level l)) (\<lambda>(i, s).
     on_logging (set_py_level n (LevelInt i)))))"

fun default_level_str :: "py_level \<Rightarrow> string" where
  "default_level_str (LevelInt i) = level_str i"
| "default_level_str (LevelName s) = upper s"

definition set_default_level :: "py_level \<Rightarrow> bool \<Rightarrow> (lc_state, unit) eff" where
  "set_default_level l save_custom =
     seqE (on_self (\<lambda>c. c\<lparr>default_level := default_level_str l\<rparr>))
    (bindE (getsE (\<lambda>s. known_loggers (lc_self s))) (\<lambda>ks.
     forE ks (\<lambda>(n, d). whenE (custom_level d = None \<or> \<not> save_custom) (set_logger_level_without_custom_flag n l))))"

definition get_logger_level :: "string \<Rightarrow> (lc_state, int) eff" where
  "get_logger_level n = bindE (getsE (known n)) (\<lambda>d. if d = None then throw ValueError else
     seqE (on_logging (modE (get_logger n))) (getsE (\<lambda>s. lg_level (the_logger (lc_logging s) n))))"

definition save_one :: "string \<times> LoggerDef \<Rightarrow> (lc_state, unit) eff" where
  "save_one nd =
     seqE (on_logging (modE (get_logger (fst nd))))
    (bindE (getsE (\<lambda>s. lg_level (the_logger (lc_logging s) (fst nd)))) (\<lambda>i.
     on_self (\<lambda>c. c\<lparr>saved_levels := map_option (dict_set (fst nd) i) (saved_levels c),
       saved_custom_levels := dict_set (fst nd) (custom_level (snd nd)) (saved_custom_levels c),
       saved_handler_names := dict_set (fst nd) (handler_names (snd nd)) (saved_handler_names c)\<rparr>)))"

definition clear_saved :: "LogController \<Rightarrow> LogController" where
  "clear_saved c = c\<lparr>saved_levels := Some [], saved_custom_levels := [], saved_handler_names := []\<rparr>"

definition save_current_levels :: "(lc_state, unit) eff" where
  "save_current_levels = seqE (on_self clear_saved)
    (bindE (getsE (\<lambda>s. known_loggers (lc_self s))) (\<lambda>ks. forE ks save_one))"

definition restore_one :: "string \<times> int \<Rightarrow> (lc_state, unit) eff" where
  "restore_one ni = (case ni of (n, i) \<Rightarrow>
     seqE (on_logging (modE (get_logger n)))
    (seqE (on_logging (set_py_level n (LevelInt i)))
    (bindE (getsE (\<lambda>s. dict_get (saved_custom_levels (lc_self s)) n)) (\<lambda>cl. bindE (some_or KeyError cl) (\<lambda>cl.
     seqE (upd_known n (\<lambda>d. d\<lparr>custom_level := cl\<rparr>))
    (bindE (getsE (\<lambda>s. dict_get (saved_handler_names (lc_self s)) n)) (\<lambda>hs. bindE (some_or KeyError hs) (\<lambda>hs.
     upd_known n (\<lambda>d. d\<lparr>handler_names := hs\<rparr>)))))))))"

definition restore_saved_levels :: "(lc_state, unit) eff" where
  "restore_saved_levels =
     bindE (getsE (\<lambda>s. saved_levels (lc_self s))) (\<lambda>sv. bindE (some_or AttributeError sv) (\<lambda>ls.
     if ls = [] then throw RuntimeError else seqE (forE ls restore_one) (on_self clear_saved)))"

text \<open>\<open>level.upper()\<close> on an integer is an attribute error.\<close>

fun level_upper :: "py_level \<Rightarrow> exn + string" where
  "level_upper (LevelInt i) = Inl AttributeError"
| "level_upper (LevelName s) = Inr (upper s)"

definition add_one :: "string \<Rightarrow> string \<Rightarrow> py_level option \<Rightarrow> string list \<Rightarrow> string \<Rightarrow> (lc_state, unit) eff" where
  "add_one name desc level hs n =
     seqE (bindE (getsE (known n)) (\<lambda>d. whenE (d = None) (on_self (\<lambda>c. c\<lparr>known_loggers := dict_set n
       \<lparr>ld_name = n, ld_description = (if n = name then desc else []), custom_level = None, ld_propagate = False, handler_names = hs\<rparr>
       (known_loggers c)\<rparr>))))
    (seqE (on_logging (modE (get_logger n)))
     (whenE (n \<noteq> name \<and> level \<noteq> None)
       (bindE (getsE (\<lambda>s. default_level (lc_self s))) (\<lambda>dl. set_logger_level n (LevelName dl)))))"

definition add_logger :: "string \<Rightarrow> string \<Rightarrow> py_level option \<Rightarrow> (lc_state, unit) eff" where
  "add_logger name desc level = bindE (getsE (\<lambda>s. default_handlers (lc_self s))) (\<lambda>hs.
     seqE (forE (dotted_names name) (add_one name desc level hs))
    (seqE (on_logging (modE (get_logger name)))
     (case level of
        None \<Rightarrow> bindE (getsE (\<lambda>s. default_level (lc_self s))) (\<lambda>dl. on_logging (set_py_level name (LevelName dl)))
      | Some l \<Rightarrow> bindE (liftE (level_upper l)) (\<lambda>u.
          seqE (upd_known name (\<lambda>d. d\<lparr>custom_level := Some u\<rparr>)) (on_logging (set_py_level name l))))))"

definition get_known_loggers :: "(lc_state, (string \<times> LoggerDef) list) eff" where
  "get_known_loggers = getsE (\<lambda>s. known_loggers (lc_self s))"

subsection \<open>The configuration\<close>

definition handler_config :: "HandlerDef \<Rightarrow> json" where
  "handler_config h = JObj (fold (\<lambda>(k, v). dict_set k v) (extra_config h)
     ([(''level'', str_json (hd_level h)), (''formatter'', str_json (hd_formatter h)),
       (''class'', opt_json str_json (handler_class h))] @
      (case hd_stream h of Some x \<Rightarrow> if handler_type h = ''stream'' \<and> x \<noteq> [] then [(''stream'', str_json x)] else [] | None \<Rightarrow> [])))"

definition logger_config_of :: "string \<Rightarrow> LoggerDef \<Rightarrow> logger_config" where
  "logger_config_of dl d = \<lparr>cfg_handler_names = handler_names d,
     cfg_level = (case custom_level d of Some l \<Rightarrow> l | None \<Rightarrow> dl), cfg_propagate = ld_propagate d\<rparr>"

definition to_dict_config :: "LogController \<Rightarrow> dict_config" where
  "to_dict_config c = \<lparr>cfg_version = 1, cfg_disable_existing = True,
     cfg_formatters = [(''standard'', JObj [
       (''format'', str_json ''[%(asctime)s.%(msecs)03d %(levelname)-7s] %(name)-15s: %(message)s''), (''datefmt'', str_json ''%M:%S'')])],
     cfg_handlers = map (\<lambda>(n, h). (n, handler_config h)) (known_handlers c),
     cfg_loggers = map (\<lambda>(n, d). (n, logger_config_of (default_level c) d)) (known_loggers c)\<rparr>"

definition apply_config :: "(lc_state, unit) eff" where
  "apply_config = bindE (getsE (\<lambda>s. to_dict_config (lc_self s))) (\<lambda>cfg. on_logging (dictConfig cfg))"

subsection \<open>Construction\<close>

definition new_LoggerDef :: "string \<Rightarrow> string \<Rightarrow> LoggerDef" where
  "new_LoggerDef n d = \<lparr>ld_name = n, ld_description = d, custom_level = None, ld_propagate = False, handler_names = [''stdout'']\<rparr>"

definition stdout_handler :: HandlerDef where
  "stdout_handler = \<lparr>hd_name = ''stdout'', hd_description = ''Standard output handler'', handler_type = ''stream'', hd_level = ''DEBUG'',
     hd_formatter = ''standard'', hd_stream = Some ''ext://sys.stdout'', hd_filename = None, hd_mode = ''a'', hd_encoding = ''utf-8'',
     handler_class = Some ''logging.StreamHandler'', extra_config = []\<rparr>"

definition initial_loggers :: "(string \<times> LoggerDef) list" where
  "initial_loggers = map (\<lambda>(n, d). (n, new_LoggerDef n d))
     [('''', ''root logger''), (''Leader'', ''Leader role''), (''Follower'', ''Follower role''), (''Candidate'', ''Candidate role''),
      (''BaseRole'', ''Base role functionality''), (''Deck'', ''Main Raft engine controller''),
      (''Elections'', ''Events in election logic''), (''SqliteLog'', ''''), (''LMDBLog'', ''''), (''HybridLog'', ''''),
      (''HybridLog.sqlite_writer'', '''')]"

definition initial_controller :: "string \<Rightarrow> LogController" where
  "initial_controller dl = \<lparr>default_level = upper dl, default_handlers = [''stdout''], known_handlers = [(''stdout'', stdout_handler)],
     known_loggers = initial_loggers, saved_levels = None, saved_custom_levels = [], saved_handler_names = []\<rparr>"

definition init_body :: "(string \<times> string) list \<Rightarrow> (lc_state, unit) eff" where
  "init_body additional =
     seqE (forE additional (\<lambda>(n, d). add_logger n d None)) (seqE (on_self clear_saved) apply_config)"

text \<open>The class: the loggers of the process and the attribute \<open>controller\<close>, the object of the one permanent controller, which the
  constructor stores before it builds it.\<close>

record lc_class =
  cls_logging :: py_logging
  cls_controller :: "LogController option"

definition init_LogController :: "(string \<times> string) list \<Rightarrow> string \<Rightarrow> bool \<Rightarrow> (lc_class, LogController) eff" where
  "init_LogController additional dl temporary = (\<lambda>k.
     if \<not> temporary \<and> cls_controller k \<noteq> None then (Inl (AppError ''initializing LogController class twice causes issues''), k)
     else case init_body additional \<lparr>lc_logging = cls_logging k, lc_self = initial_controller dl\<rparr> of (r, s) \<Rightarrow>
       (case r of Inl e \<Rightarrow> Inl e | Inr _ \<Rightarrow> Inr (lc_self s),
        \<lparr>cls_logging = lc_logging s, cls_controller = (if temporary then cls_controller k else Some (lc_self s))\<rparr>))"

definition get_controller :: "(lc_class, LogController) eff" where
  "get_controller = bindE (getsE cls_controller) (some_or (AppError ''you must call make controller first, or initialize it directly''))"

definition make_controller :: "(string \<times> string) list \<Rightarrow> string \<Rightarrow> bool \<Rightarrow> (lc_class, LogController) eff" where
  "make_controller additional dl temporary = bindE (getsE cls_controller) (\<lambda>c.
     if c \<noteq> None then throw (AppError ''you must call make_controller one time only, then call get_controller afterwards'')
     else bindE (init_LogController additional dl temporary) (\<lambda>c. seqE (modE (\<lambda>k. k\<lparr>cls_controller := Some c\<rparr>)) (ret c)))"

section \<open>The context manager\<close>

record TemporaryLogControl =
  keep_active :: "string list"
  silence_level :: py_level

definition new_TemporaryLogControl :: "LogController \<Rightarrow> string list option \<Rightarrow> py_level option \<Rightarrow> TemporaryLogControl" where
  "new_TemporaryLogControl c keep sl = \<lparr>keep_active = (case keep of Some k \<Rightarrow> k | None \<Rightarrow> []),
     silence_level = (case sl of Some l \<Rightarrow> l | None \<Rightarrow> LevelName (default_level c))\<rparr>"

definition temp_enter :: "TemporaryLogControl \<Rightarrow> (lc_state, unit) eff" where
  "temp_enter t = seqE save_current_levels
    (bindE (getsE (\<lambda>s. dict_keys (known_loggers (lc_self s)))) (\<lambda>ns.
     forE ns (\<lambda>n. whenE (n \<notin> set (keep_active t)) (set_logger_level n (silence_level t)))))"

definition temp_exit :: "(lc_state, unit) eff" where
  "temp_exit = restore_saved_levels"

definition create_temporary_log_control ::
    "string list option \<Rightarrow> py_level option \<Rightarrow> (lc_class, LogController \<times> TemporaryLogControl) eff" where
  "create_temporary_log_control keep sl = bindE (init_LogController [] ''ERROR'' True)
     (\<lambda>c. ret (c, new_TemporaryLogControl c keep sl))"

end
