(* ===== verification/Log_Control_Props.thy ===== *)
theory Log_Control_Props
  imports Log_Control
begin

text \<open>
  What the log controller guarantees: the context manager gives every logger its level and its definition back whatever the block
  changed, and what its constructors leave behind. The frame relation \<open>lc_kept\<close> is an instance of \<open>method_rel\<close>.
\<close>

section \<open>Loggers\<close>

definition same_logger :: "string \<Rightarrow> string \<Rightarrow> bool" where
  "same_logger n m \<longleftrightarrow> n = m \<or> is_root n \<and> is_root m"

abbreviation level_in :: "py_logging \<Rightarrow> string \<Rightarrow> int" where
  "level_in w n \<equiv> lg_level (the_logger w n)"

lemma fixup_parents_get: "dict_get (fixup_parents n i d) m = Some (Some l) \<longleftrightarrow> dict_get d m = Some (Some l)"
proof (induction n i d rule: fixup_parents.induct)
  case (1 n i d)
  then show ?case by (subst fixup_parents.simps) (auto split: option.splits)
qed

lemma the_logger_fixup:
  "the_logger (w\<lparr>logger_dict := fixup_parents n i d\<rparr>) m = the_logger (w\<lparr>logger_dict := d\<rparr>) m"
proof (cases "\<exists>l. dict_get d m = Some (Some l)")
  case True
  then obtain l where "dict_get d m = Some (Some l)" "dict_get (fixup_parents n i d) m = Some (Some l)"
    by (auto simp: fixup_parents_get)
  then show ?thesis by (simp add: the_logger_def)
next
  case False
  then have "\<not> (\<exists>l. dict_get (fixup_parents n i d) m = Some (Some l))" by (simp add: fixup_parents_get)
  with False show ?thesis by (auto simp: the_logger_def split: option.splits)
qed

lemma the_logger_get [simp]: "the_logger (get_logger n w) m = the_logger w m"
  by (auto simp: get_logger_def the_logger_fixup split: option.splits) (auto simp: the_logger_def)

lemma the_logger_upd [simp]:
  "the_logger (upd_logger n f w) m = (if same_logger n m then f (the_logger w n) else the_logger w m)"
  by (auto simp: upd_logger_def the_logger_def same_logger_def)

lemma same_logger_refl [simp]: "same_logger n n"
  by (simp add: same_logger_def)

lemma same_level: "same_logger n m \<Longrightarrow> level_in w n = level_in w m"
  by (auto simp: same_logger_def the_logger_def)

section \<open>Saving and restoring\<close>

abbreviation with_logging :: "(py_logging \<Rightarrow> py_logging) \<Rightarrow> lc_state \<Rightarrow> lc_state" where
  "with_logging f s \<equiv> s\<lparr>lc_logging := f (lc_logging s)\<rparr>"

lemma on_logging_mod [run]: "on_logging (modE f) s = (Inr (), with_logging f s)"
  by (simp add: on_logging_def run)

lemma on_logging_set [run]:
  "on_logging (set_py_level n (LevelInt i)) s = (Inr (), with_logging (upd_logger n (\<lambda>g. g\<lparr>lg_level := i\<rparr>)) s)"
  by (simp add: on_logging_def set_py_level_def run)

lemma on_self_run [run]: "on_self f s = (Inr (), s\<lparr>lc_self := f (lc_self s)\<rparr>)"
  by (simp add: on_self_def run)

lemma upd_known_run [run]:
  "upd_known n f s = (case known n s of None \<Rightarrow> (Inl KeyError, s)
     | Some d \<Rightarrow> (Inr (), s\<lparr>lc_self := (lc_self s)\<lparr>known_loggers := dict_set n (f d) (known_loggers (lc_self s))\<rparr>\<rparr>))"
  by (simp add: upd_known_def run split: option.splits)

lemma known_simps [simp]:
  "known n (s\<lparr>lc_logging := w\<rparr>) = known n s"
  "known n (s\<lparr>lc_self := c\<rparr>) = dict_get (known_loggers c) n"
  by (simp_all add: known_def)

text \<open>What saving writes down: the levels, custom levels and handlers of the given definitions.\<close>

definition snapshot_of :: "py_logging \<Rightarrow> (string \<times> LoggerDef) list \<Rightarrow> LogController \<Rightarrow> LogController" where
  "snapshot_of w ks c = c\<lparr>saved_levels := Some (map (\<lambda>(n, d). (n, level_in w n)) ks),
     saved_custom_levels := map (\<lambda>(n, d). (n, custom_level d)) ks, saved_handler_names := map (\<lambda>(n, d). (n, handler_names d)) ks\<rparr>"

lemma snapshot_simps [simp]:
  "known_loggers (snapshot_of w ks c) = known_loggers c" "default_level (snapshot_of w ks c) = default_level c"
  "saved_levels (snapshot_of w ks c) = Some (map (\<lambda>(n, d). (n, level_in w n)) ks)"
  "saved_custom_levels (snapshot_of w ks c) = map (\<lambda>(n, d). (n, custom_level d)) ks"
  "saved_handler_names (snapshot_of w ks c) = map (\<lambda>(n, d). (n, handler_names d)) ks"
  by (simp_all add: snapshot_of_def)

lemma save_loop:
  assumes "distinct (map fst (done @ ks))" and "\<And>n. the_logger (lc_logging s) n = the_logger w n"
    and "lc_self s = snapshot_of w done c"
  shows "\<exists>w'. forE ks save_one s = (Inr (), s\<lparr>lc_logging := w', lc_self := snapshot_of w (done @ ks) c\<rparr>) \<and>
     (\<forall>n. the_logger w' n = the_logger w n)"
  using assms
proof (induction ks arbitrary: "done" s)
  case Nil
  then show ?case by (intro exI [of _ "lc_logging s"]) (simp add: run)
next
  case (Cons k ks)
  obtain n d where k: "k = (n, d)" by (cases k)
  let ?s = "s\<lparr>lc_logging := get_logger n (lc_logging s), lc_self := snapshot_of w (done @ [k]) c\<rparr>"
  have new: "n \<notin> set (map fst done)" using Cons.prems(1) k by simp
  have "save_one k s = (Inr (), ?s)"
    using new Cons.prems(2,3) unfolding k
    by (simp add: save_one_def run snapshot_of_def update_append_new comp_def case_prod_unfold)
  moreover obtain w' where "forE ks save_one ?s = (Inr (), ?s\<lparr>lc_logging := w', lc_self := snapshot_of w ((done @ [k]) @ ks) c\<rparr>)"
      "\<forall>n. the_logger w' n = the_logger w n"
    using Cons.IH [of "done @ [k]" ?s] Cons.prems by auto
  ultimately show ?case by (intro exI [of _ w']) (simp add: run)
qed

lemma save_run:
  assumes "dict_ok (known_loggers (lc_self s))"
  shows "\<exists>w'. save_current_levels s = (Inr (), s\<lparr>lc_logging := w', lc_self := snapshot_of (lc_logging s) (known_loggers (lc_self s)) (lc_self s)\<rparr>)
     \<and> (\<forall>n. the_logger w' n = the_logger (lc_logging s) n)"
proof -
  let ?s = "s\<lparr>lc_self := clear_saved (lc_self s)\<rparr>"
  have c: "clear_saved (lc_self s) = snapshot_of (lc_logging s) [] (lc_self s)" by (simp add: clear_saved_def snapshot_of_def)
  show ?thesis
    using save_loop [of "[]" "known_loggers (lc_self s)" ?s "lc_logging s" "lc_self s"] assms
    by (auto simp: save_current_levels_def run c)
qed

text \<open>What restoring needs: every saved name is known and has its three entries.\<close>

lemma restore_one_run:
  assumes "known n s = Some d" and "dict_get (saved_custom_levels (lc_self s)) n = Some cl"
    and "dict_get (saved_handler_names (lc_self s)) n = Some hs"
  shows "restore_one (n, i) s = (Inr (), s\<lparr>lc_logging := upd_logger n (\<lambda>g. g\<lparr>lg_level := i\<rparr>) (get_logger n (lc_logging s)),
     lc_self := (lc_self s)\<lparr>known_loggers := dict_set n (d\<lparr>custom_level := cl, handler_names := hs\<rparr>) (known_loggers (lc_self s))\<rparr>\<rparr>)"
  using assms by (simp add: restore_one_def run known_def)

lemma restore_loop:
  assumes "\<And>n i. (n, i) \<in> set ls \<Longrightarrow> known n s \<noteq> None \<and> dict_get (saved_custom_levels (lc_self s)) n = Some (cl n) \<and>
        dict_get (saved_handler_names (lc_self s)) n = Some (hs n) \<and> i = lv n"
    and "\<And>n m. same_logger n m \<Longrightarrow> lv n = lv m"
  shows "\<exists>s'. forE ls restore_one s = (Inr (), s') \<and>
     (\<forall>n. level_in (lc_logging s') n = (if \<exists>m \<in> fst ` set ls. same_logger m n then lv n else level_in (lc_logging s) n)) \<and>
     (\<forall>n. known n s' = (if n \<in> fst ` set ls then map_option (\<lambda>d. d\<lparr>custom_level := cl n, handler_names := hs n\<rparr>) (known n s) else known n s))
     \<and> default_level (lc_self s') = default_level (lc_self s)"
  using assms(1)
proof (induction ls arbitrary: s)
  case Nil
  then show ?case by (simp add: run)
next
  case (Cons x ls)
  obtain n where x: "x = (n, lv n)" using Cons.prems [of "fst x" "snd x"] by (cases x) simp
  obtain d where d: "known n s = Some d" using Cons.prems [of n "lv n"] x by auto
  let ?s = "s\<lparr>lc_logging := upd_logger n (\<lambda>g. g\<lparr>lg_level := lv n\<rparr>) (get_logger n (lc_logging s)),
     lc_self := (lc_self s)\<lparr>known_loggers := dict_set n (d\<lparr>custom_level := cl n, handler_names := hs n\<rparr>) (known_loggers (lc_self s))\<rparr>\<rparr>"
  have one: "restore_one x s = (Inr (), ?s)"
    using restore_one_run [OF d] Cons.prems [of n "lv n"] x by simp
  have k: "known m ?s = (if m = n then Some (d\<lparr>custom_level := cl n, handler_names := hs n\<rparr>) else known m s)" for m
    by (simp add: known_def)
  have l: "level_in (lc_logging ?s) m = (if same_logger n m then lv m else level_in (lc_logging s) m)" for m
    using assms(2) [of n m] by simp
  have "\<exists>s'. forE ls restore_one ?s = (Inr (), s') \<and>
     (\<forall>m. level_in (lc_logging s') m = (if \<exists>x \<in> fst ` set ls. same_logger x m then lv m else level_in (lc_logging ?s) m)) \<and>
     (\<forall>m. known m s' = (if m \<in> fst ` set ls then map_option (\<lambda>d. d\<lparr>custom_level := cl m, handler_names := hs m\<rparr>) (known m ?s) else known m ?s))
     \<and> default_level (lc_self s') = default_level (lc_self ?s)"
    using Cons.prems by (intro Cons.IH) (auto simp: known_def)
  then obtain s' where s': "forE ls restore_one ?s = (Inr (), s')"
     "\<forall>m. level_in (lc_logging s') m = (if \<exists>x \<in> fst ` set ls. same_logger x m then lv m else level_in (lc_logging ?s) m)"
     "\<forall>m. known m s' = (if m \<in> fst ` set ls then map_option (\<lambda>d. d\<lparr>custom_level := cl m, handler_names := hs m\<rparr>) (known m ?s) else known m ?s)"
     "default_level (lc_self s') = default_level (lc_self ?s)" by auto
  have "\<forall>m. level_in (lc_logging s') m = (if \<exists>y \<in> fst ` set (x # ls). same_logger y m then lv m else level_in (lc_logging s) m)"
    using s'(2) unfolding l x by auto
  moreover have "\<forall>m. known m s' = (if m \<in> fst ` set (x # ls)
      then map_option (\<lambda>d. d\<lparr>custom_level := cl m, handler_names := hs m\<rparr>) (known m s) else known m s)"
    using s'(3) d unfolding k x by auto
  ultimately show ?case using one s'(1,4) by (intro exI [of _ s']) (simp add: run)
qed

section \<open>What a block may do\<close>

text \<open>The part of a definition that no operation changes, and the relation every operation but saving and restoring keeps: the
  saved state stays, no definition is lost and its fixed part stays.\<close>

definition fixed_part :: "LoggerDef \<Rightarrow> LoggerDef" where
  "fixed_part d = d\<lparr>custom_level := None, handler_names := []\<rparr>"

definition lc_kept :: "lc_state \<Rightarrow> lc_state \<Rightarrow> bool" where
  "lc_kept s t \<longleftrightarrow> saved_levels (lc_self t) = saved_levels (lc_self s) \<and>
     saved_custom_levels (lc_self t) = saved_custom_levels (lc_self s) \<and>
     saved_handler_names (lc_self t) = saved_handler_names (lc_self s) \<and>
     (\<forall>n d. known n s = Some d \<longrightarrow> (\<exists>d'. known n t = Some d' \<and> fixed_part d' = fixed_part d))"

interpretation kept: method_rel lc_kept
proof
  show "lc_kept s s" for s by (simp add: lc_kept_def)
  show "lc_kept s u" if "lc_kept s t" "lc_kept t u" for s t u
    using that unfolding lc_kept_def by metis
qed

lemma kept_on_logging [simp]: "steps lc_kept (on_logging m)"
  by (simp add: steps_def on_logging_def run lc_kept_def split: prod.splits)

lemma kept_upd_known: "(\<And>d. fixed_part (f d) = fixed_part d) \<Longrightarrow> steps lc_kept (upd_known n f)"
  by (auto simp: steps_def run lc_kept_def known_def split: option.splits)

lemma kept_default: "steps lc_kept (on_self (\<lambda>c. c\<lparr>default_level := l\<rparr>))"
  by (simp add: steps_def run lc_kept_def known_def)

lemma kept_new: "steps lc_kept (bindE (getsE (known n)) (\<lambda>d. whenE (d = None)
     (on_self (\<lambda>c. c\<lparr>known_loggers := dict_set n e (known_loggers c)\<rparr>))))"
  by (auto simp: steps_def run lc_kept_def known_def)

lemmas kept_rules = kept.steps_rules kept_on_logging kept_upd_known kept_default

lemma kept_set_logger_level: "steps lc_kept (set_logger_level n l)"
  unfolding set_logger_level_def by (intro kept_rules) (simp add: fixed_part_def)

lemma kept_set_default_level: "steps lc_kept (set_default_level l b)"
  unfolding set_default_level_def set_logger_level_without_custom_flag_def by (intro kept_rules)

lemma kept_add_logger: "steps lc_kept (add_logger n d l)"
  unfolding add_logger_def add_one_def
  by (intro kept_rules kept_new kept_set_logger_level) (simp add: fixed_part_def)

lemma kept_apply_config: "steps lc_kept apply_config"
  unfolding apply_config_def by (intro kept_rules)

text \<open>The operations a block may call, each of which may raise, the block going on.\<close>

datatype lc_op = Op_set string py_level | Op_default py_level bool | Op_add string string "py_level option" | Op_apply

fun run_op :: "lc_op \<Rightarrow> (lc_state, unit) eff" where
  "run_op (Op_set n l) = set_logger_level n l"
| "run_op (Op_default l b) = set_default_level l b"
| "run_op (Op_add n d l) = add_logger n d l"
| "run_op Op_apply = apply_config"

definition run_ops :: "lc_op list \<Rightarrow> lc_state \<Rightarrow> lc_state" where
  "run_ops ops s = fold (\<lambda>op s. snd (run_op op s)) ops s"

lemma kept_run_op: "steps lc_kept (run_op op)"
  by (cases op) (simp_all add: kept_set_logger_level kept_set_default_level kept_add_logger kept_apply_config)

lemma kept_run_ops: "lc_kept s (run_ops ops s)"
  unfolding run_ops_def
proof (induction ops arbitrary: s)
  case (Cons op ops)
  then show ?case using stepsD [OF kept_run_op [of op]] kept.rel_trans by fastforce
qed (simp add: kept.rel_refl)

section \<open>The context manager\<close>

lemma set_logger_level_run:
  assumes "known n s = Some d" and "convert_level l = Inr (i, u)"
  shows "\<exists>t. set_logger_level n l s = (Inr (), t) \<and>
     (\<forall>m. level_in (lc_logging t) m = (if same_logger n m then i else level_in (lc_logging s) m)) \<and> lc_kept s t"
proof -
  obtain r t where t: "set_logger_level n l s = (r, t)" by (cases "set_logger_level n l s")
  have "lc_kept s t" using stepsE [OF kept_set_logger_level t] .
  moreover have "r = Inr ()" "\<forall>m. level_in (lc_logging t) m = (if same_logger n m then i else level_in (lc_logging s) m)"
    using t assms by (auto simp: set_logger_level_def run)
  ultimately show ?thesis using t by simp
qed

lemma silence_loop:
  assumes "\<And>n. n \<in> set ns \<Longrightarrow> known n s \<noteq> None" and "convert_level l = Inr (i, u)"
  shows "\<exists>t. forE ns (\<lambda>n. whenE (n \<notin> K) (set_logger_level n l)) s = (Inr (), t) \<and>
     (\<forall>m. level_in (lc_logging t) m = (if \<exists>n \<in> set ns - K. same_logger n m then i else level_in (lc_logging s) m)) \<and> lc_kept s t"
  using assms(1)
proof (induction ns arbitrary: s)
  case Nil
  then show ?case by (simp add: run kept.rel_refl)
next
  case (Cons n ns)
  obtain d where d: "known n s = Some d" using Cons.prems by fastforce
  obtain t where t: "whenE (n \<notin> K) (set_logger_level n l) s = (Inr (), t)"
      "\<forall>m. level_in (lc_logging t) m = (if n \<notin> K \<and> same_logger n m then i else level_in (lc_logging s) m)" "lc_kept s t"
    using set_logger_level_run [OF d assms(2)] by (cases "n \<in> K") (auto simp: run kept.rel_refl)
  have "known m t \<noteq> None" if "m \<in> set ns" for m using Cons.prems [of m] that t(3) by (auto simp: lc_kept_def)
  then obtain t' where "forE ns (\<lambda>n. whenE (n \<notin> K) (set_logger_level n l)) t = (Inr (), t')"
      "\<forall>m. level_in (lc_logging t') m = (if \<exists>n \<in> set ns - K. same_logger n m then i else level_in (lc_logging t) m)" "lc_kept t t'"
    using Cons.IH by blast
  then show ?case using t kept.rel_trans [OF t(3)] by (intro exI [of _ t']) (auto simp: run_seqE)
qed

lemma enter_run:
  assumes "dict_ok (known_loggers (lc_self s))" and "convert_level (silence_level t) = Inr (i, u)"
  shows "\<exists>a. temp_enter t s = (Inr (), a) \<and>
     (\<forall>m. level_in (lc_logging a) m = (if \<exists>n \<in> set (dict_keys (known_loggers (lc_self s))) - set (keep_active t). same_logger n m
        then i else level_in (lc_logging s) m)) \<and>
     (\<exists>w. lc_kept (s\<lparr>lc_logging := w, lc_self := snapshot_of (lc_logging s) (known_loggers (lc_self s)) (lc_self s)\<rparr>) a)"
proof -
  obtain w where w: "save_current_levels s = (Inr (), s\<lparr>lc_logging := w,
      lc_self := snapshot_of (lc_logging s) (known_loggers (lc_self s)) (lc_self s)\<rparr>)"
      "\<forall>n. the_logger w n = the_logger (lc_logging s) n"
    using save_run [OF assms(1)] by blast
  let ?s = "s\<lparr>lc_logging := w, lc_self := snapshot_of (lc_logging s) (known_loggers (lc_self s)) (lc_self s)\<rparr>"
  have "known n ?s \<noteq> None" if "n \<in> set (dict_keys (known_loggers (lc_self s)))" for n
    using that by (simp add: known_def map_of_eq_None_iff)
  then obtain a where "forE (dict_keys (known_loggers (lc_self s)))
        (\<lambda>n. whenE (n \<notin> set (keep_active t)) (set_logger_level n (silence_level t))) ?s = (Inr (), a)"
      "\<forall>m. level_in (lc_logging a) m = (if \<exists>n \<in> set (dict_keys (known_loggers (lc_self s))) - set (keep_active t). same_logger n m
        then i else level_in (lc_logging ?s) m)" "lc_kept ?s a"
    using silence_loop [OF _ assms(2)] by blast
  then show ?thesis using w by (intro exI [of _ a]) (auto simp: temp_enter_def run)
qed

lemma exit_run:
  assumes "dict_ok (known_loggers (lc_self s))" and "known_loggers (lc_self s) \<noteq> []"
    and "lc_kept (s\<lparr>lc_logging := w, lc_self := snapshot_of (lc_logging s) (known_loggers (lc_self s)) (lc_self s)\<rparr>) b"
  shows "\<exists>e. temp_exit b = (Inr (), e) \<and> (\<forall>n d. known n s = Some d \<longrightarrow>
     level_in (lc_logging e) n = level_in (lc_logging s) n \<and> known n e = Some d)"
proof -
  let ?ks = "known_loggers (lc_self s)"
  let ?ls = "map (\<lambda>(n, d). (n, level_in (lc_logging s) n)) ?ks"
  define cl hs where "cl n = custom_level (the (known n s))" and "hs n = handler_names (the (known n s))" for n
  have saved: "saved_levels (lc_self b) = Some ?ls"
      "saved_custom_levels (lc_self b) = map (\<lambda>(n, d). (n, custom_level d)) ?ks"
      "saved_handler_names (lc_self b) = map (\<lambda>(n, d). (n, handler_names d)) ?ks"
    using assms(3) by (simp_all add: lc_kept_def)
  have kept: "\<exists>d'. known n b = Some d' \<and> fixed_part d' = fixed_part d" if "known n s = Some d" for n d
    using assms(3) that by (auto simp: lc_kept_def known_def)
  have keys: "fst ` set ?ls = fst ` set ?ks" by force
  have "known n b \<noteq> None \<and> dict_get (saved_custom_levels (lc_self b)) n = Some (cl n) \<and>
        dict_get (saved_handler_names (lc_self b)) n = Some (hs n) \<and> i = level_in (lc_logging s) n"
    if ni: "(n, i) \<in> set ?ls" for n i
  proof -
    obtain d where d: "(n, d) \<in> set ?ks" "i = level_in (lc_logging s) n" using ni by auto
    then have k: "known n s = Some d" using assms(1) by (simp add: known_def)
    have "dict_get (map (\<lambda>(n, d). (n, f d)) ?ks) n = Some (f d)" for f :: "LoggerDef \<Rightarrow> 'a"
      using k by (simp add: known_def map_of_map)
    with kept [OF k] k d(2) show ?thesis by (auto simp: saved cl_def hs_def known_def map_of_map)
  qed
  then obtain e where e: "forE ?ls restore_one b = (Inr (), e)"
      "\<forall>n. level_in (lc_logging e) n = (if \<exists>m \<in> fst ` set ?ls. same_logger m n then level_in (lc_logging s) n else level_in (lc_logging b) n)"
      "\<forall>n. known n e = (if n \<in> fst ` set ?ls then map_option (\<lambda>d. d\<lparr>custom_level := cl n, handler_names := hs n\<rparr>) (known n b) else known n b)"
    using restore_loop [of ?ls b cl hs "level_in (lc_logging s)"] same_level by blast
  have "level_in (lc_logging e) n = level_in (lc_logging s) n \<and> known n e = Some d" if d: "known n s = Some d" for n d
  proof -
    have n: "n \<in> fst ` set ?ls" unfolding keys using d by (force simp: known_def dest: map_of_SomeD)
    obtain d' where d': "known n b = Some d'" "fixed_part d' = fixed_part d" using kept [OF d] by blast
    have "d'\<lparr>custom_level := cl n, handler_names := hs n\<rparr> = d" using d d'(2)
      by (cases d; cases d') (simp add: cl_def hs_def fixed_part_def)
    then show ?thesis using e(2,3) n d'(1) same_logger_refl [of n] by (auto split: if_splits)
  qed
  moreover have "temp_exit b = (Inr (), e\<lparr>lc_self := clear_saved (lc_self e)\<rparr>)"
    using e(1) assms(2) by (simp add: temp_exit_def restore_saved_levels_def run saved)
  moreover have "known n (e\<lparr>lc_self := clear_saved (lc_self e)\<rparr>) = known n e" for n by (simp add: known_def clear_saved_def)
  ultimately show ?thesis by auto
qed

section \<open>Applying a configuration\<close>

definition is_logger :: "py_logging \<Rightarrow> string \<Rightarrow> bool" where
  "is_logger w n \<longleftrightarrow> \<not> is_root n \<and> (\<exists>l. dict_get (logger_dict w) n = Some (Some l))"

definition logging_ok :: "py_logging \<Rightarrow> bool" where
  "logging_ok w \<longleftrightarrow> dict_ok (logger_dict w) \<and> (\<forall>n \<in> set (dict_keys (logger_dict w)). \<not> is_root n)"

definition config_valid :: "dict_config \<Rightarrow> logger_config \<Rightarrow> bool" where
  "config_valid cfg c \<longleftrightarrow> std_level (cfg_level c) \<noteq> None \<and> set (cfg_handler_names c) \<subseteq> set (dict_keys (cfg_handlers cfg)) \<and>
     distinct (cfg_handler_names c)"

definition configured :: "logger_config \<Rightarrow> py_logger" where
  "configured c = \<lparr>lg_level = the (std_level (cfg_level c)), lg_handlers = cfg_handler_names c, lg_propagate = cfg_propagate c, lg_disabled = False\<rparr>"

lemma is_logger_get [simp]: "is_logger (get_logger n w) m \<longleftrightarrow> is_logger w m \<or> m = n \<and> \<not> is_root n"
  by (auto simp: is_logger_def get_logger_def fixup_parents_get split: option.splits)

lemma is_logger_upd [simp]: "is_logger (upd_logger n f w) m \<longleftrightarrow> is_logger w m \<or> m = n \<and> \<not> is_root n"
  by (auto simp: is_logger_def upd_logger_def)

lemma add_handlers_run:
  assumes "distinct (hs @ hs')" and "set hs' \<subseteq> H" and "lg_handlers (the_logger w n) = hs"
  shows "\<exists>w'. forE hs' (\<lambda>h. if h \<in> H then modE (upd_logger n (add_handler_name h)) else throw ValueError) w = (Inr (), w') \<and>
     (\<forall>m. the_logger w' m = (if same_logger n m then (the_logger w n)\<lparr>lg_handlers := hs @ hs'\<rparr> else the_logger w m)) \<and>
     (\<forall>m. is_logger w' m \<longleftrightarrow> is_logger w m \<or> (hs' \<noteq> [] \<and> m = n \<and> \<not> is_root n))"
  using assms
proof (induction hs' arbitrary: hs w)
  case Nil
  have "(the_logger w n)\<lparr>lg_handlers := hs\<rparr> = the_logger w m" if "same_logger n m" for m
    using that Nil(3) by (auto simp: same_logger_def the_logger_def)
  then show ?case by (simp add: run_ret)
next
  case (Cons h hs')
  let ?w = "upd_logger n (add_handler_name h) w"
  have l: "the_logger ?w m = (if same_logger n m then (the_logger w n)\<lparr>lg_handlers := hs @ [h]\<rparr> else the_logger w m)" for m
    using Cons.prems by (simp add: add_handler_name_def)
  obtain w' where "forE hs' (\<lambda>h. if h \<in> H then modE (upd_logger n (add_handler_name h)) else throw ValueError) ?w = (Inr (), w')"
      "\<forall>m. the_logger w' m = (if same_logger n m then (the_logger ?w n)\<lparr>lg_handlers := (hs @ [h]) @ hs'\<rparr> else the_logger ?w m)"
      "\<forall>m. is_logger w' m \<longleftrightarrow> is_logger ?w m \<or> (hs' \<noteq> [] \<and> m = n \<and> \<not> is_root n)"
    using Cons.IH [of "hs @ [h]" ?w] Cons.prems l [of n] by (simp del: the_logger_upd) blast
  then show ?case using Cons.prems by (intro exI [of _ w']) (auto simp: run_seqE run_modE add_handler_name_def)
qed

lemma configure_logger_run:
  assumes "config_valid cfg c"
  shows "\<exists>w'. configure_logger cfg n c w = (Inr (), w') \<and>
     (\<forall>m. the_logger w' m = (if same_logger n m then configured c else the_logger w m)) \<and>
     (\<forall>m. is_logger w' m \<longleftrightarrow> is_logger w m \<or> m = n \<and> \<not> is_root n)"
proof -
  obtain i where i: "std_level (cfg_level c) = Some i" using assms by (auto simp: config_valid_def)
  let ?w = "upd_logger n (\<lambda>g. g\<lparr>lg_handlers := []\<rparr>) (upd_logger n (\<lambda>g. g\<lparr>lg_level := i\<rparr>) (get_logger n w))"
  obtain w' where w': "forE (cfg_handler_names c) (\<lambda>h. if h \<in> set (dict_keys (cfg_handlers cfg))
        then modE (upd_logger n (add_handler_name h)) else throw ValueError) ?w = (Inr (), w')"
      "\<forall>m. the_logger w' m = (if same_logger n m then (the_logger ?w n)\<lparr>lg_handlers := [] @ cfg_handler_names c\<rparr> else the_logger ?w m)"
      "\<forall>m. is_logger w' m \<longleftrightarrow> is_logger ?w m \<or> (cfg_handler_names c \<noteq> [] \<and> m = n \<and> \<not> is_root n)"
    using add_handlers_run [of "[]" "cfg_handler_names c" "set (dict_keys (cfg_handlers cfg))" ?w n] assms
    by (auto simp: config_valid_def)
  then show ?thesis using i
    by (intro exI [of _ "upd_logger n (\<lambda>g. g\<lparr>lg_disabled := False, lg_propagate := cfg_propagate c\<rparr>) w'"])
      (auto simp: configure_logger_def set_py_level_def run configured_def)
qed

definition apart :: "string set \<Rightarrow> bool" where
  "apart K \<longleftrightarrow> (\<forall>n \<in> K. \<forall>m \<in> K. same_logger n m \<longrightarrow> n = m)"

lemma apart_subset: "apart K \<Longrightarrow> K' \<subseteq> K \<Longrightarrow> apart K'"
  by (simp add: apart_def subset_iff)

text \<open>The loop gives each configured logger its configuration; what is left over are the names it does not configure, with
  the children of those that existed.\<close>

lemma configure_loggers_run:
  assumes "\<forall>c \<in> snd ` set cs. config_valid cfg c" and "distinct (map fst cs)"
    and "apart (fst ` set cs)"
  shows "\<exists>w' ex' ch'. configure_loggers cfg cs (ex, ch) w = (Inr (ex', ch'), w') \<and>
     (\<forall>n c. (n, c) \<in> set cs \<longrightarrow> the_logger w' n = configured c) \<and>
     (\<forall>m. (\<forall>n \<in> fst ` set cs. \<not> same_logger n m) \<longrightarrow> the_logger w' m = the_logger w m) \<and>
     (\<forall>m. is_logger w' m \<longleftrightarrow> is_logger w m \<or> m \<in> fst ` set cs \<and> \<not> is_root m) \<and>
     set ex' = set ex - fst ` set cs \<and> (distinct ex \<longrightarrow> distinct ex') \<and>
     (\<forall>m \<in> set ex'. m \<in> set ch' \<longleftrightarrow> m \<in> set ch \<or> (\<exists>n \<in> fst ` set cs \<inter> set ex. take (length n + 1) m = n @ ''.''))"
  using assms
proof (induction cs arbitrary: w ex ch)
  case Nil
  then show ?case by (simp add: run)
next
  case (Cons x cs)
  obtain n c where x: "x = (n, c)" by (cases x)
  have c: "config_valid cfg c" using Cons.prems(1) x by simp
  obtain w1 where w1: "configure_logger cfg n c w = (Inr (), w1)"
      "\<forall>m. the_logger w1 m = (if same_logger n m then configured c else the_logger w m)"
      "\<forall>m. is_logger w1 m \<longleftrightarrow> is_logger w m \<or> m = n \<and> \<not> is_root n"
    using configure_logger_run [OF c, of n w] by blast
  have cs: "\<forall>c \<in> snd ` set cs. config_valid cfg c" "distinct (map fst cs)" using Cons.prems(1,2) by simp_all
  have apart: "apart (fst ` set cs)" using Cons.prems(3) by (rule apart_subset) auto
  define ex1 ch1 where "ex1 = (if n \<in> set ex then removeAll n ex else ex)"
    and "ch1 = (if n \<in> set ex then ch @ filter (\<lambda>m. take (length n + 1) m = n @ ''.'') ex else ch)"
  obtain w' ex' ch' where w': "configure_loggers cfg cs (ex1, ch1) w1 = (Inr (ex', ch'), w')"
     "\<forall>n c. (n, c) \<in> set cs \<longrightarrow> the_logger w' n = configured c"
     "\<forall>m. (\<forall>n \<in> fst ` set cs. \<not> same_logger n m) \<longrightarrow> the_logger w' m = the_logger w1 m"
     "\<forall>m. is_logger w' m \<longleftrightarrow> is_logger w1 m \<or> m \<in> fst ` set cs \<and> \<not> is_root m"
     "set ex' = set ex1 - fst ` set cs" "distinct ex1 \<longrightarrow> distinct ex'"
     "\<forall>m \<in> set ex'. m \<in> set ch' \<longleftrightarrow> m \<in> set ch1 \<or> (\<exists>n \<in> fst ` set cs \<inter> set ex1. take (length n + 1) m = n @ ''.'')"
    using Cons.IH [where w = w1 and ex = ex1 and ch = ch1, OF cs apart] by - (elim exE conjE, rule that)
  have n: "n \<notin> fst ` set cs" using Cons.prems(2) x by simp
  have run: "configure_loggers cfg (x # cs) (ex, ch) w = (Inr (ex', ch'), w')"
    using w1(1) w'(1) by (cases "n \<in> set ex") (simp_all add: x run_seqE ex1_def ch1_def)
  have "\<not> same_logger m n" if "m \<in> fst ` set cs" for m using Cons.prems(3) that n x by (auto simp: apart_def)
  then have a: "the_logger w' n = configured c" using w'(3) w1(2) by auto
  have b: "the_logger w' m = the_logger w m" if "\<forall>k \<in> fst ` set (x # cs). \<not> same_logger k m" for m
    using that w'(3) w1(2) x by auto
  have d: "set ex' = set ex - fst ` set (x # cs)" using w'(5) x by (auto simp: ex1_def)
  have e: "distinct ex \<longrightarrow> distinct ex'" using w'(6) by (auto simp: ex1_def distinct_removeAll)
  have f: "m \<in> set ch' \<longleftrightarrow> m \<in> set ch \<or> (\<exists>k \<in> fst ` set (x # cs) \<inter> set ex. take (length k + 1) m = k @ ''.'')"
    if "m \<in> set ex'" for m
  proof -
    have m: "m \<in> set ex" "m \<noteq> n" using that d x by auto
    have "fst ` set cs \<inter> set ex1 = fst ` set cs \<inter> set ex" using n by (auto simp: ex1_def)
    then have "m \<in> set ch' \<longleftrightarrow> m \<in> set ch1 \<or> (\<exists>k \<in> fst ` set cs \<inter> set ex. take (length k + 1) m = k @ ''.'')"
      using w'(7) that by simp
    moreover have "m \<in> set ch1 \<longleftrightarrow> m \<in> set ch \<or> n \<in> set ex \<and> take (length n + 1) m = n @ ''.''"
      using m by (auto simp: ch1_def)
    ultimately show ?thesis using x by auto
  qed
  show ?case using run a b d e f w'(2,4) w1(3) x by (intro exI [of _ w'] exI [of _ ex'] exI [of _ ch']) auto
qed

lemma handle_existing_loop:
  assumes "distinct ex" and "\<forall>m \<in> set ex. \<not> is_root m"
  shows "the_logger (fold (handle_existing dis ch) ex w) m =
     (if m \<in> set ex \<and> is_logger w m then (let g = the_logger w m in
        if m \<in> set ch then g\<lparr>lg_level := 0, lg_handlers := [], lg_propagate := True\<rparr> else g\<lparr>lg_disabled := dis\<rparr>)
      else the_logger w m)"
  using assms
proof (induction ex arbitrary: w)
  case (Cons n ex)
  have r: "is_logger (handle_existing dis ch n w) k \<longleftrightarrow> is_logger w k" for k
    by (auto simp: handle_existing_def is_logger_def upd_logger_def split: option.splits)
  have l: "the_logger (handle_existing dis ch n w) k = (if k = n \<and> is_logger w n then (let g = the_logger w n in
        if n \<in> set ch then g\<lparr>lg_level := 0, lg_handlers := [], lg_propagate := True\<rparr> else g\<lparr>lg_disabled := dis\<rparr>) else the_logger w k)" for k
    using Cons.prems by (auto simp: handle_existing_def is_logger_def same_logger_def Let_def split: option.splits)
  show ?case using Cons.IH [of "handle_existing dis ch n w"] Cons.prems by (auto simp: r l Let_def)
qed simp

definition effective :: "LogController \<Rightarrow> LoggerDef \<Rightarrow> py_logger" where
  "effective c d = configured (logger_config_of (default_level c) d)"

text \<open>A controller that \<open>dictConfig\<close> accepts: level names \<open>logging\<close> knows, known handlers, and not both names of the root.\<close>

definition controller_valid :: "LogController \<Rightarrow> bool" where
  "controller_valid c \<longleftrightarrow> dict_ok (known_loggers c) \<and> \<not> ([] \<in> set (dict_keys (known_loggers c)) \<and> ''root'' \<in> set (dict_keys (known_loggers c))) \<and>
     (\<forall>(n, d) \<in> set (known_loggers c). std_level (case custom_level d of Some l \<Rightarrow> l | None \<Rightarrow> default_level c) \<noteq> None \<and>
        set (handler_names d) \<subseteq> set (dict_keys (known_handlers c)) \<and> distinct (handler_names d))"

lemma apply_config_run:
  assumes "logging_ok (lc_logging s)" and "controller_valid (lc_self s)"
  shows "\<exists>w. apply_config s = (Inr (), s\<lparr>lc_logging := w\<rparr>) \<and>
     (\<forall>n d. known n s = Some d \<longrightarrow> the_logger w n = effective (lc_self s) d) \<and>
     (\<forall>m. is_logger (lc_logging s) m \<and> known m s = None \<longrightarrow> the_logger w m = (let g = the_logger (lc_logging s) m in
        if \<exists>n. known n s \<noteq> None \<and> n \<in> set (dict_keys (logger_dict (lc_logging s))) \<and> take (length n + 1) m = n @ ''.''
        then g\<lparr>lg_level := 0, lg_handlers := [], lg_propagate := True\<rparr> else g\<lparr>lg_disabled := True\<rparr>))"
proof -
  let ?w = "lc_logging s" and ?c = "lc_self s"
  let ?cfg = "to_dict_config ?c" and ?ks = "known_loggers ?c"
  let ?cs = "map (\<lambda>(n, d). (n, logger_config_of (default_level ?c) d)) ?ks"
  let ?ex = "dict_keys (logger_dict ?w)"
  have fsts: "map fst ?cs = dict_keys ?ks" "fst ` set ?cs = set (dict_keys ?ks)" by (simp_all add: case_prod_unfold comp_def image_image)
  have 1: "\<forall>c \<in> snd ` set ?cs. config_valid ?cfg c"
    using assms(2) by (fastforce simp: controller_valid_def config_valid_def logger_config_of_def to_dict_config_def case_prod_unfold comp_def)
  have 2: "distinct (map fst ?cs)" using assms(2) unfolding fsts by (simp add: controller_valid_def)
  have 3: "apart (fst ` set ?cs)"
  proof -
    define K where "K = set (dict_keys ?ks)"
    have "\<not> ([] \<in> K \<and> ''root'' \<in> K)" using assms(2) by (simp add: controller_valid_def K_def)
    then show ?thesis unfolding fsts K_def [symmetric] by (auto simp: apart_def same_logger_def is_root_def)
  qed
  obtain w ex ch where w: "configure_loggers ?cfg ?cs (?ex, []) ?w = (Inr (ex, ch), w)"
     "\<forall>n c. (n, c) \<in> set ?cs \<longrightarrow> the_logger w n = configured c"
     "\<forall>m. (\<forall>n \<in> fst ` set ?cs. \<not> same_logger n m) \<longrightarrow> the_logger w m = the_logger ?w m"
     "\<forall>m. is_logger w m \<longleftrightarrow> is_logger ?w m \<or> m \<in> fst ` set ?cs \<and> \<not> is_root m"
     "set ex = set ?ex - fst ` set ?cs" "distinct ?ex \<longrightarrow> distinct ex"
     "\<forall>m \<in> set ex. m \<in> set ch \<longleftrightarrow> m \<in> set [] \<or> (\<exists>n \<in> fst ` set ?cs \<inter> set ?ex. take (length n + 1) m = n @ ''.'')"
    using configure_loggers_run [OF 1 2 3, where ex = ?ex and ch = "[]" and w = ?w] by - (elim exE conjE, rule that)
  have ex: "distinct ex" "\<forall>m \<in> set ex. \<not> is_root m" using w(5,6) assms(1) by (auto simp: logging_ok_def)
  let ?w' = "fold (handle_existing True ch) ex w"
  note after = handle_existing_loop [OF ex, of True ch w]
  have r: "apply_config s = (Inr (), s\<lparr>lc_logging := ?w'\<rparr>)"
    using w(1) by (simp add: apply_config_def on_logging_def dictConfig_def run to_dict_config_def)
  have "the_logger ?w' n = effective ?c d" if d: "known n s = Some d" for n d
  proof -
    have "(n, logger_config_of (default_level ?c) d) \<in> set ?cs" using map_of_SomeD [OF d [unfolded known_def]] by force
    moreover have "n \<notin> set ex" using w(5) calculation by force
    ultimately show ?thesis using w(2) by (simp add: after effective_def)
  qed
  moreover have "the_logger ?w' m = (let g = the_logger ?w m in
        if \<exists>n. known n s \<noteq> None \<and> n \<in> set ?ex \<and> take (length n + 1) m = n @ ''.''
        then g\<lparr>lg_level := 0, lg_handlers := [], lg_propagate := True\<rparr> else g\<lparr>lg_disabled := True\<rparr>)"
    if m: "is_logger ?w m" "known m s = None" for m
  proof -
    have kn: "n \<in> set (dict_keys ?ks) \<longleftrightarrow> known n s \<noteq> None" for n by (simp add: known_def map_of_eq_None_iff)
    have k: "m \<notin> set (dict_keys ?ks)" using m(2) by (simp add: known_def map_of_eq_None_iff)
    have "m \<in> set ?ex" using m(1) by (force simp: is_logger_def dest: map_of_SomeD)
    then have e: "m \<in> set ex" using k w(5) unfolding fsts by simp
    have "is_logger w m" using w(4) m(1) by simp
    moreover have "the_logger w m = the_logger ?w m"
      using w(3) [rule_format, of m] k m(1) unfolding fsts by (force simp: same_logger_def is_logger_def)
    moreover have "m \<in> set ch \<longleftrightarrow> (\<exists>n. known n s \<noteq> None \<and> n \<in> set ?ex \<and> take (length n + 1) m = n @ ''.'')"
      using bspec [OF w(7) e] unfolding fsts Bex_def Int_iff kn by simp
    ultimately show ?thesis using e by (simp add: after)
  qed
  ultimately show ?thesis using r by blast
qed

section \<open>Properties of the controller\<close>

text \<open>C35. The context manager gives everything back. On a controller with at least one logger and a silence level it accepts, entering
  succeeds, sets every known logger that is not kept active to the silence level and leaves the others as they were. Whatever sequence of
  operations the block then performs (levels, default level, new loggers, reconfigurations, failing ones included, but no second context manager on
  the same controller), leaving succeeds,
  and every logger known before has the level and the definition (custom level, handlers) it had.\<close>

theorem temporary_levels_restored:
  assumes "dict_ok (known_loggers (lc_self s))" and "known_loggers (lc_self s) \<noteq> []"
    and "convert_level (silence_level t) = Inr (i, u)"
  shows "\<exists>a. temp_enter t s = (Inr (), a) \<and>
     (\<forall>n. known n s \<noteq> None \<and> n \<notin> set (keep_active t) \<longrightarrow> lg_level (the_logger (lc_logging a) n) = i) \<and>
     (\<forall>n \<in> set (keep_active t). \<not> is_root n \<longrightarrow> lg_level (the_logger (lc_logging a) n) = lg_level (the_logger (lc_logging s) n)) \<and>
     (\<forall>ops. \<exists>e. temp_exit (run_ops ops a) = (Inr (), e) \<and> (\<forall>n d. known n s = Some d \<longrightarrow>
        lg_level (the_logger (lc_logging e) n) = lg_level (the_logger (lc_logging s) n) \<and> known n e = Some d))"
proof -
  have keys: "n \<in> set (dict_keys (known_loggers (lc_self s))) \<longleftrightarrow> known n s \<noteq> None" for n
    by (simp add: known_def map_of_eq_None_iff)
  obtain a w where a: "temp_enter t s = (Inr (), a)"
     "\<forall>m. level_in (lc_logging a) m = (if \<exists>n \<in> set (dict_keys (known_loggers (lc_self s))) - set (keep_active t). same_logger n m
        then i else level_in (lc_logging s) m)"
     "lc_kept (s\<lparr>lc_logging := w, lc_self := snapshot_of (lc_logging s) (known_loggers (lc_self s)) (lc_self s)\<rparr>) a"
    using enter_run [OF assms(1,3)] by blast
  have "level_in (lc_logging a) n = i" if "known n s \<noteq> None" "n \<notin> set (keep_active t)" for n
    using a(2) keys [of n] that same_logger_refl [of n] by (metis DiffI)
  moreover have "level_in (lc_logging a) n = level_in (lc_logging s) n" if "n \<in> set (keep_active t)" "\<not> is_root n" for n
    using a(2) that by (auto simp: same_logger_def)
  moreover have "\<exists>e. temp_exit (run_ops ops a) = (Inr (), e) \<and> (\<forall>n d. known n s = Some d \<longrightarrow>
        level_in (lc_logging e) n = level_in (lc_logging s) n \<and> known n e = Some d)" for ops
    by (rule exit_run [OF assms(1,2) kept.rel_trans [OF a(3) kept_run_ops]])
  ultimately show ?thesis using a(1) by blast
qed

definition example_controller :: LogController where
  "example_controller = clear_saved (initial_controller ''ERROR'')"

lemma example_controller_valid: "controller_valid example_controller"
  by code_simp

lemma initial_loggers_known: "known_loggers example_controller = initial_loggers"
  by (simp add: example_controller_def clear_saved_def initial_controller_def)

theorem temporary_levels_restored_witness:
  "\<exists>a e. temp_enter \<lparr>keep_active = [''Deck''], silence_level = LevelName ''critical''\<rparr> \<lparr>lc_logging = fresh_logging, lc_self = example_controller\<rparr> = (Inr (), a) \<and>
     lg_level (the_logger (lc_logging a) ''Leader'') = 50 \<and>
     temp_exit (run_ops [Op_default (LevelName ''debug'') False, Op_add ''Leader.x'' '''' (Some (LevelInt 5))] a) = (Inr (), e) \<and>
     lg_level (the_logger (lc_logging e) ''Leader'') = 0"
proof -
  let ?s = "\<lparr>lc_logging = fresh_logging, lc_self = example_controller\<rparr>"
  let ?t = "\<lparr>keep_active = [''Deck''], silence_level = LevelName ''critical''\<rparr>"
  have k: "dict_ok (known_loggers (lc_self ?s))" "known_loggers (lc_self ?s) \<noteq> []"
    "convert_level (silence_level ?t) = Inr (50, ''CRITICAL'')" by code_simp+
  have n: "known ''Leader'' ?s = Some (new_LoggerDef ''Leader'' ''Leader role'')" "''Leader'' \<notin> set (keep_active ?t)"
    "lg_level (the_logger (lc_logging ?s) ''Leader'') = 0" by code_simp+
  obtain a where a: "temp_enter ?t ?s = (Inr (), a)"
     "\<forall>n. known n ?s \<noteq> None \<and> n \<notin> set (keep_active ?t) \<longrightarrow> lg_level (the_logger (lc_logging a) n) = 50"
     "\<forall>ops. \<exists>e. temp_exit (run_ops ops a) = (Inr (), e) \<and> (\<forall>n d. known n ?s = Some d \<longrightarrow>
        lg_level (the_logger (lc_logging e) n) = lg_level (the_logger (lc_logging ?s) n) \<and> known n e = Some d)"
    using temporary_levels_restored [OF k] by - (elim exE conjE, rule that)
  then obtain e where "temp_exit (run_ops [Op_default (LevelName ''debug'') False, Op_add ''Leader.x'' '''' (Some (LevelInt 5))] a) = (Inr (), e)"
     "\<forall>n d. known n ?s = Some d \<longrightarrow> lg_level (the_logger (lc_logging e) n) = lg_level (the_logger (lc_logging ?s) n) \<and> known n e = Some d"
    by blast
  then show ?thesis using a(1,2) n by (intro exI [of _ a] exI [of _ e]) auto
qed

text \<open>Applying a configuration makes the loggers what the definitions say. For a controller whose levels and handlers exist, every known
  logger gets its custom level, or else the default level, exactly the handlers of its definition, its propagation flag, and is enabled;
  every other logger of the process is disabled, unless it is a child of a known logger that exists already: that one is reset to inherit
  from its parent. The controller does not change.\<close>

theorem apply_config_sets_loggers:
  assumes "logging_ok (lc_logging s)" and "controller_valid (lc_self s)"
  shows "\<exists>w. apply_config s = (Inr (), s\<lparr>lc_logging := w\<rparr>) \<and>
     (\<forall>n d. known n s = Some d \<longrightarrow> the_logger w n = \<lparr>lg_level = the (std_level (case custom_level d of Some l \<Rightarrow> l | None \<Rightarrow> default_level (lc_self s))),
        lg_handlers = handler_names d, lg_propagate = ld_propagate d, lg_disabled = False\<rparr>) \<and>
     (\<forall>m. is_logger (lc_logging s) m \<and> known m s = None \<longrightarrow> the_logger w m = (let g = the_logger (lc_logging s) m in
        if \<exists>n. known n s \<noteq> None \<and> n \<in> set (dict_keys (logger_dict (lc_logging s))) \<and> take (length n + 1) m = n @ ''.''
        then g\<lparr>lg_level := 0, lg_handlers := [], lg_propagate := True\<rparr> else g\<lparr>lg_disabled := True\<rparr>))"
  using apply_config_run [OF assms] by (simp add: effective_def configured_def logger_config_of_def)

lemma logging_ok_fresh: "logging_ok fresh_logging"
  by code_simp

theorem apply_config_sets_loggers_witness:
  "\<exists>w. apply_config \<lparr>lc_logging = fresh_logging, lc_self = example_controller\<rparr> = (Inr (), \<lparr>lc_logging = w, lc_self = example_controller\<rparr>) \<and>
     lg_level (the_logger w ''HybridLog'') = 40"
proof -
  let ?s = "\<lparr>lc_logging = fresh_logging, lc_self = example_controller\<rparr>"
  have s: "logging_ok (lc_logging ?s)" "controller_valid (lc_self ?s)"
    by (simp_all add: logging_ok_fresh example_controller_valid)
  obtain w where w: "apply_config ?s = (Inr (), ?s\<lparr>lc_logging := w\<rparr>)"
    "\<forall>n d. known n ?s = Some d \<longrightarrow> the_logger w n = \<lparr>lg_level = the (std_level (case custom_level d of Some l \<Rightarrow> l | None \<Rightarrow> default_level (lc_self ?s))),
        lg_handlers = handler_names d, lg_propagate = ld_propagate d, lg_disabled = False\<rparr>"
    using apply_config_sets_loggers [OF s] by blast
  have "known ''HybridLog'' ?s = Some (new_LoggerDef ''HybridLog'' '''')" "default_level (lc_self ?s) = ''ERROR''"
    "std_level ''ERROR'' = Some 40" by code_simp+
  then show ?thesis using w by (intro exI [of _ w]) (simp add: new_LoggerDef_def)
qed

text \<open>The convenience constructor does not leave the levels alone. \<open>create_temporary_log_control\<close> builds a temporary controller, whose
  constructor applies its own configuration to the process: every built-in logger is set to ERROR, whatever the permanent controller
  had set, and every other logger is disabled, children of built-in ones apart. A block run with it therefore ends with the
  built-in loggers at ERROR, not at the levels before the call.\<close>

theorem temporary_controller_resets:
  assumes "logging_ok (cls_logging k)"
  shows "\<exists>c t k'. create_temporary_log_control keep None k = (Inr (c, t), k') \<and> cls_controller k' = cls_controller k \<and>
     (\<forall>n \<in> fst ` set initial_loggers. lg_level (the_logger (cls_logging k') n) = 40) \<and>
     (\<forall>m. is_logger (cls_logging k) m \<and> m \<notin> fst ` set initial_loggers \<and>
        (\<forall>n \<in> fst ` set initial_loggers. take (length n + 1) m \<noteq> n @ ''.'') \<longrightarrow> lg_disabled (the_logger (cls_logging k') m)) \<and>
     (\<exists>a. temp_enter t \<lparr>lc_logging = cls_logging k', lc_self = c\<rparr> = (Inr (), a) \<and>
        (\<forall>ops. \<exists>e. temp_exit (run_ops ops a) = (Inr (), e) \<and>
           (\<forall>n \<in> fst ` set initial_loggers. lg_level (the_logger (lc_logging e) n) = 40)))"
proof -
  let ?c = example_controller
  let ?s = "\<lparr>lc_logging = cls_logging k, lc_self = ?c\<rparr>"
  have i: "init_body [] \<lparr>lc_logging = cls_logging k, lc_self = initial_controller ''ERROR''\<rparr> = apply_config ?s"
    by (simp add: init_body_def run example_controller_def)
  have s: "logging_ok (lc_logging ?s)" "controller_valid (lc_self ?s)" using assms example_controller_valid by simp_all
  obtain w where w: "apply_config ?s = (Inr (), ?s\<lparr>lc_logging := w\<rparr>)"
     "\<forall>n d. known n ?s = Some d \<longrightarrow> the_logger w n = effective (lc_self ?s) d"
     "\<forall>m. is_logger (lc_logging ?s) m \<and> known m ?s = None \<longrightarrow> the_logger w m = (let g = the_logger (lc_logging ?s) m in
        if \<exists>n. known n ?s \<noteq> None \<and> n \<in> set (dict_keys (logger_dict (lc_logging ?s))) \<and> take (length n + 1) m = n @ ''.''
        then g\<lparr>lg_level := 0, lg_handlers := [], lg_propagate := True\<rparr> else g\<lparr>lg_disabled := True\<rparr>)"
    using apply_config_run [OF s] by - (elim exE conjE, rule that)
  let ?t = "new_TemporaryLogControl ?c keep None" and ?k = "\<lparr>cls_logging = w, cls_controller = cls_controller k\<rparr>"
  let ?a = "\<lparr>lc_logging = w, lc_self = ?c\<rparr>"
  have run: "create_temporary_log_control keep None k = (Inr (?c, ?t), ?k)"
    using w(1) i by (simp add: create_temporary_log_control_def init_LogController_def run)
  have defs: "custom_level d = None" if "(n, d) \<in> set initial_loggers" for n d
    using that by (auto simp: initial_loggers_def new_LoggerDef_def)
  have ok: "dict_ok (known_loggers (lc_self ?a))" "known_loggers (lc_self ?a) \<noteq> []"
    "convert_level (silence_level ?t) = Inr (40, ''ERROR'')" by code_simp+
  have e: "\<exists>d. known n s = Some d \<and> custom_level d = None" if "n \<in> fst ` set initial_loggers" "lc_self s = ?c" for n s
    using that defs unfolding known_def initial_loggers_known [symmetric] by (auto simp: ok(1) [simplified])
  have lv: "lg_level (the_logger w n) = 40" if n: "n \<in> fst ` set initial_loggers" for n
  proof -
    have "default_level ?c = ''ERROR''" "std_level ''ERROR'' = Some 40" by code_simp+
    then show ?thesis using e [OF n, of ?s] w(2) by (auto simp: effective_def configured_def logger_config_of_def)
  qed
  moreover have "lg_disabled (the_logger w m)" if m: "is_logger (cls_logging k) m" "m \<notin> fst ` set initial_loggers"
      "\<forall>n \<in> fst ` set initial_loggers. take (length n + 1) m \<noteq> n @ ''.''" for m
  proof -
    have "known m ?s = None" using m(2) by (simp add: known_def initial_loggers_known map_of_eq_None_iff)
    moreover have "n \<in> fst ` set initial_loggers" if "known n ?s \<noteq> None" for n
      using that by (simp add: known_def initial_loggers_known map_of_eq_None_iff)
    then have "\<not> (\<exists>n. known n ?s \<noteq> None \<and> n \<in> set (dict_keys (logger_dict (lc_logging ?s))) \<and> take (length n + 1) m = n @ ''.'')"
      using m(3) by blast
    ultimately show ?thesis using w(3) [rule_format, of m] m(1) by (auto simp: Let_def)
  qed
  moreover obtain a v where a: "temp_enter ?t ?a = (Inr (), a)"
      "lc_kept (?a\<lparr>lc_logging := v, lc_self := snapshot_of (lc_logging ?a) (known_loggers (lc_self ?a)) (lc_self ?a)\<rparr>) a"
    using enter_run [OF ok(1,3)] by blast
  moreover have "\<exists>e. temp_exit (run_ops ops a) = (Inr (), e) \<and> (\<forall>n \<in> fst ` set initial_loggers. lg_level (the_logger (lc_logging e) n) = 40)" for ops
    using exit_run [OF ok(1,2) kept.rel_trans [OF a(2) kept_run_ops], of ops] e [of _ ?a] lv by fastforce
  ultimately show ?thesis using run by (intro exI [of _ ?c] exI [of _ ?t] exI [of _ ?k]) auto
qed

theorem temporary_controller_resets_witness:
  "\<exists>c t k'. create_temporary_log_control None None \<lparr>cls_logging = fresh_logging, cls_controller = None\<rparr> = (Inr (c, t), k') \<and>
     lg_level (the_logger (cls_logging k') ''Leader'') = 40"
proof -
  let ?k = "\<lparr>cls_logging = fresh_logging, cls_controller = None\<rparr>"
  have "logging_ok (cls_logging ?k)" by (simp add: logging_ok_fresh)
  moreover have "''Leader'' \<in> fst ` set initial_loggers" by code_simp
  ultimately show ?thesis using temporary_controller_resets [of ?k None] by blast
qed

section \<open>Failures\<close>

text \<open>Leaving twice, as two nested uses of one controller do, raises and restores nothing.\<close>

lemma second_exit_raises:
  assumes "temp_exit s = (Inr (), e)"
  shows "temp_exit e = (Inl RuntimeError, e)"
proof -
  obtain ls where "saved_levels (lc_self s) = Some ls" using assms
    by (cases "saved_levels (lc_self s)") (simp_all add: temp_exit_def restore_saved_levels_def run)
  with assms show ?thesis
    by (auto simp: temp_exit_def restore_saved_levels_def run clear_saved_def split: if_splits prod.splits sum.splits)
qed

text \<open>A constructor that fails on its default level has already become the controller of the class, and a second one is refused.\<close>

lemma failed_constructor_stays:
  assumes "cls_controller k = None" and "init_LogController add dl False k = (Inl e, k')"
  shows "\<exists>c. get_controller k' = (Inr c, k') \<and> (\<exists>e'. init_LogController add' dl' False k' = (Inl e', k'))"
  using assms by (auto simp: init_LogController_def get_controller_def run split: prod.splits sum.splits)

lemma bad_default_level:
  "\<exists>k'. init_LogController [] ''verbose'' False \<lparr>cls_logging = fresh_logging, cls_controller = None\<rparr> = (Inl ValueError, k')"
  by (rule exI) code_simp

end
