(* ===== verification/Astream_Rpc.thy ===== *)
theory Astream_Rpc
  imports Py_Text Api_Types
begin

text \<open>
  The RPC transport on byte streams, \<open>extras/astream_rpc\<close>: frames with a length of 20 characters, the server's connections with
  one task per request, and the client with its pending futures. A method runs without interruption from one \<open>await\<close> that blocks to the
  next: each definition is such a stretch, the state says where a coroutine waits. What the network and the tasks of the application
  do between two stretches (bytes that arrive, a call of the raft server that returns) are arguments.

  \<open>json.dumps(...).encode()\<close>, \<open>json.loads(data.decode())\<close>, \<open>traceback.format_exc()\<close> and the text of a value in a message are
  parameters, the record \<open>wire\<close>. The length field is read by \<open>int\<close> on its ASCII text: other bytes are taken as invalid.
\<close>

section \<open>Frames and streams\<close>

type_synonym bytes = string

record wire =
  dumps :: "json \<Rightarrow> bytes"
  loads :: "bytes \<Rightarrow> exn + json"
  trace_text :: "exn \<Rightarrow> string"
  show_json :: "json \<Rightarrow> string"
  show_exn :: "exn \<Rightarrow> string"

definition frame :: "bytes \<Rightarrow> bytes" where
  "frame d = ljust 20 (string_of_nat (length d)) @ d"

text \<open>asyncio's \<open>StreamReader\<close>: the bytes that have arrived and were not read, the end of the stream, an exception of the transport.
  \<open>read(n)\<close> raises that exception, returns what is there, at most \<open>n\<close> bytes, waits when nothing is there, and reads to the end of the stream
  for a negative \<open>n\<close>.\<close>

record stream =
  sr_buf :: bytes
  sr_eof :: bool
  sr_exn :: "exn option"

definition new_stream :: stream where
  "new_stream = \<lparr>sr_buf = [], sr_eof = False, sr_exn = None\<rparr>"

datatype read_result = ReadBlocks | ReadRaises exn | ReadData bytes stream

definition stream_read :: "int \<Rightarrow> stream \<Rightarrow> read_result" where
  "stream_read n st = (case sr_exn st of Some e \<Rightarrow> ReadRaises e | None \<Rightarrow>
     if n = 0 then ReadData [] st
     else if n < 0 then (if sr_eof st then ReadData (sr_buf st) (st\<lparr>sr_buf := []\<rparr>) else ReadBlocks)
     else if sr_buf st = [] then (if sr_eof st then ReadData [] st else ReadBlocks)
     else ReadData (take (nat n) (sr_buf st)) (st\<lparr>sr_buf := drop (nat n) (sr_buf st)\<rparr>))"

definition stream_feed :: "bytes \<Rightarrow> stream \<Rightarrow> stream" where
  "stream_feed d st = st\<lparr>sr_buf := sr_buf st @ d\<rparr>"

text \<open>Where a reading loop is: at its condition, in one of its two reads, or ended.\<close>

datatype phase = LoopTop | AwaitLength | AwaitData int | Finished

text \<open>What the two reads of one round end with: they wait, the stream has ended, something is raised, or a message was read.\<close>

datatype turn = Waits phase stream | Closed stream | Raises exn stream | Message json stream

definition read_data :: "wire \<Rightarrow> int \<Rightarrow> stream \<Rightarrow> turn" where
  "read_data W n st = (case stream_read n st of
       ReadBlocks \<Rightarrow> Waits (AwaitData n) st
     | ReadRaises e \<Rightarrow> Raises e st
     | ReadData d st' \<Rightarrow> if d = [] then Closed st'
         else (case loads W d of Inl e \<Rightarrow> Raises e st' | Inr j \<Rightarrow> Message j st'))"

definition read_length :: "wire \<Rightarrow> stream \<Rightarrow> turn" where
  "read_length W st = (case stream_read 20 st of
       ReadBlocks \<Rightarrow> Waits AwaitLength st
     | ReadRaises e \<Rightarrow> Raises e st
     | ReadData d st' \<Rightarrow> if d = [] then Closed st'
         else (case int_of_text d of Inl e \<Rightarrow> Raises e st' | Inr n \<Rightarrow> read_data W n st'))"

definition read_round :: "wire \<Rightarrow> phase \<Rightarrow> stream \<Rightarrow> turn" where
  "read_round W p st = (case p of AwaitData n \<Rightarrow> read_data W n st | _ \<Rightarrow> read_length W st)"

text \<open>A round that reads a message consumes bytes: the loops end or wait.\<close>

lemma read_data_shrinks: "read_data W n st = Message j st' \<Longrightarrow> length (sr_buf st') < length (sr_buf st)"
  by (auto simp: read_data_def stream_read_def split: option.splits if_splits sum.splits)

lemma read_length_shrinks: "read_length W st = Message j st' \<Longrightarrow> length (sr_buf st') < length (sr_buf st)"
proof -
  assume m: "read_length W st = Message j st'"
  then obtain d st1 where d: "stream_read 20 st = ReadData d st1" "d \<noteq> []"
    by (auto simp: read_length_def split: read_result.splits if_splits)
  then obtain n where "read_data W n st1 = Message j st'" using m
    by (auto simp: read_length_def split: sum.splits)
  moreover have "length (sr_buf st1) \<le> length (sr_buf st)"
    using d by (auto simp: stream_read_def split: option.splits if_splits)
  ultimately show ?thesis using read_data_shrinks by fastforce
qed

lemma read_round_shrinks: "read_round W p st = Message j st' \<Longrightarrow> length (sr_buf st') < length (sr_buf st)"
  by (auto simp: read_round_def read_data_shrinks read_length_shrinks split: phase.splits)

section \<open>The server's connections\<close>

text \<open>A call of the raft server, with the arguments the transport passes.\<close>

datatype raft_call = Issue_command json json | Direct_server_command json | Raft_message json

record request_task =
  tk_request :: "(string \<times> json) list"
  tk_id :: json
  tk_started :: bool

text \<open>\<open>cf_out\<close> are the bytes written to the client, \<open>cf_calls\<close> the calls of the raft server that were made, \<open>cf_raised\<close> what
  \<open>run\<close> raised. A task is known by a number.\<close>

record ClientFollower =
  cf_stream :: stream
  cf_phase :: phase
  cf_tasks :: "(nat \<times> request_task) list"
  cf_next :: nat
  cf_out :: bytes
  cf_calls :: "raft_call list"
  cf_broken :: bool
  cf_writer_closed :: bool
  cf_raised :: "exn option"

definition new_ClientFollower :: ClientFollower where
  "new_ClientFollower = \<lparr>cf_stream = new_stream, cf_phase = LoopTop, cf_tasks = [], cf_next = 0, cf_out = [], cf_calls = [],
     cf_broken = False, cf_writer_closed = False, cf_raised = None\<rparr>"

text \<open>\<open>d.get(k)\<close>: \<open>None\<close> for a key that is missing.\<close>

definition get_or_null :: "string \<Rightarrow> (string \<times> json) list \<Rightarrow> json" where
  "get_or_null k d = (case dict_get d k of None \<Rightarrow> JNull | Some v \<Rightarrow> v)"

text \<open>\<open>drained\<close> says that \<open>drain()\<close> does not raise.\<close>

definition write_response :: "wire \<Rightarrow> bool \<Rightarrow> (string \<times> json) list \<Rightarrow> ClientFollower \<Rightarrow> ClientFollower" where
  "write_response W drained r c = c\<lparr>cf_out := cf_out c @ frame (dumps W (JObj r)), cf_broken := (cf_broken c \<or> \<not> drained)\<rparr>"

definition cleanup_task :: "nat \<Rightarrow> ClientFollower \<Rightarrow> ClientFollower" where
  "cleanup_task k c = c\<lparr>cf_tasks := dict_del k (cf_tasks c)\<rparr>"

text \<open>The end of \<open>process_request\<close>: a result is sent with the id of the request, an exception is reported and breaks the connection.\<close>

definition answer_request :: "wire \<Rightarrow> bool \<Rightarrow> nat \<Rightarrow> json \<Rightarrow> exn + json \<Rightarrow> ClientFollower \<Rightarrow> ClientFollower" where
  "answer_request W drained k rid r c = cleanup_task k (case r of
       Inr v \<Rightarrow> write_response W drained [(''result'', JStr (Dumps v)), (''request_id'', rid)] c
     | Inl e \<Rightarrow> (write_response W drained [(''result'', JNull), (''error'', str_json (trace_text W e)), (''request_id'', rid)] c)
         \<lparr>cf_broken := True\<rparr>)"

text \<open>The first stretch of a task: up to the call of the raft server, or to the end when there is nothing to wait for. \<open>wait\<close> is
  \<open>rm_wait_for_result\<close>.\<close>

definition start_task :: "wire \<Rightarrow> bool \<Rightarrow> bool \<Rightarrow> nat \<Rightarrow> ClientFollower \<Rightarrow> ClientFollower" where
  "start_task W wait drained k c = (case dict_get (cf_tasks c) k of None \<Rightarrow> c | Some t \<Rightarrow> if tk_started t then c else
     let mtype = get_or_null ''mtype'' (tk_request t); message = get_or_null ''message'' (tk_request t);
         timeout = (case dict_get (tk_request t) ''timeout'' of None \<Rightarrow> JFloat 10 | Some v \<Rightarrow> v);
         call = (\<lambda>f. c\<lparr>cf_calls := cf_calls c @ [f], cf_tasks := dict_set k (t\<lparr>tk_started := True\<rparr>) (cf_tasks c)\<rparr>)
     in if mtype = str_json ''command'' then call (Issue_command message timeout)
        else if mtype = str_json ''direct_server_command'' then call (Direct_server_command message)
        else if mtype = str_json ''raft_message'' then
          (if wait then call (Raft_message message)
           else answer_request W drained k (tk_id t) (Inr (JObj [(''result'', JNull)])) (call (Raft_message message)))
        else answer_request W drained k (tk_id t)
          (Inr (JObj [(''result'', JNull), (''error'', str_json (''Unknown message type: '' @ show_json W mtype))])) c)"

text \<open>The second stretch: the raft server has returned or raised.\<close>

definition finish_task :: "wire \<Rightarrow> bool \<Rightarrow> nat \<Rightarrow> exn + json \<Rightarrow> ClientFollower \<Rightarrow> ClientFollower" where
  "finish_task W drained k r c = (case dict_get (cf_tasks c) k of None \<Rightarrow> c | Some t \<Rightarrow> if \<not> tk_started t then c else
     answer_request W drained k (tk_id t)
       (case r of Inl e \<Rightarrow> Inl e
        | Inr v \<Rightarrow> Inr (if get_or_null ''mtype'' (tk_request t) = str_json ''raft_message'' then JObj [(''result'', v)] else v)) c)"

text \<open>Cancelled tasks end without an answer.\<close>

definition cleanup :: "ClientFollower \<Rightarrow> ClientFollower" where
  "cleanup c = c\<lparr>cf_tasks := [], cf_writer_closed := True\<rparr>"

definition end_run :: "exn option \<Rightarrow> ClientFollower \<Rightarrow> ClientFollower" where
  "end_run e c = (cleanup c)\<lparr>cf_phase := Finished,
     cf_raised := (case e of Some (ConnectionError _) \<Rightarrow> None | _ \<Rightarrow> e)\<rparr>"

definition spawn :: "(string \<times> json) list \<Rightarrow> ClientFollower \<Rightarrow> ClientFollower" where
  "spawn r c = c\<lparr>cf_phase := LoopTop, cf_next := Suc (cf_next c),
     cf_tasks := cf_tasks c @ [(cf_next c, \<lparr>tk_request = r, tk_id = get_or_null ''request_id'' r, tk_started = False\<rparr>)]\<rparr>"

text \<open>The loop of \<open>run\<close>, until it waits or ends. \<open>shut\<close> is the server's shutdown event.\<close>

function follower_run :: "wire \<Rightarrow> bool \<Rightarrow> ClientFollower \<Rightarrow> ClientFollower" where
  "follower_run W shut c = (case cf_phase c of
       Finished \<Rightarrow> c
     | LoopTop \<Rightarrow> if shut \<or> cf_broken c then end_run None c else follower_run W shut (c\<lparr>cf_phase := AwaitLength\<rparr>)
     | p \<Rightarrow> (case read_round W p (cf_stream c) of
         Waits p' st \<Rightarrow> c\<lparr>cf_phase := p', cf_stream := st\<rparr>
       | Closed st \<Rightarrow> end_run None (c\<lparr>cf_stream := st\<rparr>)
       | Raises e st \<Rightarrow> end_run (Some e) (c\<lparr>cf_stream := st\<rparr>)
       | Message j st \<Rightarrow> (case j of
           JObj r \<Rightarrow> follower_run W shut (spawn r (c\<lparr>cf_stream := st\<rparr>))
         | _ \<Rightarrow> end_run (Some AttributeError) (c\<lparr>cf_stream := st\<rparr>))))"
  by auto
termination
  by (relation "measures [\<lambda>(W, s, c). length (sr_buf (cf_stream c)), \<lambda>(W, s, c). if cf_phase c = LoopTop then 1 else 0]")
    (auto simp: spawn_def dest!: read_round_shrinks)

declare follower_run.simps [simp del]

section \<open>The server\<close>

text \<open>\<open>rs_followers\<close> are all connections whose coroutine was started, \<open>active_connections\<close> those of them the server tracks.\<close>

record RPCServer =
  rm_wait_for_result :: bool
  rs_followers :: "(nat \<times> ClientFollower) list"
  active_connections :: "nat list"
  shutdown_event :: bool
  rs_port :: "int option"
  server_task :: bool
  sock_server :: bool

definition new_RPCServer :: "bool \<Rightarrow> RPCServer" where
  "new_RPCServer wait = \<lparr>rm_wait_for_result = wait, rs_followers = [], active_connections = [], shutdown_event = False, rs_port = None,
     server_task = False, sock_server = False\<rparr>"

definition server_start :: "int \<Rightarrow> RPCServer \<Rightarrow> RPCServer" where
  "server_start p v = (if sock_server v then v else v\<lparr>rs_port := Some p, sock_server := True, server_task := True\<rparr>)"

text \<open>A stretch of a connection: its state changes, and when its \<open>run\<close> has ended the server forgets it.\<close>

definition on_connection :: "nat \<Rightarrow> (ClientFollower \<Rightarrow> ClientFollower) \<Rightarrow> RPCServer \<Rightarrow> RPCServer" where
  "on_connection i f v = (case dict_get (rs_followers v) i of None \<Rightarrow> v | Some c \<Rightarrow>
     v\<lparr>rs_followers := dict_set i (f c) (rs_followers v),
       active_connections := (if cf_phase (f c) = Finished then removeAll i (active_connections v) else active_connections v)\<rparr>)"

definition handle_client :: "wire \<Rightarrow> nat \<Rightarrow> RPCServer \<Rightarrow> RPCServer" where
  "handle_client W i v = on_connection i (follower_run W (shutdown_event v))
     (v\<lparr>rs_followers := dict_set i new_ClientFollower (rs_followers v), active_connections := active_connections v @ [i]\<rparr>)"

definition server_receive :: "wire \<Rightarrow> nat \<Rightarrow> bytes \<Rightarrow> RPCServer \<Rightarrow> RPCServer" where
  "server_receive W i d v =
     on_connection i (\<lambda>c. follower_run W (shutdown_event v) (c\<lparr>cf_stream := stream_feed d (cf_stream c)\<rparr>)) v"

definition shutdown :: "RPCServer \<Rightarrow> RPCServer" where
  "shutdown v = v\<lparr>shutdown_event := True,
     rs_followers := map (\<lambda>(i, c). (i, if i \<in> set (active_connections v) then cleanup c else c)) (rs_followers v),
     active_connections := []\<rparr>"

text \<open>\<open>serve\<close> when its task is cancelled, and \<open>stop\<close>.\<close>

definition serve_cancelled :: "RPCServer \<Rightarrow> RPCServer" where
  "serve_cancelled v = v\<lparr>sock_server := False, server_task := False\<rparr>"

definition server_stop :: "RPCServer \<Rightarrow> RPCServer" where
  "server_stop v = (let v1 = (if server_task v then (serve_cancelled (shutdown v))\<lparr>server_task := False\<rparr> else v)
     in if sock_server v1 then v1\<lparr>sock_server := False\<rparr> else v1)"

section \<open>The client\<close>

datatype future = Pending | Resolved json | Failed exn | Cancelled

text \<open>\<open>rc_stream\<close> is the open connection (\<open>reader\<close> and \<open>writer\<close> are set and cleared together), \<open>rc_out\<close> the bytes written on it,
  \<open>rc_handler\<close> where the task of \<open>response_handler\<close> is. Futures are known by a number; the callers hold them after they have left
  \<open>pending_requests\<close>.\<close>

record RPCClient =
  rc_stream :: "stream option"
  rc_out :: bytes
  rc_handler :: "phase option"
  rc_closed :: bool
  pending_requests :: "(string \<times> nat) list"
  rc_futures :: "(nat \<times> future) list"
  rc_next :: nat

definition new_RPCClient :: RPCClient where
  "new_RPCClient = \<lparr>rc_stream = None, rc_out = [], rc_handler = None, rc_closed = False, pending_requests = [], rc_futures = [], rc_next = 0\<rparr>"

text \<open>\<open>ensure_connection\<close>; \<open>ok\<close> says that \<open>open_connection\<close> succeeds. Calls that overlap while the connection is being opened are not
  distinguished from calls that follow each other.\<close>

definition ensure_connection :: "bool \<Rightarrow> (RPCClient, unit) eff" where
  "ensure_connection ok = bindE (getsE rc_stream) (\<lambda>st. whenE (st = None)
     (if ok then modE (\<lambda>c. c\<lparr>rc_stream := Some new_stream, rc_out := [], rc_handler := Some LoopTop\<rparr>)
      else throw (ConnectionError ''connect'')))"

text \<open>\<open>rid\<close> is the new \<open>uuid4\<close>; the result is the id.\<close>

definition send_request :: "wire \<Rightarrow> bool \<Rightarrow> bool \<Rightarrow> string \<Rightarrow> (string \<times> json) list \<Rightarrow> (RPCClient, string) eff" where
  "send_request W ok drained rid msg =
     seqE (ensure_connection ok)
    (seqE (modE (\<lambda>c. c\<lparr>rc_futures := dict_set (rc_next c) Pending (rc_futures c), pending_requests := dict_set rid (rc_next c) (pending_requests c),
        rc_next := Suc (rc_next c), rc_out := rc_out c @ frame (dumps W (JObj (dict_set ''request_id'' (str_json rid) msg)))\<rparr>))
     (if drained then ret rid else throw (ConnectionError ''drain'')))"

text \<open>\<open>wait_for_response\<close>: it takes the future, and then either the future is done, or the time is over.\<close>

definition take_future :: "string \<Rightarrow> (RPCClient, nat) eff" where
  "take_future rid = bindE (getsE (\<lambda>c. dict_get (pending_requests c) rid)) (some_or KeyError)"

fun future_result :: "future \<Rightarrow> (exn + json) option" where
  "future_result Pending = None"
| "future_result (Resolved j) = Some (Inr j)"
| "future_result (Failed e) = Some (Inl e)"
| "future_result Cancelled = Some (Inl TimeoutError)"

definition response_timeout :: "string \<Rightarrow> nat \<Rightarrow> (RPCClient, json) eff" where
  "response_timeout rid k = seqE (modE (\<lambda>c. c\<lparr>rc_futures := dict_set k Cancelled (rc_futures c), pending_requests := dict_del rid (pending_requests c)\<rparr>))
     (throw TimeoutError)"

text \<open>The requests of the three calls and what they make of a result.\<close>

definition command_request :: "json \<Rightarrow> rat \<Rightarrow> (string \<times> json) list" where
  "command_request cmd timeout = [(''mtype'', str_json ''command''), (''message'', cmd), (''timeout'', JFloat timeout)]"

definition message_request :: "json \<Rightarrow> (string \<times> json) list" where
  "message_request message = [(''mtype'', str_json ''raft_message''), (''message'', message)]"

definition direct_request :: "json \<Rightarrow> (string \<times> json) list" where
  "direct_request cmd = [(''mtype'', str_json ''direct_server_command''), (''message'', cmd)]"

fun loads_result :: "json \<Rightarrow> exn + json" where
  "loads_result (JStr p) = json_loads p"
| "loads_result _ = Inl TypeError"

definition message_result :: "json \<Rightarrow> exn + json" where
  "message_result r = (case loads_result r of Inl e \<Rightarrow> Inl e
     | Inr (JObj d) \<Rightarrow> (case dict_get d ''result'' of None \<Rightarrow> Inl KeyError | Some v \<Rightarrow> Inr v)
     | Inr _ \<Rightarrow> Inl TypeError)"

definition clear_pendings :: "string \<Rightarrow> RPCClient \<Rightarrow> RPCClient" where
  "clear_pendings reason c = c\<lparr>rc_futures := map (\<lambda>(k, f). (k, if f = Pending \<and> k \<in> snd ` set (pending_requests c)
       then Failed (ConnectionError reason) else f)) (rc_futures c), pending_requests := []\<rparr>"

text \<open>Python's truth value of a parsed JSON value.\<close>

fun truthy :: "json \<Rightarrow> bool" where
  "truthy JNull = False"
| "truthy (JBool b) = b"
| "truthy (JInt i) = (i \<noteq> 0)"
| "truthy (JFloat q) = (q \<noteq> 0)"
| "truthy (JStr (Str s)) = (s \<noteq> [])"
| "truthy (JStr (Dumps j)) = True"
| "truthy (JList js) = (js \<noteq> [])"
| "truthy (JObj d) = (d \<noteq> [])"

text \<open>What \<open>response_handler\<close> does with a response: a known id resolves its future, a list or a dictionary as id cannot be looked up.\<close>

definition settle :: "wire \<Rightarrow> (string \<times> json) list \<Rightarrow> string \<Rightarrow> RPCClient \<Rightarrow> RPCClient" where
  "settle W r rid c = (case dict_get (pending_requests c) rid of None \<Rightarrow> c | Some k \<Rightarrow>
     let c' = c\<lparr>pending_requests := dict_del rid (pending_requests c)\<rparr>
     in if dict_get (rc_futures c) k = Some Pending
        then c'\<lparr>rc_futures := dict_set k (if truthy (get_or_null ''error'' r)
           then Failed (AppError (''Server error: '' @ show_json W (get_or_null ''error'' r)))
           else Resolved (get_or_null ''result'' r)) (rc_futures c)\<rparr>
        else c')"

definition handle_response :: "wire \<Rightarrow> json \<Rightarrow> RPCClient \<Rightarrow> exn + RPCClient" where
  "handle_response W j c = (case j of
       JObj r \<Rightarrow> (case get_or_null ''request_id'' r of
           JStr (Str rid) \<Rightarrow> Inr (if rid = [] then c else settle W r rid c)
         | JList (_ # _) \<Rightarrow> Inl TypeError
         | JObj (_ # _) \<Rightarrow> Inl TypeError
         | _ \<Rightarrow> Inr c)
     | _ \<Rightarrow> Inl AttributeError)"

definition handler_ends :: "wire \<Rightarrow> exn option \<Rightarrow> RPCClient \<Rightarrow> RPCClient" where
  "handler_ends W e c = (clear_pendings (case e of None \<Rightarrow> ''connection closed''
       | Some x \<Rightarrow> if show_exn W x = [] then ''connection closed'' else ''connection no longer usable '' @ show_exn W x) c)
     \<lparr>rc_stream := None, rc_closed := True, rc_handler := Some Finished\<rparr>"

lemma settle_frame [simp]:
  "rc_stream (settle W r rid c) = rc_stream c" "rc_handler (settle W r rid c) = rc_handler c" "rc_closed (settle W r rid c) = rc_closed c"
  "rc_out (settle W r rid c) = rc_out c" "rc_next (settle W r rid c) = rc_next c"
  by (simp_all add: settle_def Let_def split: option.splits)

lemma handle_response_frame:
  assumes "handle_response W j c = Inr c'"
  shows "rc_stream c' = rc_stream c" "rc_handler c' = rc_handler c" "rc_closed c' = rc_closed c" "rc_out c' = rc_out c"
  using assms by (auto simp: handle_response_def split: json.splits pystr.splits list.splits if_splits)

text \<open>The loop of \<open>response_handler\<close>, until it waits or ends.\<close>

function response_handler :: "wire \<Rightarrow> RPCClient \<Rightarrow> RPCClient" where
  "response_handler W c = (case rc_handler c of None \<Rightarrow> c | Some p \<Rightarrow> (case p of
       Finished \<Rightarrow> c
     | LoopTop \<Rightarrow> if rc_closed c \<or> rc_stream c = None then handler_ends W None c
         else response_handler W (c\<lparr>rc_handler := Some AwaitLength\<rparr>)
     | _ \<Rightarrow> (case rc_stream c of None \<Rightarrow> handler_ends W None c | Some st \<Rightarrow> (case read_round W p st of
         Waits p' st' \<Rightarrow> c\<lparr>rc_handler := Some p', rc_stream := Some st'\<rparr>
       | Closed st' \<Rightarrow> handler_ends W None (c\<lparr>rc_stream := Some st'\<rparr>)
       | Raises e st' \<Rightarrow> handler_ends W (Some e) (c\<lparr>rc_stream := Some st'\<rparr>)
       | Message j st' \<Rightarrow> (case handle_response W j (c\<lparr>rc_stream := Some st', rc_handler := Some LoopTop\<rparr>) of
           Inl e \<Rightarrow> handler_ends W (Some e) (c\<lparr>rc_stream := Some st'\<rparr>)
         | Inr c' \<Rightarrow> response_handler W c')))))"
  by auto
termination
  by (relation "measures [\<lambda>(W, c). length (case rc_stream c of None \<Rightarrow> [] | Some st \<Rightarrow> sr_buf st),
        \<lambda>(W, c). if rc_handler c = Some LoopTop then 1 else 0]")
    (auto simp: handle_response_frame dest!: read_round_shrinks)

declare response_handler.simps [simp del]

definition client_receive :: "wire \<Rightarrow> bytes \<Rightarrow> RPCClient \<Rightarrow> RPCClient" where
  "client_receive W d c = response_handler W (c\<lparr>rc_stream := map_option (stream_feed d) (rc_stream c)\<rparr>)"

definition client_eof :: "wire \<Rightarrow> RPCClient \<Rightarrow> RPCClient" where
  "client_eof W c = response_handler W (c\<lparr>rc_stream := map_option (\<lambda>st. st\<lparr>sr_eof := True\<rparr>) (rc_stream c)\<rparr>)"

text \<open>\<open>close\<close>: a handler that has started runs its \<open>finally\<close> when it is cancelled, one that has not just ends; what is left of the
  connection is closed.\<close>

definition client_close :: "wire \<Rightarrow> RPCClient \<Rightarrow> RPCClient" where
  "client_close W c = (let c1 = c\<lparr>rc_closed := True\<rparr>;
     c2 = (case rc_handler c of Some AwaitLength \<Rightarrow> handler_ends W None c1 | Some (AwaitData _) \<Rightarrow> handler_ends W None c1
           | Some LoopTop \<Rightarrow> c1\<lparr>rc_handler := Some Finished\<rparr> | _ \<Rightarrow> c1)
     in clear_pendings ''close'' (c2\<lparr>rc_stream := None\<rparr>))"

end
