(* ===== verification/Astream_Props.thy ===== *)
theory Astream_Props
  imports Astream_Rpc
begin

text \<open>
  What the stream transport guarantees: frames are read back as they were written, overlapping calls get their own results in whatever
  order the server finishes them, and no caller is left waiting when a connection ends. And where it fails: a connection that has ended
  once, a command that raises, a read that returns less than a whole frame.
\<close>

section \<open>Frames\<close>

text \<open>What the transport relies on from \<open>json\<close>, for a value it sends: the text is not empty and reads back as the value. A
  text of more than \<open>10 ^ 20\<close> bytes would not fit the length field.\<close>

definition wire_ok :: "wire \<Rightarrow> json \<Rightarrow> bool" where
  "wire_ok W j \<longleftrightarrow> loads W (dumps W j) = Inr j \<and> dumps W j \<noteq> [] \<and> length (dumps W j) < 10 ^ 20"

abbreviation frames :: "wire \<Rightarrow> json list \<Rightarrow> bytes" where
  "frames W js \<equiv> concat (map (\<lambda>j. frame (dumps W j)) js)"

lemma header_length: "n < 10 ^ 20 \<Longrightarrow> length (ljust 20 (string_of_nat n)) = 20"
  using string_of_nat_length [of n 20] by (simp add: ljust_def)

lemma read_frame:
  assumes "wire_ok W j" and "sr_buf st = frame (dumps W j) @ rest" and "sr_exn st = None"
  shows "read_length W st = Message j (st\<lparr>sr_buf := rest\<rparr>)"
proof -
  let ?d = "dumps W j"
  let ?h = "ljust 20 (string_of_nat (length ?d))"
  have h: "length ?h = 20" using assms(1) by (simp add: wire_ok_def header_length)
  then have "stream_read 20 st = ReadData ?h (st\<lparr>sr_buf := ?d @ rest\<rparr>)"
    using assms(2,3) by (auto simp: stream_read_def frame_def)
  moreover have "?h \<noteq> []" using h by auto
  moreover have "read_data W (int (length ?d)) (st\<lparr>sr_buf := ?d @ rest\<rparr>) = Message j (st\<lparr>sr_buf := rest\<rparr>)"
    using assms(1,3) by (auto simp: read_data_def stream_read_def wire_ok_def)
  ultimately show ?thesis by (simp add: read_length_def int_of_padded)
qed

lemma read_nothing: "sr_buf st = [] \<Longrightarrow> sr_exn st = None \<Longrightarrow> \<not> sr_eof st \<Longrightarrow> read_length W st = Waits AwaitLength st"
  by (simp add: read_length_def stream_read_def)

text \<open>The server makes one task of each request, in the order of the frames.\<close>

definition new_task :: "(string \<times> json) list \<Rightarrow> request_task" where
  "new_task r = \<lparr>tk_request = r, tk_id = get_or_null ''request_id'' r, tk_started = False\<rparr>"

definition reading :: "ClientFollower \<Rightarrow> bool" where
  "reading c \<longleftrightarrow> cf_phase c \<in> {LoopTop, AwaitLength} \<and> \<not> cf_broken c \<and> sr_exn (cf_stream c) = None \<and> \<not> sr_eof (cf_stream c)"

lemma run_top: "reading c \<Longrightarrow> follower_run W False c = follower_run W False (c\<lparr>cf_phase := AwaitLength\<rparr>)"
proof (cases "cf_phase c = LoopTop")
  case True
  moreover assume "reading c"
  ultimately show ?thesis by (subst follower_run.simps) (simp add: reading_def)
next
  case False
  moreover assume "reading c"
  ultimately have "c = c\<lparr>cf_phase := AwaitLength\<rparr>" by (simp add: reading_def)
  then show ?thesis by simp
qed

lemma run_reads_one:
  assumes "reading c" and "wire_ok W (JObj r)" and "sr_buf (cf_stream c) = frame (dumps W (JObj r)) @ rest"
  shows "follower_run W False c = follower_run W False (spawn r (c\<lparr>cf_stream := (cf_stream c)\<lparr>sr_buf := rest\<rparr>\<rparr>))"
  using assms unfolding run_top [OF assms(1)]
  by (subst follower_run.simps) (simp add: reading_def read_round_def read_frame [of W "JObj r"] spawn_def)

lemma run_waits:
  assumes "reading c" and "sr_buf (cf_stream c) = []"
  shows "follower_run W False c = c\<lparr>cf_phase := AwaitLength\<rparr>"
  using assms unfolding run_top [OF assms(1)]
  by (subst follower_run.simps) (simp add: reading_def read_round_def read_nothing)

lemma run_reads_all:
  assumes "reading c" and "\<forall>r \<in> set rs. wire_ok W (JObj r)" and "sr_buf (cf_stream c) = frames W (map JObj rs)"
  shows "follower_run W False c = c\<lparr>cf_phase := AwaitLength, cf_stream := (cf_stream c)\<lparr>sr_buf := []\<rparr>,
     cf_next := cf_next c + length rs, cf_tasks := cf_tasks c @ zip [cf_next c..<cf_next c + length rs] (map new_task rs)\<rparr>"
  using assms
proof (induction rs arbitrary: c)
  case Nil
  then show ?case using run_waits [of c W] by simp
next
  case (Cons r rs)
  let ?c = "spawn r (c\<lparr>cf_stream := (cf_stream c)\<lparr>sr_buf := frames W (map JObj rs)\<rparr>\<rparr>)"
  have "follower_run W False c = follower_run W False ?c"
    using run_reads_one [of c W r "frames W (map JObj rs)"] Cons.prems by simp
  moreover have "reading ?c" "sr_buf (cf_stream ?c) = frames W (map JObj rs)" using Cons.prems(1) by (simp_all add: spawn_def reading_def)
  moreover have "[cf_next c..<Suc (cf_next c + length rs)] = cf_next c # [Suc (cf_next c)..<Suc (cf_next c + length rs)]"
    by (rule upt_conv_Cons) simp
  ultimately show ?case using Cons.IH [of ?c] Cons.prems(2) by (simp add: spawn_def new_task_def)
qed

section \<open>Tasks\<close>

text \<open>The call a request asks for, and what its caller gets for the value the raft server returns.\<close>

definition call_of :: "(string \<times> json) list \<Rightarrow> raft_call option" where
  "call_of r = (let mtype = get_or_null ''mtype'' r; message = get_or_null ''message'' r in
     if mtype = str_json ''command'' then
       Some (Issue_command message (case dict_get r ''timeout'' of None \<Rightarrow> JFloat 10 | Some v \<Rightarrow> v))
     else if mtype = str_json ''direct_server_command'' then Some (Direct_server_command message)
     else if mtype = str_json ''raft_message'' then Some (Raft_message message) else None)"

definition reply_of :: "(string \<times> json) list \<Rightarrow> json \<Rightarrow> json" where
  "reply_of r v = (if get_or_null ''mtype'' r = str_json ''raft_message'' then JObj [(''result'', v)] else v)"

definition response_of :: "request_task \<Rightarrow> json \<Rightarrow> json" where
  "response_of t v = JObj [(''result'', JStr (Dumps (reply_of (tk_request t) v))), (''request_id'', tk_id t)]"

lemma start_one:
  assumes "dict_get (cf_tasks c) k = Some t" and "\<not> tk_started t" and "call_of (tk_request t) = Some f"
  shows "start_task W True d k c = c\<lparr>cf_calls := cf_calls c @ [f], cf_tasks := dict_set k (t\<lparr>tk_started := True\<rparr>) (cf_tasks c)\<rparr>"
  using assms by (auto simp: start_task_def call_of_def Let_def str_json_def split: if_splits)

lemma start_all:
  assumes "distinct ks" and "\<forall>k \<in> set ks. \<exists>t. dict_get (cf_tasks c) k = Some t \<and> \<not> tk_started t \<and> call_of (tk_request t) = Some (f k)"
  shows "\<exists>T. fold (start_task W True d) ks c = c\<lparr>cf_calls := cf_calls c @ map f ks, cf_tasks := T\<rparr> \<and>
     (\<forall>k. dict_get T k = map_option (\<lambda>t. if k \<in> set ks then t\<lparr>tk_started := True\<rparr> else t) (dict_get (cf_tasks c) k))"
  using assms
proof (induction ks arbitrary: c)
  case Nil
  then show ?case by (intro exI [of _ "cf_tasks c"]) (simp add: option.map_ident)
next
  case (Cons k ks)
  obtain t where t: "dict_get (cf_tasks c) k = Some t" "\<not> tk_started t" "call_of (tk_request t) = Some (f k)" using Cons.prems by auto
  let ?c = "c\<lparr>cf_calls := cf_calls c @ [f k], cf_tasks := dict_set k (t\<lparr>tk_started := True\<rparr>) (cf_tasks c)\<rparr>"
  have "\<exists>T. fold (start_task W True d) ks ?c = ?c\<lparr>cf_calls := cf_calls ?c @ map f ks, cf_tasks := T\<rparr> \<and>
     (\<forall>k. dict_get T k = map_option (\<lambda>t. if k \<in> set ks then t\<lparr>tk_started := True\<rparr> else t) (dict_get (cf_tasks ?c) k))"
    using Cons.prems by (intro Cons.IH) auto
  then obtain T where "fold (start_task W True d) ks ?c = ?c\<lparr>cf_calls := cf_calls ?c @ map f ks, cf_tasks := T\<rparr>"
     "\<forall>k. dict_get T k = map_option (\<lambda>t. if k \<in> set ks then t\<lparr>tk_started := True\<rparr> else t) (dict_get (cf_tasks ?c) k)" by blast
  then show ?case using start_one [OF t, of W d] t(1) Cons.prems(1) by (intro exI [of _ T]) auto
qed

lemma finish_one:
  assumes "dict_get (cf_tasks c) k = Some t" and "tk_started t"
  shows "finish_task W True k (Inr v) c =
     c\<lparr>cf_tasks := dict_del k (cf_tasks c), cf_out := cf_out c @ frame (dumps W (response_of t v))\<rparr>"
  using assms by (simp add: finish_task_def answer_request_def write_response_def cleanup_task_def response_of_def reply_of_def)

lemma finish_all:
  assumes "distinct ks" and "\<forall>k \<in> set ks. \<exists>t. dict_get (cf_tasks c) k = Some t \<and> tk_started t"
  shows "\<exists>T. fold (\<lambda>k. finish_task W True k (Inr (v k))) ks c = c\<lparr>cf_tasks := T,
       cf_out := cf_out c @ frames W (map (\<lambda>k. response_of (the (dict_get (cf_tasks c) k)) (v k)) ks)\<rparr> \<and>
     (\<forall>k. dict_get T k = (if k \<in> set ks then None else dict_get (cf_tasks c) k))"
  using assms
proof (induction ks arbitrary: c)
  case Nil
  then show ?case by (intro exI [of _ "cf_tasks c"]) simp
next
  case (Cons k ks)
  obtain t where t: "dict_get (cf_tasks c) k = Some t" "tk_started t" using Cons.prems by auto
  let ?c = "c\<lparr>cf_tasks := dict_del k (cf_tasks c), cf_out := cf_out c @ frame (dumps W (response_of t (v k)))\<rparr>"
  have "\<exists>T. fold (\<lambda>k. finish_task W True k (Inr (v k))) ks ?c = ?c\<lparr>cf_tasks := T,
       cf_out := cf_out ?c @ frames W (map (\<lambda>k. response_of (the (dict_get (cf_tasks ?c) k)) (v k)) ks)\<rparr> \<and>
     (\<forall>k. dict_get T k = (if k \<in> set ks then None else dict_get (cf_tasks ?c) k))"
    using Cons.prems by (intro Cons.IH) auto
  then obtain T where T: "fold (\<lambda>k. finish_task W True k (Inr (v k))) ks ?c = ?c\<lparr>cf_tasks := T,
       cf_out := cf_out ?c @ frames W (map (\<lambda>k. response_of (the (dict_get (cf_tasks ?c) k)) (v k)) ks)\<rparr>"
     "\<forall>k. dict_get T k = (if k \<in> set ks then None else dict_get (cf_tasks ?c) k)" by blast
  have eq: "map (\<lambda>k. response_of (the (dict_get (cf_tasks ?c) k)) (v k)) ks = map (\<lambda>k. response_of (the (dict_get (cf_tasks c) k)) (v k)) ks"
    using Cons.prems(1) by (intro map_cong) auto
  show ?case using T(1) [unfolded eq] T(2) finish_one [OF t, of W "v k"] t(1) by (intro exI [of _ T]) auto
qed

section \<open>The client\<close>

definition request_of :: "string \<times> (string \<times> json) list \<Rightarrow> (string \<times> json) list" where
  "request_of p = dict_set ''request_id'' (str_json (fst p)) (snd p)"

abbreviation send_all :: "wire \<Rightarrow> (string \<times> (string \<times> json) list) list \<Rightarrow> RPCClient \<Rightarrow> RPCClient" where
  "send_all W calls c \<equiv> fold (\<lambda>(rid, msg) c. snd (send_request W True True rid msg c)) calls c"

lemma send_one:
  assumes "rc_stream c \<noteq> None"
  shows "send_request W ok True rid msg c = (Inr rid, c\<lparr>rc_futures := dict_set (rc_next c) Pending (rc_futures c),
     pending_requests := dict_set rid (rc_next c) (pending_requests c), rc_next := Suc (rc_next c),
     rc_out := rc_out c @ frame (dumps W (JObj (request_of (rid, msg))))\<rparr>)"
  using assms by (auto simp: send_request_def ensure_connection_def run request_of_def)

lemma send_all_run:
  assumes "rc_stream c \<noteq> None" and "distinct (map fst calls)"
  shows "\<exists>F P. send_all W calls c = c\<lparr>rc_futures := F, pending_requests := P, rc_next := rc_next c + length calls,
       rc_out := rc_out c @ frames W (map (\<lambda>p. JObj (request_of p)) calls)\<rparr> \<and>
     (\<forall>rid. rid \<notin> fst ` set calls \<longrightarrow> dict_get P rid = dict_get (pending_requests c) rid) \<and>
     (\<forall>i < length calls. dict_get P (fst (calls ! i)) = Some (rc_next c + i) \<and> dict_get F (rc_next c + i) = Some Pending) \<and>
     (\<forall>k < rc_next c. dict_get F k = dict_get (rc_futures c) k)"
  using assms
proof (induction calls arbitrary: c)
  case Nil
  then show ?case by (intro exI [of _ "rc_futures c"] exI [of _ "pending_requests c"]) simp
next
  case (Cons x calls)
  obtain rid msg where x: "x = (rid, msg)" by (cases x)
  let ?c = "c\<lparr>rc_futures := dict_set (rc_next c) Pending (rc_futures c),
     pending_requests := dict_set rid (rc_next c) (pending_requests c), rc_next := Suc (rc_next c),
     rc_out := rc_out c @ frame (dumps W (JObj (request_of x)))\<rparr>"
  have one: "snd (send_request W True True rid msg c) = ?c" using send_one [OF Cons.prems(1)] x by simp
  have "\<exists>F P. send_all W calls ?c = ?c\<lparr>rc_futures := F, pending_requests := P, rc_next := rc_next ?c + length calls,
       rc_out := rc_out ?c @ frames W (map (\<lambda>p. JObj (request_of p)) calls)\<rparr> \<and>
     (\<forall>rid. rid \<notin> fst ` set calls \<longrightarrow> dict_get P rid = dict_get (pending_requests ?c) rid) \<and>
     (\<forall>i < length calls. dict_get P (fst (calls ! i)) = Some (rc_next ?c + i) \<and> dict_get F (rc_next ?c + i) = Some Pending) \<and>
     (\<forall>k < rc_next ?c. dict_get F k = dict_get (rc_futures ?c) k)"
    using Cons.prems by (intro Cons.IH) auto
  then obtain F P where FP: "send_all W calls ?c = ?c\<lparr>rc_futures := F, pending_requests := P, rc_next := rc_next ?c + length calls,
       rc_out := rc_out ?c @ frames W (map (\<lambda>p. JObj (request_of p)) calls)\<rparr>"
     "\<forall>rid. rid \<notin> fst ` set calls \<longrightarrow> dict_get P rid = dict_get (pending_requests ?c) rid"
     "\<forall>i < length calls. dict_get P (fst (calls ! i)) = Some (rc_next ?c + i) \<and> dict_get F (rc_next ?c + i) = Some Pending"
     "\<forall>k < rc_next ?c. dict_get F k = dict_get (rc_futures ?c) k" by - (elim exE conjE, rule that)
  have "rid \<notin> fst ` set calls" using Cons.prems(2) x by simp
  then have "dict_get P (fst ((x # calls) ! i)) = Some (rc_next c + i) \<and> dict_get F (rc_next c + i) = Some Pending"
    if "i < length (x # calls)" for i using that FP(2-4) x by (cases i) auto
  then show ?case using one FP x by (intro exI [of _ F] exI [of _ P]) auto
qed

text \<open>The responses that arrive resolve the futures of their ids.\<close>

abbreviation settle_all :: "wire \<Rightarrow> (string \<times> json) list \<Rightarrow> RPCClient \<Rightarrow> RPCClient" where
  "settle_all W rs c \<equiv> fold (\<lambda>(rid, v). settle W [(''result'', v), (''request_id'', str_json rid)] rid) rs c"

lemma settle_all_run:
  assumes "distinct (map fst rs)" and "\<forall>rid \<in> fst ` set rs. dict_get (pending_requests c) rid = Some (key rid) \<and> dict_get (rc_futures c) (key rid) = Some Pending"
    and "inj_on key (fst ` set rs)"
  shows "(\<forall>(rid, v) \<in> set rs. dict_get (rc_futures (settle_all W rs c)) (key rid) = Some (Resolved v)) \<and>
     (\<forall>k. k \<notin> key ` fst ` set rs \<longrightarrow> dict_get (rc_futures (settle_all W rs c)) k = dict_get (rc_futures c) k) \<and>
     (\<forall>rid. dict_get (pending_requests (settle_all W rs c)) rid = (if rid \<in> fst ` set rs then None else dict_get (pending_requests c) rid))"
  using assms
proof (induction rs arbitrary: c)
  case (Cons x rs)
  obtain rid v where x: "x = (rid, v)" by (cases x)
  let ?c = "settle W [(''result'', v), (''request_id'', str_json rid)] rid c"
  have k: "dict_get (pending_requests c) rid = Some (key rid)" "dict_get (rc_futures c) (key rid) = Some Pending" using Cons.prems(2) x by auto
  have c: "dict_get (rc_futures ?c) j = (if j = key rid then Some (Resolved v) else dict_get (rc_futures c) j)"
      "dict_get (pending_requests ?c) r = (if r = rid then None else dict_get (pending_requests c) r)" for j r
    using k by (simp_all add: settle_def get_or_null_def)
  have new: "rid \<notin> fst ` set rs" "key rid \<notin> key ` fst ` set rs" using Cons.prems(1,3) x by auto
  have "key r \<noteq> key rid \<and> r \<noteq> rid" if "r \<in> fst ` set rs" for r using new that by (metis image_eqI)
  then have "\<forall>r \<in> fst ` set rs. dict_get (pending_requests ?c) r = Some (key r) \<and> dict_get (rc_futures ?c) (key r) = Some Pending"
    using Cons.prems(2) unfolding c by simp
  moreover have "distinct (map fst rs)" "inj_on key (fst ` set rs)" using Cons.prems(1,3) by simp_all
  ultimately have IH: "(\<forall>(r, v) \<in> set rs. dict_get (rc_futures (settle_all W rs ?c)) (key r) = Some (Resolved v)) \<and>
     (\<forall>k. k \<notin> key ` fst ` set rs \<longrightarrow> dict_get (rc_futures (settle_all W rs ?c)) k = dict_get (rc_futures ?c) k) \<and>
     (\<forall>r. dict_get (pending_requests (settle_all W rs ?c)) r = (if r \<in> fst ` set rs then None else dict_get (pending_requests ?c) r))"
    by (intro Cons.IH)
  show ?case using IH new(2) unfolding c x by (auto simp: c)
qed simp

definition listening :: "RPCClient \<Rightarrow> stream \<Rightarrow> bool" where
  "listening c st \<longleftrightarrow> rc_stream c = Some st \<and> rc_handler c \<in> {Some LoopTop, Some AwaitLength} \<and> \<not> rc_closed c \<and>
     sr_exn st = None \<and> \<not> sr_eof st"

lemma handler_top:
  assumes "listening c st"
  shows "response_handler W c = response_handler W (c\<lparr>rc_handler := Some AwaitLength\<rparr>)"
proof (cases "rc_handler c = Some LoopTop")
  case True
  then show ?thesis using assms by (subst response_handler.simps) (simp add: listening_def)
next
  case False
  then have "c = c\<lparr>rc_handler := Some AwaitLength\<rparr>" using assms by (simp add: listening_def)
  then show ?thesis by simp
qed

lemma handler_waits:
  assumes "listening c st" and "sr_buf st = []"
  shows "response_handler W c = c\<lparr>rc_handler := Some AwaitLength\<rparr>"
  using assms unfolding handler_top [OF assms(1)]
  by (subst response_handler.simps) (simp add: listening_def read_round_def read_nothing)

lemma handler_settles_one:
  assumes "listening c st" and "wire_ok W (JObj r)" and "sr_buf st = frame (dumps W (JObj r)) @ rest"
    and "get_or_null ''request_id'' r = str_json rid" and "rid \<noteq> []"
  shows "response_handler W c =
     response_handler W (settle W r rid (c\<lparr>rc_stream := Some (st\<lparr>sr_buf := rest\<rparr>), rc_handler := Some LoopTop\<rparr>))"
  using assms unfolding handler_top [OF assms(1)]
  by (subst response_handler.simps) (simp add: listening_def read_round_def read_frame [of W "JObj r"] handle_response_def str_json_def)

lemma settle_moved:
  "settle W r rid (c\<lparr>rc_stream := st, rc_handler := h\<rparr>) = (settle W r rid c)\<lparr>rc_stream := st, rc_handler := h\<rparr>"
  by (simp add: settle_def Let_def split: option.splits)

lemma settle_all_moved:
  "settle_all W rs (c\<lparr>rc_stream := st, rc_handler := h\<rparr>) = (settle_all W rs c)\<lparr>rc_stream := st, rc_handler := h\<rparr>"
  by (induction rs arbitrary: c) (auto simp: settle_moved)

lemma handler_settles_all:
  assumes "listening c st" and "sr_buf st = frames W (map (\<lambda>(rid, v). JObj [(''result'', v), (''request_id'', str_json rid)]) rs)"
    and "\<forall>(rid, v) \<in> set rs. rid \<noteq> [] \<and> wire_ok W (JObj [(''result'', v), (''request_id'', str_json rid)])"
  shows "response_handler W c = (settle_all W rs c)\<lparr>rc_stream := Some (st\<lparr>sr_buf := []\<rparr>), rc_handler := Some AwaitLength\<rparr>"
  using assms
proof (induction rs arbitrary: c st)
  case Nil
  then show ?case using handler_waits [of c st W] by (simp add: listening_def)
next
  case (Cons x rs)
  obtain rid v where x: "x = (rid, v)" by (cases x)
  let ?r = "[(''result'', v), (''request_id'', str_json rid)]"
  let ?rest = "frames W (map (\<lambda>(rid, v). JObj [(''result'', v), (''request_id'', str_json rid)]) rs)"
  let ?st = "st\<lparr>sr_buf := ?rest\<rparr>"
  let ?c = "(settle W ?r rid c)\<lparr>rc_stream := Some ?st, rc_handler := Some LoopTop\<rparr>"
  have ok: "rid \<noteq> []" "wire_ok W (JObj ?r)" "sr_buf st = frame (dumps W (JObj ?r)) @ ?rest" "get_or_null ''request_id'' ?r = str_json rid"
    using Cons.prems(2,3) x by (auto simp: get_or_null_def)
  have "response_handler W c = response_handler W ?c"
    using handler_settles_one [OF Cons.prems(1) ok(2,3,4,1)] by (simp add: settle_moved)
  also have "\<dots> = (settle_all W rs ?c)\<lparr>rc_stream := Some (?st\<lparr>sr_buf := []\<rparr>), rc_handler := Some AwaitLength\<rparr>"
    using Cons.prems(1,3) by (intro Cons.IH) (auto simp: listening_def)
  finally show ?case by (simp add: settle_all_moved x)
qed

section \<open>Properties of the transport\<close>

text \<open>One exchange: the client sends the requests of \<open>calls\<close>, the server receives the bytes, starts the tasks and finishes them in the
  order of \<open>order\<close>, the call of task \<open>i\<close> returning \<open>v i\<close>; then the client receives what the server has written.\<close>

definition exchange :: "wire \<Rightarrow> (string \<times> (string \<times> json) list) list \<Rightarrow> nat list \<Rightarrow> (nat \<Rightarrow> json) \<Rightarrow> RPCClient \<Rightarrow> ClientFollower \<Rightarrow>
    RPCClient \<times> ClientFollower" where
  "exchange W calls order v c f =
     (let c1 = send_all W calls c;
          f1 = follower_run W False (f\<lparr>cf_stream := stream_feed (rc_out c1) (cf_stream f)\<rparr>);
          f2 = fold (start_task W True True) [cf_next f..<cf_next f + length calls] f1;
          f3 = fold (\<lambda>i. finish_task W True (cf_next f + i) (Inr (v i))) order f2
      in (client_receive W (cf_out f3) c1, f3))"

lemma request_of_simps [simp]:
  "call_of (request_of p) = call_of (snd p)" "reply_of (request_of p) v = reply_of (snd p) v"
  "tk_id (new_task r) = get_or_null ''request_id'' r" "get_or_null ''request_id'' (request_of p) = str_json (fst p)"
  "tk_request (new_task r) = r" "\<not> tk_started (new_task r)"
  by (simp_all add: request_of_def call_of_def reply_of_def get_or_null_def new_task_def Let_def)

lemma numbered_get:
  "dict_get (zip [n..<n + length xs] xs) k = (if n \<le> k \<and> k < n + length xs then Some (xs ! (k - n)) else None)"
proof (induction xs arbitrary: n)
  case (Cons x xs)
  have "[n..<n + length (x # xs)] = n # [Suc n..<Suc n + length xs]" by (simp add: upt_conv_Cons del: upt_Suc)
  then show ?case using Cons.IH [of "Suc n"] by (auto simp: nth_Cons' simp del: upt_Suc)
qed simp

text \<open>The server's part: the tasks it makes of the requests, and its answers.\<close>

lemma server_part:
  fixes v :: "nat \<Rightarrow> json"
  assumes "reading f" and "sr_buf (cf_stream f) = []" and "cf_tasks f = []" and "cf_out f = []"
    and "\<forall>p \<in> set calls. wire_ok W (JObj (request_of p)) \<and> call_of (snd p) \<noteq> None"
    and "distinct order" and "set order = {..<length calls}"
  defines "f1 \<equiv> follower_run W False (f\<lparr>cf_stream := stream_feed (frames W (map (\<lambda>p. JObj (request_of p)) calls)) (cf_stream f)\<rparr>)"
  defines "f3 \<equiv> fold (\<lambda>i. finish_task W True (cf_next f + i) (Inr (v i))) order (fold (start_task W True True) [cf_next f..<cf_next f + length calls] f1)"
  shows "cf_calls f3 = cf_calls f @ map (\<lambda>p. the (call_of (snd p))) calls \<and> (\<forall>k. dict_get (cf_tasks f3) k = None) \<and>
     cf_out f3 = frames W (map (\<lambda>i. JObj [(''result'', JStr (Dumps (reply_of (snd (calls ! i)) (v i)))), (''request_id'', str_json (fst (calls ! i)))]) order)"
proof -
  let ?n = "cf_next f" and ?l = "length calls"
  let ?g = "f\<lparr>cf_stream := stream_feed (frames W (map (\<lambda>p. JObj (request_of p)) calls)) (cf_stream f)\<rparr>"
  let ?T = "zip [?n..<?n + ?l] (map (new_task \<circ> request_of) calls)"
  have "f1 = ?g\<lparr>cf_phase := AwaitLength, cf_stream := (cf_stream ?g)\<lparr>sr_buf := []\<rparr>, cf_next := ?n + ?l, cf_tasks := ?T\<rparr>"
    unfolding f1_def using run_reads_all [of ?g "map request_of calls" W] assms(1-5)
    by (simp add: reading_def stream_feed_def comp_def)
  then have f1: "cf_tasks f1 = ?T" "cf_calls f1 = cf_calls f" "cf_out f1 = []" using assms(4) by simp_all
  have T: "dict_get ?T k = (if ?n \<le> k \<and> k < ?n + ?l then Some (new_task (request_of (calls ! (k - ?n)))) else None)" for k
    using numbered_get [of ?n "map (new_task \<circ> request_of) calls" k] by (auto simp: nth_map)
  have "\<forall>k \<in> set [?n..<?n + ?l]. \<exists>t. dict_get (cf_tasks f1) k = Some t \<and> \<not> tk_started t \<and>
      call_of (tk_request t) = Some (the (call_of (snd (calls ! (k - ?n)))))"
    unfolding f1 T using assms(5) by (auto simp: less_diff_conv2)
  from start_all [OF distinct_upt this, of W True] obtain U where
    f2: "fold (start_task W True True) [?n..<?n + ?l] f1 = f1\<lparr>cf_calls := cf_calls f1 @
        map (\<lambda>k. the (call_of (snd (calls ! (k - ?n))))) [?n..<?n + ?l], cf_tasks := U\<rparr>"
      "\<forall>k. dict_get U k = map_option (\<lambda>t. if k \<in> set [?n..<?n + ?l] then t\<lparr>tk_started := True\<rparr> else t) (dict_get (cf_tasks f1) k)"
    by blast
  have U: "dict_get U k = (if ?n \<le> k \<and> k < ?n + ?l then Some ((new_task (request_of (calls ! (k - ?n))))\<lparr>tk_started := True\<rparr>) else None)" for k
    using f2(2) unfolding f1 T by auto
  let ?f2 = "f1\<lparr>cf_calls := cf_calls f1 @ map (\<lambda>k. the (call_of (snd (calls ! (k - ?n))))) [?n..<?n + ?l], cf_tasks := U\<rparr>"
  have "distinct (map ((+) ?n) order)" using assms(6) by (simp add: distinct_map)
  moreover have "\<forall>k \<in> set (map ((+) ?n) order). \<exists>t. dict_get (cf_tasks ?f2) k = Some t \<and> tk_started t"
    using assms(7) by (auto simp: U)
  ultimately obtain V where
    V: "fold (\<lambda>k. finish_task W True k (Inr (v (k - ?n)))) (map ((+) ?n) order) ?f2 = ?f2\<lparr>cf_tasks := V,
       cf_out := cf_out ?f2 @ frames W (map (\<lambda>k. response_of (the (dict_get (cf_tasks ?f2) k)) (v (k - ?n))) (map ((+) ?n) order))\<rparr>"
      "\<forall>k. dict_get V k = (if k \<in> set (map ((+) ?n) order) then None else dict_get (cf_tasks ?f2) k)"
    using finish_all [of "map ((+) ?n) order" ?f2 W "\<lambda>k. v (k - ?n)"] by blast
  have f3: "f3 = fold (\<lambda>k. finish_task W True k (Inr (v (k - ?n)))) (map ((+) ?n) order) ?f2"
    unfolding f3_def f2(1) by (simp add: fold_map comp_def)
  have c: "map (\<lambda>k. the (call_of (snd (calls ! (k - ?n))))) [?n..<?n + ?l] = map (\<lambda>p. the (call_of (snd p))) calls"
    by (rule nth_equalityI) simp_all
  have o: "map (\<lambda>k. response_of (the (dict_get (cf_tasks ?f2) k)) (v (k - ?n))) (map ((+) ?n) order) =
      map (\<lambda>i. JObj [(''result'', JStr (Dumps (reply_of (snd (calls ! i)) (v i)))), (''request_id'', str_json (fst (calls ! i)))]) order"
    using assms(7) by (auto simp: U response_of_def)
  have "set (map ((+) ?n) order) = {?n..<?n + ?l}" unfolding set_map assms(7)
    by (simp add: lessThan_atLeast0 image_add_atLeastLessThan add.commute)
  then have "dict_get V k = None" for k using V(2) by (simp add: U)
  then show ?thesis unfolding f3 V(1) o using c f1 by simp
qed

text \<open>The client's part: the answers, in whatever order, go to the futures of their requests.\<close>

lemma client_part:
  assumes "listening c st" and "sr_buf st = []" and "pending_requests c = []" and "distinct (map fst calls)" and "[] \<notin> fst ` set calls"
    and "distinct order" and "set order = {..<length calls}"
    and "\<forall>i < length calls. wire_ok W (JObj [(''result'', x i), (''request_id'', str_json (fst (calls ! i)))])"
    and "out = frames W (map (\<lambda>i. JObj [(''result'', x i), (''request_id'', str_json (fst (calls ! i)))]) order)"
    and "c' = client_receive W out (send_all W calls c)"
  shows "(\<forall>i < length calls. dict_get (rc_futures c') (rc_next c + i) = Some (Resolved (x i))) \<and>
     (\<forall>k < rc_next c. dict_get (rc_futures c') k = dict_get (rc_futures c) k) \<and> (\<forall>rid. dict_get (pending_requests c') rid = None)"
proof -
  let ?n = "rc_next c" and ?c1 = "send_all W calls c" and ?rs = "map (\<lambda>i. (fst (calls ! i), x i)) order"
  have conn: "rc_stream c \<noteq> None" using assms(1) by (simp add: listening_def)
  obtain F P where c1: "?c1 = c\<lparr>rc_futures := F, pending_requests := P, rc_next := ?n + length calls,
       rc_out := rc_out c @ frames W (map (\<lambda>p. JObj (request_of p)) calls)\<rparr>"
     "\<forall>rid. rid \<notin> fst ` set calls \<longrightarrow> dict_get P rid = dict_get (pending_requests c) rid"
     "\<forall>i < length calls. dict_get P (fst (calls ! i)) = Some (?n + i) \<and> dict_get F (?n + i) = Some Pending"
     "\<forall>k < ?n. dict_get F k = dict_get (rc_futures c) k"
    using send_all_run [OF conn assms(4), of W] by - (elim exE conjE, rule that)
  let ?st = "st\<lparr>sr_buf := out\<rparr>"
  let ?c = "?c1\<lparr>rc_stream := Some ?st\<rparr>"
  have "set calls = (!) calls ` {..<length calls}" by (auto simp: set_conv_nth)
  then have rs: "fst ` set ?rs = fst ` set calls" using assms(7) by (simp add: image_image)
  have l: "listening ?c ?st" using assms(1) c1(1) by (simp add: listening_def)
  have b: "sr_buf ?st = frames W (map (\<lambda>(rid, x). JObj [(''result'', x), (''request_id'', str_json rid)]) ?rs)"
    using assms(9) by (simp add: comp_def)
  have n: "\<forall>(rid, x) \<in> set ?rs. rid \<noteq> [] \<and> wire_ok W (JObj [(''result'', x), (''request_id'', str_json rid)])"
    using assms(5,7,8) by (auto simp: image_iff) (metis nth_mem)
  have "c' = response_handler W ?c"
    using assms(1,2,10) c1(1) by (simp add: client_receive_def listening_def stream_feed_def)
  also have "\<dots> = (settle_all W ?rs ?c)\<lparr>rc_stream := Some (?st\<lparr>sr_buf := []\<rparr>), rc_handler := Some AwaitLength\<rparr>"
    by (rule handler_settles_all [OF l b n])
  finally have c': "c' = (settle_all W ?rs ?c)\<lparr>rc_stream := Some (?st\<lparr>sr_buf := []\<rparr>), rc_handler := Some AwaitLength\<rparr>" .
  define key where "key rid = the (dict_get P rid)" for rid
  have key: "key (fst (calls ! i)) = ?n + i" if "i < length calls" for i using c1(3) that by (simp add: key_def)
  have "inj_on (\<lambda>i. fst (calls ! i)) {..<length calls}"
    using assms(4) by (intro inj_onI) (metis distinct_conv_nth length_map lessThan_iff nth_map)
  then have d: "distinct (map fst ?rs)" using assms(6,7) by (simp add: distinct_map comp_def)
  have "\<forall>rid \<in> fst ` set ?rs. dict_get (pending_requests ?c) rid = Some (key rid) \<and> dict_get (rc_futures ?c) (key rid) = Some Pending"
    unfolding rs using c1(1,3) by (auto simp: in_set_conv_nth key) (metis fst_conv key)+
  moreover have "inj_on key (fst ` set ?rs)" unfolding rs by (rule inj_onI) (auto simp: in_set_conv_nth dest!: key)
  ultimately have all: "(\<forall>(rid, x) \<in> set ?rs. dict_get (rc_futures (settle_all W ?rs ?c)) (key rid) = Some (Resolved x)) \<and>
     (\<forall>k. k \<notin> key ` fst ` set ?rs \<longrightarrow> dict_get (rc_futures (settle_all W ?rs ?c)) k = dict_get (rc_futures ?c) k) \<and>
     (\<forall>rid. dict_get (pending_requests (settle_all W ?rs ?c)) rid = (if rid \<in> fst ` set ?rs then None else dict_get (pending_requests ?c) rid))"
    by (rule settle_all_run [OF d])
  have "dict_get (rc_futures c') (?n + i) = Some (Resolved (x i))" if i: "i < length calls" for i
    using bspec [OF conjunct1 [OF all], of "(fst (calls ! i), x i)"] key [OF i] i assms(7) unfolding c' by simp
  moreover have "dict_get (rc_futures c') k = dict_get (rc_futures c) k" if k: "k < ?n" for k
  proof -
    have "k \<notin> key ` fst ` set ?rs" unfolding rs using k by (auto simp: in_set_conv_nth dest!: key)
    then show ?thesis using all c1(1,4) k unfolding c' by simp
  qed
  moreover have "dict_get (pending_requests c') rid = None" for rid using all c1(1,2) assms(3) unfolding c' rs by simp
  ultimately show ?thesis by blast
qed

text \<open>C32. Overlapping calls get their own results. A client with an open connection sends any number of requests with distinct ids, without
  waiting between them; the server reads them as they were sent, starts each as one call of the raft server with the arguments of the request, in
  order, and finishes them in any order. Frames arrive whole and the server answers requests with their results (\<open>rm_wait_for_result\<close> is
  set). When its answers have reached the client, the future of each request holds the value the
  raft server returned for that request, the futures of earlier requests are as they were, nothing is pending any more, and the server has
  no task left.\<close>

theorem overlapping_calls_answered:
  assumes "listening c st" and "sr_buf st = []" and "rc_out c = []" and "pending_requests c = []"
    and "reading f" and "sr_buf (cf_stream f) = []" and "cf_tasks f = []" and "cf_out f = []"
    and "distinct (map fst calls)" and "[] \<notin> fst ` set calls"
    and "\<forall>p \<in> set calls. wire_ok W (JObj (request_of p)) \<and> call_of (snd p) \<noteq> None"
    and "distinct order" and "set order = {..<length calls}"
    and "\<forall>i < length calls. wire_ok W (JObj [(''result'', JStr (Dumps (reply_of (snd (calls ! i)) (v i)))), (''request_id'', str_json (fst (calls ! i)))])"
    and "exchange W calls order v c f = (c', f')"
  shows "cf_calls f' = cf_calls f @ map (\<lambda>p. the (call_of (snd p))) calls \<and> (\<forall>k. dict_get (cf_tasks f') k = None) \<and>
     (\<forall>i < length calls. dict_get (rc_futures c') (rc_next c + i) = Some (Resolved (JStr (Dumps (reply_of (snd (calls ! i)) (v i)))))) \<and>
     (\<forall>k < rc_next c. dict_get (rc_futures c') k = dict_get (rc_futures c) k) \<and> (\<forall>rid. dict_get (pending_requests c') rid = None)"
proof -
  have conn: "rc_stream c \<noteq> None" using assms(1) by (simp add: listening_def)
  have out: "rc_out (send_all W calls c) = frames W (map (\<lambda>p. JObj (request_of p)) calls)"
    using send_all_run [OF conn assms(9), of W] assms(3) by auto
  have srv: "cf_calls f' = cf_calls f @ map (\<lambda>p. the (call_of (snd p))) calls \<and> (\<forall>k. dict_get (cf_tasks f') k = None) \<and>
      cf_out f' = frames W (map (\<lambda>i. JObj [(''result'', JStr (Dumps (reply_of (snd (calls ! i)) (v i)))), (''request_id'', str_json (fst (calls ! i)))]) order)"
    using server_part [OF assms(5-8,11-13), of v] assms(15) unfolding exchange_def Let_def out by simp
  have "c' = client_receive W (cf_out f') (send_all W calls c)" using assms(15) by (auto simp: exchange_def Let_def)
  then show ?thesis
    using client_part [OF assms(1,2,4,9,10,12-14) conjunct2 [OF conjunct2 [OF srv]]] srv by simp
qed

text \<open>A \<open>wire\<close> for examples: a table of values with their JSON texts.\<close>

definition table_wire :: "(json \<times> bytes) list \<Rightarrow> wire" where
  "table_wire T = \<lparr>dumps = (\<lambda>j. case map_of T j of Some d \<Rightarrow> d | None \<Rightarrow> ''null''),
     loads = (\<lambda>d. case map_of (map (\<lambda>(j, d). (d, j)) T) d of Some j \<Rightarrow> Inr j | None \<Rightarrow> Inl ValueError),
     trace_text = (\<lambda>e. ''traceback''), show_json = (\<lambda>j. ''text''), show_exn = (\<lambda>e. ''error'')\<rparr>"

lemma table_wire_ok:
  assumes "distinct (map fst T)" and "distinct (map snd T)" and "(j, d) \<in> set T" and "d \<noteq> []" and "length d < 100"
  shows "wire_ok (table_wire T) j"
proof -
  have "map_of T j = Some d" using assms(1,3) by simp
  moreover have "map_of (map (\<lambda>(j, d). (d, j)) T) d = Some j"
    using assms(2,3) by (intro map_of_is_SomeI) (force simp: comp_def case_prod_unfold image_iff)+
  ultimately show ?thesis using assms(4,5) by (simp add: wire_ok_def table_wire_def)
qed

definition example_calls :: "(string \<times> (string \<times> json) list) list" where
  "example_calls = [(''a'', command_request (JStr (Str ''add 1'')) 2), (''b'', direct_request (JStr (Str ''ping'')))]"

definition example_table :: "(json \<times> bytes) list" where
  "example_table =
    [(JObj [(''mtype'', str_json ''command''), (''message'', JStr (Str ''add 1'')), (''timeout'', JFloat 2), (''request_id'', str_json ''a'')],
      ''{\"mtype\": \"command\", \"message\": \"add 1\", \"timeout\": 2.0, \"request_id\": \"a\"}''),
     (JObj [(''mtype'', str_json ''direct_server_command''), (''message'', JStr (Str ''ping'')), (''request_id'', str_json ''b'')],
      ''{\"mtype\": \"direct_server_command\", \"message\": \"ping\", \"request_id\": \"b\"}''),
     (JObj [(''result'', JStr (Dumps (JInt 1))), (''request_id'', str_json ''a'')], ''{\"result\": \"1\", \"request_id\": \"a\"}''),
     (JObj [(''result'', JStr (Dumps (JBool True))), (''request_id'', str_json ''b'')], ''{\"result\": \"true\", \"request_id\": \"b\"}'')]"

abbreviation example_wire :: wire where
  "example_wire \<equiv> table_wire example_table"

lemma example_wire_ok: "j \<in> fst ` set example_table \<Longrightarrow> wire_ok example_wire j"
proof -
  assume "j \<in> fst ` set example_table"
  then obtain d where "(j, d) \<in> set example_table" by force
  moreover have "distinct (map fst example_table)" "distinct (map snd example_table)" "\<forall>(j, d) \<in> set example_table. d \<noteq> [] \<and> length d < 100" by code_simp+
  ultimately show ?thesis by (intro table_wire_ok) auto
qed

definition idle_client :: RPCClient where
  "idle_client = new_RPCClient\<lparr>rc_stream := Some new_stream, rc_handler := Some AwaitLength\<rparr>"

theorem overlapping_calls_answered_witness:
  "(let (c, f) = exchange example_wire example_calls [1, 0] (\<lambda>i. if i = 0 then JInt 1 else JBool True) idle_client new_ClientFollower
    in cf_calls f = [Issue_command (JStr (Str ''add 1'')) (JFloat 2), Direct_server_command (JStr (Str ''ping''))] \<and>
       dict_get (rc_futures c) 0 = Some (Resolved (JStr (Dumps (JInt 1)))) \<and>
       dict_get (rc_futures c) 1 = Some (Resolved (JStr (Dumps (JBool True)))))"
proof -
  let ?v = "\<lambda>i::nat. if i = 0 then JInt 1 else JBool True"
  obtain c f where e: "exchange example_wire example_calls [1, 0] ?v idle_client new_ClientFollower = (c, f)" by (rule prod.exhaust)
  have st: "listening idle_client new_stream" "sr_buf new_stream = []" "rc_out idle_client = []" "pending_requests idle_client = []"
      "reading new_ClientFollower" "sr_buf (cf_stream new_ClientFollower) = []" "cf_tasks new_ClientFollower = []" "cf_out new_ClientFollower = []"
    by (simp_all add: listening_def reading_def idle_client_def new_RPCClient_def new_stream_def new_ClientFollower_def)
  have calls: "distinct (map fst example_calls)" "[] \<notin> fst ` set example_calls"
      "\<forall>p \<in> set example_calls. JObj (request_of p) \<in> fst ` set example_table \<and> call_of (snd p) \<noteq> None" by code_simp+
  have n: "rc_next idle_client = 0" "length example_calls = 2" "cf_calls new_ClientFollower = []"
    by (simp_all add: idle_client_def new_RPCClient_def example_calls_def new_ClientFollower_def)
  have order: "distinct [1, 0 :: nat]" "set [1, 0] = {..<length example_calls}" by (auto simp: example_calls_def)
  have ok: "\<forall>p \<in> set example_calls. wire_ok example_wire (JObj (request_of p)) \<and> call_of (snd p) \<noteq> None"
    using calls(3) by (simp add: example_wire_ok)
  have "\<forall>i \<in> set [0..<2]. JObj [(''result'', JStr (Dumps (reply_of (snd (example_calls ! i)) (?v i)))),
      (''request_id'', str_json (fst (example_calls ! i)))] \<in> fst ` set example_table" by code_simp
  then have resp: "\<forall>i < length example_calls. wire_ok example_wire (JObj [(''result'', JStr (Dumps (reply_of (snd (example_calls ! i)) (?v i)))),
      (''request_id'', str_json (fst (example_calls ! i)))])" unfolding n by (simp add: example_wire_ok)
  have r: "map (\<lambda>p. the (call_of (snd p))) example_calls = [Issue_command (JStr (Str ''add 1'')) (JFloat 2), Direct_server_command (JStr (Str ''ping''))]"
      "reply_of (snd (example_calls ! 0)) (JInt 1) = JInt 1" "reply_of (snd (example_calls ! 1)) (JBool True) = JBool True" by code_simp+
  show ?thesis using overlapping_calls_answered [OF st calls(1,2) ok order resp e] e r unfolding n by (simp add: less_Suc_eq numeral_2_eq_2)
qed

section \<open>Connections that end\<close>

text \<open>Everything that happens to a client: its own calls, timeouts, bytes, the end of the stream, an exception of the transport, \<open>close\<close>.\<close>

inductive client_step :: "wire \<Rightarrow> RPCClient \<Rightarrow> RPCClient \<Rightarrow> bool" for W where
  send: "send_request W ok drained rid msg c = (r, c') \<Longrightarrow> rid \<notin> fst ` set (pending_requests c) \<Longrightarrow> client_step W c c'"
| expire: "dict_get (pending_requests c) rid = Some k \<Longrightarrow> response_timeout rid k c = (r, c') \<Longrightarrow> client_step W c c'"
| turn: "client_step W c (response_handler W c)"
| receive: "client_step W c (client_receive W d c)"
| eof: "client_step W c (client_eof W c)"
| lost: "client_step W c (response_handler W (c\<lparr>rc_stream := map_option (\<lambda>st. st\<lparr>sr_exn := Some e\<rparr>) (rc_stream c)\<rparr>))"
| close: "client_step W c (client_close W c)"

text \<open>Every future that is still pending can be reached through the table, and without a connection the table is empty.\<close>

definition client_inv :: "RPCClient \<Rightarrow> bool" where
  "client_inv c \<longleftrightarrow> dict_ok (pending_requests c) \<and>
     (\<forall>k. dict_get (rc_futures c) k = Some Pending \<longrightarrow> k \<in> snd ` set (pending_requests c)) \<and>
     (rc_stream c = None \<longrightarrow> pending_requests c = [])"

lemma client_inv_frame:
  assumes "client_inv c" and "rc_futures c' = rc_futures c" and "pending_requests c' = pending_requests c"
    and "rc_stream c' = None \<longleftrightarrow> rc_stream c = None"
  shows "client_inv c'"
  using assms by (simp add: client_inv_def)

lemma map_of_mapi: "map_of (map (\<lambda>(k, f). (k, g k f)) xs) k = map_option (g k) (map_of xs k)"
  by (induction xs) auto

lemma cleared_futures [simp]:
  "dict_get (rc_futures (clear_pendings reason c)) k = map_option (\<lambda>f. if f = Pending \<and> k \<in> snd ` set (pending_requests c)
     then Failed (ConnectionError reason) else f) (dict_get (rc_futures c) k)"
  by (simp add: clear_pendings_def map_of_mapi [where g = "\<lambda>k f. if f = Pending \<and> k \<in> snd ` set (pending_requests c) then Failed (ConnectionError reason) else f"])

lemma cleared_simps [simp]:
  "pending_requests (clear_pendings reason c) = []" "rc_stream (clear_pendings reason c) = rc_stream c"
  "rc_closed (clear_pendings reason c) = rc_closed c" "rc_handler (clear_pendings reason c) = rc_handler c"
  by (simp_all add: clear_pendings_def)

text \<open>After clearing, nobody waits, whatever becomes of the connection.\<close>

lemma inv_cleared:
  assumes "dict_ok (pending_requests c) \<and> (\<forall>k. dict_get (rc_futures c) k = Some Pending \<longrightarrow> k \<in> snd ` set (pending_requests c))"
    and "rc_futures c' = rc_futures (clear_pendings reason c)" and "pending_requests c' = []"
  shows "client_inv c'"
  using assms by (auto simp: client_inv_def split: if_splits)

lemma inv_ends: "client_inv c \<Longrightarrow> client_inv (handler_ends W e c)"
  by (rule inv_cleared [of c]) (auto simp: client_inv_def handler_ends_def)

lemma table_del:
  assumes "dict_ok d" and "dict_get d rid = Some k" and "j \<in> snd ` set d" and "j \<noteq> k"
  shows "j \<in> snd ` set (dict_del rid d)"
proof -
  obtain r where "(r, j) \<in> set d" using assms(3) by auto
  moreover have "r \<noteq> rid" using calculation assms(1,2,4) by (metis map_of_is_SomeI option.inject)
  ultimately show ?thesis by (force simp: AList.delete_eq)
qed

lemma inv_settle:
  assumes "client_inv c"
  shows "client_inv (settle W r rid c)"
proof (cases "dict_get (pending_requests c) rid")
  case (Some k)
  have "j \<in> snd ` set (dict_del rid (pending_requests c))" if "dict_get (rc_futures c) j = Some Pending" "j \<noteq> k" for j
    using assms that by (intro table_del [OF _ Some]) (auto simp: client_inv_def)
  moreover have "rc_stream c \<noteq> None" using assms Some by (auto simp: client_inv_def)
  ultimately show ?thesis using assms Some
    by (auto simp: client_inv_def settle_def Let_def split: if_splits)
qed (use assms in \<open>simp add: settle_def\<close>)

lemma inv_response: "client_inv c \<Longrightarrow> handle_response W j c = Inr c' \<Longrightarrow> client_inv c'"
  by (auto simp: handle_response_def inv_settle split: json.splits pystr.splits list.splits if_splits)

lemma handler_reads:
  assumes "rc_handler c = Some p" and "p \<noteq> LoopTop" and "p \<noteq> Finished" and "rc_stream c = Some st"
  shows "response_handler W c = (case read_round W p st of
      Waits p' st' \<Rightarrow> c\<lparr>rc_handler := Some p', rc_stream := Some st'\<rparr>
    | Closed st' \<Rightarrow> handler_ends W None (c\<lparr>rc_stream := Some st'\<rparr>)
    | Raises e st' \<Rightarrow> handler_ends W (Some e) (c\<lparr>rc_stream := Some st'\<rparr>)
    | Message j st' \<Rightarrow> (case handle_response W j (c\<lparr>rc_stream := Some st', rc_handler := Some LoopTop\<rparr>) of
        Inl e \<Rightarrow> handler_ends W (Some e) (c\<lparr>rc_stream := Some st'\<rparr>)
      | Inr c' \<Rightarrow> response_handler W c'))"
  using assms by (subst response_handler.simps) (auto split: phase.splits)

lemma inv_reading:
  assumes "client_inv c" and "rc_handler c = Some p" and "p \<noteq> LoopTop" and "p \<noteq> Finished" and "rc_stream c = Some st"
  shows "client_inv (response_handler W c)"
  using assms
proof (induction "length (sr_buf st)" arbitrary: c p st rule: less_induct)
  case less
  note run = handler_reads [OF less.prems(2-5), of W]
  have moved: "client_inv (c\<lparr>rc_stream := Some st', rc_handler := h\<rparr>)" "client_inv (c\<lparr>rc_stream := Some st'\<rparr>)"
    "client_inv (c\<lparr>rc_handler := h, rc_stream := Some st'\<rparr>)" for st' h
    using less.prems(5) by (auto intro: client_inv_frame [OF less.prems(1)])
  show ?case
  proof (cases "read_round W p st")
    case (Message j st')
    show ?thesis
    proof (cases "handle_response W j (c\<lparr>rc_stream := Some st', rc_handler := Some LoopTop\<rparr>)")
      case (Inr c')
      note c' = handle_response_frame [OF Inr, simplified] inv_response [OF moved(1) Inr]
      have "client_inv (c'\<lparr>rc_handler := Some AwaitLength\<rparr>)" using c'(5) by (rule client_inv_frame) simp_all
      then have "client_inv (response_handler W (c'\<lparr>rc_handler := Some AwaitLength\<rparr>))"
        using less.hyps [OF read_round_shrinks [OF Message], of "c'\<lparr>rc_handler := Some AwaitLength\<rparr>" AwaitLength] c' by simp
      then have "client_inv (response_handler W c')" using c' inv_ends by (subst response_handler.simps) simp
      then show ?thesis unfolding run using Message Inr by simp
    qed (use Message run moved inv_ends in simp)
  qed (use run moved inv_ends in simp_all)
qed

lemma inv_handler:
  assumes "client_inv c"
  shows "client_inv (response_handler W c)"
proof (cases "\<exists>p st. rc_handler c = Some p \<and> rc_stream c = Some st \<and> p \<noteq> LoopTop \<and> p \<noteq> Finished")
  case True
  then show ?thesis using inv_reading [OF assms] by blast
next
  case False
  have t: "client_inv (c\<lparr>rc_handler := Some AwaitLength\<rparr>)" using assms by (rule client_inv_frame) simp_all
  have "client_inv (response_handler W (c\<lparr>rc_handler := Some AwaitLength\<rparr>))" if "rc_stream c \<noteq> None"
    using that inv_reading [OF t, of AwaitLength _ W] by fastforce
  then show ?thesis using False assms
    by (subst response_handler.simps) (auto simp: inv_ends split: option.splits phase.splits)
qed

lemma inv_step: "client_step W c c' \<Longrightarrow> client_inv c \<Longrightarrow> client_inv c'"
proof (induction rule: client_step.induct)
  case (send ok drained rid msg c r c')
  have a: "dict_set rid k (pending_requests c) = pending_requests c @ [(rid, k)]" for k
    using send(2) by (simp add: update_append_new)
  show ?case using send a
    by (cases "rc_stream c") (auto simp: send_request_def ensure_connection_def run client_inv_def split: if_splits)
next
  case (expire c rid k r c')
  have s: "rc_stream c \<noteq> None" using expire by (auto simp: client_inv_def)
  have "j \<in> snd ` set (dict_del rid (pending_requests c))" if "dict_get (rc_futures c) j = Some Pending" "j \<noteq> k" for j
    using expire that by (intro table_del [OF _ expire(1)]) (auto simp: client_inv_def)
  then show ?case using expire s by (auto simp: response_timeout_def run client_inv_def split: if_splits)
next
  case (receive d c)
  then show ?case unfolding client_receive_def by (intro inv_handler) (auto intro: client_inv_frame)
next
  case (eof c)
  then show ?case unfolding client_eof_def by (intro inv_handler) (auto intro: client_inv_frame)
next
  case (lost c e)
  then show ?case by (intro inv_handler) (auto intro: client_inv_frame)
next
  case (close c)
  have "client_inv (handler_ends W None (c\<lparr>rc_closed := True\<rparr>))" by (rule inv_ends) (rule client_inv_frame [OF close], simp_all)
  then show ?case using close unfolding client_close_def Let_def
    by (intro inv_cleared [of _ _ "''close''"]) (auto simp: client_inv_def split: option.splits phase.splits)
qed (rule inv_handler)

lemma inv_reachable: "(client_step W)\<^sup>*\<^sup>* new_RPCClient c \<Longrightarrow> client_inv c"
  by (induction rule: rtranclp_induct) (auto simp: client_inv_def new_RPCClient_def dest: inv_step [unfolded client_inv_def])

text \<open>A loop that reads a stream that has ended does not wait.\<close>

lemma eof_no_wait:
  assumes "sr_eof st \<or> sr_exn st \<noteq> None"
  shows "read_round W p st \<noteq> Waits p' st'" "read_round W p st = Message j st' \<Longrightarrow> sr_eof st' \<or> sr_exn st' \<noteq> None"
proof -
  have d: "read_data W n s \<noteq> Waits p' st' \<and> (read_data W n s = Message j st' \<longrightarrow> sr_eof st' \<or> sr_exn st' \<noteq> None)"
    if "sr_eof s \<or> sr_exn s \<noteq> None" for n s
    using that by (auto simp: read_data_def stream_read_def split: option.splits if_splits sum.splits)
  have "sr_eof s" if "stream_read 20 st = ReadData x s" for x s
    using that assms by (auto simp: stream_read_def split: option.splits if_splits)
  then have "read_length W st \<noteq> Waits p' st' \<and> (read_length W st = Message j st' \<longrightarrow> sr_eof st' \<or> sr_exn st' \<noteq> None)"
    using d assms by (auto simp: read_length_def split: read_result.splits if_splits sum.splits)
      (auto simp: stream_read_def split: option.splits if_splits)
  with d [OF assms] show "read_round W p st \<noteq> Waits p' st'"
    "read_round W p st = Message j st' \<Longrightarrow> sr_eof st' \<or> sr_exn st' \<noteq> None"
    by (auto simp: read_round_def split: phase.splits)
qed

lemma ends_simps [simp]:
  "rc_stream (handler_ends W e c) = None" "rc_closed (handler_ends W e c)" "rc_handler (handler_ends W e c) = Some Finished"
  by (simp_all add: handler_ends_def)

lemma handler_ends_at_eof:
  assumes "rc_handler c = Some p" and "p \<noteq> LoopTop" and "p \<noteq> Finished" and "rc_stream c = Some st" and "sr_eof st \<or> sr_exn st \<noteq> None"
  shows "rc_stream (response_handler W c) = None \<and> rc_closed (response_handler W c)"
  using assms
proof (induction "length (sr_buf st)" arbitrary: c p st rule: less_induct)
  case less
  note run = handler_reads [OF less.prems(1-4), of W]
  show ?case
  proof (cases "read_round W p st")
    case (Waits p' st')
    then show ?thesis using eof_no_wait(1) [OF less.prems(5)] by blast
  next
    case (Message j st')
    show ?thesis
    proof (cases "handle_response W j (c\<lparr>rc_stream := Some st', rc_handler := Some LoopTop\<rparr>)")
      case (Inr c')
      note c' = handle_response_frame [OF Inr, simplified]
      have "rc_stream (response_handler W (c'\<lparr>rc_handler := Some AwaitLength\<rparr>)) = None \<and>
          rc_closed (response_handler W (c'\<lparr>rc_handler := Some AwaitLength\<rparr>))"
        using less.hyps [OF read_round_shrinks [OF Message], of "c'\<lparr>rc_handler := Some AwaitLength\<rparr>" AwaitLength]
          eof_no_wait(2) [OF less.prems(5) Message] c' by simp
      then have "rc_stream (response_handler W c') = None \<and> rc_closed (response_handler W c')"
        using c' by (subst (1 2) response_handler.simps) simp
      then show ?thesis unfolding run using Message Inr by simp
    qed (use Message run in simp)
  qed (use run in simp_all)
qed

text \<open>C33. No caller is left waiting. In every state a client can reach, a future that is not done is in the table of pending requests; without a
  connection there is no such future at all. So when the stream ends, when the transport fails under a handler that waits, or when the
  client is closed, every call that was waiting ends.\<close>

theorem no_caller_stranded:
  assumes "(client_step W)\<^sup>*\<^sup>* new_RPCClient c"
  shows "(\<forall>k. dict_get (rc_futures c) k = Some Pending \<longrightarrow> rc_stream c \<noteq> None \<and> (\<exists>rid. dict_get (pending_requests c) rid = Some k)) \<and>
     (\<forall>k. dict_get (rc_futures (client_close W c)) k \<noteq> Some Pending) \<and>
     (\<forall>p. rc_handler c = Some p \<and> p \<noteq> LoopTop \<and> p \<noteq> Finished \<longrightarrow> (\<forall>k. dict_get (rc_futures (client_eof W c)) k \<noteq> Some Pending))"
proof -
  have c: "client_inv c" by (rule inv_reachable [OF assms])
  have none: "dict_get (rc_futures d) k \<noteq> Some Pending" if "client_inv d" "rc_stream d = None" for d k
    using that by (auto simp: client_inv_def)
  have "rc_stream c \<noteq> None \<and> (\<exists>rid. dict_get (pending_requests c) rid = Some k)" if "dict_get (rc_futures c) k = Some Pending" for k
  proof -
    have "dict_ok (pending_requests c)" "k \<in> snd ` set (pending_requests c)" using c that by (simp_all add: client_inv_def)
    then obtain rid where "dict_get (pending_requests c) rid = Some k" by (auto intro: map_of_is_SomeI)
    then show ?thesis using none [OF c, of k] that by blast
  qed
  moreover have "dict_get (rc_futures (client_close W c)) k \<noteq> Some Pending" for k
    by (rule none [OF inv_step [OF client_step.close c]]) (simp add: client_close_def Let_def)
  moreover have "dict_get (rc_futures (client_eof W c)) k \<noteq> Some Pending" if p: "rc_handler c = Some p" "p \<noteq> LoopTop" "p \<noteq> Finished" for p k
  proof (cases "rc_stream c")
    case (Some st)
    have "rc_stream (client_eof W c) = None" unfolding client_eof_def
      using handler_ends_at_eof [of "c\<lparr>rc_stream := Some (st\<lparr>sr_eof := True\<rparr>)\<rparr>" p "st\<lparr>sr_eof := True\<rparr>" W] p Some by simp
    then show ?thesis by (rule none [OF inv_step [OF client_step.eof c]])
  next
    case None
    then have "rc_stream (client_eof W c) = None" using p unfolding client_eof_def
      by (subst response_handler.simps) (auto split: phase.splits)
    then show ?thesis by (rule none [OF inv_step [OF client_step.eof c]])
  qed
  ultimately show ?thesis by blast
qed

theorem no_caller_stranded_witness:
  "\<exists>c. dict_get (rc_futures c) 0 = Some Pending \<and> dict_get (rc_futures (client_close example_wire c)) 0 \<noteq> Some Pending"
proof -
  obtain r c where s: "send_request example_wire True True ''a'' (direct_request JNull) new_RPCClient = (r, c)" by (rule prod.exhaust)
  then have "client_step example_wire new_RPCClient c" by (rule client_step.send) (simp add: new_RPCClient_def)
  then have "(client_step example_wire)\<^sup>*\<^sup>* new_RPCClient c" by (rule r_into_rtranclp)
  moreover have "dict_get (rc_futures c) 0 = Some Pending" using s
    by (auto simp: send_request_def ensure_connection_def run new_RPCClient_def)
  ultimately show ?thesis using no_caller_stranded by blast
qed

text \<open>A client that has lost its connection once is of no further use. After the end of a connection every later call opens a new
  connection and writes its request on it, which the server may well execute; but the task that should read the answer finds the client marked as closed,
  drops the connection and fails the call.\<close>

theorem client_never_recovers:
  assumes "rc_closed c" and "rc_stream c = None"
  shows "\<exists>c'. send_request W True True rid msg c = (Inr rid, c') \<and> rc_out c' = frame (dumps W (JObj (request_of (rid, msg)))) \<and>
     (let d = response_handler W c' in dict_get (rc_futures d) (rc_next c) = Some (Failed (ConnectionError ''connection closed'')) \<and>
        rc_closed d \<and> rc_stream d = None)"
proof -
  let ?c = "c\<lparr>rc_stream := Some new_stream, rc_out := [], rc_handler := Some LoopTop\<rparr>"
  obtain c' where c': "send_request W True True rid msg ?c = (Inr rid, c')" "c' = ?c\<lparr>rc_futures := dict_set (rc_next ?c) Pending (rc_futures ?c),
     pending_requests := dict_set rid (rc_next ?c) (pending_requests ?c), rc_next := Suc (rc_next ?c),
     rc_out := rc_out ?c @ frame (dumps W (JObj (request_of (rid, msg))))\<rparr>"
    using send_one [of ?c W True rid msg] by simp
  have "send_request W True True rid msg c = (Inr rid, c')"
    using c' assms(2) by (simp add: send_request_def ensure_connection_def run request_of_def)
  moreover have "response_handler W c' = handler_ends W None c'" using assms(1) c'(2) by (subst response_handler.simps) simp
  moreover have "rc_next c \<in> snd ` set (pending_requests c')"
  proof -
    have "dict_get (pending_requests c') rid = Some (rc_next c)" using c'(2) by simp
    then show ?thesis by (metis image_eqI map_of_SomeD snd_conv)
  qed
  ultimately show ?thesis using c'(2) by (auto simp: Let_def handler_ends_def)
qed

theorem client_never_recovers_witness:
  "\<exists>c'. send_request example_wire True True ''a'' [] (new_RPCClient\<lparr>rc_closed := True\<rparr>) = (Inr ''a'', c') \<and>
     dict_get (rc_futures (response_handler example_wire c')) 0 = Some (Failed (ConnectionError ''connection closed''))"
  using client_never_recovers [of "new_RPCClient\<lparr>rc_closed := True\<rparr>" example_wire "''a''" "[]"]
  by (auto simp: new_RPCClient_def Let_def)

text \<open>A call that raises takes the next request with it. When the raft server raises for one request, the client gets the error for
  that request, but the connection is marked as broken, which the reading loop notices only after its next read: it reads one more
  request, and then ends, cancelling that request before it starts. The raft server is not called, the connection is closed.\<close>

theorem failed_call_drops_next_request:
  assumes "dict_get (cf_tasks f) k = Some t" and "tk_started t" and "cf_phase f = AwaitLength" and "cf_stream f = new_stream"
    and "wire_ok W (JObj r)" and "f1 = finish_task W drained k (Inl e) f"
    and "f2 = follower_run W False (f1\<lparr>cf_stream := stream_feed (frame (dumps W (JObj r))) (cf_stream f1)\<rparr>)"
  shows "cf_out f2 = cf_out f @ frame (dumps W (JObj [(''result'', JNull), (''error'', str_json (trace_text W e)), (''request_id'', tk_id t)])) \<and>
     cf_phase f2 = Finished \<and> cf_tasks f2 = [] \<and> cf_calls f2 = cf_calls f \<and> cf_writer_closed f2"
proof -
  let ?g = "f1\<lparr>cf_stream := stream_feed (frame (dumps W (JObj r))) (cf_stream f1)\<rparr>"
  have f1: "cf_phase f1 = AwaitLength" "cf_broken f1" "cf_stream f1 = new_stream" "cf_calls f1 = cf_calls f"
      "cf_out f1 = cf_out f @ frame (dumps W (JObj [(''result'', JNull), (''error'', str_json (trace_text W e)), (''request_id'', tk_id t)]))"
    using assms(1-4,6) by (simp_all add: finish_task_def answer_request_def write_response_def cleanup_task_def)
  have "read_length W (cf_stream ?g) = Message (JObj r) ((cf_stream ?g)\<lparr>sr_buf := []\<rparr>)"
    using assms(5) f1(3) by (intro read_frame) (simp_all add: stream_feed_def new_stream_def)
  then have "f2 = follower_run W False (spawn r (?g\<lparr>cf_stream := (cf_stream ?g)\<lparr>sr_buf := []\<rparr>\<rparr>))"
    unfolding assms(7) using f1(1) by (subst follower_run.simps) (simp add: read_round_def)
  also have "\<dots> = end_run None (spawn r (?g\<lparr>cf_stream := (cf_stream ?g)\<lparr>sr_buf := []\<rparr>\<rparr>))"
    using f1(2) by (subst follower_run.simps) (simp add: spawn_def)
  finally show ?thesis using f1 by (simp add: end_run_def cleanup_def spawn_def)
qed

theorem failed_call_drops_next_request_witness:
  "\<exists>f2. f2 = follower_run example_wire False ((finish_task example_wire True 0 (Inl TimeoutError)
        (new_ClientFollower\<lparr>cf_phase := AwaitLength, cf_tasks := [(0, \<lparr>tk_request = [], tk_id = JNull, tk_started = True\<rparr>)]\<rparr>))
        \<lparr>cf_stream := stream_feed (frame (dumps example_wire (JObj (request_of (hd example_calls))))) new_stream\<rparr>) \<and>
     cf_phase f2 = Finished \<and> cf_calls f2 = []"
proof -
  let ?f = "new_ClientFollower\<lparr>cf_phase := AwaitLength, cf_tasks := [(0, \<lparr>tk_request = [], tk_id = JNull, tk_started = True\<rparr>)]\<rparr>"
  let ?f1 = "finish_task example_wire True 0 (Inl TimeoutError) ?f"
  have s: "cf_stream ?f1 = new_stream"
    by (simp add: finish_task_def answer_request_def write_response_def cleanup_task_def new_ClientFollower_def)
  have "JObj (request_of (hd example_calls)) \<in> fst ` set example_table" by code_simp
  then have "wire_ok example_wire (JObj (request_of (hd example_calls)))" by (rule example_wire_ok)
  from failed_call_drops_next_request [OF _ _ _ _ this refl refl, of ?f 0 _ True TimeoutError] show ?thesis
    unfolding s by (simp add: new_ClientFollower_def)
qed

section \<open>Short reads and the end of the server\<close>

text \<open>\<open>read(n)\<close> may return less than \<open>n\<close> bytes: when the body of a frame arrives in two pieces, the first is parsed as if it were all, and the
  connection ends with an error.\<close>

lemma short_read_ends:
  assumes "reading f" and "sr_buf (cf_stream f) = []" and "dumps W j = a @ b" and "a \<noteq> []" and "length (a @ b) < 10 ^ 20"
    and "loads W a = Inl ValueError"
  shows "let g = follower_run W False (f\<lparr>cf_stream := stream_feed (ljust 20 (string_of_nat (length (a @ b))) @ a) (cf_stream f)\<rparr>)
     in cf_phase g = Finished \<and> cf_raised g = Some ValueError \<and> cf_tasks g = []"
proof -
  let ?h = "ljust 20 (string_of_nat (length (a @ b)))"
  let ?f = "f\<lparr>cf_stream := stream_feed (?h @ a) (cf_stream f)\<rparr>"
  have h: "length ?h = 20" using assms(5) by (rule header_length)
  have "stream_read 20 (cf_stream ?f) = ReadData ?h ((cf_stream ?f)\<lparr>sr_buf := a\<rparr>)"
    using assms(1,2) h by (auto simp: stream_read_def stream_feed_def reading_def)
  moreover have "?h \<noteq> []" using h by auto
  moreover have "read_data W (int (length (a @ b))) ((cf_stream ?f)\<lparr>sr_buf := a\<rparr>) = Raises ValueError ((cf_stream ?f)\<lparr>sr_buf := []\<rparr>)"
    using assms(1,4,6) by (cases a) (simp_all add: read_data_def stream_read_def reading_def stream_feed_def)
  ultimately have "read_length W (cf_stream ?f) = Raises ValueError ((cf_stream ?f)\<lparr>sr_buf := []\<rparr>)"
    by (simp add: read_length_def int_of_padded del: length_append)
  moreover have "reading ?f" using assms(1) by (simp add: reading_def stream_feed_def)
  ultimately show ?thesis unfolding run_top [OF \<open>reading ?f\<close>]
    by (subst follower_run.simps) (simp add: read_round_def end_run_def cleanup_def Let_def)
qed

text \<open>\<open>stop\<close> closes every connection the server tracks, cancels its tasks and closes the socket.\<close>

lemma stop_closes_connections:
  assumes "server_task v"
  shows "active_connections (server_stop v) = [] \<and> \<not> sock_server (server_stop v) \<and> \<not> server_task (server_stop v) \<and> shutdown_event (server_stop v) \<and>
     (\<forall>i \<in> set (active_connections v). \<forall>c. dict_get (rs_followers (server_stop v)) i = Some c \<longrightarrow> cf_tasks c = [] \<and> cf_writer_closed c)"
  using assms
  by (auto simp: server_stop_def Let_def serve_cancelled_def shutdown_def cleanup_def
      map_of_mapi [where g = "\<lambda>i c. if i \<in> set (active_connections v) then cleanup c else c"])

end
