(* ===== verification/Counters_App.thy ===== *)
theory Counters_App
  imports Deck Py_Text Log_Control
begin

text \<open>
  The counters example (\<open>src/examples/counters/src\<close>), the application the documentation builds a cluster around: the counters and
  their file (\<open>base/counters.py\<close>), their snapshots (\<open>ops/raft_counters.py\<close>), the collector and the dispatcher that turn method
  calls into texts and back (\<open>split_base\<close>), the pilot that puts them under an engine (\<open>raft/pilot.py\<close>), the client that follows
  redirections and retries (\<open>raft/raft_client.py\<close>) and the commands a server takes outside the log (\<open>ops/direct.py\<close>). A pickled dictionary and its
  base64 text are represented by the value, as the texts of \<open>json.dumps\<close> are; counts are integers.
\<close>

section \<open>Counters\<close>

record counters_app =
  counts :: "(string \<times> int) list"
  counters_file :: "pystr option"
  snapshot_file :: "pystr option"
  import_tool :: "(SnapShot \<times> (string \<times> int) list option) option"
  other_node_clients :: "(uri \<times> string \<times> int) list"
  shutdown_flag :: bool

definition counts_json :: "(string \<times> int) list \<Rightarrow> json" where
  "counts_json c = JObj (map (\<lambda>(k, v). (k, JInt v)) c)"

definition pickled :: "(string \<times> int) list \<Rightarrow> pystr" where
  "pickled c = Dumps (counts_json c)"

definition unpickled :: "pystr \<Rightarrow> exn + (string \<times> int) list" where
  "unpickled t = sbind (json_loads t) (\<lambda>j. sbind (j_obj j) (smap (\<lambda>(k, v). sbind (j_int v) (\<lambda>i. Inr (k, i)))))"

definition new_Counters :: "pystr option \<Rightarrow> pystr option \<Rightarrow> counters_app" where
  "new_Counters f sf = \<lparr>counts = (case f of None \<Rightarrow> [] | Some t \<Rightarrow> (case unpickled t of Inr c \<Rightarrow> c | Inl _ \<Rightarrow> [])),
     counters_file = f, snapshot_file = sf, import_tool = None, other_node_clients = [], shutdown_flag = False\<rparr>"

definition save_counters :: "(counters_app, unit) eff" where
  "save_counters = modE (\<lambda>a. a\<lparr>counters_file := Some (pickled (counts a))\<rparr>)"

definition ascii_letter :: "char \<Rightarrow> bool" where
  "ascii_letter c \<longleftrightarrow> (let n = of_char c :: nat in 65 \<le> n \<and> n \<le> 90 \<or> 97 \<le> n \<and> n \<le> 122)"

definition counter_name :: "string \<Rightarrow> bool" where
  "counter_name s = (case s of [c] \<Rightarrow> ascii_letter c | _ \<Rightarrow> False)"

definition count_of :: "(string \<times> int) list \<Rightarrow> string \<Rightarrow> int" where
  "count_of c n = or_else 0 (dict_get c n)"

definition counter_add :: "string \<Rightarrow> int \<Rightarrow> (counters_app, int) eff" where
  "counter_add name v =
     (if \<not> counter_name name then throw (AppError ''Counter names must be a single ascii letter'')
      else seqE (modE (\<lambda>a. a\<lparr>counts := dict_set name (count_of (counts a) name + v) (counts a)\<rparr>))
        (seqE save_counters (getsE (\<lambda>a. count_of (counts a) name))))"

definition get_counters :: "(counters_app, (string \<times> int) list) eff" where
  "get_counters = getsE counts"

subsection \<open>Snapshots\<close>

definition counters_make_snapshot :: "(counters_app, unit) eff" where
  "counters_make_snapshot = modE (\<lambda>a. a\<lparr>snapshot_file := Some (pickled (counts a))\<rparr>)"

text \<open>The chunk is read from the file of the counters, the snapshot file is only looked for.\<close>

definition counters_get_chunk :: "(counters_app, pystr option \<times> int \<times> bool) eff" where
  "counters_get_chunk = bindE (getsE id) (\<lambda>a.
     if snapshot_file a = None then ret (None, 0, True)
     else bindE (some_or (AppError ''FileNotFoundError'') (counters_file a)) (\<lambda>t. ret (Some t, 0, True)))"

definition tool_get_chunk :: "(counters_app, pystr \<times> int \<times> bool) eff" where
  "tool_get_chunk = bindE counters_get_chunk (\<lambda>(t, off, dn). bindE (some_or TypeError t) (\<lambda>t. ret (t, off, dn)))"

definition tool_load_chunk :: "pystr \<Rightarrow> (counters_app, unit) eff" where
  "tool_load_chunk t = bindE (getsE import_tool) (\<lambda>it. bindE (some_or AttributeError it) (\<lambda>(sn, _).
     bindE (liftE (unpickled t)) (\<lambda>c. modE (\<lambda>a. a\<lparr>import_tool := Some (sn, Some c)\<rparr>))))"

text \<open>Applying without a chunk would set the counters to \<open>None\<close>; the engine loads a chunk first.\<close>

definition tool_apply :: "(counters_app, SnapShot) eff" where
  "tool_apply = bindE (getsE import_tool) (\<lambda>it. bindE (some_or AttributeError it) (\<lambda>(sn, nc).
     bindE (some_or TypeError nc) (\<lambda>c. seqE (modE (\<lambda>a. a\<lparr>counts := c\<rparr>)) (ret sn))))"

section \<open>Collector and dispatcher\<close>

text \<open>
  A method of the counters called by name with keyword arguments. \<open>save\<close> and \<open>get_snapshot_tool\<close> give back values that
  cannot be awaited, the bytes of a chunk have no JSON form; attributes that are no methods of the class are not distinguished from missing ones.
\<close>

definition call_method :: "string \<Rightarrow> (string \<times> json) list \<Rightarrow> (counters_app, json) eff" where
  "call_method c kw =
     (if c = ''counter_add'' then
        (if set (dict_keys kw) \<noteq> {''name'', ''value''} then throw TypeError
         else bindE (liftE (sbind (item ''name'' kw) j_str)) (\<lambda>n. bindE (liftE (sbind (item ''value'' kw) j_int)) (\<lambda>v.
           bindE (counter_add n v) (\<lambda>r. ret (JInt r)))))
      else if c = ''get_counters'' then
        (if kw \<noteq> [] then throw TypeError else bindE get_counters (\<lambda>r. ret (counts_json r)))
      else if c = ''make_snapshot'' then
        (if kw \<noteq> [] then throw TypeError else seqE counters_make_snapshot (ret JNull))
      else if c = ''get_snapshot_chunk'' then
        (if \<not> set (dict_keys kw) \<subseteq> {''offset''} then throw TypeError
         else bindE counters_get_chunk (\<lambda>(t, off, dn).
           if t = None then ret (JList [JNull, JInt off, JBool dn]) else throw TypeError))
      else if c = ''save'' then (if kw \<noteq> [] then throw TypeError else seqE save_counters (throw TypeError))
      else if c = ''get_snapshot_tool'' then throw TypeError
      else throw AttributeError)"

definition route_command :: "pystr option \<Rightarrow> (counters_app, pystr) eff" where
  "route_command packed = bindE (some_or TypeError packed) (\<lambda>t.
     bindE (liftE (sbind (json_loads t) j_obj)) (\<lambda>d.
     bindE (liftE (sbind (item ''args'' d) j_obj)) (\<lambda>kw.
     bindE (liftE (sbind (item ''command_name'' d) j_str)) (\<lambda>c.
     bindE (call_method c kw) (\<lambda>r. ret (Dumps r))))))"

definition command_text :: "string \<Rightarrow> (string \<times> json) list \<Rightarrow> pystr" where
  "command_text c kw = Dumps (JObj [(''command_name'', str_json c), (''args'', JObj kw)])"

definition add_command :: "string \<Rightarrow> int \<Rightarrow> pystr" where
  "add_command name v = command_text ''counter_add'' [(''name'', str_json name), (''value'', JInt v)]"

text \<open>The pipe takes a request to the dispatcher; \<open>pipe_issue\<close> is the local one.\<close>

definition pipe_issue :: "pystr \<Rightarrow> (counters_app, pystr) eff" where
  "pipe_issue t = route_command (Some t)"

definition collector_counter_add :: "(pystr \<Rightarrow> ('s, pystr) eff) \<Rightarrow> string \<Rightarrow> int \<Rightarrow> ('s, json) eff" where
  "collector_counter_add pipe name v = bindE (pipe (add_command name v)) (\<lambda>r. liftE (json_loads r))"

definition collector_get_counters :: "(pystr \<Rightarrow> ('s, pystr) eff) \<Rightarrow> ('s, json) eff" where
  "collector_get_counters pipe = bindE (pipe (command_text ''get_counters'' [])) (\<lambda>r. liftE (json_loads r))"

section \<open>The pilot\<close>

definition pilot_process_command :: "pystr option \<Rightarrow> int option \<Rightarrow> (counters_app, pystr option \<times> pystr option) eff" where
  "pilot_process_command c n =
     tryE (bindE (route_command c) (\<lambda>r. ret (Some r, None))) (\<lambda>e. ret (None, Some (format_exc e)))"

fun split_on :: "char \<Rightarrow> string \<Rightarrow> string list" where
  "split_on d [] = [[]]"
| "split_on d (c # cs) = (if c = d then [] # split_on d cs
     else case split_on d cs of [] \<Rightarrow> [[c]] | w # ws \<Rightarrow> (c # w) # ws)"

text \<open>\<open>uri.split(':')[1:]\<close> has to be a host and a port.\<close>

definition endpoint :: "uri \<Rightarrow> exn + (string \<times> int)" where
  "endpoint u = (case split_on (CHR '':'') u of
     [_, host, port] \<Rightarrow> sbind (int_of_text port) (\<lambda>p. Inr (dropWhile (\<lambda>c. c = CHR ''/'') host, p))
   | _ \<Rightarrow> Inl ValueError)"

definition ensure_node_connection :: "uri \<Rightarrow> (counters_app, string \<times> int) eff" where
  "ensure_node_connection u = bindE (getsE (\<lambda>a. dict_get (other_node_clients a) u)) (\<lambda>c.
     case c of Some ep \<Rightarrow> ret ep
     | None \<Rightarrow> bindE (liftE (endpoint u)) (\<lambda>ep.
         seqE (modE (\<lambda>a. a\<lparr>other_node_clients := dict_set u ep (other_node_clients a)\<rparr>)) (ret ep)))"

text \<open>Where a message or a response goes, if it goes anywhere; \<open>rpc\<close> says whether the call to that place succeeds.\<close>

definition pilot_send ::
  "time \<Rightarrow> SerialNumberGenerator \<Rightarrow> (string \<times> int \<Rightarrow> pystr \<Rightarrow> bool) \<Rightarrow> uri \<Rightarrow> pystr \<Rightarrow>
   (counters_app, ((string \<times> int) \<times> pystr) option) eff" where
  "pilot_send clock g rpc u t = bindE (getsE shutdown_flag) (\<lambda>down.
     if down then ret None
     else tryE (bindE (liftE (fst (decode_message clock t g))) (\<lambda>_.
         bindE (ensure_node_connection u) (\<lambda>ep. ret (if rpc ep t then Some (ep, t) else None))))
       (\<lambda>e. ret None))"

definition pilot_stop_commanded :: "(counters_app, unit) eff" where
  "pilot_stop_commanded = modE (\<lambda>a. a\<lparr>shutdown_flag := True, other_node_clients := []\<rparr>)"

definition counters_env :: "('l, 'b) env \<Rightarrow> ('l, counters_app) env" where
  "counters_env E = \<lparr>log = log E, uniform = uniform E, local_config = local_config E, initial_config = initial_config E,
     process_command = pilot_process_command,
     create_snapshot = (\<lambda>i t. seqE counters_make_snapshot (ret \<lparr>snap_index = i, snap_term = t\<rparr>)),
     begin_snapshot_import = (\<lambda>sn. modE (\<lambda>a. a\<lparr>import_tool := Some (sn, None)\<rparr>)),
     load_snapshot_chunk = tool_load_chunk, apply_snapshot = tool_apply, begin_snapshot_export = (\<lambda>sn. ret ()),
     get_snapshot_chunk = (\<lambda>sn off. tool_get_chunk), stop_commanded = pilot_stop_commanded,
     on_event = (\<lambda>h e. ret ()), join_callback = (\<lambda>ok u. ret ()), exit_callback = (\<lambda>ok u. ret ())\<rparr>"

section \<open>The client\<close>

record raft_client =
  rc_server_uri :: uri
  rc_client :: "(string \<times> int) option"
  rc_leader_uri :: "uri option"
  rc_leader_client :: "(string \<times> int) option"
  rc_calls :: nat

definition new_RaftClient :: "uri \<Rightarrow> raft_client" where
  "new_RaftClient u = \<lparr>rc_server_uri = u, rc_client = None, rc_leader_uri = None, rc_leader_client = None, rc_calls = 0\<rparr>"

definition client_connect :: "(raft_client, unit) eff" where
  "client_connect = bindE (getsE id) (\<lambda>c. whenE (rc_client c = None)
     (bindE (liftE (endpoint (rc_server_uri c))) (\<lambda>ep. modE (\<lambda>c. c\<lparr>rc_client := Some ep\<rparr>))))"

text \<open>A uri that does not parse leaves the old connection, which has been closed.\<close>

definition connect_to_leader :: "uri \<Rightarrow> (raft_client, unit) eff" where
  "connect_to_leader u = bindE (getsE id) (\<lambda>c.
     if rc_leader_client c \<noteq> None \<and> rc_leader_uri c = Some u then ret ()
     else seqE (modE (\<lambda>c. c\<lparr>rc_leader_uri := Some u\<rparr>))
       (bindE (liftE (endpoint u)) (\<lambda>ep. modE (\<lambda>c. c\<lparr>rc_leader_client := Some ep\<rparr>))))"

definition raft_client_close :: "(raft_client, unit) eff" where
  "raft_client_close = modE (\<lambda>c. c\<lparr>rc_client := None\<rparr>)"

text \<open>
  \<open>ask k ep t\<close> is the answer to the \<open>k\<close>-th call, at the place \<open>ep\<close>: the fields of a \<open>CommandResult\<close>, or the
  text a server gives back when the command raised there; a call may also fail.
\<close>

type_synonym servers_answer = "nat \<Rightarrow> string \<times> int \<Rightarrow> pystr \<Rightarrow> exn + (pystr + CommandResult)"

definition client_call :: "servers_answer \<Rightarrow> pystr \<Rightarrow> (raft_client, pystr + CommandResult) eff" where
  "client_call ask t = bindE (getsE rc_leader_client) (\<lambda>lead.
     bindE (case lead of Some ep \<Rightarrow> ret ep
            | None \<Rightarrow> seqE client_connect (bindE (getsE rc_client) (some_or AttributeError))) (\<lambda>ep.
     bindE (getsE rc_calls) (\<lambda>k. seqE (modE (\<lambda>c. c\<lparr>rc_calls := Suc k\<rparr>)) (liftE (ask k ep t)))))"

text \<open>
  A redirection starts over with the default number of retries. Nothing bounds the redirections, so the calls are counted by fuel
  and \<open>None\<close> is a client that is still asking.
\<close>

fun client_issue :: "servers_answer \<Rightarrow> nat \<Rightarrow> pystr \<Rightarrow> nat \<Rightarrow> nat \<Rightarrow> (raft_client, pystr option) eff" where
  "client_issue ask 0 t max_retries retry_count = ret None"
| "client_issue ask (Suc fuel) t max_retries retry_count = bindE (client_call ask t) (\<lambda>raw.
     case raw of Inl _ \<Rightarrow> throw (AppError ''cannot convert issue_command rpc result'')
     | Inr r \<Rightarrow>
         if text_true (cr_result r) then ret (cr_result r)
         else if text_true (cr_error r) then throw (AppError ''got error from server'')
         else if flag_true (cr_timeout_expired r) then throw (AppError ''got timeout at server, cluster not available'')
         else if or_else '''' (cr_redirect r) \<noteq> ''''
         then seqE (connect_to_leader (or_else '''' (cr_redirect r))) (client_issue ask fuel t 50 0)
         else if \<not> flag_true (cr_retry r) then throw (AppError ''Command result does not make sense'')
         else if retry_count < max_retries then client_issue ask fuel t max_retries (Suc retry_count)
         else throw (AppError ''too many retries''))"

text \<open>The server's side: \<open>issue_command\<close> turns whatever the deck raised into a text, \<open>raft_message\<close> hands on what decodes.\<close>

definition server_issue_command :: "exn + CommandResult \<Rightarrow> pystr + CommandResult" where
  "server_issue_command r = (case r of Inr c \<Rightarrow> Inr c | Inl e \<Rightarrow> Inl (format_exc e))"

definition server_raft_message :: "('l, 'a) env \<Rightarrow> pystr \<Rightarrow> ('l, 'a) node \<Rightarrow> ('l, 'a) node" where
  "server_raft_message E t s = (case fst (decode_message (now s) t (serials s)) of Inl _ \<Rightarrow> s
     | Inr _ \<Rightarrow> snd (on_message E t s))"

section \<open>Direct commands\<close>

datatype direct_reply = ReplyInt int | ReplyText string | ReplyDict "(string \<times> json) list"

datatype direct_op =
    DirectUnknown string | GetPid | DirectStop | ExitCluster | TakePower | StopRaft | SendHeartbeat | DirectStatus bool
  | GetLoggingDict | GetConfig | SetLoggingLevel "string list" | TakeSnapshot | GetLogStats | DirectUnrecognized string

definition direct_commands :: "string list" where
  "direct_commands = [''stop'', ''status'', ''getpid'', ''dump_status'', ''exit_cluster'', ''send_heartbeat'', ''start_raft'',
     ''get_config'', ''take_power'', ''get_logging_dict'', ''set_logging_level'', ''take_snapshot'', ''log_stats'']"

definition direct_route :: "string \<Rightarrow> direct_op" where
  "direct_route s = (let words = split_on (CHR '' '') s; c = hd words in
     if c \<notin> set direct_commands then DirectUnknown c
     else if c = ''getpid'' then GetPid
     else if c = ''stop'' then DirectStop
     else if c = ''exit_cluster'' then ExitCluster
     else if c = ''take_power'' then TakePower
     else if c = ''stop_raft'' then StopRaft
     else if c = ''send_heartbeat'' then SendHeartbeat
     else if c = ''status'' \<or> c = ''dump_status'' then DirectStatus (c = ''dump_status'')
     else if c = ''get_logging_dict'' then GetLoggingDict
     else if c = ''get_config'' then GetConfig
     else if c = ''set_logging_level'' then SetLoggingLevel words
     else if c = ''take_snapshot'' then TakeSnapshot
     else if c = ''log_stats'' then GetLogStats
     else DirectUnrecognized c)"

definition quoted :: "string \<Rightarrow> string" where
  "quoted s = CHR 0x27 # s @ [CHR 0x27]"

definition direct_set_level :: "string list \<Rightarrow> (lc_state, direct_reply) eff" where
  "direct_set_level words = (case words of
     _ # name # level # _ \<Rightarrow> seqE (set_logger_level name (LevelName level))
       (ret (ReplyText (''logging for name '' @ quoted name @ '' set to '' @ level)))
   | [_, level] \<Rightarrow> seqE (set_default_level (LevelName level) False)
       (ret (ReplyText (''logging for name '' @ quoted '''' @ '' set to '' @ level)))
   | _ \<Rightarrow> ret (ReplyText ''set_logging_level needs at least one argument''))"

definition contains :: "string \<Rightarrow> string \<Rightarrow> bool" where
  "contains sub s \<longleftrightarrow> list_ex (\<lambda>k. take (length sub) (drop k s) = sub) [0..<Suc (length s)]"

text \<open>The client raises when it finds an error in the answer; for a text the test is one of substrings.\<close>

definition client_direct_reply :: "direct_reply \<Rightarrow> exn + direct_reply" where
  "client_direct_reply r = (case r of ReplyInt i \<Rightarrow> Inr r
     | ReplyText t \<Rightarrow> if contains ''error'' t then Inl TypeError else Inr r
     | ReplyDict d \<Rightarrow> if ''error'' \<in> set (dict_keys d) then Inl (AppError ''Server error'') else Inr r)"

definition client_level_command :: "string option \<Rightarrow> string \<Rightarrow> string" where
  "client_level_command name level =
     ''set_logging_level'' @ (case name of None \<Rightarrow> '''' | Some n \<Rightarrow> '' '' @ n) @ '' '' @ level"

end
