(* ===== verification/Ops_App.thy ===== *)
theory Ops_App
  imports Counters_App
begin

text \<open>
  The two applications of \<open>src/dev_tools/operations.py\<close>: named totals with snapshots sent in chunks, and a single total with switches for
  provoking errors. A result that is a number is represented by its JSON text in the environment of an engine.
\<close>

section \<open>Named totals\<close>

text \<open>\<open>s.split()\<close>: the words between blanks.\<close>

fun words_of :: "string \<Rightarrow> string list" where
  "words_of [] = []"
| "words_of (c # cs) =
     (if is_blank c then words_of cs
      else case cs of [] \<Rightarrow> [[c]]
        | d # ds \<Rightarrow> if is_blank d then [c] # words_of cs
                   else (case words_of cs of [] \<Rightarrow> [[c]] | w # ws \<Rightarrow> (c # w) # ws))"

record dict_totals =
  totals :: "(string \<times> int) list"
  snap_data :: "(string \<times> int) list"
  dt_snapshot :: "SnapShot option"

definition new_DictTotalsOps :: dict_totals where
  "new_DictTotalsOps = \<lparr>totals = [], snap_data = [], dt_snapshot = None\<rparr>"

text \<open>Reading the slot of an unknown operand makes it, before the value is converted.\<close>

definition dict_process_command :: "string \<Rightarrow> (dict_totals, int option \<times> string option) eff" where
  "dict_process_command t = (case words_of t of
     [op, operand, value] \<Rightarrow>
       if op \<notin> {''add'', ''sub''} then ret (None, Some ''invalid command'')
       else seqE (modE (\<lambda>a. a\<lparr>totals := dict_set operand (count_of (totals a) operand) (totals a)\<rparr>))
         (bindE (liftE (int_of_text value)) (\<lambda>v.
          seqE (modE (\<lambda>a. a\<lparr>totals := dict_set operand
            (if op = ''add'' then count_of (totals a) operand + v else count_of (totals a) operand - v) (totals a)\<rparr>))
          (bindE (getsE (\<lambda>a. count_of (totals a) operand)) (\<lambda>r. ret (Some r, None)))))
   | _ \<Rightarrow> throw ValueError)"

definition dict_create_snapshot :: "int \<Rightarrow> int \<Rightarrow> (dict_totals, SnapShot) eff" where
  "dict_create_snapshot i t = (let sn = \<lparr>snap_index = i, snap_term = t\<rparr> in
     seqE (modE (\<lambda>a. a\<lparr>dt_snapshot := Some sn, snap_data := totals a\<rparr>)) (ret sn))"

definition dict_begin_snapshot :: "SnapShot \<Rightarrow> (dict_totals, unit) eff" where
  "dict_begin_snapshot sn = modE (\<lambda>a. a\<lparr>dt_snapshot := Some sn\<rparr>)"

subsection \<open>The snapshot tool\<close>

definition chunk_json :: "(string \<times> int) list \<Rightarrow> json" where
  "chunk_json items = JList (map (\<lambda>(k, v). JObj [(k, JInt v)]) items)"

definition dict_update :: "(string \<times> json) list \<Rightarrow> (dict_totals, unit) eff" where
  "dict_update d = bindE (liftE (smap (\<lambda>(k, v). sbind (j_int v) (\<lambda>i. Inr (k, i))) d)) (\<lambda>kvs.
     modE (\<lambda>a. a\<lparr>totals := fold (\<lambda>(k, i). dict_set k i) kvs (totals a)\<rparr>))"

definition dict_load_chunk :: "pystr \<Rightarrow> (dict_totals, unit) eff" where
  "dict_load_chunk t = bindE (liftE (sbind (json_loads t) (j_list j_obj))) (\<lambda>items. forE items dict_update)"

definition items_per_chunk :: int where
  "items_per_chunk = 2"

text \<open>A slice \<open>xs[a:b]\<close> from a position that is not negative.\<close>

definition slice_from :: "'b list \<Rightarrow> int \<Rightarrow> int \<Rightarrow> 'b list" where
  "slice_from xs a b = drop (nat a) (take (nat b) xs)"

definition dict_get_chunk :: "int \<Rightarrow> (dict_totals, pystr \<times> int \<times> bool) eff" where
  "dict_get_chunk offset = bindE (getsE snap_data) (\<lambda>d.
     let limit = offset + items_per_chunk
     in ret (Dumps (chunk_json (slice_from d offset (limit + 1))), limit + 1, limit \<ge> int (length d)))"

definition dict_apply_snapshot :: "(dict_totals, SnapShot) eff" where
  "dict_apply_snapshot = bindE (getsE dt_snapshot) (some_or AttributeError)"

section \<open>One total\<close>

record simple_ops =
  total :: int
  explode :: bool
  exploded :: bool
  return_error :: bool
  reported_error :: bool

definition new_SimpleOps :: simple_ops where
  "new_SimpleOps = \<lparr>total = 0, explode = False, exploded = False, return_error = False, reported_error = False\<rparr>"

definition simple_process_command :: "string \<Rightarrow> (simple_ops, int option \<times> string option) eff" where
  "simple_process_command t = seqE (modE (\<lambda>a. a\<lparr>exploded := False\<rparr>))
     (case words_of t of
        [op, operand] \<Rightarrow> bindE (getsE id) (\<lambda>a.
          if explode a then seqE (modE (\<lambda>a. a\<lparr>exploded := True\<rparr>)) (throw (AppError ''boom!''))
          else if return_error a then seqE (modE (\<lambda>a. a\<lparr>reported_error := True\<rparr>)) (ret (None, Some ''inserted error''))
          else if op \<notin> {''add'', ''sub''} then ret (None, Some ''invalid command'')
          else bindE (liftE (int_of_text operand)) (\<lambda>v.
            seqE (modE (\<lambda>a. a\<lparr>total := (if op = ''add'' then total a + v else total a - v)\<rparr>))
            (bindE (getsE total) (\<lambda>r. ret (Some r, None)))))
      | _ \<Rightarrow> throw ValueError)"

section \<open>Under an engine\<close>

definition text_answer :: "int option \<times> string option \<Rightarrow> pystr option \<times> pystr option" where
  "text_answer r = (map_option (\<lambda>i. Dumps (JInt i)) (fst r), map_option Str (snd r))"

text \<open>A command of an engine is a text; one that is not, or that is a JSON text, has no words.\<close>

definition text_command :: "(string \<Rightarrow> ('a, int option \<times> string option) eff) \<Rightarrow> pystr option \<Rightarrow> ('a, pystr option \<times> pystr option) eff" where
  "text_command f c = (case c of Some (Str t) \<Rightarrow> bindE (f t) (\<lambda>r. ret (text_answer r))
     | Some (Dumps _) \<Rightarrow> throw ValueError | None \<Rightarrow> throw AttributeError)"

definition totals_env :: "('l, 'b) env \<Rightarrow> ('l, dict_totals) env" where
  "totals_env E = \<lparr>log = log E, uniform = uniform E, local_config = local_config E, initial_config = initial_config E,
     process_command = (\<lambda>c n. text_command dict_process_command c), create_snapshot = dict_create_snapshot,
     begin_snapshot_import = dict_begin_snapshot, load_snapshot_chunk = dict_load_chunk, apply_snapshot = dict_apply_snapshot,
     begin_snapshot_export = dict_begin_snapshot, get_snapshot_chunk = (\<lambda>sn. dict_get_chunk), stop_commanded = ret (),
     on_event = (\<lambda>h e. ret ()), join_callback = (\<lambda>ok u. ret ()), exit_callback = (\<lambda>ok u. ret ())\<rparr>"

end
