(* ===== verification/Counters_Props.thy ===== *)
theory Counters_Props
  imports Ops_App Catchup_Props
begin

text \<open>
  The counters example: a call through the collector is the call itself, the file gives the counters back, and a follower that commits a run of
  additions has every count raised by their sum. The snapshot that is sent holds the counts of the moment it is sent, so that commands after the
  snapshot count twice. The client returns the first result and gives up after its retries, but follows redirections for ever.
\<close>

section \<open>Files and calls\<close>

lemma smap_ints: "smap (\<lambda>(k, v). sbind (j_int v) (\<lambda>i. Inr (k, i))) (map (\<lambda>(k, v). (k, JInt v)) c) = Inr c"
  by (induction c) auto

lemma unpickled_pickled [simp]: "unpickled (pickled c) = Inr c"
  by (simp add: unpickled_def pickled_def counts_json_def smap_ints)

lemma count_of_set [simp]: "count_of (dict_set n v c) k = (if k = n then v else count_of c k)"
  by (simp add: count_of_def)

lemma counter_add_run:
  "counter_add n v a = (if counter_name n
     then (let c = dict_set n (count_of (counts a) n + v) (counts a)
           in (Inr (count_of (counts a) n + v), a\<lparr>counts := c, counters_file := Some (pickled c)\<rparr>))
     else (Inl (AppError ''Counter names must be a single ascii letter''), a))"
  by (simp add: counter_add_def save_counters_def run Let_def)

lemma counter_add_bad: "\<not> counter_name n \<Longrightarrow> \<exists>e. counter_add n v a = (Inl e, a)"
  by (simp add: counter_add_run)

lemma route_add:
  "route_command (Some (add_command n v)) a =
     (case counter_add n v a of (Inl e, b) \<Rightarrow> (Inl e, b) | (Inr r, b) \<Rightarrow> (Inr (Dumps (JInt r)), b))"
  by (simp add: route_command_def add_command_def command_text_def item_def str_json_def call_method_def insert_commute run
      split: prod.split sum.split)

text \<open>A call through collector, pipe and dispatcher is the call of the counters, error for error and state for state.\<close>

theorem collector_is_direct:
  "collector_counter_add pipe_issue n v a =
     (case counter_add n v a of (Inl e, b) \<Rightarrow> (Inl e, b) | (Inr r, b) \<Rightarrow> (Inr (JInt r), b)) \<and>
   collector_get_counters pipe_issue a = (Inr (counts_json (counts a)), a) \<and>
   (case counter_add n v a of (Inr r, b) \<Rightarrow> counts (new_Counters (counters_file b) f) = counts b | _ \<Rightarrow> True)"
proof -
  have "collector_counter_add pipe_issue n v a =
     (case counter_add n v a of (Inl e, b) \<Rightarrow> (Inl e, b) | (Inr r, b) \<Rightarrow> (Inr (JInt r), b))"
    by (simp add: collector_counter_add_def pipe_issue_def run route_add split: prod.split sum.split)
  moreover have "collector_get_counters pipe_issue a = (Inr (counts_json (counts a)), a)"
    by (simp add: collector_get_counters_def pipe_issue_def command_text_def route_command_def item_def str_json_def
        call_method_def get_counters_def run)
  ultimately show ?thesis by (simp add: counter_add_run new_Counters_def Let_def)
qed

section \<open>Replicated counters\<close>

text \<open>What a record adds to a counter.\<close>

definition addition :: "LogRec \<Rightarrow> (string \<times> int) option" where
  "addition r = (case sbind (case command r of None \<Rightarrow> Inl TypeError | Some t \<Rightarrow> sbind (json_loads t) j_obj) (\<lambda>d.
       sbind (sbind (item ''args'' d) j_obj) (\<lambda>kw. sbind (sbind (item ''name'' kw) j_str) (\<lambda>n.
       sbind (sbind (item ''value'' kw) j_int) (\<lambda>v. Inr (n, v))))) of
     Inr p \<Rightarrow> Some p | Inl _ \<Rightarrow> None)"

definition added_to :: "string \<Rightarrow> LogRec \<Rightarrow> int" where
  "added_to k r = (if code r = client_command then (case addition r of Some (n, v) \<Rightarrow> if n = k then v else 0 | None \<Rightarrow> 0) else 0)"

definition counting :: "LogRec \<Rightarrow> bool" where
  "counting r \<longleftrightarrow> code r = term_start \<or> code r = client_command \<and> (\<exists>n v. counter_name n \<and> command r = Some (add_command n v))"

lemma addition_command: "command r = Some (add_command n v) \<Longrightarrow> addition r = Some (n, v)"
  by (simp add: addition_def add_command_def command_text_def item_def)

lemma process_add:
  "counter_name n \<Longrightarrow> pilot_process_command (Some (add_command n v)) sn a =
     (Inr (Some (Dumps (JInt (count_of (counts a) n + v))), None), snd (counter_add n v a))"
  by (simp add: pilot_process_command_def route_add counter_add_run run Let_def)

lemma counters_env_simps [simp]:
  "log (counters_env E) = log E" "process_command (counters_env E) = pilot_process_command"
  "local_config (counters_env E) = local_config E"
  by (simp_all add: counters_env_def)

lemma counting_servable: "counting r \<Longrightarrow> servable (counters_env E) r"
  by (auto simp: counting_def servable_def process_add)

lemma counting_apply:
  assumes "counting r"
  shows "count_of (counts (apply_rec (counters_env E) r a)) k = count_of (counts a) k + added_to k r"
  using assms by (auto simp: counting_def apply_rec_def added_to_def process_add addition_command counter_add_run Let_def)

lemma counting_fold:
  "list_all counting rs \<Longrightarrow> count_of (counts (fold (apply_rec (counters_env E)) rs a)) k =
     count_of (counts a) k + (\<Sum>r \<leftarrow> rs. added_to k r)"
  by (induction rs arbitrary: a) (simp_all add: counting_apply)

text \<open>C24. A follower that runs the counters and learns a new commit index applies the additions up to it: every count grows by the sum of
  the additions to it between the applied index and the new one.
\<close>

theorem replicated_counts:
  assumes "log_client api I ents (counters_env E)" and "I (n_log s)" and "v = view api ents (n_log s)"
    and "snap_base (v_snap v) \<le> v_applied v"
    and "\<forall>i r. v_applied v < i \<and> i \<le> ci \<and> ents (n_log s) i = Some r \<longrightarrow> counting r"
  shows "\<exists>t. new_leader_commit_index (counters_env E) ci s = (Inr (), t) \<and>
     v_applied (view api ents (n_log t)) = max (min ci (v_last v)) (v_applied v) \<and>
     (\<forall>k. count_of (counts (n_app t)) k = count_of (counts (n_app s)) k +
        (\<Sum>i \<leftarrow> [v_applied v + 1..min ci (v_last v)]. added_to k (the (ents (n_log s) i))))"
proof -
  let ?rs = "map (\<lambda>i. the (ents (n_log s) i)) [v_applied v + 1..min ci (v_last v)]"
  obtain t where t: "new_leader_commit_index (counters_env E) ci s = (Inr (), t)"
      "n_app t = fold (apply_rec (counters_env E)) ?rs (n_app s)"
      "view api ents (n_log t) = v\<lparr>v_commit := max (min ci (v_last v)) (v_commit v), v_applied := max (min ci (v_last v)) (v_applied v)\<rparr>"
    using log_client.commit_and_apply [OF assms(1,2), of ci] assms(3-5) counting_servable by fastforce
  have "counting (the (ents (n_log s) i))" if "i \<in> set [v_applied v + 1..min ci (v_last v)]" for i
  proof -
    have "snap_base (v_snap v) < i" "i \<le> v_last v" "v_applied v < i" "i \<le> ci" using that assms(4) by auto
    then show ?thesis using log_client.ents_some [OF assms(1,2), of i] assms(3,5) by fastforce
  qed
  then have "list_all counting ?rs" by (auto simp: list_all_iff)
  from counting_fold [OF this, of E "n_app s"] t show ?thesis by (auto simp: comp_def simp del: view_simps)
qed

text \<open>A follower whose log has one addition that is not yet applied.\<close>

definition counter_rec :: LogRec where
  "counter_rec = (new_LogRec client_command 1 (Some (add_command ''a'' 5)))\<lparr>rec_index := 1\<rparr>"

definition counter_log :: MemoryLog where
  "counter_log = snd (log_insert memory_api counter_rec (new_MemoryLog 0))"

definition counter_node :: "(MemoryLog, counters_app) node" where
  "counter_node = new_node counter_log (new_Counters None None) 1800000000 new_SerialNumberGenerator"

lemma counter_log_view: "mem_inv counter_log" "mem_view counter_log = insert_view counter_rec (mem_view (new_MemoryLog 0))"
proof -
  have "place (mem_view (new_MemoryLog 0)) counter_rec = counter_rec" by (simp add: place_def counter_rec_def new_LogRec_def)
  moreover have "can_insert (mem_view (new_MemoryLog 0)) counter_rec"
    by (simp add: can_insert_def counter_rec_def) (simp add: new_MemoryLog_def)
  ultimately show "mem_inv counter_log" "mem_view counter_log = insert_view counter_rec (mem_view (new_MemoryLog 0))"
    using mem.insert_law [OF mem_inv_new, of 0 counter_rec] by (auto simp: counter_log_def)
qed

lemma counter_view_simps:
  "v_applied (mem_view counter_log) = 0" "v_last (mem_view counter_log) = 1" "v_snap (mem_view counter_log) = None"
  "mem_ents counter_log = [1 \<mapsto> content counter_rec]"
proof -
  have 0: "v_applied (mem_view (new_MemoryLog 0)) = 0" "v_snap (mem_view (new_MemoryLog 0)) = None"
    "v_ents (mem_view (new_MemoryLog 0)) = (\<lambda>i. None)"
    by (simp_all, simp_all add: new_MemoryLog_def mem_ents_def)
  have r: "rec_index counter_rec = 1" by (simp add: counter_rec_def)
  show "v_applied (mem_view counter_log) = 0" "v_last (mem_view counter_log) = 1" "v_snap (mem_view counter_log) = None"
    unfolding counter_log_view(2) insert_view_def using 0(1,2) r by simp_all
  have "v_ents (mem_view counter_log) = [1 \<mapsto> content counter_rec]"
    unfolding counter_log_view(2) insert_view_def using 0(3) r by (simp add: fun_upd_def)
  then show "mem_ents counter_log = [1 \<mapsto> content counter_rec]" by simp
qed

theorem replicated_counts_witness:
  "\<exists>t. new_leader_commit_index (counters_env (example_env memory_api ''n1'')) 1 counter_node = (Inr (), t) \<and>
     v_applied (mem_view (n_log t)) = 1 \<and> count_of (counts (n_app t)) ''a'' = 5"
proof -
  let ?E = "counters_env (example_env memory_api ''n1'')"
  have cl: "log_client memory_api mem_inv mem_ents ?E" by unfold_locales simp
  have n: "n_log counter_node = counter_log" "n_app counter_node = new_Counters None None"
    by (simp_all add: counter_node_def new_node_def)
  have c: "command (content counter_rec) = Some (add_command ''a'' 5)" "code (content counter_rec) = client_command"
    by (simp_all add: counter_rec_def content_def new_LogRec_def)
  moreover have "counter_name ''a''" by code_simp
  ultimately have rc: "counting (content counter_rec)" "added_to ''a'' (content counter_rec) = 5"
    by (auto simp: counting_def added_to_def addition_command)
  then have "\<forall>i r. v_applied (mem_view (n_log counter_node)) < i \<and> i \<le> 1 \<and> mem_ents (n_log counter_node) i = Some r \<longrightarrow> counting r"
    unfolding n counter_view_simps by (auto split: if_splits)
  with replicated_counts [OF cl _ refl, of counter_node 1] counter_log_view(1) n counter_view_simps obtain t where
    t: "new_leader_commit_index ?E 1 counter_node = (Inr (), t)" "v_applied (mem_view (n_log t)) = 1"
      "count_of (counts (n_app t)) ''a'' = count_of (counts (new_Counters None None)) ''a'' + added_to ''a'' (content counter_rec)"
    by (auto simp del: view_simps)
  then show ?thesis using rc(2) by (auto simp: new_Counters_def count_of_def simp del: view_simps)
qed

section \<open>What a snapshot holds\<close>

text \<open>C40. The snapshot that is sent is not the one that was taken: a command that runs on the leader after the snapshot is in the counts the follower
  gets, and counts again when the follower applies its record.
\<close>

theorem snapshot_counts_twice:
  assumes "counter_name n" and "a1 = snd (counters_make_snapshot a)" and "a2 = snd (counter_add n v a1)"
    and "b1 = b\<lparr>import_tool := Some (sn, None)\<rparr>"
  shows "\<exists>chunk b2 b3. tool_get_chunk a2 = (Inr (chunk, 0, True), a2) \<and> tool_load_chunk chunk b1 = (Inr (), b2) \<and>
     tool_apply b2 = (Inr sn, b3) \<and> snapshot_file a2 = Some (pickled (counts a)) \<and> counts b3 = counts a2 \<and>
     count_of (counts (snd (counter_add n v b3))) n = count_of (counts a) n + 2 * v"
  using assms
  by (simp add: counters_make_snapshot_def counter_add_run Let_def tool_get_chunk_def counters_get_chunk_def tool_load_chunk_def
      tool_apply_def run)

theorem snapshot_counts_twice_witness:
  "\<exists>chunk b2 b3. tool_get_chunk (snd (counter_add ''a'' 5 (snd (counters_make_snapshot (new_Counters None None))))) =
       (Inr (chunk, 0, True), snd (counter_add ''a'' 5 (snd (counters_make_snapshot (new_Counters None None))))) \<and>
     tool_load_chunk chunk ((new_Counters None None)\<lparr>import_tool := Some (\<lparr>snap_index = 1, snap_term = 1\<rparr>, None)\<rparr>) = (Inr (), b2) \<and>
     tool_apply b2 = (Inr \<lparr>snap_index = 1, snap_term = 1\<rparr>, b3) \<and> count_of (counts (snd (counter_add ''a'' 5 b3))) ''a'' = 10"
proof -
  have "counter_name ''a''" by code_simp
  from snapshot_counts_twice [OF this refl refl refl, where a = "new_Counters None None" and b = "new_Counters None None" and v = 5
      and sn = "\<lparr>snap_index = 1, snap_term = 1\<rparr>"]
  show ?thesis by (auto simp: new_Counters_def count_of_def)
qed

text \<open>A follower that never got a chunk, and one whose leader has not taken a snapshot: the tool fails.\<close>

theorem no_snapshot_no_chunk: "snapshot_file a = None \<Longrightarrow> tool_get_chunk a = (Inl TypeError, a)"
  by (simp add: tool_get_chunk_def counters_get_chunk_def run)

section \<open>The client\<close>

text \<open>Answers that tell the client to try again, and the first one that does not.\<close>

definition try_again :: "CommandResult \<Rightarrow> bool" where
  "try_again r \<longleftrightarrow> \<not> text_true (cr_result r) \<and> \<not> text_true (cr_error r) \<and> \<not> flag_true (cr_timeout_expired r) \<and>
     or_else [] (cr_redirect r) = [] \<and> flag_true (cr_retry r)"

definition reaches :: "raft_client \<Rightarrow> string \<times> int \<Rightarrow> bool" where
  "reaches c ep \<longleftrightarrow> rc_leader_client c = Some ep \<or> rc_leader_client c = None \<and>
     (rc_client c = Some ep \<or> rc_client c = None \<and> endpoint (rc_server_uri c) = Inr ep)"

lemma client_call_run:
  assumes "reaches c ep"
  shows "\<exists>c'. reaches c' ep \<and> rc_calls c' = Suc (rc_calls c) \<and> client_call ask t c = (ask (rc_calls c) ep t, c') \<and>
    rc_leader_client c' = rc_leader_client c \<and> rc_leader_uri c' = rc_leader_uri c"
  using assms by (auto simp: reaches_def client_call_def client_connect_def run split: option.split)

lemma client_keeps_trying:
  assumes "reaches c ep" and "\<forall>k < m. \<exists>r. ask (rc_calls c + k) ep t = Inr (Inr r) \<and> try_again r" and "rc + m \<le> mr"
  shows "\<exists>c'. reaches c' ep \<and> rc_calls c' = rc_calls c + m \<and>
    client_issue ask (m + fuel) t mr rc c = client_issue ask fuel t mr (rc + m) c'"
  using assms
proof (induction m arbitrary: c rc)
  case 0
  then show ?case by auto
next
  case (Suc m)
  from Suc.prems(2) obtain r where r: "ask (rc_calls c) ep t = Inr (Inr r)" "try_again r" by fastforce
  obtain c1 where c1: "reaches c1 ep" "rc_calls c1 = Suc (rc_calls c)" "client_call ask t c = (Inr (Inr r), c1)"
    using client_call_run [OF Suc.prems(1), of ask t] r(1) by auto
  have "\<forall>k < m. \<exists>r. ask (rc_calls c1 + k) ep t = Inr (Inr r) \<and> try_again r"
    using Suc.prems(2) c1(2) by (metis Suc_less_eq add_Suc_shift)
  from Suc.IH [OF c1(1) this, of "Suc rc"] Suc.prems(3) obtain c' where "reaches c' ep" "rc_calls c' = rc_calls c1 + m"
    "client_issue ask (m + fuel) t mr (Suc rc) c1 = client_issue ask fuel t mr (Suc rc + m) c'" by auto
  with c1 r(2) Suc.prems(3) show ?case by (auto simp: run_bindE try_again_def)
qed

text \<open>C25. A client that is told to try again returns the first result that comes within its retries, after exactly as many calls, and
  otherwise gives up after one call more than its retries; in both cases it ends.
\<close>

theorem client_retries:
  assumes "endpoint u = Inr ep" and "\<forall>k < m. \<exists>r. ask k ep t = Inr (Inr r) \<and> try_again r"
  shows "(m \<le> mr \<and> ask m ep t = Inr (Inr r) \<and> text_true (cr_result r) \<longrightarrow>
      (\<exists>c. client_issue ask (Suc m) t mr 0 (new_RaftClient u) = (Inr (cr_result r), c) \<and> rc_calls c = Suc m)) \<and>
    (mr < m \<longrightarrow> (\<exists>c. client_issue ask (Suc mr) t mr 0 (new_RaftClient u) = (Inl (AppError ''too many retries''), c) \<and>
      rc_calls c = Suc mr))"
proof -
  let ?c = "new_RaftClient u"
  have c: "reaches ?c ep" "rc_calls ?c = 0" using assms(1) by (simp_all add: reaches_def new_RaftClient_def)
  have go: "\<exists>c'. reaches c' ep \<and> rc_calls c' = j \<and> client_issue ask (Suc j) t mr 0 ?c = client_issue ask (Suc 0) t mr j c'"
    if "j \<le> m" "j \<le> mr" for j
    using client_keeps_trying [OF c(1), of j ask t 0 mr "Suc 0"] assms(2) that c(2) by (auto simp del: client_issue.simps)
  have 1: "\<exists>c. client_issue ask (Suc m) t mr 0 ?c = (Inr (cr_result r), c) \<and> rc_calls c = Suc m"
    if m: "m \<le> mr" and r: "ask m ep t = Inr (Inr r)" "text_true (cr_result r)"
  proof -
    obtain c' where c': "reaches c' ep" "rc_calls c' = m" "client_issue ask (Suc m) t mr 0 ?c = client_issue ask (Suc 0) t mr m c'"
      using go [of m] m by (auto simp del: client_issue.simps)
    then show ?thesis unfolding c'(3) using client_call_run [OF c'(1), of ask t] r by (auto simp: run)
  qed
  moreover have "\<exists>c. client_issue ask (Suc mr) t mr 0 ?c = (Inl (AppError ''too many retries''), c) \<and> rc_calls c = Suc mr" if m: "mr < m"
  proof -
    obtain c' where c': "reaches c' ep" "rc_calls c' = mr" "client_issue ask (Suc mr) t mr 0 ?c = client_issue ask (Suc 0) t mr mr c'"
      using go [of mr] m by (auto simp del: client_issue.simps)
    obtain r where "ask mr ep t = Inr (Inr r)" "try_again r" using assms(2) m by blast
    with c'(1,2) client_call_run [OF c'(1), of ask t] show ?thesis unfolding c'(3) by (auto simp: run try_again_def)
  qed
  ultimately show ?thesis by blast
qed

definition retry_answer :: CommandResult where
  "retry_answer = (new_CommandResult None)\<lparr>cr_retry := Flag True\<rparr>"

theorem client_retries_witness:
  "\<exists>c. client_issue (\<lambda>k ep t. Inr (Inr (if k < 2 then retry_answer else (new_CommandResult None)\<lparr>cr_result := Some (Str ''5'')\<rparr>)))
     3 (Str ''x'') 50 0 (new_RaftClient ''astream://h:1'') = (Inr (Some (Str ''5'')), c) \<and> rc_calls c = 3"
proof -
  let ?ask = "\<lambda>k ep (t :: pystr). Inr (Inr (if k < (2 :: nat) then retry_answer
    else (new_CommandResult None)\<lparr>cr_result := Some (Str ''5'')\<rparr>)) :: exn + (pystr + CommandResult)"
  have "endpoint ''astream://h:1'' = Inr (''h'', 1)" by code_simp
  moreover have "\<forall>k < 2. \<exists>r. ?ask k (''h'', 1) (Str ''x'') = Inr (Inr r) \<and> try_again r"
    by (simp add: try_again_def retry_answer_def new_CommandResult_def)
  ultimately show ?thesis
    using client_retries [of "''astream://h:1''" "(''h'', 1)" 2 ?ask "Str ''x''" 50 "(new_CommandResult None)\<lparr>cr_result := Some (Str ''5'')\<rparr>"]
    by (simp add: numeral_eq_Suc)
qed

text \<open>Where a client that knows a leader sends its calls.\<close>

definition led :: "raft_client \<Rightarrow> bool" where
  "led c \<longleftrightarrow> (\<forall>ep. rc_leader_client c = Some ep \<longrightarrow> (\<exists>u. rc_leader_uri c = Some u \<and> endpoint u = Inr ep))"

definition redirect_to :: "uri \<Rightarrow> CommandResult" where
  "redirect_to u = (new_CommandResult None)\<lparr>cr_redirect := Some u\<rparr>"

lemma redirected:
  assumes "reaches c ep" and "led c" and "ask (rc_calls c) ep t = Inr (Inr (redirect_to u))" and "u \<noteq> []" and "endpoint u = Inr ep'"
  shows "\<exists>c'. reaches c' ep' \<and> led c' \<and> rc_calls c' = Suc (rc_calls c) \<and>
    client_issue ask (Suc fuel) t mr rc c = client_issue ask fuel t 50 0 c'"
proof -
  obtain c1 where c1: "reaches c1 ep" "rc_calls c1 = Suc (rc_calls c)" "led c1" "client_call ask t c = (Inr (Inr (redirect_to u)), c1)"
    using client_call_run [OF assms(1), of ask t] assms(2,3) by (auto simp: led_def)
  have "\<exists>c2. connect_to_leader u c1 = (Inr (), c2) \<and> reaches c2 ep' \<and> led c2 \<and> rc_calls c2 = rc_calls c1"
    using c1(3) assms(5) by (auto simp: connect_to_leader_def run led_def reaches_def)
  then obtain c2 where "connect_to_leader u c1 = (Inr (), c2)" "reaches c2 ep'" "led c2" "rc_calls c2 = Suc (rc_calls c)"
    using c1(2) by auto
  with c1(4) assms(4) show ?thesis by (auto simp: run_bindE run_seqE redirect_to_def new_CommandResult_def)
qed

text \<open>Two servers that each name the other as the leader keep a client busy for ever, whatever its limit of retries: each redirection
  starts over.
\<close>

theorem redirections_never_end:
  assumes "endpoint u = Inr ep" and "endpoint u' = Inr ep'" and "u \<noteq> []" and "u' \<noteq> []"
    and "\<forall>k. ask k ep t = Inr (Inr (redirect_to u'))" and "\<forall>k. ask k ep' t = Inr (Inr (redirect_to u))"
  shows "\<exists>c. client_issue ask fuel t mr 0 (new_RaftClient u) = (Inr None, c) \<and> rc_calls c = fuel"
proof -
  have *: "\<exists>c'. client_issue ask fuel t mr rc c = (Inr None, c') \<and> rc_calls c' = rc_calls c + fuel"
    if "reaches c ep \<or> reaches c ep'" "led c" for c mr rc
    using that
  proof (induction fuel arbitrary: c mr rc)
    case (Suc fuel)
    have "\<exists>c'. (reaches c' ep \<or> reaches c' ep') \<and> led c' \<and> rc_calls c' = Suc (rc_calls c) \<and>
        client_issue ask (Suc fuel) t mr rc c = client_issue ask fuel t 50 0 c'"
      using Suc.prems redirected [of c ep ask t u' ep' fuel mr rc] redirected [of c ep' ask t u ep fuel mr rc] assms by blast
    then obtain c' where "reaches c' ep \<or> reaches c' ep'" "led c'" "rc_calls c' = Suc (rc_calls c)"
      "client_issue ask (Suc fuel) t mr rc c = client_issue ask fuel t 50 0 c'" by blast
    with Suc.IH [of c' 50 0] show ?case by (auto simp del: client_issue.simps)
  qed (simp add: run)
  have "reaches (new_RaftClient u) ep" "led (new_RaftClient u)" "rc_calls (new_RaftClient u) = 0"
    using assms(1) by (simp_all add: reaches_def led_def new_RaftClient_def)
  with * [of "new_RaftClient u" mr 0] show ?thesis by auto
qed

theorem redirections_never_end_witness:
  "\<exists>c. client_issue (\<lambda>k ep t. Inr (Inr (redirect_to (if ep = (''h'', 1) then ''as://h:2'' else ''as://h:1''))))
     1000 (Str ''x'') 3 0 (new_RaftClient ''as://h:1'') = (Inr None, c) \<and> rc_calls c = 1000"
proof -
  have "endpoint ''as://h:1'' = Inr (''h'', 1)" "endpoint ''as://h:2'' = Inr (''h'', 2)" by code_simp+
  then show ?thesis by (rule redirections_never_end) simp_all
qed

section \<open>Direct commands\<close>

lemma contains_suffix: "contains sub (xs @ sub @ ys)"
  unfolding contains_def list_ex_iff by (rule bexI [of _ "length xs"]) auto

text \<open>
  A server that has set a level to \<open>error\<close> answers with a text in which the client finds the word and raises, here for the default
  level of the client's own method; \<open>stop_raft\<close> is missing from the list of commands and \<open>start_raft\<close> has no branch.
\<close>

theorem error_level_raises:
  "direct_route ''stop_raft'' = DirectUnknown ''stop_raft'' \<and> direct_route ''start_raft'' = DirectUnrecognized ''start_raft'' \<and>
   direct_route (client_level_command None ''error'') = SetLoggingLevel [''set_logging_level'', ''error''] \<and>
   (case direct_set_level [''set_logging_level'', ''error''] s of (Inr r, t) \<Rightarrow> client_direct_reply r = Inl TypeError | _ \<Rightarrow> True)"
proof -
  let ?p = "''logging for name '' @ quoted [] @ '' set to ''"
  have "contains ''error'' (?p @ ''error'' @ [])" by (rule contains_suffix)
  then have c: "client_direct_reply (ReplyText (''logging for name '' @ quoted [] @ '' set to '' @ ''error'')) = Inl TypeError"
    unfolding client_direct_reply_def append_assoc append_Nil2 direct_reply.case by (rule if_P)
  have "case direct_set_level [''set_logging_level'', ''error''] s of (Inr r, t) \<Rightarrow> client_direct_reply r = Inl TypeError | _ \<Rightarrow> True"
    unfolding direct_set_level_def list.case run_seqE run_ret
    using c by (auto simp only: split: prod.split sum.split)
  moreover have "direct_route ''stop_raft'' = DirectUnknown ''stop_raft''" "direct_route ''start_raft'' = DirectUnrecognized ''start_raft''"
    "direct_route (client_level_command None ''error'') = SetLoggingLevel [''set_logging_level'', ''error'']"
    by (simp_all add: direct_route_def direct_commands_def client_level_command_def Let_def)
  ultimately show ?thesis by blast
qed

end
