(* ===== verification/Snapshot_Props.thy ===== *)
theory Snapshot_Props
  imports Counters_Props
begin

text \<open>
  Sending a snapshot from a leader to a follower: what an application promises about its snapshots is the locale \<open>snapshot_app\<close>, interpreted on the
  named totals and on the counters. On any application with that contract, and any two logs with theirs, the exchange of chunks and responses
  ends, the follower has the content and the snapshot in its log, and the leader takes note of it.
\<close>

section \<open>Snapshots of an application\<close>

text \<open>
  \<open>exports a c\<close>: the sending application has content \<open>c\<close> ready; \<open>loaded sn c off b\<close>: the receiving one has taken in what comes
  before position \<open>off\<close>, and \<open>fresh c b\<close> what it has to be at the start; \<open>holds c b\<close>: it has the content; \<open>left\<close> bounds the chunks that are still to come.
\<close>

locale snapshot_app =
  fixes begin_export :: "SnapShot \<Rightarrow> ('a, unit) eff" and get_chunk :: "SnapShot \<Rightarrow> int \<Rightarrow> ('a, pystr \<times> int \<times> bool) eff"
    and begin_import :: "SnapShot \<Rightarrow> ('a, unit) eff" and load_chunk :: "pystr \<Rightarrow> ('a, unit) eff"
    and apply_import :: "('a, SnapShot) eff"
    and exports :: "'a \<Rightarrow> 'c \<Rightarrow> bool" and fresh :: "'c \<Rightarrow> 'a \<Rightarrow> bool" and loaded :: "SnapShot \<Rightarrow> 'c \<Rightarrow> int \<Rightarrow> 'a \<Rightarrow> bool"
    and holds :: "'c \<Rightarrow> 'a \<Rightarrow> bool" and left :: "'c \<Rightarrow> int \<Rightarrow> nat"
  assumes export_law: "exports a c \<Longrightarrow> \<exists>a'. begin_export sn a = (Inr (), a') \<and> exports a' c"
    and import_law: "fresh c b \<Longrightarrow> \<exists>b'. begin_import sn b = (Inr (), b') \<and> loaded sn c 0 b'"
    and chunk_law: "exports a c \<Longrightarrow> loaded sn c off b \<Longrightarrow>
      \<exists>chunk off' dn b'. get_chunk sn off a = (Inr (chunk, off', dn), a) \<and> load_chunk chunk b = (Inr (), b') \<and>
        (if dn then \<exists>b''. apply_import b' = (Inr sn, b'') \<and> holds c b'' else loaded sn c off' b' \<and> left c off' < left c off)"

subsection \<open>Named totals\<close>

lemma chunk_loads: "sbind (json_loads (Dumps (chunk_json items))) (j_list j_obj) = Inr (map (\<lambda>(k, v). [(k, JInt v)]) items)"
proof -
  have "smap j_obj (map (\<lambda>(k, v). JObj [(k, JInt v)]) items) = Inr (map (\<lambda>(k, v). [(k, JInt v)]) items)"
    by (induction items) auto
  then show ?thesis by (simp add: chunk_json_def)
qed

lemma updates_run:
  "forE (map (\<lambda>(k, v). [(k, JInt v)]) items) dict_update b = (Inr (), b\<lparr>totals := fold (\<lambda>(k, i). dict_set k i) items (totals b)\<rparr>)"
proof (induction items arbitrary: b)
  case (Cons x items)
  obtain k v where x: "x = (k, v)" by force
  have "dict_update [(k, JInt v)] b = (Inr (), b\<lparr>totals := dict_set k v (totals b)\<rparr>)" by (simp add: dict_update_def run)
  with Cons x show ?case by (simp add: run)
qed (simp add: run)

lemma load_chunk_run:
  "dict_load_chunk (Dumps (chunk_json items)) b = (Inr (), b\<lparr>totals := fold (\<lambda>(k, i). dict_set k i) items (totals b)\<rparr>)"
  unfolding dict_load_chunk_def chunk_loads run_bindE run_liftE by (simp add: updates_run)

lemma fold_set_get:
  "distinct (map fst items) \<Longrightarrow> dict_get (fold (\<lambda>(k, i). dict_set k i) items d) k =
     (case map_of items k of Some v \<Rightarrow> Some v | None \<Rightarrow> dict_get d k)"
proof (induction items arbitrary: d)
  case (Cons x items)
  obtain j v where x: "x = (j, v)" by force
  show ?case
  proof (cases "k = j")
    case True
    then have "map_of items k = None" using Cons.prems x by (simp add: map_of_eq_None_iff)
    with True Cons x show ?thesis by simp
  qed (use Cons x in \<open>simp split: option.split\<close>)
qed simp

text \<open>
  Everything before a position has its value of the snapshot, and there are no slots but those of the snapshot: a follower that has fallen
  behind has some of them, with older values.
\<close>

definition totals_loaded :: "SnapShot \<Rightarrow> (string \<times> int) list \<Rightarrow> int \<Rightarrow> dict_totals \<Rightarrow> bool" where
  "totals_loaded sn c off b \<longleftrightarrow> dt_snapshot b = Some sn \<and> 0 \<le> off \<and> dom (dict_get (totals b)) \<subseteq> fst ` set c \<and>
     (\<forall>k v. (k, v) \<in> set (take (nat off) c) \<longrightarrow> dict_get (totals b) k = Some v)"

definition totals_exports :: "dict_totals \<Rightarrow> (string \<times> int) list \<Rightarrow> bool" where
  "totals_exports a c \<longleftrightarrow> snap_data a = c \<and> distinct (map fst c)"

lemma take_slice: "0 \<le> off \<Longrightarrow> set (take (nat (off + 3)) c) = set (take (nat off) c) \<union> set (slice_from c off (off + 3))"
proof -
  assume "0 \<le> off"
  then have "nat off \<le> nat (off + 3)" by simp
  then have "take (nat (off + 3)) c = take (nat off) c @ drop (nat off) (take (nat (off + 3)) c)"
    by (metis append_take_drop_id min.absorb1 take_take)
  then show ?thesis unfolding slice_from_def by (metis set_append)
qed

lemma totals_chunk:
  assumes "totals_exports a c" and "totals_loaded sn c off b"
  shows "\<exists>chunk b'. dict_get_chunk off a = (Inr (chunk, off + 3, off + 2 \<ge> int (length c)), a) \<and>
    dict_load_chunk chunk b = (Inr (), b') \<and> totals_loaded sn c (off + 3) b'"
proof -
  have off: "0 \<le> off" "dt_snapshot b = Some sn" "distinct (map fst c)" "snap_data a = c" "dom (dict_get (totals b)) \<subseteq> fst ` set c"
    "\<And>k v. (k, v) \<in> set (take (nat off) c) \<Longrightarrow> dict_get (totals b) k = Some v"
    using assms by (auto simp: totals_loaded_def totals_exports_def)
  let ?sl = "slice_from c off (off + 3)" and ?t = "fold (\<lambda>(k, i). dict_set k i) (slice_from c off (off + 3)) (totals b)"
  have sub: "set ?sl \<subseteq> set c" by (auto simp: slice_from_def dest: in_set_dropD in_set_takeD)
  have d: "distinct (map fst ?sl)" using off(3) by (simp add: slice_from_def drop_map [symmetric] take_map [symmetric] distinct_drop)
  have get: "dict_get ?t k = (case map_of ?sl k of Some v \<Rightarrow> Some v | None \<Rightarrow> dict_get (totals b) k)" for k
    by (rule fold_set_get [OF d])
  have "dict_get ?t k = Some v" if "(k, v) \<in> set (take (nat (off + 3)) c)" for k v
  proof (cases "(k, v) \<in> set ?sl")
    case True
    then show ?thesis unfolding get using d by simp
  next
    case False
    then have t: "(k, v) \<in> set (take (nat off) c)" using that take_slice [OF off(1), of c] by blast
    have "map_of ?sl k = None \<or> map_of ?sl k = Some v"
    proof (cases "map_of ?sl k")
      case (Some v')
      then have "(k, v') \<in> set c" using sub by (auto dest: map_of_SomeD)
      moreover have "(k, v) \<in> set c" using t by (rule in_set_takeD)
      ultimately show ?thesis using off(3) Some by (metis eq_key_imp_eq_value)
    qed simp
    then show ?thesis unfolding get using off(6) [OF t] by auto
  qed
  moreover have "dom (dict_get ?t) \<subseteq> fst ` set c"
    using off(5) sub by (force simp: get split: option.splits dest: map_of_SomeD)
  moreover have "dict_load_chunk (Dumps (chunk_json ?sl)) b = (Inr (), b\<lparr>totals := ?t\<rparr>)" by (rule load_chunk_run)
  moreover have "dict_get_chunk off a = (Inr (Dumps (chunk_json ?sl), off + 3, off + 2 \<ge> int (length c)), a)"
    using off(4) by (simp add: dict_get_chunk_def items_per_chunk_def run Let_def add.commute)
  ultimately show ?thesis using off(1,2) by (auto simp: totals_loaded_def)
qed

lemma totals_all:
  assumes "totals_loaded sn c off b" and "int (length c) \<le> off" and "distinct (map fst c)"
  shows "dict_get (totals b) = map_of c"
proof
  fix k
  have all: "\<And>k v. (k, v) \<in> set c \<Longrightarrow> dict_get (totals b) k = Some v" using assms(1,2) by (auto simp: totals_loaded_def)
  show "dict_get (totals b) k = map_of c k"
  proof (cases "map_of c k")
    case None
    then have "k \<notin> dom (dict_get (totals b))" using assms(1) by (auto simp: totals_loaded_def map_of_eq_None_iff)
    with None show ?thesis by (simp add: domIff)
  qed (use all in \<open>auto dest: map_of_SomeD\<close>)
qed

interpretation totals: snapshot_app dict_begin_snapshot "\<lambda>sn. dict_get_chunk" dict_begin_snapshot dict_load_chunk dict_apply_snapshot
  totals_exports "\<lambda>c b. dom (dict_get (totals b)) \<subseteq> fst ` set c" totals_loaded "\<lambda>c b. dict_get (totals b) = map_of c"
  "\<lambda>c off. nat (int (length c) - off)"
proof
  fix a b c sn off
  show "totals_exports a c \<Longrightarrow> \<exists>a'. dict_begin_snapshot sn a = (Inr (), a') \<and> totals_exports a' c"
    by (simp add: dict_begin_snapshot_def run totals_exports_def)
  show "dom (dict_get (totals b)) \<subseteq> fst ` set c \<Longrightarrow> \<exists>b'. dict_begin_snapshot sn b = (Inr (), b') \<and> totals_loaded sn c 0 b'"
    by (simp add: dict_begin_snapshot_def run totals_loaded_def)
  assume a: "totals_exports a c" and "totals_loaded sn c off b"
  from totals_chunk [OF this] obtain chunk b' where
    g: "dict_get_chunk off a = (Inr (chunk, off + 3, off + 2 \<ge> int (length c)), a)" "dict_load_chunk chunk b = (Inr (), b')"
      "totals_loaded sn c (off + 3) b'" by blast
  have "if off + 2 \<ge> int (length c) then \<exists>b''. dict_apply_snapshot b' = (Inr sn, b'') \<and> dict_get (totals b'') = map_of c
      else totals_loaded sn c (off + 3) b' \<and> nat (int (length c) - (off + 3)) < nat (int (length c) - off)"
    using g(3) totals_all [OF g(3)] a by (auto simp: dict_apply_snapshot_def run totals_loaded_def totals_exports_def)
  with g show "\<exists>chunk off' dn b'. dict_get_chunk off a = (Inr (chunk, off', dn), a) \<and> dict_load_chunk chunk b = (Inr (), b') \<and>
      (if dn then \<exists>b''. dict_apply_snapshot b' = (Inr sn, b'') \<and> dict_get (totals b'') = map_of c
       else totals_loaded sn c off' b' \<and> nat (int (length c) - off') < nat (int (length c) - off))" by blast
qed

subsection \<open>Counters\<close>

definition counters_exports :: "counters_app \<Rightarrow> (string \<times> int) list \<Rightarrow> bool" where
  "counters_exports a c \<longleftrightarrow> snapshot_file a \<noteq> None \<and> counters_file a = Some (pickled c)"

lemma counters_chunk:
  assumes "counters_exports a c" and "import_tool b = Some (sn, x)"
  shows "tool_get_chunk a = (Inr (pickled c, 0, True), a)" and
    "tool_load_chunk (pickled c) b = (Inr (), b\<lparr>import_tool := Some (sn, Some c)\<rparr>)" and
    "tool_apply (b\<lparr>import_tool := Some (sn, Some c)\<rparr>) = (Inr sn, b\<lparr>import_tool := Some (sn, Some c), counts := c\<rparr>)"
  using assms by (auto simp: run counters_exports_def tool_get_chunk_def counters_get_chunk_def tool_load_chunk_def tool_apply_def)

interpretation counters: snapshot_app "\<lambda>sn. ret ()" "\<lambda>sn off. tool_get_chunk"
  "\<lambda>sn. modE (\<lambda>a. a\<lparr>import_tool := Some (sn, None)\<rparr>)" tool_load_chunk tool_apply
  counters_exports "\<lambda>c b. True" "\<lambda>sn c off b. \<exists>x. import_tool b = Some (sn, x)" "\<lambda>c b. counts b = c" "\<lambda>c off. 0"
proof
  fix a b :: counters_app and c sn and off :: int
  assume a: "counters_exports a c" and b: "\<exists>x. import_tool b = Some (sn, x)"
  from b obtain x where "import_tool b = Some (sn, x)" by blast
  note r = counters_chunk [OF a this]
  have "\<exists>b''. tool_apply (b\<lparr>import_tool := Some (sn, Some c)\<rparr>) = (Inr sn, b'') \<and> counts b'' = c"
    unfolding r(3) by simp
  with r(1,2) show "\<exists>chunk off' dn b'. tool_get_chunk a = (Inr (chunk, off', dn), a) \<and> tool_load_chunk chunk b = (Inr (), b') \<and>
      (if dn then \<exists>b''. tool_apply b' = (Inr sn, b'') \<and> counts b'' = c
       else (\<exists>x. import_tool b' = Some (sn, x)) \<and> (0::nat) < 0)"
    by (intro exI [of _ "pickled c"] exI [of _ 0] exI [of _ True] exI [of _ "b\<lparr>import_tool := Some (sn, Some c)\<rparr>"]) simp
qed (simp_all add: run)

section \<open>The exchange\<close>

text \<open>The last thing a node handed to its pilot, decoded and handled by another node.\<close>

definition last_text :: "('l, 'a) node \<Rightarrow> pystr" where
  "last_text s = (case last (outbox s) of SendMessage _ t _ \<Rightarrow> t | SendResponse _ _ t _ \<Rightarrow> t)"

definition take_in :: "(message \<Rightarrow> ('l, 'a, unit) act) \<Rightarrow> pystr \<Rightarrow> ('l, 'a) node \<Rightarrow> ('l, 'a) node option" where
  "take_in h t s = (case deck_decode t s of (Inl _, _) \<Rightarrow> None
     | (Inr m, s') \<Rightarrow> (case h m s' of (Inl _, _) \<Rightarrow> None | (Inr _, s'') \<Rightarrow> Some s''))"

definition sending_to :: "uri \<Rightarrow> ('l, 'a) node \<Rightarrow> SnapShotCursor option" where
  "sending_to u s = (case dict_get (follower_trackers (ops s)) u of None \<Rightarrow> None | Some tr \<Rightarrow> sending_snapshot tr)"

text \<open>Chunk and response, again and again until the leader has finished; \<open>k\<close> bounds the number of chunks.\<close>

fun exchange :: "('l, 'a) env \<Rightarrow> ('m, 'b) env \<Rightarrow> uri \<Rightarrow> nat \<Rightarrow> ('l, 'a) node \<Rightarrow> ('m, 'b) node \<Rightarrow>
    (('l, 'a) node \<times> ('m, 'b) node) option" where
  "exchange E E' u 0 s f = None"
| "exchange E E' u (Suc k) s f = (case take_in (follower_on_message E') (last_text s) f of None \<Rightarrow> None
     | Some f' \<Rightarrow> (case take_in (leader_on_message E) (last_text f') s of None \<Rightarrow> None
         | Some s' \<Rightarrow> if sending_to u s' = None then Some (s', f') else exchange E E' u k s' f'))"

lemma take_in_run:
  "h m s = (Inr (), t) \<Longrightarrow> take_in h (fst (encode_message m)) s = Some t"
  unfolding take_in_def deck_decode_def run_zoomE encode_message_def fst_conv decode_message_json by simp

lemma last_text_message: "outbox s = xs @ [SendMessage u t n] \<Longrightarrow> last_text s = t"
  by (simp add: last_text_def)

lemma last_text_response: "outbox s = xs @ [response m r] \<Longrightarrow> last_text s = fst (encode_message r)"
  by (simp add: last_text_def response_def)

lemma config_json_roundtrip:
  assumes "config_ok c"
  shows "sbind (json_loads (Dumps (ClusterConfig_json c))) config_from_json = Inr (c\<lparr>pending_node := None\<rparr>)"
proof -
  have rows: "smap NodeRec_kwargs (map (NodeRec_json \<circ> snd) ns) = Inr (map snd ns)" for ns :: "(uri \<times> NodeRec) list"
    by (induction ns) auto
  have "map (\<lambda>x. (node_uri (snd x), snd x)) (nodes c) = nodes c"
    using assms by (intro map_idI) (auto simp: config_ok_def list_all_iff)
  moreover have "distinct (map node_uri (map snd (nodes c)))"
  proof -
    have eq: "map node_uri (map snd (nodes c)) = dict_keys (nodes c)"
      using assms by (auto simp: config_ok_def list_all_iff)
    show ?thesis unfolding eq using assms by (simp add: config_ok_def)
  qed
  ultimately have "fold (\<lambda>n. dict_set (node_uri n) n) (map snd (nodes c)) [] = nodes c"
    using fold_dict_set_distinct [of "[]" "map snd (nodes c)"] by (simp add: comp_def)
  then show ?thesis
    by (simp add: config_from_json_def ClusterConfig_json_def item_def comp_def case_prod_beta rows [unfolded comp_def])
qed

subsection \<open>The leader\<close>

context log_client
begin

text \<open>A leader in the middle of a transfer, at a position of the snapshot.\<close>

definition sender_at :: "uri \<Rightarrow> SnapShot \<Rightarrow> int \<Rightarrow> bool \<Rightarrow> ClusterConfig \<Rightarrow> ('l, 'a) node \<Rightarrow> bool" where
  "sender_at u sn off dn c s \<longleftrightarrow> ok s \<and> v_config (lv s) = Some c \<and> \<not> l_stopped (leader s) \<and> \<not> l_use_check_quorum (leader s) \<and>
     (\<exists>tr. dict_get (follower_trackers (ops s)) u = Some tr \<and> has_snapshot_tool tr \<and>
        sending_snapshot tr = Some \<lparr>cursor_snapshot = sn, cursor_offset = off, cursor_done = dn\<rparr>)"

text \<open>The message that carries a chunk.\<close>

definition chunk_message :: "SnapShot \<Rightarrow> int \<Rightarrow> int \<Rightarrow> bool \<Rightarrow> pystr \<Rightarrow> ClusterConfig \<Rightarrow> log_hdr \<Rightarrow> message \<Rightarrow> bool" where
  "chunk_message sn t off dn chunk c h m \<longleftrightarrow> msg_term h = t \<and> prevLogIndex h = snap_index sn \<and> prevLogTerm h = snap_term sn \<and>
     (\<exists>cc. m = SnapShotMessage h (my_uri E) off dn chunk cc \<and> (off = 0 \<longrightarrow> cc = Some (Dumps (ClusterConfig_json c))))"

lemma send_chunk_run:
  assumes "sender_at u sn off d c s" and "get_snapshot_chunk E sn off (n_app s) = (Inr (chunk, off', dn), n_app s)"
  shows "\<exists>t h m n. snapshot_send E u s = (Inr (), t) \<and> sender_at u sn off' dn c t \<and> chunk_message sn (v_term (lv s)) off dn chunk c h m \<and>
    outbox t = outbox s @ [SendMessage (Some u) (fst (encode_message m)) n] \<and> n_log t = n_log s \<and> n_app t = n_app s"
proof -
  obtain tr where tr: "dict_get (follower_trackers (ops s)) u = Some tr" "has_snapshot_tool tr"
    "sending_snapshot tr = Some \<lparr>cursor_snapshot = sn, cursor_offset = off, cursor_done = d\<rparr>"
    using assms(1) by (auto simp: sender_at_def)
  have cf: "Log_Api.get_cluster_config api (n_log s) = Some c" using assms(1) by (simp add: sender_at_def)
  let ?h = "\<lparr>sender = my_uri E, receiver = Some u, serial_number = next_serial s, msg_term = get_term api (n_log s),
    prevLogIndex = snap_index sn, prevLogTerm = snap_term sn\<rparr>"
  let ?cc = "if off = 0 then Some (Dumps (ClusterConfig_json c)) else None"
  have "chunk_message sn (v_term (lv s)) off dn chunk c ?h (SnapShotMessage ?h (my_uri E) off dn chunk ?cc)"
    by (simp add: chunk_message_def)
  moreover have "\<exists>t n. snapshot_send E u s = (Inr (), t) \<and> sender_at u sn off' dn c t \<and>
      outbox t = outbox s @ [SendMessage (Some u) (fst (encode_message (SnapShotMessage ?h (my_uri E) off dn chunk ?cc))) n] \<and>
      n_log t = n_log s \<and> n_app t = n_app s"
    using assms tr cf
    by (simp add: snapshot_send_def tracker_for_follower_def run app_do_def mk_log_hdr_def get_cluster_config_json_string_def
        get_config_run log_E tracker_mod_def ops_mod_def send_message_def Let_def sender_at_def)
  ultimately show ?thesis by blast
qed

text \<open>The response to the last chunk ends the transfer, any other one sends the next chunk.\<close>

lemma response_routed:
  assumes "\<not> l_stopped (leader s)" and "msg_term h = v_term (lv s)"
  shows "leader_on_message E (SnapShotResponseMessage h off b) s = on_snapshot_response_message E (sender h) b s"
  using assms by (simp add: leader_on_message_def base_on_message_def leader_routes_def run route_def log_E)

lemma transfer_ends:
  assumes "sender_at u sn off True c s" and "u \<noteq> my_uri E"
  shows "\<exists>t tr. on_snapshot_response_message E u True s = (Inr (), t) \<and> dict_get (follower_trackers (ops t)) u = Some tr \<and>
    sending_snapshot tr = None \<and> matchIndex tr = snap_index sn \<and> nextIndex tr = snap_index sn + 1 \<and> n_log t = n_log s \<and> n_app t = n_app s"
proof -
  obtain tr where tr: "dict_get (follower_trackers (ops s)) u = Some tr" "has_snapshot_tool tr"
    "sending_snapshot tr = Some \<lparr>cursor_snapshot = sn, cursor_offset = off, cursor_done = True\<rparr>" "\<not> l_use_check_quorum (leader s)"
    using assms(1) by (auto simp: sender_at_def)
  show ?thesis
    using tr assms(2)
    by (auto simp: on_snapshot_response_message_def tracker_for_follower_def run tracker_mod_def ops_mod_def send_heartbeats_def
        heartbeat_one_def mk_log_hdr_def leader_mod_def record_sent_message_def send_message_def Let_def split: option.split)
qed

end

subsection \<open>The follower\<close>

context log_client
begin

text \<open>What a follower needs to take in a chunk: it runs, and the snapshot can be put into its log.\<close>

definition receiver_ok :: "SnapShot \<Rightarrow> int \<Rightarrow> ('l, 'a) node \<Rightarrow> bool" where
  "receiver_ok sn t f \<longleftrightarrow> ok f \<and> \<not> f_stopped (follower f) \<and> v_term (lv f) = t \<and> can_install sn (lv f)"

lemma chunk_routed:
  assumes "receiver_ok sn t f" and "msg_term h = t"
  shows "follower_on_message E (SnapShotMessage h l off dn chunk cc) f =
    on_snapshot_message E (SnapShotMessage h l off dn chunk cc) h off dn chunk cc f"
  using assms by (simp add: receiver_ok_def follower_on_message_def base_on_message_def follower_routes_def run route_def log_E)

text \<open>The first chunk opens the import and brings the configuration.\<close>

lemma import_opens:
  assumes "receiver_ok sn t f" and "config_ok c" and "begin_snapshot_import E sn (n_app f) = (Inr (), a)"
  shows "\<exists>f'. seqE (follower_mod (\<lambda>f. f\<lparr>f_snapshot := Some sn\<rparr>)) (seqE (app_do (begin_snapshot_import E sn))
      (update_cluster_config_from_json_string E (Some (Dumps (ClusterConfig_json c))))) f = (Inr (), f') \<and>
    receiver_ok sn t f' \<and> f_snapshot (follower f') = Some sn \<and> n_app f' = a \<and> outbox f' = outbox f"
proof -
  let ?f = "f\<lparr>follower := (follower f)\<lparr>f_snapshot := Some sn\<rparr>, n_app := a\<rparr>"
  have c: "config_ok (c\<lparr>pending_node := None\<rparr>)" using assms(2) by (simp add: config_ok_def)
  obtain l c' where l: "log_do (save_cluster_config (log E) (c\<lparr>pending_node := None\<rparr>)) ?f = (Inr (c\<lparr>pending_node := None\<rparr>), ?f\<lparr>n_log := l\<rparr>)"
    "inv l" "view api ents l = (lv f)\<lparr>v_config := Some c'\<rparr>"
    using do_save_config [OF _ c, of ?f] assms(1) by (auto simp: receiver_ok_def)
  have "update_cluster_config_from_json_string E (Some (Dumps (ClusterConfig_json c))) ?f = (Inr (), ?f\<lparr>n_log := l\<rparr>)"
    using l(1) unfolding update_cluster_config_from_json_string_def by (simp add: run config_json_roundtrip [OF assms(2), simplified])
  moreover have "receiver_ok sn t (?f\<lparr>n_log := l\<rparr>)"
    using assms(1) l(2) viewD [OF l(3)] by (simp add: receiver_ok_def can_install_def l(3))
  ultimately show ?thesis using assms(3) by (simp add: run follower_mod_def app_do_def)
qed

lemma chunk_taken:
  assumes "receiver_ok sn t f" and "f_snapshot (follower f) = Some sn" and "msg_term h = t"
    and "load_snapshot_chunk E chunk (n_app f) = (Inr (), a)" and "dn \<Longrightarrow> apply_snapshot E a = (Inr sn, a')"
  shows "\<exists>f' rh. on_snapshot_message E m h off dn chunk cc f = (Inr (), f') \<and> sender rh = my_uri E \<and> msg_term rh = t \<and>
    outbox f' = outbox f @ [response m (SnapShotResponseMessage rh off True)] \<and>
    (if dn then ok f' \<and> n_app f' = a' \<and> v_snap (lv f') = Some sn \<and> f_snapshot (follower f') = None \<and>
          v_last (lv f') = max (snap_index sn) (v_last (lv f))
     else receiver_ok sn t f' \<and> f_snapshot (follower f') = Some sn \<and> n_app f' = a)"
proof -
  let ?rh = "\<lambda>a. \<lparr>sender = my_uri E, receiver = Some (sender h), serial_number = next_serial (f\<lparr>n_app := a\<rparr>), msg_term = t,
    prevLogIndex = prevLogIndex h, prevLogTerm = prevLogTerm h\<rparr>"
  show ?thesis
  proof (cases dn)
    case True
    let ?f = "f\<lparr>n_app := a'\<rparr>"
    have "can_install sn (lv ?f)" "ok ?f" using assms(1) by (simp_all add: receiver_ok_def)
    then obtain l where l: "log_do (install_snapshot (log E) sn) ?f = (Inr (), ?f\<lparr>n_log := l\<rparr>)" "inv l"
      "view api ents l = snapshot_view sn (lv f)"
      using install_law [of "n_log ?f" sn] log_do_run [of "install_snapshot (log E) sn" ?f] log_E by fastforce
    have "get_term api l = t" using viewD(1) [OF l(3)] assms(1) by (simp add: snapshot_view_def receiver_ok_def)
    then have "\<exists>f'. on_snapshot_message E m h off dn chunk cc f = (Inr (), f') \<and>
        outbox f' = outbox f @ [response m (SnapShotResponseMessage (?rh a') off True)] \<and> ok f' \<and> n_app f' = a' \<and>
        v_snap (lv f') = Some sn \<and> f_snapshot (follower f') = None \<and> v_last (lv f') = max (snap_index sn) (v_last (lv f))"
      using True assms l
      by (simp add: on_snapshot_message_def run receiver_ok_def log_E app_do_def follower_mod_def send_snapshot_response_message_def
          mk_log_hdr_def send_response_def snapshot_view_def viewD [OF l(3)] app_log_swap)
    then show ?thesis using True by (auto intro!: exI [of _ "?rh a'"])
  next
    case False
    then have "\<exists>f'. on_snapshot_message E m h off dn chunk cc f = (Inr (), f') \<and>
        outbox f' = outbox f @ [response m (SnapShotResponseMessage (?rh a) off True)] \<and> receiver_ok sn t f' \<and>
        f_snapshot (follower f') = Some sn \<and> n_app f' = a"
      using assms
      by (simp add: on_snapshot_message_def run receiver_ok_def log_E app_do_def follower_mod_def send_snapshot_response_message_def
          mk_log_hdr_def send_response_def)
    then show ?thesis using False by (auto intro!: exI [of _ "?rh a"])
  qed
qed

end

context log_client
begin

lemma opened_first:
  assumes "receiver_ok sn t f" and "f_snapshot (follower f) = None" and "msg_term h = t" and "prevLogIndex h = snap_index sn"
    and "prevLogTerm h = snap_term sn" and "config_ok c" and "begin_snapshot_import E sn (n_app f) = (Inr (), a)"
  shows "\<exists>f'. on_snapshot_message E m h off dn chunk (Some (Dumps (ClusterConfig_json c))) f =
      on_snapshot_message E m h off dn chunk (Some (Dumps (ClusterConfig_json c))) f' \<and>
    receiver_ok sn t f' \<and> f_snapshot (follower f') = Some sn \<and> n_app f' = a \<and> outbox f' = outbox f"
proof -
  let ?open = "seqE (follower_mod (\<lambda>f. f\<lparr>f_snapshot := Some sn\<rparr>)) (seqE (app_do (begin_snapshot_import E sn))
      (update_cluster_config_from_json_string E (Some (Dumps (ClusterConfig_json c)))))"
  obtain f' where f': "?open f = (Inr (), f')" "receiver_ok sn t f'" "f_snapshot (follower f') = Some sn" "n_app f' = a" "outbox f' = outbox f"
    using import_opens [OF assms(1,6,7)] by blast
  have sn: "\<lparr>snap_index = prevLogIndex h, snap_term = prevLogTerm h\<rparr> = sn" using assms(4,5) by simp
  have t: "get_term (log E) (n_log f) = t" "get_term (log E) (n_log f') = t"
    using assms(1) f'(2) by (simp_all add: receiver_ok_def log_E)
  have "on_snapshot_message E m h off dn chunk (Some (Dumps (ClusterConfig_json c))) f =
      on_snapshot_message E m h off dn chunk (Some (Dumps (ClusterConfig_json c))) f'"
    unfolding on_snapshot_message_def Let_def sn
    using f'(1,3) t assms(2,3) by (simp add: run_bindE run_seqE run_getsE run_whenE log_get_run)
  with f' show ?thesis by blast
qed

end

subsection \<open>Both together\<close>

locale snapshot_sending = snapshot_app begin_export get_chunk begin_import load_chunk apply_import exports fresh loaded holds left +
    L: log_client api inv ents E + F: log_client api' inv' ents' E'
  for begin_export :: "SnapShot \<Rightarrow> ('a, unit) eff" and get_chunk :: "SnapShot \<Rightarrow> int \<Rightarrow> ('a, pystr \<times> int \<times> bool) eff"
    and begin_import :: "SnapShot \<Rightarrow> ('a, unit) eff" and load_chunk :: "pystr \<Rightarrow> ('a, unit) eff" and apply_import :: "('a, SnapShot) eff"
    and exports :: "'a \<Rightarrow> 'c \<Rightarrow> bool" and fresh :: "'c \<Rightarrow> 'a \<Rightarrow> bool" and loaded :: "SnapShot \<Rightarrow> 'c \<Rightarrow> int \<Rightarrow> 'a \<Rightarrow> bool"
    and holds :: "'c \<Rightarrow> 'a \<Rightarrow> bool" and left :: "'c \<Rightarrow> int \<Rightarrow> nat"
    and api :: "'l LogAPI" and inv :: "'l \<Rightarrow> bool" and ents :: "'l \<Rightarrow> int \<Rightarrow> LogRec option" and E :: "('l, 'a) env"
    and api' :: "'m LogAPI" and inv' :: "'m \<Rightarrow> bool" and ents' :: "'m \<Rightarrow> int \<Rightarrow> LogRec option" and E' :: "('m, 'a) env" +
  assumes exporting: "begin_snapshot_export E = begin_export" "get_snapshot_chunk E = get_chunk"
    and importing: "begin_snapshot_import E' = begin_import" "load_snapshot_chunk E' = load_chunk" "apply_snapshot E' = apply_import"
begin

text \<open>A follower that is ready for the chunk at a position.\<close>

definition ready_for :: "SnapShot \<Rightarrow> int \<Rightarrow> 'c \<Rightarrow> int \<Rightarrow> ('m, 'a) node \<Rightarrow> bool" where
  "ready_for sn t c off f \<longleftrightarrow> F.receiver_ok sn t f \<and>
     (f_snapshot (follower f) = Some sn \<and> loaded sn c off (n_app f) \<or> f_snapshot (follower f) = None \<and> fresh c (n_app f) \<and> off = 0)"

lemma follower_step:
  assumes "ready_for sn t c off f" and "L.chunk_message sn t off dn chunk cfg h m" and "config_ok cfg" and "exports a c"
    and "get_chunk sn off a = (Inr (chunk, off', dn), a)"
  shows "\<exists>f' rh. follower_on_message E' m f = (Inr (), f') \<and> sender rh = my_uri E' \<and> msg_term rh = t \<and>
    outbox f' = outbox f @ [response m (SnapShotResponseMessage rh off True)] \<and>
    (if dn then inv' (n_log f') \<and> holds c (n_app f') \<and> v_snap (F.lv f') = Some sn \<and> f_snapshot (follower f') = None
     else ready_for sn t c off' f' \<and> left c off' < left c off)"
proof -
  obtain cc where m: "m = SnapShotMessage h (my_uri E) off dn chunk cc" "msg_term h = t" "prevLogIndex h = snap_index sn"
    "prevLogTerm h = snap_term sn" "off = 0 \<Longrightarrow> cc = Some (Dumps (ClusterConfig_json cfg))"
    using assms(2) by (auto simp: L.chunk_message_def)
  have rf: "F.receiver_ok sn t f" using assms(1) by (simp add: ready_for_def)
  have "\<exists>f1. on_snapshot_message E' m h off dn chunk cc f = on_snapshot_message E' m h off dn chunk cc f1 \<and>
      F.receiver_ok sn t f1 \<and> f_snapshot (follower f1) = Some sn \<and> loaded sn c off (n_app f1) \<and> outbox f1 = outbox f"
  proof (cases "f_snapshot (follower f)")
    case None
    then have fr: "fresh c (n_app f)" "off = 0" using assms(1) by (simp_all add: ready_for_def)
    obtain b where "begin_snapshot_import E' sn (n_app f) = (Inr (), b)" "loaded sn c 0 b"
      using import_law [OF fr(1)] unfolding importing by blast
    then show ?thesis using F.opened_first [OF rf None m(2-4) assms(3)] m(5) fr(2) by fastforce
  qed (use assms(1) rf in \<open>auto simp: ready_for_def\<close>)
  then obtain f1 where f1: "on_snapshot_message E' m h off dn chunk cc f = on_snapshot_message E' m h off dn chunk cc f1"
    "F.receiver_ok sn t f1" "f_snapshot (follower f1) = Some sn" "loaded sn c off (n_app f1)" "outbox f1 = outbox f" by blast
  obtain b where b: "load_snapshot_chunk E' chunk (n_app f1) = (Inr (), b)"
    "if dn then \<exists>b'. apply_snapshot E' b = (Inr sn, b') \<and> holds c b' else loaded sn c off' b \<and> left c off' < left c off"
    using chunk_law [OF assms(4) f1(4)] assms(5) unfolding importing by auto
  obtain b' where b': "dn \<Longrightarrow> apply_snapshot E' b = (Inr sn, b')" "dn \<Longrightarrow> holds c b'" using b(2) by (cases dn) auto
  from F.chunk_taken [OF f1(2,3) m(2) b(1) b'(1), where m = m and off = off and cc = cc] obtain f' rh where
    f': "on_snapshot_message E' m h off dn chunk cc f1 = (Inr (), f')" "sender rh = my_uri E'" "msg_term rh = t"
      "outbox f' = outbox f1 @ [response m (SnapShotResponseMessage rh off True)]"
      "if dn then inv' (n_log f') \<and> n_app f' = b' \<and> v_snap (F.lv f') = Some sn \<and> f_snapshot (follower f') = None \<and>
          v_last (F.lv f') = max (snap_index sn) (v_last (F.lv f1))
       else F.receiver_ok sn t f' \<and> f_snapshot (follower f') = Some sn \<and> n_app f' = b" by blast
  have "follower_on_message E' m f = (Inr (), f')"
    using F.chunk_routed [OF rf m(2)] f1(1) f'(1) unfolding m(1) by simp
  moreover have "if dn then inv' (n_log f') \<and> holds c (n_app f') \<and> v_snap (F.lv f') = Some sn \<and> f_snapshot (follower f') = None
     else ready_for sn t c off' f' \<and> left c off' < left c off"
    using f'(5) b(2) b'(2) by (cases dn) (auto simp: ready_for_def simp del: view_simps)
  ultimately show ?thesis using f'(2-4) f1(5) by auto
qed

lemma follower_loaded:
  assumes "ready_for sn t c off f" and "exports a c" and "get_chunk sn off a = (Inr (chunk, off', False), a)"
  shows "\<exists>b. loaded sn c off' b"
proof -
  obtain b where "loaded sn c off b" using assms(1) import_law [of c "n_app f" sn] by (auto simp: ready_for_def)
  from chunk_law [OF assms(2) this] assms(3) show ?thesis by auto
qed

text \<open>The chunk at a position is on its way to a follower that is ready for it.\<close>

definition on_its_way :: "uri \<Rightarrow> SnapShot \<Rightarrow> 'c \<Rightarrow> ClusterConfig \<Rightarrow> int \<Rightarrow> ('l, 'a) node \<Rightarrow> ('m, 'a) node \<Rightarrow> bool" where
  "on_its_way u sn c cfg off s f \<longleftrightarrow> exports (n_app s) c \<and> ready_for sn (v_term (L.lv s)) c off f \<and>
     (\<exists>chunk off' dn h m xs n. get_chunk sn off (n_app s) = (Inr (chunk, off', dn), n_app s) \<and> L.sender_at u sn off' dn cfg s \<and>
        L.chunk_message sn (v_term (L.lv s)) off dn chunk cfg h m \<and> outbox s = xs @ [SendMessage (Some u) (fst (encode_message m)) n])"

definition transferred :: "uri \<Rightarrow> SnapShot \<Rightarrow> 'c \<Rightarrow> ('l, 'a) node \<Rightarrow> ('m, 'a) node \<Rightarrow> bool" where
  "transferred u sn c s f \<longleftrightarrow> inv' (n_log f) \<and> holds c (n_app f) \<and> v_snap (F.lv f) = Some sn \<and> f_snapshot (follower f) = None \<and>
     (\<exists>tr. dict_get (follower_trackers (ops s)) u = Some tr \<and> sending_snapshot tr = None \<and> matchIndex tr = snap_index sn \<and>
        nextIndex tr = snap_index sn + 1)"

lemma chunk_on_its_way:
  assumes "L.sender_at u sn off d cfg s" and "exports (n_app s) c" and "ready_for sn (v_term (L.lv s)) c off f" and "loaded sn c off b"
  shows "\<exists>s'. snapshot_send E u s = (Inr (), s') \<and> on_its_way u sn c cfg off s' f"
proof -
  obtain chunk off' dn where g: "get_chunk sn off (n_app s) = (Inr (chunk, off', dn), n_app s)"
    using chunk_law [OF assms(2,4)] by blast
  then have "get_snapshot_chunk E sn off (n_app s) = (Inr (chunk, off', dn), n_app s)" by (simp add: exporting)
  from L.send_chunk_run [OF assms(1) this] obtain t h m n where t: "snapshot_send E u s = (Inr (), t)" "L.sender_at u sn off' dn cfg t"
    "L.chunk_message sn (v_term (L.lv s)) off dn chunk cfg h m" "outbox t = outbox s @ [SendMessage (Some u) (fst (encode_message m)) n]"
    "n_log t = n_log s" "n_app t = n_app s" by blast
  have "on_its_way u sn c cfg off t f"
    unfolding on_its_way_def t(5,6) using assms(2,3) g t(2-4) by blast
  with t(1) show ?thesis by blast
qed

lemma exchange_ends:
  assumes "on_its_way u sn c cfg off s f" and "left c off < k" and "config_ok cfg" and "my_uri E' = u" and "u \<noteq> my_uri E"
  shows "\<exists>s' f'. exchange E E' u k s f = Some (s', f') \<and> transferred u sn c s' f'"
  using assms(1,2)
proof (induction k arbitrary: off s f)
  case (Suc k)
  obtain chunk off' dn h m xs n where w: "exports (n_app s) c" "ready_for sn (v_term (L.lv s)) c off f"
    "get_chunk sn off (n_app s) = (Inr (chunk, off', dn), n_app s)" "L.sender_at u sn off' dn cfg s"
    "L.chunk_message sn (v_term (L.lv s)) off dn chunk cfg h m" "outbox s = xs @ [SendMessage (Some u) (fst (encode_message m)) n]"
    using Suc.prems(1) unfolding on_its_way_def by blast
  obtain f' rh where f': "follower_on_message E' m f = (Inr (), f')" "sender rh = u" "msg_term rh = v_term (L.lv s)"
    "outbox f' = outbox f @ [response m (SnapShotResponseMessage rh off True)]"
    "if dn then inv' (n_log f') \<and> holds c (n_app f') \<and> v_snap (F.lv f') = Some sn \<and> f_snapshot (follower f') = None
     else ready_for sn (v_term (L.lv s)) c off' f' \<and> left c off' < left c off"
    using follower_step [OF w(2,5) assms(3) w(1,3)] assms(4) by blast
  have ti: "take_in (follower_on_message E') (last_text s) f = Some f'"
    unfolding last_text_message [OF w(6)] by (rule take_in_run) (rule f'(1))
  have lr: "leader_on_message E (SnapShotResponseMessage rh off True) s = on_snapshot_response_message E u True s"
    using L.response_routed [of s rh off True] w(4) f'(2,3) by (simp add: L.sender_at_def)
  show ?case
  proof (cases dn)
    case True
    with w(4) have "L.sender_at u sn off' True cfg s" by simp
    then obtain t tr where t: "on_snapshot_response_message E u True s = (Inr (), t)" "dict_get (follower_trackers (ops t)) u = Some tr"
      "sending_snapshot tr = None" "matchIndex tr = snap_index sn" "nextIndex tr = snap_index sn + 1"
      using L.transfer_ends assms(5) by blast
    have "take_in (leader_on_message E) (last_text f') s = Some t"
      unfolding last_text_response [OF f'(4)] by (rule take_in_run) (simp add: lr t(1))
    moreover have "sending_to u t = None" using t(2,3) by (simp add: sending_to_def)
    moreover have "transferred u sn c t f'" using True f'(5) t(2-5) by (simp add: transferred_def del: view_simps)
    ultimately show ?thesis using ti by simp
  next
    case False
    then have r: "ready_for sn (v_term (L.lv s)) c off' f'" "left c off' < left c off" using f'(5) by simp_all
    obtain tr where tr: "dict_get (follower_trackers (ops s)) u = Some tr"
      "sending_snapshot tr = Some \<lparr>cursor_snapshot = sn, cursor_offset = off', cursor_done = False\<rparr>"
      using w(4) False by (auto simp: L.sender_at_def)
    then have resp: "on_snapshot_response_message E u True s = snapshot_send E u s"
      by (simp add: on_snapshot_response_message_def tracker_for_follower_def run)
    have "\<exists>b. loaded sn c off' b" using follower_loaded [OF w(2,1)] w(3) False by simp
    then obtain s' where s': "snapshot_send E u s = (Inr (), s')" "on_its_way u sn c cfg off' s' f'"
      using chunk_on_its_way [OF w(4,1) r(1)] by blast
    have "take_in (leader_on_message E) (last_text f') s = Some s'"
      unfolding last_text_response [OF f'(4)] by (rule take_in_run) (simp add: lr resp s'(1))
    moreover have "sending_to u s' \<noteq> None"
      using s'(2) by (auto simp: on_its_way_def L.sender_at_def sending_to_def)
    moreover have "\<exists>s'' f''. exchange E E' u k s' f' = Some (s'', f'') \<and> transferred u sn c s'' f''"
      using Suc.IH [OF s'(2)] r(2) Suc.prems(2) by simp
    ultimately show ?thesis using ti by auto
  qed
qed simp

text \<open>Starting a transfer.\<close>

lemma start_sends:
  assumes "inv (n_log s)" and "v_snap (L.lv s) = Some sn" and "v_config (L.lv s) = Some cfg" and "\<not> l_stopped (leader s)"
    and "\<not> l_use_check_quorum (leader s)" and "exports (n_app s) c" and "ready_for sn (v_term (L.lv s)) c 0 f" and "loaded sn c 0 b"
  shows "\<exists>s'. start_snapshot_send E u s = (Inr (), s') \<and> on_its_way u sn c cfg 0 s' f"
proof -
  obtain p tr where tr: "tracker_for_follower E u s = (Inr tr, s\<lparr>ops := p\<rparr>)" "dict_get (follower_trackers p) u = Some tr"
    using tracker_run by blast
  obtain a where a: "begin_export sn (n_app s) = (Inr (), a)" "exports a c" using export_law [OF assms(6)] by blast
  let ?tr = "tr\<lparr>sending_snapshot := Some \<lparr>cursor_snapshot = sn, cursor_offset = 0, cursor_done = False\<rparr>, has_snapshot_tool := True\<rparr>"
  let ?s = "s\<lparr>n_app := a, ops := p\<lparr>follower_trackers := dict_set u ?tr (follower_trackers p)\<rparr>\<rparr>"
  have "get_snapshot api (n_log s) = Some sn" using assms(2) by simp
  then have "start_snapshot_send E u s = snapshot_send E u ?s"
    using tr a(1) by (simp add: start_snapshot_send_def run L.log_E app_do_def exporting tracker_mod_def ops_mod_def)
  moreover have "L.sender_at u sn 0 False cfg ?s" using assms(1,3-5) by (simp add: L.sender_at_def)
  ultimately show ?thesis using chunk_on_its_way [of u sn 0 False cfg ?s c f b] a(2) assms(7,8) by simp
qed

end

text \<open>The totals under an engine, on any two logs.\<close>

lemma totals_env_simps [simp]:
  "log (totals_env E) = log E" "local_config (totals_env E) = local_config E"
  "begin_snapshot_export (totals_env E) = dict_begin_snapshot" "get_snapshot_chunk (totals_env E) = (\<lambda>sn. dict_get_chunk)"
  "begin_snapshot_import (totals_env E) = dict_begin_snapshot" "load_snapshot_chunk (totals_env E) = dict_load_chunk"
  "apply_snapshot (totals_env E) = dict_apply_snapshot"
  by (simp_all add: totals_env_def)

lemma totals_sending:
  assumes "log_client api I ents (totals_env E)" and "log_client api' I' ents' (totals_env E')"
  shows "snapshot_sending dict_begin_snapshot (\<lambda>sn. dict_get_chunk) dict_begin_snapshot dict_load_chunk dict_apply_snapshot
    totals_exports (\<lambda>c b. dom (dict_get (totals b)) \<subseteq> fst ` set c) totals_loaded (\<lambda>c b. dict_get (totals b) = map_of c)
    (\<lambda>c off. nat (int (length c) - off)) api I ents (totals_env E) api' I' ents' (totals_env E')"
  unfolding snapshot_sending_def snapshot_sending_axioms_def using assms totals.snapshot_app_axioms by simp

interpretation totals_sql: snapshot_sending dict_begin_snapshot "\<lambda>sn. dict_get_chunk" dict_begin_snapshot dict_load_chunk dict_apply_snapshot
    totals_exports "\<lambda>c b. dom (dict_get (totals b)) \<subseteq> fst ` set c" totals_loaded "\<lambda>c b. dict_get (totals b) = map_of c"
    "\<lambda>c off. nat (int (length c) - off)" sqlite_api sql_inv sql_ents "totals_env (E\<lparr>log := sqlite_api\<rparr>)"
    sqlite_api sql_inv sql_ents "totals_env (E'\<lparr>log := sqlite_api\<rparr>)" for E E' :: "(Records, 'b) env"
  by (rule totals_sending; unfold_locales; simp)

text \<open>C5. A leader without the quorum check (\<open>use_check_quorum\<close> off) that has a snapshot of the totals brings a follower to it: the exchange of chunks and responses, decoded from the bytes each side
  hands to its pilot, ends after at most one more chunk than there are slots; the follower then has every total of the snapshot and no
  other slots, the snapshot is in its log, and the leader counts it as matching up to the snapshot.
\<close>

theorem snapshot_transferred:
  assumes "log_client api I ents (totals_env E)" and "I (n_log s)" and "v = view api ents (n_log s)" and "v_snap v = Some sn"
    and "v_config v = Some cfg" and "config_ok cfg" and "\<not> l_stopped (leader s)" and "\<not> l_use_check_quorum (leader s)"
    and "snap_data (n_app s) = c" and "distinct (map fst c)" and "log_client api' I' ents' (totals_env E')" and "I' (n_log f)"
    and "w = view api' ents' (n_log f)" and "v_term w = v_term v" and "can_install sn w" and "\<not> f_stopped (follower f)"
    and "f_snapshot (follower f) = None" and "dom (dict_get (totals (n_app f))) \<subseteq> fst ` set c" and "my_uri E' = u" and "u \<noteq> my_uri E"
  shows "\<exists>s1 s' f' tr. start_snapshot_send (totals_env E) u s = (Inr (), s1) \<and>
    exchange (totals_env E) (totals_env E') u (Suc (length c)) s1 f = Some (s', f') \<and>
    dict_get (totals (n_app f')) = map_of c \<and> v_snap (view api' ents' (n_log f')) = Some sn \<and>
    dict_get (follower_trackers (ops s')) u = Some tr \<and> matchIndex tr = snap_index sn \<and> nextIndex tr = snap_index sn + 1"
proof -
  note sending = totals_sending [OF assms(1,11)]
  have ex: "totals_exports (n_app s) c" using assms(9,10) by (simp add: totals_exports_def)
  have "snapshot_sending.ready_for (\<lambda>c b. dom (dict_get (totals b)) \<subseteq> fst ` set c) totals_loaded api' I' ents' sn (v_term v) c 0 f"
    unfolding snapshot_sending.ready_for_def [OF sending] log_client.receiver_ok_def [OF assms(11)]
    using assms(12-18) by (simp del: view_simps)
  moreover have "totals_loaded sn c 0 \<lparr>totals = [], snap_data = [], dt_snapshot = Some sn\<rparr>" by (simp add: totals_loaded_def)
  ultimately obtain s1 where s1: "start_snapshot_send (totals_env E) u s = (Inr (), s1)"
    "snapshot_sending.on_its_way (\<lambda>sn. dict_get_chunk) totals_exports (\<lambda>c b. dom (dict_get (totals b)) \<subseteq> fst ` set c) totals_loaded
       api I ents (totals_env E) api' I' ents' u sn c cfg 0 s1 f"
    using snapshot_sending.start_sends [OF sending assms(2)] assms(3-5,7,8) ex by blast
  from snapshot_sending.exchange_ends [OF sending s1(2) _ assms(6), of "Suc (length c)"] assms(19,20) obtain s' f' where
    "exchange (totals_env E) (totals_env E') u (Suc (length c)) s1 f = Some (s', f')"
    "snapshot_sending.transferred (\<lambda>c b. dict_get (totals b) = map_of c) api' I' ents' u sn c s' f'" by auto
  then show ?thesis using s1(1) unfolding snapshot_sending.transferred_def [OF sending] by blast
qed

text \<open>A leader with a snapshot of two slots, and a new follower.\<close>

definition snap_log :: MemoryLog where
  "snap_log = snd (install_snapshot memory_api \<lparr>snap_index = 1, snap_term = 1\<rparr> example_member_log)"

definition totals_leader :: "(MemoryLog, dict_totals) node" where
  "totals_leader = (new_node snap_log \<lparr>totals = [(''x'', 6)], snap_data = [(''x'', 5), (''y'', 7)], dt_snapshot = None\<rparr>
     1800000000 new_SerialNumberGenerator)\<lparr>leader := new_Leader False\<rparr>"

definition totals_follower :: "(MemoryLog, dict_totals) node" where
  "totals_follower = new_node (new_MemoryLog 0) \<lparr>totals = [(''x'', 1)], snap_data = [], dt_snapshot = None\<rparr>
     1800000000 new_SerialNumberGenerator"

theorem snapshot_transferred_witness:
  "\<exists>s1 s' f'. start_snapshot_send (totals_env (example_env memory_api ''n1'')) ''n2'' totals_leader = (Inr (), s1) \<and>
     exchange (totals_env (example_env memory_api ''n1'')) (totals_env (example_env memory_api ''n2'')) ''n2'' 3 s1 totals_follower = Some (s', f') \<and>
     dict_get (totals (n_app f')) ''x'' = Some 5 \<and> dict_get (totals (n_app f')) ''y'' = Some 7"
proof -
  let ?sn = "\<lparr>snap_index = 1, snap_term = 1\<rparr> :: SnapShot" and ?c = "[(''x'', 5), (''y'', 7)] :: (string \<times> int) list"
  obtain c0 where c0: "mem_view example_member_log = (mem_view example_log)\<lparr>v_config := Some c0\<rparr>" "config_same example_config c0"
    using example_member_view by auto
  have inst: "can_install ?sn (mem_view example_member_log)"
    unfolding can_install_def c0(1) by (simp add: example_view_simps del: view_simps)
  from mem.install_law [OF example_member_log_inv this] have sl: "mem_inv snap_log"
    "mem_view snap_log = snapshot_view ?sn (mem_view example_member_log)" by (auto simp: snap_log_def)
  have v: "v_snap (mem_view snap_log) = Some ?sn" "v_config (mem_view snap_log) = Some c0"
    "v_term (mem_view snap_log) = v_term (mem_view example_log)"
    unfolding sl(2) c0(1) by (simp_all add: snapshot_view_def del: view_simps)
  have cok: "config_ok c0" by (rule config_same_ok [OF example_config_ok(1) c0(2)])
  have n: "n_log totals_leader = snap_log" "snap_data (n_app totals_leader) = ?c" "\<not> l_stopped (leader totals_leader)"
    "\<not> l_use_check_quorum (leader totals_leader)" "n_log totals_follower = new_MemoryLog 0" "\<not> f_stopped (follower totals_follower)"
    "f_snapshot (follower totals_follower) = None" "totals (n_app totals_follower) = [(''x'', 1)]"
    by (simp_all add: totals_leader_def totals_follower_def new_node_def new_Leader_def new_Follower_def)
  have w: "v_term (mem_view (new_MemoryLog 0)) = v_term (mem_view example_log)" "can_install ?sn (mem_view (new_MemoryLog 0))"
    by (simp_all add: example_view_simps can_install_def del: view_simps) (simp_all add: new_MemoryLog_def)
  have cl: "log_client memory_api mem_inv mem_ents (totals_env (example_env memory_api me))" for me by unfold_locales simp
  have "\<exists>s1 s' f' tr. start_snapshot_send (totals_env (example_env memory_api ''n1'')) ''n2'' totals_leader = (Inr (), s1) \<and>
    exchange (totals_env (example_env memory_api ''n1'')) (totals_env (example_env memory_api ''n2'')) ''n2'' (Suc (length ?c)) s1
      totals_follower = Some (s', f') \<and>
    dict_get (totals (n_app f')) = map_of ?c \<and> v_snap (mem_view (n_log f')) = Some ?sn \<and>
    dict_get (follower_trackers (ops s')) ''n2'' = Some tr \<and> matchIndex tr = snap_index ?sn \<and> nextIndex tr = snap_index ?sn + 1"
    by (rule snapshot_transferred [OF cl _ refl _ _ cok n(3,4,2) _ cl _ refl _ _ n(6,7)])
      (use sl(1) v w mem_inv_new in \<open>simp_all add: n example_env_def del: view_simps\<close>)
  then show ?thesis by (auto simp: numeral_eq_Suc simp del: exchange.simps view_simps)
qed

end
