(* ===== verification/Net_Sim.thy ===== *)
theory Net_Sim
  imports Deck Py_Text
begin

text \<open>
  The simulated network that runs several engines together: \<open>NetManager\<close> and \<open>Network\<close> of
  \<open>src/dev_tools/network_sim.py\<close> and the message queues of \<open>PausingServer\<close>
  (\<open>src/dev_tools/pausing_server.py\<close>). Server objects are named by their uri, network objects by their
  place in the list of networks made so far. What a server's engine does with a message is the
  parameter \<open>H\<close>: the engine's state after \<open>on_message\<close> and the messages it sent; \<open>engine_on_message\<close> is the one
  of this development. The calls that record a test trace are left out, and so are the interceptors a test may install.
\<close>

section \<open>Servers and networks\<close>

record 'n server =
  deck_state :: "'n option"
  in_messages :: "message list"
  out_messages :: "message list"
  lost_out_messages :: "message list"
  block_messages :: bool
  blocked_in_messages :: "message list option"
  blocked_out_messages :: "message list option"
  sv_network :: "nat option"
  am_paused :: bool
  am_crashed :: bool
  kept_state :: "'n option"

record Network =
  net_name :: string
  net_nodes :: "uri list"

record 'n sim =
  servers :: "uri \<Rightarrow> 'n server"
  nets :: "Network list"
  full_cluster :: "nat option"
  quorum_segment :: "nat option"
  other_segments :: "nat list option"

type_synonym 'n handler = "uri \<Rightarrow> message \<Rightarrow> 'n \<Rightarrow> 'n \<times> message list"

definition new_server :: "'n \<Rightarrow> 'n server" where
  "new_server n = \<lparr>deck_state = Some n, in_messages = [], out_messages = [], lost_out_messages = [],
     block_messages = False, blocked_in_messages = None, blocked_out_messages = None, sv_network = None,
     am_paused = True, am_crashed = False, kept_state = None\<rparr>"

definition new_NetManager :: "(uri \<Rightarrow> 'n server) \<Rightarrow> 'n sim" where
  "new_NetManager sv = \<lparr>servers = sv, nets = [], full_cluster = None, quorum_segment = None, other_segments = None\<rparr>"

definition server_mod :: "uri \<Rightarrow> ('n server \<Rightarrow> 'n server) \<Rightarrow> ('n sim, unit) eff" where
  "server_mod u f = modE (\<lambda>s. s\<lparr>servers := (servers s)(u := f (servers s u))\<rparr>)"

definition net_mod :: "nat \<Rightarrow> (Network \<Rightarrow> Network) \<Rightarrow> ('n sim, unit) eff" where
  "net_mod i f = modE (\<lambda>s. s\<lparr>nets := (nets s)[i := f (nets s ! i)]\<rparr>)"

abbreviation nodes_on :: "'n sim \<Rightarrow> nat \<Rightarrow> uri list" where
  "nodes_on s i \<equiv> net_nodes (nets s ! i)"

subsection \<open>Server queues\<close>

definition change_networks :: "uri \<Rightarrow> nat \<Rightarrow> ('n sim, unit) eff" where
  "change_networks u i = server_mod u (\<lambda>v. v\<lparr>sv_network := Some i\<rparr>)"

definition block_network :: "uri \<Rightarrow> ('n sim, unit) eff" where
  "block_network u = server_mod u (\<lambda>v. v\<lparr>blocked_in_messages := Some [], blocked_out_messages := Some [],
     in_messages := [], out_messages := [], block_messages := True\<rparr>)"

text \<open>Delivering what was held back fails on a server that was not blocked: there are no lists.\<close>

definition unblock_network :: "uri \<Rightarrow> bool \<Rightarrow> ('n sim, unit) eff" where
  "unblock_network u deliver =
     seqE (server_mod u (\<lambda>v. v\<lparr>block_messages := False\<rparr>))
     (if \<not> deliver then server_mod u (\<lambda>v. v\<lparr>blocked_in_messages := None, blocked_out_messages := None\<rparr>)
      else bindE (getsE (\<lambda>s. servers s u)) (\<lambda>v.
        bindE (some_or TypeError (blocked_in_messages v)) (\<lambda>bi.
        seqE (server_mod u (\<lambda>v. v\<lparr>in_messages := in_messages v @ bi\<rparr>))
        (bindE (some_or TypeError (blocked_out_messages v)) (\<lambda>bo.
        seqE (server_mod u (\<lambda>v. v\<lparr>out_messages := out_messages v @ bo\<rparr>))
        (server_mod u (\<lambda>v. v\<lparr>blocked_in_messages := None, blocked_out_messages := None\<rparr>)))))))"

definition clear_all_msgs :: "uri \<Rightarrow> ('n sim, unit) eff" where
  "clear_all_msgs u = seqE (server_mod u (\<lambda>v. v\<lparr>out_messages := []\<rparr>)) (server_mod u (\<lambda>v. v\<lparr>in_messages := []\<rparr>))"

definition hold_in :: "uri \<Rightarrow> message \<Rightarrow> ('n sim, unit) eff" where
  "hold_in u m = bindE (getsE (\<lambda>s. blocked_in_messages (servers s u))) (\<lambda>b.
     bindE (some_or AttributeError b) (\<lambda>bs. server_mod u (\<lambda>v. v\<lparr>blocked_in_messages := Some (bs @ [m])\<rparr>)))"

definition hold_out :: "uri \<Rightarrow> message \<Rightarrow> ('n sim, unit) eff" where
  "hold_out u m = bindE (getsE (\<lambda>s. blocked_out_messages (servers s u))) (\<lambda>b.
     bindE (some_or AttributeError b) (\<lambda>bs. server_mod u (\<lambda>v. v\<lparr>blocked_out_messages := Some (bs @ [m])\<rparr>)))"

section \<open>One network\<close>

definition Network_add_node :: "nat \<Rightarrow> uri \<Rightarrow> ('n sim, unit) eff" where
  "Network_add_node i u = bindE (getsE (\<lambda>s. nodes_on s i)) (\<lambda>us.
     seqE (whenE (u \<notin> set us) (net_mod i (\<lambda>n. n\<lparr>net_nodes := net_nodes n @ [u]\<rparr>))) (change_networks u i))"

definition Network_remove_node :: "nat \<Rightarrow> uri \<Rightarrow> ('n sim, unit) eff" where
  "Network_remove_node i u = net_mod i (\<lambda>n. n\<lparr>net_nodes := filter (\<lambda>w. w \<noteq> u) (net_nodes n)\<rparr>)"

definition new_Network :: "string \<Rightarrow> uri list \<Rightarrow> ('n sim, nat) eff" where
  "new_Network name us = bindE (getsE (\<lambda>s. length (nets s))) (\<lambda>i.
     seqE (modE (\<lambda>s. s\<lparr>nets := nets s @ [\<lparr>net_name = name, net_nodes = []\<rparr>]\<rparr>))
     (seqE (forE us (Network_add_node i)) (ret i)))"

definition Network_post_in_message :: "nat \<Rightarrow> message \<Rightarrow> ('n sim, unit) eff" where
  "Network_post_in_message i m = bindE (getsE (\<lambda>s. nodes_on s i)) (\<lambda>us.
     case receiver (msg_hdr_of m) of None \<Rightarrow> throw KeyError
     | Some w \<Rightarrow>
         if w \<notin> set us then throw KeyError
         else bindE (getsE (\<lambda>s. block_messages (servers s w))) (\<lambda>b.
           if b then hold_in w m
           else server_mod w (\<lambda>v. v\<lparr>in_messages := in_messages v @ [m]\<rparr>)))"

definition do_next_in_msg :: "'n handler \<Rightarrow> uri \<Rightarrow> ('n sim, message option) eff" where
  "do_next_in_msg H u = bindE (getsE (\<lambda>s. servers s u)) (\<lambda>v.
     case in_messages v of [] \<Rightarrow> ret None
     | m # rest \<Rightarrow>
         seqE (server_mod u (\<lambda>v. v\<lparr>in_messages := rest\<rparr>))
         (if block_messages v then seqE (hold_in u m) (ret None)
          else bindE (some_or AttributeError (deck_state v)) (\<lambda>n.
            seqE (server_mod u (\<lambda>v. v\<lparr>deck_state := Some (fst (H u m n)),
                    out_messages := out_messages v @ snd (H u m n)\<rparr>))
            (ret (Some m)))))"

definition do_next_out_msg :: "nat \<Rightarrow> uri \<Rightarrow> ('n sim, message option) eff" where
  "do_next_out_msg i u = bindE (getsE (\<lambda>s. servers s u)) (\<lambda>v.
     case out_messages v of [] \<Rightarrow> ret None
     | m # rest \<Rightarrow>
         seqE (server_mod u (\<lambda>v. v\<lparr>out_messages := rest\<rparr>))
         (if block_messages v then seqE (hold_out u m) (ret None)
          else bindE (getsE (\<lambda>s. nodes_on s i)) (\<lambda>us.
            case receiver (msg_hdr_of m) of
              Some w \<Rightarrow>
                if w \<in> set us then seqE (Network_post_in_message i m) (ret (Some m))
                else seqE (server_mod u (\<lambda>v. v\<lparr>lost_out_messages := lost_out_messages v @ [m]\<rparr>)) (ret None)
            | None \<Rightarrow> seqE (server_mod u (\<lambda>v. v\<lparr>lost_out_messages := lost_out_messages v @ [m]\<rparr>)) (ret None))))"

text \<open>The node's own methods go through the network the node is on.\<close>

definition node_next_in :: "'n handler \<Rightarrow> uri \<Rightarrow> ('n sim, message option) eff" where
  "node_next_in H u = bindE (getsE (\<lambda>s. sv_network (servers s u))) (\<lambda>n.
     bindE (some_or AttributeError n) (\<lambda>_. do_next_in_msg H u))"

definition node_next_out :: "uri \<Rightarrow> ('n sim, message option) eff" where
  "node_next_out u = bindE (getsE (\<lambda>s. sv_network (servers s u))) (\<lambda>n.
     bindE (some_or AttributeError n) (\<lambda>i. do_next_out_msg i u))"

subsection \<open>Delivering until nothing moves\<close>

record ledger =
  in_ledger :: "message list"
  out_ledger :: "message list"
  moved :: int

definition empty_ledger :: ledger where
  "empty_ledger = \<lparr>in_ledger = [], out_ledger = [], moved = 0\<rparr>"

text \<open>
  One node's turn of a round; \<open>Inl\<close> of the inner result is the \<open>continue\<close> after an exception of a node
  whose deck is gone.
\<close>

definition guard_deck :: "uri \<Rightarrow> ('n sim, message option) eff \<Rightarrow> ('n sim, unit + message option) eff" where
  "guard_deck u m = tryE (bindE m (\<lambda>r. ret (Inr r)))
     (\<lambda>e. bindE (getsE (\<lambda>s. deck_state (servers s u) = None)) (\<lambda>gone. if gone then ret (Inl ()) else throw e))"

definition node_turn :: "'n handler \<Rightarrow> bool \<Rightarrow> uri \<Rightarrow> bool \<times> ledger \<Rightarrow> ('n sim, bool \<times> ledger) eff" where
  "node_turn H out_only u acc =
     seqE (server_mod u (\<lambda>v. v\<lparr>am_paused := False\<rparr>))
     (bindE (getsE (\<lambda>s. in_messages (servers s u) \<noteq> [] \<and> \<not> out_only)) (\<lambda>b.
     bindE (if b then guard_deck u (node_next_in H u) else ret (Inr None)) (\<lambda>r.
     case r of Inl _ \<Rightarrow> ret acc
     | Inr mi \<Rightarrow>
       (let acc1 = (case mi of None \<Rightarrow> acc
            | Some m \<Rightarrow> (True, (snd acc)\<lparr>in_ledger := in_ledger (snd acc) @ [m], moved := moved (snd acc) + 1\<rparr>)) in
        bindE (getsE (\<lambda>s. out_messages (servers s u) \<noteq> [])) (\<lambda>c.
        bindE (if c then guard_deck u (node_next_out u) else ret (Inr None)) (\<lambda>r2.
        case r2 of Inl _ \<Rightarrow> ret acc1
        | Inr mo \<Rightarrow> ret (case mo of None \<Rightarrow> acc1
            | Some m \<Rightarrow> (True, (snd acc1)\<lparr>out_ledger := out_ledger (snd acc1) @ [m], moved := moved (snd acc1) + 1\<rparr>))))))))"

text \<open>The \<open>while any\<close> loop may go on for ever when engines keep answering; \<open>None\<close> is a loop that is still running.\<close>

fun deliver_rounds :: "'n handler \<Rightarrow> nat \<Rightarrow> bool \<Rightarrow> nat \<Rightarrow> ledger \<Rightarrow> ('n sim, ledger option) eff" where
  "deliver_rounds H i out_only 0 l = ret None"
| "deliver_rounds H i out_only (Suc fuel) l = bindE (getsE (\<lambda>s. nodes_on s i)) (\<lambda>us.
     bindE (foldE us (node_turn H out_only) (False, l)) (\<lambda>(any, l').
     if any then deliver_rounds H i out_only fuel l'
     else bindE (getsE (\<lambda>s. nodes_on s i)) (\<lambda>us.
       seqE (forE us (\<lambda>u. server_mod u (\<lambda>v. v\<lparr>am_paused := True\<rparr>))) (ret (Some l')))))"

definition Network_deliver_all_pending :: "'n handler \<Rightarrow> nat \<Rightarrow> bool \<Rightarrow> nat \<Rightarrow> ('n sim, ledger option) eff" where
  "Network_deliver_all_pending H i out_only fuel = deliver_rounds H i out_only fuel empty_ledger"

definition isolate_server :: "uri \<Rightarrow> ('n sim, unit) eff" where
  "isolate_server u = block_network u"

definition reconnect_server :: "uri \<Rightarrow> bool \<Rightarrow> ('n sim, unit) eff" where
  "reconnect_server u deliver = unblock_network u deliver"

subsection \<open>Crashes\<close>

text \<open>The engine of a server, or what a crashed server kept of it.\<close>

definition engine_of :: "'n server \<Rightarrow> 'n option" where
  "engine_of v = (case deck_state v of Some n \<Rightarrow> Some n | None \<Rightarrow> kept_state v)"

text \<open>
  \<open>halt\<close> is what \<open>deck.stop\<close> does to the engine and \<open>restart\<close> a new deck, started on what the server kept: the log
  and the operations, unless the caller gives one of them up. \<open>kept_state\<close> has them while there is no deck. An
  exception of \<open>deck.start\<close> ends the recovery before the server is connected again.
\<close>

definition simulate_crash :: "(uri \<Rightarrow> 'n \<Rightarrow> 'n) \<Rightarrow> uri \<Rightarrow> ('n sim, unit) eff" where
  "simulate_crash halt u = bindE (getsE (\<lambda>s. deck_state (servers s u))) (\<lambda>d.
     bindE (some_or AttributeError d) (\<lambda>n.
     seqE (server_mod u (\<lambda>v. v\<lparr>deck_state := Some (halt u n), am_crashed := True\<rparr>))
     (bindE (getsE (\<lambda>s. sv_network (servers s u))) (\<lambda>net.
      bindE (some_or AttributeError net) (\<lambda>_.
      seqE (isolate_server u)
      (server_mod u (\<lambda>v. v\<lparr>in_messages := [], out_messages := [], kept_state := engine_of v, deck_state := None\<rparr>)))))))"

definition recover_from_crash ::
  "(uri \<Rightarrow> bool \<Rightarrow> bool \<Rightarrow> 'n \<Rightarrow> (exn + unit) \<times> 'n) \<Rightarrow> uri \<Rightarrow> bool \<Rightarrow> bool \<Rightarrow> bool \<Rightarrow> ('n sim, unit) eff" where
  "recover_from_crash restart u deliver save_log save_ops =
     bindE (getsE (\<lambda>s. servers s u)) (\<lambda>v.
     bindE (some_or AttributeError (engine_of v)) (\<lambda>n.
     seqE (server_mod u (\<lambda>v. v\<lparr>am_crashed := False, deck_state := Some (snd (restart u save_log save_ops n)), kept_state := None\<rparr>))
     (case fst (restart u save_log save_ops n) of Inl e \<Rightarrow> throw e
      | Inr _ \<Rightarrow> bindE (some_or AttributeError (sv_network v)) (\<lambda>_. reconnect_server u deliver))))"

section \<open>The network manager\<close>

definition setup_network :: "uri list \<Rightarrow> ('n sim, nat) eff" where
  "setup_network us = bindE (new_Network ''main'' us) (\<lambda>i.
     seqE (modE (\<lambda>s. s\<lparr>full_cluster := Some i\<rparr>)) (ret i))"

definition the_full :: "('n sim, nat) eff" where
  "the_full = bindE (getsE full_cluster) (some_or AttributeError)"

definition NetManager_add_node :: "uri \<Rightarrow> ('n sim, unit) eff" where
  "NetManager_add_node u = bindE (getsE quorum_segment) (\<lambda>q.
     case q of Some i \<Rightarrow> Network_add_node i u | None \<Rightarrow> bindE the_full (\<lambda>i. Network_add_node i u))"

definition first_with :: "'n sim \<Rightarrow> uri \<Rightarrow> nat list \<Rightarrow> nat option" where
  "first_with s u is = (case filter (\<lambda>i. u \<in> set (nodes_on s i)) is of [] \<Rightarrow> None | i # _ \<Rightarrow> Some i)"

definition NetManager_remove_node :: "uri \<Rightarrow> ('n sim, unit) eff" where
  "NetManager_remove_node u = bindE (getsE id) (\<lambda>s.
     case (case quorum_segment s of None \<Rightarrow> None
           | Some q \<Rightarrow> first_with s u (q # or_else [] (other_segments s))) of
       Some i \<Rightarrow> Network_remove_node i u
     | None \<Rightarrow> bindE the_full (\<lambda>i. whenE (u \<in> set (nodes_on s i)) (Network_remove_node i u)))"

definition get_majority_network :: "'n sim \<Rightarrow> nat option" where
  "get_majority_network s = (case quorum_segment s of Some q \<Rightarrow> Some q | None \<Rightarrow> full_cluster s)"

definition get_minority_networks :: "'n sim \<Rightarrow> nat list option" where
  "get_minority_networks s = other_segments s"

definition is_on_quorum_net :: "'n sim \<Rightarrow> uri \<Rightarrow> bool" where
  "is_on_quorum_net s u = (case get_minority_networks s of None \<Rightarrow> True
     | Some is \<Rightarrow> (case sv_network (servers s u) of None \<Rightarrow> True | Some i \<Rightarrow> i \<notin> set is))"

text \<open>The segments are dicts of nodes by uri; every node has to be one of the cluster and in one segment only.\<close>

fun legal_split :: "uri list \<Rightarrow> uri list \<Rightarrow> uri list \<Rightarrow> bool" where
  "legal_split all [] seen = True"
| "legal_split all (u # us) seen = (u \<in> set all \<and> u \<notin> set seen \<and> legal_split all us (u # seen))"

definition split_part :: "nat \<Rightarrow> uri list \<Rightarrow> ('n sim, unit) eff" where
  "split_part n part =
     (if 2 * length part > n
      then bindE (new_Network ''quorum'' part) (\<lambda>i. modE (\<lambda>s. s\<lparr>quorum_segment := Some i\<rparr>))
      else bindE (getsE (\<lambda>s. or_else [] (other_segments s))) (\<lambda>others.
        bindE (new_Network (''seg-'' @ string_of_nat (length others)) part) (\<lambda>i.
        modE (\<lambda>s. s\<lparr>other_segments := Some (others @ [i])\<rparr>))))"

definition split_network :: "uri list list \<Rightarrow> ('n sim, unit) eff" where
  "split_network segments = bindE the_full (\<lambda>f. bindE (getsE (\<lambda>s. nodes_on s f)) (\<lambda>all.
     if \<not> legal_split all (concat segments) [] then throw AssertionError
     else seqE (modE (\<lambda>s. s\<lparr>other_segments := Some []\<rparr>))
       (forE segments (split_part (length all)))))"

text \<open>
  \<open>unsplit\<close> goes over the nodes of the whole cluster. A node that is still on that network is taken out of the
  very dict the loop runs over and put back; what such a loop does is left open by Python, and
  the model stops there.
\<close>

definition unsplit_node :: "nat \<Rightarrow> uri \<Rightarrow> ('n sim, unit) eff" where
  "unsplit_node f u = bindE (getsE (\<lambda>s. sv_network (servers s u))) (\<lambda>n.
     bindE (some_or AttributeError n) (\<lambda>cur.
     if cur = f then throw RuntimeError
     else seqE (Network_remove_node cur u) (Network_add_node f u)))"

definition unsplit :: "('n sim, unit) eff" where
  "unsplit = bindE (getsE other_segments) (\<lambda>others.
     whenE (others \<noteq> None) (bindE the_full (\<lambda>f. bindE (getsE (\<lambda>s. nodes_on s f)) (\<lambda>all.
       seqE (forE all (unsplit_node f))
       (modE (\<lambda>s. s\<lparr>quorum_segment := None, other_segments := None\<rparr>))))))"

definition NetManager_post_in_message :: "message \<Rightarrow> ('n sim, unit) eff" where
  "NetManager_post_in_message m = bindE (getsE id) (\<lambda>s.
     case quorum_segment s of
       None \<Rightarrow> bindE the_full (\<lambda>f. Network_post_in_message f m)
     | Some q \<Rightarrow>
         (case filter (\<lambda>i. (\<exists>w \<in> set (nodes_on s i). receiver (msg_hdr_of m) = Some w) \<and>
                 sender (msg_hdr_of m) \<in> set (nodes_on s i)) (q # or_else [] (other_segments s)) of
            [] \<Rightarrow> ret () | i # _ \<Rightarrow> Network_post_in_message i m))"

text \<open>The results of the segments; a segment whose loop does not end keeps the call from returning.\<close>

fun deliver_segments :: "'n handler \<Rightarrow> bool \<Rightarrow> nat \<Rightarrow> nat list \<Rightarrow> ledger list \<Rightarrow> ('n sim, ledger list option) eff" where
  "deliver_segments H out_only fuel [] ls = ret (Some ls)"
| "deliver_segments H out_only fuel (i # is) ls = bindE (Network_deliver_all_pending H i out_only fuel) (\<lambda>r.
     case r of None \<Rightarrow> ret None | Some l \<Rightarrow> deliver_segments H out_only fuel is (ls @ [l]))"

definition NetManager_deliver_all_pending ::
  "'n handler \<Rightarrow> bool \<Rightarrow> bool \<Rightarrow> nat \<Rightarrow> ('n sim, ledger list option) eff" where
  "NetManager_deliver_all_pending H quorum_only out_only fuel = bindE (getsE id) (\<lambda>s.
     bindE (some_or AttributeError (get_majority_network s)) (\<lambda>i.
     deliver_segments H out_only fuel
       (i # (if quorum_segment s = None \<or> quorum_only then [] else or_else [] (other_segments s))) []))"

section \<open>The engine on a server\<close>

text \<open>
  \<open>PausingServer.on_message\<close> with \<open>Testdeck.on_message\<close>: the message is decoded on the way in, handed to the deck,
  and what the deck gives the pilot to send is decoded into the queue of outgoing messages.
\<close>

definition sent_text :: "sending \<Rightarrow> pystr" where
  "sent_text x = (case x of SendMessage u t n \<Rightarrow> t | SendResponse u orig t n \<Rightarrow> t)"

definition queue_sent :: "time \<Rightarrow> SerialNumberGenerator \<Rightarrow> sending list \<Rightarrow> message list" where
  "queue_sent clock g xs = concat (map (\<lambda>x. case fst (decode_message clock (sent_text x) g) of Inr m \<Rightarrow> [m] | Inl _ \<Rightarrow> []) xs)"

definition engine_on_message :: "(uri \<Rightarrow> ('l, 'a) env) \<Rightarrow> ('l, 'a) node handler" where
  "engine_on_message E u m n =
     (let t = snd (on_message (E u) (fst (encode_message m)) n)
      in (t, queue_sent (now t) (serials t) (drop (length (outbox n)) (outbox t))))"

definition engine_halt :: "(uri \<Rightarrow> ('l, 'a) env) \<Rightarrow> uri \<Rightarrow> ('l, 'a) node \<Rightarrow> ('l, 'a) node" where
  "engine_halt E u n = snd (deck_stop (E u) False n)"

text \<open>\<open>Testdeck\<close>: an engine that handles a message before \<open>on_message\<close> returns.\<close>

definition test_node :: "'l \<Rightarrow> 'a \<Rightarrow> time \<Rightarrow> SerialNumberGenerator \<Rightarrow> ('l, 'a) node" where
  "test_node l a clock g = (new_node l a clock g)\<lparr>deck := new_Deck\<lparr>await_message := True\<rparr>\<rparr>"

definition engine_restart ::
  "(uri \<Rightarrow> ('l, 'a) env) \<Rightarrow> 'l \<Rightarrow> 'a \<Rightarrow> time \<Rightarrow> SerialNumberGenerator \<Rightarrow> uri \<Rightarrow> bool \<Rightarrow> bool \<Rightarrow> ('l, 'a) node \<Rightarrow>
     (exn + unit) \<times> ('l, 'a) node" where
  "engine_restart E fresh_log fresh_ops clock g u save_log save_ops n =
     deck_start (E u) (test_node (if save_log then n_log n else fresh_log)
       (if save_ops then n_app n else fresh_ops) clock g)"

end
