(* ===== verification/Triggers.thy ===== *)
theory Triggers
  imports Net_Sim
begin

text \<open>
  Running a simulated server until a condition holds: the triggers of \<open>src/dev_tools/triggers.py\<close>, \<open>run_till_triggers\<close> and the rest of
  the server's methods that look at its engine (\<open>src/dev_tools/pausing_server.py\<close>), and the cluster object that makes and removes servers
  (\<open>src/dev_tools/pausing_cluster.py\<close>). Message objects are told apart by their values; a message in a queue has a serial number of its own.
\<close>

section \<open>Triggers\<close>

text \<open>The two triggers that remember something carry the number of the object.\<close>

datatype trigger =
    WhenMessageOut string "uri option" bool
  | WhenCommitIndexSent int "uri option"
  | WhenMessageIn string "uri option"
  | WhenInMessageCount nat string nat
  | WhenAllMessagesForwarded
  | WhenAllInMessagesHandled
  | WhenIsLeader
  | WhenHasLeader uri
  | WhenHasLogIndex int
  | WhenHasCommitIndex int
  | WhenHasAppliedIndex int
  | WhenElectionDone nat "uri list"

record ('l, 'a) bench =
  b_sim :: "('l, 'a) node sim"
  b_trigger :: "uri \<Rightarrow> trigger option"
  b_trigger_set :: "uri \<Rightarrow> trigger list option"
  captured :: "nat \<Rightarrow> message list"
  done_flags :: "nat \<Rightarrow> uri list"
  b_nodes :: "uri list"
  b_node_uris :: "uri list"

definition on_sim :: "(('l, 'a) node sim, 'b) eff \<Rightarrow> (('l, 'a) bench, 'b) eff" where
  "on_sim = zoomE b_sim (\<lambda>s b. b\<lparr>b_sim := s\<rparr>)"

abbreviation server_of :: "('l, 'a) bench \<Rightarrow> uri \<Rightarrow> ('l, 'a) node server" where
  "server_of b u \<equiv> servers (b_sim b) u"

definition deck_of :: "uri \<Rightarrow> (('l, 'a) bench, ('l, 'a) node) eff" where
  "deck_of u = bindE (getsE (\<lambda>b. deck_state (server_of b u))) (some_or AttributeError)"

definition member_deck :: "uri \<Rightarrow> (('l, 'a) bench, ('l, 'a) node) eff" where
  "member_deck u = bindE (getsE (\<lambda>b. u \<in> set (b_nodes b))) (\<lambda>known. if known then deck_of u else throw KeyError)"

text \<open>
  Flushing what a trigger was waiting for. The message handed over is the loop variable after the search, which is the last message of
  the queue, matching or not.
\<close>

definition flush_one_out_message :: "uri \<Rightarrow> message \<Rightarrow> (('l, 'a) bench, unit) eff" where
  "flush_one_out_message u m = bindE (getsE (\<lambda>b. server_of b u)) (\<lambda>v.
     whenE (\<not> block_messages v \<and> out_messages v \<noteq> [])
       (seqE (forE (out_messages v) (\<lambda>x. whenE (x = m) (on_sim (NetManager_post_in_message x))))
       (on_sim (server_mod u (\<lambda>w. w\<lparr>out_messages := filter (\<lambda>x. x \<noteq> m) (out_messages v)\<rparr>)))))"

definition when_message_out :: "string \<Rightarrow> uri option \<Rightarrow> bool \<Rightarrow> uri \<Rightarrow> (('l, 'a) bench, message option) eff" where
  "when_message_out cd target flush u = bindE (getsE (\<lambda>b. out_messages (server_of b u))) (\<lambda>ms.
     if list_ex (\<lambda>m. msg_code m = cd \<and> (target = None \<or> receiver (msg_hdr_of m) = target)) ms
     then seqE (whenE flush (flush_one_out_message u (last ms))) (ret (Some (last ms)))
     else ret None)"

text \<open>The messages that are not captured yet, each once, in their order.\<close>

fun capture :: "message list \<Rightarrow> message list \<Rightarrow> message list" where
  "capture seen [] = seen"
| "capture seen (m # ms) = capture (if m \<in> set seen then seen else seen @ [m]) ms"

definition quiet_server :: "('l, 'a) node server \<Rightarrow> bool" where
  "quiet_server v \<longleftrightarrow> in_messages v = [] \<and> out_messages v = []"

definition when_election_done :: "nat \<Rightarrow> uri list \<Rightarrow> uri \<Rightarrow> (('l, 'a) bench, bool) eff" where
  "when_election_done i vs u = bindE (getsE id) (\<lambda>b.
     if u \<notin> set vs then throw KeyError
     else if u \<in> set (done_flags b i) then ret True
     else if \<not> quiet_server (server_of b u) then ret False
     else bindE (foldE vs (\<lambda>w lead. bindE (member_deck w) (\<lambda>n. ret (if role n = RoleLeader then Some w else lead))) None) (\<lambda>lead.
       if lead = None then ret False
       else if list_ex (\<lambda>w. w \<notin> set (done_flags b i) \<and> w \<noteq> u \<and> \<not> quiet_server (server_of b w)) vs then ret False
       else seqE (modE (\<lambda>b. b\<lparr>done_flags := (done_flags b)(i := done_flags b i @ [u])\<rparr>)) (ret True)))"

definition when_commit_index_sent :: "int \<Rightarrow> uri option \<Rightarrow> uri \<Rightarrow> (('l, 'a) bench, bool) eff" where
  "when_commit_index_sent i target u = bindE (when_message_out ''append_entries'' target True u) (\<lambda>m.
     case m of None \<Rightarrow> ret False
     | Some (AppendEntriesMessage h es ci) \<Rightarrow> ret (ci \<ge> i)
     | Some _ \<Rightarrow> throw AttributeError)"

definition when_message_in :: "string \<Rightarrow> uri option \<Rightarrow> uri \<Rightarrow> (('l, 'a) bench, bool) eff" where
  "when_message_in cd from u = getsE (\<lambda>b. list_ex (\<lambda>m. msg_code m = cd \<and>
     (from = None \<or> from = Some (sender (msg_hdr_of m)))) (in_messages (server_of b u)))"

definition when_in_message_count :: "nat \<Rightarrow> string \<Rightarrow> nat \<Rightarrow> uri \<Rightarrow> (('l, 'a) bench, bool) eff" where
  "when_in_message_count i cd goal u =
     seqE (modE (\<lambda>b. b\<lparr>captured := (captured b)(i := capture (captured b i)
       (filter (\<lambda>m. msg_code m = cd) (in_messages (server_of b u))))\<rparr>))
     (getsE (\<lambda>b. length (captured b i) = goal))"

definition when_all_messages_forwarded :: "uri \<Rightarrow> (('l, 'a) bench, bool) eff" where
  "when_all_messages_forwarded u = getsE (\<lambda>b. out_messages (server_of b u) = [])"

definition when_all_in_messages_handled :: "uri \<Rightarrow> (('l, 'a) bench, bool) eff" where
  "when_all_in_messages_handled u = getsE (\<lambda>b. in_messages (server_of b u) = [])"

definition when_is_leader :: "uri \<Rightarrow> (('l, 'a) bench, bool) eff" where
  "when_is_leader u = bindE (deck_of u) (\<lambda>n. ret (role n = RoleLeader))"

definition when_has_leader :: "uri \<Rightarrow> uri \<Rightarrow> (('l, 'a) bench, bool) eff" where
  "when_has_leader w u = bindE (deck_of u) (\<lambda>n. ret (role n = RoleFollower \<and> leader_uri (ops n) = Some w))"

definition when_has_log_index :: "(uri \<Rightarrow> ('l, 'a) env) \<Rightarrow> int \<Rightarrow> uri \<Rightarrow> (('l, 'a) bench, bool) eff" where
  "when_has_log_index E i u = bindE (deck_of u) (\<lambda>n. ret (get_last_index (log (E u)) (n_log n) \<ge> i))"

definition when_has_commit_index :: "(uri \<Rightarrow> ('l, 'a) env) \<Rightarrow> int \<Rightarrow> uri \<Rightarrow> (('l, 'a) bench, bool) eff" where
  "when_has_commit_index E i u = bindE (deck_of u) (\<lambda>n. ret (get_commit_index (log (E u)) (n_log n) \<ge> i))"

definition when_has_applied_index :: "(uri \<Rightarrow> ('l, 'a) env) \<Rightarrow> int \<Rightarrow> uri \<Rightarrow> (('l, 'a) bench, bool) eff" where
  "when_has_applied_index E i u = bindE (deck_of u) (\<lambda>n. ret (get_applied_index (log (E u)) (n_log n) \<ge> i))"

lemmas condition_defs = when_commit_index_sent_def when_message_in_def when_in_message_count_def when_all_messages_forwarded_def
  when_all_in_messages_handled_def when_is_leader_def when_has_leader_def when_has_log_index_def when_has_commit_index_def
  when_has_applied_index_def

text \<open>The method of the class a trigger is an object of.\<close>

fun is_tripped :: "(uri \<Rightarrow> ('l, 'a) env) \<Rightarrow> trigger \<Rightarrow> uri \<Rightarrow> (('l, 'a) bench, bool) eff" where
  "is_tripped E (WhenMessageOut cd target flush) u =
     bindE (when_message_out cd target flush u) (\<lambda>m. ret (m \<noteq> None))"
| "is_tripped E (WhenCommitIndexSent i target) u = when_commit_index_sent i target u"
| "is_tripped E (WhenMessageIn cd from) u = when_message_in cd from u"
| "is_tripped E (WhenInMessageCount i cd goal) u = when_in_message_count i cd goal u"
| "is_tripped E WhenAllMessagesForwarded u = when_all_messages_forwarded u"
| "is_tripped E WhenAllInMessagesHandled u = when_all_in_messages_handled u"
| "is_tripped E WhenIsLeader u = when_is_leader u"
| "is_tripped E (WhenHasLeader w) u = when_has_leader w u"
| "is_tripped E (WhenHasLogIndex i) u = when_has_log_index E i u"
| "is_tripped E (WhenHasCommitIndex i) u = when_has_commit_index E i u"
| "is_tripped E (WhenHasAppliedIndex i) u = when_has_applied_index E i u"
| "is_tripped E (WhenElectionDone i vs) u = when_election_done i vs u"

text \<open>What \<open>dump_condition\<close> prints is left out; the engines it looks at on the way have to be there.\<close>

fun dump_condition :: "trigger \<Rightarrow> uri \<Rightarrow> (('l, 'a) bench, unit) eff" where
  "dump_condition (WhenHasLogIndex i) u = bindE (deck_of u) (\<lambda>_. ret ())"
| "dump_condition (WhenHasCommitIndex i) u = bindE (deck_of u) (\<lambda>_. ret ())"
| "dump_condition (WhenHasAppliedIndex i) u = bindE (deck_of u) (\<lambda>_. ret ())"
| "dump_condition (WhenElectionDone i vs) u = forE vs (\<lambda>w. bindE (member_deck w) (\<lambda>_. ret ()))"
| "dump_condition c u = ret ()"

text \<open>
  A set of triggers. In the mode \<open>or\<close> the loop returns true after its first condition, tripped or not.
\<close>

fun set_tripped :: "(uri \<Rightarrow> ('l, 'a) env) \<Rightarrow> bool \<Rightarrow> trigger list \<Rightarrow> uri \<Rightarrow> (('l, 'a) bench, bool) eff" where
  "set_tripped E and_mode [] u = ret False"
| "set_tripped E and_mode (c # cs) u = bindE (is_tripped E c u) (\<lambda>t.
     if \<not> t \<and> and_mode then ret False
     else if \<not> and_mode then ret True
     else if cs = [] then ret True
     else set_tripped E and_mode cs u)"

section \<open>Servers\<close>

definition clear_triggers :: "uri \<Rightarrow> (('l, 'a) bench, unit) eff" where
  "clear_triggers u = modE (\<lambda>b. b\<lparr>b_trigger := (b_trigger b)(u := None), b_trigger_set := (b_trigger_set b)(u := None)\<rparr>)"

definition set_trigger :: "uri \<Rightarrow> trigger \<Rightarrow> (('l, 'a) bench, unit) eff" where
  "set_trigger u c = bindE (getsE id) (\<lambda>b.
     if b_trigger b u \<noteq> None then throw (AppError ''this is for single trigger operation, already set'')
     else if b_trigger_set b u \<noteq> None then throw (AppError ''only one trigger mode allowed, already have single set'')
     else modE (\<lambda>b. b\<lparr>b_trigger := (b_trigger b)(u := Some c)\<rparr>))"

definition add_trigger :: "uri \<Rightarrow> trigger \<Rightarrow> (('l, 'a) bench, unit) eff" where
  "add_trigger u c = bindE (getsE id) (\<lambda>b.
     if b_trigger b u \<noteq> None then throw (AppError ''only one trigger mode allowed, already have single'')
     else modE (\<lambda>b. b\<lparr>b_trigger_set := (b_trigger_set b)(u := Some (or_else [] (b_trigger_set b u) @ [c]))\<rparr>))"

text \<open>One look at the triggers of a server; without any, the run goes on to its time limit.\<close>

definition look :: "(uri \<Rightarrow> ('l, 'a) env) \<Rightarrow> uri \<Rightarrow> (('l, 'a) bench, bool) eff" where
  "look E u = bindE (getsE id) (\<lambda>b. case b_trigger b u of
     Some c \<Rightarrow> is_tripped E c u
   | None \<Rightarrow> (case b_trigger_set b u of Some cs \<Rightarrow> set_tripped E True cs u | None \<Rightarrow> ret False))"

text \<open>
  A turn of the loop moves one message of the server. The turns until the time limit are counted by \<open>turns\<close>, as many as the clock
  allows; \<open>others\<close> is what the event loop and the other servers do while this one waits. With \<open>free_others\<close> the loop calls a method that
  servers do not have.
\<close>

fun run_turns :: "(uri \<Rightarrow> ('l, 'a) env) \<Rightarrow> (nat \<Rightarrow> ('l, 'a) bench \<Rightarrow> ('l, 'a) bench) \<Rightarrow> bool \<Rightarrow> uri \<Rightarrow> nat \<Rightarrow>
    (('l, 'a) bench, bool) eff" where
  "run_turns E others free_others u 0 = ret False"
| "run_turns E others free_others u (Suc k) = bindE (look E u) (\<lambda>t.
     if t then ret True
     else bindE (on_sim (node_next_out u)) (\<lambda>m.
       seqE (if m = None then bindE (on_sim (node_next_in (engine_on_message E) u)) (\<lambda>_. ret ()) else ret ())
       (bindE (getsE b_nodes) (\<lambda>us.
        if free_others \<and> us \<noteq> [] then throw AttributeError
        else seqE (modE (others k)) (run_turns E others free_others u k)))))"

definition run_till_triggers ::
  "(uri \<Rightarrow> ('l, 'a) env) \<Rightarrow> (nat \<Rightarrow> ('l, 'a) bench \<Rightarrow> ('l, 'a) bench) \<Rightarrow> uri \<Rightarrow> nat \<Rightarrow> bool \<Rightarrow> (('l, 'a) bench, unit) eff" where
  "run_till_triggers E others u turns free_others =
     seqE (on_sim (server_mod u (\<lambda>v. v\<lparr>am_paused := False\<rparr>)))
     (bindE (run_turns E others free_others u turns) (\<lambda>dn.
      bindE (getsE (\<lambda>b. b_trigger b u)) (\<lambda>single.
      seqE (case single of
          Some c \<Rightarrow> whenE (\<not> dn) (seqE (dump_condition c u)
            (bindE (is_tripped E c u) (\<lambda>_. throw (AppError ''timeout waiting for triggers''))))
        | None \<Rightarrow> ret ())
      (on_sim (server_mod u (\<lambda>v. v\<lparr>am_paused := True\<rparr>))))))"

definition get_leader_id :: "('l, 'a) bench \<Rightarrow> uri \<Rightarrow> uri option" where
  "get_leader_id b u = (case deck_state (server_of b u) of None \<Rightarrow> None
     | Some n \<Rightarrow> (case role n of RoleLeader \<Rightarrow> Some u | RoleFollower \<Rightarrow> leader_uri (ops n) | RoleCandidate \<Rightarrow> None))"

definition server_cleanup :: "(uri \<Rightarrow> ('l, 'a) env) \<Rightarrow> uri \<Rightarrow> (('l, 'a) bench, unit) eff" where
  "server_cleanup E u = on_sim (server_mod u (\<lambda>v. v\<lparr>kept_state := (case deck_state v of
     Some n \<Rightarrow> Some (snd (role_stop (E u) n)) | None \<Rightarrow> kept_state v), deck_state := None\<rparr>))"

section \<open>The cluster\<close>

definition numbered_uri :: "nat \<Rightarrow> uri" where
  "numbered_uri k = ''mcpy://'' @ string_of_nat k"

definition new_PausingCluster :: "(uri \<Rightarrow> ('l, 'a) node) \<Rightarrow> nat \<Rightarrow> ('l, 'a) bench" where
  "new_PausingCluster mk n = (let us = map (\<lambda>i. numbered_uri (Suc i)) [0..<n] in
     \<lparr>b_sim = snd (setup_network us (new_NetManager (\<lambda>u. new_server (mk u)))), b_trigger = (\<lambda>_. None), b_trigger_set = (\<lambda>_. None),
      captured = (\<lambda>_. []), done_flags = (\<lambda>_. []), b_nodes = us, b_node_uris = us\<rparr>)"

text \<open>A new server gets the number of the servers there are, plus one.\<close>

definition cluster_add_node :: "(uri \<Rightarrow> ('l, 'a) node) \<Rightarrow> (('l, 'a) bench, uri) eff" where
  "cluster_add_node mk = bindE (getsE (\<lambda>b. numbered_uri (length (b_nodes b) + 1))) (\<lambda>u.
     seqE (modE (\<lambda>b. b\<lparr>b_node_uris := b_node_uris b @ [u], b_nodes := (if u \<in> set (b_nodes b) then b_nodes b else b_nodes b @ [u]),
       b_trigger := (b_trigger b)(u := None), b_trigger_set := (b_trigger_set b)(u := None)\<rparr>))
     (seqE (on_sim (server_mod u (\<lambda>_. new_server (mk u))))
     (seqE (on_sim (NetManager_add_node u)) (ret u))))"

definition cluster_remove_node :: "(uri \<Rightarrow> ('l, 'a) env) \<Rightarrow> uri \<Rightarrow> (('l, 'a) bench, unit) eff" where
  "cluster_remove_node E u = seqE (on_sim (NetManager_remove_node u))
     (bindE (getsE (\<lambda>b. u \<in> set (b_nodes b))) (\<lambda>known.
      if \<not> known then throw KeyError
      else seqE (server_cleanup E u) (modE (\<lambda>b. b\<lparr>b_nodes := filter (\<lambda>w. w \<noteq> u) (b_nodes b)\<rparr>))))"

fun cluster_leader :: "uri list \<Rightarrow> (('l, 'a) bench, uri option) eff" where
  "cluster_leader [] = ret None"
| "cluster_leader (u # us) = bindE (deck_of u) (\<lambda>n. if role n = RoleLeader then ret (Some u) else cluster_leader us)"

definition cluster_get_leader :: "(('l, 'a) bench, uri option) eff" where
  "cluster_get_leader = bindE (getsE b_nodes) cluster_leader"

definition cluster_cleanup :: "(uri \<Rightarrow> ('l, 'a) env) \<Rightarrow> (('l, 'a) bench, unit) eff" where
  "cluster_cleanup E = bindE (getsE b_nodes) (\<lambda>us.
     seqE (forE us (server_cleanup E)) (modE (\<lambda>b. b\<lparr>b_nodes := [], b_node_uris := []\<rparr>)))"

text \<open>Who takes part in an election or a command a test runs.\<close>

definition election_voters :: "('l, 'a) bench \<Rightarrow> uri list option" where
  "election_voters b = map_option (\<lambda>i. filter (\<lambda>u. \<not> block_messages (server_of b u)) (nodes_on (b_sim b) i))
     (get_majority_network (b_sim b))"

definition command_voters :: "('l, 'a) bench \<Rightarrow> uri list option" where
  "command_voters b = map_option (\<lambda>i. filter (\<lambda>u. \<not> block_messages (server_of b u) \<and> \<not> am_crashed (server_of b u))
     (nodes_on (b_sim b) i)) (get_majority_network (b_sim b))"

end
