(* ===== verification/Engine_Terms.thy ===== *)
theory Engine_Terms
  imports Engine_Invariants
begin

text \<open>
  Terms along every run of the engine. \<open>Deck.set_term\<close> writes whatever it is given; that the stored term
  never goes down is a property of its callers: the campaign of a candidate counts from the candidate's
  own copy of the term, and a role gives way only to a greater term. The locale \<open>term_log\<close> says
  what that needs of the log, \<open>term_rel\<close> is the relation every step keeps, shown as an instance of the locales of
  \<open>Engine_Rel\<close>. On the way: the stored configuration stays well formed, so saving it never fails
  half way, and a running candidate's copy of the term is the stored term.
\<close>

section \<open>Well-formed configurations\<close>

definition nodes_wf :: "(uri \<times> NodeRec) list \<Rightarrow> bool" where
  "nodes_wf ns \<longleftrightarrow> dict_ok ns \<and> (\<forall>u n. (u, n) \<in> set ns \<longrightarrow> node_uri n = u)"

definition config_wf :: "ClusterConfig \<Rightarrow> bool" where
  "config_wf c \<longleftrightarrow> nodes_wf (nodes c) \<and>
     (\<forall>n. pending_node c = Some n \<longrightarrow> node_uri n \<notin> set (dict_keys (nodes c)))"

lemma set_dict_set: "set (dict_set k v d) \<subseteq> insert (k, v) (set d)"
  by (induction d) auto

lemma set_dict_del: "set (dict_del k d) \<subseteq> set d"
  by (induction d) auto

lemma nodes_wf_set: "nodes_wf ns \<Longrightarrow> node_uri n = u \<Longrightarrow> nodes_wf (dict_set u n ns)"
  using set_dict_set [of u n ns] by (auto simp: nodes_wf_def)

lemma nodes_wf_del: "nodes_wf ns \<Longrightarrow> nodes_wf (dict_del u ns)"
  using set_dict_del [of u ns] by (auto simp: nodes_wf_def)

lemma nodes_wf_fold: "nodes_wf ns \<Longrightarrow> nodes_wf (fold (\<lambda>n. dict_set (node_uri n) n) rs ns)"
  by (induction rs arbitrary: ns) (simp_all add: nodes_wf_set)

lemma fold_nodes_keys:
  "set (dict_keys (fold (\<lambda>n. dict_set (node_uri n) n) rs ns)) = set (dict_keys ns) \<union> node_uri ` set rs"
proof (induction rs arbitrary: ns)
  case (Cons n rs)
  have "set (dict_keys (dict_set (node_uri n) n ns)) = insert (node_uri n) (set (dict_keys ns))"
    by (auto simp: dict_keys_set simp del: set_map)
  with Cons show ?case by (simp del: set_map)
qed simp

lemma nodes_wf_Nil [simp]: "nodes_wf []"
  by (simp add: nodes_wf_def)

lemma init_nodes_wf: "config_wf \<lparr>nodes = init_nodes us, pending_node = None, settings = st\<rparr>"
proof -
  have "init_nodes us = fold (\<lambda>n. dict_set (node_uri n) n) (map new_NodeRec us) []"
    by (simp add: init_nodes_def fold_map comp_def new_NodeRec_def)
  then show ?thesis by (simp add: config_wf_def nodes_wf_fold)
qed

lemma config_from_json_wf: "config_from_json j = Inr c \<Longrightarrow> config_wf c"
  by (auto simp: config_from_json_def config_wf_def nodes_wf_fold sbind_def split: sum.splits)

text \<open>Reading the stored rows, whatever their marks are.\<close>

lemma db_config_wf:
  assumes "distinct (map node_uri rows)" and "db_config rows st = Some c"
  shows "config_wf c"
proof -
  let ?marked = "\<lambda>n. is_removing n \<or> is_adding n"
  have c: "nodes c = fold (\<lambda>n. dict_set (node_uri n) n) (filter (\<lambda>n. \<not> ?marked n) rows) []"
    "pending_node c = last (None # map Some (filter ?marked rows))"
    using assms(2) by (auto simp: db_config_def split_nodes_eq split: option.splits)
  have "node_uri n \<notin> set (dict_keys (nodes c))" if "pending_node c = Some n" for n
  proof -
    have "filter ?marked rows \<noteq> []" using that c(2) by auto
    then have "n = last (filter ?marked rows)" using that c(2) by (simp add: last_map)
    then have n: "n \<in> set rows" "?marked n" using last_in_set [OF \<open>filter ?marked rows \<noteq> []\<close>] by auto
    then show ?thesis
      using assms(1) unfolding c(1) fold_nodes_keys by (auto simp: distinct_map inj_on_def)
  qed
  then show ?thesis using c(1) by (simp add: config_wf_def nodes_wf_fold)
qed

lemma wf_drop: "config_wf c \<Longrightarrow> config_wf (c\<lparr>pending_node := None\<rparr>)"
  by (simp add: config_wf_def)

lemma wf_settings: "config_wf c \<Longrightarrow> config_wf (c\<lparr>settings := st\<rparr>)"
  by (simp add: config_wf_def)

lemma wf_put: "config_wf c \<Longrightarrow> node_uri n = u \<Longrightarrow> config_wf (c\<lparr>nodes := dict_set u n (nodes c), pending_node := None\<rparr>)"
  by (simp add: config_wf_def nodes_wf_set)

lemma wf_plan_add: "config_wf c \<Longrightarrow> plan_add u c = Some c' \<Longrightarrow> config_wf c'"
  by (force simp: plan_add_def config_wf_def new_NodeRec_def split: option.splits if_splits)

lemma wf_plan_remove: "config_wf c \<Longrightarrow> plan_remove u c = Some c' \<Longrightarrow> config_wf c'"
  by (auto simp: plan_remove_def config_wf_def nodes_wf_del dict_keys_del nodes_wf_def [of "nodes c"]
      simp del: set_map dest!: map_of_SomeD split: option.splits)

section \<open>What is needed of the log\<close>

locale term_log =
  fixes E :: "('l, 'a) env" and lok :: "'l \<Rightarrow> bool"
  assumes quiet_law: "quiet_call (log E) l l' \<Longrightarrow> lok l \<Longrightarrow> lok l' \<and> get_term (log E) l' = get_term (log E) l \<and>
      Log_Api.get_cluster_config (log E) l' = Log_Api.get_cluster_config (log E) l"
    and term_law: "lok l \<Longrightarrow> \<exists>l'. set_term (log E) t l = (Inr (), l') \<and> lok l' \<and> get_term (log E) l' = t \<and>
      Log_Api.get_cluster_config (log E) l' = Log_Api.get_cluster_config (log E) l"
    and read_law: "lok l \<Longrightarrow> Log_Api.get_cluster_config (log E) l = Some c \<Longrightarrow> config_wf c"
    and save_law: "lok l \<Longrightarrow> config_wf c \<Longrightarrow> \<exists>l'. save_cluster_config (log E) c l = (Inr c, l') \<and> lok l' \<and>
      get_term (log E) l' = get_term (log E) l \<and> Log_Api.get_cluster_config (log E) l' \<noteq> None"

section \<open>The relation\<close>

definition campaign_pending :: "('l, 'a) node \<Rightarrow> bool" where
  "campaign_pending s \<longleftrightarrow> (\<exists>p \<in> set (timers s). \<exists>x. snd (snd p) = RoleAfterRunner x \<and> campaign_target x)"

abbreviation stored_term :: "('l, 'a) env \<Rightarrow> ('l, 'a) node \<Rightarrow> int" where
  "stored_term E s \<equiv> get_term (log E) (n_log s)"

abbreviation stored_config :: "('l, 'a) env \<Rightarrow> ('l, 'a) node \<Rightarrow> ClusterConfig option" where
  "stored_config E s \<equiv> Log_Api.get_cluster_config (log E) (n_log s)"

definition term_inv :: "('l, 'a) env \<Rightarrow> ('l \<Rightarrow> bool) \<Rightarrow> ('l, 'a) node \<Rightarrow> bool" where
  "term_inv E lok s \<longleftrightarrow> lok (n_log s) \<and> timer_inv s \<and>
     (campaign_pending s \<longrightarrow> role s = RoleCandidate \<and> stored_config E s \<noteq> None) \<and>
     (role s = RoleCandidate \<and> \<not> c_stopped (candidate s) \<longrightarrow> c_term (candidate s) = stored_term E s)"

definition term_rel :: "('l, 'a) env \<Rightarrow> ('l \<Rightarrow> bool) \<Rightarrow> ('l, 'a) node \<Rightarrow> ('l, 'a) node \<Rightarrow> bool" where
  "term_rel E lok s t \<longleftrightarrow> (term_inv E lok s \<longrightarrow> term_inv E lok t \<and> stored_term E s \<le> stored_term E t \<and>
     (stored_config E s \<noteq> None \<longrightarrow> stored_config E t \<noteq> None))"

subsection \<open>Timers\<close>

lemma pending_filter: "campaign_pending (s\<lparr>timers := filter P (timers s)\<rparr>) \<Longrightarrow> campaign_pending s"
  by (force simp: campaign_pending_def)

lemma pending_core: "timers t = timers s \<Longrightarrow> campaign_pending t = campaign_pending s"
  by (simp add: campaign_pending_def)

lemma run_after_pending:
  assumes "timer_inv s" and "campaign_pending (snd (role_run_after d x s))"
  shows "campaign_target x"
  using assms
  by (cases "role_async_handle (deck s)")
    (auto simp: role_run_after_def call_later_def cancel_timer_def deck_mod_def run campaign_pending_def
      timer_inv_def no_role_timer_def)

lemma cancel_after_pending:
  assumes "timer_inv s"
  shows "\<not> campaign_pending (snd (cancel_role_run_after s))"
  using assms
  by (cases "role_async_handle (deck s)")
    (auto simp: cancel_role_run_after_def cancel_timer_def deck_mod_def run campaign_pending_def
      timer_inv_def no_role_timer_def)

section \<open>Primitives\<close>

context term_log
begin

abbreviation J :: "('l, 'a) node \<Rightarrow> bool" where
  "J \<equiv> term_inv E lok"

abbreviation T :: "('l, 'a) node \<Rightarrow> ('l, 'a) node \<Rightarrow> bool" where
  "T \<equiv> term_rel E lok"

lemma T_refl: "T s s"
  by (simp add: term_rel_def)

lemma T_trans: "T s t \<Longrightarrow> T t u \<Longrightarrow> T s u"
  by (auto simp: term_rel_def)

lemma J_lok: "J s \<Longrightarrow> lok (n_log s)"
  by (simp add: term_inv_def)

text \<open>Only states with the invariant matter.\<close>

lemma T_inv: "(J s \<Longrightarrow> T s t) \<Longrightarrow> T s t"
  by (auto simp: term_rel_def)

lemma T_frame:
  assumes "n_log t = n_log s" and "timer_inv s \<Longrightarrow> timer_inv t" and "campaign_pending t \<Longrightarrow> campaign_pending s"
    and "same_office s t"
  shows "T s t"
  using assms by (auto simp: term_rel_def term_inv_def same_office_def)

end

sublocale term_log \<subseteq> method_rel T
  by unfold_locales (rule T_refl, rule T_trans)

context term_log
begin

lemma T_core: "same_core s t \<Longrightarrow> same_office s t \<Longrightarrow> T s t"
  using timer_inv_core [of s t] by (intro T_frame) (auto simp: same_core_def campaign_pending_def)

lemma T_quiet: "quiet_call (log E) (n_log s) l \<Longrightarrow> T s (s\<lparr>n_log := l\<rparr>)"
  using quiet_law by (auto simp: term_rel_def term_inv_def campaign_pending_def timer_inv_def)

lemma T_call_later: "no_role_timer cb \<Longrightarrow> steps T (call_later d cb)"
  by (intro stepsI T_frame)
    (auto simp: call_later_def run timer_inv_add same_office_def campaign_pending_def no_role_timer_def)

lemma T_cancel_timer: "steps T (cancel_timer i)"
  by (intro stepsI T_frame)
    (auto simp: cancel_timer_def run timer_inv_cancel same_office_def dest: pending_filter)

lemma T_run_after:
  assumes "campaign_target x \<Longrightarrow> role s = RoleCandidate \<and> stored_config E s \<noteq> None"
  shows "T s (snd (role_run_after d x s))"
proof (rule T_inv)
  assume inv: "J s"
  obtain t where t: "role_run_after d x s = (Inr (), t)" "timer_frame s t" using role_run_after_frame by blast
  have "timer_inv t" "campaign_pending t \<Longrightarrow> campaign_target x"
    using inv run_after_timer_inv [of s d x] run_after_pending [of s d x] t(1) by (simp_all add: term_inv_def)
  then show ?thesis
    using inv assms t(1) timer_frameD [OF t(2)] by (auto simp: term_rel_def term_inv_def)
qed

lemma T_cancel_after: "steps T cancel_role_run_after"
proof (rule stepsI, rule T_inv)
  fix s assume inv: "J s"
  obtain t where t: "cancel_role_run_after s = (Inr (), t)" "timer_frame s t" using cancel_after_frame by blast
  then show "T s (snd (cancel_role_run_after s))"
    using inv cancel_after_timer_inv [of s] cancel_after_pending [of s] timer_frameD [OF t(2)]
    by (auto simp: term_rel_def term_inv_def)
qed

lemma T_halt: "steps T (set_role_stopped True)"
  by (rule stepsI)
    (auto simp: set_role_stopped_def run term_rel_def term_inv_def campaign_pending_def timer_inv_def
      split: RoleName.splits)

subsection \<open>The configuration\<close>

lemma save_steps:
  assumes "config_wf c"
  shows "steps T (log_do (save_cluster_config (log E) c))"
proof (rule stepsI, rule T_inv)
  fix s assume inv: "J s"
  then obtain l' where "save_cluster_config (log E) c (n_log s) = (Inr c, l')" "lok l'"
    "get_term (log E) l' = get_term (log E) (n_log s)" "Log_Api.get_cluster_config (log E) l' \<noteq> None"
    using save_law [OF J_lok [OF inv] assms] by blast
  then show "T s (snd (log_do (save_cluster_config (log E) c) s))"
    using inv by (auto simp: log_do_def run term_rel_def term_inv_def campaign_pending_def timer_inv_def)
qed

lemma bookkeeping_steps: "steps T (set_current c)" "steps T (note_exit_done b)"
  unfolding set_current_def note_exit_done_def ops_mod_def deck_mod_def
  by (rule stepsI, rule T_core; simp add: run same_core_def same_office_def)+

lemma bind_stored:
  assumes "\<And>v. (\<And>c. v = Some c \<Longrightarrow> config_wf c) \<Longrightarrow> steps T (f v)"
  shows "steps T (bindE (log_get Log_Api.get_cluster_config E) f)"
proof (rule stepsI, rule T_inv)
  fix s assume inv: "J s"
  have "steps T (f (stored_config E s))" using assms read_law [OF J_lok [OF inv]] by blast
  then show "T s (snd (bindE (log_get Log_Api.get_cluster_config E) f s))"
    by (simp add: run stepsD)
qed

lemma config_kept: "steps T (Cluster_Ops.get_cluster_config E)"
  unfolding Cluster_Ops.get_cluster_config_def
  by (rule bind_stored) (intro steps_rules bookkeeping_steps save_steps init_nodes_wf)

text \<open>What \<open>get_cluster_config\<close> hands out is stored and well formed.\<close>

lemma config_given:
  assumes "J s" and "Cluster_Ops.get_cluster_config E s = (Inr c, t)"
  shows "config_wf c \<and> stored_config E t \<noteq> None \<and> timers t = timers s \<and> role t = role s"
proof (cases "stored_config E s")
  case (Some d)
  then show ?thesis
    using assms read_law by (auto simp: Cluster_Ops.get_cluster_config_def set_current_def ops_mod_def run term_inv_def)
next
  case None
  with assms(2) obtain i where i: "initial_config E = Some i"
    by (cases "initial_config E") (auto simp: Cluster_Ops.get_cluster_config_def run)
  let ?c = "\<lparr>nodes = init_nodes (node_uris i), pending_node = None, settings = init_settings i\<rparr>"
  obtain l where "save_cluster_config (log E) ?c (n_log s) = (Inr ?c, l)"
    "Log_Api.get_cluster_config (log E) l \<noteq> None"
    using save_law [OF _ init_nodes_wf] assms(1) unfolding term_inv_def by metis
  then show ?thesis
    using assms(2) None i init_nodes_wf
    by (auto simp: Cluster_Ops.get_cluster_config_def set_current_def ops_mod_def log_do_def run)
qed

lemma bind_config:
  assumes "\<And>c. config_wf c \<Longrightarrow> steps T (f c)"
  shows "steps T (bindE (Cluster_Ops.get_cluster_config E) f)"
proof (rule stepsI, rule T_inv)
  fix s assume inv: "J s"
  show "T s (snd (bindE (Cluster_Ops.get_cluster_config E) f s))"
    using config_given [OF inv] assms stepsD [OF config_kept] by (intro bindE_rel) (auto simp: steps_def)
qed

lemma save_current_steps: "config_wf c \<Longrightarrow> steps T (save_current E c)"
  unfolding save_current_def by (intro steps_rules save_steps bookkeeping_steps)

lemma bindE_ret_assoc: "bindE (bindE m (\<lambda>c. ret (g c))) h = bindE m (\<lambda>c. h (g c))"
  by (rule ext) (simp add: run split: prod.splits sum.splits)

lemma bind_plan:
  assumes "\<And>p. (\<And>c. p = Some c \<Longrightarrow> config_wf c) \<Longrightarrow> steps T (f p)"
  shows "steps T (bindE (plan_add_node E u) f)" "steps T (bindE (plan_remove_node E u) f)"
  unfolding plan_add_node_def plan_remove_node_def bindE_ret_assoc
  by (rule bind_config, rule assms, erule (1) wf_plan_add, rule bind_config, rule assms, erule (1) wf_plan_remove)

lemma bind_some: "(\<And>x. v = Some x \<Longrightarrow> steps T (f x)) \<Longrightarrow> steps T (bindE (some_or e v) f)"
  by (cases v) (auto simp: steps_def run T_refl)

lemma add_steps: "steps T (start_node_add E u)" "steps T (finish_node_add E u)"
proof -
  show "steps T (start_node_add E u)"
    unfolding start_node_add_def
    by (rule bind_config) (intro steps_throw steps_option steps_if bind_plan bind_some save_current_steps, simp)
  show "steps T (finish_node_add E u)"
    unfolding finish_node_add_def Let_def
    by (rule bind_config)
      (intro steps_throw steps_option steps_if steps_seqE bookkeeping_steps save_current_steps wf_put, simp_all)
qed

lemma remove_steps: "steps T (start_node_remove E u)" "steps T (finish_node_remove E u)"
proof -
  show "steps T (start_node_remove E u)"
    unfolding start_node_remove_def
    by (rule bind_config) (intro steps_throw steps_option steps_if bind_plan bind_some save_current_steps, simp)
  show "steps T (finish_node_remove E u)"
    unfolding finish_node_remove_def Let_def
    by (rule bind_config)
      (intro steps_throw steps_option steps_if steps_seqE bookkeeping_steps save_current_steps wf_drop, simp_all)
qed

lemma settings_kept: "steps T (save_settings E r)"
  unfolding save_settings_def
  by (rule bind_stored) (intro steps_bindE [OF steps_liftE] bind_some steps_bindE save_current_steps wf_settings steps_ret, simp)

lemma bind_lift: "(\<And>x. v = Inr x \<Longrightarrow> steps T (f x)) \<Longrightarrow> steps T (bindE (liftE v) f)"
  by (cases v) (auto simp: steps_def run T_refl)

lemma load_kept: "steps T (update_cluster_config_from_json_string E txt)"
proof -
  have "config_wf c" if "sbind j config_from_json = Inr c" for j c
    using that config_from_json_wf by (cases j) (auto simp: sbind_def)
  then show ?thesis
    unfolding update_cluster_config_from_json_string_def
    by (intro bind_some bind_lift steps_bindE [OF save_steps] steps_ret)
qed

lemma reverse_kept: "steps T (reverse_config_change E r)"
  unfolding reverse_config_change_def Let_def
  by (rule bind_config)
    (intro steps_bindE [OF steps_liftE] steps_prod steps_seqE steps_whenE bookkeeping_steps save_steps,
      auto intro: wf_drop wf_put split: option.split)

lemma drop_kept:
  "steps T (k :: ('l, 'a, unit) act) \<Longrightarrow> steps T (bindE (Cluster_Ops.get_cluster_config E) (\<lambda>c.
      let c' = c\<lparr>pending_node := None\<rparr> in
      seqE (set_current c') (bindE (log_do (save_cluster_config (log E) c')) (\<lambda>_. k))))"
  unfolding Let_def by (rule bind_config) (intro steps_seqE steps_bindE bookkeeping_steps save_steps wf_drop)

end

sublocale term_log \<subseteq> engine_prims T E
proof
  fix s :: "('l, 'a) node" and target d
  show "\<not> campaign_target target \<Longrightarrow> steps T (role_run_after d target)"
    by (rule stepsI, rule T_run_after) simp
qed (rule T_core T_quiet T_call_later T_cancel_timer T_cancel_after T_halt config_kept load_kept add_steps
    remove_steps settings_kept reverse_kept drop_kept T_frame | assumption
    | simp add: same_office_def campaign_pending_def timer_inv_def)+

section \<open>Methods that keep the role\<close>

abbreviation same_role :: "('l, 'a) node \<Rightarrow> ('l, 'a) node \<Rightarrow> bool" where
  "same_role s t \<equiv> role t = role s"

interpretation role_kept: method_rel same_role
  by unfold_locales auto

lemma keep_role_prims:
  "steps same_role (log_do m)" "steps same_role (ops_mod f)" "steps same_role (deck_mod g)"
  "steps same_role (candidate_mod h)" "steps same_role (call_later d cb)" "steps same_role (cancel_timer i)"
  "steps same_role (set_role_stopped b)" "steps same_role (log_get q E)"
  by (auto simp: steps_def log_do_def ops_mod_def deck_mod_def candidate_mod_def call_later_def cancel_timer_def
      set_role_stopped_def run split: prod.splits RoleName.splits)

lemma keep_role_config:
  "steps same_role (Cluster_Ops.get_cluster_config E)" "steps same_role (save_current E c)"
  unfolding Cluster_Ops.get_cluster_config_def save_current_def set_current_def
  by (intro role_kept.steps_rules keep_role_prims)+

lemma keep_role_changes:
  "steps same_role (update_cluster_config_from_json_string E txt)"
  "steps same_role (start_node_add E u)" "steps same_role (finish_node_add E u)"
  "steps same_role (start_node_remove E u)" "steps same_role (finish_node_remove E u)"
  "steps same_role (save_settings E r)" "steps same_role (reverse_config_change E r)"
  unfolding update_cluster_config_from_json_string_def start_node_add_def finish_node_add_def
    start_node_remove_def finish_node_remove_def save_settings_def reverse_config_change_def
    plan_add_node_def plan_remove_node_def set_current_def note_exit_done_def
  by (intro role_kept.steps_rules keep_role_config keep_role_prims)+

interpretation kept: engine_prims same_role E for E :: "('l, 'a) env"
proof
  show "steps same_role (role_run_after d target)" "steps same_role cancel_role_run_after" for d target
    unfolding role_run_after_def cancel_role_run_after_def by (intro role_kept.steps_rules keep_role_prims)+
  show "steps same_role (bindE (Cluster_Ops.get_cluster_config E) (\<lambda>c.
      let c' = c\<lparr>pending_node := None\<rparr> in
      seqE (set_current c') (bindE (log_do (save_cluster_config (log E) c')) (\<lambda>_. k))))"
    if "steps same_role k" for k :: "('l, 'a, unit) act"
    using that unfolding set_current_def by (intro role_kept.steps_rules keep_role_config keep_role_prims)
qed (simp_all add: same_office_def keep_role_prims keep_role_config keep_role_changes)

section \<open>Campaigns\<close>

text \<open>The part of \<open>start_campaign_base\<close> after the new term is stored.\<close>

definition campaign_tail :: "('l, 'a) env \<Rightarrow> ('l, 'a, unit) act" where
  "campaign_tail E =
     seqE (candidate_mod (\<lambda>c. c\<lparr>c_reply_count := 0\<rparr>))
     (bindE get_cluster_node_ids (\<lambda>us.
     seqE (request_votes E us)
     (bindE (get_election_timeout E) (\<lambda>d. role_run_after d ElectionTimedOut))))"

context term_log
begin

text \<open>Methods that are called in one role only.\<close>

definition in_role :: "RoleName \<Rightarrow> ('l, 'a, 'b) act \<Rightarrow> bool" where
  "in_role r m \<longleftrightarrow> (\<forall>s. role s = r \<longrightarrow> T s (snd (m s)))"

lemma in_roleI: "(\<And>s. J s \<Longrightarrow> role s = r \<Longrightarrow> T s (snd (m s))) \<Longrightarrow> in_role r m"
  unfolding in_role_def using T_inv by blast

lemma in_role_steps: "steps T m \<Longrightarrow> in_role r m"
  by (simp add: in_role_def steps_def)

lemma in_role_bind:
  "steps T m \<Longrightarrow> steps same_role m \<Longrightarrow> (\<And>x. in_role r (f x)) \<Longrightarrow> in_role r (bindE m f)"
  unfolding in_role_def by (auto intro!: bindE_rel simp: stepsD dest: stepsE)

lemma in_role_seq: "steps T m \<Longrightarrow> steps same_role m \<Longrightarrow> in_role r n \<Longrightarrow> in_role r (seqE m n)"
  unfolding seqE_def by (rule in_role_bind)

lemma in_role_gets: "(\<And>x. in_role r (f x)) \<Longrightarrow> in_role r (bindE (getsE g) f)"
  by (simp add: in_role_def run)

lemma in_role_log: "(\<And>x. in_role r (f x)) \<Longrightarrow> in_role r (bindE (log_get q E) f)"
  by (simp add: in_role_def run)

lemma in_role_when: "in_role r m \<Longrightarrow> in_role r (whenE b m)"
  by (simp add: whenE_def in_role_steps steps_ret)

lemma in_role_if: "in_role r m \<Longrightarrow> in_role r n \<Longrightarrow> in_role r (if b then m else n)"
  by simp

lemma timeout_given:
  assumes "J s" and "get_election_timeout E s = (Inr d, t)"
  shows "role t = role s \<and> stored_config E t \<noteq> None"
proof -
  from assms(2) obtain c u where u: "Cluster_Ops.get_cluster_config E s = (Inr c, u)"
    by (cases "Cluster_Ops.get_cluster_config E s"; cases "fst (Cluster_Ops.get_cluster_config E s)")
      (auto simp: get_election_timeout_def run)
  with assms(2) have "t = u\<lparr>draws := Suc (draws u)\<rparr>" by (simp add: get_election_timeout_def run)
  then show ?thesis using config_given [OF assms(1) u] by simp
qed

text \<open>A candidate sets its timer right after it has read the timeout.\<close>

lemma election_timer_in_role:
  assumes "steps T k"
  shows "in_role RoleCandidate (bindE (get_election_timeout E) (\<lambda>d. seqE (role_run_after d x) k))"
proof (rule in_roleI)
  fix s assume s: "J s" "role s = RoleCandidate"
  show "T s (snd (bindE (get_election_timeout E) (\<lambda>d. seqE (role_run_after d x) k) s))"
    using timeout_given [OF s(1)] s(2)
    by (intro bindE_rel stepsD [OF settings_steps(2)] seqE_rel T_run_after stepsD [OF assms]) auto
qed

lemma seqE_ret: "seqE m (ret ()) = m"
  by (rule ext) (auto simp: run split: prod.splits sum.splits)

lemmas last_timer_in_role = election_timer_in_role [OF steps_ret [of "()"], unfolded seqE_ret]

lemma campaign_tail_in_role: "in_role RoleCandidate (campaign_tail E)"
  unfolding campaign_tail_def
  by (intro in_role_seq in_role_bind last_timer_in_role candidate_mod_steps config_steps campaign_steps
      keep_role_prims kept.config_steps kept.campaign_steps) simp

lemma start_campaign_base_from:
  assumes "J s" and "role s = RoleCandidate" and "\<not> c_stopped (candidate s)"
  shows "T s (snd (start_campaign_base E s))"
proof -
  obtain l where l: "set_term (log E) (c_term (candidate s) + 1) (n_log s) = (Inr (), l)" "lok l"
    "get_term (log E) l = c_term (candidate s) + 1"
    "Log_Api.get_cluster_config (log E) l = stored_config E s"
    using term_law [OF J_lok [OF assms(1)]] by blast
  have "\<exists>v. start_campaign_base E s = campaign_tail E v \<and> n_log v = l \<and> role v = role s \<and>
      candidate v = (candidate s)\<lparr>c_term := c_term (candidate s) + 1\<rparr> \<and> timers v = timers s \<and>
      next_timer v = next_timer s \<and> deck v = deck s"
    using l(1) unfolding start_campaign_base_def campaign_tail_def [symmetric]
    by (simp add: candidate_mod_def deck_set_term_def log_do_def run split del: if_split)
      (rule exI, rule conjI, rule refl, simp)
  then obtain v where v: "start_campaign_base E s = campaign_tail E v" "n_log v = l" "role v = role s"
    "candidate v = (candidate s)\<lparr>c_term := c_term (candidate s) + 1\<rparr>" "timers v = timers s"
    "next_timer v = next_timer s" "deck v = deck s" by blast
  have "T s v"
    using assms l v(2-) by (auto simp: term_rel_def term_inv_def campaign_pending_def timer_inv_def)
  moreover have "T v (snd (campaign_tail E v))"
    using campaign_tail_in_role assms(2) v(3) by (simp add: in_role_def)
  ultimately show ?thesis unfolding v(1) by (rule T_trans)
qed

lemma start_campaign_pre_in_role: "in_role RoleCandidate (start_campaign_pre E)"
  unfolding start_campaign_pre_def
  by (intro in_role_seq in_role_bind last_timer_in_role candidate_mod_steps config_steps campaign_steps node_steps
      keep_role_prims kept.config_steps kept.campaign_steps kept.node_steps) simp

lemma start_campaign_from:
  assumes "J s" and "role s = RoleCandidate" and "\<not> c_stopped (candidate s)"
  shows "T s (snd (start_campaign E s))"
  using start_campaign_base_from [OF assms] start_campaign_pre_in_role assms(2)
  by (simp add: start_campaign_def run in_role_def)

text \<open>A candidate starts from the stored term, so whatever its own copy was before.\<close>

lemma candidate_start_from:
  assumes "J (s\<lparr>candidate := (candidate s)\<lparr>c_stopped := True\<rparr>\<rparr>)" and "role s = RoleCandidate"
  shows "T (s\<lparr>candidate := (candidate s)\<lparr>c_stopped := True\<rparr>\<rparr>) (snd (candidate_start E s))"
proof -
  let ?v = "s\<lparr>candidate := (candidate s)\<lparr>c_term := stored_term E s, c_stopped := False\<rparr>\<rparr>"
  have v: "candidate_start E s = start_campaign E ?v"
    using assms(2) by (simp add: candidate_start_def base_start_def set_role_stopped_def candidate_mod_def run)
  have "J ?v" using assms by (auto simp: term_inv_def campaign_pending_def timer_inv_def)
  moreover have "T (s\<lparr>candidate := (candidate s)\<lparr>c_stopped := True\<rparr>\<rparr>) ?v"
    using assms by (auto simp: term_rel_def term_inv_def campaign_pending_def timer_inv_def)
  ultimately show ?thesis using start_campaign_from [of ?v] assms(2) v T_trans by simp
qed

subsection \<open>Becoming something else\<close>

lemma T_J: "T s t \<Longrightarrow> J s \<Longrightarrow> J t"
  by (simp add: term_rel_def)

text \<open>After \<open>stop_role\<close> no timer of a role is left.\<close>

lemma stop_tail_timers:
  assumes "J s" and "seqE (log_do (set_voted_for (log E) None)) cancel_role_run_after s = (Inr x, t)"
  shows "J t \<and> \<not> campaign_pending t"
proof -
  from assms(2) obtain v where v: "log_do (set_voted_for (log E) None) s = (Inr (), v)" "cancel_role_run_after v = (Inr (), t)"
    by (cases "log_do (set_voted_for (log E) None) s"; cases "fst (log_do (set_voted_for (log E) None) s)") (auto simp: run)
  have "J v" using stepsE [OF log_do_op_steps(3) v(1)] assms(1) T_J by blast
  then show ?thesis
    using cancel_after_pending [of v] stepsE [OF cancel_after_rel v(2)] T_J v(2) by (auto simp: term_inv_def)
qed

lemma stop_role_timers:
  assumes "J s" and "stop_role E s = (Inr x, t)"
  shows "J t \<and> \<not> campaign_pending t"
proof -
  let ?m = "seqE (log_do (set_voted_for (log E) None)) cancel_role_run_after"
  from assms(2) obtain u where u: "role_stop E s = (Inr (), u)" "?m u = (Inr x, t)"
    by (cases "role_stop E s"; cases "fst (role_stop E s)") (auto simp: stop_role_def run_seqE)
  have "J u" using stepsE [OF node_steps(10) u(1)] assms(1) T_J by blast
  then show ?thesis using stop_tail_timers u(2) by blast
qed

end

context term_log
begin

lemma after_steps:
  assumes "T u (snd (m v))" and "steps T n"
  shows "T u (snd (seqE m n v))"
  using assms(1) stepsD [OF assms(2)]
  by (cases "m v"; cases "fst (m v)") (auto simp: run_seqE intro: T_trans)

lemma seqE_modE: "seqE (modE f) n s = n (f s)"
  by (simp add: run)

text \<open>Where a new role object is made, after the old one is stopped and the configuration is read.\<close>

lemma new_office:
  assumes "\<And>c u. J u \<Longrightarrow> \<not> campaign_pending u \<Longrightarrow> T u (snd (f c u))"
  shows "steps T (seqE (stop_role E) (bindE (Cluster_Ops.get_cluster_config E) f))"
proof (rule stepsI, rule T_inv, rule seqE_rel)
  fix s assume s: "J s"
  show "T s (snd (stop_role E s))" by (rule stepsD [OF node_steps(11)])
  fix x t assume "stop_role E s = (Inr x, t)"
  then have t: "\<not> campaign_pending t" "J t" using stop_role_timers [OF s] by blast+
  show "T t (snd (bindE (Cluster_Ops.get_cluster_config E) f t))"
  proof (rule bindE_rel [OF stepsD [OF config_kept]])
    fix c u assume u: "Cluster_Ops.get_cluster_config E t = (Inr c, u)"
    then have "\<not> campaign_pending u" using config_given [OF t(2) u] t(1) by (simp add: campaign_pending_def)
    moreover have "J u" using stepsE [OF config_kept u] T_J t(2) by blast
    ultimately show "T u (snd (f c u))" using assms by blast
  qed
qed

lemma campaign_kept: "steps T (deck_start_campaign E auth)"
  unfolding deck_start_campaign_def
proof (rule new_office)
  fix c u assume u: "J u" "\<not> campaign_pending u"
  let ?v = "u\<lparr>role := RoleCandidate, candidate := new_Candidate (use_pre_vote (settings c)) auth\<rparr>"
  let ?h = "?v\<lparr>candidate := (candidate ?v)\<lparr>c_stopped := True\<rparr>\<rparr>"
  have "T u ?h" "J ?h"
    using u by (auto simp: term_rel_def term_inv_def campaign_pending_def timer_inv_def)
  then have "T u (snd (candidate_start E ?v))"
    using candidate_start_from [of ?v] T_trans by simp
  then have "T u (snd (seqE (candidate_start E) (emit_if_active (RoleChangeEvent RoleCandidate)) ?v))"
    by (rule after_steps [OF _ node_steps(4)])
  then show "T u (snd (seqE (modE (\<lambda>s. s\<lparr>role := RoleCandidate,
      candidate := new_Candidate (use_pre_vote (settings c)) auth\<rparr>))
      (seqE (candidate_start E) (emit_if_active (RoleChangeEvent RoleCandidate))) u))"
    unfolding seqE_modE .
qed

end

sublocale term_log \<subseteq> engine_campaigns T E
  by unfold_locales (rule campaign_kept)

section \<open>The follower\<close>

context term_log
begin

lemma in_role_then: "in_role r m \<Longrightarrow> steps same_role m \<Longrightarrow> in_role r n \<Longrightarrow> in_role r (seqE m n)"
  unfolding in_role_def by (auto intro!: seqE_rel dest: stepsE)

lemma in_role_after: "in_role r m \<Longrightarrow> steps T n \<Longrightarrow> in_role r (seqE m n)"
  unfolding in_role_def using after_steps by blast

lemma in_role_try: "in_role r m \<Longrightarrow> (\<And>e. steps T (h e)) \<Longrightarrow> in_role r (tryE m h)"
  unfolding in_role_def steps_def
  by (auto simp: run split: prod.splits sum.splits) (metis T_trans snd_conv)+

lemma in_role_option:
  "in_role r m \<Longrightarrow> (\<And>x. in_role r (f x)) \<Longrightarrow> in_role r (case v of None \<Rightarrow> m | Some x \<Rightarrow> f x)"
  by (cases v) simp_all

lemma base_start_in_role: "r \<noteq> RoleCandidate \<Longrightarrow> in_role r base_start"
  unfolding in_role_def base_start_def set_role_stopped_def
  by (auto simp: run term_rel_def term_inv_def campaign_pending_def timer_inv_def split: RoleName.splits)

lemma follower_start_in_role: "in_role RoleFollower (follower_start E)"
  unfolding follower_start_def
  by (rule in_role_after [OF base_start_in_role])
    (simp, intro role_rules, simp add: campaign_target_def)

lemma follower_start_keeps: "steps same_role (follower_start E)"
  unfolding follower_start_def base_start_def
  by (intro kept.campaign_rules keep_role_prims) (simp add: campaign_target_def)

text \<open>A role that is not a running candidate may raise the stored term.\<close>

lemma set_term_from:
  assumes "role s = RoleCandidate \<Longrightarrow> c_stopped (candidate s)" and "stored_term E s \<le> t"
  shows "T s (snd (deck_set_term E t s))"
proof (rule T_inv)
  assume inv: "J s"
  obtain l where "set_term (log E) t (n_log s) = (Inr (), l)" "lok l" "get_term (log E) l = t"
    "Log_Api.get_cluster_config (log E) l = stored_config E s"
    using term_law [OF J_lok [OF inv]] by blast
  then show ?thesis
    using inv assms
    by (auto simp: deck_set_term_def log_do_def run term_rel_def term_inv_def campaign_pending_def timer_inv_def)
qed

lemma base_on_message_from:
  assumes "\<And>t. stored_term E s < t \<Longrightarrow> T s (snd (bindE (expired m t) (\<lambda>go. whenE go (route E R m)) s))"
    and "\<not> stopped s \<Longrightarrow> T s (snd (route E R m s))"
  shows "T s (snd (base_on_message E stopped expired R m s))"
proof (cases "\<not> stopped s \<and> (\<exists>t. term_of_msg m = Some t \<and> term_counts m \<and> stored_term E s < t)")
  case True
  then show ?thesis using assms(1) by (auto simp: base_on_message_def run_bindE run_whenE run_getsE log_get_run)
next
  case False
  then have "snd (base_on_message E stopped expired R m s) \<in> {s, snd (route E R m s)} \<and>
      (stopped s \<longrightarrow> snd (base_on_message E stopped expired R m s) = s)"
    by (auto simp: base_on_message_def run split: option.splits)
  then show ?thesis using assms(2) T_refl by (cases "stopped s") auto
qed

lemma follower_expired_from:
  assumes "role s = RoleFollower" and "stored_term E s < t"
  shows "T s (snd (follower_term_expired E m t s))"
  unfolding follower_term_expired_def
proof (rule seqE_rel)
  show "T s (snd (record_op_detail newer_term s))" by (rule stepsD [OF node_steps(5)])
  fix x u assume "record_op_detail newer_term s = (Inr x, u)"
  then have "role u = RoleFollower" "stored_term E u \<le> t" using assms by (auto simp: run)
  then have "T u (snd (deck_set_term E t u))" by (intro set_term_from) simp_all
  then show "T u (snd (seqE (deck_set_term E t) (seqE (log_do (set_voted_for (log E) None)) (ret True)) u))"
    by (rule after_steps) (intro steps_rules log_do_op_steps)
qed

lemma follower_on_message_in_role: "in_role RoleFollower (follower_on_message E m)"
  unfolding follower_on_message_def
proof (rule in_roleI, rule base_on_message_from)
  fix s :: "('l, 'a) node" assume "role s = RoleFollower"
  then show "T s (snd (bindE (follower_term_expired E m t) (\<lambda>go. whenE go (route E (follower_routes E) m)) s))"
    if "stored_term E s < t" for t
    using follower_expired_from [OF _ that] stepsD [OF follower_route_steps] T_refl
    by (intro bindE_rel) (auto simp: run)
qed (rule stepsD [OF follower_route_steps])

lemma inner_with_in_role:
  "in_role r (handler m) \<Longrightarrow> in_role r (inner_on_message_with E handler m)"
  unfolding inner_on_message_with_def
  by (intro in_role_seq in_role_gets in_role_if in_role_steps [OF steps_throw] in_role_after in_role_try deck_mod_steps
      keep_role_prims steps_seqE node_steps) simp_all

text \<open>What follows in \<open>demote_and_handle\<close> when the old role is stopped.\<close>

definition demote_tail :: "message option \<Rightarrow> ('l, 'a, unit) act" where
  "demote_tail mo =
     bindE (getsE (\<lambda>s. exiting_cluster (deck s))) (\<lambda>ex.
     whenE (\<not> ex)
       (seqE (modE (\<lambda>s. s\<lparr>role := RoleFollower, follower := new_Follower (now s)\<rparr>))
       (seqE (follower_start E)
       (seqE (emit_if_active (RoleChangeEvent RoleFollower))
       (case mo of None \<Rightarrow> ret ()
        | Some m \<Rightarrow>
            seqE (case leaderId_of_msg m of None \<Rightarrow> ret () | Some l \<Rightarrow> set_leader_uri l)
            (inner_on_message_with E (follower_on_message E) m))))))"

lemma demote_tail_from:
  assumes "J s" and "\<not> campaign_pending s"
  shows "T s (snd (demote_tail mo s))"
proof -
  let ?v = "s\<lparr>role := RoleFollower, follower := new_Follower (now s)\<rparr>"
  let ?k = "seqE (follower_start E)
       (seqE (emit_if_active (RoleChangeEvent RoleFollower))
       (case mo of None \<Rightarrow> ret ()
        | Some m \<Rightarrow>
            seqE (case leaderId_of_msg m of None \<Rightarrow> ret () | Some l \<Rightarrow> set_leader_uri l)
            (inner_on_message_with E (follower_on_message E) m)))"
  have "T s ?v" using assms by (auto simp: term_rel_def term_inv_def campaign_pending_def timer_inv_def)
  moreover have "in_role RoleFollower ?k"
    by (intro in_role_then in_role_option in_role_seq follower_start_in_role follower_start_keeps inner_with_in_role
        follower_on_message_in_role in_role_steps [OF steps_ret] steps_option node_steps kept.node_steps
        role_kept.steps_option steps_ret role_kept.steps_ret)
  then have "T ?v (snd (?k ?v))" by (simp add: in_role_def)
  ultimately have "T s (snd (?k ?v))" by (rule T_trans)
  then show ?thesis
    unfolding demote_tail_def by (simp add: run_bindE run_getsE run_whenE seqE_modE T_refl)
qed

lemma demote_kept: "steps T (demote_and_handle E mo)"
  unfolding demote_and_handle_def demote_tail_def [symmetric]
proof (rule stepsI, rule T_inv, rule seqE_rel)
  fix s x t assume "J s" and t: "stop_role E s = (Inr x, t)"
  then show "T t (snd (demote_tail mo t))"
    using stop_role_timers [of s] by (intro demote_tail_from) auto
qed (rule stepsD [OF node_steps(11)])

end

sublocale term_log \<subseteq> engine_roles T E
  by unfold_locales (rule demote_kept)

section \<open>The leader\<close>

context term_log
begin

lemma leader_start_in_role: "in_role RoleLeader (leader_start E)"
  unfolding leader_start_def
  by (rule in_role_after [OF base_start_in_role])
    (simp, intro leader_rules, simp_all add: campaign_target_def)

lemma leader_expired_from:
  assumes "role s = RoleLeader" and "stored_term E s < t"
  shows "T s (snd (leader_term_expired E m t s))"
  unfolding leader_term_expired_def
  by (rule after_steps [OF set_term_from]) (use assms in \<open>simp_all, intro leader_rules leader_book_steps\<close>)

lemma leader_on_message_in_role: "in_role RoleLeader (leader_on_message E m)"
  unfolding leader_on_message_def
proof (rule in_roleI, rule base_on_message_from)
  fix s :: "('l, 'a) node" assume "role s = RoleLeader"
  then show "T s (snd (bindE (leader_term_expired E m t) (\<lambda>go. whenE go (route E (leader_routes E) m)) s))"
    if "stored_term E s < t" for t
    using leader_expired_from [OF _ that] stepsD [OF leader_route_steps] T_refl
    by (intro bindE_rel) (auto simp: run)
qed (rule stepsD [OF leader_route_steps])

lemma win_vote_kept: "steps T (win_vote E t)"
  unfolding win_vote_def
proof (rule new_office)
  fix c u assume u: "J u" "\<not> campaign_pending u"
  let ?v = "u\<lparr>role := RoleLeader, leader := new_Leader (use_check_quorum (settings c))\<rparr>"
  let ?k = "seqE (set_leader_uri (Some (my_uri E))) (seqE (leader_start E) (emit_if_active (RoleChangeEvent RoleLeader)))"
  have "T u ?v" using u by (auto simp: term_rel_def term_inv_def campaign_pending_def timer_inv_def)
  moreover have "in_role RoleLeader ?k"
    by (intro in_role_seq in_role_after leader_start_in_role node_steps kept.node_steps)
  then have "T ?v (snd (?k ?v))" by (simp add: in_role_def)
  ultimately show "T u (snd (seqE (modE (\<lambda>s. s\<lparr>role := RoleLeader,
      leader := new_Leader (use_check_quorum (settings c))\<rparr>)) ?k u))"
    unfolding seqE_modE by (rule T_trans)
qed

section \<open>The candidate\<close>

lemma campaign_lost_in_role: "in_role RoleCandidate (campaign_lost E d)"
  unfolding campaign_lost_def
  by (intro in_role_seq election_timer_in_role cancel_after_rel kept.cancel_after_rel steps_seqE node_steps)

lemma on_vote_response_in_role: "in_role RoleCandidate (on_vote_response E h v)"
  unfolding on_vote_response_def
  by (intro in_role_gets in_role_when in_role_seq in_role_if in_role_steps [OF cancel_after_rel] campaign_lost_in_role
      in_role_steps steps_seqE cancel_after_rel win_vote_kept node_steps candidate_mod_steps keep_role_prims) simp

lemma pre_won_from:
  assumes "J s" and "role s = RoleCandidate" and "\<not> c_stopped (candidate s)"
  shows "T s (snd (seqE cancel_role_run_after (seqE (record_op_detail pre_won) (start_campaign_base E)) s))"
proof (rule seqE_rel [OF stepsD [OF cancel_after_rel]])
  fix x t assume t: "cancel_role_run_after s = (Inr x, t)"
  then have f: "role t = RoleCandidate" "\<not> c_stopped (candidate t)"
    using cancel_after_frame [of s] assms(2,3) by (auto dest: timer_frameD)
  have inv: "J t" using stepsE [OF cancel_after_rel t] assms(1) T_J by blast
  show "T t (snd (seqE (record_op_detail pre_won) (start_campaign_base E) t))"
  proof (rule seqE_rel [OF stepsD [OF node_steps(5)]])
    fix x u assume u: "record_op_detail pre_won t = (Inr x, u)"
    then have "J u" using stepsE [OF node_steps(5)] inv T_J by blast
    with u f show "T u (snd (start_campaign_base E u))" by (intro start_campaign_base_from) (auto simp: run)
  qed
qed

lemma on_pre_vote_response_from:
  assumes "J s" and "role s = RoleCandidate" and "\<not> c_stopped (candidate s)"
  shows "T s (snd (on_pre_vote_response E h v s))"
proof (cases "msg_term h \<le> c_term (candidate s)")
  case True
  then show ?thesis by (simp add: on_pre_vote_response_def run T_refl)
next
  case False
  let ?u = "s\<lparr>candidate := (candidate s)\<lparr>pre_votes := dict_set (sender h) (Some v) (pre_votes (candidate s)),
    c_reply_count := c_reply_count (candidate s) + 1\<rparr>\<rparr>"
  let ?c = "candidate ?u"
  have T: "T s ?u" by (rule T_core) (simp_all add: same_core_def same_office_def)
  have "T ?u (snd (campaign_lost E pre_lost ?u))"
    using campaign_lost_in_role assms(2) by (simp add: in_role_def)
  moreover have "T ?u (snd (seqE cancel_role_run_after (seqE (record_op_detail pre_won) (start_campaign_base E)) ?u))"
    using assms T T_J [OF T] by (intro pre_won_from) simp_all
  moreover have "on_pre_vote_response E h v s =
      (if 2 * tally (pre_votes ?c) > length (pre_votes ?c)
       then seqE cancel_role_run_after (seqE (record_op_detail pre_won) (start_campaign_base E))
       else whenE (2 * (c_reply_count ?c + 1) > int (length (pre_votes ?c))) (campaign_lost E pre_lost)) ?u"
    using False
    by (simp add: on_pre_vote_response_def candidate_mod_def run_bindE run_getsE run_whenE seqE_modE)
  ultimately have "T ?u (snd (on_pre_vote_response E h v s))"
    by (simp only: run_whenE T_refl snd_conv split: if_split) simp
  with T show ?thesis by (rule T_trans)
qed

end

context term_log
begin

lemma demote_halted:
  assumes "J w" and "role_stop E v = (Inr (), w)"
  shows "T w (snd (demote_and_handle E mo v))"
proof -
  let ?m = "seqE (log_do (set_voted_for (log E) None)) cancel_role_run_after"
  have "demote_and_handle E mo v = seqE ?m (demote_tail mo) w"
    unfolding demote_and_handle_def demote_tail_def [symmetric] stop_role_def
    using assms(2) by (simp add: run_seqE)
  moreover have "T w (snd (seqE ?m (demote_tail mo) w))"
  proof (rule seqE_rel)
    show "T w (snd (?m w))" by (rule stepsD) (intro steps_seqE log_do_op_steps cancel_after_rel)
    show "T t (snd (demote_tail mo t))" if "?m w = (Inr x, t)" for x t
      using stop_tail_timers [OF assms(1) that] demote_tail_from by blast
  qed
  ultimately show ?thesis by simp
qed

lemma candidate_expired_from:
  assumes "J s" and "role s = RoleCandidate" and "stored_term E s < t"
  shows "T s (snd (candidate_term_expired E m t s))"
proof -
  obtain l where l: "set_term (log E) t (n_log s) = (Inr (), l)" "lok l" "get_term (log E) l = t"
    "Log_Api.get_cluster_config (log E) l = stored_config E s"
    using term_law [OF J_lok [OF assms(1)]] by blast
  define l2 where "l2 = snd (set_voted_for (log E) None l)"
  have l2: "lok l2" "get_term (log E) l2 = t" "Log_Api.get_cluster_config (log E) l2 = stored_config E s"
    unfolding l2_def using quiet_law [OF quiet_call.intros(3)] l by auto
  let ?k = "seqE (demote_and_handle E (Some m)) (ret False)"
  have "\<exists>v. candidate_term_expired E m t s = ?k v \<and> n_log v = l \<and> role v = role s \<and> candidate v = candidate s \<and>
      timers v = timers s \<and> next_timer v = next_timer s \<and> deck v = deck s"
    using l(1) unfolding candidate_term_expired_def
    by (simp add: deck_set_term_def log_do_def run_seqE record_op_detail_run emit_if_active_run run_zoomE split del: if_split)
      (rule exI, rule conjI, rule refl, simp)
  then obtain v where v: "candidate_term_expired E m t s = ?k v" "n_log v = l" "role v = role s"
    "candidate v = candidate s" "timers v = timers s" "next_timer v = next_timer s" "deck v = deck s" by blast
  let ?w = "v\<lparr>n_log := l2, candidate := (candidate v)\<lparr>c_stopped := True\<rparr>\<rparr>"
  have w: "role_stop E v = (Inr (), ?w)"
    using v(2,3) assms(2)
    by (cases "set_voted_for (log E) None l"; cases "fst (set_voted_for (log E) None l)")
      (auto simp: role_stop_def log_do_def set_role_stopped_def run l2_def)
  have "T s ?w" "J ?w"
    using assms l2 v(2-) by (auto simp: term_rel_def term_inv_def campaign_pending_def timer_inv_def)
  then have "T s (snd (demote_and_handle E (Some m) v))" using demote_halted [OF _ w] T_trans by blast
  then show ?thesis unfolding v(1) by (rule after_steps) (rule steps_ret)
qed

lemma candidate_expired_ends:
  "candidate_term_expired E m t s = (Inr go, u) \<Longrightarrow> \<not> go"
  by (auto simp: candidate_term_expired_def run split: prod.splits sum.splits)

lemma candidate_route_from:
  assumes "J s" and "role s = RoleCandidate" and "\<not> c_stopped (candidate s)"
  shows "T s (snd (route E (candidate_routes E) m s))"
  using on_vote_response_in_role on_pre_vote_response_from [OF assms] assms(2)
  by (cases m) (auto simp: route_def candidate_routes_def in_role_def base_role_steps give_way_steps steps_ret
      response_steps intro: stepsD)

lemma candidate_on_message_in_role: "in_role RoleCandidate (candidate_on_message E m)"
  unfolding candidate_on_message_def
proof (rule in_roleI, rule base_on_message_from)
  fix s assume s: "J s" "role s = RoleCandidate"
  show "T s (snd (bindE (candidate_term_expired E m t) (\<lambda>go. whenE go (route E (candidate_routes E) m)) s))"
    if "stored_term E s < t" for t
    using candidate_expired_from [OF s that] T_refl
    by (intro bindE_rel) (auto simp: run dest: candidate_expired_ends)
  show "T s (snd (route E (candidate_routes E) m s))" if "\<not> c_stopped (candidate s)"
    by (rule candidate_route_from [OF s that])
qed

section \<open>The event loop\<close>

lemma message_kept: "steps T (role_on_message E m)"
  using follower_on_message_in_role candidate_on_message_in_role leader_on_message_in_role
  by (intro stepsI) (auto simp: role_on_message_def in_role_def run split: RoleName.split)

lemma start_kept: "steps T (role_start E)"
proof (rule stepsI, rule T_inv)
  fix s assume s: "J s"
  show "T s (snd (role_start E s))"
  proof (cases "role s")
    case RoleCandidate
    let ?h = "s\<lparr>candidate := (candidate s)\<lparr>c_stopped := True\<rparr>\<rparr>"
    have "T s ?h" using RoleCandidate by (auto simp: term_rel_def term_inv_def campaign_pending_def timer_inv_def)
    with candidate_start_from [of s] T_J [OF this s] RoleCandidate show ?thesis
      using T_trans by (simp add: role_start_def run)
  qed (use follower_start_in_role leader_start_in_role in \<open>simp_all add: role_start_def in_role_def run\<close>)
qed

text \<open>A snapshot makes a follower of a stopped role whose timer may be pending; the follower's replaces it.\<close>

lemma make_follower_from:
  assumes "J s"
  shows "T s (snd (follower_start E (s\<lparr>role := RoleFollower, follower := new_Follower (now s)\<rparr>)))"
proof (cases "campaign_pending s")
  let ?v = "s\<lparr>role := RoleFollower, follower := new_Follower (now s)\<rparr>"
  case False
  then have "T s ?v" using assms by (auto simp: term_rel_def term_inv_def campaign_pending_def timer_inv_def)
  then show ?thesis using follower_start_in_role T_trans by (simp add: in_role_def)
next
  let ?v = "s\<lparr>role := RoleFollower, follower := new_Follower (now s)\<rparr>"
  case True
  with assms obtain c where c: "stored_config E s = Some c" by (auto simp: term_inv_def)
  have "\<exists>d w. follower_start E ?v = role_run_after d ContactChecker w \<and> n_log w = n_log s \<and> role w = RoleFollower \<and>
      timers w = timers s \<and> next_timer w = next_timer s \<and> deck w = deck s"
    using c by (simp add: follower_start_def base_start_def set_role_stopped_def follower_mod_def get_election_timeout_def
        Cluster_Ops.get_cluster_config_def set_current_def ops_mod_def run)
      (rule exI, rule exI, rule conjI, rule refl, simp)
  then obtain d w where w: "follower_start E ?v = role_run_after d ContactChecker w" "n_log w = n_log s"
    "role w = RoleFollower" "timers w = timers s" "next_timer w = next_timer s" "deck w = deck s" by blast
  have "timer_inv w" using assms w(4-6) by (simp add: term_inv_def timer_inv_def)
  moreover obtain t where t: "role_run_after d ContactChecker w = (Inr (), t)" "timer_frame w t"
    using role_run_after_frame by blast
  ultimately have "timer_inv t" "\<not> campaign_pending t"
    using run_after_timer_inv [of w d ContactChecker] run_after_pending [of w d ContactChecker]
    by (auto simp: campaign_target_def)
  then show ?thesis
    using assms w(1-3) t timer_frameD [OF t(2)] by (auto simp: term_rel_def term_inv_def)
qed

lemma snapshot_kept: "steps T (make_snapshot E)"
proof -
  let ?k = "\<lambda>sn. seqE (modE (\<lambda>s. s\<lparr>role := RoleFollower, follower := new_Follower (now s)\<rparr>)) (seqE (follower_start E) (ret sn))"
  have "steps T (?k sn)" for sn
    by (rule stepsI, rule T_inv, unfold seqE_modE, rule after_steps, erule make_follower_from, rule steps_ret)
  then show ?thesis
    unfolding make_snapshot_def
    by (intro steps_seqE [OF node_steps(10)] steps_bindE [OF log_get_steps] steps_bindE [OF read_rec_steps]
        steps_bindE [OF app_do_steps] steps_seqE [OF log_do_op_steps(9)])
qed

lemma campaign_timer_from:
  assumes "(i, due, RoleAfterRunner x) \<in> set (timers s)" and "campaign_target x"
  shows "T s (snd (role_after_runner E x (s\<lparr>timers := filter (\<lambda>p. fst p \<noteq> i) (timers s)\<rparr>)))"
proof (rule T_inv)
  let ?v = "s\<lparr>timers := filter (\<lambda>p. fst p \<noteq> i) (timers s)\<rparr>"
  assume "J s"
  have sv: "T s ?v" using stepsD [OF cancel_rel, of s i] by (simp add: cancel_timer_def run)
  have "campaign_pending s" using assms unfolding campaign_pending_def by force
  with \<open>J s\<close> have r: "role ?v = RoleCandidate" by (simp add: term_inv_def)
  have "T ?v (snd (role_after_runner E x ?v))"
  proof (cases "c_stopped (candidate ?v) \<or> joining_cluster (deck ?v)")
    case True
    with r show ?thesis by (auto simp: role_after_runner_def role_stopped_def run T_refl)
  next
    case False
    have inv: "J ?v" by (rule T_J [OF sv \<open>J s\<close>])
    have "T ?v (snd (election_timed_out E ?v))"
      unfolding election_timed_out_def
    proof (rule seqE_rel [OF stepsD [OF node_steps(5)]])
      fix y u assume u: "record_op_detail election_timeout_op ?v = (Inr y, u)"
      with stepsE [OF node_steps(5) u] T_J [OF _ inv] r False show "T u (snd (start_campaign E u))"
        by (intro start_campaign_from) (auto simp: run)
    qed
    moreover have "T ?v (snd (start_campaign E ?v))" using inv r False by (intro start_campaign_from) simp_all
    ultimately show ?thesis
      using assms(2) r False by (auto simp: role_after_runner_def role_stopped_def campaign_target_def run)
  qed
  with sv show "T s (snd (role_after_runner E x ?v))" by (rule T_trans)
qed

end

sublocale term_log \<subseteq> engine_loop T E
  by unfold_locales (rule message_kept start_kept snapshot_kept campaign_timer_from | assumption)+

end
