(* ===== verification/Term_Props.thy ===== *)
theory Term_Props
  imports Engine_Terms
begin

text \<open>
  Terms and configurations along the runs of an engine, on the SQLite and the LMDB log. Each of the two logs is shown to
  be a \<open>term_log\<close>, so that what \<open>Engine_Terms\<close> proves of such a log holds of it: the stored term never goes down, a candidate counts
  from the stored term, a stored configuration is never lost and stays well formed.
\<close>

section \<open>The SQLite and the LMDB log\<close>

text \<open>An open database whose node rows have distinct uris.\<close>

definition sql_steady :: "Records \<Rightarrow> bool" where
  "sql_steady s \<longleftrightarrow> r_open s \<and> distinct (map node_uri (tab_nodes (r_work s)))"

abbreviation sql_quiet :: "Records \<Rightarrow> Records \<Rightarrow> bool" where
  "sql_quiet s t \<equiv> sql_steady s \<longrightarrow> sql_steady t \<and> cur_term (r_stats t) = cur_term (r_stats s) \<and>
     tab_nodes (r_work t) = tab_nodes (r_work s) \<and> tab_settings (r_work t) = tab_settings (r_work s)"

interpretation sqlq: method_rel sql_quiet
  by unfold_locales auto

lemma sql_quiet_execute:
  "(\<And>d. tab_nodes (f d) = tab_nodes d \<and> tab_settings (f d) = tab_settings d) \<Longrightarrow> steps sql_quiet (execute f)"
  by (simp add: steps_def execute_def run Let_def sql_steady_def)

lemma sql_quiet_modE:
  "(\<And>s. r_open (f s) = r_open s \<and> r_work (f s) = r_work s \<and> cur_term (r_stats (f s)) = cur_term (r_stats s)) \<Longrightarrow>
   steps sql_quiet (modE f)"
  by (simp add: steps_def run sql_steady_def)

lemma sql_quiet_base:
  "steps sql_quiet commit" "steps sql_quiet ensure_open" "steps sql_quiet replace_stats"
  unfolding commit_def replace_stats_def
  by (intro sqlq.steps_rules sql_quiet_modE sql_quiet_execute; simp)
    (simp add: steps_def ensure_open_run sql_steady_def, intro sqlq.steps_rules sql_quiet_execute, simp)

lemma sql_quiet_save_stats: "steps sql_quiet save_stats"
  unfolding save_stats_def by (intro sqlq.steps_rules sql_quiet_base)

lemma sql_quiet_set_stat: "(\<And>st. cur_term (f st) = cur_term st) \<Longrightarrow> steps sql_quiet (set_stat f)"
  unfolding set_stat_def by (intro sqlq.steps_rules sql_quiet_modE sql_quiet_save_stats) simp

lemma sql_quiet_ops:
  "steps sql_quiet (set_commit_index i)" "steps sql_quiet (set_apply_index i)" "steps sql_quiet (save_entry r)"
  "steps sql_quiet (sql_delete_all_from i)" "steps sql_quiet (sql_install_snapshot sn)" "steps sql_quiet (sql_read io)"
  unfolding set_commit_index_def set_apply_index_def save_entry_def sql_delete_all_from_def sql_install_snapshot_def
    sql_read_def
  by (intro sqlq.steps_rules sql_quiet_base sql_quiet_set_stat sql_quiet_execute sql_quiet_modE sql_quiet_save_stats;
      simp add: Let_def)+

lemma sql_quiet_insert: "steps sql_quiet (sql_insert r)"
  unfolding sql_insert_def by (intro sqlq.steps_rules sql_quiet_ops)

lemma sql_quiet_call:
  assumes "quiet_call sqlite_api l l'"
  shows "sql_quiet l l'"
  using assms
proof (cases rule: quiet_call.cases)
qed (simp_all only: sql_api_simps, (rule stepsD, intro sqlq.steps_seqE sql_quiet_base sql_quiet_set_stat sql_quiet_ops sql_quiet_insert; simp)+)

lemma inserted_nodes:
  assumes "distinct (map node_uri (tab_nodes (r_work s) @ ns))"
  shows "\<exists>t. forE ns insert_node s = (Inr (), t) \<and>
     tab_nodes (r_work t) = tab_nodes (r_work s) @ ns \<and> r_open t = r_open s \<and> r_stats t = r_stats s"
proof -
  obtain t where t: "forE ns insert_node s = (Inr (), t)" "r_work t = (r_work s)\<lparr>tab_nodes := tab_nodes (r_work s) @ ns\<rparr>"
    "t = s\<lparr>r_work := r_work t, r_disk := r_disk t\<rparr>"
    using insert_nodes_run [OF assms] by blast
  from t(1,2) arg_cong [OF t(3), of r_open] arg_cong [OF t(3), of r_stats] show ?thesis by simp
qed

lemma wf_uris: "nodes_wf ns \<Longrightarrow> map node_uri (map snd ns) = dict_keys ns"
  by (auto simp: nodes_wf_def)

lemma config_rows_distinct:
  assumes "config_wf c"
  shows "distinct (map node_uri (node_rows c))"
proof -
  have wf: "nodes_wf (nodes c)" using assms by (simp add: config_wf_def)
  have rows: "map node_uri (node_rows c) = dict_keys (nodes c) @ (case pending_node c of None \<Rightarrow> [] | Some n \<Rightarrow> [node_uri n])"
    using wf_uris [OF wf] by (simp add: node_rows_def split: option.split)
  show ?thesis
    unfolding rows using assms wf by (auto simp: config_wf_def nodes_wf_def split: option.split)
qed

lemma sql_save_steady:
  assumes "sql_steady s" and "config_wf c"
  shows "\<exists>t. sql_save_cluster_config c s = (Inr c, t) \<and> sql_steady t \<and> cur_term (r_stats t) = cur_term (r_stats s) \<and>
    sql_get_cluster_config t \<noteq> None"
proof -
  let ?u = "snd (seqE (execute (\<lambda>d. d\<lparr>tab_nodes := []\<rparr>)) (execute (\<lambda>d. d\<lparr>tab_settings := None\<rparr>)) s)"
  have rows: "distinct (map node_uri (map snd (nodes c) @ (case pending_node c of None \<Rightarrow> [] | Some n \<Rightarrow> [n])))"
    using config_rows_distinct [OF assms(2)] by (simp add: node_rows_def)
  then obtain v where v: "forE (map snd (nodes c)) insert_node ?u = (Inr (), v)"
    "tab_nodes (r_work v) = map snd (nodes c)" "r_open v" "r_stats v = r_stats s"
    using inserted_nodes [of ?u "map snd (nodes c)"] assms(1)
    by (auto simp: execute_def run Let_def sql_steady_def)
  obtain w where w: "(case pending_node c of None \<Rightarrow> ret () | Some n \<Rightarrow> insert_node n) v = (Inr (), w)"
    "tab_nodes (r_work w) = node_rows c" "r_open w" "r_stats w = r_stats s"
    using inserted_nodes [of v "case pending_node c of None \<Rightarrow> [] | Some n \<Rightarrow> [n]"] rows v(2-)
    by (cases "pending_node c") (auto simp: node_rows_def run split: prod.splits sum.splits)
  have "sql_save_cluster_config c s = seqE (execute (\<lambda>d. d\<lparr>tab_settings := Some (settings c)\<rparr>)) (seqE commit (ret c)) w"
    using assms(1) v(1) w(1) by (simp add: sql_save_cluster_config_def sql_steady_def ensure_open_run run execute_def)
  then show ?thesis
    using w(2-) config_rows_distinct [OF assms(2)]
    by (auto simp: execute_def commit_def run Let_def sql_steady_def sql_get_cluster_config_def db_config_def
        split: prod.splits)
qed

lemma sql_term_log: "log E = sqlite_api \<Longrightarrow> term_log E sql_steady"
proof (unfold_locales; simp only: sql_api_simps comp_def)
  fix l l' t c
  show "quiet_call sqlite_api l l' \<Longrightarrow> sql_steady l \<Longrightarrow> sql_steady l' \<and> cur_term (r_stats l') = cur_term (r_stats l) \<and>
      sql_get_cluster_config l' = sql_get_cluster_config l"
    using sql_quiet_call by (simp add: sql_get_cluster_config_def)
  show "sql_steady l \<Longrightarrow> \<exists>l'. set_stat (\<lambda>st. st\<lparr>cur_term := t\<rparr>) l = (Inr (), l') \<and> sql_steady l' \<and>
      cur_term (r_stats l') = t \<and> sql_get_cluster_config l' = sql_get_cluster_config l"
    by (auto simp: set_stat_def save_stats_def ensure_open_def replace_stats_def execute_def commit_def run Let_def
        sql_steady_def sql_get_cluster_config_def)
  show "sql_steady l \<Longrightarrow> sql_get_cluster_config l = Some c \<Longrightarrow> config_wf c"
    by (auto simp: sql_get_cluster_config_def sql_steady_def intro: db_config_wf)
qed (rule sql_save_steady)

interpretation sql_terms: term_log "E\<lparr>log := sqlite_api\<rparr>" sql_steady for E :: "(Records, 'a) env"
  by (rule sql_term_log) simp

text \<open>For LMDB the uri is the key of the nodes database.\<close>

definition lmdb_steady :: "LmdbRecords \<Rightarrow> bool" where
  "lmdb_steady s \<longleftrightarrow> l_open s \<and> nodes_wf (nodes_db (l_env s))"

abbreviation lmdb_quiet :: "LmdbRecords \<Rightarrow> LmdbRecords \<Rightarrow> bool" where
  "lmdb_quiet s t \<equiv> lmdb_steady s \<longrightarrow> lmdb_steady t \<and> cur_term (l_stats t) = cur_term (l_stats s) \<and>
     nodes_db (l_env t) = nodes_db (l_env s) \<and> settings_db (l_env t) = settings_db (l_env s)"

interpretation lmdbq: method_rel lmdb_quiet
  by unfold_locales auto

lemma lmdb_quiet_put:
  "(\<And>e. nodes_db (f e) = nodes_db e \<and> settings_db (f e) = settings_db e) \<Longrightarrow> steps lmdb_quiet (put_env f)"
  by (simp add: steps_def put_env_def run lmdb_steady_def)

lemma lmdb_quiet_modE:
  "(\<And>s. l_open (f s) = l_open s \<and> l_env (f s) = l_env s \<and> cur_term (l_stats (f s)) = cur_term (l_stats s)) \<Longrightarrow>
   steps lmdb_quiet (modE f)"
  by (simp add: steps_def run lmdb_steady_def)

text \<open>An aborted transaction leaves the databases as they were.\<close>

lemma lmdb_quiet_txn:
  assumes "steps lmdb_quiet m"
  shows "steps lmdb_quiet (txn m)"
proof (rule stepsI)
  fix s
  show "lmdb_quiet s (snd (txn m s))"
    using stepsD [OF assms, of s]
    by (cases "m s"; cases "fst (m s)") (auto simp: txn_def lmdb_steady_def)
qed

lemma lmdb_quiet_ensure: "steps lmdb_quiet lmdb_ensure_open"
  by (simp add: steps_def lmdb_ensure_open_run lmdb_steady_def)

lemma lmdb_quiet_put_stats: "steps lmdb_quiet put_stats"
  unfolding put_stats_def by (intro lmdbq.steps_rules lmdb_quiet_put) simp

lemma lmdb_quiet_set_stat: "(\<And>st. cur_term (f st) = cur_term st) \<Longrightarrow> steps lmdb_quiet (lmdb_set_stat f)"
  unfolding lmdb_set_stat_def lmdb_save_stats_def
  by (intro lmdbq.steps_rules lmdb_quiet_modE lmdb_quiet_ensure lmdb_quiet_txn lmdb_quiet_put_stats) simp

lemmas lmdb_quiet_rules = lmdbq.steps_rules lmdb_quiet_ensure lmdb_quiet_txn lmdb_quiet_put_stats
  lmdb_quiet_set_stat lmdb_quiet_put lmdb_quiet_modE

lemma lmdb_quiet_ops:
  "steps lmdb_quiet (lmdb_set_commit_index i)" "steps lmdb_quiet (lmdb_set_apply_index i)"
  "steps lmdb_quiet (lmdb_save_entry rank r)" "steps lmdb_quiet (lmdb_delete_all_from rank i)"
  "steps lmdb_quiet (lmdb_install_snapshot rank sn)" "steps lmdb_quiet (lmdb_read rank io)"
  unfolding lmdb_set_commit_index_def lmdb_set_apply_index_def lmdb_save_entry_def lmdb_delete_all_from_def
    lmdb_install_snapshot_def lmdb_read_def to_bytes_def
  by (intro lmdb_quiet_rules; simp add: Let_def)+

lemma lmdb_quiet_insert: "steps lmdb_quiet (lmdb_insert rank r)"
  unfolding lmdb_insert_def by (intro lmdbq.steps_rules lmdb_quiet_ops)

lemma lmdb_quiet_call:
  assumes "quiet_call (lmdb_api rank) l l'"
  shows "lmdb_quiet l l'"
  using assms
proof (cases rule: quiet_call.cases)
qed (simp_all only: lmdb_api_simps,
  (rule stepsD, intro lmdbq.steps_seqE lmdb_quiet_ensure lmdb_quiet_set_stat lmdb_quiet_ops lmdb_quiet_insert; simp)+)

lemma put_nodes_fold:
  "\<exists>t. forE ns put_node s = (Inr (), t) \<and> l_open t = l_open s \<and> l_stats t = l_stats s \<and>
     nodes_db (l_env t) = fold (\<lambda>n. dict_set (node_uri n) n) ns (nodes_db (l_env s))"
proof (induction ns arbitrary: s)
  case (Cons n ns)
  from Cons.IH [of "snd (put_node n s)"] show ?case by (auto simp: put_node_def put_env_def run)
qed (simp add: run)

lemma lmdb_save_steady:
  assumes "lmdb_steady s"
  shows "\<exists>t. lmdb_save_cluster_config c s = (Inr c, t) \<and> lmdb_steady t \<and> cur_term (l_stats t) = cur_term (l_stats s) \<and>
    lmdb_get_cluster_config t \<noteq> None"
proof -
  let ?u = "s\<lparr>l_env := (l_env s)\<lparr>nodes_db := []\<rparr>\<rparr>"
  obtain v where v: "forE (map snd (nodes c)) put_node ?u = (Inr (), v)" "l_open v" "l_stats v = l_stats s"
    "nodes_wf (nodes_db (l_env v))"
    using put_nodes_fold [of "map snd (nodes c)" ?u] assms nodes_wf_fold [OF nodes_wf_Nil]
    by (auto simp: lmdb_steady_def)
  obtain w where w: "(case pending_node c of None \<Rightarrow> ret () | Some n \<Rightarrow> put_node n) v = (Inr (), w)" "l_open w"
    "l_stats w = l_stats s" "nodes_wf (nodes_db (l_env w))"
    using v(2-) by (cases "pending_node c") (auto simp: put_node_def put_env_def run nodes_wf_set)
  have "lmdb_save_cluster_config c s = seqE (put_env (\<lambda>e. e\<lparr>settings_db := Some (settings c)\<rparr>)) (ret c) w"
    using assms v(1) w(1)
    by (simp add: lmdb_save_cluster_config_def lmdb_steady_def lmdb_ensure_open_run txn_def put_env_def run)
  then show ?thesis
    using w(2-) by (auto simp: put_env_def run lmdb_steady_def lmdb_get_cluster_config_def db_config_def split: prod.splits)
qed

lemma lmdb_rows_distinct: "nodes_wf ns \<Longrightarrow> distinct (map node_uri (map snd (sort_key f ns)))"
proof -
  assume wf: "nodes_wf ns"
  then have "map node_uri (map snd (sort_key f ns)) = dict_keys (sort_key f ns)" by (auto simp: nodes_wf_def)
  moreover note wf
  moreover have "distinct (dict_keys (sort_key f ns)) = distinct (dict_keys ns)"
    by (metis mset_eq_imp_distinct_iff mset_map mset_sort)
  ultimately show ?thesis by (simp only: nodes_wf_def)
qed

lemma lmdb_term_log: "log E = lmdb_api rank \<Longrightarrow> term_log E lmdb_steady"
proof (unfold_locales; simp only: lmdb_api_simps comp_def)
  fix l l' t c
  show "quiet_call (lmdb_api rank) l l' \<Longrightarrow> lmdb_steady l \<Longrightarrow> lmdb_steady l' \<and>
      cur_term (l_stats l') = cur_term (l_stats l) \<and> lmdb_get_cluster_config l' = lmdb_get_cluster_config l"
    using lmdb_quiet_call by (simp add: lmdb_get_cluster_config_def)
  show "lmdb_steady l \<Longrightarrow> \<exists>l'. lmdb_set_stat (\<lambda>st. st\<lparr>cur_term := t\<rparr>) l = (Inr (), l') \<and> lmdb_steady l' \<and>
      cur_term (l_stats l') = t \<and> lmdb_get_cluster_config l' = lmdb_get_cluster_config l"
    by (auto simp: lmdb_set_stat_def lmdb_save_stats_def lmdb_ensure_open_def put_stats_def put_env_def txn_def run
        lmdb_steady_def lmdb_get_cluster_config_def)
  show "lmdb_steady l \<Longrightarrow> lmdb_get_cluster_config l = Some c \<Longrightarrow> config_wf c"
    using lmdb_rows_distinct by (auto simp: lmdb_get_cluster_config_def lmdb_steady_def intro: db_config_wf simp del: map_map)
  show "lmdb_steady l \<Longrightarrow> \<exists>l'. lmdb_save_cluster_config c l = (Inr c, l') \<and> lmdb_steady l' \<and>
      cur_term (l_stats l') = cur_term (l_stats l) \<and> lmdb_get_cluster_config l' \<noteq> None"
    by (rule lmdb_save_steady)
qed

interpretation lmdb_terms: term_log "E\<lparr>log := lmdb_api rank\<rparr>" lmdb_steady for E :: "(LmdbRecords, 'a) env" and rank
  by (rule lmdb_term_log) simp

section \<open>Along every run\<close>

context term_log
begin

lemmas run_rel = reachable_rel

end

lemma new_node_inv: "lok l \<Longrightarrow> term_inv E lok (new_node l a c g)"
  using timer_inv_new [of l a c g] by (simp add: term_inv_def campaign_pending_def new_node_def)

lemma run_term_inv:
  assumes "term_log E lok" and "lok l" and "reachable E (new_node l a c g) s"
  shows "term_inv E lok s"
  using term_log.run_rel [OF assms(1,3)] new_node_inv [of lok l E a c g] assms(2)
  by (simp add: term_rel_def)

lemma terms_along:
  assumes "term_log E lok" and "lok l" and "reachable E (new_node l a c g) s" and "reachable E s t"
  shows "term_inv E lok t \<and> stored_term E s \<le> stored_term E t \<and> (stored_config E s \<noteq> None \<longrightarrow> stored_config E t \<noteq> None)"
  using term_log.run_rel [OF assms(1,4)] run_term_inv [OF assms(1-3)] by (simp add: term_rel_def)

text \<open>On the SQLite log the stored term of a node whose pilot sends without waiting never goes down, whatever messages,
  timers, tasks and API calls came in which order (with a pilot that waits it can go down, see \<open>Suspension_Props\<close>), and a candidate that has not been stopped always counts from the stored term, so that
  each of its campaigns is for the term right after it.\<close>

theorem terms_never_decrease:
  assumes "log E = sqlite_api" and "sql_steady l" and "reachable E (new_node l a c g) s" and "reachable E s t"
  shows "cur_term (r_stats (n_log s)) \<le> cur_term (r_stats (n_log t)) \<and>
    (role t = RoleCandidate \<and> \<not> c_stopped (candidate t) \<longrightarrow>
       c_term (candidate t) = cur_term (r_stats (n_log t)))"
  using terms_along [OF sql_term_log [OF assms(1)] assms(2-4)] assms(1) by (simp add: term_inv_def)

text \<open>The same on the LMDB log.\<close>

theorem lmdb_terms_never_decrease:
  assumes "log E = lmdb_api rank" and "lmdb_steady l" and "reachable E (new_node l a c g) s" and "reachable E s t"
  shows "cur_term (l_stats (n_log s)) \<le> cur_term (l_stats (n_log t)) \<and>
    (role t = RoleCandidate \<and> \<not> c_stopped (candidate t) \<longrightarrow>
       c_term (candidate t) = cur_term (l_stats (n_log t)))"
  using terms_along [OF lmdb_term_log [OF assms(1)] assms(2-4)] assms(1) by (simp add: term_inv_def)

text \<open>C21. On the SQLite log a stored configuration is never lost: once there is one there always is, it is
  well formed, and saving the plan of any membership change to it goes through, so the table is never left
  half written by a duplicate key.\<close>

theorem config_never_lost:
  assumes "log E = sqlite_api" and "sql_steady l" and "reachable E (new_node l a c g) s" and "reachable E s t"
    and "sql_get_cluster_config (n_log s) \<noteq> None"
  shows "\<exists>cc. sql_get_cluster_config (n_log t) = Some cc \<and> config_wf cc \<and>
    (\<forall>u p. plan_add u cc = Some p \<or> plan_remove u cc = Some p \<longrightarrow>
       fst (sql_save_cluster_config p (n_log t)) = Inr p)"
proof -
  have t: "term_inv E sql_steady t" "stored_config E t \<noteq> None"
    using terms_along [OF sql_term_log [OF assms(1)] assms(2-4)] assms(1,5) by simp_all
  then obtain cc where cc: "sql_get_cluster_config (n_log t) = Some cc" "sql_steady (n_log t)"
    using assms(1) by (auto simp: term_inv_def)
  then have wf: "config_wf cc"
    by (auto simp: sql_get_cluster_config_def sql_steady_def intro: db_config_wf)
  have "fst (sql_save_cluster_config p (n_log t)) = Inr p" if "plan_add u cc = Some p \<or> plan_remove u cc = Some p" for u p
    using sql_save_steady [OF cc(2), of p] wf_plan_add [OF wf] wf_plan_remove [OF wf] that by auto
  with cc(1) wf show ?thesis by blast
qed

subsection \<open>A campaign\<close>

definition plain_env :: "(Records, unit) env" where
  "plain_env = (example_env sqlite_api ''n1'')\<lparr>initial_config := Some (example_init\<lparr>init_use_pre_vote := False\<rparr>)\<rparr>"

definition open_log :: Records where
  "open_log = snd (sql_open (new_Records True 0 empty_db))"

definition plain_started :: "(Records, unit) node" where
  "plain_started = snd (deck_start plain_env (example_node open_log))"

definition plain_late :: "(Records, unit) node" where
  "plain_late = plain_started\<lparr>now := 1800000010\<rparr>"

definition plain_candidate :: "(Records, unit) node" where
  "plain_candidate = snd (run_callback plain_env (RoleAfterRunner ContactChecker)
     (plain_late\<lparr>timers := filter (\<lambda>p. fst p \<noteq> 0) (timers plain_late)\<rparr>))"

lemma plain_timer: "(0, 1800000000 + 15/100, RoleAfterRunner ContactChecker) \<in> set (timers plain_late)"
  by code_simp

lemma plain_now: "now plain_started \<le> 1800000010"
  by code_simp

lemma plain_runs:
  "reachable plain_env (new_node open_log () 1800000000 new_SerialNumberGenerator) plain_started"
  "reachable plain_env plain_started plain_candidate"
proof -
  show "reachable plain_env (new_node open_log () 1800000000 new_SerialNumberGenerator) plain_started"
    unfolding plain_started_def example_node_def by (rule r_into_rtranclp, rule loop_step.start)
  have "loop_step plain_env plain_started plain_late"
    unfolding plain_late_def using plain_now by (rule loop_step.tick)
  moreover have "loop_step plain_env plain_late plain_candidate"
    unfolding plain_candidate_def by (rule loop_step.timer [OF plain_timer]) (simp add: plain_late_def)
  ultimately show "reachable plain_env plain_started plain_candidate" by auto
qed

lemma plain_log: "log plain_env = sqlite_api" "sql_steady open_log"
  by (simp_all add: plain_env_def example_env_def, code_simp)

text \<open>The node after its contact timer has run out, which starts a campaign without a preliminary vote.\<close>

theorem terms_never_decrease_witness:
  "log plain_env = sqlite_api \<and> cur_term (r_stats (n_log plain_started)) \<le> cur_term (r_stats (n_log plain_candidate))"
  using terms_never_decrease [OF plain_log plain_runs] plain_log(1) by blast

theorem config_never_lost_witness:
  "sql_get_cluster_config (n_log plain_started) \<noteq> None \<and>
   (\<exists>cc. sql_get_cluster_config (n_log plain_candidate) = Some cc \<and> config_wf cc)"
proof
  show c: "sql_get_cluster_config (n_log plain_started) \<noteq> None" by code_simp
  show "\<exists>cc. sql_get_cluster_config (n_log plain_candidate) = Some cc \<and> config_wf cc"
    using config_never_lost [OF plain_log plain_runs c] by blast
qed

end
