(* ===== verification/Net_Props.thy ===== *)
theory Net_Props
  imports Net_Sim Term_Props "HOL-Library.Sublist"
begin

text \<open>
  The simulated cluster. First the composition with the engine: whatever the network does to the servers, splits,
  heals, isolation, crashes and recoveries included, each server's engine only takes steps of its own event loop,
  so what holds along the runs of one engine holds in the cluster. Then what the network itself
  promises: order of delivery, separation of the segments, healing, and where it does not keep its word.
\<close>

section \<open>Engines in a cluster\<close>

text \<open>
  A relation between engine states lifted to the servers: \<open>I\<close> holds of every engine and is kept, and
  every engine moves along \<open>R\<close>.
\<close>

definition cluster_rel :: "(uri \<Rightarrow> 'n \<Rightarrow> bool) \<Rightarrow> (uri \<Rightarrow> 'n \<Rightarrow> 'n \<Rightarrow> bool) \<Rightarrow> 'n sim \<Rightarrow> 'n sim \<Rightarrow> bool" where
  "cluster_rel I R s t \<longleftrightarrow> (\<forall>u n. engine_of (servers s u) = Some n \<and> I u n \<longrightarrow>
     (\<exists>n'. engine_of (servers t u) = Some n' \<and> I u n' \<and> R u n n'))"

text \<open>What the network needs of the engine it carries.\<close>

locale cluster =
  fixes I :: "uri \<Rightarrow> 'n \<Rightarrow> bool" and R :: "uri \<Rightarrow> 'n \<Rightarrow> 'n \<Rightarrow> bool" and H :: "'n handler"
    and halt :: "uri \<Rightarrow> 'n \<Rightarrow> 'n" and restart :: "uri \<Rightarrow> bool \<Rightarrow> bool \<Rightarrow> 'n \<Rightarrow> (exn + unit) \<times> 'n"
  assumes R_refl: "R u n n"
    and R_trans: "R u n n' \<Longrightarrow> R u n' n'' \<Longrightarrow> R u n n''"
    and handle_law: "I u n \<Longrightarrow> I u (fst (H u m n)) \<and> R u n (fst (H u m n))"
    and halt_law: "I u n \<Longrightarrow> I u (halt u n) \<and> R u n (halt u n)"
    and restart_law: "I u n \<Longrightarrow> I u (snd (restart u True save_ops n)) \<and> R u n (snd (restart u True save_ops n))"
begin

abbreviation K :: "'n sim \<Rightarrow> 'n sim \<Rightarrow> bool" where
  "K \<equiv> cluster_rel I R"

end

sublocale cluster \<subseteq> method_rel K
  by unfold_locales (auto simp: cluster_rel_def intro: R_refl, metis R_trans)

context cluster
begin

lemma server_mod_kept: "(\<And>v. engine_of (f v) = engine_of v) \<Longrightarrow> steps K (server_mod u f)"
  by (auto simp: steps_def server_mod_def run cluster_rel_def R_refl)

lemma modE_kept: "(\<And>s. servers (f s) = servers s) \<Longrightarrow> steps K (modE f)"
  by (auto simp: steps_def run cluster_rel_def R_refl)

lemma net_mod_kept: "steps K (net_mod i f)"
  unfolding net_mod_def by (rule modE_kept) simp

lemmas prim_kept = server_mod_kept net_mod_kept modE_kept

lemma queue_kept:
  "steps K (change_networks u i)" "steps K (block_network u)" "steps K (unblock_network u d)"
  "steps K (clear_all_msgs u)" "steps K (hold_in u m)" "steps K (hold_out u m)"
  unfolding change_networks_def block_network_def unblock_network_def clear_all_msgs_def hold_in_def hold_out_def
  by (intro steps_rules prim_kept; simp add: engine_of_def split: option.split)+

lemma net_kept:
  "steps K (Network_add_node i u)" "steps K (Network_remove_node i u)" "steps K (Network_post_in_message i m)"
  unfolding Network_add_node_def Network_remove_node_def Network_post_in_message_def
  by (intro steps_rules prim_kept queue_kept; simp add: engine_of_def split: option.split)+

lemma new_Network_kept: "steps K (new_Network name us)"
  unfolding new_Network_def by (intro steps_rules prim_kept net_kept) simp

lemma steps_queue:
  "steps K a \<Longrightarrow> (\<And>y ys. xs = y # ys \<Longrightarrow> steps K (f y ys)) \<Longrightarrow> steps K (case xs of [] \<Rightarrow> a | y # ys \<Rightarrow> f y ys)"
  by (cases xs) simp_all

lemma next_out_kept: "steps K (do_next_out_msg i u)"
  unfolding do_next_out_msg_def
  by (intro steps_rules steps_queue prim_kept queue_kept net_kept; simp add: engine_of_def split: option.split)

text \<open>The engine a server has when its message is taken out of the queue is the one that handles it.\<close>

lemma handled_kept:
  assumes "deck_state (servers s u) = Some n"
  shows "K s (snd (server_mod u (\<lambda>v. v\<lparr>deck_state := Some (fst (H u m n)),
    out_messages := out_messages v @ snd (H u m n)\<rparr>) s))"
  using assms handle_law [of u n m] R_refl
  by (auto simp: server_mod_def run cluster_rel_def engine_of_def)

lemma next_in_kept: "steps K (do_next_in_msg H u)"
proof (rule stepsI)
  fix s :: "'n sim"
  let ?v = "servers s u"
  show "K s (snd (do_next_in_msg H u s))"
  proof (cases "in_messages ?v")
    case Nil
    then show ?thesis by (simp add: do_next_in_msg_def run rel_refl)
  next
    case (Cons m rest)
    let ?w = "snd (server_mod u (\<lambda>v. v\<lparr>in_messages := rest\<rparr>) s)"
    have "steps K (server_mod u (\<lambda>v. v\<lparr>in_messages := rest\<rparr>))"
      by (rule server_mod_kept) (simp add: engine_of_def split: option.split)
    then have taken: "K s ?w" by (rule stepsD)
    have held: "K ?w (snd (hold_in u m ?w))" by (rule stepsD) (rule queue_kept)
    have "snd (do_next_in_msg H u s) = (if block_messages ?v then snd (hold_in u m ?w)
        else case deck_state ?v of None \<Rightarrow> ?w
        | Some n \<Rightarrow> snd (server_mod u (\<lambda>v. v\<lparr>deck_state := Some (fst (H u m n)), out_messages := out_messages v @ snd (H u m n)\<rparr>) ?w))"
      using Cons by (simp add: do_next_in_msg_def server_mod_def run split: prod.split sum.split option.split)
    moreover have "K ?w (snd (server_mod u (\<lambda>v. v\<lparr>deck_state := Some (fst (H u m n)),
        out_messages := out_messages v @ snd (H u m n)\<rparr>) ?w))" if "deck_state ?v = Some n" for n
      using that by (intro handled_kept) (simp add: server_mod_def run)
    ultimately show ?thesis using taken held by (auto intro: rel_trans split: option.split)
  qed
qed

lemma node_next_kept: "steps K (node_next_in H u)" "steps K (node_next_out u)"
  unfolding node_next_in_def node_next_out_def by (intro steps_rules next_in_kept next_out_kept)+

lemma turn_kept: "steps K (node_turn H out_only u acc)"
  unfolding node_turn_def guard_deck_def
  by (intro steps_rules prim_kept node_next_kept; simp add: engine_of_def split: option.split)

lemma deliver_kept: "steps K (deliver_rounds H i out_only fuel l)"
  by (induction fuel arbitrary: l)
    (simp_all add: steps_ret, intro steps_rules turn_kept prim_kept, simp_all add: engine_of_def split: option.split)

lemma segments_kept: "steps K (deliver_segments H out_only fuel is ls)"
  by (induction "is" arbitrary: ls)
    (simp_all add: steps_ret Network_deliver_all_pending_def, intro steps_rules deliver_kept)

lemma manager_kept:
  "steps K (NetManager_deliver_all_pending H q out_only fuel)" "steps K (NetManager_add_node u)"
  "steps K (NetManager_remove_node u)" "steps K (NetManager_post_in_message m)" "steps K (split_part n part)"
  "steps K (unsplit_node i u)" "steps K (setup_network us)"
  unfolding NetManager_deliver_all_pending_def NetManager_add_node_def NetManager_remove_node_def
    NetManager_post_in_message_def split_part_def unsplit_node_def the_full_def setup_network_def
  by (intro steps_rules steps_queue segments_kept net_kept prim_kept new_Network_kept; simp)+

lemma split_kept: "steps K (split_network segs)" "steps K unsplit"
  unfolding split_network_def unsplit_def the_full_def
  by (intro steps_rules manager_kept prim_kept; simp)+

lemma crash_kept: "steps K (simulate_crash halt u)"
proof -
  have gone: "steps K (server_mod u (\<lambda>v. v\<lparr>in_messages := [], out_messages := [], kept_state := engine_of v,
      deck_state := None\<rparr>))"
    by (auto simp: steps_def server_mod_def run cluster_rel_def engine_of_def R_refl split: option.splits)
  have stop: "K s (snd (server_mod u (\<lambda>v. v\<lparr>deck_state := Some (halt u n), am_crashed := True\<rparr>) s))"
    if "deck_state (servers s u) = Some n" for s n
    using that halt_law [of u n] R_refl by (auto simp: server_mod_def run cluster_rel_def engine_of_def)
  show ?thesis
  proof (rule stepsI)
    fix s
    show "K s (snd (simulate_crash halt u s))"
    proof (cases "deck_state (servers s u)")
      case None
      then show ?thesis by (simp add: simulate_crash_def run rel_refl)
    next
      case (Some n)
      have "steps K (bindE (getsE (\<lambda>s. sv_network (servers s u))) (\<lambda>net. bindE (some_or AttributeError net) (\<lambda>_.
          seqE (isolate_server u) (server_mod u (\<lambda>v. v\<lparr>in_messages := [], out_messages := [],
            kept_state := engine_of v, deck_state := None\<rparr>)))))"
        unfolding isolate_server_def by (intro steps_rules gone queue_kept)
      from this stop [OF Some] show ?thesis
        unfolding simulate_crash_def
        by (subst run_bindE, subst run_getsE) (simp add: Some, rule seqE_rel, blast, rule stepsD)
    qed
  qed
qed

lemma recover_kept: "steps K (recover_from_crash restart u deliver True save_ops)"
proof (rule stepsI)
  fix s
  show "K s (snd (recover_from_crash restart u deliver True save_ops s))"
  proof (cases "engine_of (servers s u)")
    case None
    then show ?thesis by (simp add: recover_from_crash_def engine_of_def run rel_refl split: option.splits)
  next
    case (Some n)
    have up: "K s (snd (server_mod u (\<lambda>v. v\<lparr>am_crashed := False, deck_state := Some (snd (restart u True save_ops n)),
        kept_state := None\<rparr>) s))"
      using Some restart_law [of u n save_ops] R_refl by (auto simp: server_mod_def run cluster_rel_def engine_of_def)
    have "steps K (case fst (restart u True save_ops n) of Inl e \<Rightarrow> throw e
        | Inr _ \<Rightarrow> bindE (some_or AttributeError (sv_network (servers s u))) (\<lambda>_. reconnect_server u deliver))"
      unfolding reconnect_server_def by (cases "fst (restart u True save_ops n)") (simp_all, (intro steps_rules queue_kept)+)
    from this up Some show ?thesis
      unfolding recover_from_crash_def
      by (subst run_bindE, subst run_getsE) (simp, rule seqE_rel, blast, rule stepsD)
  qed
qed

end

subsection \<open>Terms in the cluster\<close>

lemma handle_step: "loop_step (E u) n (fst (engine_on_message E u m n))"
  unfolding engine_on_message_def Let_def by (simp add: loop_step.receive)

lemma halt_step: "loop_step (E u) n (engine_halt E u n)"
  unfolding engine_halt_def by (rule loop_step.stop)

lemma test_node_inv: "lok l \<Longrightarrow> term_inv E lok (test_node l a c g)"
  using timer_inv_new [of l a c g] by (simp add: term_inv_def campaign_pending_def new_node_def test_node_def timer_inv_def new_Deck_def)

context term_log
begin

lemma step_kept: "J n \<Longrightarrow> loop_step E n n' \<Longrightarrow> J n' \<and> stored_term E n \<le> stored_term E n'"
  using loop_step_rel [of n n'] by (simp add: term_rel_def)

text \<open>A new deck on the log of an old one.\<close>

lemma restart_kept:
  assumes "J n"
  shows "J (snd (deck_start E (test_node (n_log n) a clock g))) \<and>
    stored_term E n \<le> stored_term E (snd (deck_start E (test_node (n_log n) a clock g)))"
  using step_kept [OF test_node_inv loop_step.start, of "n_log n" a clock g] J_lok [OF assms]
  by (simp add: test_node_def new_node_def)

end

lemma engine_cluster:
  assumes "\<And>u. term_log (E u) lok"
  shows "cluster (\<lambda>u. term_inv (E u) lok) (\<lambda>u n n'. stored_term (E u) n \<le> stored_term (E u) n')
    (engine_on_message E) (engine_halt E) (engine_restart E fresh_log fresh_ops clock g)"
proof
  fix u n n' n'' m save_ops
  assume "term_inv (E u) lok n"
  with term_log.step_kept [OF assms this] term_log.restart_kept [OF assms this]
  show "term_inv (E u) lok (fst (engine_on_message E u m n)) \<and> stored_term (E u) n \<le> stored_term (E u) (fst (engine_on_message E u m n))"
    "term_inv (E u) lok (engine_halt E u n) \<and> stored_term (E u) n \<le> stored_term (E u) (engine_halt E u n)"
    "term_inv (E u) lok (snd (engine_restart E fresh_log fresh_ops clock g u True save_ops n)) \<and>
     stored_term (E u) n \<le> stored_term (E u) (snd (engine_restart E fresh_log fresh_ops clock g u True save_ops n))"
    using handle_step [of E u n m] halt_step [of E u n] by (simp_all add: engine_restart_def)
qed auto

interpretation sql_cluster: cluster "\<lambda>u. term_inv ((E u)\<lparr>log := sqlite_api\<rparr>) sql_steady"
  "\<lambda>u n n'. stored_term ((E u)\<lparr>log := sqlite_api\<rparr>) n \<le> stored_term ((E u)\<lparr>log := sqlite_api\<rparr>) n'"
  "engine_on_message (\<lambda>u. (E u)\<lparr>log := sqlite_api\<rparr>)" "engine_halt (\<lambda>u. (E u)\<lparr>log := sqlite_api\<rparr>)"
  "engine_restart (\<lambda>u. (E u)\<lparr>log := sqlite_api\<rparr>) fresh_log fresh_ops clock g"
  for E :: "uri \<Rightarrow> (Records, 'a) env" and fresh_log fresh_ops clock g
  by (rule engine_cluster) (rule sql_term_log, simp)

text \<open>
  What can happen in a simulated cluster: any step of an engine's event loop, whose messages are queued, and the
  operations of the network; a crashed server comes back with its log.
\<close>

inductive sim_step :: "(uri \<Rightarrow> ('l, 'a) env) \<Rightarrow> ('l, 'a) node sim \<Rightarrow> ('l, 'a) node sim \<Rightarrow> bool" for E where
  engine: "deck_state (servers s u) = Some n \<Longrightarrow> loop_step (E u) n n' \<Longrightarrow>
    sim_step E s (snd (server_mod u (\<lambda>v. v\<lparr>deck_state := Some n', out_messages := out_messages v @
      queue_sent (now n') (serials n') (drop (length (outbox n)) (outbox n'))\<rparr>) s))"
| deliver: "sim_step E s (snd (NetManager_deliver_all_pending (engine_on_message E) quorum_only out_only fuel s))"
| next_in: "sim_step E s (snd (node_next_in (engine_on_message E) u s))"
| next_out: "sim_step E s (snd (node_next_out u s))"
| main_net: "sim_step E s (snd (setup_network us s))"
| add: "sim_step E s (snd (NetManager_add_node u s))"
| remove: "sim_step E s (snd (NetManager_remove_node u s))"
| post: "sim_step E s (snd (NetManager_post_in_message m s))"
| split: "sim_step E s (snd (split_network segs s))"
| heal: "sim_step E s (snd (unsplit s))"
| isolate: "sim_step E s (snd (isolate_server u s))"
| reconnect: "sim_step E s (snd (reconnect_server u deliver s))"
| clear: "sim_step E s (snd (clear_all_msgs u s))"
| crash: "sim_step E s (snd (simulate_crash (engine_halt E) u s))"
| recover: "sim_step E s (snd (recover_from_crash (engine_restart E fresh_log fresh_ops clock g) u deliver True save_ops s))"

abbreviation sim_run :: "(uri \<Rightarrow> ('l, 'a) env) \<Rightarrow> ('l, 'a) node sim \<Rightarrow> ('l, 'a) node sim \<Rightarrow> bool" where
  "sim_run E \<equiv> (sim_step E)\<^sup>*\<^sup>*"

lemma sim_step_rel:
  assumes tl: "\<And>u. term_log (E u) lok" and "sim_step E s t"
  shows "cluster_rel (\<lambda>u. term_inv (E u) lok) (\<lambda>u n n'. stored_term (E u) n \<le> stored_term (E u) n') s t"
  using assms(2)
proof cases
  case (engine u n n')
  then show ?thesis
    using term_log.step_kept [OF tl]
    by (auto simp: server_mod_def run cluster_rel_def engine_of_def)
next
  case (recover fresh_log fresh_ops clock g u deliver save_ops)
  then show ?thesis using stepsD [OF cluster.recover_kept [OF engine_cluster [OF tl]]] by simp
next
  case (next_in u)
  then show ?thesis
    using stepsD [OF cluster.node_next_kept(1) [OF engine_cluster [OF tl]]] by simp
next
  case (next_out u)
  then show ?thesis
    using stepsD [OF cluster.node_next_kept(2) [OF engine_cluster [OF tl]]] by simp
qed (use stepsD [OF cluster.manager_kept(1) [OF engine_cluster [OF tl]]] stepsD [OF cluster.manager_kept(2) [OF engine_cluster [OF tl]]]
    stepsD [OF cluster.manager_kept(3) [OF engine_cluster [OF tl]]] stepsD [OF cluster.manager_kept(4) [OF engine_cluster [OF tl]]]
    stepsD [OF cluster.manager_kept(7) [OF engine_cluster [OF tl]]]
    stepsD [OF cluster.split_kept(1) [OF engine_cluster [OF tl]]] stepsD [OF cluster.split_kept(2) [OF engine_cluster [OF tl]]]
    stepsD [OF cluster.queue_kept(2) [OF engine_cluster [OF tl]]] stepsD [OF cluster.queue_kept(3) [OF engine_cluster [OF tl]]]
    stepsD [OF cluster.queue_kept(4) [OF engine_cluster [OF tl]]] stepsD [OF cluster.crash_kept [OF engine_cluster [OF tl]]]
    in \<open>simp_all add: isolate_server_def reconnect_server_def\<close>)

lemma sim_run_rel:
  assumes "\<And>u. term_log (E u) lok" and "sim_run E s t"
  shows "cluster_rel (\<lambda>u. term_inv (E u) lok) (\<lambda>u n n'. stored_term (E u) n \<le> stored_term (E u) n') s t"
  using assms(2)
proof (induction rule: rtranclp_induct)
  case base
  show ?case by (auto simp: cluster_rel_def)
next
  case (step t u)
  then show ?case using sim_step_rel [OF assms(1) step(2)] unfolding cluster_rel_def by (meson order_trans)
qed

text \<open>C12. In a simulated cluster of nodes on SQLite logs no server's term ever goes down, however messages are
  delivered, delayed or lost, the network is split and healed, and servers are isolated, crash and come back
  on their logs.\<close>

theorem cluster_terms_never_decrease:
  assumes "\<And>u. log (E u) = sqlite_api" and "\<And>u. sql_steady (ls u)"
    and "sim_run E (new_NetManager (\<lambda>u. new_server (test_node (ls u) (ops0 u) clock g))) s" and "sim_run E s t"
    and "engine_of (servers s u) = Some n"
  shows "\<exists>n'. engine_of (servers t u) = Some n' \<and> cur_term (r_stats (n_log n)) \<le> cur_term (r_stats (n_log n'))"
proof -
  have tl: "term_log (E u) sql_steady" for u by (rule sql_term_log [OF assms(1)])
  let ?s0 = "new_NetManager (\<lambda>u. new_server (test_node (ls u) (ops0 u) clock g))"
  have "engine_of (servers ?s0 u) = Some (test_node (ls u) (ops0 u) clock g)"
    by (simp add: new_NetManager_def new_server_def engine_of_def)
  moreover have "term_inv (E u) sql_steady (test_node (ls u) (ops0 u) clock g)" using assms(2) by (simp add: test_node_inv)
  ultimately have "term_inv (E u) sql_steady n"
    using sim_run_rel [OF tl assms(3)] assms(5) unfolding cluster_rel_def by fastforce
  then show ?thesis
    using sim_run_rel [OF tl assms(4)] assms(1,5) unfolding cluster_rel_def by fastforce
qed

section \<open>Order of delivery\<close>

abbreviation sent_by :: "message \<Rightarrow> uri" where
  "sent_by m \<equiv> sender (msg_hdr_of m)"

abbreviation sent_to :: "message \<Rightarrow> uri option" where
  "sent_to m \<equiv> receiver (msg_hdr_of m)"

definition from_to :: "uri \<Rightarrow> uri \<Rightarrow> message \<Rightarrow> bool" where
  "from_to a b m \<longleftrightarrow> sent_by m = a \<and> sent_to m = Some b"

text \<open>What is on its way from one server to another, in the order it was sent.\<close>

definition channel :: "'n sim \<Rightarrow> uri \<Rightarrow> uri \<Rightarrow> message list" where
  "channel s a b = filter (from_to a b) (in_messages (servers s b)) @ filter (from_to a b) (out_messages (servers s a))"

abbreviation handled :: "ledger \<Rightarrow> uri \<Rightarrow> uri \<Rightarrow> message list" where
  "handled l a b \<equiv> filter (from_to a b) (in_ledger l)"

definition addressed :: "uri list \<Rightarrow> uri \<Rightarrow> message \<Rightarrow> bool" where
  "addressed us a m \<longleftrightarrow> sent_by m = a \<and> (\<exists>b \<in> set us. sent_to m = Some b)"

text \<open>
  A network that is up: its servers run and are not blocked, what they send carries their name and goes to
  servers of the network.
\<close>

definition open_net :: "nat \<Rightarrow> 'n sim \<Rightarrow> bool" where
  "open_net i s \<longleftrightarrow> distinct (nodes_on s i) \<and> (\<forall>u \<in> set (nodes_on s i).
     \<not> block_messages (servers s u) \<and> sv_network (servers s u) = Some i \<and> deck_state (servers s u) \<noteq> None \<and>
     (\<forall>m \<in> set (out_messages (servers s u)). addressed (nodes_on s i) u m) \<and>
     (\<forall>m \<in> set (in_messages (servers s u)). sent_to m = Some u))"

definition talks_within :: "uri list \<Rightarrow> 'n handler \<Rightarrow> bool" where
  "talks_within us H \<longleftrightarrow> (\<forall>u m n. \<forall>x \<in> set (snd (H u m n)). addressed us u x)"

subsection \<open>One server's turn\<close>

lemma next_in_run:
  assumes "open_net i s" and "u \<in> set (nodes_on s i)" and "in_messages (servers s u) = m # rest"
  obtains n where "node_next_in H u s = (Inr (Some m), s\<lparr>servers := (servers s)(u := (servers s u)\<lparr>in_messages := rest,
    deck_state := Some (fst (H u m n)), out_messages := out_messages (servers s u) @ snd (H u m n)\<rparr>)\<rparr>)"
  using assms
  by (auto simp: open_net_def node_next_in_def do_next_in_msg_def server_mod_def run)

lemma next_out_run:
  assumes "open_net i s" and "u \<in> set (nodes_on s i)" and "out_messages (servers s u) = m # rest"
  obtains w where "w \<in> set (nodes_on s i)" "sent_to m = Some w" "sent_by m = u"
    "node_next_out u s = (Inr (Some m), s\<lparr>servers :=
       (let sv = (servers s)(u := (servers s u)\<lparr>out_messages := rest\<rparr>) in
        sv(w := (sv w)\<lparr>in_messages := in_messages (sv w) @ [m]\<rparr>))\<rparr>)"
proof -
  have "addressed (nodes_on s i) u m" using assms by (simp add: open_net_def)
  then obtain w where w: "w \<in> set (nodes_on s i)" "sent_to m = Some w" "sent_by m = u"
    by (auto simp: addressed_def)
  show thesis
    by (rule that [OF w])
      (use assms w in \<open>auto simp: open_net_def node_next_out_def do_next_out_msg_def Network_post_in_message_def
        server_mod_def run Let_def\<close>)
qed

text \<open>The effect on queues and channels; \<open>oo\<close> is the \<open>out_only\<close> flag.\<close>

definition flow :: "bool \<Rightarrow> nat \<Rightarrow> 'n sim \<Rightarrow> ledger \<Rightarrow> 'n sim \<Rightarrow> ledger \<Rightarrow> bool" where
  "flow oo i s l t l' \<longleftrightarrow> open_net i t \<and> nets t = nets s \<and>
     (\<forall>a \<in> set (nodes_on s i). \<forall>b \<in> set (nodes_on s i).
        prefix (handled l a b @ channel s a b) (handled l' a b @ channel t a b)) \<and>
     (oo \<longrightarrow> in_ledger l' = in_ledger l \<and>
        (\<forall>a \<in> set (nodes_on s i). \<forall>b \<in> set (nodes_on s i). channel t a b = channel s a b))"

lemma flow_trans: "flow oo i s l t l' \<Longrightarrow> flow oo i t l' u l'' \<Longrightarrow> flow oo i s l u l''"
  unfolding flow_def using prefix_order.trans by (simp, blast)

lemma in_flow:
  assumes op: "open_net i s" and u: "u \<in> set (nodes_on s i)" and q: "in_messages (servers s u) = m # rest"
    and H: "talks_within (nodes_on s i) H"
  shows "flow False i s l (s\<lparr>servers := (servers s)(u := (servers s u)\<lparr>in_messages := rest,
      deck_state := Some (fst (H u m n)), out_messages := out_messages (servers s u) @ snd (H u m n)\<rparr>)\<rparr>)
    (l\<lparr>in_ledger := in_ledger l @ [m], moved := k\<rparr>)"
proof -
  let ?t = "s\<lparr>servers := (servers s)(u := (servers s u)\<lparr>in_messages := rest,
      deck_state := Some (fst (H u m n)), out_messages := out_messages (servers s u) @ snd (H u m n)\<rparr>)\<rparr>"
  have m: "sent_to m = Some u" using op u q by (auto simp: open_net_def)
  have "open_net i ?t" using op u q H by (auto simp: open_net_def talks_within_def)
  moreover have "prefix (handled l a b @ channel s a b) (filter (from_to a b) (in_ledger l @ [m]) @ channel ?t a b)" for a b
    using q m by (auto simp: channel_def from_to_def)
  ultimately show ?thesis by (simp add: flow_def)
qed

lemma out_flow:
  assumes op: "open_net i s" and u: "u \<in> set (nodes_on s i)" and q: "out_messages (servers s u) = m # rest"
    and w: "w \<in> set (nodes_on s i)" "sent_to m = Some w" "sent_by m = u"
  shows "flow oo i s l (s\<lparr>servers := (let sv = (servers s)(u := (servers s u)\<lparr>out_messages := rest\<rparr>) in
        sv(w := (sv w)\<lparr>in_messages := in_messages (sv w) @ [m]\<rparr>))\<rparr>)
    (l\<lparr>out_ledger := out_ledger l @ [m], moved := k\<rparr>)"
proof -
  let ?t = "s\<lparr>servers := (let sv = (servers s)(u := (servers s u)\<lparr>out_messages := rest\<rparr>) in
        sv(w := (sv w)\<lparr>in_messages := in_messages (sv w) @ [m]\<rparr>))\<rparr>"
  have "open_net i ?t" using op u q w by (auto simp: open_net_def Let_def)
  moreover have "channel ?t a b = channel s a b" for a b
    using q w(2,3) by (auto simp: channel_def from_to_def Let_def)
  ultimately show ?thesis by (simp add: flow_def)
qed

text \<open>\<open>am_paused\<close> is no queue.\<close>

lemma pause_flow: "open_net i s \<Longrightarrow> flow oo i s l (s\<lparr>servers := (servers s)(u := (servers s u)\<lparr>am_paused := p\<rparr>)\<rparr>) l"
  by (auto simp: flow_def open_net_def channel_def)

lemma flow_refl: "open_net i s \<Longrightarrow> flow oo i s l s l"
  by (simp add: flow_def)

definition pending_out :: "nat \<Rightarrow> 'n sim \<Rightarrow> nat" where
  "pending_out i s = (\<Sum>u \<in> set (nodes_on s i). length (out_messages (servers s u)))"

text \<open>The queues a round looks at.\<close>

definition idle :: "bool \<Rightarrow> uri \<Rightarrow> 'n sim \<Rightarrow> bool" where
  "idle oo u s \<longleftrightarrow> (oo \<or> in_messages (servers s u) = []) \<and> out_messages (servers s u) = []"

definition same_queues :: "'n sim \<Rightarrow> 'n sim \<Rightarrow> bool" where
  "same_queues s t \<longleftrightarrow> (\<forall>u. in_messages (servers t u) = in_messages (servers s u) \<and>
     out_messages (servers t u) = out_messages (servers s u))"

lemma guard_run: "m s = (Inr r, t) \<Longrightarrow> guard_deck u m s = (Inr (Inr r), t)"
  by (simp add: guard_deck_def run)

lemma pending_less:
  assumes "nets t = nets s" and "u \<in> set (nodes_on s i)"
    and "length (out_messages (servers t u)) < length (out_messages (servers s u))"
    and "\<And>x. length (out_messages (servers t x)) \<le> length (out_messages (servers s x))"
  shows "pending_out i t < pending_out i s"
  unfolding pending_out_def assms(1) using assms(2-) by (intro sum_strict_mono_ex1) auto

lemma out_turn:
  assumes op: "open_net i s" and u: "u \<in> set (nodes_on s i)"
  shows "\<exists>t r. (if out_messages (servers s u) \<noteq> [] then guard_deck u (node_next_out u) else ret (Inr None)) s = (Inr (Inr r), t) \<and>
    (case r of None \<Rightarrow> t = s \<and> out_messages (servers s u) = []
     | Some m \<Rightarrow> (\<forall>oo l k. flow oo i s l t (l\<lparr>out_ledger := out_ledger l @ [m], moved := k\<rparr>)) \<and> pending_out i t < pending_out i s)"
proof (cases "out_messages (servers s u)")
  case Nil
  then show ?thesis by (simp add: run)
next
  case (Cons m rest)
  obtain w where w: "w \<in> set (nodes_on s i)" "sent_to m = Some w" "sent_by m = u" "node_next_out u s = (Inr (Some m), s\<lparr>servers :=
       (let sv = (servers s)(u := (servers s u)\<lparr>out_messages := rest\<rparr>) in
        sv(w := (sv w)\<lparr>in_messages := in_messages (sv w) @ [m]\<rparr>))\<rparr>)"
    using next_out_run [OF op u Cons] by blast
  have "pending_out i (s\<lparr>servers := (let sv = (servers s)(u := (servers s u)\<lparr>out_messages := rest\<rparr>) in
        sv(w := (sv w)\<lparr>in_messages := in_messages (sv w) @ [m]\<rparr>))\<rparr>) < pending_out i s"
    using u Cons by (intro pending_less [where u = u]) (auto simp: Let_def)
  then show ?thesis
    using guard_run [of "node_next_out u" s "Some m"] w(4) out_flow [OF op u Cons w(1-3)] Cons by auto
qed

lemma in_turn:
  assumes op: "open_net i s" and u: "u \<in> set (nodes_on s i)" and H: "oo \<or> talks_within (nodes_on s i) H"
  shows "\<exists>t r. (if in_messages (servers s u) \<noteq> [] \<and> \<not> oo then guard_deck u (node_next_in H u) else ret (Inr None)) s = (Inr (Inr r), t) \<and>
    (case r of None \<Rightarrow> t = s \<and> (oo \<or> in_messages (servers s u) = [])
     | Some m \<Rightarrow> \<not> oo \<and> (\<forall>l k. flow oo i s l t (l\<lparr>in_ledger := in_ledger l @ [m], moved := k\<rparr>)))"
proof (cases "in_messages (servers s u) \<noteq> [] \<and> \<not> oo")
  case False
  then show ?thesis by (auto simp: run)
next
  case True
  then obtain m rest where q: "in_messages (servers s u) = m # rest" by (cases "in_messages (servers s u)") auto
  obtain n where "node_next_in H u s = (Inr (Some m), s\<lparr>servers := (servers s)(u := (servers s u)\<lparr>in_messages := rest,
    deck_state := Some (fst (H u m n)), out_messages := out_messages (servers s u) @ snd (H u m n)\<rparr>)\<rparr>)"
    using next_in_run [OF op u q] by blast
  from guard_run [of "node_next_in H u", OF this] in_flow [OF op u q] H True show ?thesis by auto
qed

lemma turn_run:
  assumes op: "open_net i s" and u: "u \<in> set (nodes_on s i)" and H: "oo \<or> talks_within (nodes_on s i) H"
  shows "\<exists>t any' l'. node_turn H oo u (any, l) s = (Inr (any', l'), t) \<and> flow oo i s l t l' \<and>
    (any' \<or> \<not> any \<and> idle oo u s \<and> same_queues s t) \<and>
    (oo \<longrightarrow> pending_out i t \<le> pending_out i s \<and> (any' \<longrightarrow> any \<or> pending_out i t < pending_out i s))"
proof -
  let ?s1 = "s\<lparr>servers := (servers s)(u := (servers s u)\<lparr>am_paused := False\<rparr>)\<rparr>"
  have f1: "flow oo i s l ?s1 l" by (rule pause_flow [OF op])
  then have op1: "open_net i ?s1" by (simp add: flow_def)
  have q1: "same_queues s ?s1" "idle oo u ?s1 = idle oo u s" "pending_out i ?s1 = pending_out i s"
    by (auto simp: same_queues_def idle_def pending_out_def intro!: sum.cong)
  obtain t1 r where t1: "(if in_messages (servers ?s1 u) \<noteq> [] \<and> \<not> oo then guard_deck u (node_next_in H u) else ret (Inr None)) ?s1 = (Inr (Inr r), t1)"
    "case r of None \<Rightarrow> t1 = ?s1 \<and> (oo \<or> in_messages (servers ?s1 u) = [])
     | Some m \<Rightarrow> \<not> oo \<and> (\<forall>l k. flow oo i ?s1 l t1 (l\<lparr>in_ledger := in_ledger l @ [m], moved := k\<rparr>))"
    using in_turn [OF op1, of u oo H] u H by auto
  define acc1 where "acc1 = (case r of None \<Rightarrow> (any, l)
      | Some m \<Rightarrow> (True, l\<lparr>in_ledger := in_ledger l @ [m], moved := moved l + 1\<rparr>))"
  have f2: "flow oo i ?s1 l t1 (snd acc1)" using t1(2) flow_refl [OF op1] by (auto simp: acc1_def split: option.splits)
  then have op2: "open_net i t1" and n2: "nets t1 = nets s" by (simp_all add: flow_def)
  obtain t2 r2 where t2: "(if out_messages (servers t1 u) \<noteq> [] then guard_deck u (node_next_out u) else ret (Inr None)) t1 = (Inr (Inr r2), t2)"
    "case r2 of None \<Rightarrow> t2 = t1 \<and> out_messages (servers t1 u) = []
     | Some m \<Rightarrow> (\<forall>oo l k. flow oo i t1 l t2 (l\<lparr>out_ledger := out_ledger l @ [m], moved := k\<rparr>)) \<and> pending_out i t2 < pending_out i t1"
    using out_turn [OF op2, of u] u n2 by auto
  define acc2 where "acc2 = (case r2 of None \<Rightarrow> acc1
      | Some m \<Rightarrow> (True, (snd acc1)\<lparr>out_ledger := out_ledger (snd acc1) @ [m], moved := moved (snd acc1) + 1\<rparr>))"
  have f3: "flow oo i t1 (snd acc1) t2 (snd acc2)" using t2(2) flow_refl [OF op2] by (auto simp: acc2_def split: option.splits)
  have run: "node_turn H oo u (any, l) s = (Inr acc2, t2)"
    unfolding node_turn_def acc2_def acc1_def Let_def
    by (simp only: server_mod_def run_seqE run_modE run_bindE run_getsE prod.case sum.case t1(1) t2(1) acc1_def snd_conv)
      (simp add: run split: option.split)
  have "flow oo i s l t2 (snd acc2)" by (rule flow_trans [OF f1 flow_trans [OF f2 f3]])
  moreover have "fst acc2 \<or> \<not> any \<and> idle oo u s \<and> same_queues s t2"
    using t1(2) t2(2) q1(1,2) by (cases r; cases r2) (auto simp: acc1_def acc2_def idle_def)
  moreover have "oo \<longrightarrow> pending_out i t2 \<le> pending_out i s \<and> (fst acc2 \<longrightarrow> any \<or> pending_out i t2 < pending_out i s)"
    using t1(2) t2(2) q1(3) by (cases r; cases r2) (auto simp: acc1_def acc2_def)
  ultimately show ?thesis
    using run by (intro exI [of _ t2] exI [of _ "fst acc2"] exI [of _ "snd acc2"]) simp
qed

subsection \<open>Rounds\<close>

lemma round_run:
  assumes "open_net i s" and "set us \<subseteq> set (nodes_on s i)" and "oo \<or> talks_within (nodes_on s i) H"
  shows "\<exists>t any' l'. foldE us (node_turn H oo) (any, l) s = (Inr (any', l'), t) \<and> flow oo i s l t l' \<and>
    (any' \<or> \<not> any \<and> (\<forall>u \<in> set us. idle oo u s) \<and> same_queues s t) \<and>
    (oo \<longrightarrow> pending_out i t \<le> pending_out i s \<and> (any' \<longrightarrow> any \<or> pending_out i t < pending_out i s))"
  using assms
proof (induction us arbitrary: s any l)
  case Nil
  then show ?case by (auto simp: run flow_refl same_queues_def)
next
  case (Cons u us)
  obtain s1 any1 l1 where 1: "node_turn H oo u (any, l) s = (Inr (any1, l1), s1)" "flow oo i s l s1 l1"
    "any1 \<or> \<not> any \<and> idle oo u s \<and> same_queues s s1"
    "oo \<longrightarrow> pending_out i s1 \<le> pending_out i s \<and> (any1 \<longrightarrow> any \<or> pending_out i s1 < pending_out i s)"
    using turn_run [OF Cons.prems(1) _ Cons.prems(3), of u any l] Cons.prems(2) by auto
  have n: "nets s1 = nets s" "open_net i s1" using 1(2) by (simp_all add: flow_def)
  obtain t any' l' where 2: "foldE us (node_turn H oo) (any1, l1) s1 = (Inr (any', l'), t)" "flow oo i s1 l1 t l'"
    "any' \<or> \<not> any1 \<and> (\<forall>u \<in> set us. idle oo u s1) \<and> same_queues s1 t"
    "oo \<longrightarrow> pending_out i t \<le> pending_out i s1 \<and> (any' \<longrightarrow> any1 \<or> pending_out i t < pending_out i s1)"
    using Cons.IH [of s1 any1 l1] Cons.prems n by auto
  have "any' \<or> \<not> any \<and> (\<forall>u \<in> set (u # us). idle oo u s) \<and> same_queues s t"
    using 1(3) 2(3) by (auto simp: idle_def same_queues_def)
  moreover have "oo \<longrightarrow> pending_out i t \<le> pending_out i s \<and> (any' \<longrightarrow> any \<or> pending_out i t < pending_out i s)"
    using 1(4) 2(4) by auto
  ultimately show ?case
    using 1(1) 2(1) flow_trans [OF 1(2) 2(2)]
    by (intro exI [of _ t] exI [of _ any'] exI [of _ l']) (simp add: run)
qed

text \<open>When a round moved nothing, nothing is left to move.\<close>

lemma server_mod_run: "server_mod u f s = (Inr (), s\<lparr>servers := (servers s)(u := f (servers s u))\<rparr>)"
  by (simp add: server_mod_def run)

lemma pause_all: "open_net i s \<Longrightarrow> \<exists>t. forE us (\<lambda>u. server_mod u (\<lambda>v. v\<lparr>am_paused := True\<rparr>)) s = (Inr (), t) \<and>
   flow oo i s l t l \<and> same_queues s t"
proof (induction us arbitrary: s)
  case (Cons u us)
  let ?s = "s\<lparr>servers := (servers s)(u := (servers s u)\<lparr>am_paused := True\<rparr>)\<rparr>"
  have f: "flow oo i s l ?s l" by (rule pause_flow [OF Cons.prems])
  then have "open_net i ?s" by (simp add: flow_def)
  from Cons.IH [OF this] obtain t where t: "forE us (\<lambda>u. server_mod u (\<lambda>v. v\<lparr>am_paused := True\<rparr>)) ?s = (Inr (), t)"
    "flow oo i ?s l t l" "same_queues ?s t" by blast
  have "same_queues s t" using t(3) by (auto simp: same_queues_def split: if_splits)
  moreover have "forE (u # us) (\<lambda>u. server_mod u (\<lambda>v. v\<lparr>am_paused := True\<rparr>)) s = (Inr (), t)"
    using t(1) by (simp add: run_seqE server_mod_run)
  ultimately show ?case using flow_trans [OF f t(2)] by blast
qed (simp add: run flow_refl same_queues_def)

lemma last_round:
  assumes "open_net i s" and "oo \<or> talks_within (nodes_on s i) H"
    and "foldE (nodes_on s i) (node_turn H oo) (False, l) s = (Inr (False, l'), t)"
  shows "\<exists>t'. deliver_rounds H i oo (Suc fuel) l s = (Inr (Some l'), t') \<and> flow oo i s l t' l' \<and>
    (\<forall>u \<in> set (nodes_on s i). idle oo u t')"
proof -
  from round_run [OF assms(1) subset_refl assms(2), of False l] assms(3)
  have r: "flow oo i s l t l'" "\<forall>u \<in> set (nodes_on s i). idle oo u s" "same_queues s t" by auto
  then have "open_net i t" by (simp add: flow_def)
  from pause_all [OF this, of "nodes_on t i" oo l'] obtain t' where
    t': "forE (nodes_on t i) (\<lambda>u. server_mod u (\<lambda>v. v\<lparr>am_paused := True\<rparr>)) t = (Inr (), t')"
      "flow oo i t l' t' l'" "same_queues t t'" by blast
  have "deliver_rounds H i oo (Suc fuel) l s = (Inr (Some l'), t')"
    using assms(3) t'(1) by (simp add: run)
  moreover have "\<forall>u \<in> set (nodes_on s i). idle oo u t'"
    using r(2,3) t'(3) by (auto simp: idle_def same_queues_def)
  ultimately show ?thesis using flow_trans [OF r(1) t'(2)] by blast
qed

lemma rounds_flow:
  assumes "open_net i s" and "oo \<or> talks_within (nodes_on s i) H" and "deliver_rounds H i oo fuel l s = (Inr (Some l'), t)"
  shows "flow oo i s l t l' \<and> (\<forall>u \<in> set (nodes_on s i). idle oo u t)"
  using assms
proof (induction fuel arbitrary: s l)
  case (Suc fuel)
  obtain s1 any1 l1 where r: "foldE (nodes_on s i) (node_turn H oo) (False, l) s = (Inr (any1, l1), s1)" "flow oo i s l s1 l1"
    using round_run [OF Suc.prems(1) subset_refl Suc.prems(2), of False l] by blast
  show ?case
  proof (cases any1)
    case True
    have n: "nets s1 = nets s" "open_net i s1" using r(2) by (simp_all add: flow_def)
    have "deliver_rounds H i oo fuel l1 s1 = (Inr (Some l'), t)" using Suc.prems(3) r(1) True by (simp add: run)
    with Suc.IH [OF n(2)] Suc.prems(2) n(1) flow_trans [OF r(2)] show ?thesis by auto
  next
    case False
    with last_round [OF Suc.prems(1,2), of l l1 s1 fuel] r(1) Suc.prems(3) show ?thesis by auto
  qed
qed (simp add: run)

lemma out_rounds_end:
  assumes "open_net i s" and "pending_out i s < fuel"
  shows "\<exists>l' t. deliver_rounds H i True fuel l s = (Inr (Some l'), t)"
  using assms
proof (induction fuel arbitrary: s l)
  case (Suc fuel)
  obtain s1 any1 l1 where r: "foldE (nodes_on s i) (node_turn H True) (False, l) s = (Inr (any1, l1), s1)" "flow True i s l s1 l1"
    "any1 \<longrightarrow> pending_out i s1 < pending_out i s"
    using round_run [OF Suc.prems(1) subset_refl, of True H False l] by auto
  show ?case
  proof (cases any1)
    case True
    have n: "nets s1 = nets s" "open_net i s1" using r(2) by (simp_all add: flow_def)
    with Suc.IH [of s1 l1] Suc.prems(2) r(3) True obtain l' t where "deliver_rounds H i True fuel l1 s1 = (Inr (Some l'), t)"
      by auto
    with r(1) True show ?thesis by (simp add: run)
  next
    case False
    with last_round [OF Suc.prems(1), of True H l l1 s1 fuel] r(1) show ?thesis by auto
  qed
qed simp

text \<open>C29. On a network that is up, whatever engines its servers run, moving messages without handling them (\<open>out_only\<close>)
  always returns, after at most as many rounds as there are messages to move: nothing is left to send, and each server's
  incoming queue has everything that was on its way to it from any other server, each sender's messages in the order it
  sent them, none lost and none twice.\<close>

theorem out_delivery_ends:
  assumes "open_net i s" and "pending_out i s < fuel"
  shows "\<exists>l t. Network_deliver_all_pending H i True fuel s = (Inr (Some l), t) \<and>
    (\<forall>a \<in> set (nodes_on s i). \<forall>b \<in> set (nodes_on s i).
       out_messages (servers t a) = [] \<and> filter (from_to a b) (in_messages (servers t b)) = channel s a b)"
proof -
  obtain l t where r: "Network_deliver_all_pending H i True fuel s = (Inr (Some l), t)"
    using out_rounds_end [OF assms] unfolding Network_deliver_all_pending_def by blast
  then have f: "flow True i s empty_ledger t l" "\<forall>u \<in> set (nodes_on s i). idle True u t"
    using rounds_flow [OF assms(1), of True H] unfolding Network_deliver_all_pending_def by blast+
  have "out_messages (servers t a) = [] \<and> filter (from_to a b) (in_messages (servers t b)) = channel s a b"
    if "a \<in> set (nodes_on s i)" "b \<in> set (nodes_on s i)" for a b
  proof -
    have "channel t a b = channel s a b" "out_messages (servers t a) = []"
      using f that by (auto simp: flow_def idle_def)
    then show ?thesis by (simp add: channel_def)
  qed
  with r show ?thesis by blast
qed

text \<open>Handling as well may go on for ever. A call that does return has emptied all queues, and each server has
  handled what was on its way to it from any other server, in the order it was sent, before anything sent later, as long
  as the engines send under their own name to servers of the network.\<close>

theorem delivered_in_order:
  assumes "open_net i s" and "talks_within (nodes_on s i) H"
    and "Network_deliver_all_pending H i False fuel s = (Inr (Some l), t)"
    and "a \<in> set (nodes_on s i)" and "b \<in> set (nodes_on s i)"
  shows "prefix (channel s a b) (filter (from_to a b) (in_ledger l)) \<and>
    in_messages (servers t b) = [] \<and> out_messages (servers t b) = []"
proof -
  have f: "flow False i s empty_ledger t l" "\<forall>u \<in> set (nodes_on s i). idle False u t"
    using rounds_flow [OF assms(1), of False H] assms(2,3) unfolding Network_deliver_all_pending_def by blast+
  then have e: "in_messages (servers t b) = []" "out_messages (servers t a) = []" "out_messages (servers t b) = []"
    using assms(4,5) by (simp_all add: idle_def)
  have "prefix (channel s a b) (handled l a b @ channel t a b)"
    using f(1) assms(4,5) by (auto simp: flow_def empty_ledger_def)
  with e show ?thesis by (simp add: channel_def)
qed

section \<open>Splitting and healing\<close>

lemma add_nodes_run:
  assumes "i < length (nets s)" and "distinct (nodes_on s i @ us)"
  shows "forE us (Network_add_node i) s = (Inr (), s\<lparr>nets := (nets s)[i := (nets s ! i)\<lparr>net_nodes := nodes_on s i @ us\<rparr>],
    servers := (\<lambda>u. if u \<in> set us then (servers s u)\<lparr>sv_network := Some i\<rparr> else servers s u)\<rparr>)"
  using assms
proof (induction us arbitrary: s)
  case (Cons u us)
  let ?t = "s\<lparr>nets := (nets s)[i := (nets s ! i)\<lparr>net_nodes := nodes_on s i @ [u]\<rparr>],
    servers := (servers s)(u := (servers s u)\<lparr>sv_network := Some i\<rparr>)\<rparr>"
  have "Network_add_node i u s = (Inr (), ?t)"
    using Cons.prems by (simp add: Network_add_node_def net_mod_def change_networks_def server_mod_def run)
  moreover have "forE us (Network_add_node i) ?t = (Inr (), ?t\<lparr>nets := (nets ?t)[i := (nets ?t ! i)\<lparr>net_nodes := nodes_on ?t i @ us\<rparr>],
    servers := (\<lambda>w. if w \<in> set us then (servers ?t w)\<lparr>sv_network := Some i\<rparr> else servers ?t w)\<rparr>)"
    using Cons.prems by (intro Cons.IH) simp_all
  ultimately show ?case using Cons.prems(1) by (simp add: run_seqE fun_eq_iff)
qed (simp add: run)

lemma new_Network_run:
  assumes "distinct us"
  shows "new_Network name us s = (Inr (length (nets s)), s\<lparr>nets := nets s @ [\<lparr>net_name = name, net_nodes = us\<rparr>],
    servers := (\<lambda>u. if u \<in> set us then (servers s u)\<lparr>sv_network := Some (length (nets s))\<rparr> else servers s u)\<rparr>)"
proof -
  let ?s = "s\<lparr>nets := nets s @ [\<lparr>net_name = name, net_nodes = []\<rparr>]\<rparr>"
  show ?thesis
    using add_nodes_run [of "length (nets s)" ?s us] assms by (simp add: new_Network_def run cong: if_cong)
qed

text \<open>What a legal split leaves: one network per segment, with the segment's servers on it.\<close>

lemma legal_split_distinct: "legal_split all us seen \<Longrightarrow> distinct us \<and> set us \<subseteq> set all \<and> set us \<inter> set seen = {}"
  by (induction all us seen rule: legal_split.induct) auto

definition on_segments :: "nat \<Rightarrow> uri list list \<Rightarrow> 'n sim \<Rightarrow> 'n sim \<Rightarrow> bool" where
  "on_segments n segs s t \<longleftrightarrow> (\<exists>ns. nets t = nets s @ ns \<and> map net_nodes ns = segs) \<and> full_cluster t = full_cluster s \<and>
     (other_segments s \<noteq> None \<longrightarrow> other_segments t \<noteq> None) \<and>
     (\<forall>u. u \<notin> set (concat segs) \<longrightarrow> servers t u = servers s u) \<and>
     (\<forall>k < length segs. \<forall>u \<in> set (segs ! k). servers t u = (servers s u)\<lparr>sv_network := Some (length (nets s) + k)\<rparr>)"

lemma split_part_run:
  assumes "distinct seg"
  shows "\<exists>t. split_part n seg s = (Inr (), t) \<and> on_segments n [seg] s t"
  by (auto simp: split_part_def on_segments_def run new_Network_run [OF assms])

lemma split_parts_run:
  assumes "distinct (concat segs)"
  shows "\<exists>t. forE segs (split_part n) s = (Inr (), t) \<and> on_segments n segs s t"
  using assms
proof (induction segs arbitrary: s)
  case Nil
  then show ?case by (simp add: run on_segments_def)
next
  case (Cons seg segs)
  obtain s1 where 1: "split_part n seg s = (Inr (), s1)" "on_segments n [seg] s s1"
    using split_part_run [of seg n s] Cons.prems by auto
  obtain t where 2: "forE segs (split_part n) s1 = (Inr (), t)" "on_segments n segs s1 t"
    using Cons.IH [of s1] Cons.prems by auto
  have len: "length (nets s1) = Suc (length (nets s))"
    using 1(2) by (auto simp: on_segments_def)
  have "servers t u = (servers s u)\<lparr>sv_network := Some (length (nets s) + k)\<rparr>"
    if "k < length (seg # segs)" "u \<in> set ((seg # segs) ! k)" for k u
  proof (cases k)
    case 0
    then have "u \<in> set seg" "u \<notin> set (concat segs)" using that Cons.prems by auto
    then show ?thesis using 1(2) 2(2) 0 by (auto simp: on_segments_def)
  next
    case (Suc j)
    then have j: "j < length segs" "u \<in> set (segs ! j)" using that by simp_all
    then have "u \<in> set (concat segs)" using nth_mem by fastforce
    then have "u \<notin> set seg" using Cons.prems by auto
    then show ?thesis using 1(2) 2(2) j Suc len by (auto simp: on_segments_def)
  qed
  moreover have "\<exists>ns. nets t = nets s @ ns \<and> map net_nodes ns = seg # segs"
    using 1(2) 2(2) by (auto simp: on_segments_def)
  ultimately have "on_segments n (seg # segs) s t"
    using 1(2) 2(2) by (auto simp: on_segments_def)
  with 1(1) 2(1) show ?case by (simp add: run)
qed

lemma split_run:
  assumes "full_cluster s = Some f" and "legal_split (nodes_on s f) (concat segs) []"
  shows "\<exists>t. split_network segs s = (Inr (), t) \<and> on_segments (length (nodes_on s f)) segs (s\<lparr>other_segments := Some []\<rparr>) t"
  using split_parts_run [of segs "length (nodes_on s f)" "s\<lparr>other_segments := Some []\<rparr>"]
    legal_split_distinct [OF assms(2)] assms
  by (auto simp: split_network_def the_full_def run)

subsection \<open>Separation\<close>

text \<open>
  A network with the servers \<open>us\<close>, all of them on it: what is delivered on it leaves the other servers, and who is on
  which network, alone.
\<close>

definition closed_net :: "uri list \<Rightarrow> nat \<Rightarrow> 'n sim \<Rightarrow> bool" where
  "closed_net us i s \<longleftrightarrow> nodes_on s i = us \<and> (\<forall>u \<in> set us. sv_network (servers s u) = Some i)"

definition inside :: "uri list \<Rightarrow> nat \<Rightarrow> 'n sim \<Rightarrow> 'n sim \<Rightarrow> bool" where
  "inside us i s t \<longleftrightarrow> (closed_net us i s \<longrightarrow> nets t = nets s \<and>
     (\<forall>u. sv_network (servers t u) = sv_network (servers s u)) \<and> (\<forall>w. w \<notin> set us \<longrightarrow> servers t w = servers s w))"

interpretation in_net: method_rel "inside us i" for us i
  by unfold_locales (auto simp: inside_def closed_net_def)

lemma inside_mod:
  "u \<in> set us \<Longrightarrow> (\<And>v. sv_network (f v) = sv_network v) \<Longrightarrow> steps (inside us i) (server_mod u f)"
  by (auto simp: steps_def inside_def server_mod_run)

lemma inside_nodes: "steps (inside us i) (f us) \<Longrightarrow> steps (inside us i) (bindE (getsE (\<lambda>s. nodes_on s i)) f)"
  by (auto simp: steps_def inside_def closed_net_def run)

lemma inside_net:
  "u \<in> set us \<Longrightarrow> steps (inside us i) (f (Some i)) \<Longrightarrow> steps (inside us i) (bindE (getsE (\<lambda>s. sv_network (servers s u))) f)"
  by (auto simp: steps_def inside_def closed_net_def run)

lemma inside_queue:
  "steps R a \<Longrightarrow> (\<And>y ys. xs = y # ys \<Longrightarrow> steps R (f y ys)) \<Longrightarrow> steps R (case xs of [] \<Rightarrow> a | y # ys \<Rightarrow> f y ys)"
  by (cases xs) simp_all

lemmas inside_rules = in_net.steps_bindE in_net.steps_seqE in_net.steps_ret in_net.steps_throw in_net.steps_some_or
  in_net.steps_if in_net.steps_option inside_queue

lemma inside_hold:
  assumes "u \<in> set us"
  shows "steps (inside us i) (hold_in u m)" "steps (inside us i) (hold_out u m)"
  unfolding hold_in_def hold_out_def
  by (intro inside_rules inside_mod in_net.steps_getsE assms; simp)+

lemma inside_next_in: "u \<in> set us \<Longrightarrow> steps (inside us i) (node_next_in H u)"
  unfolding node_next_in_def do_next_in_msg_def
  by (intro inside_rules inside_mod inside_hold in_net.steps_getsE; simp)

lemma inside_post: "steps (inside us i) (Network_post_in_message i m)"
  unfolding Network_post_in_message_def
  by (rule inside_nodes) (intro inside_rules inside_mod inside_hold in_net.steps_getsE; simp)

lemma inside_next_out:
  assumes "u \<in> set us"
  shows "steps (inside us i) (node_next_out u)"
proof -
  have "steps (inside us i) (do_next_out_msg i u)"
    unfolding do_next_out_msg_def
    by (rule in_net.steps_bindE [OF in_net.steps_getsE])
      (intro inside_queue in_net.steps_ret in_net.steps_seqE in_net.steps_if in_net.steps_option inside_nodes
        inside_mod inside_hold inside_post assms; simp)
  then show ?thesis
    unfolding node_next_out_def by (intro inside_net assms) simp
qed

lemma inside_turn: "u \<in> set us \<Longrightarrow> steps (inside us i) (node_turn H oo u acc)"
  unfolding node_turn_def guard_deck_def
  by (intro in_net.steps_rules inside_mod inside_next_in inside_next_out; simp)

lemma inside_fold: "set ws \<subseteq> set us \<Longrightarrow> steps (inside us i) (foldE ws (node_turn H oo) acc)"
  by (induction ws arbitrary: acc) (simp_all add: in_net.steps_ret, intro in_net.steps_bindE inside_turn, auto)

lemma inside_pause: "set ws \<subseteq> set us \<Longrightarrow> steps (inside us i) (forE ws (\<lambda>u. server_mod u (\<lambda>v. v\<lparr>am_paused := p\<rparr>)))"
  by (induction ws) (simp_all add: in_net.steps_ret, intro in_net.steps_seqE inside_mod, auto)

lemma inside_deliver: "steps (inside us i) (deliver_rounds H i oo fuel l)"
proof (induction fuel arbitrary: l)
  case (Suc fuel)
  show ?case
    unfolding deliver_rounds.simps
    by (rule inside_nodes, rule in_net.steps_bindE [OF inside_fold [OF subset_refl]])
      (intro in_net.steps_prod in_net.steps_if Suc.IH inside_nodes in_net.steps_seqE inside_pause in_net.steps_ret, simp)
qed (simp add: in_net.steps_ret)

lemma segment_closed:
  assumes "on_segments n segs s t" and "k < length segs"
  shows "closed_net (segs ! k) (length (nets s) + k) t"
proof -
  from assms(1) obtain ns where ns: "nets t = nets s @ ns" "map net_nodes ns = segs" by (auto simp: on_segments_def)
  then have "nodes_on t (length (nets s) + k) = segs ! k" using assms(2) by (auto simp: nth_append)
  then show ?thesis using assms by (auto simp: closed_net_def on_segments_def)
qed

text \<open>C30. After a split, each segment is a network of its own: delivering everything on it, handling included,
  changes no server outside the segment in any way.\<close>

theorem split_separates:
  assumes "full_cluster s = Some f" and "legal_split (nodes_on s f) (concat segs) []" and "k < length segs"
  shows "\<exists>t. split_network segs s = (Inr (), t) \<and> nodes_on t (length (nets s) + k) = segs ! k \<and>
    (\<forall>H out_only fuel w. w \<notin> set (segs ! k) \<longrightarrow>
       servers (snd (Network_deliver_all_pending H (length (nets s) + k) out_only fuel t)) w = servers t w)"
proof -
  obtain t where t: "split_network segs s = (Inr (), t)" "on_segments (length (nodes_on s f)) segs (s\<lparr>other_segments := Some []\<rparr>) t"
    using split_run [OF assms(1,2)] by blast
  then have c: "closed_net (segs ! k) (length (nets s) + k) t" using segment_closed [OF t(2) assms(3)] by simp
  have "servers (snd (Network_deliver_all_pending H (length (nets s) + k) oo fuel t)) w = servers t w"
    if "w \<notin> set (segs ! k)" for H oo fuel w
    using stepsD [OF inside_deliver, of "segs ! k" "length (nets s) + k" t H oo fuel empty_ledger] c that
    unfolding inside_def Network_deliver_all_pending_def by blast
  with t(1) c show ?thesis by (auto simp: closed_net_def)
qed

subsection \<open>Healing\<close>

definition all_on :: "nat \<Rightarrow> 'n sim \<Rightarrow> bool" where
  "all_on f s \<longleftrightarrow> full_cluster s = Some f \<and> f < length (nets s) \<and> distinct (nodes_on s f) \<and>
     (\<forall>u \<in> set (nodes_on s f). sv_network (servers s u) = Some f)"

lemma unsplit_nodes_run:
  assumes "\<And>u. u \<in> set us \<Longrightarrow> u \<in> set (nodes_on s f) \<and> (\<exists>c. sv_network (servers s u) = Some c \<and> c \<noteq> f)"
    and "distinct us" and "f < length (nets s)"
  shows "\<exists>ns. forE us (unsplit_node f) s = (Inr (), s\<lparr>nets := ns,
      servers := (\<lambda>u. if u \<in> set us then (servers s u)\<lparr>sv_network := Some f\<rparr> else servers s u)\<rparr>) \<and>
    ns ! f = nets s ! f \<and> length ns = length (nets s)"
  using assms
proof (induction us arbitrary: s)
  case (Cons u us)
  obtain c where c: "u \<in> set (nodes_on s f)" "sv_network (servers s u) = Some c" "c \<noteq> f"
    using Cons.prems(1) by (metis list.set_intros(1))
  let ?t = "s\<lparr>nets := (nets s)[c := (nets s ! c)\<lparr>net_nodes := filter (\<lambda>w. w \<noteq> u) (nodes_on s c)\<rparr>],
    servers := (servers s)(u := (servers s u)\<lparr>sv_network := Some f\<rparr>)\<rparr>"
  have 1: "unsplit_node f u s = (Inr (), ?t)"
    using c by (simp add: unsplit_node_def Network_remove_node_def Network_add_node_def net_mod_def change_networks_def
        server_mod_run run)
  have "\<exists>ns. forE us (unsplit_node f) ?t = (Inr (), ?t\<lparr>nets := ns,
      servers := (\<lambda>w. if w \<in> set us then (servers ?t w)\<lparr>sv_network := Some f\<rparr> else servers ?t w)\<rparr>) \<and>
    ns ! f = nets ?t ! f \<and> length ns = length (nets ?t)"
  proof (rule Cons.IH)
    fix w assume "w \<in> set us"
    then have "w \<noteq> u" "w \<in> set (nodes_on s f) \<and> (\<exists>c. sv_network (servers s w) = Some c \<and> c \<noteq> f)"
      using Cons.prems(1) [of w] Cons.prems(2) by auto
    then show "w \<in> set (nodes_on ?t f) \<and> (\<exists>c. sv_network (servers ?t w) = Some c \<and> c \<noteq> f)"
      using c(3) by simp
  qed (use Cons.prems(2,3) in simp_all)
  then obtain ns where 2: "forE us (unsplit_node f) ?t = (Inr (), ?t\<lparr>nets := ns,
      servers := (\<lambda>w. if w \<in> set us then (servers ?t w)\<lparr>sv_network := Some f\<rparr> else servers ?t w)\<rparr>)"
    "ns ! f = nets ?t ! f" "length ns = length (nets ?t)" by blast
  show ?case
    by (rule exI [of _ ns]) (use 1 2 c(3) Cons.prems(2) in \<open>auto simp: run_seqE fun_eq_iff\<close>)
next
  case Nil
  show ?case by (rule exI [of _ "nets s"]) (simp add: run)
qed

text \<open>C31. Splitting the whole cluster and healing it again gives back the cluster as it was: every server on the common
  network with its queues and its engine, the same members, no segments.\<close>

theorem split_then_heal:
  assumes "all_on f s" and "legal_split (nodes_on s f) (concat segs) []" and "set (concat segs) = set (nodes_on s f)"
  shows "\<exists>t. seqE (split_network segs) unsplit s = (Inr (), t) \<and> servers t = servers s \<and>
    nodes_on t f = nodes_on s f \<and> full_cluster t = Some f \<and> quorum_segment t = None \<and> other_segments t = None"
proof -
  have s: "full_cluster s = Some f" "f < length (nets s)" "distinct (nodes_on s f)"
    "\<And>u. u \<in> set (nodes_on s f) \<Longrightarrow> sv_network (servers s u) = Some f"
    using assms(1) by (simp_all add: all_on_def)
  obtain t where t: "split_network segs s = (Inr (), t)" "on_segments (length (nodes_on s f)) segs (s\<lparr>other_segments := Some []\<rparr>) t"
    using split_run [OF s(1) assms(2)] by blast
  have tn: "nodes_on t f = nodes_on s f" "f < length (nets t)" "full_cluster t = Some f" "other_segments t \<noteq> None"
    using t(2) s by (auto simp: on_segments_def nth_append)
  have on: "\<exists>c. servers t u = (servers s u)\<lparr>sv_network := Some c\<rparr> \<and> c \<noteq> f" if "u \<in> set (nodes_on s f)" for u
  proof -
    from that assms(3) obtain seg where "seg \<in> set segs" "u \<in> set seg" by auto
    then obtain k where "k < length segs" "u \<in> set (segs ! k)" by (metis in_set_conv_nth)
    then show ?thesis using t(2) s(2) by (auto simp: on_segments_def)
  qed
  have off: "servers t u = servers s u" if "u \<notin> set (nodes_on s f)" for u
    using t(2) that assms(3) by (auto simp: on_segments_def)
  obtain ns where u: "forE (nodes_on t f) (unsplit_node f) t = (Inr (), t\<lparr>nets := ns,
      servers := (\<lambda>u. if u \<in> set (nodes_on t f) then (servers t u)\<lparr>sv_network := Some f\<rparr> else servers t u)\<rparr>)"
    "ns ! f = nets t ! f"
    using unsplit_nodes_run [of "nodes_on t f" t f] on tn s(3) by fastforce
  have "(\<lambda>u. if u \<in> set (nodes_on t f) then (servers t u)\<lparr>sv_network := Some f\<rparr> else servers t u) = servers s"
  proof
    fix w
    show "(if w \<in> set (nodes_on t f) then (servers t w)\<lparr>sv_network := Some f\<rparr> else servers t w) = servers s w"
      using on [of w] off [of w] s(4) [of w] tn(1) by auto
  qed
  moreover have "seqE (split_network segs) unsplit s = (Inr (), t\<lparr>nets := ns,
      servers := (\<lambda>u. if u \<in> set (nodes_on t f) then (servers t u)\<lparr>sv_network := Some f\<rparr> else servers t u),
      quorum_segment := None, other_segments := None\<rparr>)"
    using t(1) u(1) tn by (auto simp: run_seqE unsplit_def the_full_def run)
  ultimately show ?thesis using u(2) tn by (intro exI) (auto simp: run)
qed

section \<open>Where the network does not keep its word\<close>

text \<open>
  \<open>deliver_all_pending\<close> promises to go on until no message is pending. A message to a server that is not on the
  network does not count as moved: a round in which every server with something to send loses its first
  message is the last one, whatever waits behind it.
\<close>

theorem lost_message_ends_delivery:
  assumes "nodes_on s i = [u]" and "sv_network (servers s u) = Some i" and "\<not> block_messages (servers s u)"
    and "in_messages (servers s u) = []" and "out_messages (servers s u) = m # rest" and "sent_to m \<noteq> Some u"
  shows "\<exists>t. Network_deliver_all_pending H i False (Suc fuel) s = (Inr (Some empty_ledger), t) \<and>
    out_messages (servers t u) = rest \<and> lost_out_messages (servers t u) = lost_out_messages (servers s u) @ [m]"
proof -
  let ?s = "s\<lparr>servers := (servers s)(u := (servers s u)\<lparr>am_paused := False\<rparr>)\<rparr>"
  let ?t = "?s\<lparr>servers := (servers ?s)(u := (servers ?s u)\<lparr>out_messages := rest, lost_out_messages := lost_out_messages (servers s u) @ [m]\<rparr>)\<rparr>"
  have "node_next_out u ?s = (Inr None, ?t)"
    using assms by (cases "sent_to m") (auto simp: node_next_out_def do_next_out_msg_def server_mod_run run)
  then have g: "guard_deck u (node_next_out u) ?s = (Inr (Inr None), ?t)" by (rule guard_run)
  have "node_turn H False u (False, empty_ledger) s = (Inr (False, empty_ledger), ?t)"
    unfolding node_turn_def using assms(4,5) g by (simp add: run server_mod_run Let_def)
  then have "Network_deliver_all_pending H i False (Suc fuel) s =
      (Inr (Some empty_ledger), ?t\<lparr>servers := (servers ?t)(u := (servers ?t u)\<lparr>am_paused := True\<rparr>)\<rparr>)"
    using assms(1) by (simp add: Network_deliver_all_pending_def run_bindE run_seqE run_getsE run_ret server_mod_run)
  then show ?thesis by simp
qed

text \<open>
  A server added while the network is split joins the majority segment only; healing goes over the servers
  of the common network, so the new one stays behind on a segment nobody delivers on any more.
\<close>

theorem added_server_left_behind:
  assumes "all_on f s" and "legal_split (nodes_on s f) (concat segs) []" and "set (concat segs) = set (nodes_on s f)"
    and "split_network segs s = (Inr (), t)" and "quorum_segment t = Some q" and "q < length (nets t)" and "q \<noteq> f"
    and "u \<notin> set (nodes_on s f)" and "u \<notin> set (nodes_on t q)"
  shows "\<exists>t'. seqE (NetManager_add_node u) unsplit t = (Inr (), t') \<and>
    u \<notin> set (nodes_on t' f) \<and> sv_network (servers t' u) = Some q \<and> quorum_segment t' = None"
proof -
  have s: "full_cluster s = Some f" "f < length (nets s)" "distinct (nodes_on s f)"
    using assms(1) by (simp_all add: all_on_def)
  have seg: "on_segments (length (nodes_on s f)) segs (s\<lparr>other_segments := Some []\<rparr>) t"
    using split_run [OF s(1) assms(2)] assms(4) by auto
  let ?a = "t\<lparr>nets := (nets t)[q := (nets t ! q)\<lparr>net_nodes := nodes_on t q @ [u]\<rparr>],
    servers := (servers t)(u := (servers t u)\<lparr>sv_network := Some q\<rparr>)\<rparr>"
  have a: "NetManager_add_node u t = (Inr (), ?a)"
    using assms(5,9) by (simp add: NetManager_add_node_def Network_add_node_def net_mod_def change_networks_def server_mod_run run)
  have tn: "nodes_on ?a f = nodes_on s f" "f < length (nets ?a)" "full_cluster ?a = Some f" "other_segments ?a \<noteq> None"
    using seg s assms(7) by (auto simp: on_segments_def nth_append)
  have on: "\<exists>c. sv_network (servers ?a w) = Some c \<and> c \<noteq> f" if "w \<in> set (nodes_on s f)" for w
  proof -
    from that assms(3) obtain sg where "sg \<in> set segs" "w \<in> set sg" by auto
    then obtain k where "k < length segs" "w \<in> set (segs ! k)" by (metis in_set_conv_nth)
    then show ?thesis using seg s(2) that assms(8) by (auto simp: on_segments_def)
  qed
  obtain ns where n: "forE (nodes_on ?a f) (unsplit_node f) ?a = (Inr (), ?a\<lparr>nets := ns,
      servers := (\<lambda>w. if w \<in> set (nodes_on ?a f) then (servers ?a w)\<lparr>sv_network := Some f\<rparr> else servers ?a w)\<rparr>)"
    "ns ! f = nets ?a ! f"
    using unsplit_nodes_run [of "nodes_on ?a f" ?a f] on tn s(3) by fastforce
  have "unsplit ?a = (Inr (), ?a\<lparr>nets := ns,
      servers := (\<lambda>w. if w \<in> set (nodes_on ?a f) then (servers ?a w)\<lparr>sv_network := Some f\<rparr> else servers ?a w),
      quorum_segment := None, other_segments := None\<rparr>)"
    using n(1) tn(3,4) by (auto simp: unsplit_def the_full_def run)
  then show ?thesis using a n(2) tn(1) assms(8) by (auto simp: run_seqE)
qed

section \<open>Examples\<close>

text \<open>A cluster of engines: the first one is started, crashes and comes back.\<close>

abbreviation sql_envs :: "uri \<Rightarrow> (Records, unit) env" where
  "sql_envs \<equiv> example_env sqlite_api"

definition crew :: "(Records, unit) node sim" where
  "crew = new_NetManager (\<lambda>u. new_server (test_node open_log () 1800000000 new_SerialNumberGenerator))"

definition crew_up :: "(Records, unit) node sim" where
  "crew_up = (let s = snd (setup_network [''n1'', ''n2''] crew);
     n = test_node open_log () 1800000000 new_SerialNumberGenerator;
     n' = snd (deck_start (sql_envs ''n1'') n) in
     snd (server_mod ''n1'' (\<lambda>v. v\<lparr>deck_state := Some n', out_messages := out_messages v @
       queue_sent (now n') (serials n') (drop (length (outbox n)) (outbox n'))\<rparr>) s))"

definition crew_back :: "(Records, unit) node sim" where
  "crew_back = snd (recover_from_crash (engine_restart sql_envs open_log () 1800000005 new_SerialNumberGenerator) ''n1'' False True True
     (snd (simulate_crash (engine_halt sql_envs) ''n1'' crew_up)))"

lemma setup_run: "distinct us \<Longrightarrow> setup_network us s = (Inr (length (nets s)),
   s\<lparr>nets := nets s @ [\<lparr>net_name = ''main'', net_nodes = us\<rparr>], full_cluster := Some (length (nets s)),
     servers := (\<lambda>u. if u \<in> set us then (servers s u)\<lparr>sv_network := Some (length (nets s))\<rparr> else servers s u)\<rparr>)"
  by (simp add: setup_network_def new_Network_run run cong: if_cong)

lemma crew_runs: "sim_run sql_envs crew crew_up" "sim_run sql_envs crew_up crew_back"
proof -
  have "sim_step sql_envs crew (snd (setup_network [''n1'', ''n2''] crew))" by (rule sim_step.main_net)
  moreover have "sim_step sql_envs (snd (setup_network [''n1'', ''n2''] crew)) crew_up"
    unfolding crew_up_def Let_def
    by (rule sim_step.engine [OF _ loop_step.start]) (simp add: setup_run crew_def new_NetManager_def new_server_def)
  ultimately show "sim_run sql_envs crew crew_up" by auto
  show "sim_run sql_envs crew_up crew_back"
    unfolding crew_back_def
    by (rule converse_rtranclp_into_rtranclp, rule sim_step.crash, rule r_into_rtranclp, rule sim_step.recover)
qed

theorem cluster_terms_never_decrease_witness:
  "\<exists>n'. engine_of (servers crew_back ''n1'') = Some n' \<and>
     cur_term (r_stats (n_log (snd (deck_start (sql_envs ''n1'') (test_node open_log () 1800000000 new_SerialNumberGenerator)))))
       \<le> cur_term (r_stats (n_log n'))"
proof -
  have "engine_of (servers crew_up ''n1'') =
      Some (snd (deck_start (sql_envs ''n1'') (test_node open_log () 1800000000 new_SerialNumberGenerator)))"
    by (simp add: crew_up_def server_mod_run engine_of_def Let_def)
  moreover have "env.log (sql_envs u) = sqlite_api" for u by (simp add: example_env_def)
  ultimately show ?thesis
    using cluster_terms_never_decrease [where ls = "\<lambda>_. open_log" and ?ops0.0 = "\<lambda>_. ()",
        OF _ plain_log(2) crew_runs(1) [unfolded crew_def] crew_runs(2)] by blast
qed

text \<open>A cluster of three servers whose engines count the messages they handled and answer requests.\<close>

definition trio :: "uri list" where
  "trio = [''a'', ''b'', ''c'']"

definition ping :: "uri \<Rightarrow> uri \<Rightarrow> int \<Rightarrow> message" where
  "ping a b k = MembershipChangeMessage \<lparr>sender = a, receiver = Some b, serial_number = k\<rparr> op_add b"

definition echo :: "nat handler" where
  "echo u m n = (Suc n, case m of
     MembershipChangeMessage h op t \<Rightarrow> (if sender h \<in> set trio
       then [MembershipChangeResponseMessage \<lparr>sender = u, receiver = Some (sender h), serial_number = serial_number h\<rparr> op t True]
       else [])
   | _ \<Rightarrow> [])"

definition trio_of :: "'n \<Rightarrow> 'n sim" where
  "trio_of n = snd (setup_network trio (new_NetManager (\<lambda>u. (new_server n)\<lparr>out_messages :=
     (if u = ''a'' then [ping ''a'' ''b'' 1, ping ''a'' ''c'' 2, ping ''a'' ''b'' 3] else [])\<rparr>)))"

definition trio_sim :: "nat sim" where
  "trio_sim = trio_of 0"

lemma trio_of_facts:
  "nodes_on (trio_of n) 0 = trio" "full_cluster (trio_of n) = Some 0" "length (nets (trio_of n)) = 1" "open_net 0 (trio_of n)"
  "all_on 0 (trio_of n)" "pending_out 0 (trio_of n) = 3"
  "channel (trio_of n) ''a'' ''b'' = [ping ''a'' ''b'' 1, ping ''a'' ''b'' 3]"
  by (auto simp: trio_of_def trio_def setup_run new_NetManager_def new_server_def open_net_def addressed_def ping_def
      all_on_def pending_out_def channel_def from_to_def split: message.splits if_splits)

lemmas trio_facts = trio_of_facts [of "0 :: nat", folded trio_sim_def]

lemma echo_within: "talks_within trio echo"
  by (auto simp: talks_within_def echo_def trio_def addressed_def split: message.splits if_splits)

definition trio_result :: "(exn + ledger option) \<times> nat sim" where
  "trio_result = Network_deliver_all_pending echo 0 False 20 trio_sim"

theorem delivered_in_order_witness:
  "\<exists>l. fst trio_result = Inr (Some l) \<and> moved l = 12 \<and>
     prefix [ping ''a'' ''b'' 1, ping ''a'' ''b'' 3] (filter (from_to ''a'' ''b'') (in_ledger l)) \<and>
     in_messages (servers (snd trio_result) ''b'') = [] \<and> out_messages (servers (snd trio_result) ''b'') = []"
proof -
  have "(case fst trio_result of Inr (Some l) \<Rightarrow> moved l = 12 | _ \<Rightarrow> False)"
    by (simp add: trio_result_def trio_sim_def trio_of_def setup_run trio_def new_NetManager_def new_server_def Network_deliver_all_pending_def
       empty_ledger_def numeral_eq_Suc deliver_rounds.simps node_turn_def guard_deck_def node_next_in_def do_next_in_msg_def node_next_out_def
       do_next_out_msg_def Network_post_in_message_def server_mod_run run ping_def echo_def Let_def)
  then obtain l where l: "fst trio_result = Inr (Some l)" "moved l = 12" by (auto split: sum.splits option.splits)
  then have "Network_deliver_all_pending echo 0 False 20 trio_sim = (Inr (Some l), snd trio_result)"
    by (simp add: trio_result_def prod_eq_iff)
  from delivered_in_order [OF trio_facts(4) _ this, of "''a''" "''b''"] l show ?thesis
    by (simp add: trio_facts echo_within, simp add: trio_def)
qed

text \<open>The same three servers with engines on them.\<close>

abbreviation trio_engines :: "(Records, unit) node sim" where
  "trio_engines \<equiv> trio_of (test_node open_log () 1800000000 new_SerialNumberGenerator)"

theorem out_delivery_ends_witness:
  "\<exists>l t. Network_deliver_all_pending (engine_on_message sql_envs) 0 True 4 trio_engines = (Inr (Some l), t) \<and>
     out_messages (servers t ''a'') = [] \<and>
     filter (from_to ''a'' ''b'') (in_messages (servers t ''b'')) = [ping ''a'' ''b'' 1, ping ''a'' ''b'' 3]"
proof -
  let ?s = trio_engines
  obtain l t where "Network_deliver_all_pending (engine_on_message sql_envs) 0 True 4 ?s = (Inr (Some l), t)"
    "\<forall>a \<in> set trio. \<forall>b \<in> set trio. out_messages (servers t a) = [] \<and>
       filter (from_to a b) (in_messages (servers t b)) = channel ?s a b"
    using out_delivery_ends [OF trio_of_facts(4) [where n = "test_node open_log () 1800000000 new_SerialNumberGenerator"],
        of 4 "engine_on_message sql_envs"] by (auto simp: trio_of_facts)
  then show ?thesis using trio_of_facts(7) by (auto simp: trio_def)
qed

lemma trio_split: "legal_split (nodes_on trio_sim 0) (concat [[''a'', ''b''], [''c'']]) []"
  "set (concat [[''a'', ''b''], [''c'']]) = set (nodes_on trio_sim 0)"
  by (simp_all add: trio_facts(1)) (auto simp: trio_def)

theorem split_separates_witness:
  "\<exists>t. split_network [[''a'', ''b''], [''c'']] trio_sim = (Inr (), t) \<and> nodes_on t 1 = [''a'', ''b''] \<and>
     servers (snd (Network_deliver_all_pending echo 1 False 20 t)) ''c'' = servers t ''c''"
  using split_separates [OF trio_facts(2) trio_split(1), of 0] by (force simp: trio_facts(3))

theorem split_then_heal_witness:
  "\<exists>t. seqE (split_network [[''a'', ''b''], [''c'']]) unsplit trio_sim = (Inr (), t) \<and> servers t = servers trio_sim \<and>
     nodes_on t 0 = trio \<and> full_cluster t = Some 0 \<and> quorum_segment t = None \<and> other_segments t = None"
  using split_then_heal [OF trio_facts(5) trio_split] by (simp add: trio_facts)

end
