(* ===== verification/Triggers_Props.thy ===== *)
theory Triggers_Props
  imports Triggers Net_Props
begin

text \<open>
  What running a server until its triggers trip promises: a single trigger has tripped when the call returns, a set of triggers
  need not have; which message a trigger on outgoing messages hands over; and which server the cluster object makes after one was removed.
\<close>

section \<open>Waiting for a trigger\<close>

lemma run_on_sim: "on_sim m b = (case m (b_sim b) of (r, t) \<Rightarrow> (r, b\<lparr>b_sim := t\<rparr>))"
  by (simp add: on_sim_def run)

text \<open>The triggers a server was given are only changed by the calls that set and clear them.\<close>

definition same_triggers :: "('l, 'a) bench \<Rightarrow> ('l, 'a) bench \<Rightarrow> bool" where
  "same_triggers s t \<longleftrightarrow> b_trigger t = b_trigger s \<and> b_trigger_set t = b_trigger_set s"

interpretation trig: method_rel same_triggers
  by unfold_locales (auto simp: same_triggers_def)

lemma same_on_sim: "steps same_triggers (on_sim m)"
  by (auto simp: steps_def run_on_sim same_triggers_def split: prod.splits)

lemma same_modE: "(\<And>b. same_triggers b (f b)) \<Longrightarrow> steps same_triggers (modE f)"
  by (auto simp: steps_def run)

lemmas trig_rules = trig.steps_bindE trig.steps_seqE trig.steps_ret trig.steps_throw trig.steps_getsE trig.steps_some_or
  trig.steps_whenE trig.steps_forE trig.steps_foldE same_on_sim

lemma same_deck: "steps same_triggers (deck_of u)" "steps same_triggers (member_deck u)"
  unfolding deck_of_def member_deck_def by (auto intro!: trig_rules)

lemma same_out: "steps same_triggers (when_message_out cd target flush u)"
  unfolding when_message_out_def flush_one_out_message_def by (auto intro!: trig_rules)

lemma same_election: "steps same_triggers (when_election_done i vs u)"
  unfolding when_election_done_def by (auto intro!: trig_rules same_deck same_modE simp: same_triggers_def)

lemma same_tripped: "steps same_triggers (is_tripped E c u)"
  by (cases c) (auto intro!: trig_rules same_deck same_out same_election same_modE simp: same_triggers_def condition_defs
      split: option.splits message.splits)


text \<open>What runs beside the server leaves its triggers alone.\<close>

definition keeps_triggers :: "uri \<Rightarrow> (nat \<Rightarrow> ('l, 'a) bench \<Rightarrow> ('l, 'a) bench) \<Rightarrow> bool" where
  "keeps_triggers u others \<longleftrightarrow> (\<forall>k b. b_trigger (others k b) u = b_trigger b u)"

lemma same_trigger: "steps same_triggers m \<Longrightarrow> m b = (r, t) \<Longrightarrow> b_trigger t u = b_trigger b u"
  by (drule (1) stepsE) (simp add: same_triggers_def)

lemma one_move:
  "steps same_triggers (bindE (on_sim (node_next_out u)) (\<lambda>m.
     seqE (if m = None then bindE (on_sim (node_next_in H u)) (\<lambda>_. ret ()) else ret ()) (getsE f)))"
  by (auto intro!: trig_rules)

text \<open>A turn of the loop: a look, and when nothing tripped a move of one message and what the others do.\<close>

definition move :: "(uri \<Rightarrow> ('l, 'a) env) \<Rightarrow> uri \<Rightarrow> (('l, 'a) bench, uri list) eff" where
  "move E u = bindE (on_sim (node_next_out u)) (\<lambda>m.
     seqE (if m = None then bindE (on_sim (node_next_in (engine_on_message E) u)) (\<lambda>_. ret ()) else ret ()) (getsE b_nodes))"

lemma move_same: "steps same_triggers (move E u)"
  unfolding move_def by (rule one_move)

lemma run_turns_Suc:
  "run_turns E others fo u (Suc k) = bindE (look E u) (\<lambda>t. if t then ret True else bindE (move E u) (\<lambda>us.
     if fo \<and> us \<noteq> [] then throw AttributeError else seqE (modE (others k)) (run_turns E others fo u k)))"
  by (auto simp: move_def fun_eq_iff run split: prod.splits sum.splits)

lemma look_single: "b_trigger b u = Some c \<Longrightarrow> look E u b = is_tripped E c u b"
  by (simp add: look_def run)

lemma turns_single:
  assumes others: "keeps_triggers u others"
  shows "b_trigger b u = Some c \<Longrightarrow> run_turns E others fo u k b = (Inr d, t) \<Longrightarrow>
    b_trigger t u = Some c \<and> (d \<longrightarrow> (\<exists>s. is_tripped E c u s = (Inr True, t)))"
proof (induction k arbitrary: b)
  case (Suc k)
  obtain r s where s: "is_tripped E c u b = (r, s)" by fastforce
  have keep: "b_trigger s u = Some c" using same_trigger [OF same_tripped s] Suc.prems(1) by simp
  obtain e where e: "r = Inr e" using Suc.prems s by (cases r) (simp_all add: run_turns_Suc run look_single del: run_turns.simps)
  show ?case
  proof (cases e)
    case True
    then show ?thesis using Suc.prems s e keep by (auto simp: run_turns_Suc run look_single simp del: run_turns.simps)
  next
    case False
    obtain r' s' where s': "move E u s = (r', s')" by fastforce
    have "b_trigger s' u = Some c" using same_trigger [OF move_same s'] keep by simp
    then have "b_trigger (others k s') u = Some c" using others by (simp add: keeps_triggers_def)
    moreover have "run_turns E others fo u k (others k s') = (Inr d, t)"
      using Suc.prems s e False s'
      by (cases r') (auto simp: run_turns_Suc run look_single simp del: run_turns.simps split: if_splits)
    ultimately show ?thesis by (rule Suc.IH)
  qed
qed (simp add: run)

definition paused :: "bool \<Rightarrow> uri \<Rightarrow> ('l, 'a) bench \<Rightarrow> ('l, 'a) bench" where
  "paused p u b = b\<lparr>b_sim := (b_sim b)\<lparr>servers := (servers (b_sim b))(u := (server_of b u)\<lparr>am_paused := p\<rparr>)\<rparr>\<rparr>"

lemma paused_run [run]: "on_sim (server_mod u (\<lambda>v. v\<lparr>am_paused := p\<rparr>)) b = (Inr (), paused p u b)"
  by (simp add: run_on_sim server_mod_run paused_def)

lemma paused_simps [simp]: "b_trigger (paused p u b) = b_trigger b" "b_trigger_set (paused p u b) = b_trigger_set b"
  "b_nodes (paused p u b) = b_nodes b" "paused p u (paused q u b) = paused p u b"
  by (simp_all add: paused_def)

text \<open>C26. A run that waits for a single trigger only returns when the trigger has tripped: the state it returns in is the one the
  trigger was found tripped in, with the server paused.
\<close>

theorem single_trigger_tripped:
  assumes "keeps_triggers u others" and "b_trigger b u = Some c"
    and "run_till_triggers E others u turns free_others b = (Inr (), t)"
  shows "\<exists>s s'. is_tripped E c u s = (Inr True, s') \<and> t = paused True u s'"
proof -
  obtain r s' where s': "run_turns E others free_others u turns (paused False u b) = (r, s')" by fastforce
  obtain d where d: "r = Inr d" using assms(3) s' by (cases r) (simp_all add: run_till_triggers_def run)
  have single: "b_trigger s' u = Some c" "d \<longrightarrow> (\<exists>s. is_tripped E c u s = (Inr True, s'))"
    using turns_single [OF assms(1), of "paused False u b"] assms(2) s' d by auto
  have "d \<and> t = paused True u s'"
    using assms(3) s' d single(1) by (auto simp: run_till_triggers_def run split: prod.splits sum.splits if_splits)
  then show ?thesis using single(2) by auto
qed

lemma quiet_move: "quiet_server (server_of b u) \<Longrightarrow> sv_network (server_of b u) = Some i \<Longrightarrow> move E u b = (Inr (b_nodes b), b)"
  by (simp add: move_def run_on_sim run quiet_server_def node_next_out_def node_next_in_def do_next_out_msg_def
      do_next_in_msg_def)

lemma quiet_turns:
  assumes "quiet_server (server_of b u)" and "sv_network (server_of b u) = Some i" and "look E u b = (Inr False, b)"
  shows "run_turns E (\<lambda>_ b. b) False u k b = (Inr False, b)"
  by (induction k) (use assms in \<open>simp_all add: run_turns_Suc quiet_move run del: run_turns.simps\<close>, simp add: run)

text \<open>A trigger that never trips on a server with nothing to do: given to the server with \<open>set_trigger\<close> the run raises an
  exception when its time is over, given with \<open>add_trigger\<close> the run returns as if the trigger had tripped.
\<close>

theorem set_times_out_silently:
  assumes quiet: "quiet_server (server_of b u)" and net: "sv_network (server_of b u) = Some i"
    and free: "b_trigger b u = None" "b_trigger_set b u = None"
    and never: "\<And>b'. b_sim b' = b_sim (paused False u b) \<Longrightarrow> is_tripped E c u b' = (Inr False, b')"
  shows "fst (run_till_triggers E (\<lambda>_ b. b) u turns False (snd (set_trigger u c b))) \<noteq> Inr () \<and>
    run_till_triggers E (\<lambda>_ b. b) u turns False (snd (add_trigger u c b)) = (Inr (), paused True u (snd (add_trigger u c b)))"
proof -
  let ?one = "paused False u (snd (set_trigger u c b))" and ?all = "paused False u (snd (add_trigger u c b))"
  have st: "b_sim ?one = b_sim (paused False u b)" "b_trigger ?one u = Some c"
    "b_sim ?all = b_sim (paused False u b)" "b_trigger ?all u = None" "b_trigger_set ?all u = Some [c]"
    using free by (simp_all add: set_trigger_def add_trigger_def run or_else_def paused_def)
  have sv: "quiet_server (server_of (paused False u b) u)" "sv_network (server_of (paused False u b) u) = Some i"
    using quiet net by (simp_all add: paused_def quiet_server_def)
  have one: "run_turns E (\<lambda>_ b. b) False u turns ?one = (Inr False, ?one)"
    using never [OF st(1)] by (intro quiet_turns [where i = i]) (use sv st in \<open>simp_all add: look_single\<close>)
  have all: "run_turns E (\<lambda>_ b. b) False u turns ?all = (Inr False, ?all)"
    using never [OF st(3)] by (intro quiet_turns [where i = i]) (use sv st in \<open>simp_all add: look_def run\<close>)
  have "fst (run_till_triggers E (\<lambda>_ b. b) u turns False (snd (set_trigger u c b))) \<noteq> Inr ()"
    using one st never [OF st(1)] by (auto simp: run_till_triggers_def run split: prod.splits sum.splits)
  moreover have "run_till_triggers E (\<lambda>_ b. b) u turns False (snd (add_trigger u c b)) = (Inr (), paused True u (snd (add_trigger u c b)))"
    using all st by (simp add: run_till_triggers_def run)
  ultimately show ?thesis by blast
qed

text \<open>A set of triggers that only look at the server: in the mode \<open>and\<close> it has tripped when all of them have, and in the
  mode \<open>or\<close> whenever there is a trigger at all, tripped or not.
\<close>

theorem trigger_set_modes:
  assumes "\<And>c. c \<in> set cs \<Longrightarrow> is_tripped E c u b = (Inr (f c), b)"
  shows "set_tripped E True cs u b = (Inr (cs \<noteq> [] \<and> (\<forall>c \<in> set cs. f c)), b) \<and>
    set_tripped E False cs u b = (Inr (cs \<noteq> []), b)"
  using assms by (induction cs) (auto simp: run)

section \<open>Handing over a message\<close>

lemma forE_skip: "(\<And>x. x \<in> set xs \<Longrightarrow> f x = ret ()) \<Longrightarrow> forE xs f = ret ()"
  by (induction xs) (simp_all add: forE.simps)

lemma post_run:
  assumes "quorum_segment s = None" "full_cluster s = Some f" "receiver (msg_hdr_of m) = Some w" "w \<in> set (nodes_on s f)"
    "\<not> block_messages (servers s w)"
  shows "NetManager_post_in_message m s =
    (Inr (), s\<lparr>servers := (servers s)(w := (servers s w)\<lparr>in_messages := in_messages (servers s w) @ [m]\<rparr>)\<rparr>)"
  using assms by (simp add: NetManager_post_in_message_def the_full_def Network_post_in_message_def run server_mod_run)

text \<open>A trigger on an outgoing message that is found in the queue trips, and hands over the last message of the queue, which need not
  be the one it waited for: that one is still there.
\<close>

theorem wrong_message_flushed:
  assumes queue: "out_messages (server_of b u) = ms @ [m']" "m' \<notin> set ms" "\<not> block_messages (server_of b u)"
    and found: "m \<in> set ms" "msg_code m = cd" "target = None \<or> receiver (msg_hdr_of m) = target"
    and net: "quorum_segment (b_sim b) = None" "full_cluster (b_sim b) = Some f"
    and w: "receiver (msg_hdr_of m') = Some w" "w \<in> set (nodes_on (b_sim b) f)" "\<not> block_messages (server_of b w)" "w \<noteq> u"
  shows "\<exists>t. is_tripped E (WhenMessageOut cd target True) u b = (Inr True, t) \<and> m \<in> set (out_messages (server_of t u)) \<and>
    out_messages (server_of t u) = ms \<and> in_messages (server_of t w) = in_messages (server_of b w) @ [m']"
proof -
  have skip: "forE ms (\<lambda>x. whenE (x = m') (on_sim (NetManager_post_in_message x))) = (ret () :: ('a, 'b) bench \<Rightarrow> _)"
    by (rule forE_skip) (use queue(2) in \<open>metis whenE_simps(2)\<close>)
  have rest: "filter (\<lambda>x. x \<noteq> m') ms = ms" using queue(2) by (auto simp: filter_id_conv)
  have "list_ex (\<lambda>x. msg_code x = cd \<and> (target = None \<or> receiver (msg_hdr_of x) = target)) (ms @ [m'])"
    using found by (auto simp: list_ex_iff)
  then show ?thesis using queue(1,3) rest net w found(1)
    by (auto simp: when_message_out_def flush_one_out_message_def run run_on_sim forE_append skip forE.simps post_run server_mod_run)
qed

section \<open>Adding a server\<close>

text \<open>After a removal the cluster gives the next new server a uri that one of its servers has: that server is replaced by a fresh one, its engine and its
  queues are gone, and the uri is in the list of nodes once more.
\<close>

theorem added_server_replaces:
  assumes "u = numbered_uri (length (b_nodes b) + 1)" and "u \<in> set (b_nodes b)"
    and "quorum_segment (b_sim b) = None" "full_cluster (b_sim b) = Some f"
  shows "\<exists>t. cluster_add_node mk b = (Inr u, t) \<and> b_nodes t = b_nodes b \<and>
    server_of t u = (new_server (mk u))\<lparr>sv_network := Some f\<rparr> \<and> b_node_uris t = b_node_uris b @ [u]"
  using assms by (auto simp: cluster_add_node_def run run_on_sim server_mod_run NetManager_add_node_def the_full_def
      Network_add_node_def change_networks_def net_mod_def)

section \<open>A cluster of three\<close>

definition bench3 :: "(Records, unit) bench" where
  "bench3 = new_PausingCluster (\<lambda>_. test_node open_log () 1800000000 new_SerialNumberGenerator) 3"

lemma numbered: "numbered_uri 1 = ''mcpy://1''" "numbered_uri 2 = ''mcpy://2''" "numbered_uri 3 = ''mcpy://3''"
  "numbered_uri (Suc 0) = ''mcpy://1''" "numbered_uri (Suc (Suc 0)) = ''mcpy://2''" "numbered_uri (Suc (Suc (Suc 0))) = ''mcpy://3''"
  by (simp_all add: numbered_uri_def string_of_nat.simps, code_simp+)

lemma bench3_nodes: "b_nodes bench3 = [''mcpy://1'', ''mcpy://2'', ''mcpy://3'']"
  by (simp add: bench3_def new_PausingCluster_def numbered Let_def upt_rec)

lemma bench3_facts:
  "quorum_segment (b_sim bench3) = None" "full_cluster (b_sim bench3) = Some 0"
  "nodes_on (b_sim bench3) 0 = [''mcpy://1'', ''mcpy://2'', ''mcpy://3'']"
  "b_trigger bench3 u = None" "b_trigger_set bench3 u = None"
  "server_of bench3 u = (new_server (test_node open_log () 1800000000 new_SerialNumberGenerator))
     \<lparr>sv_network := (if u \<in> {''mcpy://1'', ''mcpy://2'', ''mcpy://3''} then Some 0 else None)\<rparr>"
  by (simp_all add: bench3_def new_PausingCluster_def numbered Let_def upt_rec setup_run new_NetManager_def new_server_def)

definition with_out :: "uri \<Rightarrow> message list \<Rightarrow> (Records, unit) bench" where
  "with_out u ms = snd (on_sim (server_mod u (\<lambda>v. v\<lparr>out_messages := ms\<rparr>)) bench3)"


lemma with_out_facts:
  "b_trigger (with_out u ms) w = None" "b_trigger_set (with_out u ms) w = None" "b_nodes (with_out u ms) = b_nodes bench3"
  "quorum_segment (b_sim (with_out u ms)) = None" "full_cluster (b_sim (with_out u ms)) = Some 0"
  "nodes_on (b_sim (with_out u ms)) 0 = [''mcpy://1'', ''mcpy://2'', ''mcpy://3'']"
  "server_of (with_out u ms) w = (if w = u then (server_of bench3 u)\<lparr>out_messages := ms\<rparr> else server_of bench3 w)"
  by (simp_all add: with_out_def run_on_sim server_mod_run bench3_facts)

text \<open>Two turns forward the one message there is, and the third look finds the queue empty.\<close>

theorem single_trigger_tripped_witness:
  "let u = ''mcpy://1''; b = snd (set_trigger u WhenAllMessagesForwarded (with_out u [ping u ''mcpy://2'' 1]));
       r = run_till_triggers sql_envs (\<lambda>_ b. b) u 2 False b
   in fst r = Inr () \<and> out_messages (server_of (snd r) u) = []"
proof -
  let ?u = "''mcpy://1''"
  let ?b = "snd (set_trigger ?u WhenAllMessagesForwarded (with_out ?u [ping ?u ''mcpy://2'' 1]))"
  let ?r = "run_till_triggers sql_envs (\<lambda>_ b. b) ?u 2 False ?b"
  have ok: "fst ?r = Inr ()"
    by (simp add: set_trigger_def run run_till_triggers_def run_turns.simps numeral_2_eq_2 look_def condition_defs with_out_facts bench3_facts paused_def
        new_server_def run_on_sim node_next_out_def do_next_out_msg_def Network_post_in_message_def server_mod_run ping_def)
  obtain s s' where "is_tripped sql_envs WhenAllMessagesForwarded ?u s = (Inr True, s')" "snd ?r = paused True ?u s'"
    using single_trigger_tripped [of ?u "\<lambda>_ b. b" ?b WhenAllMessagesForwarded sql_envs 2 False "snd ?r"] ok
    by (auto simp: keeps_triggers_def set_trigger_def run with_out_facts prod_eq_iff)
  then show ?thesis using ok by (auto simp: run condition_defs paused_def Let_def)
qed

theorem set_times_out_silently_witness:
  "fst (run_till_triggers sql_envs (\<lambda>_ b. b) ''mcpy://1'' 5 False (snd (set_trigger ''mcpy://1'' WhenIsLeader bench3))) \<noteq> Inr () \<and>
   run_till_triggers sql_envs (\<lambda>_ b. b) ''mcpy://1'' 5 False (snd (add_trigger ''mcpy://1'' WhenIsLeader bench3)) =
     (Inr (), paused True ''mcpy://1'' (snd (add_trigger ''mcpy://1'' WhenIsLeader bench3)))"
proof -
  have never: "is_tripped sql_envs WhenIsLeader ''mcpy://1'' b' = (Inr False, b')"
    if "b_sim b' = b_sim (paused False ''mcpy://1'' bench3)" for b'
    using that by (simp add: condition_defs deck_of_def run paused_def bench3_facts new_server_def test_node_def new_node_def)
  have quiet: "quiet_server (server_of bench3 ''mcpy://1'')" "sv_network (server_of bench3 ''mcpy://1'') = Some 0"
    by (simp_all add: bench3_facts new_server_def quiet_server_def)
  note * = set_times_out_silently [OF quiet bench3_facts(4) bench3_facts(5) never, of 5]
  show ?thesis using * by blast
qed

theorem trigger_set_modes_witness:
  "set_tripped sql_envs True [WhenAllMessagesForwarded, WhenIsLeader] ''mcpy://1'' bench3 = (Inr False, bench3) \<and>
   set_tripped sql_envs False [WhenIsLeader, WhenHasLeader ''mcpy://2''] ''mcpy://1'' bench3 = (Inr True, bench3)"
proof -
  have looks: "is_tripped sql_envs WhenAllMessagesForwarded ''mcpy://1'' bench3 = (Inr True, bench3)"
    "is_tripped sql_envs WhenIsLeader ''mcpy://1'' bench3 = (Inr False, bench3)"
    "is_tripped sql_envs (WhenHasLeader ''mcpy://2'') ''mcpy://1'' bench3 = (Inr False, bench3)"
    by (simp_all add: condition_defs run deck_of_def bench3_facts new_server_def test_node_def new_node_def new_ClusterOps_def)
  have "\<And>c. c \<in> set [WhenAllMessagesForwarded, WhenIsLeader] \<Longrightarrow>
      is_tripped sql_envs c ''mcpy://1'' bench3 = (Inr (c = WhenAllMessagesForwarded), bench3)"
    "\<And>c. c \<in> set [WhenIsLeader, WhenHasLeader ''mcpy://2''] \<Longrightarrow> is_tripped sql_envs c ''mcpy://1'' bench3 = (Inr False, bench3)"
    using looks by (auto simp del: is_tripped.simps)
  from trigger_set_modes [of "[WhenAllMessagesForwarded, WhenIsLeader]", OF this(1)]
    trigger_set_modes [of "[WhenIsLeader, WhenHasLeader ''mcpy://2'']", OF this(2)] show ?thesis
    by (simp del: set_tripped.simps)
qed

theorem wrong_message_flushed_witness:
  "\<exists>t. is_tripped sql_envs (WhenMessageOut ''membership_change'' (Some ''mcpy://2'') True) ''mcpy://1''
      (with_out ''mcpy://1'' [ping ''mcpy://1'' ''mcpy://2'' 1, ping ''mcpy://1'' ''mcpy://3'' 2]) = (Inr True, t) \<and>
    out_messages (server_of t ''mcpy://1'') = [ping ''mcpy://1'' ''mcpy://2'' 1] \<and>
    in_messages (server_of t ''mcpy://3'') = [ping ''mcpy://1'' ''mcpy://3'' 2]"
  using wrong_message_flushed [of "with_out ''mcpy://1'' [ping ''mcpy://1'' ''mcpy://2'' 1, ping ''mcpy://1'' ''mcpy://3'' 2]"
      "''mcpy://1''" "[ping ''mcpy://1'' ''mcpy://2'' 1]" "ping ''mcpy://1'' ''mcpy://3'' 2" "ping ''mcpy://1'' ''mcpy://2'' 1"
      "''membership_change''" "Some ''mcpy://2''" 0 "''mcpy://3''" sql_envs]
  by (auto simp: with_out_facts bench3_facts new_server_def ping_def)

text \<open>The first of three servers is removed; the next server takes the place of the third.\<close>

theorem added_server_replaces_witness:
  "\<exists>t. cluster_add_node (\<lambda>_. test_node open_log () 7 new_SerialNumberGenerator) (snd (cluster_remove_node sql_envs ''mcpy://1'' bench3)) =
      (Inr ''mcpy://3'', t) \<and> b_nodes t = [''mcpy://2'', ''mcpy://3''] \<and>
    deck_state (server_of t ''mcpy://3'') = Some (test_node open_log () 7 new_SerialNumberGenerator)"
proof -
  let ?b = "snd (cluster_remove_node sql_envs ''mcpy://1'' bench3)"
  have b: "b_nodes ?b = [''mcpy://2'', ''mcpy://3'']" "quorum_segment (b_sim ?b) = None" "full_cluster (b_sim ?b) = Some 0"
    by (simp_all add: cluster_remove_node_def run run_on_sim NetManager_remove_node_def bench3_facts bench3_nodes server_cleanup_def
        server_mod_run the_full_def Network_remove_node_def net_mod_def)
  show ?thesis
    using added_server_replaces [of "''mcpy://3''" ?b 0 "\<lambda>_. test_node open_log () 7 new_SerialNumberGenerator"] b
    by (auto simp: numbered new_server_def)
qed

end
