(* ===== verification/Spec2Isabelle.thy ===== *)
theory Spec2Isabelle
  imports Engine_Invariants Deck_Props Suspension_Props Catchup_Props Hybrid_Props Log_Control_Props Astream_Props Snapshot_Props Triggers_Props
begin

text \<open>
  A verification library for \<open>raftengine\<close>, a Raft consensus engine in Python (\<open>src/raftengine\<close>).

  \<^bold>\<open>The program.\<close> A server embeds a \<open>Deck\<close> (\<open>deck/deck.py\<close>) and gives it a pilot: an object with the log, the
  transport and the application. The deck owns one role object at a time (\<open>roles/follower.py\<close>,
  \<open>roles/candidate.py\<close>, \<open>roles/leader.py\<close>, all on \<open>roles/base_role.py\<close>), one \<open>ClusterOps\<close>
  (\<open>deck/cluster_ops.py\<close>: members, settings, changes of membership), one \<open>EventControl\<close>
  (\<open>deck/event_control.py\<close>: handlers and events) and one \<open>MessageCodec\<close> (\<open>messages/\<close>). A role handles a
  message or a timer, reads and writes the log through \<open>LogAPI\<close>, hands messages to the pilot and arms the next
  timer. Three logs implement \<open>LogAPI\<close> directly: \<open>extras/memory_log\<close>, \<open>extras/sqlite_log\<close>, \<open>extras/lmdb_log\<close>. The fourth,
  \<open>extras/hybrid_log\<close>, combines two of them: it writes to LMDB, a second process copies the records to an SQLite archive and prunes the
  first with a snapshot. \<open>extras/astream_rpc\<close> is a transport a pilot can use, \<open>deck/log_control.py\<close> sets the levels of the library's loggers.

  \<^bold>\<open>Theories and sources: the engine.\<close>
  \<^item> \<open>Prelude\<close>: the error type \<open>exn\<close>, results \<open>exn + 'a\<close>, state passing with exceptions (\<open>bindE\<close>, \<open>forE\<close>,
    \<open>tryE\<close>), dictionaries in insertion order, the locale \<open>method_rel\<close> of relations every control structure keeps, and the
    collection \<open>run\<close>. \<open>Py_Text\<close>: the methods of \<open>str\<close> the controller and the transport use.
  \<^item> \<open>Api_Types\<close>: \<open>api/types.py\<close>, \<open>api/log_api.py\<close>, \<open>api/snapshot_api.py\<close>, \<open>api/deck_config.py\<close>, JSON values; the LogAPI methods are
    the record \<open>LogAPI\<close> of operations on a log state.
  \<^item> \<open>Messages\<close>: the message classes and \<open>message_codec.py\<close>; decoding inverts encoding.
  \<^item> \<open>Event_Control\<close>: \<open>deck/event_control.py\<close>.
  \<^item> \<open>Node\<close>: the state of one engine as the record \<open>node\<close> (deck, role, cluster operations, log, application, timers,
    tasks, outbox, clock) and the pilot as the record \<open>env\<close>; the deck operations every role calls.
  \<^item> \<open>Cluster_Ops\<close>, \<open>Campaign\<close>, \<open>Follower_Role\<close>, \<open>Leader_Role\<close>, \<open>Candidate_Role\<close>: the operations of \<open>cluster_ops.py\<close> and
    the roles. \<open>Campaign\<close> holds the part of the candidate a follower also runs, \<open>Leader_Role\<close> the part of cluster
    operations that drives the leader.
  \<^item> \<open>Deck\<close>: dispatch of messages and timers, the operations of DeckAPI, and the event loop as the step
    relation \<open>loop_step\<close>: one step is one message, API call, due timer or scheduled task, run to its end. The sends of the pilot
    return without waiting there, as in the simulated cluster; \<open>Suspension_Props\<close> looks at a pilot that waits.
  \<^item> \<open>Engine_Rel\<close>: a transitive relation kept by each primitive is kept by every operation of the engine, by every step and so along all
    runs. The locales \<open>engine_prims\<close>, \<open>engine_campaigns\<close>, \<open>engine_roles\<close>, \<open>engine_loop\<close> extend one another: each adds what the relation
    has to do with the next group of operations (campaigns, changes of role, the loop). \<open>engine_rel\<close> is the case of a relation that ignores roles and terms,
    a sublocale of all four. \<open>Engine_Terms\<close>: the relation for terms and configurations, on any log of the locale \<open>term_log\<close>.
  \<^item> \<open>Example_Engine\<close>, \<open>Log_Client\<close>: concrete engines for the examples, and the locale \<open>log_client\<close>: an engine on any log with the
    contract, interpreted on the three logs.

  \<^bold>\<open>Theories and sources: the extras.\<close>
  \<^item> \<open>Log_Api\<close>: the abstract log (\<open>view\<close>) and what the engine relies on, the locales \<open>raft_log\<close> and \<open>stable_log\<close>. The documentation in \<open>log_api.py\<close> asks for
    two things more, that a change of term clears the vote and that a snapshot is the baseline of the commit and applied indexes
    (\<open>clears_vote\<close>, \<open>snapshot_baseline\<close>); no log does them.
    \<open>Memory_Log\<close>, \<open>Sqlite_Log\<close>, \<open>Lmdb_Log\<close>: the three logs, each an interpretation of the contract. A database is the state its last transaction
    committed; the order of the LMDB keys is a parameter, as it depends on the byte order of the machine: by index (\<open>id\<close>) on a big-endian one, \<open>le_rank\<close> on
    a little-endian one, where the contract holds up to index 255 only.
  \<^item> \<open>Sqlite_Writer\<close>: the writer process of the hybrid log (\<open>hybrid_log/sqlite_writer.py\<close>): the control object, the commands, the tasks that copy, push
    and snapshot, on the two files both processes share. \<open>Hybrid_Log\<close>: every operation of \<open>hybrid_log/hybrid_log.py\<close>.
  \<^item> \<open>Log_Control\<close>: \<open>deck/log_control.py\<close> on a model of the loggers of the process.
  \<^item> \<open>Astream_Rpc\<close>: \<open>astream_rpc/rpc_client.py\<close> and \<open>rpc_server.py\<close> on streams of bytes.

  \<^bold>\<open>Theories and sources: the simulated cluster.\<close>
  \<^item> \<open>Net_Sim\<close>: the network that carries several engines in one process (\<open>src/dev_tools/network_sim.py\<close>) and the servers on it with
    their queues, blocking and crashes (\<open>src/dev_tools/pausing_server.py\<close>), each with the engine \<open>test_node\<close>, which handles a message before
    \<open>on_message\<close> returns.
  \<^item> \<open>Triggers\<close>: running one of these servers until a condition holds (\<open>src/dev_tools/triggers.py\<close> and \<open>run_till_triggers\<close>), and the cluster object
    that makes and removes servers (\<open>src/dev_tools/pausing_cluster.py\<close>).

  \<^bold>\<open>Theories and sources: applications.\<close>
  \<^item> \<open>Counters_App\<close>: the counters example (\<open>src/examples/counters/src\<close>): the counters, their file and snapshots, collector, dispatcher and pilot, the
    client with its redirections and retries, the commands of a server outside the log. \<open>counters_env\<close> is the pilot as the \<open>env\<close> of an engine.
  \<^item> \<open>Ops_App\<close>: the applications of the tests (\<open>src/dev_tools/operations.py\<close>), with snapshots sent in several chunks; \<open>totals_env\<close> puts them under an engine.

  \<^bold>\<open>What is proved.\<close>
  \<^item> \<open>Quorum_Props\<close>: candidates elected by the same members share a voter; a majority makes a leader that works; with an odd number of members
    committed records and elections meet. Where this fails: a node that steps down votes twice in a term; half of an even cluster commits.
  \<^item> \<open>Follower_Props\<close>: the decision on a vote request; an append that fits is stored and acknowledged; commit indexes move forward and records are
    applied in order, once each. A message with previous index 0 empties the log whatever its term.
  \<^item> \<open>Leader_Props\<close>, \<open>Catchup_Props\<close> and the end of this theory: a command is stored, registered and broadcast; a record with its votes is committed,
    applied and answered; what a catch-up message holds, and that it brings the follower to the leader's log, through the codec.
  \<^item> \<open>Cluster_Props\<close>: additions and removals of members, one at a time, reversible, readable from their records.
  \<^item> \<open>Deck_Props\<close>: exceptions of handlers are recorded, what a waiting caller finds, local snapshots; a message that stays registered blocks the
    deck, an error answer parts the cluster. \<open>Suspension_Props\<close>: a campaign that is suspended in a send and demoted meanwhile lowers the stored term.
  \<^item> \<open>Engine_Invariants\<close>: invariants of all reachable states of an engine: one role timer, a consistent registry of events, a broken log stays broken.
    \<open>Term_Props\<close>: a stored configuration is never lost; with a pilot that sends without waiting the term of a node never goes down and a candidate counts from it.
  \<^item> \<open>Net_Props\<close>: the locale \<open>cluster\<close> lifts what holds along the runs of one engine to a cluster through splits, healing, isolation, crashes and
    recoveries, so no term goes down in a cluster either; delivery in order, an end of it, separation of segments, healing. Where this fails: a lost message
    ends the delivery, a server added during a split stays behind.
  \<^item> The log theories: the three contracts (refinement of \<open>view\<close>), reopening a file, the pruning loop. \<open>Hybrid_Props\<close>: a copy task ends;
    when the store orders its keys by index, every record stays readable through any sequence of inserts, marks, limits, installed snapshots and
    copy tasks, each run as one step and started when no snapshot is on its way (the relation \<open>archiving\<close>). Where this fails: a copy task that starts
    earlier, a change of term, a deletion, a restart, a limit past the end of the store.
  \<^item> \<open>Log_Control_Props\<close>: the context manager restores every logger; what applying a configuration does; the temporary controller resets them.
  \<^item> \<open>Astream_Props\<close>: overlapping calls get their own results, no caller is left waiting; a lost connection disables the client, a call that raises
    takes the next request with it, a short read ends the connection.
  \<^item> \<open>Counters_Props\<close>: a call through the collector is the call itself, a follower that commits additions has every count raised by their sum, a client
    returns the first result within its retries. Where this fails: the snapshot that is sent holds later commands too, redirections never end.
  \<^item> \<open>Snapshot_Props\<close>: the locale \<open>snapshot_app\<close> says what an application promises of its chunks, interpreted on the totals and on the counters; \<open>snapshot_sending\<close>
    adds a leader and a follower on logs with the contract. The exchange of chunks ends and leaves the follower with the snapshot.
  \<^item> \<open>Triggers_Props\<close>: a run that waits for one trigger returns when it has tripped. Where this fails: a set of triggers times out in silence, the mode
    \<open>or\<close> trips at once, the message handed over is not the one waited for, a new server takes the place of another.

  \<^bold>\<open>Modelling choices.\<close> Python's integers are \<open>int\<close>, clock times rational numbers, a dictionary an association list in insertion order. A text that
  \<open>json.dumps\<close> made is represented by its value, except in \<open>Astream_Rpc\<close>, where bytes matter and the codec is a parameter with its round trip as a
  hypothesis on the values that are sent. A raised exception keeps the assignments before it. A coroutine runs without interruption between two points
  where it waits, and the sends of the pilot are not such points except in \<open>Suspension_Props\<close>; interleaving is in the step relations (\<open>loop_step\<close>, \<open>archiving\<close>, \<open>client_step\<close>). Fuel counts the
  rounds of \<open>deliver_all_pending\<close>, as engines may answer each other for ever (\<open>out_delivery_ends\<close> says how much is enough when nothing is handled); the calls of
  \<open>client_issue\<close>, as redirections are not bounded (\<open>client_retries\<close>: one more than the retries without redirections); the chunks of \<open>exchange\<close>
  (\<open>snapshot_transferred\<close>: one more than the slots); and the turns of \<open>run_till_triggers\<close>, which the code ends by the clock.
  The other loops are structural, or have a measure (pruned records, unread bytes, dots of a name), and the writer's loops, which the code does not bound, are partial functions into \<open>option\<close>, with theorems that
  say when they return (\<open>copy_completes\<close>) and when they do not (\<open>copy_spins\<close>). The pilot, random timeouts, the text of a traceback and sizes of
  files are parameters.

  \<^bold>\<open>Not modelled.\<close> The abstract classes \<open>api/pilot_api.py\<close> and \<open>api/deck_api.py\<close> have no code. \<open>extras/aiozmq_rpc\<close> and \<open>extras/grpc_rpc\<close> pass their arguments on to
  third-party packages and generated code. Log output is left out, as are \<open>__repr__\<close> and \<open>__str__\<close>. The socket between the hybrid log and its writer carries
  whole messages. In the simulated cluster the test trace and the interceptors are left out, and so is the case of \<open>unsplit\<close> where a server is still on the common
  network: the loop then changes the dictionary it runs over. Of \<open>PausingServer\<close> and \<open>Testdeck\<close> the methods
  that only call the deck, the injected faults and the switch for timers are left out, of the cluster object the background delivery and the sequences of the tests
  (\<open>dev_tools/sequences.py\<close>). The rest of \<open>dev_tools\<close> records, formats and stores test traces for the documentation. Of the example only what
  runs inside a server and its client is modelled: process management, the other direct commands, performance tests and command line tools are scripts around it.
  The tests and the documentation are not part of the engine.
\<close>

section \<open>From the leader's log to the follower's\<close>

lemma run_from_content: "run_from i (map content rs) = run_from i rs"
  by (induction rs arbitrary: i) simp_all

lemma plain_content: "plain (content r) = plain r"
  by (simp add: plain_def)

lemma run_from_ents:
  "(\<And>i. a \<le> i \<Longrightarrow> i \<le> b \<Longrightarrow> rec_index (f i) = i) \<Longrightarrow> run_from a (map f [a..b])"
proof (induction "nat (b - a + 1)" arbitrary: a)
  case 0
  then have "[a..b] = []" by simp
  then show ?case by simp
next
  case (Suc n)
  then have "[a..b] = a # [a + 1..b]" "n = nat (b - (a + 1) + 1)" by (simp_all add: upto_rec1)
  with Suc show ?case by simp
qed

text \<open>A message of the follower's own term goes straight to its handler.\<close>

lemma follower_takes_append:
  assumes "\<not> f_stopped (follower s)" and "msg_term h = get_term (log E) (n_log s)"
  shows "follower_on_message E (AppendEntriesMessage h es ci) s = on_append_entries E (AppendEntriesMessage h es ci) h es ci s"
  using assms by (simp add: follower_on_message_def base_on_message_def run route_def follower_routes_def)

text \<open>C6. A follower that has the leader's log up to some record catches up: the bytes the leader hands to its pilot decode
  at the follower to the message that was sent, the follower stores every record of it, identical with the leader's,
  moves its commit index to the leader's as far as its log reaches, applies the commands up to there, and
  acknowledges its new last index.\<close>

theorem catchup_converges:
  assumes "log_client api I ents E" and "I (n_log s)" and "v = view api ents (n_log s)" and "v_config v = Some c"
    and "snap_base (v_snap v) \<le> mi" and "mi \<le> v_last v" and "max_entries_per_message (settings c) = m" and "v_last v - (mi + 1) \<le> m"
    and "\<forall>i > mi. \<forall>r. v_ents v i = Some r \<longrightarrow> plain r"
    and "log_client api' I' ents' E'" and "I' (n_log f)" and "w = view api' ents' (n_log f)" and "\<not> f_stopped (follower f)"
    and "v_term w = v_term v" and "v_last w = mi" and "v_last_term w = term_at v mi" and "app_total E'"
    and "snap_base (v_snap w) \<le> v_applied w" and "\<forall>i r. v_ents w i = Some r \<longrightarrow> code r \<noteq> cluster_config"
  shows "\<exists>t data sn msg f'. send_catchup E u mi s = (Inr (), t) \<and> outbox t = outbox s @ [SendMessage (Some u) data sn] \<and>
     deck_decode data f = (Inr msg, f) \<and> follower_on_message E' msg f = (Inr (), f') \<and> I' (n_log f') \<and>
     (\<forall>i. mi < i \<and> i \<le> v_last v \<longrightarrow> ents' (n_log f') i = ents (n_log s) i) \<and>
     (\<forall>i \<le> mi. ents' (n_log f') i = ents' (n_log f) i) \<and> v_last (view api' ents' (n_log f')) = v_last v \<and>
     v_commit (view api' ents' (n_log f')) = max (min (v_commit v) (v_last v)) (v_commit w) \<and>
     (\<exists>h. outbox f' = outbox f @ [response msg (AppendResponseMessage h (v_last v) True (Some (my_uri E)) sn)])"
proof -
  let ?es = "map (\<lambda>i. the (v_ents v i)) [mi + 1..v_last v]"
  have there: "\<exists>r. v_ents v i = Some r \<and> rec_index r = i" if "mi < i" "i \<le> v_last v" for i
    using log_client.ents_some [OF assms(1,2), of i] assms(3,5) that by simp
  have es: "list_all plain ?es" "list_all (\<lambda>r. code r \<noteq> cluster_config) ?es"
    using there assms(9) by (force simp: list_all_iff plain_def)+
  have cons: "run_from (mi + 1) ?es" by (rule run_from_ents) (use there in force)
  have len: "int (length ?es) = v_last v - mi" using assms(6) by simp
  obtain t x rs where t: "send_catchup E u mi s = (Inr (), t)" "outbox t = outbox s @ [x]"
      "append_sent (my_uri E) (v_term v) mi (term_at v mi) rs (v_commit v) u x" "map content rs = ?es"
    using log_client.catchup_run [OF assms(1,2), of c mi u] assms(4-8) cut_changes_all [OF es(2)] unfolding assms(3)
    by (auto simp del: view_simps) (simp add: view_simps(12))
  obtain sn where x: "x = SendMessage (Some u) (fst (encode_message (AppendEntriesMessage \<lparr>sender = my_uri E, receiver = Some u,
      serial_number = sn, msg_term = v_term v, prevLogIndex = mi, prevLogTerm = term_at v mi\<rparr> rs (v_commit v)))) sn"
    using t(3) by (auto simp: append_sent_def Let_def encode_message_def)
  define h where "h = \<lparr>sender = my_uri E, receiver = Some u, serial_number = sn, msg_term = v_term v, prevLogIndex = mi,
      prevLogTerm = term_at v mi\<rparr>"
  let ?m = "AppendEntriesMessage h rs (v_commit v)"
  have dec: "deck_decode (fst (encode_message ?m)) f = (Inr ?m, f)"
    unfolding deck_decode_def run_zoomE encode_message_def fst_conv decode_message_json by simp
  have rs: "run_from (mi + 1) rs" "list_all plain rs"
    using cons es(1) unfolding t(4) [symmetric] run_from_content by (simp_all add: list.pred_map comp_def plain_content)
  from rs log_client.append_and_commit [OF assms(10,11), of h rs ?m "v_commit v"] assms(12-19) obtain f' where
    f': "on_append_entries E' ?m h rs (v_commit v) f = (Inr (), f')" "I' (n_log f')"
      "view api' ents' (n_log f') = (fold insert_view rs w)\<lparr>v_commit := max (min (v_commit v) (v_last (fold insert_view rs w)))
          (v_commit (fold insert_view rs w)), v_applied := max (min (v_commit v) (v_last (fold insert_view rs w)))
          (v_applied (fold insert_view rs w))\<rparr>"
      "outbox f' = outbox f @ [response ?m (AppendResponseMessage (append_hdr (my_uri E') E' f h) (v_last (fold insert_view rs w)) True
          (Some (sender h)) (serial_number h))]"
    by (auto simp: h_def)
  have n: "mi + int (length rs) = v_last v" using len arg_cong [OF t(4), of length] by simp
  have w: "v_last (fold insert_view rs w) = v_last v" "v_commit (fold insert_view rs w) = v_commit w"
      "v_ents (fold insert_view rs w) = (\<lambda>i. if mi < i \<and> i \<le> v_last v then Some (content (rs ! nat (i - mi - 1))) else v_ents w i)"
    using fold_insert_view [of w rs] fold_insert_ents [of w rs] rs(1) n assms(15) by (simp_all cong: if_cong)
  have e': "ents' (n_log f') = v_ents (fold insert_view rs w)" using arg_cong [OF f'(3), of v_ents] by simp
  have "ents' (n_log f') i = ents (n_log s) i" if "mi < i" "i \<le> v_last v" for i
  proof -
    define k where "k = nat (i - mi - 1)"
    have k: "k < length rs" "mi + 1 + int k = i" using that n by (simp_all add: k_def)
    then have "content (rs ! k) = ?es ! k" unfolding t(4) [symmetric] by simp
    also have "\<dots> = the (v_ents v i)" using k n that by simp
    finally show ?thesis using that there [OF that] assms(3) unfolding e' w(3) by (auto simp: k_def)
  qed
  moreover have "\<forall>i \<le> mi. ents' (n_log f') i = ents' (n_log f) i" unfolding e' w(3) using assms(12) by auto
  moreover have "v_last (view api' ents' (n_log f')) = v_last v"
      "v_commit (view api' ents' (n_log f')) = max (min (v_commit v) (v_last v)) (v_commit w)"
    unfolding f'(3) using w by simp_all
  moreover have "follower_on_message E' ?m f = (Inr (), f')"
    using follower_takes_append [OF assms(13), of h E'] f'(1) assms(12,14) log_client.log_E [OF assms(10)] by (simp add: h_def)
  moreover have "\<exists>h'. outbox f' = outbox f @ [response ?m (AppendResponseMessage h' (v_last v) True (Some (my_uri E)) sn)]"
    using f'(4) w(1) by (auto simp: h_def)
  ultimately show ?thesis using t(1,2) x dec f'(2) unfolding h_def [symmetric]
    by (intro exI [of _ t] exI [of _ "fst (encode_message ?m)"] exI [of _ sn] exI [of _ ?m] exI [of _ f'])
      (simp add: h_def del: view_simps)
qed

theorem catchup_converges_witness:
  "\<exists>t data sn msg f'. send_catchup (example_env memory_api ''n1'') ''n2'' 0 (example_node example_member_log) = (Inr (), t) \<and>
     outbox t = [SendMessage (Some ''n2'') data sn] \<and>
     deck_decode data (example_node (new_MemoryLog 0)) = (Inr msg, example_node (new_MemoryLog 0)) \<and>
     follower_on_message (example_env memory_api ''n2'') msg (example_node (new_MemoryLog 0)) = (Inr (), f') \<and>
     mem_ents (n_log f') 2 = Some (example_rec 2 1)"
proof -
  let ?s = "example_node example_member_log" and ?f = "example_node (new_MemoryLog 0)"
  let ?v = "mem_view (n_log ?s)" and ?w = "mem_view (n_log ?f)"
  obtain c0 where c0: "?v = (mem_view example_log)\<lparr>v_config := Some c0\<rparr>" "config_same example_config c0"
    using example_member_view by auto
  have v: "v_config ?v = Some c0" "snap_base (v_snap ?v) \<le> 0" "0 \<le> v_last ?v" "v_last ?v - (0 + 1) \<le> max_entries_per_message (settings c0)"
      "\<forall>i > 0. \<forall>r. v_ents ?v i = Some r \<longrightarrow> plain r"
    using c0(2) unfolding c0(1) by (auto simp: example_view_simps config_same_def example_config_def init_settings_def
        example_init_def plain_def split: if_splits simp del: view_simps)
  have w: "\<not> f_stopped (follower ?f)" "v_term ?w = v_term ?v" "v_last ?w = 0" "v_last_term ?w = term_at ?v 0"
      "app_total (example_env memory_api ''n2'')" "snap_base (v_snap ?w) \<le> v_applied ?w"
      "\<forall>i r. v_ents ?w i = Some r \<longrightarrow> code r \<noteq> cluster_config"
    unfolding c0(1) term_at_def
    by (simp_all add: example_view_simps example_node_def new_node_def new_Follower_def app_total_def example_env_def run
        del: view_simps) (simp_all add: new_MemoryLog_def mem_ents_def)
  have inv: "mem_inv (n_log ?s)" "mem_inv (n_log ?f)" using example_member_log_inv mem_inv_new by simp_all
  obtain t data sn msg f' where t: "send_catchup (example_env memory_api ''n1'') ''n2'' 0 ?s = (Inr (), t)"
      "outbox t = outbox ?s @ [SendMessage (Some ''n2'') data sn]" "deck_decode data ?f = (Inr msg, ?f)"
      "follower_on_message (example_env memory_api ''n2'') msg ?f = (Inr (), f')"
      "\<forall>i. 0 < i \<and> i \<le> v_last ?v \<longrightarrow> mem_ents (n_log f') i = mem_ents (n_log ?s) i"
    using catchup_converges [OF example_client inv(1) refl v(1-3) refl v(4,5) example_client inv(2) refl w, of "''n1''" "''n2''"]
    by blast
  have "v_last ?v = 2" "v_ents ?v 2 = Some (example_rec 2 1)" unfolding c0(1) by (simp_all add: example_view_simps del: view_simps)
  with t show ?thesis by (auto simp: example_node_def new_node_def)
qed

end
